(* ===== verification/Prelude.thy ===== *)
theory Prelude
  imports
    Complex_Main
    "HOL-Library.Char_ord"
    "HOL-Library.List_Lexorder"
    "HOL-Library.Product_Lexorder"
    "HOL-Library.Option_ord"
    "HOL-Library.Sublist"
begin

text \<open>
  Shared material: results of computations that may raise, Python's \<open>str\<close> operations on ASCII
  strings, decimal rendering of integers, maxima with a default, sorting by a key, and the
  contract of the append-only versioned tables (locale \<open>version_log\<close>) that every stage's
  repository provides.
\<close>

section \<open>Collections of facts\<close>

named_theorems result_simps \<open>how results are bound and inverted\<close>
named_theorems fp_bounds \<open>bounds on rounded floating point expressions\<close>

section \<open>Results\<close>

text \<open>A computation that may raise returns \<open>Inl\<close> of the exception or \<open>Inr\<close> of its value.\<close>

type_synonym ('e, 'a) result = "'e + 'a"

definition bind_result :: "('e, 'a) result \<Rightarrow> ('a \<Rightarrow> ('e, 'b) result) \<Rightarrow> ('e, 'b) result" where
  "bind_result r f = (case r of Inl e \<Rightarrow> Inl e | Inr a \<Rightarrow> f a)"

lemma bind_result_simps [simp, result_simps]:
  "bind_result (Inl e) f = Inl e"
  "bind_result (Inr a) f = f a"
  by (simp_all add: bind_result_def)

lemma bind_result_Inr [result_simps]:
  "bind_result r f = Inr b \<longleftrightarrow> (\<exists>a. r = Inr a \<and> f a = Inr b)"
  by (cases r) simp_all

lemma bind_result_Inl [result_simps]:
  "bind_result r f = Inl e \<longleftrightarrow> r = Inl e \<or> (\<exists>a. r = Inr a \<and> f a = Inl e)"
  by (cases r) auto

text \<open>Guards: \<open>require_that b e\<close> is \<open>if not b: raise e\<close>.\<close>

definition require_that :: "bool \<Rightarrow> 'e \<Rightarrow> ('e, unit) result" where
  "require_that b e = (if b then Inr () else Inl e)"

lemma require_that_simps [simp, result_simps]:
  "require_that True e = Inr ()"
  "require_that False e = Inl e"
  "require_that b e = Inr u \<longleftrightarrow> b"
  "require_that b e = Inl e' \<longleftrightarrow> \<not> b \<and> e' = e"
  by (auto simp: require_that_def)

text \<open>A loop over a list that stops at the first exception.\<close>

fun fold_result :: "('a \<Rightarrow> 's \<Rightarrow> ('e, 's) result) \<Rightarrow> 'a list \<Rightarrow> 's \<Rightarrow> ('e, 's) result" where
  "fold_result f [] s = Inr s"
| "fold_result f (x # xs) s = bind_result (f x s) (fold_result f xs)"

lemma fold_result_append:
  "fold_result f (xs @ ys) s = bind_result (fold_result f xs s) (fold_result f ys)"
proof (induction xs arbitrary: s)
  case Nil
  then show ?case by simp
next
  case (Cons x xs)
  then show ?case by (cases "f x s") simp_all
qed

lemma fold_result_invariant:
  assumes "P s"
    and "\<And>x t. x \<in> set xs \<Longrightarrow> P t \<Longrightarrow> \<exists>t'. f x t = Inr t' \<and> P t'"
  shows "\<exists>t. fold_result f xs s = Inr t \<and> P t"
  using assms
proof (induction xs arbitrary: s)
  case Nil
  then show ?case by simp
next
  case (Cons x xs)
  from Cons.prems obtain t where "f x s = Inr t" "P t" by (metis list.set_intros(1))
  with Cons.IH[of t] Cons.prems(2) show ?case by simp
qed

section \<open>Strings\<close>

text \<open>
  \<open>str.upper\<close> and \<open>str.lower\<close> on ASCII letters. The values these are applied to (evidence
  strengths, dimension names, statuses) are ASCII constants of the program.
\<close>

definition upper_char :: "char \<Rightarrow> char" where
  "upper_char c =
     (if 97 \<le> (of_char c :: nat) \<and> (of_char c :: nat) \<le> 122
      then char_of ((of_char c :: nat) - 32) else c)"

definition lower_char :: "char \<Rightarrow> char" where
  "lower_char c =
     (if 65 \<le> (of_char c :: nat) \<and> (of_char c :: nat) \<le> 90
      then char_of ((of_char c :: nat) + 32) else c)"

definition str_upper :: "string \<Rightarrow> string" where
  "str_upper s = map upper_char s"

definition str_lower :: "string \<Rightarrow> string" where
  "str_lower s = map lower_char s"

lemma length_str_upper [simp]: "length (str_upper s) = length s"
  by (simp add: str_upper_def)

lemma str_upper_eq_Nil [simp]: "str_upper s = [] \<longleftrightarrow> s = []"
  by (simp add: str_upper_def)

text \<open>An optional string used as a condition (\<open>if s:\<close>): neither \<open>None\<close> nor empty.\<close>

definition truthy :: "string option \<Rightarrow> bool" where
  "truthy s = (case s of None \<Rightarrow> False | Some t \<Rightarrow> t \<noteq> [])"

lemma truthy_simps [simp]: "truthy None = False" "truthy (Some t) = (t \<noteq> [])"
  by (simp_all add: truthy_def)

lemma truthyE: "truthy s \<Longrightarrow> (\<And>t. s = Some t \<Longrightarrow> t \<noteq> [] \<Longrightarrow> P) \<Longrightarrow> P"
  by (cases s) auto

text \<open>Membership of an optional string in a tuple of constants.\<close>

definition opt_in :: "string option \<Rightarrow> string list \<Rightarrow> bool" where
  "opt_in s xs = (case s of None \<Rightarrow> False | Some t \<Rightarrow> t \<in> set xs)"

subsection \<open>Decimal rendering\<close>

fun show_nat :: "nat \<Rightarrow> string" where
  "show_nat n = (if n < 10 then [char_of (48 + n)] else show_nat (n div 10) @ [char_of (48 + n mod 10)])"

declare show_nat.simps [simp del]

definition show_int :: "int \<Rightarrow> string" where
  "show_int i = (if i < 0 then CHR ''-'' # show_nat (nat (- i)) else show_nat (nat i))"

fun read_digits :: "string \<Rightarrow> nat" where
  "read_digits [] = 0"
| "read_digits (c # cs) = ((of_char c :: nat) - 48) * 10 ^ length cs + read_digits cs"

lemma read_digits_snoc: "read_digits (s @ [c]) = read_digits s * 10 + ((of_char c :: nat) - 48)"
  by (induction s) (simp_all add: algebra_simps)

lemma read_show_nat [simp]: "read_digits (show_nat n) = n"
proof (induction n rule: show_nat.induct)
  case (1 n)
  show ?case
    by (cases "n < 10"; subst show_nat.simps) (simp_all add: read_digits_snoc 1)
qed

lemma show_nat_digits: "c \<in> set (show_nat n) \<Longrightarrow> 48 \<le> (of_char c :: nat) \<and> (of_char c :: nat) \<le> 57"
proof (induction n arbitrary: c rule: show_nat.induct)
  case (1 n)
  show ?case
  proof (cases "n < 10")
    case True
    with "1.prems" show ?thesis by (subst (asm) show_nat.simps) simp
  next
    case False
    then have "c \<in> set (show_nat (n div 10)) \<or> c = char_of (48 + n mod 10)"
      using "1.prems" by (subst (asm) show_nat.simps) auto
    with "1.IH"[OF False] show ?thesis by auto
  qed
qed

lemma show_nat_inject: "show_nat m = show_nat n \<longleftrightarrow> m = n"
  by (metis read_show_nat)

lemma show_nat_no_minus: "CHR ''-'' \<notin> set (show_nat n)"
  using show_nat_digits[of "CHR ''-''" n] by auto

lemma show_nat_no_colon: "CHR '':'' \<notin> set (show_nat n)"
  using show_nat_digits[of "CHR '':''" n] by auto

lemma show_int_no_colon: "CHR '':'' \<notin> set (show_int i)"
  by (auto simp: show_int_def show_nat_no_colon)

lemma show_int_inject: "show_int i = show_int j \<longleftrightarrow> i = j"
proof
  assume eq: "show_int i = show_int j"
  consider "i < 0" "j < 0" | "0 \<le> i" "0 \<le> j" | "i < 0" "0 \<le> j" | "0 \<le> i" "j < 0" by linarith
  then show "i = j"
  proof cases
    case 1 with eq show ?thesis by (simp add: show_int_def show_nat_inject)
  next
    case 2 with eq show ?thesis by (simp add: show_int_def show_nat_inject)
  next
    case 3
    with eq have "CHR ''-'' # show_nat (nat (- i)) = show_nat (nat j)" by (simp add: show_int_def)
    then have "CHR ''-'' \<in> set (show_nat (nat j))" by (metis list.set_intros(1))
    then show ?thesis by (simp add: show_nat_no_minus)
  next
    case 4
    with eq have "CHR ''-'' \<in> set (show_nat (nat i))" by (simp add: show_int_def)
    then show ?thesis by (simp add: show_nat_no_minus)
  qed
qed simp

text \<open>A separator that does not occur in the suffixes makes concatenation injective.\<close>

lemma append_sep_inject:
  assumes "c \<notin> set s" and "c \<notin> set t" and "a @ c # s = b @ c # t"
  shows "a = b \<and> s = t"
proof -
  have cut: "takeWhile (\<lambda>x. x \<noteq> c) (rev (a @ c # s)) = rev s" if "c \<notin> set s" for a s
    using that by (auto simp: takeWhile_append)
  from cut[OF assms(1)] cut[OF assms(2)]
  have "s = t" using assms(3) by (metis rev_rev_ident)
  with assms(3) show ?thesis by simp
qed

section \<open>Maxima with a default\<close>

definition max_default :: "'a::linorder \<Rightarrow> 'a list \<Rightarrow> 'a" where
  "max_default d xs = (case xs of [] \<Rightarrow> d | y # ys \<Rightarrow> fold max ys y)"

lemma fold_max_ge: "(y::'a::linorder) \<le> fold max ys y" and fold_max_upper: "x \<in> set ys \<Longrightarrow> x \<le> fold max ys y"
proof (induction ys arbitrary: y)
  case (Cons a ys)
  { case 1 show ?case using Cons.IH(1)[of "max a y"] by simp
  next
    case 2 then show ?case using Cons.IH(1)[of "max a y"] Cons.IH(2)[of "max a y"] by auto }
qed auto

lemma fold_max_in: "fold max ys (y::'a::linorder) \<in> set (y # ys)"
proof (induction ys arbitrary: y)
  case (Cons a ys)
  show ?case using Cons.IH[of "max a y"] by (auto simp: max_def split: if_splits)
qed simp

lemma max_default_upper: "x \<in> set xs \<Longrightarrow> x \<le> max_default d xs"
  by (cases xs) (auto simp: max_default_def fold_max_ge fold_max_upper)

lemma max_default_in: "xs \<noteq> [] \<Longrightarrow> max_default d xs \<in> set xs"
  by (cases xs) (use fold_max_in in \<open>auto simp: max_default_def\<close>)

lemma max_default_Nil [simp]: "max_default d [] = d"
  by (simp add: max_default_def)

lemma max_default_singleton [simp]: "max_default d [x] = x"
  by (simp add: max_default_def)

lemma max_default_snoc: "max_default d (xs @ [x]) = (if xs = [] then x else max x (max_default d xs))"
  by (cases xs) (simp_all add: max_default_def)

section \<open>Rows of a table by key\<close>

text \<open>The last element of a list that satisfies a predicate.\<close>

definition find_last :: "('a \<Rightarrow> bool) \<Rightarrow> 'a list \<Rightarrow> 'a option" where
  "find_last P xs = find P (rev xs)"

lemma find_SomeD: "find P xs = Some x \<Longrightarrow> x \<in> set xs \<and> P x"
  by (induction xs) (auto split: if_splits)

lemma find_append: "find P (xs @ ys) = (case find P xs of None \<Rightarrow> find P ys | Some x \<Rightarrow> Some x)"
  by (induction xs) auto

lemma find_last_snoc: "find_last P (xs @ [x]) = (if P x then Some x else find_last P xs)"
  by (simp add: find_last_def)

section \<open>Append-only versioned tables\<close>

text \<open>
  Predictions, decisions, RCA evaluations, degradation signals, execution attempts, outcome
  observations and attributions are stored the same way: rows are only appended, and a row of a
  key (payment attempt, episode, command) gets the version \<open>max + 1\<close>, where \<open>max\<close> is the
  \<open>coalesce(max(version), 0)\<close> the repository reads. The locale states that contract over the
  operations a service calls.
\<close>

locale version_log =
  fixes rows :: "'s \<Rightarrow> 'r list"
    and key :: "'r \<Rightarrow> 'k"
    and version :: "'r \<Rightarrow> int"
    and max_version :: "'s \<Rightarrow> 'k \<Rightarrow> int"
    and append :: "'r \<Rightarrow> 's \<Rightarrow> 's"
  assumes rows_append: "rows (append r s) = rows s @ [r]"
    and max_version_rows:
      "max_version s k = max_default 0 (map version (filter (\<lambda>r. key r = k) (rows s)))"
begin

definition versions_of :: "'s \<Rightarrow> 'k \<Rightarrow> int list" where
  "versions_of s k = map version (filter (\<lambda>r. key r = k) (rows s))"

definition contiguous :: "'s \<Rightarrow> bool" where
  "contiguous s \<longleftrightarrow> (\<forall>k. versions_of s k = map int [1..<Suc (length (versions_of s k))])"

lemma max_version_contiguous:
  assumes "contiguous s"
  shows "max_version s k = int (length (versions_of s k))"
proof (cases "length (versions_of s k)")
  case 0
  then show ?thesis by (simp add: max_version_rows versions_of_def)
next
  case (Suc n)
  have vs: "versions_of s k = map int [1..<Suc n] @ [int (Suc n)]"
  proof -
    have "versions_of s k = map int [1..<Suc (length (versions_of s k))]"
      using assms unfolding contiguous_def by blast
    then show ?thesis unfolding Suc by simp
  qed
  have "max_default 0 (versions_of s k) = int (Suc n)"
  proof (cases n)
    case 0
    then show ?thesis by (simp add: vs)
  next
    case (Suc m)
    have "max_default 0 (map int [1..<Suc n]) \<in> set (map int [1..<Suc n])"
      using Suc by (intro max_default_in) simp
    then have "max_default 0 (map int [1..<Suc n]) \<le> int (Suc n)" by auto
    with Suc show ?thesis unfolding vs max_default_snoc by simp
  qed
  then show ?thesis using Suc by (simp add: max_version_rows versions_of_def)
qed

lemma append_contiguous:
  assumes "contiguous s" and "version r = max_version s (key r) + 1"
  shows "contiguous (append r s)"
  unfolding contiguous_def
proof
  fix k
  have old: "versions_of s k = map int [1..<Suc (length (versions_of s k))]"
    using assms(1) unfolding contiguous_def by blast
  show "versions_of (append r s) k = map int [1..<Suc (length (versions_of (append r s) k))]"
  proof (cases "key r = k")
    case True
    then have "version r = int (Suc (length (versions_of s k)))"
      using assms max_version_contiguous by simp
    with True have "versions_of (append r s) k = versions_of s k @ [int (Suc (length (versions_of s k)))]"
      by (simp add: versions_of_def rows_append)
    then show ?thesis using old by simp
  next
    case False
    then have "versions_of (append r s) k = versions_of s k"
      by (simp add: versions_of_def rows_append)
    then show ?thesis using old by simp
  qed
qed

lemma append_frame: "prefix (rows s) (rows (append r s))"
  by (simp add: rows_append)

lemma contiguous_unique:
  assumes "contiguous s" and "i < length (filter (\<lambda>r. key r = k) (rows s))"
  shows "version (filter (\<lambda>r. key r = k) (rows s) ! i) = int (Suc i)"
proof -
  have "versions_of s k ! i = map int [1..<Suc (length (versions_of s k))] ! i"
    using assms(1) unfolding contiguous_def by metis
  then show ?thesis using assms(2) by (simp add: versions_of_def del: upt_Suc)
qed

end

section \<open>Tables with a unique key\<close>

text \<open>
  \<open>INSERT ... ON CONFLICT (key) DO UPDATE\<close> (or \<open>DO NOTHING\<close>) on a table with a unique key:
  \<open>merge old new\<close> is the row that remains when the key is already present.
\<close>

locale keyed_table =
  fixes lookup :: "'s \<Rightarrow> 'k \<Rightarrow> 'r option"
    and key :: "'r \<Rightarrow> 'k"
    and put :: "'r \<Rightarrow> 's \<Rightarrow> 's"
    and merge :: "'r \<Rightarrow> 'r \<Rightarrow> 'r"
  assumes lookup_put: "lookup (put r s) k =
      (if k = key r then Some (case lookup s k of None \<Rightarrow> r | Some old \<Rightarrow> merge old r) else lookup s k)"
    and merge_absorb: "merge (merge old r) r = merge old r"
    and merge_self: "merge r r = r"
begin

lemma put_idem: "lookup (put r (put r s)) = lookup (put r s)"
  by (rule ext) (auto simp: lookup_put merge_absorb merge_self split: option.splits)

lemma put_commute: "key r \<noteq> key q \<Longrightarrow> lookup (put r (put q s)) = lookup (put q (put r s))"
  by (rule ext) (auto simp: lookup_put)

definition updated :: "'r list \<Rightarrow> 's \<Rightarrow> 'k \<Rightarrow> 'r option" where
  "updated rs s k =
     (case find (\<lambda>r. key r = k) rs of None \<Rightarrow> lookup s k
      | Some r \<Rightarrow> Some (case lookup s k of None \<Rightarrow> r | Some old \<Rightarrow> merge old r))"

lemma find_key_None: "k \<notin> key ` set rs \<Longrightarrow> find (\<lambda>r. key r = k) rs = None"
  by (induction rs) auto

lemma fold_put:
  "distinct (map key rs) \<Longrightarrow> lookup (fold put rs s) k = updated rs s k"
proof (induction rs arbitrary: s)
  case (Cons r rs)
  then have "lookup (fold put rs (put r s)) k = updated rs (put r s) k" by simp
  moreover have "k = key r \<Longrightarrow> find (\<lambda>r. key r = k) rs = None"
    using Cons.prems by (intro find_key_None) simp
  ultimately show ?case by (auto simp: updated_def lookup_put split: option.splits)
qed (simp add: updated_def)

lemma fold_put_idem:
  assumes "distinct (map key rs)"
  shows "lookup (fold put rs (fold put rs s)) k = lookup (fold put rs s) k"
  by (auto simp: fold_put[OF assms] updated_def merge_absorb merge_self split: option.splits)

lemma fold_put_frame: "k \<notin> key ` set rs \<Longrightarrow> lookup (fold put rs s) k = lookup s k"
  by (induction rs arbitrary: s) (auto simp: lookup_put)

end

end
