(* ===== verification/Binary64.thy ===== *)
theory Binary64
  imports Prelude "HOL-Library.Log_Nat"
begin

text \<open>
  Python's \<open>float\<close> and \<open>Decimal\<close> as the code uses them. A float is the rational number it
  denotes, and every float operation is the exact operation followed by \<open>fl\<close>, the
  round-to-nearest, ties-to-even rounding to a 53-bit significand that IEEE 754 binary64
  prescribes. The exponent range is not bounded: no value of this program is infinite, NaN or
  subnormal (its floats are rates, probabilities, confidences and counts below \<open>2 ^ 31\<close>).
  A negative zero is 0, which Python's comparisons do not distinguish either.
  Decimal values are exact rationals, rounded by \<open>dec_quantize\<close> (ROUND_HALF_EVEN); the products
  the code forms stay below the 28 digits of the default context, since amounts are 32-bit
  columns (at most 10 digits) and the factors have at most 7 digits.
\<close>

section \<open>Rounding to an integer, ties to even\<close>

definition round_half_even :: "rat \<Rightarrow> int" where
  "round_half_even x =
     (let f = \<lfloor>x\<rfloor>; d = x - of_int f
      in if d < 1 / 2 then f else if 1 / 2 < d then f + 1 else if even f then f else f + 1)"

lemma rhe_of_int [simp]: "round_half_even (of_int k) = k"
  by (simp add: round_half_even_def)

lemma rhe_mono: "x \<le> y \<Longrightarrow> round_half_even x \<le> round_half_even y"
proof (cases "\<lfloor>x\<rfloor> = \<lfloor>y\<rfloor>")
  case True
  assume "x \<le> y" with True show ?thesis by (auto simp: round_half_even_def Let_def)
next
  case False
  assume "x \<le> y" with False have "\<lfloor>x\<rfloor> + 1 \<le> \<lfloor>y\<rfloor>" by (meson floor_mono order_less_le zless_imp_add1_zle)
  then show ?thesis by (auto simp: round_half_even_def Let_def)
qed
lemma rhe_minus: "round_half_even (- x) = - round_half_even x"
proof (cases "x = of_int \<lfloor>x\<rfloor>")
  case True then show ?thesis by (metis of_int_minus rhe_of_int)
next
  case False
  have "\<lfloor>- x\<rfloor> = - \<lfloor>x\<rfloor> - 1"
    using False by linarith
  then show ?thesis by (auto simp: round_half_even_def Let_def)
qed

section \<open>The binade of a positive number\<close>

definition binade :: "rat \<Rightarrow> int" where
  "binade x = (if 1 \<le> x then bitlen \<lfloor>x\<rfloor> - 1 else - bitlen (\<lceil>1 / x\<rceil> - 1))"

lemma powi_of_pow: "0 \<le> n \<Longrightarrow> (2::rat) powi n = of_int (2 ^ nat n)"
  by (simp add: power_int_def)

lemma bitlen_powi_lower: "0 < k \<Longrightarrow> (2::rat) powi (bitlen k - 1) \<le> of_int k"
proof -
  assume k: "0 < k"
  then have "1 \<le> bitlen k" using bitlen_eq_zero_iff[of k] bitlen_nonneg[of k] by linarith
  with bitlen_bounds[OF k] show ?thesis by (simp only: powi_of_pow of_int_le_iff)
qed
lemma bitlen_powi_upper: "0 \<le> k \<Longrightarrow> of_int k < (2::rat) powi bitlen k"
proof (cases "k = 0")
  case True then show ?thesis by simp
next
  case False
  assume "0 \<le> k" with False have k: "0 < k" by simp
  with bitlen_bounds[OF k] bitlen_nonneg show ?thesis by (simp only: powi_of_pow of_int_less_iff)
qed

lemma binade_bounds:
  assumes "0 < x"
  shows "2 powi binade x \<le> x" and "x < 2 powi (binade x + 1)"
proof -
  have "2 powi binade x \<le> x \<and> x < 2 powi (binade x + 1)"
  proof (cases "1 \<le> x")
    case True
    let ?k = "\<lfloor>x\<rfloor>"
    have k: "1 \<le> ?k" using True by simp
    have "x < of_int (?k + 1)" by linarith
    also have "of_int (?k + 1) \<le> (2::rat) powi bitlen ?k"
    proof -
      have "?k < 2 ^ nat (bitlen ?k)" using bitlen_bounds[of ?k] k by simp
      then have "?k + 1 \<le> 2 ^ nat (bitlen ?k)" by simp
      then show ?thesis using bitlen_nonneg[of ?k] by (simp only: powi_of_pow of_int_le_iff)
    qed
    finally have "x < 2 powi bitlen ?k" .
    moreover have "2 powi (bitlen ?k - 1) \<le> x"
      using bitlen_powi_lower[of ?k] k by linarith
    ultimately show ?thesis using True by (simp add: binade_def)
  next
    case False
    let ?k = "\<lceil>1 / x\<rceil> - 1"
    have "1 < 1 / x" using False assms by simp
    then have k: "1 \<le> ?k" by linarith
    have "of_int ?k < 1 / x" by linarith
    with bitlen_powi_lower[of ?k] k have "2 powi (bitlen ?k - 1) < 1 / x" by linarith
    then have upper: "x < 2 powi (1 - bitlen ?k)"
      using assms by (simp add: power_int_diff field_simps)
    have "1 / x \<le> of_int (?k + 1)" by linarith
    also have "\<dots> \<le> (2::rat) powi bitlen ?k"
    proof -
      have "?k < 2 ^ nat (bitlen ?k)" using bitlen_bounds[of ?k] k by simp
      then have "?k + 1 \<le> 2 ^ nat (bitlen ?k)" by simp
      then show ?thesis using bitlen_nonneg[of ?k] by (simp only: powi_of_pow of_int_le_iff)
    qed
    finally have "2 powi (- bitlen ?k) \<le> x"
      using assms by (simp add: power_int_minus field_simps)
    with upper False show ?thesis by (simp add: binade_def)
  qed
  then show "2 powi binade x \<le> x" and "x < 2 powi (binade x + 1)" by auto
qed

lemma powi_less_iff: "(2::rat) powi m < 2 powi n \<longleftrightarrow> m < n"
  by (metis linorder_neqE_linordered_idom one_less_numeral_iff order_less_asym power_int_strict_increasing semiring_norm(76))

lemma powi_le_iff: "(2::rat) powi m \<le> 2 powi n \<longleftrightarrow> m \<le> n"
  by (meson linorder_not_less powi_less_iff)

lemma binade_mono: "0 < x \<Longrightarrow> x \<le> y \<Longrightarrow> binade x \<le> binade y"
proof -
  assume a: "0 < x" "x \<le> y"
  then have "2 powi binade x \<le> y" using binade_bounds(1)[of x] by simp
  also have "y < 2 powi (binade y + 1)" using a by (intro binade_bounds(2)) simp
  finally show ?thesis by (simp add: powi_less_iff)
qed

section \<open>Rounding to binary64\<close>

definition fl :: "rat \<Rightarrow> rat" where
  "fl x = (if x = 0 then 0
           else let u = 2 powi (binade \<bar>x\<bar> - 52) in of_int (round_half_even (x / u)) * u)"

lemma fl_zero [simp]: "fl 0 = 0" by (simp add: fl_def)

lemma fl_minus: "fl (- x) = - fl x"
  by (simp add: fl_def Let_def rhe_minus)

lemma rhe_nonneg: "0 \<le> x \<Longrightarrow> 0 \<le> round_half_even x"
  using rhe_mono[of 0 x] rhe_of_int[of 0] by simp

lemma fl_nonneg: "0 \<le> x \<Longrightarrow> 0 \<le> fl x"
  by (auto simp: fl_def Let_def intro!: mult_nonneg_nonneg rhe_nonneg)

lemma fl_pos_eq:
  "0 < x \<Longrightarrow> fl x = of_int (round_half_even (x / 2 powi (binade x - 52))) * 2 powi (binade x - 52)"
  by (simp add: fl_def Let_def)

lemma two_powi_pos [simp]: "0 < (2::rat) powi n"
  by (simp add: zero_less_power_int)

lemma powi_split: "(2::rat) powi m = 2 powi (m - n) * 2 powi n"
  by (simp flip: power_int_add)

lemma fl_le_binade_top: "0 < x \<Longrightarrow> fl x \<le> 2 powi (binade x + 1)"
proof -
  assume x: "0 < x"
  let ?u = "(2::rat) powi (binade x - 52)"
  have top: "(2::rat) powi (binade x + 1) = of_int (2 ^ 53) * ?u"
    using powi_split[of "binade x + 1" "binade x - 52"] by simp
  have "x / ?u \<le> of_int (2 ^ 53)"
    using binade_bounds(2)[OF x] top by (simp add: divide_le_eq)
  from rhe_mono[OF this] have "round_half_even (x / ?u) \<le> 2 ^ 53" by (simp only: rhe_of_int)
  then have "rat_of_int (round_half_even (x / ?u)) \<le> of_int (2 ^ 53)" by (simp only: of_int_le_iff)
  then show ?thesis unfolding fl_pos_eq[OF x] top by (intro mult_right_mono) simp_all
qed

lemma fl_ge_binade_bottom: "0 < x \<Longrightarrow> 2 powi binade x \<le> fl x"
proof -
  assume x: "0 < x"
  let ?u = "(2::rat) powi (binade x - 52)"
  have bot: "(2::rat) powi binade x = of_int (2 ^ 52) * ?u"
    using powi_split[of "binade x" "binade x - 52"] by simp
  have "of_int (2 ^ 52) \<le> x / ?u"
    using binade_bounds(1)[OF x] bot by (simp add: le_divide_eq)
  from rhe_mono[OF this] have "2 ^ 52 \<le> round_half_even (x / ?u)" by (simp only: rhe_of_int)
  then have "of_int (2 ^ 52) \<le> rat_of_int (round_half_even (x / ?u))" by (simp only: of_int_le_iff)
  then show ?thesis unfolding fl_pos_eq[OF x] bot by (intro mult_right_mono) simp_all
qed

lemma fl_mono_pos: "0 < x \<Longrightarrow> x \<le> y \<Longrightarrow> fl x \<le> fl y"
proof -
  assume x: "0 < x" and xy: "x \<le> y"
  then have y: "0 < y" by simp
  show ?thesis
  proof (cases "binade x = binade y")
    case True
    let ?u = "(2::rat) powi (binade x - 52)"
    have "round_half_even (x / ?u) \<le> round_half_even (y / ?u)"
      using xy by (intro rhe_mono divide_right_mono) simp_all
    then have "rat_of_int (round_half_even (x / ?u)) * ?u \<le> of_int (round_half_even (y / ?u)) * ?u"
      by (intro mult_right_mono) simp_all
    then show ?thesis by (simp add: fl_pos_eq[OF x] fl_pos_eq[OF y] True)
  next
    case False
    then have "binade x + 1 \<le> binade y" using binade_mono[OF x xy] by simp
    then have "(2::rat) powi (binade x + 1) \<le> 2 powi binade y" by (simp add: powi_le_iff)
    with fl_le_binade_top[OF x] fl_ge_binade_bottom[OF y] show ?thesis by simp
  qed
qed

lemma fl_mono: "x \<le> y \<Longrightarrow> fl x \<le> fl y"
proof -
  assume xy: "x \<le> y"
  consider "0 < x" | "x \<le> 0" "0 \<le> y" | "y < 0" by linarith
  then show ?thesis
  proof cases
    case 1 then show ?thesis using xy by (rule fl_mono_pos)
  next
    case 2
    then have "fl x \<le> 0" using fl_nonneg[of "- x"] by (simp add: fl_minus)
    with fl_nonneg[OF 2(2)] show ?thesis by simp
  next
    case 3
    then have "fl (- y) \<le> fl (- x)" using xy by (intro fl_mono_pos) simp_all
    then show ?thesis by (simp add: fl_minus)
  qed
qed

lemma fl_scaled_int:
  assumes "\<bar>m\<bar> \<le> 2 ^ 53"
  shows "fl (of_int m * 2 powi e) = of_int m * 2 powi e"
proof -
  have below: "fl (of_int m * 2 powi e) = of_int m * 2 powi e" if m: "0 < m" "m < 2 ^ 53" for m e
  proof -
    let ?x = "of_int m * (2::rat) powi e"
    have x: "0 < ?x" using m by simp
    have "of_int m < (2::rat) ^ 53" using m by (metis of_int_less_iff of_int_numeral of_int_power)
    then have "?x < (2::rat) ^ 53 * 2 powi e" by (intro mult_strict_right_mono) simp_all
    also have "\<dots> = 2 powi (53 + e)" by (simp add: power_int_add)
    finally have "(2::rat) powi binade ?x < 2 powi (53 + e)" using binade_bounds(1)[OF x] by simp
    then have "binade ?x - 52 \<le> e" by (simp add: powi_less_iff)
    then obtain k :: nat where k: "e = (binade ?x - 52) + int k" using zle_iff_zadd by auto
    from k have d: "e - (binade ?x - 52) = int k" by linarith
    have e: "(2::rat) powi e = of_int (2 ^ k) * 2 powi (binade ?x - 52)"
      using powi_split[of e "binade ?x - 52"] unfolding d by simp
    then have x_eq: "?x = of_int (m * 2 ^ k) * 2 powi (binade ?x - 52)" by (simp add: mult.assoc)
    have "?x / 2 powi (binade ?x - 52) = of_int (m * 2 ^ k)"
      by (subst (1) x_eq) (rule nonzero_mult_div_cancel_right, simp)
    then have "round_half_even (?x / 2 powi (binade ?x - 52)) = m * 2 ^ k" by (simp only: rhe_of_int)
    then show ?thesis using x_eq by (simp only: fl_pos_eq[OF x])
  qed
  have pos: "fl (of_int m * 2 powi e) = of_int m * 2 powi e" if m: "0 < m" "m \<le> 2 ^ 53" for m
  proof (cases "m = 2 ^ 53")
    case True
    then have "of_int m * (2::rat) powi e = of_int (2 ^ 52) * 2 powi (e + 1)"
      by (simp add: power_int_add)
    with below[of "2 ^ 52" "e + 1"] show ?thesis by simp
  next
    case False with m show ?thesis by (intro below) simp_all
  qed
  consider "m = 0" | "0 < m" | "m < 0" by linarith
  then show ?thesis
  proof cases
    case 1 then show ?thesis by simp
  next
    case 2 then show ?thesis using assms by (intro pos) simp_all
  next
    case 3 then show ?thesis using pos[of "- m"] assms by (simp add: fl_minus)
  qed
qed

lemma fl_of_int: "\<bar>m\<bar> \<le> 2 ^ 53 \<Longrightarrow> fl (of_int m) = of_int m"
  using fl_scaled_int[of m 0] by simp

lemma fl_idem: "fl (fl x) = fl x"
proof -
  have pos: "fl (fl x) = fl x" if x: "0 < x" for x
  proof -
    let ?u = "(2::rat) powi (binade x - 52)" and ?m = "round_half_even (x / 2 powi (binade x - 52))"
    have "rat_of_int ?m * ?u \<le> of_int (2 ^ 53) * ?u"
      using fl_le_binade_top[OF x] powi_split[of "binade x + 1" "binade x - 52"]
      by (simp add: fl_pos_eq[OF x])
    then have "rat_of_int ?m \<le> of_int (2 ^ 53)" using mult_le_cancel_right_pos[of ?u] by simp
    then have "?m \<le> 2 ^ 53" by (simp only: of_int_le_iff)
    moreover have "0 \<le> ?m" using x by (intro rhe_nonneg) simp
    ultimately have "fl (of_int ?m * ?u) = of_int ?m * ?u" by (intro fl_scaled_int) simp
    then show ?thesis by (simp add: fl_pos_eq[OF x])
  qed
  consider "x = 0" | "0 < x" | "x < 0" by linarith
  then show ?thesis
  proof cases
    case 1 then show ?thesis by simp
  next
    case 2 then show ?thesis by (rule pos)
  next
    case 3 then show ?thesis using pos[of "- x"] by (simp add: fl_minus)
  qed
qed

lemma fl_one [simp]: "fl 1 = 1"
  using fl_of_int[of 1] by simp

text \<open>A bound that is itself a float survives rounding.\<close>

lemma fl_le_float [fp_bounds]: "x \<le> r \<Longrightarrow> fl r = r \<Longrightarrow> fl x \<le> r"
  using fl_mono[of x r] by simp

lemma fl_ge_float [fp_bounds]: "r \<le> x \<Longrightarrow> fl r = r \<Longrightarrow> r \<le> fl x"
  using fl_mono[of r x] by simp

lemma fl_le_one [fp_bounds]: "x \<le> 1 \<Longrightarrow> fl x \<le> 1"
  by (rule fl_le_float) simp_all

lemma fl_unit: "0 \<le> x \<Longrightarrow> x \<le> 1 \<Longrightarrow> 0 \<le> fl x \<and> fl x \<le> 1"
  by (simp add: fl_nonneg fl_le_one)

lemma rhe_le_add_half: "of_int (round_half_even x) \<le> x + 1 / 2"
  by (simp add: round_half_even_def Let_def) linarith

lemma rhe_ge_sub_half: "x - 1 / 2 \<le> of_int (round_half_even x)"
  by (simp add: round_half_even_def Let_def) linarith

lemma rhe_error: "\<bar>of_int (round_half_even x) - x\<bar> \<le> 1 / 2"
  using rhe_le_add_half[of x] rhe_ge_sub_half[of x] by linarith

text \<open>The relative error of one rounding is at most \<open>2 ^ -53\<close>.\<close>

lemma fl_error: "\<bar>fl x - x\<bar> \<le> \<bar>x\<bar> / 2 ^ 53"
proof -
  have pos: "\<bar>fl x - x\<bar> \<le> x / 2 ^ 53" if x: "0 < x" for x
  proof -
    let ?u = "(2::rat) powi (binade x - 52)"
    have "fl x - x = (of_int (round_half_even (x / ?u)) - x / ?u) * ?u"
      by (simp add: fl_pos_eq[OF x] left_diff_distrib)
    then have "\<bar>fl x - x\<bar> = \<bar>of_int (round_half_even (x / ?u)) - x / ?u\<bar> * ?u"
      by (simp add: abs_mult)
    also have "\<dots> \<le> 1 / 2 * ?u" by (intro mult_right_mono rhe_error) simp
    also have "?u = 2 powi binade x / 2 ^ 52"
      by (simp add: power_int_diff)
    also have "1 / 2 * (2 powi binade x / 2 ^ 52) \<le> x / (2::rat) ^ 53"
      using binade_bounds(1)[OF x] by simp
    finally show ?thesis by simp
  qed
  consider "x = 0" | "0 < x" | "x < 0" by linarith
  then show ?thesis
  proof cases
    case 1 then show ?thesis by simp
  next
    case 2 with pos[of x] show ?thesis by simp
  next
    case 3 with pos[of "- x"] show ?thesis by (simp add: fl_minus abs_minus_commute)
  qed
qed

section \<open>Python's float operations\<close>

type_synonym pyfloat = rat
type_synonym decimal = rat

definition f_add :: "pyfloat \<Rightarrow> pyfloat \<Rightarrow> pyfloat" where "f_add a b = fl (a + b)"
definition f_sub :: "pyfloat \<Rightarrow> pyfloat \<Rightarrow> pyfloat" where "f_sub a b = fl (a - b)"
definition f_mul :: "pyfloat \<Rightarrow> pyfloat \<Rightarrow> pyfloat" where "f_mul a b = fl (a * b)"
definition f_div :: "pyfloat \<Rightarrow> pyfloat \<Rightarrow> pyfloat" where "f_div a b = fl (a / b)"

text \<open>\<open>int / int\<close> is the correctly rounded quotient; an int meeting a float is converted first.\<close>

definition int_truediv :: "int \<Rightarrow> int \<Rightarrow> pyfloat" where
  "int_truediv a b = fl (of_int a / of_int b)"

definition float_of_int :: "int \<Rightarrow> pyfloat" where
  "float_of_int n = fl (of_int n)"

text \<open>\<open>round(x, n)\<close>: the decimal with \<open>n\<close> places nearest to \<open>x\<close>, then the nearest float.\<close>

definition py_round :: "nat \<Rightarrow> pyfloat \<Rightarrow> pyfloat" where
  "py_round n x = fl (of_int (round_half_even (x * 10 ^ n)) / 10 ^ n)"

definition dec_quantize :: "nat \<Rightarrow> decimal \<Rightarrow> decimal" where
  "dec_quantize n x = of_int (round_half_even (x * 10 ^ n)) / 10 ^ n"

definition clamp01 :: "pyfloat \<Rightarrow> pyfloat" where
  "clamp01 x = max 0 (min 1 x)"

lemma clamp01_unit [simp]: "0 \<le> clamp01 x" "clamp01 x \<le> 1"
  by (simp_all add: clamp01_def)

lemma clamp01_id: "0 \<le> x \<Longrightarrow> x \<le> 1 \<Longrightarrow> clamp01 x = x"
  by (simp add: clamp01_def)

lemma int_truediv_unit: "0 \<le> a \<Longrightarrow> a \<le> b \<Longrightarrow> 0 < b \<Longrightarrow> 0 \<le> int_truediv a b \<and> int_truediv a b \<le> 1"
  unfolding int_truediv_def by (rule fl_unit) simp_all

lemma dec_quantize_mono: "x \<le> y \<Longrightarrow> dec_quantize n x \<le> dec_quantize n y"
  unfolding dec_quantize_def by (intro divide_right_mono) (simp_all add: rhe_mono)

lemma dec_quantize_exact: "dec_quantize n (of_int k / 10 ^ n) = of_int k / 10 ^ n"
  by (simp add: dec_quantize_def)

lemma dec_quantize_nonneg: "0 \<le> x \<Longrightarrow> 0 \<le> dec_quantize n x"
  using dec_quantize_mono[of 0 x n] dec_quantize_exact[of n 0] by simp

lemma dec_quantize_le_one: "x \<le> 1 \<Longrightarrow> dec_quantize n x \<le> 1"
  using dec_quantize_mono[of x 1 n] dec_quantize_exact[of n "10 ^ n"] by simp

lemma py_round_mono: "x \<le> y \<Longrightarrow> py_round n x \<le> py_round n y"
  unfolding py_round_def by (intro fl_mono divide_right_mono) (simp_all add: rhe_mono)

lemma py_round_unit: "0 \<le> x \<Longrightarrow> x \<le> 1 \<Longrightarrow> 0 \<le> py_round n x \<and> py_round n x \<le> 1"
  using dec_quantize_nonneg[of x n] dec_quantize_le_one[of x n]
  unfolding py_round_def dec_quantize_def by (intro fl_unit) simp_all

section \<open>Scaling by a power of two\<close>

lemma binade_unique:
  assumes "2 powi k \<le> x" and "x < 2 powi (k + 1)"
  shows "binade x = k"
proof -
  have x: "0 < x" using assms(1) two_powi_pos[of k] by linarith
  have "2 powi k < (2::rat) powi (binade x + 1)" using assms(1) binade_bounds(2)[OF x] by (rule le_less_trans)
  moreover have "2 powi binade x < (2::rat) powi (k + 1)" using binade_bounds(1)[OF x] assms(2) by (rule le_less_trans)
  ultimately show ?thesis by (simp add: powi_less_iff)
qed

lemma fl_scale: "fl (x * 2 powi k) = fl x * 2 powi k"
proof -
  have pos: "fl (x * 2 powi k) = fl x * 2 powi k" if x: "0 < x" for x
  proof -
    have "binade (x * 2 powi k) = binade x + k"
    proof (rule binade_unique)
      show "2 powi (binade x + k) \<le> x * 2 powi k"
        using binade_bounds(1)[OF x] by (simp add: power_int_add)
      show "x * 2 powi k < 2 powi (binade x + k + 1)"
        using binade_bounds(2)[OF x] powi_split[of "binade x + k + 1" k] by simp
    qed
    moreover have "(2::rat) powi (binade x + k - 52) = 2 powi (binade x - 52) * 2 powi k"
      using powi_split[of "binade x + k - 52" k] by (simp add: algebra_simps)
    ultimately show ?thesis using x by (simp add: fl_pos_eq)
  qed
  consider "x = 0" | "0 < x" | "x < 0" by linarith
  then show ?thesis
  proof cases
    case 1 then show ?thesis by simp
  next
    case 2 then show ?thesis by (rule pos)
  next
    case 3 with pos[of "- x"] show ?thesis by (simp add: fl_minus)
  qed
qed

lemma fl_double: "fl (2 * x) = 2 * fl x"
  using fl_scale[of x 1] by (simp add: mult.commute)

text \<open>The mean of two floats, as \<open>statistics.median\<close> computes it, lies between them.\<close>

lemma fl_mean_between:
  assumes "fl a = a" and "fl b = b" and "a \<le> b"
  shows "a \<le> f_div (f_add a b) 2" and "f_div (f_add a b) 2 \<le> b"
proof -
  have "2 * a \<le> f_add a b" unfolding f_add_def using assms by (intro fl_ge_float) (simp_all add: fl_double)
  then show "a \<le> f_div (f_add a b) 2"
    unfolding f_div_def using assms by (intro fl_ge_float) simp_all
  have "f_add a b \<le> 2 * b" unfolding f_add_def using assms by (intro fl_le_float) (simp_all add: fl_double)
  then show "f_div (f_add a b) 2 \<le> b"
    unfolding f_div_def using assms by (intro fl_le_float) simp_all
qed

end
