(* ===== verification/Domain.thy ===== *)
theory Domain
  imports Binary64
begin

text \<open>
  The data every stage shares (\<open>src/core/domain\<close>): exceptions, instants, identifiers, JSON
  payloads and their digests, the raw ingestion record and the canonical payment event, the source
  systems, and the part of the database that holds them.
\<close>

section \<open>Exceptions\<close>

text \<open>One constructor per exception class that the modelled code raises; messages are not modelled.\<close>

datatype exn =
    TypeError | AttributeError | ValueError | KeyError | OverflowError | AssertionError | IntegrityError
  | MalformedInputError | SchemaValidationError | UnsupportedEventTypeError
  | UnsupportedSourceError | NormalizationError | DuplicateEventConflictError
  | PersistenceError | InvalidWebhookSignatureError
  | UnsupportedProviderError | InvalidAttemptIdentityError | AttemptNotRegisteredError
  | AttemptProviderConflictError | ProviderIdentityMissingError
  | InvalidDecisionForExecutionError | CommandNotFoundError | IllegalStateTransitionError
  | MissingUpstreamDataError | PayPalLifecycleError
  | PayPalConfigurationError | PayPalAuthError | PayPalUnavailableError
  | PayPalVerificationRequestRejectedError
  | RuntimeError | UnsafeDatabaseError | InvalidAllowedHostsError | FileNotFoundError
  | EvaluationDataContaminationError | EvaluationIsolationError

section \<open>Instants and durations\<close>

text \<open>A timezone-aware UTC datetime is its distance from the epoch in microseconds.\<close>

type_synonym datetime = int

definition seconds :: "int \<Rightarrow> int" where "seconds n = n * 1000000"
definition milliseconds :: "int \<Rightarrow> int" where "milliseconds n = n * 1000"
definition minutes :: "int \<Rightarrow> int" where "minutes n = n * 60000000"
definition weeks :: "int \<Rightarrow> int" where "weeks n = n * 604800000000"

lemmas duration_defs = seconds_def milliseconds_def minutes_def weeks_def

section \<open>Identifiers\<close>

text \<open>
  \<open>uuid.uuid5(namespace, name)\<close> is kept symbolic: a UUID is the namespace and name it was
  derived from (so distinct names give distinct UUIDs, the property of the digest the code relies
  on), a literal, or the \<open>n\<close>-th random one. A name is a sequence of characters in which the
  rendering of an instant (\<open>isoformat\<close>) and of a UUID (\<open>str\<close>) is one token.
\<close>

datatype uuid = UuidLit string | Uuid5 uuid "tok list" | Uuid4 nat
  and tok = Ch char | Iso datetime | UuidStr uuid

definition chars :: "string \<Rightarrow> tok list" where
  "chars s = map Ch s"

lemma chars_inject [simp]: "chars s = chars t \<longleftrightarrow> s = t"
  by (simp add: chars_def inj_map_eq_map inj_def)

lemma chars_append: "chars (s @ t) = chars s @ chars t"
  by (simp add: chars_def)

text \<open>\<open>f"\{prefix\}:\{n\}"\<close> for an integer \<open>n\<close> determines both parts.\<close>

definition versioned_name :: "tok list \<Rightarrow> int \<Rightarrow> tok list" where
  "versioned_name pre n = pre @ Ch CHR '':'' # chars (show_int n)"

lemma versioned_name_inject: "versioned_name p m = versioned_name q n \<longleftrightarrow> p = q \<and> m = n"
proof
  have sep: "Ch CHR '':'' \<notin> set (chars (show_int k))" for k
    using show_int_no_colon[of k] by (auto simp: chars_def)
  assume "versioned_name p m = versioned_name q n"
  then have "p = q \<and> chars (show_int m) = chars (show_int n)"
    unfolding versioned_name_def using append_sep_inject[OF sep sep] by blast
  then show "p = q \<and> m = n" by (simp add: show_int_inject)
qed simp

section \<open>JSON payloads and digests\<close>

datatype json =
    JNull | JBool bool | JInt int | JFloat pyfloat | JDec decimal | JStr string
  | JTime datetime | JUuid uuid | JArr "json list" | JObj "(string \<times> json) list"

definition json_opt :: "('a \<Rightarrow> json) \<Rightarrow> 'a option \<Rightarrow> json" where
  "json_opt f v = (case v of None \<Rightarrow> JNull | Some a \<Rightarrow> f a)"

lemma json_opt_simps [simp]: "json_opt f None = JNull" "json_opt f (Some a) = f a"
  by (simp_all add: json_opt_def)

text \<open>\<open>str(s) if s else None\<close>\<close>

definition json_truthy :: "string option \<Rightarrow> json" where
  "json_truthy s = (if truthy s then json_opt JStr s else JNull)"

text \<open>\<open>payload.get(key)\<close>\<close>

fun json_get :: "json \<Rightarrow> string \<Rightarrow> json option" where
  "json_get (JObj kvs) k = map_of kvs k"
| "json_get _ k = None"

text \<open>Truth value of a JSON value used as a condition.\<close>

fun json_true :: "json \<Rightarrow> bool" where
  "json_true JNull = False"
| "json_true (JBool b) = b"
| "json_true (JInt i) = (i \<noteq> 0)"
| "json_true (JFloat x) = (x \<noteq> 0)"
| "json_true (JDec x) = (x \<noteq> 0)"
| "json_true (JStr s) = (s \<noteq> [])"
| "json_true (JArr xs) = (xs \<noteq> [])"
| "json_true (JObj kvs) = (kvs \<noteq> [])"
| "json_true _ = True"

text \<open>
  \<open>json.dumps(..., sort_keys=True)\<close> followed by SHA-256, kept symbolic as the key-sorted
  document: two digests agree exactly when the sorted documents do.
\<close>

fun sort_keys :: "json \<Rightarrow> json" where
  "sort_keys (JArr xs) = JArr (map sort_keys xs)"
| "sort_keys (JObj kvs) = JObj (sort_key fst (map (\<lambda>(k, v). (k, sort_keys v)) kvs))"
| "sort_keys j = j"

datatype digest = Sha256 json

definition sha256_json :: "json \<Rightarrow> digest" where
  "sha256_json j = Sha256 (sort_keys j)"

section \<open>Source systems\<close>

definition PAYPAL_SOURCE_SYSTEM :: string where "PAYPAL_SOURCE_SYSTEM = ''paypal''"
definition RAZORPAY_SOURCE_SYSTEM :: string where "RAZORPAY_SOURCE_SYSTEM = ''razorpay''"
definition SYNTHETIC_SOURCE_SYSTEM :: string where "SYNTHETIC_SOURCE_SYSTEM = ''synthetic''"

definition PIPELINE_PROVIDERS :: "string list" where
  "PIPELINE_PROVIDERS = [RAZORPAY_SOURCE_SYSTEM, SYNTHETIC_SOURCE_SYSTEM, PAYPAL_SOURCE_SYSTEM]"

definition NON_RAZORPAY_PIPELINE_SOURCES :: "string list" where
  "NON_RAZORPAY_PIPELINE_SOURCES = [PAYPAL_SOURCE_SYSTEM]"

lemmas source_defs = PAYPAL_SOURCE_SYSTEM_def RAZORPAY_SOURCE_SYSTEM_def
  SYNTHETIC_SOURCE_SYSTEM_def PIPELINE_PROVIDERS_def NON_RAZORPAY_PIPELINE_SOURCES_def

definition TERMINAL_EVENT_TYPES :: "string list" where
  "TERMINAL_EVENT_TYPES = [''payment.captured'', ''payment.failed'']"

section \<open>Raw records and canonical events\<close>

record raw_record =
  raw_source_system :: string
  raw_source_event_id :: string
  raw_received_at :: datetime
  raw_payload :: json
  raw_payload_hash :: digest

record payment_event =
  ev_event_id :: uuid
  ev_source_system :: string
  ev_source_event_id :: string
  ev_payment_id :: string
  ev_order_id :: "string option"
  ev_timestamp :: datetime
  ev_event_type :: string
  ev_currency :: string
  ev_amount_minor_units :: int
  ev_payment_status :: string
  ev_payment_method :: "string option"
  ev_bank :: "string option"
  ev_wallet :: "string option"
  ev_error_code :: "string option"
  ev_error_description :: "string option"
  ev_error_source :: "string option"
  ev_error_step :: "string option"
  ev_error_reason :: "string option"
  ev_ingested_at :: datetime

definition is_terminal :: "payment_event \<Rightarrow> bool" where
  "is_terminal e \<longleftrightarrow> ev_event_type e \<in> set TERMINAL_EVENT_TYPES"

text \<open>\<open>getattr(event, field, None)\<close> for the fields the stages read by name.\<close>

definition ev_field :: "payment_event \<Rightarrow> string \<Rightarrow> string option" where
  "ev_field e f =
     (if f = ''currency'' then Some (ev_currency e)
      else if f = ''payment_method'' then ev_payment_method e
      else if f = ''bank'' then ev_bank e
      else if f = ''wallet'' then ev_wallet e
      else if f = ''error_code'' then ev_error_code e
      else if f = ''error_source'' then ev_error_source e
      else if f = ''error_step'' then ev_error_step e
      else None)"

text \<open>
  The tables Stage 1 writes. Each stage extends this record with its own tables, so an operation
  of a stage is defined on every later extension. A table is the list of its rows in insertion
  order; a query without \<open>ORDER BY\<close> returns them in that order.
\<close>

record event_db =
  db_raw :: "raw_record list"
  db_events :: "payment_event list"

definition event_visible :: "payment_event \<Rightarrow> bool" where
  "event_visible e \<longleftrightarrow> ev_source_system e \<notin> set NON_RAZORPAY_PIPELINE_SOURCES"

section \<open>Example data\<close>

text \<open>A card payment event of the given type, payment and instant, used by the concrete instances.\<close>

definition example_event :: "string \<Rightarrow> string \<Rightarrow> datetime \<Rightarrow> payment_event" where
  "example_event etype pid ts =
     \<lparr>ev_event_id = Uuid5 (UuidLit ''events'') (chars (etype @ pid)),
      ev_source_system = RAZORPAY_SOURCE_SYSTEM, ev_source_event_id = etype @ pid,
      ev_payment_id = pid, ev_order_id = None, ev_timestamp = ts, ev_event_type = etype,
      ev_currency = ''INR'', ev_amount_minor_units = 250000, ev_payment_status = ''created'',
      ev_payment_method = Some ''card'', ev_bank = Some ''HDFC'', ev_wallet = None,
      ev_error_code = None, ev_error_description = None, ev_error_source = None,
      ev_error_step = None, ev_error_reason = None, ev_ingested_at = ts + seconds 1\<rparr>"

end
