(* ===== verification/Analytics.thy ===== *)
theory Analytics
  imports Domain "HOL-Library.Multiset"
begin

text \<open>
  Stage 2 (\<open>src/core/analytics\<close>, \<open>analytics_repository.py\<close>): the 5-minute tumbling windows, the
  health snapshots of every segment of a window, the historical baselines, and the upsert of the
  snapshots into the database.
\<close>

section \<open>State\<close>

record snapshot =
  hs_snapshot_id :: uuid
  hs_window_start :: datetime
  hs_window_end :: datetime
  hs_dimension :: string
  hs_value :: string
  hs_transaction_count :: int
  hs_successful_count :: int
  hs_failed_count :: int
  hs_success_rate :: "pyfloat option"
  hs_failure_rate :: "pyfloat option"
  hs_total_gmv :: int
  hs_successful_gmv :: int
  hs_failed_gmv :: int
  hs_baseline_success_rate :: "pyfloat option"
  hs_insufficient_volume :: bool
  hs_calculated_at :: datetime

record analytics_db = event_db +
  db_snapshots :: "snapshot list"

definition MIN_TRANSACTION_THRESHOLD :: int where "MIN_TRANSACTION_THRESHOLD = 50"

section \<open>Window boundaries\<close>

text \<open>\<open>dt.minute\<close> and \<open>dt.replace(minute=m, second=0, microsecond=0)\<close> on the instant.\<close>

definition dt_minute :: "datetime \<Rightarrow> int" where
  "dt_minute dt = (dt div minutes 1) mod 60"

definition dt_replace_minute :: "datetime \<Rightarrow> int \<Rightarrow> datetime" where
  "dt_replace_minute dt m = dt - dt mod minutes 60 + minutes m"

definition get_window_boundaries :: "datetime \<Rightarrow> datetime \<times> datetime" where
  "get_window_boundaries dt =
     (let minute = dt_minute dt;
          window_start_minute = (minute div 5) * 5;
          window_start = dt_replace_minute dt window_start_minute
      in (window_start, window_start + minutes 5))"

section \<open>Health metrics of a window\<close>

definition get_segment_value :: "payment_event \<Rightarrow> string \<Rightarrow> string" where
  "get_segment_value event dimension =
     (if dimension = ''GLOBAL'' then ''ALL''
      else case ev_field event dimension of Some val \<Rightarrow> val | None \<Rightarrow> ''NULL'')"

definition DIMENSIONS :: "string list" where
  "DIMENSIONS =
     [''GLOBAL'', ''currency'', ''payment_method'', ''bank'', ''wallet'', ''error_source'']"

text \<open>
  \<open>segments[val].append(event)\<close>: the dictionary of segments keeps its keys in the order of their
  first event.
\<close>

fun add_to_segment ::
  "string \<Rightarrow> payment_event \<Rightarrow> (string \<times> payment_event list) list \<Rightarrow> (string \<times> payment_event list) list" where
  "add_to_segment val e [] = [(val, [e])]"
| "add_to_segment val e ((v, es) # rest) =
     (if v = val then (v, es @ [e]) # rest else (v, es) # add_to_segment val e rest)"

definition segments_of ::
  "string \<Rightarrow> datetime \<Rightarrow> datetime \<Rightarrow> payment_event list \<Rightarrow> (string \<times> payment_event list) list" where
  "segments_of dimension window_start window_end events =
     fold (\<lambda>event segments.
             if \<not> (window_start \<le> ev_timestamp event \<and> ev_timestamp event < window_end) then segments
             else add_to_segment (get_segment_value event dimension) event segments)
       events
       (if events = [] \<and> dimension = ''GLOBAL'' then [(''ALL'', [])] else [])"

record tally =
  successful_count :: int
  failed_count :: int
  successful_gmv :: int
  failed_gmv :: int

definition tally_event :: "payment_event \<Rightarrow> tally \<Rightarrow> tally" where
  "tally_event e t =
     (if ev_event_type e = ''payment.captured'' then
        t\<lparr>successful_count := successful_count t + 1,
          successful_gmv := successful_gmv t + ev_amount_minor_units e\<rparr>
      else if ev_event_type e = ''payment.failed'' then
        t\<lparr>failed_count := failed_count t + 1,
          failed_gmv := failed_gmv t + ev_amount_minor_units e\<rparr>
      else t)"

definition tally_events :: "payment_event list \<Rightarrow> tally" where
  "tally_events es =
     fold tally_event es
       \<lparr>successful_count = 0, failed_count = 0, successful_gmv = 0, failed_gmv = 0\<rparr>"

definition segment_snapshot ::
  "uuid \<Rightarrow> datetime \<Rightarrow> int \<Rightarrow> datetime \<Rightarrow> datetime \<Rightarrow> string \<Rightarrow> string \<Rightarrow> payment_event list \<Rightarrow> snapshot" where
  "segment_snapshot new_id now threshold window_start window_end dimension segment_value segment_events =
     (let t = tally_events segment_events;
          total_count = successful_count t + failed_count t;
          total_gmv = successful_gmv t + failed_gmv t
      in \<lparr>hs_snapshot_id = new_id,
          hs_window_start = window_start,
          hs_window_end = window_end,
          hs_dimension = dimension,
          hs_value = segment_value,
          hs_transaction_count = total_count,
          hs_successful_count = successful_count t,
          hs_failed_count = failed_count t,
          hs_success_rate =
            (if 0 < total_count then Some (int_truediv (successful_count t) total_count) else None),
          hs_failure_rate =
            (if 0 < total_count then Some (int_truediv (failed_count t) total_count) else None),
          hs_total_gmv = total_gmv,
          hs_successful_gmv = successful_gmv t,
          hs_failed_gmv = failed_gmv t,
          hs_baseline_success_rate = None,
          hs_insufficient_volume = total_count < threshold,
          hs_calculated_at = now\<rparr>)"

text \<open>
  \<open>ids n\<close> is the UUID drawn for the \<open>n\<close>-th snapshot of the run, \<open>now\<close> the wall clock.
\<close>

definition calculate_health_metrics_for_window ::
  "(nat \<Rightarrow> uuid) \<Rightarrow> datetime \<Rightarrow> payment_event list \<Rightarrow> datetime \<Rightarrow> datetime \<Rightarrow> int \<Rightarrow> snapshot list" where
  "calculate_health_metrics_for_window ids now events window_start window_end threshold =
     (let segs = concat (map (\<lambda>dimension.
                   map (Pair dimension) (segments_of dimension window_start window_end events)) DIMENSIONS)
      in map (\<lambda>(i, dimension, segment_value, segment_events).
               segment_snapshot (ids i) now threshold window_start window_end
                 dimension segment_value segment_events)
           (enumerate 0 segs))"

section \<open>Baselines\<close>

text \<open>\<open>statistics.median\<close> on a non-empty list of floats.\<close>

definition median :: "pyfloat list \<Rightarrow> pyfloat" where
  "median rates =
     (let data = sort rates; n = length data
      in if odd n then data ! (n div 2)
         else f_div (f_add (data ! (n div 2 - 1)) (data ! (n div 2))) 2)"

definition calculate_baseline :: "snapshot list \<Rightarrow> pyfloat option" where
  "calculate_baseline historical_snapshots =
     (let rates = List.map_filter hs_success_rate historical_snapshots
      in if rates = [] then None else Some (median rates))"

section \<open>Repository\<close>

definition get_events_in_window ::
  "('a analytics_db_scheme) \<Rightarrow> datetime \<Rightarrow> datetime \<Rightarrow> payment_event list" where
  "get_events_in_window db window_start window_end =
     filter (\<lambda>e. window_start \<le> ev_timestamp e \<and> ev_timestamp e < window_end \<and> event_visible e)
       (db_events db)"

definition get_events_ingested_after :: "('a analytics_db_scheme) \<Rightarrow> datetime \<Rightarrow> payment_event list" where
  "get_events_ingested_after db ingested_after =
     filter (\<lambda>e. ingested_after < ev_ingested_at e \<and> event_visible e) (db_events db)"

definition get_historical_snapshots ::
  "('a analytics_db_scheme) \<Rightarrow> datetime \<Rightarrow> string \<Rightarrow> string \<Rightarrow> nat \<Rightarrow> snapshot list" where
  "get_historical_snapshots db target_window_start segment_dimension segment_value weeks_back =
     (let historical_starts =
            map (\<lambda>i. target_window_start - weeks (int i)) [1..<weeks_back + 1]
      in if historical_starts = [] then []
         else filter (\<lambda>m. hs_window_start m \<in> set historical_starts \<and>
                          hs_dimension m = segment_dimension \<and> hs_value m = segment_value)
                (db_snapshots db))"

definition snapshot_identity :: "snapshot \<Rightarrow> datetime \<times> datetime \<times> string \<times> string" where
  "snapshot_identity s = (hs_window_start s, hs_window_end s, hs_dimension s, hs_value s)"

text \<open>
  \<open>INSERT ... ON CONFLICT (window_start, window_end, segment_dimension, segment_value) DO UPDATE\<close>:
  a conflicting row keeps its \<open>snapshot_id\<close> and takes every other column of the new row.
\<close>

fun upsert_row :: "snapshot \<Rightarrow> snapshot list \<Rightarrow> snapshot list" where
  "upsert_row s [] = [s]"
| "upsert_row s (r # rs) =
     (if snapshot_identity r = snapshot_identity s
      then s\<lparr>hs_snapshot_id := hs_snapshot_id r\<rparr> # rs
      else r # upsert_row s rs)"

definition upsert_snapshots ::
  "snapshot list \<Rightarrow> ('a analytics_db_scheme) \<Rightarrow> ('a analytics_db_scheme)" where
  "upsert_snapshots ss db =
     (if ss = [] then db else db\<lparr>db_snapshots := fold upsert_row ss (db_snapshots db)\<rparr>)"

section \<open>Service\<close>

text \<open>\<open>snapshots.index(snapshot)\<close>\<close>

fun index_of :: "'a \<Rightarrow> 'a list \<Rightarrow> nat" where
  "index_of x [] = 0"
| "index_of x (y # ys) = (if y = x then 0 else Suc (index_of x ys))"

text \<open>
  The loop \<open>for snapshot in snapshots\<close> reads position \<open>i\<close> of the list it updates, computes the
  baseline, and stores the copy at the index of the first snapshot equal to it.
\<close>

fun attach_baselines ::
  "(snapshot \<Rightarrow> pyfloat option) \<Rightarrow> nat list \<Rightarrow> snapshot list \<Rightarrow> snapshot list" where
  "attach_baselines baseline [] snapshots = snapshots"
| "attach_baselines baseline (i # is) snapshots =
     (let snapshot = snapshots ! i;
          updated = snapshot\<lparr>hs_baseline_success_rate := baseline snapshot\<rparr>
      in attach_baselines baseline is (snapshots[index_of snapshot snapshots := updated]))"

definition calculate_and_save_window ::
  "(nat \<Rightarrow> uuid) \<Rightarrow> datetime \<Rightarrow> datetime \<Rightarrow> datetime \<Rightarrow> ('a analytics_db_scheme) \<Rightarrow> ('a analytics_db_scheme)" where
  "calculate_and_save_window ids now window_start window_end db =
     (let events = get_events_in_window db window_start window_end;
          snapshots = calculate_health_metrics_for_window ids now events window_start window_end
                        MIN_TRANSACTION_THRESHOLD;
          updated = attach_baselines
                      (\<lambda>s. calculate_baseline
                             (get_historical_snapshots db window_start (hs_dimension s) (hs_value s) 4))
                      [0..<length snapshots] snapshots
      in upsert_snapshots updated db)"

text \<open>
  The affected windows form a Python set, iterated in an order the language does not fix:
  \<open>order\<close> is that order, any enumeration of the set.
\<close>

definition affected_windows ::
  "('a analytics_db_scheme) \<Rightarrow> datetime \<Rightarrow> (datetime \<times> datetime) set" where
  "affected_windows db since =
     set (map (\<lambda>e. get_window_boundaries (ev_timestamp e)) (get_events_ingested_after db since))"

definition recalculate_windows ::
  "(datetime \<Rightarrow> nat \<Rightarrow> uuid) \<Rightarrow> datetime \<Rightarrow> (datetime \<times> datetime) list \<Rightarrow> ('a analytics_db_scheme) \<Rightarrow> ('a analytics_db_scheme)" where
  "recalculate_windows ids now order db =
     fold (\<lambda>(window_start, window_end). calculate_and_save_window (ids window_start) now window_start window_end)
       order db"

definition recalculate_late_events ::
  "(datetime \<Rightarrow> nat \<Rightarrow> uuid) \<Rightarrow> datetime \<Rightarrow> datetime \<Rightarrow> ((datetime \<times> datetime) set \<Rightarrow> (datetime \<times> datetime) list)
     \<Rightarrow> ('a analytics_db_scheme) \<Rightarrow> ('a analytics_db_scheme)" where
  "recalculate_late_events ids now since_ingested_at order db =
     recalculate_windows ids now (order (affected_windows db since_ingested_at)) db"

section \<open>Windows\<close>

lemma mod60_div5: "(r::int) mod 60 div 5 = r div 5 mod 12"
proof -
  have "r mod (5 * 12) = 5 * (r div 5 mod 12) + r mod 5" by (rule zmod_zmult2_eq) simp
  then show ?thesis by simp
qed

lemma get_window_boundaries_eq:
  "get_window_boundaries dt = (dt - dt mod minutes 5, dt - dt mod minutes 5 + minutes 5)"
proof -
  let ?q = "dt div minutes 5"
  have m: "dt_minute dt div 5 = ?q mod 12"
  proof -
    have "dt_minute dt div 5 = (dt div 60000000) mod 60 div 5"
      by (simp add: dt_minute_def minutes_def)
    also have "\<dots> = dt div 60000000 div 5 mod 12" by (rule mod60_div5)
    also have "dt div 60000000 div 5 = dt div (60000000 * 5)"
      by (rule zdiv_zmult2_eq [symmetric]) simp
    also have "\<dots> = ?q" by (simp add: minutes_def)
    finally show ?thesis .
  qed
  have h: "dt div minutes 60 = ?q div 12"
    using zdiv_zmult2_eq [of 12 dt "minutes 5"] by (simp add: minutes_def)
  have "dt_replace_minute dt (dt_minute dt div 5 * 5) = minutes 60 * (?q div 12) + minutes 5 * (?q mod 12)"
    unfolding dt_replace_minute_def m h[symmetric] minus_mod_eq_mult_div by (simp add: minutes_def)
  also have "\<dots> = minutes 5 * ?q"
    using mult_div_mod_eq[of 12 ?q] unfolding minutes_def by linarith
  also have "\<dots> = dt - dt mod minutes 5" by (simp add: minus_mod_eq_mult_div)
  finally show ?thesis by (simp add: get_window_boundaries_def Let_def)
qed

section \<open>Segments partition the window\<close>

definition in_window :: "datetime \<Rightarrow> datetime \<Rightarrow> payment_event \<Rightarrow> bool" where
  "in_window ws we e \<longleftrightarrow> ws \<le> ev_timestamp e \<and> ev_timestamp e < we"

lemma map_of_add_to_segment:
  "map_of (add_to_segment v e segs) =
     (map_of segs)(v \<mapsto> (case map_of segs v of None \<Rightarrow> [] | Some es \<Rightarrow> es) @ [e])"
  by (induction v e segs rule: add_to_segment.induct) (auto simp: fun_eq_iff)

lemma keys_add_to_segment: "fst ` set (add_to_segment v e segs) = insert v (fst ` set segs)"
  by (induction v e segs rule: add_to_segment.induct) auto

lemma distinct_add_to_segment:
  "distinct (map fst segs) \<Longrightarrow> distinct (map fst (add_to_segment v e segs))"
proof (induction v e segs rule: add_to_segment.induct)
  case (2 val e v es rest)
  then show ?case using keys_add_to_segment[of val e rest] by auto
qed simp

text \<open>A total over segments of a quantity that adds up event by event.\<close>

lemma total_add_to_segment:
  assumes "\<And>es e. g (es @ [e]) = g es + g [e :: payment_event]" and "g [] = (0::int)"
  shows "(\<Sum>s\<leftarrow>add_to_segment v e segs. g (snd s)) = (\<Sum>s\<leftarrow>segs. g (snd s)) + g [e]"
  by (induction v e segs rule: add_to_segment.induct) (simp_all add: assms)

lemma segments_of_snoc:
  assumes "events \<noteq> []"
  shows "segments_of d ws we (events @ [e]) =
    (if in_window ws we e then add_to_segment (get_segment_value e d) e (segments_of d ws we events)
     else segments_of d ws we events)"
  using assms by (simp add: segments_of_def in_window_def)

lemma segments_of_single:
  "segments_of d ws we [e] = (if in_window ws we e then [(get_segment_value e d, [e])] else [])"
  by (simp add: segments_of_def in_window_def)

lemma segments_of_Nil [simp]:
  "segments_of d ws we [] = (if d = ''GLOBAL'' then [(''ALL'', [])] else [])"
  by (simp add: segments_of_def)

lemma segments_of_distinct: "distinct (map fst (segments_of d ws we events))"
proof (induction events rule: rev_induct)
  case Nil
  then show ?case by simp
next
  case (snoc e events)
  then show ?case
    by (cases "events = []")
      (simp_all add: segments_of_single segments_of_snoc distinct_add_to_segment)
qed

lemma segments_of_total:
  assumes "\<And>es e. g (es @ [e]) = g es + g [e]" and "g [] = (0::int)"
  shows "(\<Sum>s\<leftarrow>segments_of d ws we events. g (snd s)) = g (filter (in_window ws we) events)"
proof (induction events rule: rev_induct)
  case Nil
  then show ?case by (simp add: assms(2))
next
  case (snoc e events)
  then show ?case
    by (cases "events = []")
      (simp_all add: segments_of_single segments_of_snoc assms total_add_to_segment[OF assms])
qed

lemma segments_of_lookup:
  assumes "events \<noteq> []"
  shows "map_of (segments_of d ws we events) v =
    (let es = filter (\<lambda>e. in_window ws we e \<and> get_segment_value e d = v) events
     in if es = [] then None else Some es)"
  using assms
proof (induction events arbitrary: v rule: rev_induct)
  case (snoc e events)
  show ?case
  proof (cases "events = []")
    case True
    then show ?thesis by (simp add: segments_of_single Let_def)
  next
    case False
    then show ?thesis
      using snoc.IH[OF False] by (auto simp: segments_of_snoc map_of_add_to_segment Let_def)
  qed
qed simp

section \<open>Tallies\<close>

definition captured :: "payment_event \<Rightarrow> bool" where
  "captured e \<longleftrightarrow> ev_event_type e = ''payment.captured''"

definition failed :: "payment_event \<Rightarrow> bool" where
  "failed e \<longleftrightarrow> ev_event_type e = ''payment.failed''"

definition gmv :: "payment_event list \<Rightarrow> int" where
  "gmv es = sum_list (map ev_amount_minor_units es)"

definition num_of :: "(payment_event \<Rightarrow> bool) \<Rightarrow> payment_event list \<Rightarrow> int" where
  "num_of P es = int (length (filter P es))"

lemma captured_not_failed: "captured e \<Longrightarrow> \<not> failed e"
  by (simp add: captured_def failed_def)

lemma is_terminal_iff: "is_terminal e \<longleftrightarrow> captured e \<or> failed e"
  by (simp add: is_terminal_def TERMINAL_EVENT_TYPES_def captured_def failed_def)

lemma num_of_simps [simp]:
  "num_of P [] = 0" "num_of P (e # es) = (if P e then 1 else 0) + num_of P es"
  "num_of P (es @ fs) = num_of P es + num_of P fs" "0 \<le> num_of P es"
  by (simp_all add: num_of_def)

lemma gmv_simps [simp]:
  "gmv [] = 0" "gmv (e # es) = ev_amount_minor_units e + gmv es" "gmv (es @ fs) = gmv es + gmv fs"
  by (simp_all add: gmv_def)

lemma tally_events_eq:
  "tally_events es =
     \<lparr>successful_count = num_of captured es, failed_count = num_of failed es,
      successful_gmv = gmv (filter captured es), failed_gmv = gmv (filter failed es)\<rparr>"
proof (induction es rule: rev_induct)
  case Nil
  then show ?case by (simp add: tally_events_def)
next
  case (snoc e es)
  then show ?case
    by (auto simp: tally_events_def tally_event_def captured_def failed_def)
qed

lemma num_of_terminal: "num_of is_terminal es = num_of captured es + num_of failed es"
  by (induction es) (auto simp: is_terminal_iff dest: captured_not_failed)

lemma gmv_terminal: "gmv (filter is_terminal es) = gmv (filter captured es) + gmv (filter failed es)"
  by (induction es) (auto simp: is_terminal_iff dest: captured_not_failed)

section \<open>Snapshots\<close>

lemma segment_snapshot_counts [simp]:
  "hs_transaction_count (segment_snapshot i now th ws we d v es) = num_of is_terminal es"
  "hs_successful_count (segment_snapshot i now th ws we d v es) = num_of captured es"
  "hs_failed_count (segment_snapshot i now th ws we d v es) = num_of failed es"
  "hs_total_gmv (segment_snapshot i now th ws we d v es) = gmv (filter is_terminal es)"
  "hs_successful_gmv (segment_snapshot i now th ws we d v es) = gmv (filter captured es)"
  "hs_failed_gmv (segment_snapshot i now th ws we d v es) = gmv (filter failed es)"
  by (simp_all add: segment_snapshot_def Let_def tally_events_eq num_of_terminal gmv_terminal)

lemma segment_snapshot_identity [simp]:
  "hs_snapshot_id (segment_snapshot i now th ws we d v es) = i"
  "hs_window_start (segment_snapshot i now th ws we d v es) = ws"
  "hs_window_end (segment_snapshot i now th ws we d v es) = we"
  "hs_dimension (segment_snapshot i now th ws we d v es) = d"
  "hs_value (segment_snapshot i now th ws we d v es) = v"
  "hs_baseline_success_rate (segment_snapshot i now th ws we d v es) = None"
  "hs_insufficient_volume (segment_snapshot i now th ws we d v es) = (num_of is_terminal es < th)"
  by (simp_all add: segment_snapshot_def Let_def tally_events_eq num_of_terminal)

text \<open>What a snapshot promises its readers.\<close>

definition snapshot_wf :: "snapshot \<Rightarrow> bool" where
  "snapshot_wf s \<longleftrightarrow>
     0 \<le> hs_successful_count s \<and> 0 \<le> hs_failed_count s \<and>
     hs_transaction_count s = hs_successful_count s + hs_failed_count s \<and>
     hs_total_gmv s = hs_successful_gmv s + hs_failed_gmv s \<and>
     (if 0 < hs_transaction_count s
      then hs_success_rate s = Some (int_truediv (hs_successful_count s) (hs_transaction_count s)) \<and>
           hs_failure_rate s = Some (int_truediv (hs_failed_count s) (hs_transaction_count s))
      else hs_success_rate s = None \<and> hs_failure_rate s = None)"

lemma segment_snapshot_wf: "snapshot_wf (segment_snapshot i now th ws we d v es)"
  by (simp add: snapshot_wf_def num_of_terminal gmv_terminal)
    (simp add: segment_snapshot_def Let_def tally_events_eq)

lemma snapshot_wf_rates:
  assumes "snapshot_wf s"
  shows "hs_success_rate s = Some r \<Longrightarrow> 0 \<le> r \<and> r \<le> 1"
    and "hs_failure_rate s = Some r \<Longrightarrow> 0 \<le> r \<and> r \<le> 1"
  using assms int_truediv_unit[of "hs_successful_count s" "hs_transaction_count s"]
    int_truediv_unit[of "hs_failed_count s" "hs_transaction_count s"]
  by (auto simp: snapshot_wf_def split: if_splits)

lemma map_enumerate_snd: "map (\<lambda>(i, x). h x) (enumerate n xs) = map h xs"
  by (induction xs arbitrary: n) auto

lemma calculate_map:
  assumes "\<And>i d v es. g (segment_snapshot i now th ws we d v es) = h d v es"
  shows "map g (calculate_health_metrics_for_window ids now events ws we th) =
    concat (map (\<lambda>d. map (\<lambda>(v, es). h d v es) (segments_of d ws we events)) DIMENSIONS)"
proof -
  have "map g (calculate_health_metrics_for_window ids now events ws we th) =
    map (\<lambda>(i, dves). (case dves of (d, v, es) \<Rightarrow> h d v es))
      (enumerate 0 (concat (map (\<lambda>d. map (Pair d) (segments_of d ws we events)) DIMENSIONS)))"
    unfolding calculate_health_metrics_for_window_def Let_def map_map
    by (intro map_cong refl) (auto simp: assms split: prod.splits)
  also have "\<dots> = map (\<lambda>(d, v, es). h d v es) (concat (map (\<lambda>d. map (Pair d) (segments_of d ws we events)) DIMENSIONS))"
    by (rule map_enumerate_snd)
  also have "\<dots> = concat (map (\<lambda>d. map (\<lambda>(v, es). h d v es) (segments_of d ws we events)) DIMENSIONS)"
    by (simp add: map_concat comp_def case_prod_unfold)
  finally show ?thesis .
qed

lemma in_calculate:
  assumes "s \<in> set (calculate_health_metrics_for_window ids now events ws we th)"
  obtains i d v es where "d \<in> set DIMENSIONS" and "(v, es) \<in> set (segments_of d ws we events)"
    and "s = segment_snapshot i now th ws we d v es"
  using assms unfolding calculate_health_metrics_for_window_def Let_def
  by (auto dest!: set_zip_rightD simp: enumerate_eq_zip)

lemma calculate_identity_map:
  "map (\<lambda>s. (hs_dimension s, hs_value s)) (calculate_health_metrics_for_window ids now events ws we th) =
     concat (map (\<lambda>d. map (Pair d) (map fst (segments_of d ws we events))) DIMENSIONS)"
  using calculate_map [where g = "\<lambda>s. (hs_dimension s, hs_value s)" and h = "\<lambda>d v es. (d, v)"]
  by (simp add: comp_def case_prod_unfold)

lemma distinct_concat_Pair:
  "distinct ds \<Longrightarrow> (\<And>d. distinct (f d)) \<Longrightarrow> distinct (concat (map (\<lambda>d. map (Pair d) (f d)) ds))"
  by (induction ds) (auto simp: distinct_map inj_on_def)

lemma distinct_DIMENSIONS: "distinct DIMENSIONS"
  by (simp add: DIMENSIONS_def)

lemma calculate_distinct:
  "distinct (map (\<lambda>s. (hs_dimension s, hs_value s))
     (calculate_health_metrics_for_window ids now events ws we th))"
  unfolding calculate_identity_map
  by (rule distinct_concat_Pair[OF distinct_DIMENSIONS segments_of_distinct])

text \<open>The sum of a column over the snapshots of one dimension.\<close>

definition column_total :: "string \<Rightarrow> (snapshot \<Rightarrow> int) \<Rightarrow> snapshot list \<Rightarrow> int" where
  "column_total d f ss = (\<Sum>s\<leftarrow>ss. if hs_dimension s = d then f s else 0)"

lemma sum_list_concat: "sum_list (concat xss) = (\<Sum>xs\<leftarrow>xss. sum_list xs :: int)"
  by (induction xss) auto

lemma sum_list_single:
  "distinct ds \<Longrightarrow> d \<in> set ds \<Longrightarrow> (\<Sum>x\<leftarrow>ds. if x = d then f x else (0::int)) = f d"
proof (induction ds)
  case (Cons x ds)
  have "(\<Sum>x\<leftarrow>ds. if x = d then f x else 0) = 0" if "d \<notin> set ds"
    using that by (induction ds) auto
  with Cons show ?case by auto
qed simp

lemma column_total_calculate:
  assumes f: "\<And>i v es. f (segment_snapshot i now th ws we d v es) = g es"
    and add: "\<And>es e. g (es @ [e]) = g es + g [e]" and nil: "g [] = 0" and d: "d \<in> set DIMENSIONS"
  shows "column_total d f (calculate_health_metrics_for_window ids now events ws we th) =
    g (filter (in_window ws we) events)"
proof -
  have "map (\<lambda>s. if hs_dimension s = d then f s else 0) (calculate_health_metrics_for_window ids now events ws we th) =
    concat (map (\<lambda>d'. map (\<lambda>(v, es). if d' = d then g es else 0) (segments_of d' ws we events)) DIMENSIONS)"
    by (rule calculate_map) (simp add: f)
  then have "column_total d f (calculate_health_metrics_for_window ids now events ws we th) =
    (\<Sum>d'\<leftarrow>DIMENSIONS. \<Sum>(v, es)\<leftarrow>segments_of d' ws we events. if d' = d then g es else 0)"
    by (simp add: column_total_def sum_list_concat comp_def)
  also have "\<dots> = (\<Sum>d'\<leftarrow>DIMENSIONS. if d' = d then (\<Sum>s\<leftarrow>segments_of d ws we events. g (snd s)) else 0)"
    by (intro arg_cong[where f = sum_list] map_cong refl) (auto simp: case_prod_unfold)
  also have "\<dots> = (\<Sum>s\<leftarrow>segments_of d ws we events. g (snd s))"
    by (rule sum_list_single[OF distinct_DIMENSIONS d])
  finally show ?thesis using segments_of_total[of g, OF add nil] by simp
qed

section \<open>The snapshot table\<close>

definition lookup_snapshot ::
  "snapshot list \<Rightarrow> datetime \<times> datetime \<times> string \<times> string \<Rightarrow> snapshot option" where
  "lookup_snapshot rows k = find (\<lambda>r. snapshot_identity r = k) rows"

definition merge_snapshot :: "snapshot \<Rightarrow> snapshot \<Rightarrow> snapshot" where
  "merge_snapshot old new = new\<lparr>hs_snapshot_id := hs_snapshot_id old\<rparr>"

lemma snapshot_identity_merge [simp]:
  "snapshot_identity (s\<lparr>hs_snapshot_id := i\<rparr>) = snapshot_identity s"
  "snapshot_identity (s\<lparr>hs_baseline_success_rate := b\<rparr>) = snapshot_identity s"
  by (simp_all add: snapshot_identity_def)

lemma lookup_upsert_row:
  "lookup_snapshot (upsert_row s rows) k =
     (if k = snapshot_identity s
      then Some (case lookup_snapshot rows k of None \<Rightarrow> s | Some old \<Rightarrow> merge_snapshot old s)
      else lookup_snapshot rows k)"
  by (induction s rows rule: upsert_row.induct) (auto simp: lookup_snapshot_def merge_snapshot_def)

interpretation snapshot_table: keyed_table lookup_snapshot snapshot_identity upsert_row merge_snapshot
  by unfold_locales (auto simp: lookup_upsert_row merge_snapshot_def)

lemma upsert_row_identities:
  "snapshot_identity ` set (upsert_row s rows) = insert (snapshot_identity s) (snapshot_identity ` set rows)"
  by (induction s rows rule: upsert_row.induct) auto

lemma upsert_row_distinct:
  "distinct (map snapshot_identity rows) \<Longrightarrow> distinct (map snapshot_identity (upsert_row s rows))"
proof (induction s rows rule: upsert_row.induct)
  case (2 s r rs)
  then show ?case using upsert_row_identities[of s rs] by auto
qed simp

lemma fold_upsert_distinct:
  "distinct (map snapshot_identity rows) \<Longrightarrow> distinct (map snapshot_identity (fold upsert_row ss rows))"
  by (induction ss arbitrary: rows) (auto simp: upsert_row_distinct)

lemma filter_upsert_row:
  assumes "\<And>r. snapshot_identity r = snapshot_identity s \<Longrightarrow> \<not> P r"
  shows "filter P (upsert_row s rows) = filter P rows"
proof (induction rows)
  case Nil
  then show ?case using assms by simp
next
  case (Cons r rs)
  then show ?case using assms by (auto)
qed

lemma filter_fold_upsert:
  assumes "\<And>s r. s \<in> set ss \<Longrightarrow> snapshot_identity r = snapshot_identity s \<Longrightarrow> \<not> P r"
  shows "filter P (fold upsert_row ss rows) = filter P rows"
  using assms
proof (induction ss arbitrary: rows)
  case (Cons s ss)
  then have "filter P (fold upsert_row ss (upsert_row s rows)) = filter P (upsert_row s rows)" by auto
  also have "\<dots> = filter P rows" using Cons.prems by (intro filter_upsert_row) auto
  finally show ?case by simp
qed simp

section \<open>Attaching baselines in place\<close>

lemma index_of_nth: "distinct xs \<Longrightarrow> i < length xs \<Longrightarrow> index_of (xs ! i) xs = i"
proof (induction xs arbitrary: i)
  case (Cons x xs)
  then show ?case by (cases i) auto
qed simp

lemma attach_baselines_step:
  assumes "k \<le> length ss" and "distinct (map hs_snapshot_id ss)"
  shows "attach_baselines b [k..<length ss]
      (map (\<lambda>s. s\<lparr>hs_baseline_success_rate := b s\<rparr>) (take k ss) @ drop k ss) =
    map (\<lambda>s. s\<lparr>hs_baseline_success_rate := b s\<rparr>) ss"
  using assms
proof (induction "length ss - k" arbitrary: k)
  case 0
  then show ?case by simp
next
  case (Suc n)
  let ?u = "\<lambda>s. s\<lparr>hs_baseline_success_rate := b s\<rparr>"
  let ?xs = "map ?u (take k ss) @ drop k ss"
  from Suc have k: "k < length ss" by simp
  have "map hs_snapshot_id ?xs = map hs_snapshot_id (take k ss @ drop k ss)"
    by (simp only: map_append map_map comp_def) simp
  then have ids: "map hs_snapshot_id ?xs = map hs_snapshot_id ss" by (simp only: append_take_drop_id)
  have "distinct (map hs_snapshot_id ?xs)" using Suc.prems(2) by (simp only: ids)
  then have dist: "distinct ?xs" by (simp only: distinct_map)
  have at_k: "?xs ! k = ss ! k" using k by (simp add: nth_append)
  have idx: "index_of (ss ! k) ?xs = k" using index_of_nth[OF dist, of k] k unfolding at_k by simp
  have upd: "?xs[k := ?u (ss ! k)] = map ?u (take (Suc k) ss) @ drop (Suc k) ss"
    using k by (simp add: list_update_append take_Suc_conv_app_nth drop_update_swap
        Cons_nth_drop_Suc[symmetric])
  have "attach_baselines b [k..<length ss] ?xs =
    attach_baselines b [Suc k..<length ss] (?xs[k := ?u (ss ! k)])"
    using k by (simp only: upt_conv_Cons[OF k] attach_baselines.simps Let_def at_k idx)
  also have "\<dots> = map ?u ss" unfolding upd using Suc by (intro Suc.hyps) simp_all
  finally show ?case .
qed

lemma attach_baselines_eq_map:
  "distinct (map hs_snapshot_id ss) \<Longrightarrow>
   attach_baselines b [0..<length ss] ss = map (\<lambda>s. s\<lparr>hs_baseline_success_rate := b s\<rparr>) ss"
  using attach_baselines_step[of 0 ss b] by simp

lemma map_fst_enumerate_ids:
  "map (\<lambda>(i, x). hs_snapshot_id (segment_snapshot (ids i) now th ws we (f x) (g x) (h x))) (enumerate n xs) =
   map ids [n..<n + length xs]"
proof -
  have "map (\<lambda>(i, x). hs_snapshot_id (segment_snapshot (ids i) now th ws we (f x) (g x) (h x))) (enumerate n xs) =
    map ids (map fst (enumerate n xs))"
    by (simp add: case_prod_unfold comp_def del: map_fst_enumerate)
  then show ?thesis by (simp only: map_fst_enumerate)
qed

lemma calculate_ids:
  "map hs_snapshot_id (calculate_health_metrics_for_window ids now events ws we th) =
   map ids [0..<length (calculate_health_metrics_for_window ids now events ws we th)]"
  using map_fst_enumerate_ids[of ids now th ws we fst "fst \<circ> snd" "snd \<circ> snd" 0]
  by (simp add: calculate_health_metrics_for_window_def Let_def comp_def case_prod_unfold)

lemma calculate_ids_distinct:
  "inj ids \<Longrightarrow> distinct (map hs_snapshot_id (calculate_health_metrics_for_window ids now events ws we th))"
  unfolding calculate_ids distinct_map by (auto intro: inj_on_subset)

section \<open>Recomputing a window\<close>

definition window_snapshots ::
  "(nat \<Rightarrow> uuid) \<Rightarrow> datetime \<Rightarrow> datetime \<Rightarrow> datetime \<Rightarrow> ('a analytics_db_scheme) \<Rightarrow> snapshot list" where
  "window_snapshots ids now ws we db =
     map (\<lambda>s. s\<lparr>hs_baseline_success_rate :=
            calculate_baseline (get_historical_snapshots db ws (hs_dimension s) (hs_value s) 4)\<rparr>)
       (calculate_health_metrics_for_window ids now (get_events_in_window db ws we) ws we
          MIN_TRANSACTION_THRESHOLD)"

lemma calculate_and_save_window_eq:
  assumes "inj ids"
  shows "calculate_and_save_window ids now ws we db =
    db\<lparr>db_snapshots := fold upsert_row (window_snapshots ids now ws we db) (db_snapshots db)\<rparr>"
  unfolding calculate_and_save_window_def Let_def window_snapshots_def
  by (simp add: attach_baselines_eq_map[OF calculate_ids_distinct[OF assms]] upsert_snapshots_def)

lemma window_snapshots_identity:
  assumes "s \<in> set (window_snapshots ids now ws we db)"
  shows "hs_window_start s = ws \<and> hs_window_end s = we"
  using assms unfolding window_snapshots_def by (auto elim!: in_calculate)

lemma window_snapshots_distinct: "distinct (map snapshot_identity (window_snapshots ids now ws we db))"
proof -
  let ?c = "calculate_health_metrics_for_window ids now (get_events_in_window db ws we) ws we MIN_TRANSACTION_THRESHOLD"
  have "map snapshot_identity (window_snapshots ids now ws we db) =
    map (\<lambda>(d, v). (ws, we, d, v)) (map (\<lambda>s. (hs_dimension s, hs_value s)) ?c)"
    unfolding window_snapshots_def map_map
    by (intro map_cong refl) (auto simp: snapshot_identity_def elim!: in_calculate)
  moreover have "distinct (map (\<lambda>(d, v). (ws, we, d, v)) (map (\<lambda>s. (hs_dimension s, hs_value s)) ?c))"
    using calculate_distinct by (subst distinct_map) (auto simp: inj_on_def)
  ultimately show ?thesis by simp
qed

lemma historical_unchanged:
  assumes "inj ids"
  shows "get_historical_snapshots (calculate_and_save_window ids now ws we db) ws d v n =
    get_historical_snapshots db ws d v n"
proof -
  let ?P = "\<lambda>m. hs_window_start m \<in> set (map (\<lambda>i. ws - weeks (int i)) [1..<n + 1]) \<and> hs_dimension m = d \<and> hs_value m = v"
  have "filter ?P (fold upsert_row (window_snapshots ids now ws we db) (db_snapshots db)) = filter ?P (db_snapshots db)"
  proof (rule filter_fold_upsert)
    fix s r assume "s \<in> set (window_snapshots ids now ws we db)" "snapshot_identity r = snapshot_identity s"
    then have "hs_window_start r = ws"
      by (auto dest!: window_snapshots_identity simp: snapshot_identity_def)
    then show "\<not> ?P r" by (auto simp: weeks_def)
  qed
  then show ?thesis
    by (simp add: get_historical_snapshots_def calculate_and_save_window_eq[OF assms])
qed

lemma events_unchanged [simp]:
  "db_events (calculate_and_save_window ids now ws we db) = db_events db"
  by (simp add: calculate_and_save_window_def Let_def upsert_snapshots_def)

section \<open>Medians\<close>

lemma median_cong_mset: "mset xs = mset ys \<Longrightarrow> median xs = median ys"
proof -
  assume eq: "mset xs = mset ys"
  then have "sort xs = sort ys" by (intro properties_for_sort) simp_all
  then show ?thesis by (simp add: median_def)
qed

lemma median_between:
  assumes "xs \<noteq> []" and "\<And>x. x \<in> set xs \<Longrightarrow> fl x = x \<and> lo \<le> x \<and> x \<le> hi"
  shows "lo \<le> median xs \<and> median xs \<le> hi"
proof (cases "odd (length xs)")
  case True
  have "length xs div 2 < length (sort xs)" using assms(1) by simp
  then have "sort xs ! (length xs div 2) \<in> set xs" by (metis nth_mem set_sort)
  with True assms(2) show ?thesis by (simp add: median_def Let_def)
next
  case False
  let ?i = "length xs div 2 - 1" and ?j = "length xs div 2"
  have len: "2 \<le> length xs" using False assms(1) by (cases xs; cases "tl xs") auto
  then have ij: "?i < length (sort xs)" "?j < length (sort xs)" "?i \<le> ?j" by auto
  then have mem: "sort xs ! ?i \<in> set xs" "sort xs ! ?j \<in> set xs" by (metis nth_mem set_sort)+
  have le: "sort xs ! ?i \<le> sort xs ! ?j" using ij by (intro sorted_nth_mono) simp_all
  from fl_mean_between[OF _ _ le] assms(2)[OF mem(1)] assms(2)[OF mem(2)] False
  show ?thesis by (auto simp: median_def Let_def intro: order_trans)
qed

lemma set_map_filter: "x \<in> set (List.map_filter f xs) \<longleftrightarrow> (\<exists>a \<in> set xs. f a = Some x)"
  by (induction xs) (auto simp: map_filter_simps split: option.splits)

lemma mset_map_filter_cong: "mset xs = mset ys \<Longrightarrow> mset (List.map_filter f xs) = mset (List.map_filter f ys)"
  by (simp add: map_filter_def mset_filter)

lemma snapshot_wf_float: "snapshot_wf s \<Longrightarrow> hs_success_rate s = Some r \<Longrightarrow> fl r = r"
  by (auto simp: snapshot_wf_def int_truediv_def fl_idem split: if_splits)

section \<open>Properties\<close>

text \<open>The window of an instant contains it, is 5 minutes long, and starts on a multiple of 5
  minutes, so windows tile the time line.\<close>

lemma get_window_boundaries_tiles:
  "fst (get_window_boundaries dt) \<le> dt \<and> dt < snd (get_window_boundaries dt) \<and>
   snd (get_window_boundaries dt) = fst (get_window_boundaries dt) + minutes 5 \<and>
   fst (get_window_boundaries dt) mod minutes 5 = 0"
  unfolding get_window_boundaries_eq fst_conv snd_conv
  using pos_mod_sign[of "minutes 5" dt] pos_mod_bound[of "minutes 5" dt]
  by (simp add: minutes_def mod_eq_0_iff_dvd dvd_minus_mod)

text \<open>C4: The snapshots of a window lose and duplicate nothing: for every dimension, the transaction,
  success and failure counts and the GMV columns add up to those of the terminal events in the
  window.\<close>

theorem health_metrics_conserve:
  "list_all (\<lambda>d.
     column_total d hs_transaction_count (calculate_health_metrics_for_window ids now events ws we th) =
       num_of is_terminal (filter (in_window ws we) events) \<and>
     column_total d hs_failed_count (calculate_health_metrics_for_window ids now events ws we th) =
       num_of failed (filter (in_window ws we) events) \<and>
     column_total d hs_total_gmv (calculate_health_metrics_for_window ids now events ws we th) =
       gmv (filter is_terminal (filter (in_window ws we) events)) \<and>
     column_total d hs_successful_gmv (calculate_health_metrics_for_window ids now events ws we th) =
       gmv (filter captured (filter (in_window ws we) events)))
   DIMENSIONS"
  unfolding list_all_iff by (intro ballI conjI column_total_calculate) simp_all

lemma calculate_exact:
  assumes "s \<in> set (calculate_health_metrics_for_window ids now events ws we th)"
  obtains i where "s = segment_snapshot i now th ws we (hs_dimension s) (hs_value s)
    (filter (\<lambda>e. in_window ws we e \<and> get_segment_value e (hs_dimension s) = hs_value s) events)"
proof -
  from assms obtain i d v es where d: "d \<in> set DIMENSIONS" and seg: "(v, es) \<in> set (segments_of d ws we events)"
    and s: "s = segment_snapshot i now th ws we d v es" by (rule in_calculate)
  have "es = filter (\<lambda>e. in_window ws we e \<and> get_segment_value e d = v) events"
  proof (cases "events = []")
    case True
    with seg show ?thesis by (auto split: if_splits)
  next
    case False
    from seg have "map_of (segments_of d ws we events) v = Some es"
      by (simp add: segments_of_distinct)
    with segments_of_lookup[OF False, of d ws we v] show ?thesis by (auto simp: Let_def split: if_splits)
  qed
  with s that show ?thesis by auto
qed

text \<open>C5: Every snapshot is exact and well formed: its counts and GMV are those of the in-window
  events of its segment, its rates are the correctly rounded quotients (absent exactly for an empty
  segment), \<open>insufficient_volume\<close> is the threshold test, and no segment appears twice.\<close>

theorem health_metrics_exact:
  "list_all (\<lambda>s. snapshot_wf s \<and>
       hs_transaction_count s = num_of is_terminal
         (filter (\<lambda>e. in_window ws we e \<and> get_segment_value e (hs_dimension s) = hs_value s) events) \<and>
       hs_failed_count s = num_of failed
         (filter (\<lambda>e. in_window ws we e \<and> get_segment_value e (hs_dimension s) = hs_value s) events) \<and>
       hs_insufficient_volume s = (hs_transaction_count s < th) \<and>
       hs_baseline_success_rate s = None)
     (calculate_health_metrics_for_window ids now events ws we th) \<and>
   distinct (map snapshot_identity (calculate_health_metrics_for_window ids now events ws we th))"
proof
  show "distinct (map snapshot_identity (calculate_health_metrics_for_window ids now events ws we th))"
    using calculate_distinct[of ids now events ws we th]
    by (auto simp: distinct_map inj_on_def snapshot_identity_def)
  show "list_all (\<lambda>s. snapshot_wf s \<and>
       hs_transaction_count s = num_of is_terminal
         (filter (\<lambda>e. in_window ws we e \<and> get_segment_value e (hs_dimension s) = hs_value s) events) \<and>
       hs_failed_count s = num_of failed
         (filter (\<lambda>e. in_window ws we e \<and> get_segment_value e (hs_dimension s) = hs_value s) events) \<and>
       hs_insufficient_volume s = (hs_transaction_count s < th) \<and>
       hs_baseline_success_rate s = None)
     (calculate_health_metrics_for_window ids now events ws we th)"
    unfolding list_all_iff
  proof
    fix s assume "s \<in> set (calculate_health_metrics_for_window ids now events ws we th)"
    then obtain i where s: "s = segment_snapshot i now th ws we (hs_dimension s) (hs_value s)
      (filter (\<lambda>e. in_window ws we e \<and> get_segment_value e (hs_dimension s) = hs_value s) events)"
      by (rule calculate_exact)
    show "snapshot_wf s \<and>
       hs_transaction_count s = num_of is_terminal
         (filter (\<lambda>e. in_window ws we e \<and> get_segment_value e (hs_dimension s) = hs_value s) events) \<and>
       hs_failed_count s = num_of failed
         (filter (\<lambda>e. in_window ws we e \<and> get_segment_value e (hs_dimension s) = hs_value s) events) \<and>
       hs_insufficient_volume s = (hs_transaction_count s < th) \<and>
       hs_baseline_success_rate s = None"
      using arg_cong[OF s, of snapshot_wf] arg_cong[OF s, of hs_transaction_count]
        arg_cong[OF s, of hs_failed_count] arg_cong[OF s, of hs_insufficient_volume]
        arg_cong[OF s, of hs_baseline_success_rate]
      by (simp add: segment_snapshot_wf)
  qed
qed

text \<open>The baseline does not depend on the order in which the database returns the historical
  snapshots, exists exactly when one of them has a rate, and is a rate in [0, 1] for well-formed
  snapshots.\<close>

lemma calculate_baseline_median:
  assumes "list_all snapshot_wf hist" and "mset hist' = mset hist"
  shows "calculate_baseline hist' = calculate_baseline hist \<and>
    (case calculate_baseline hist of
       None \<Rightarrow> list_all (\<lambda>s. hs_success_rate s = None) hist
     | Some b \<Rightarrow> 0 \<le> b \<and> b \<le> 1 \<and> \<not> list_all (\<lambda>s. hs_success_rate s = None) hist)"
proof
  have "mset (List.map_filter hs_success_rate hist') = mset (List.map_filter hs_success_rate hist)"
    using assms(2) by (rule mset_map_filter_cong)
  then show "calculate_baseline hist' = calculate_baseline hist"
    by (auto simp: calculate_baseline_def Let_def dest: median_cong_mset)
  let ?rates = "List.map_filter hs_success_rate hist"
  have "?rates \<noteq> [] \<Longrightarrow> 0 \<le> median ?rates \<and> median ?rates \<le> 1"
    using assms(1) by (intro median_between)
      (auto simp: set_map_filter list_all_iff dest: snapshot_wf_float snapshot_wf_rates)
  moreover have "?rates = [] \<longleftrightarrow> list_all (\<lambda>s. hs_success_rate s = None) hist"
    by (induction hist) (auto simp: map_filter_simps split: option.splits)
  ultimately show "case calculate_baseline hist of
       None \<Rightarrow> list_all (\<lambda>s. hs_success_rate s = None) hist
     | Some b \<Rightarrow> 0 \<le> b \<and> b \<le> 1 \<and> \<not> list_all (\<lambda>s. hs_success_rate s = None) hist"
    by (auto simp: calculate_baseline_def Let_def)
qed

text \<open>Recomputing a window is idempotent and local: a second run leaves every row as the first
  one left it, rows of other windows are untouched, and no segment of a window ever gets two rows.\<close>

lemma calculate_and_save_window_idempotent:
  assumes "inj ids" and "distinct (map snapshot_identity (db_snapshots db))"
  shows "lookup_snapshot (db_snapshots (calculate_and_save_window ids now ws we
             (calculate_and_save_window ids now ws we db))) =
         lookup_snapshot (db_snapshots (calculate_and_save_window ids now ws we db)) \<and>
    distinct (map snapshot_identity (db_snapshots (calculate_and_save_window ids now ws we db))) \<and>
    (\<forall>s e d v. (s, e) = (ws, we) \<or>
       lookup_snapshot (db_snapshots (calculate_and_save_window ids now ws we db)) (s, e, d, v) =
         lookup_snapshot (db_snapshots db) (s, e, d, v))"
proof (intro conjI allI)
  let ?db1 = "calculate_and_save_window ids now ws we db"
  note save = calculate_and_save_window_eq[OF assms(1), of now ws we]
  have same: "window_snapshots ids now ws we ?db1 = window_snapshots ids now ws we db"
    unfolding window_snapshots_def historical_unchanged[OF assms(1)]
    by (simp add: get_events_in_window_def)
  have once: "db_snapshots ?db1 = fold upsert_row (window_snapshots ids now ws we db) (db_snapshots db)"
    by (simp add: save)
  have "db_snapshots (calculate_and_save_window ids now ws we ?db1) =
    fold upsert_row (window_snapshots ids now ws we db) (db_snapshots ?db1)"
    by (subst save[of ?db1]) (simp add: same)
  then show "lookup_snapshot (db_snapshots (calculate_and_save_window ids now ws we ?db1)) =
    lookup_snapshot (db_snapshots ?db1)"
    unfolding fun_eq_iff once by (simp add: snapshot_table.fold_put_idem[OF window_snapshots_distinct])
  show "distinct (map snapshot_identity (db_snapshots ?db1))"
    using fold_upsert_distinct[OF assms(2)] by (simp add: save)
  show "(s, e) = (ws, we) \<or> lookup_snapshot (db_snapshots ?db1) (s, e, d, v) =
      lookup_snapshot (db_snapshots db) (s, e, d, v)" for s e d v
  proof (cases "(s, e) = (ws, we)")
    case False
    then have "(s, e, d, v) \<notin> snapshot_identity ` set (window_snapshots ids now ws we db)"
      by (auto simp: snapshot_identity_def dest: window_snapshots_identity)
    then show ?thesis by (simp add: save snapshot_table.fold_put_frame)
  qed simp
qed

section \<open>Concrete instances\<close>

definition example_snapshot :: "datetime \<Rightarrow> string list \<Rightarrow> snapshot" where
  "example_snapshot ws etypes =
     segment_snapshot (UuidLit ''snapshot'') 0 50 ws (ws + minutes 5) ''GLOBAL'' ''ALL''
       (map (\<lambda>t. example_event t ''pay_1'' ws) etypes)"

definition late_events_db :: analytics_db where
  "late_events_db =
     \<lparr>db_raw = [],
      db_events = [example_event ''payment.captured'' ''pay_1'' 0,
                   example_event ''payment.captured'' ''pay_2'' (weeks 1)],
      db_snapshots = []\<rparr>"

lemma calculate_baseline_median_witness:
  "calculate_baseline (rev [example_snapshot 0 [''payment.captured''], example_snapshot (minutes 5) [''payment.failed'']]) =
   calculate_baseline [example_snapshot 0 [''payment.captured''], example_snapshot (minutes 5) [''payment.failed'']]"
  using calculate_baseline_median
    [of "[example_snapshot 0 [''payment.captured''], example_snapshot (minutes 5) [''payment.failed'']]"
        "rev [example_snapshot 0 [''payment.captured''], example_snapshot (minutes 5) [''payment.failed'']]"]
  by (simp add: example_snapshot_def segment_snapshot_wf)

lemma calculate_and_save_window_idempotent_witness:
  "lookup_snapshot (db_snapshots (calculate_and_save_window Uuid4 0 0 (minutes 5)
       (calculate_and_save_window Uuid4 0 0 (minutes 5) late_events_db))) =
   lookup_snapshot (db_snapshots (calculate_and_save_window Uuid4 0 0 (minutes 5) late_events_db))"
  using calculate_and_save_window_idempotent [of Uuid4 late_events_db 0 0 "minutes 5"]
  by (simp add: inj_def late_events_db_def)

text \<open>The recomputation after late events depends on the order in which the set of affected
  windows is iterated: when two affected windows are weeks apart, the later one gets a baseline from
  the earlier one only if the earlier one comes first. Both orders enumerate the same set.\<close>

lemma recalculate_late_events_order:
  "set [(0, minutes 5), (weeks 1, weeks 1 + minutes 5)] = affected_windows late_events_db 0 \<and>
   set [(weeks 1, weeks 1 + minutes 5), (0, minutes 5)] = affected_windows late_events_db 0 \<and>
   map_option hs_baseline_success_rate
     (lookup_snapshot (db_snapshots (recalculate_windows (\<lambda>w n. Uuid5 (Uuid4 n) [Iso w]) 0
         [(0, minutes 5), (weeks 1, weeks 1 + minutes 5)] late_events_db))
       (weeks 1, weeks 1 + minutes 5, ''GLOBAL'', ''ALL'')) = Some (Some 1) \<and>
   map_option hs_baseline_success_rate
     (lookup_snapshot (db_snapshots (recalculate_windows (\<lambda>w n. Uuid5 (Uuid4 n) [Iso w]) 0
         [(weeks 1, weeks 1 + minutes 5), (0, minutes 5)] late_events_db))
       (weeks 1, weeks 1 + minutes 5, ''GLOBAL'', ''ALL'')) = Some None"
  by code_simp

end
