(* ===== verification/Degradation.thy ===== *)
theory Degradation
  imports Analytics
begin

text \<open>
  Stage 3 (\<open>src/core/degradation\<close>, \<open>degradation_repository.py\<close>): the signal of a snapshot, the
  severity of a signal, the episode state machine replayed over a segment's signals, and the
  service that appends signals and reconciles the stored episodes with the replay.
\<close>

section \<open>Data\<close>

definition MIN_ABSOLUTE_RATE_DROP :: pyfloat where "MIN_ABSOLUTE_RATE_DROP = fl (5 / 100)"
definition MIN_RELATIVE_RATE_DROP :: pyfloat where "MIN_RELATIVE_RATE_DROP = fl (10 / 100)"
definition MIN_BASELINE_RATE_FOR_RELATIVE_TEST :: pyfloat where
  "MIN_BASELINE_RATE_FOR_RELATIVE_TEST = fl (5 / 100)"
definition REQUIRED_CONSECUTIVE_WINDOWS :: int where "REQUIRED_CONSECUTIVE_WINDOWS = 3"
definition RECOVERY_CONSECUTIVE_WINDOWS :: int where "RECOVERY_CONSECUTIVE_WINDOWS = 2"
definition SEVERITY_HIGH_ABSOLUTE_DROP :: pyfloat where "SEVERITY_HIGH_ABSOLUTE_DROP = fl (15 / 100)"
definition SEVERITY_HIGH_RELATIVE_DROP :: pyfloat where "SEVERITY_HIGH_RELATIVE_DROP = fl (25 / 100)"
definition SEVERITY_CRITICAL_ABSOLUTE_DROP :: pyfloat where
  "SEVERITY_CRITICAL_ABSOLUTE_DROP = fl (30 / 100)"
definition SEVERITY_CRITICAL_RELATIVE_DROP :: pyfloat where
  "SEVERITY_CRITICAL_RELATIVE_DROP = fl (50 / 100)"

definition NAMESPACE_EPISODE :: uuid where
  "NAMESPACE_EPISODE = UuidLit ''3d2c8c4a-67a1-4389-9a70-8b1b017f8d44''"

datatype signal_type = NORMAL | BAD | LOW_VOLUME | NO_BASELINE
datatype episode_status = ACTIVE | RECOVERED | INVALIDATED
datatype severity = MODERATE | HIGH | CRITICAL
datatype sm_state = HEALTHY | BAD_PENDING | DEGRADED | RECOVERY_PENDING

record degradation_signal =
  sig_signal_id :: uuid
  sig_snapshot_id :: uuid
  sig_dimension :: string
  sig_value :: string
  sig_window_start :: datetime
  sig_version :: int
  sig_type :: signal_type
  sig_baseline :: "pyfloat option"
  sig_absolute_drop :: "pyfloat option"
  sig_relative_drop :: "pyfloat option"
  sig_evaluation_timestamp :: datetime

record degradation_episode =
  ep_episode_id :: uuid
  ep_dimension :: string
  ep_value :: string
  ep_started_at :: datetime
  ep_status :: episode_status
  ep_peak_drop :: pyfloat
  ep_affected_count :: int
  ep_severity :: severity
  ep_ended_at :: "datetime option"

record episode_history =
  hist_run_id :: uuid
  hist_episode_id :: uuid
  hist_dimension :: string
  hist_value :: string
  hist_status :: episode_status
  hist_severity :: severity
  hist_effective_start :: datetime
  hist_evaluation_timestamp :: datetime

record degradation_db = analytics_db +
  db_signals :: "degradation_signal list"
  db_episodes :: "degradation_episode list"
  db_history :: "episode_history list"

section \<open>Signals\<close>

text \<open>
  A missing success rate reaches \<open>baseline - current\<close> with \<open>current = None\<close>, a \<open>TypeError\<close>.
\<close>

definition evaluate_snapshot ::
  "uuid \<Rightarrow> snapshot \<Rightarrow> int \<Rightarrow> datetime \<Rightarrow> (exn, degradation_signal) result" where
  "evaluate_snapshot new_id snapshot evaluation_version evaluation_timestamp =
     bind_result
       (case hs_baseline_success_rate snapshot of
          None \<Rightarrow> Inr (NO_BASELINE, None, None)
        | Some baseline \<Rightarrow>
            if hs_insufficient_volume snapshot then Inr (LOW_VOLUME, None, None)
            else (case hs_success_rate snapshot of
                None \<Rightarrow> Inl TypeError
              | Some current \<Rightarrow>
                  let absolute_drop = f_sub baseline current;
                      relative_drop =
                        (if 0 < baseline then f_div (f_sub baseline current) baseline else 0);
                      stype =
                        (if baseline < MIN_BASELINE_RATE_FOR_RELATIVE_TEST then
                           (if MIN_ABSOLUTE_RATE_DROP \<le> absolute_drop then BAD else NORMAL)
                         else if MIN_ABSOLUTE_RATE_DROP \<le> absolute_drop \<and>
                                 MIN_RELATIVE_RATE_DROP \<le> relative_drop
                         then BAD else NORMAL)
                  in Inr (stype, Some absolute_drop, Some relative_drop)))
       (\<lambda>(stype, absolute_drop, relative_drop).
          Inr \<lparr>sig_signal_id = new_id,
               sig_snapshot_id = hs_snapshot_id snapshot,
               sig_dimension = hs_dimension snapshot,
               sig_value = hs_value snapshot,
               sig_window_start = hs_window_start snapshot,
               sig_version = evaluation_version,
               sig_type = stype,
               sig_baseline = hs_baseline_success_rate snapshot,
               sig_absolute_drop = absolute_drop,
               sig_relative_drop = relative_drop,
               sig_evaluation_timestamp = evaluation_timestamp\<rparr>)"

section \<open>Severity\<close>

definition evaluate_severity :: "degradation_signal \<Rightarrow> pyfloat \<Rightarrow> severity" where
  "evaluate_severity signal baseline_success_rate =
     (case (sig_absolute_drop signal, sig_relative_drop signal) of
        (Some abs_drop, Some rel_drop) \<Rightarrow>
          if SEVERITY_CRITICAL_ABSOLUTE_DROP \<le> abs_drop \<or>
             MIN_BASELINE_RATE_FOR_RELATIVE_TEST \<le> baseline_success_rate \<and>
             SEVERITY_CRITICAL_RELATIVE_DROP \<le> rel_drop
          then CRITICAL
          else if SEVERITY_HIGH_ABSOLUTE_DROP \<le> abs_drop \<or>
             MIN_BASELINE_RATE_FOR_RELATIVE_TEST \<le> baseline_success_rate \<and>
             SEVERITY_HIGH_RELATIVE_DROP \<le> rel_drop
          then HIGH
          else MODERATE
      | _ \<Rightarrow> MODERATE)"

primrec severity_order :: "severity \<Rightarrow> int" where
  "severity_order MODERATE = 1"
| "severity_order HIGH = 2"
| "severity_order CRITICAL = 3"

definition escalate_severity :: "severity \<Rightarrow> severity \<Rightarrow> severity" where
  "escalate_severity current proposed =
     (if severity_order current < severity_order proposed then proposed else current)"

text \<open>\<open>signal.baseline_success_rate or 0.0\<close>\<close>

definition signal_severity :: "degradation_signal \<Rightarrow> severity" where
  "signal_severity signal =
     evaluate_severity signal (case sig_baseline signal of None \<Rightarrow> 0 | Some b \<Rightarrow> b)"

section \<open>The episode state machine\<close>

text \<open>The local variables of \<open>reconcile_timeline\<close>.\<close>

record machine =
  m_state :: sm_state
  m_persistence :: int
  m_recovery :: int
  m_first_bad :: "datetime option"
  m_last_bad :: "datetime option"
  m_pending :: "degradation_signal list"
  m_episode :: "degradation_episode option"
  m_episodes :: "degradation_episode list"

definition machine_init :: machine where
  "machine_init =
     \<lparr>m_state = HEALTHY, m_persistence = 0, m_recovery = 0, m_first_bad = None,
      m_last_bad = None, m_pending = [], m_episode = None, m_episodes = []\<rparr>"

definition make_episode_id :: "string \<Rightarrow> string \<Rightarrow> datetime \<Rightarrow> uuid" where
  "make_episode_id segment_dimension segment_value first_bad_window =
     Uuid5 NAMESPACE_EPISODE
       (chars segment_dimension @ Ch CHR '':'' # chars segment_value @ [Ch CHR '':'', Iso first_bad_window])"

text \<open>The attribute accesses on \<open>None\<close> that Python would refuse are \<open>AttributeError\<close> branches.\<close>

definition open_episode ::
  "string \<Rightarrow> string \<Rightarrow> machine \<Rightarrow> (exn, machine) result" where
  "open_episode sdim sval m =
     (case m_first_bad m of
        None \<Rightarrow> Inl AttributeError
      | Some first_bad \<Rightarrow>
          Inr (m\<lparr>m_state := DEGRADED,
                 m_episode := Some
                   \<lparr>ep_episode_id = make_episode_id sdim sval first_bad,
                    ep_dimension = sdim,
                    ep_value = sval,
                    ep_started_at = first_bad,
                    ep_status = ACTIVE,
                    ep_peak_drop = max_default 0 (List.map_filter sig_absolute_drop (m_pending m)),
                    ep_affected_count = m_persistence m,
                    ep_severity =
                      fold (\<lambda>s sev. escalate_severity sev (signal_severity s)) (m_pending m) MODERATE,
                    ep_ended_at = None\<rparr>\<rparr>))"

definition worsen_episode :: "degradation_signal \<Rightarrow> degradation_episode \<Rightarrow> degradation_episode" where
  "worsen_episode signal ep =
     ep\<lparr>ep_affected_count := ep_affected_count ep + 1,
        ep_peak_drop :=
          (case sig_absolute_drop signal of
             Some d \<Rightarrow> if ep_peak_drop ep < d then d else ep_peak_drop ep
           | None \<Rightarrow> ep_peak_drop ep),
        ep_severity := escalate_severity (ep_severity ep) (signal_severity signal)\<rparr>"

definition with_episode ::
  "machine \<Rightarrow> (degradation_episode \<Rightarrow> (exn, machine) result) \<Rightarrow> (exn, machine) result" where
  "with_episode m f = (case m_episode m of None \<Rightarrow> Inl AttributeError | Some ep \<Rightarrow> f ep)"

fun transition_step ::
  "string \<Rightarrow> string \<Rightarrow> sm_state \<Rightarrow> signal_type \<Rightarrow> degradation_signal \<Rightarrow> machine \<Rightarrow> (exn, machine) result" where
  "transition_step sdim sval HEALTHY BAD signal m =
     Inr (m\<lparr>m_state := BAD_PENDING, m_persistence := 1,
            m_first_bad := Some (sig_window_start signal), m_pending := [signal]\<rparr>)"
| "transition_step sdim sval BAD_PENDING BAD signal m =
     (let m' = m\<lparr>m_persistence := m_persistence m + 1, m_pending := m_pending m @ [signal]\<rparr>
      in if REQUIRED_CONSECUTIVE_WINDOWS \<le> m_persistence m' then open_episode sdim sval m' else Inr m')"
| "transition_step sdim sval BAD_PENDING NORMAL signal m =
     Inr (m\<lparr>m_state := HEALTHY, m_persistence := 0, m_first_bad := None, m_pending := []\<rparr>)"
| "transition_step sdim sval DEGRADED BAD signal m =
     with_episode m (\<lambda>ep. Inr (m\<lparr>m_episode := Some (worsen_episode signal ep)\<rparr>))"
| "transition_step sdim sval DEGRADED NORMAL signal m =
     Inr (m\<lparr>m_state := RECOVERY_PENDING, m_recovery := 1\<rparr>)"
| "transition_step sdim sval RECOVERY_PENDING NORMAL signal m =
     (let m' = m\<lparr>m_recovery := m_recovery m + 1\<rparr>
      in if RECOVERY_CONSECUTIVE_WINDOWS \<le> m_recovery m' then
           with_episode m (\<lambda>ep.
             Inr (m'\<lparr>m_state := HEALTHY,
                     m_episodes := m_episodes m @
                       [ep\<lparr>ep_status := RECOVERED, ep_ended_at := m_last_bad m\<rparr>],
                     m_episode := None, m_recovery := 0, m_first_bad := None\<rparr>))
         else Inr m')"
| "transition_step sdim sval RECOVERY_PENDING BAD signal m =
     with_episode m (\<lambda>ep.
       Inr (m\<lparr>m_state := DEGRADED, m_episode := Some (worsen_episode signal ep), m_recovery := 0\<rparr>))"
| "transition_step sdim sval _ _ signal m = Inr m"

definition machine_step ::
  "string \<Rightarrow> string \<Rightarrow> degradation_signal \<Rightarrow> machine \<Rightarrow> (exn, machine) result" where
  "machine_step sdim sval signal m =
     bind_result (transition_step sdim sval (m_state m) (sig_type signal) signal m)
       (\<lambda>m'. Inr (if sig_type signal = BAD then m'\<lparr>m_last_bad := Some (sig_window_start signal)\<rparr> else m'))"

definition machine_result :: "machine \<Rightarrow> degradation_episode list" where
  "machine_result m = m_episodes m @ (case m_episode m of None \<Rightarrow> [] | Some ep \<Rightarrow> [ep])"

definition reconcile_timeline :: "degradation_signal list \<Rightarrow> (exn, degradation_episode list) result" where
  "reconcile_timeline signals =
     (case signals of
        [] \<Rightarrow> Inr []
      | s # _ \<Rightarrow>
          bind_result (fold_result (machine_step (sig_dimension s) (sig_value s)) signals machine_init)
            (\<lambda>m. Inr (machine_result m)))"

section \<open>Repository\<close>

definition for_segment :: "string \<Rightarrow> string \<Rightarrow> degradation_signal \<Rightarrow> bool" where
  "for_segment sdim sval s \<longleftrightarrow> sig_dimension s = sdim \<and> sig_value s = sval"

text \<open>
  \<open>DISTINCT ON (window_start)\<close> over rows ordered by \<open>window_start, evaluation_version DESC\<close>: the
  first row of every run of equal window starts.
\<close>

function distinct_on :: "('a \<Rightarrow> 'k) \<Rightarrow> 'a list \<Rightarrow> 'a list" where
  "distinct_on f [] = []"
| "distinct_on f (x # xs) = x # distinct_on f (dropWhile (\<lambda>y. f y = f x) xs)"
  by pat_completeness auto
termination
  by (relation "measure (\<lambda>(f, xs). length xs)") (auto intro: le_imp_less_Suc length_dropWhile_le)

definition get_latest_signals_for_segment ::
  "('a degradation_db_scheme) \<Rightarrow> string \<Rightarrow> string \<Rightarrow> degradation_signal list" where
  "get_latest_signals_for_segment db sdim sval =
     distinct_on sig_window_start
       (sort_key (\<lambda>s. (sig_window_start s, - sig_version s)) (filter (for_segment sdim sval) (db_signals db)))"

definition signal_key :: "degradation_signal \<Rightarrow> string \<times> string \<times> datetime" where
  "signal_key s = (sig_dimension s, sig_value s, sig_window_start s)"

definition get_max_evaluation_version ::
  "('a degradation_db_scheme) \<Rightarrow> string \<times> string \<times> datetime \<Rightarrow> int" where
  "get_max_evaluation_version db k =
     max_default 0 (map sig_version (filter (\<lambda>s. signal_key s = k) (db_signals db)))"

definition append_signal ::
  "degradation_signal \<Rightarrow> ('a degradation_db_scheme) \<Rightarrow> ('a degradation_db_scheme)" where
  "append_signal s db = db\<lparr>db_signals := db_signals db @ [s]\<rparr>"

text \<open>On conflict the identity columns (id, segment, start) keep their stored values.\<close>

definition merge_episode :: "degradation_episode \<Rightarrow> degradation_episode \<Rightarrow> degradation_episode" where
  "merge_episode old new =
     old\<lparr>ep_ended_at := ep_ended_at new, ep_status := ep_status new,
         ep_peak_drop := ep_peak_drop new, ep_affected_count := ep_affected_count new,
         ep_severity := ep_severity new\<rparr>"

fun put_episode :: "degradation_episode \<Rightarrow> degradation_episode list \<Rightarrow> degradation_episode list" where
  "put_episode ep [] = [ep]"
| "put_episode ep (r # rs) =
     (if ep_episode_id r = ep_episode_id ep then merge_episode r ep # rs else r # put_episode ep rs)"

definition upsert_episode ::
  "uuid \<Rightarrow> datetime \<Rightarrow> degradation_episode \<Rightarrow> ('a degradation_db_scheme) \<Rightarrow> ('a degradation_db_scheme)" where
  "upsert_episode run_id evaluation_timestamp ep db =
     db\<lparr>db_episodes := put_episode ep (db_episodes db),
        db_history := db_history db @
          [\<lparr>hist_run_id = run_id, hist_episode_id = ep_episode_id ep,
            hist_dimension = ep_dimension ep, hist_value = ep_value ep,
            hist_status = ep_status ep, hist_severity = ep_severity ep,
            hist_effective_start = ep_started_at ep,
            hist_evaluation_timestamp = evaluation_timestamp\<rparr>]\<rparr>"

definition get_episodes_for_segment ::
  "('a degradation_db_scheme) \<Rightarrow> string \<Rightarrow> string \<Rightarrow> degradation_episode list" where
  "get_episodes_for_segment db sdim sval =
     filter (\<lambda>e. ep_dimension e = sdim \<and> ep_value e = sval) (db_episodes db)"

section \<open>Service\<close>

text \<open>\<open>ids n\<close> is the UUID drawn for the \<open>n\<close>-th signal of the run.\<close>

definition append_evaluation ::
  "(nat \<Rightarrow> uuid) \<Rightarrow> string \<Rightarrow> string \<Rightarrow> datetime \<Rightarrow> nat \<times> snapshot \<Rightarrow> ('a degradation_db_scheme)
     \<Rightarrow> (exn, 'a degradation_db_scheme) result" where
  "append_evaluation ids sdim sval evaluation_timestamp isnap db =
     (let max_version = get_max_evaluation_version db (sdim, sval, hs_window_start (snd isnap))
      in bind_result
           (evaluate_snapshot (ids (fst isnap)) (snd isnap) (max_version + 1) evaluation_timestamp)
           (\<lambda>signal. Inr (append_signal signal db)))"

definition invalidate_stale ::
  "uuid \<Rightarrow> datetime \<Rightarrow> uuid list \<Rightarrow> degradation_episode \<Rightarrow> ('a degradation_db_scheme) \<Rightarrow> ('a degradation_db_scheme)" where
  "invalidate_stale run_id evaluation_timestamp valid_ids ep db =
     (if ep_episode_id ep \<notin> set valid_ids \<and> ep_status ep \<noteq> INVALIDATED
      then upsert_episode run_id evaluation_timestamp (ep\<lparr>ep_status := INVALIDATED\<rparr>) db
      else db)"

definition process_snapshots ::
  "(nat \<Rightarrow> uuid) \<Rightarrow> uuid \<Rightarrow> snapshot list \<Rightarrow> datetime \<Rightarrow> ('a degradation_db_scheme)
     \<Rightarrow> (exn, 'a degradation_db_scheme) result" where
  "process_snapshots ids run_id snapshots evaluation_timestamp db =
     (case snapshots of
        [] \<Rightarrow> Inr db
      | s0 # _ \<Rightarrow>
          let sdim = hs_dimension s0; sval = hs_value s0;
              snapshots_sorted = sort_key hs_window_start snapshots
          in bind_result
               (fold_result (append_evaluation ids sdim sval evaluation_timestamp)
                  (enumerate 0 snapshots_sorted) db)
               (\<lambda>db1. bind_result (reconcile_timeline (get_latest_signals_for_segment db1 sdim sval))
                 (\<lambda>valid_episodes.
                    let existing = get_episodes_for_segment db1 sdim sval;
                        valid_ids = map ep_episode_id valid_episodes;
                        db2 = fold (invalidate_stale run_id evaluation_timestamp valid_ids) existing db1
                    in Inr (fold (upsert_episode run_id evaluation_timestamp) valid_episodes db2))))"

section \<open>Histories of the machine\<close>

definition affected_signals :: "degradation_signal list \<Rightarrow> degradation_episode \<Rightarrow> degradation_signal list" where
  "affected_signals hist e =
     filter (\<lambda>s. sig_type s = BAD \<and> ep_started_at e \<le> sig_window_start s \<and>
                 (case ep_ended_at e of None \<Rightarrow> True | Some u \<Rightarrow> sig_window_start s \<le> u)) hist"

definition severity_of :: "degradation_signal list \<Rightarrow> severity" where
  "severity_of sigs = fold (\<lambda>s sev. escalate_severity sev (signal_severity s)) sigs MODERATE"

definition episode_of ::
  "string \<Rightarrow> string \<Rightarrow> degradation_signal list \<Rightarrow> degradation_episode \<Rightarrow> bool" where
  "episode_of sdim sval hist e \<longleftrightarrow>
     (let sigs = affected_signals hist e in
        ep_episode_id e = make_episode_id sdim sval (ep_started_at e) \<and>
        ep_dimension e = sdim \<and> ep_value e = sval \<and>
        3 \<le> length sigs \<and>
        ep_affected_count e = int (length sigs) \<and>
        ep_severity e = severity_of sigs \<and>
        list_all (\<lambda>d. d \<le> ep_peak_drop e) (List.map_filter sig_absolute_drop sigs) \<and>
        ep_peak_drop e \<in> set (0 # List.map_filter sig_absolute_drop sigs) \<and>
        ep_started_at e = sig_window_start (hd sigs) \<and>
        ep_ended_at e \<in> {None, Some (sig_window_start (last sigs))} \<and>
        ep_status e = (if ep_ended_at e = None then ACTIVE else RECOVERED))"

definition ends_before :: "degradation_episode \<Rightarrow> datetime \<Rightarrow> bool" where
  "ends_before e t = (case ep_ended_at e of None \<Rightarrow> False | Some u \<Rightarrow> u < t)"

definition last_bad_of :: "degradation_signal list \<Rightarrow> datetime option" where
  "last_bad_of hist =
     (case rev (filter (\<lambda>s. sig_type s = BAD) hist) of [] \<Rightarrow> None | s # _ \<Rightarrow> Some (sig_window_start s))"

definition pending_inv :: "degradation_signal list \<Rightarrow> machine \<Rightarrow> bool" where
  "pending_inv hist m \<longleftrightarrow> m_episode m = None \<and>
     (\<exists>f. m_first_bad m = Some f \<and>
          m_pending m = filter (\<lambda>s. sig_type s = BAD \<and> f \<le> sig_window_start s) hist \<and>
          m_persistence m = int (length (m_pending m)) \<and>
          1 \<le> length (m_pending m) \<and> length (m_pending m) < 3 \<and>
          sig_window_start (hd (m_pending m)) = f \<and>
          list_all (\<lambda>e. ends_before e f) (m_episodes m))"

definition open_inv :: "string \<Rightarrow> string \<Rightarrow> degradation_signal list \<Rightarrow> machine \<Rightarrow> bool" where
  "open_inv sdim sval hist m \<longleftrightarrow>
     (\<exists>ep. m_episode m = Some ep \<and> ep_ended_at ep = None \<and> episode_of sdim sval hist ep \<and>
           list_all (\<lambda>e. ends_before e (ep_started_at ep)) (m_episodes m))"

definition machine_inv :: "string \<Rightarrow> string \<Rightarrow> degradation_signal list \<Rightarrow> machine \<Rightarrow> bool" where
  "machine_inv sdim sval hist m \<longleftrightarrow>
     m_last_bad m = last_bad_of hist \<and>
     list_all (\<lambda>e. ep_ended_at e \<noteq> None \<and> episode_of sdim sval hist e) (m_episodes m) \<and>
     sorted_wrt (\<lambda>a b. ends_before a (ep_started_at b)) (m_episodes m) \<and>
     (case m_state m of
        HEALTHY \<Rightarrow> m_episode m = None
      | BAD_PENDING \<Rightarrow> pending_inv hist m
      | DEGRADED \<Rightarrow> open_inv sdim sval hist m
      | RECOVERY_PENDING \<Rightarrow> m_recovery m = 1 \<and> open_inv sdim sval hist m)"

inductive replays :: "string \<Rightarrow> string \<Rightarrow> degradation_signal list \<Rightarrow> machine \<Rightarrow> bool"
  for sdim sval where
  replays_init: "replays sdim sval [] machine_init"
| replays_step: "replays sdim sval hist m \<Longrightarrow>
    list_all (\<lambda>r. sig_window_start r < sig_window_start s) hist \<Longrightarrow>
    machine_step sdim sval s m = Inr m' \<Longrightarrow> replays sdim sval (hist @ [s]) m'"

lemma episode_of_ended_snoc:
  assumes "episode_of sdim sval hist e" and "ep_ended_at e \<noteq> None"
    and "list_all (\<lambda>r. sig_window_start r < sig_window_start s) hist"
  shows "episode_of sdim sval (hist @ [s]) e" and "ends_before e (sig_window_start s)"
proof -
  let ?b = "affected_signals hist e"
  have "3 \<le> length ?b" using assms(1) by (simp add: episode_of_def Let_def)
  then have "last ?b \<in> set ?b" by (intro last_in_set) auto
  moreover have "set ?b \<subseteq> set hist" by (simp add: affected_signals_def)
  ultimately have "last ?b \<in> set hist" by blast
  then have lt: "sig_window_start (last ?b) < sig_window_start s" using assms(3) by (simp add: list_all_iff)
  from assms(1,2) have u: "ep_ended_at e = Some (sig_window_start (last ?b))"
    by (auto simp: episode_of_def Let_def)
  then show "ends_before e (sig_window_start s)" using lt by (simp add: ends_before_def)
  obtain x where x: "ep_ended_at e = Some x" "x < sig_window_start s" using u lt by simp
  have "affected_signals (hist @ [s]) e = ?b"
    using x(2) by (simp add: affected_signals_def x(1))
  then show "episode_of sdim sval (hist @ [s]) e" using assms(1) by (simp add: episode_of_def Let_def)
qed

lemma affected_open_snoc:
  assumes "episode_of sdim sval hist e" and "ep_ended_at e = None"
    and "list_all (\<lambda>r. sig_window_start r < sig_window_start s) hist"
  shows "affected_signals (hist @ [s]) e =
    affected_signals hist e @ (if sig_type s = BAD then [s] else [])"
proof -
  let ?b = "affected_signals hist e"
  have "3 \<le> length ?b" and st: "ep_started_at e = sig_window_start (hd ?b)"
    using assms(1) by (auto simp: episode_of_def Let_def)
  then have "hd ?b \<in> set ?b" by (intro hd_in_set) auto
  moreover have "set ?b \<subseteq> set hist" by (simp add: affected_signals_def)
  ultimately have "hd ?b \<in> set hist" by blast
  then have "sig_window_start (hd ?b) < sig_window_start s" using assms(3) by (simp add: list_all_iff)
  with st assms(2) show ?thesis by (simp add: affected_signals_def)
qed

lemma map_filter_append: "List.map_filter f (xs @ ys) = List.map_filter f xs @ List.map_filter f ys"
  by (simp add: map_filter_def)

lemma map_filter_single: "List.map_filter f [x] = (case f x of None \<Rightarrow> [] | Some y \<Rightarrow> [y])"
  by (simp add: map_filter_def split: option.splits)

lemma severity_of_snoc [simp]:
  "severity_of (sigs @ [s]) = escalate_severity (severity_of sigs) (signal_severity s)"
  by (simp add: severity_of_def)

lemma hd_nonempty_append: "3 \<le> length xs \<Longrightarrow> hd (xs @ ys) = hd xs"
  by (cases xs) auto

lemma episode_of_open_normal:
  assumes "episode_of sdim sval hist e" and "ep_ended_at e = None"
    and "list_all (\<lambda>r. sig_window_start r < sig_window_start s) hist" and "sig_type s \<noteq> BAD"
  shows "episode_of sdim sval (hist @ [s]) e"
  using assms affected_open_snoc[OF assms(1-3)] by (simp add: episode_of_def Let_def)

lemma worsen_simps [simp]:
  "ep_started_at (worsen_episode s e) = ep_started_at e"
  "ep_ended_at (worsen_episode s e) = ep_ended_at e"
  "ep_episode_id (worsen_episode s e) = ep_episode_id e"
  "ep_dimension (worsen_episode s e) = ep_dimension e"
  "ep_value (worsen_episode s e) = ep_value e"
  "ep_status (worsen_episode s e) = ep_status e"
  "ep_affected_count (worsen_episode s e) = ep_affected_count e + 1"
  "ep_severity (worsen_episode s e) = escalate_severity (ep_severity e) (signal_severity s)"
  by (simp_all add: worsen_episode_def)

lemma episode_of_worsen:
  assumes "episode_of sdim sval hist e" and "ep_ended_at e = None"
    and "list_all (\<lambda>r. sig_window_start r < sig_window_start s) hist" and "sig_type s = BAD"
  shows "episode_of sdim sval (hist @ [s]) (worsen_episode s e)"
proof -
  have "affected_signals (hist @ [s]) (worsen_episode s e) = affected_signals (hist @ [s]) e"
    by (simp add: affected_signals_def)
  also have "\<dots> = affected_signals hist e @ [s]"
    using affected_open_snoc[OF assms(1-3)] assms(4) by simp
  finally have b: "affected_signals (hist @ [s]) (worsen_episode s e) = affected_signals hist e @ [s]" .
  from assms(1,2) show ?thesis
    unfolding episode_of_def b Let_def
    by (auto simp: hd_nonempty_append map_filter_append map_filter_single worsen_episode_def
        list_all_iff split: option.splits)
qed


lemma last_bad_of_snoc:
  "last_bad_of (hist @ [s]) = (if sig_type s = BAD then Some (sig_window_start s) else last_bad_of hist)"
  by (simp add: last_bad_of_def)

lemma affected_last_bad:
  assumes "episode_of sdim sval hist e" and "ep_ended_at e = None"
    and "sorted_wrt (<) (map sig_window_start hist)"
  shows "last_bad_of hist = Some (sig_window_start (last (affected_signals hist e)))"
proof -
  let ?b = "affected_signals hist e" and ?all = "filter (\<lambda>s. sig_type s = BAD) hist"
  have b: "?b = filter (\<lambda>s. ep_started_at e \<le> sig_window_start s) ?all"
    using assms(2) by (simp add: affected_signals_def conj_commute)
  have "?b \<noteq> []" using assms(1) by (auto simp: episode_of_def Let_def)
  then obtain b0 where b0: "b0 \<in> set ?all" "ep_started_at e \<le> sig_window_start b0"
    unfolding b by (auto simp: filter_empty_conv)
  then have ne: "?all \<noteq> []" by (metis empty_iff empty_set)
  have "sorted_wrt (<) (map sig_window_start ?all)"
    using assms(3) by (simp add: sorted_wrt_map sorted_wrt_filter)
  moreover obtain xs l where xs: "?all = xs @ [l]" using ne by (metis rev_exhaust)
  ultimately have "\<forall>x\<in>set ?all. sig_window_start x \<le> sig_window_start l"
    by (auto simp: sorted_wrt_append)
  with b0 have "ep_started_at e \<le> sig_window_start l" by fastforce
  then show ?thesis unfolding b last_bad_of_def xs by simp
qed

lemma machine_inv_init: "machine_inv sdim sval [] machine_init"
  by (simp add: machine_inv_def machine_init_def last_bad_of_def)

lemma closed_episodes_snoc:
  assumes "list_all (\<lambda>e. ep_ended_at e \<noteq> None \<and> episode_of sdim sval hist e) es"
    and "list_all (\<lambda>r. sig_window_start r < sig_window_start s) hist"
  shows "list_all (\<lambda>e. ep_ended_at e \<noteq> None \<and> episode_of sdim sval (hist @ [s]) e) es"
    and "list_all (\<lambda>e. ends_before e (sig_window_start s)) es"
  using assms episode_of_ended_snoc by (auto simp: list_all_iff)

lemma close_episode:
  assumes "episode_of sdim sval hist e" and "ep_ended_at e = None"
    and "sorted_wrt (<) (map sig_window_start hist)"
  shows "episode_of sdim sval hist (e\<lparr>ep_status := RECOVERED, ep_ended_at := last_bad_of hist\<rparr>)"
proof -
  let ?b = "affected_signals hist e"
    and ?c = "e\<lparr>ep_status := RECOVERED, ep_ended_at := last_bad_of hist\<rparr>"
  note lb = affected_last_bad[OF assms]
  have le: "sig_window_start x \<le> sig_window_start (last ?b)" if mem: "x \<in> set ?b" for x
  proof -
    have "sorted_wrt (<) (map sig_window_start ?b)"
      using assms(3) by (simp add: affected_signals_def sorted_wrt_map sorted_wrt_filter)
    moreover obtain xs l where xs: "?b = xs @ [l]"
      using mem by (cases "?b" rule: rev_cases) auto
    ultimately show ?thesis using mem unfolding xs by (auto simp: sorted_wrt_append)
  qed
  have "affected_signals hist ?c = filter (\<lambda>s. sig_window_start s \<le> sig_window_start (last ?b)) ?b"
    unfolding affected_signals_def filter_filter using assms(2) lb
    by (intro filter_cong) (simp_all add: affected_signals_def conj_commute conj_left_commute)
  also have "\<dots> = ?b" using le by (intro filter_True) auto
  finally have b: "affected_signals hist ?c = ?b" .
  from assms(1,2) lb show ?thesis unfolding episode_of_def b Let_def by simp
qed


lemma machine_inv_frame [simp]:
  "pending_inv hist (m\<lparr>m_last_bad := x\<rparr>) = pending_inv hist m"
  "open_inv sdim sval hist (m\<lparr>m_last_bad := x\<rparr>) = open_inv sdim sval hist m"
  by (simp_all add: pending_inv_def open_inv_def)

lemma open_inv_snoc_normal:
  assumes "open_inv sdim sval hist m" and "m_episode m' = m_episode m" and "m_episodes m' = m_episodes m"
    and "list_all (\<lambda>r. sig_window_start r < sig_window_start s) hist" and "sig_type s \<noteq> BAD"
  shows "open_inv sdim sval (hist @ [s]) m'"
  using assms episode_of_open_normal unfolding open_inv_def by auto

lemma open_inv_snoc_bad:
  assumes "open_inv sdim sval hist m"
    and "list_all (\<lambda>r. sig_window_start r < sig_window_start s) hist" and "sig_type s = BAD"
  obtains ep where "m_episode m = Some ep" "ep_ended_at ep = None"
    "episode_of sdim sval (hist @ [s]) (worsen_episode s ep)"
    "list_all (\<lambda>e. ends_before e (ep_started_at ep)) (m_episodes m)"
  using assms episode_of_worsen unfolding open_inv_def by blast

lemma pending_inv_skip:
  assumes "pending_inv hist m" and "sig_type s \<noteq> BAD"
  shows "pending_inv (hist @ [s]) m"
  using assms by (simp add: pending_inv_def)


lemma pending_inv_start:
  assumes "m_episode m = None" and "list_all (\<lambda>e. ends_before e (sig_window_start s)) (m_episodes m)"
    and "list_all (\<lambda>r. sig_window_start r < sig_window_start s) hist" and "sig_type s = BAD"
  shows "pending_inv (hist @ [s])
    (m\<lparr>m_state := BAD_PENDING, m_persistence := 1, m_first_bad := Some (sig_window_start s), m_pending := [s]\<rparr>)"
  using assms by (auto simp: pending_inv_def list_all_iff filter_empty_conv dest: bspec)

lemma pending_invI:
  "m_episode m = None \<Longrightarrow> m_first_bad m = Some f \<Longrightarrow> m_pending m = p \<Longrightarrow>
   p = filter (\<lambda>s. sig_type s = BAD \<and> f \<le> sig_window_start s) hist \<Longrightarrow>
   m_persistence m = int (length p) \<Longrightarrow> 1 \<le> length p \<Longrightarrow> length p < 3 \<Longrightarrow>
   sig_window_start (hd p) = f \<Longrightarrow> list_all (\<lambda>e. ends_before e f) (m_episodes m) \<Longrightarrow>
   pending_inv hist m"
  unfolding pending_inv_def by blast

lemma pending_signals_snoc:
  assumes "pending_inv hist m" and "list_all (\<lambda>r. sig_window_start r < sig_window_start s) hist"
    and "sig_type s = BAD" and "m_first_bad m = Some f"
  shows "m_pending m @ [s] = filter (\<lambda>s. sig_type s = BAD \<and> f \<le> sig_window_start s) (hist @ [s])"
    and "sig_window_start (hd (m_pending m @ [s])) = f"
proof -
  from assms(1,4) have p: "m_pending m = filter (\<lambda>s. sig_type s = BAD \<and> f \<le> sig_window_start s) hist"
      "m_pending m \<noteq> []" and f: "sig_window_start (hd (m_pending m)) = f"
    by (auto simp: pending_inv_def)
  then have "hd (m_pending m) \<in> set hist" by (metis filter_is_subset hd_in_set subsetD)
  with f assms(2) have "f < sig_window_start s" by (auto simp: list_all_iff)
  then show "m_pending m @ [s] = filter (\<lambda>s. sig_type s = BAD \<and> f \<le> sig_window_start s) (hist @ [s])"
    using p(1) assms(3) by simp
  show "sig_window_start (hd (m_pending m @ [s])) = f" using p(2) f by simp
qed

lemma max_default_upper_list: "list_all (\<lambda>d. d \<le> max_default a xs) xs"
  by (simp add: list_all_iff max_default_upper)

lemma max_default_mem: "max_default a xs \<in> set (a # xs)"
  using max_default_in[of xs a] by (cases "xs = []") auto

lemma open_inv_open_episode:
  assumes "pending_inv hist m" and "list_all (\<lambda>r. sig_window_start r < sig_window_start s) hist"
    and "sig_type s = BAD" and "3 \<le> m_persistence m + 1"
  obtains m' where "open_episode sdim sval
      (m\<lparr>m_persistence := m_persistence m + 1, m_pending := m_pending m @ [s]\<rparr>) = Inr m'"
    "m_state m' = DEGRADED" "m_last_bad m' = m_last_bad m" "m_episodes m' = m_episodes m"
    "open_inv sdim sval (hist @ [s]) m'"
proof -
  obtain f where f: "m_first_bad m = Some f" using assms(1) by (auto simp: pending_inv_def)
  note p = pending_signals_snoc[OF assms(1-3) f]
  let ?m = "m\<lparr>m_persistence := m_persistence m + 1, m_pending := m_pending m @ [s]\<rparr>"
  obtain ep where ep0: "ep = \<lparr>ep_episode_id = make_episode_id sdim sval f, ep_dimension = sdim,
      ep_value = sval, ep_started_at = f, ep_status = ACTIVE,
      ep_peak_drop = max_default 0 (List.map_filter sig_absolute_drop (m_pending m @ [s])),
      ep_affected_count = m_persistence m + 1, ep_severity = severity_of (m_pending m @ [s]),
      ep_ended_at = None\<rparr>" by simp
  let ?r = "?m\<lparr>m_state := DEGRADED, m_episode := Some ep\<rparr>"
  have m': "open_episode sdim sval ?m = Inr ?r"
    using f by (simp add: open_episode_def severity_of_def ep0)
  have ep: "ep_ended_at ep = None" "ep_started_at ep = f"
     "ep_episode_id ep = make_episode_id sdim sval f" "ep_dimension ep = sdim" "ep_value ep = sval"
     "ep_status ep = ACTIVE" "ep_affected_count ep = m_persistence m + 1"
     "ep_severity ep = severity_of (m_pending m @ [s])"
     "ep_peak_drop ep = max_default 0 (List.map_filter sig_absolute_drop (m_pending m @ [s]))"
    by (simp_all add: ep0)
  have aff: "affected_signals (hist @ [s]) ep = m_pending m @ [s]"
    unfolding p(1) by (simp add: affected_signals_def ep)
  have len: "m_persistence m = int (length (m_pending m))" and
    before: "list_all (\<lambda>e. ends_before e f) (m_episodes m)"
    using assms(1) f by (auto simp: pending_inv_def)
  have "episode_of sdim sval (hist @ [s]) ep"
    unfolding episode_of_def aff Let_def
    using len assms(4) p(2) by (simp add: ep max_default_upper_list max_default_mem[simplified])
  then have "open_inv sdim sval (hist @ [s]) ?r"
    using before by (simp add: open_inv_def ep(1,2))
  with m' show thesis by (intro that[of ?r]) simp_all
qed


lemma machine_step_inv:
  assumes inv: "machine_inv sdim sval hist m" and sorted: "sorted_wrt (<) (map sig_window_start hist)"
    and later: "list_all (\<lambda>r. sig_window_start r < sig_window_start s) hist"
  shows "\<exists>m'. machine_step sdim sval s m = Inr m' \<and> machine_inv sdim sval (hist @ [s]) m'"
proof -
  from inv have last: "m_last_bad m = last_bad_of hist"
    and closed: "list_all (\<lambda>e. ep_ended_at e \<noteq> None \<and> episode_of sdim sval hist e) (m_episodes m)"
    and chain: "sorted_wrt (\<lambda>a b. ends_before a (ep_started_at b)) (m_episodes m)"
    by (simp_all add: machine_inv_def)
  note closed' = closed_episodes_snoc[OF closed later]
  note finish = last chain closed'(1) last_bad_of_snoc
  show ?thesis
  proof (cases "m_state m")
    case HEALTHY
    with inv have "m_episode m = None" by (simp add: machine_inv_def)
    with HEALTHY pending_inv_start[OF _ closed'(2) later] finish show ?thesis
      by (cases "sig_type s") (simp_all add: machine_step_def machine_inv_def pending_inv_def)
  next
    case BAD_PENDING
    with inv have p: "pending_inv hist m" by (simp add: machine_inv_def)
    then obtain f where f: "m_first_bad m = Some f" by (auto simp: pending_inv_def)
    show ?thesis
    proof (cases "sig_type s")
      case BAD
      note ps = pending_signals_snoc[OF p later BAD f]
      show ?thesis
      proof (cases "3 \<le> m_persistence m + 1")
        case True
        from open_inv_open_episode[OF p later BAD True] obtain m' where
          "open_episode sdim sval (m\<lparr>m_persistence := m_persistence m + 1, m_pending := m_pending m @ [s]\<rparr>) = Inr m'"
          "m_state m' = DEGRADED" "m_last_bad m' = m_last_bad m" "m_episodes m' = m_episodes m"
          "open_inv sdim sval (hist @ [s]) m'" .
        with BAD_PENDING BAD True finish show ?thesis
          by (simp add: machine_step_def machine_inv_def REQUIRED_CONSECUTIVE_WINDOWS_def Let_def)
      next
        case False
        let ?m = "m\<lparr>m_persistence := m_persistence m + 1, m_pending := m_pending m @ [s]\<rparr>"
        have "m_episode m = None" "m_persistence m = int (length (m_pending m))"
          "list_all (\<lambda>e. ends_before e f) (m_episodes m)"
          using p f by (simp_all add: pending_inv_def)
        then have "pending_inv (hist @ [s]) ?m"
          using False f
          by (intro pending_invI[of _ f "m_pending m @ [s]", OF _ _ _ ps(1) _ _ _ ps(2)]) simp_all
        with BAD_PENDING BAD False finish show ?thesis
          by (simp add: machine_step_def machine_inv_def REQUIRED_CONSECUTIVE_WINDOWS_def Let_def)
      qed
    next
      case NORMAL
      with BAD_PENDING p finish show ?thesis
        by (simp add: machine_step_def machine_inv_def pending_inv_def)
    qed (use BAD_PENDING p finish pending_inv_skip[OF p] in
          \<open>simp_all add: machine_step_def machine_inv_def\<close>)
  next
    case DEGRADED
    with inv have o: "open_inv sdim sval hist m" by (simp add: machine_inv_def)
    show ?thesis
    proof (cases "sig_type s")
      case BAD
      from open_inv_snoc_bad[OF o later BAD] obtain ep where "m_episode m = Some ep" "ep_ended_at ep = None"
        "episode_of sdim sval (hist @ [s]) (worsen_episode s ep)"
        "list_all (\<lambda>e. ends_before e (ep_started_at ep)) (m_episodes m)" .
      with DEGRADED BAD finish show ?thesis
        by (simp add: machine_step_def machine_inv_def with_episode_def open_inv_def)
    qed (use DEGRADED finish open_inv_snoc_normal[OF o _ _ later] in
          \<open>simp_all add: machine_step_def machine_inv_def\<close>)
  next
    case RECOVERY_PENDING
    with inv have o: "open_inv sdim sval hist m" and r: "m_recovery m = 1" by (simp_all add: machine_inv_def)
    show ?thesis
    proof (cases "sig_type s")
      case BAD
      from open_inv_snoc_bad[OF o later BAD] obtain ep where "m_episode m = Some ep" "ep_ended_at ep = None"
        "episode_of sdim sval (hist @ [s]) (worsen_episode s ep)"
        "list_all (\<lambda>e. ends_before e (ep_started_at ep)) (m_episodes m)" .
      with RECOVERY_PENDING BAD finish show ?thesis
        by (simp add: machine_step_def machine_inv_def with_episode_def open_inv_def)
    next
      case NORMAL
      from o obtain ep where ep: "m_episode m = Some ep" "ep_ended_at ep = None" "episode_of sdim sval hist ep"
        "list_all (\<lambda>e. ends_before e (ep_started_at ep)) (m_episodes m)" unfolding open_inv_def by blast
      let ?c = "ep\<lparr>ep_status := RECOVERED, ep_ended_at := last_bad_of hist\<rparr>"
      have c: "episode_of sdim sval hist ?c" "ep_ended_at ?c \<noteq> None"
        using close_episode[OF ep(3,2) sorted] affected_last_bad[OF ep(3,2) sorted] by simp_all
      then have "episode_of sdim sval (hist @ [s]) ?c" using episode_of_ended_snoc(1)[OF _ _ later] by blast
      with c(2) RECOVERY_PENDING NORMAL finish ep r show ?thesis
        by (simp add: machine_step_def machine_inv_def with_episode_def RECOVERY_CONSECUTIVE_WINDOWS_def
            sorted_wrt_append list_all_iff)
    qed (use RECOVERY_PENDING finish r open_inv_snoc_normal[OF o _ _ later] in
          \<open>simp_all add: machine_step_def machine_inv_def\<close>)
  qed
qed


lemma replays_inv: "replays sdim sval hist m \<Longrightarrow>
    sorted_wrt (<) (map sig_window_start hist) \<and> machine_inv sdim sval hist m"
proof (induction rule: replays.induct)
  case replays_init
  then show ?case by (simp add: machine_inv_init)
next
  case (replays_step hist m s m')
  then show ?case using machine_step_inv[of sdim sval hist m s]
    by (auto simp: sorted_wrt_append list_all_iff)
qed

lemma replays_sorted:
  "sorted_wrt (<) (map sig_window_start hist) \<Longrightarrow>
     \<exists>m. fold_result (machine_step sdim sval) hist machine_init = Inr m \<and> replays sdim sval hist m"
proof (induction hist rule: rev_induct)
  case Nil
  then show ?case by (simp add: replays_init)
next
  case (snoc s hist)
  then obtain m where m: "fold_result (machine_step sdim sval) hist machine_init = Inr m" "replays sdim sval hist m"
    by (auto simp: sorted_wrt_append)
  have later: "list_all (\<lambda>r. sig_window_start r < sig_window_start s) hist"
    using snoc.prems by (auto simp: sorted_wrt_append list_all_iff)
  obtain m' where "machine_step sdim sval s m = Inr m'"
    using replays_inv[OF m(2)] machine_step_inv[OF _ _ later] by blast
  then show ?case using m later by (auto simp: fold_result_append intro: replays_step)
qed

lemma machine_inv_result:
  assumes "machine_inv sdim sval hist m"
  shows "list_all (episode_of sdim sval hist) (machine_result m)"
    and "sorted_wrt (\<lambda>a b. ends_before a (ep_started_at b)) (machine_result m)"
proof -
  have "m_episode m = None \<or> open_inv sdim sval hist m"
    using assms by (auto simp: machine_inv_def pending_inv_def split: sm_state.splits)
  then show "list_all (episode_of sdim sval hist) (machine_result m)"
    and "sorted_wrt (\<lambda>a b. ends_before a (ep_started_at b)) (machine_result m)"
    using assms by (auto simp: machine_inv_def open_inv_def machine_result_def sorted_wrt_append list_all_iff)
qed

lemma distinct_on_sorted:
  "sorted (map f xs) \<Longrightarrow> sorted_wrt (<) (map f (distinct_on f xs)) \<and> set (distinct_on f xs) \<subseteq> set xs"
proof (induction f xs rule: distinct_on.induct)
  case (2 f x xs)
  let ?r = "dropWhile (\<lambda>y. f y = f x) xs"
  have sub: "set ?r \<subseteq> set xs" by (rule set_dropWhileD[THEN subsetI])
  have s: "sorted (map f ?r)"
    using "2.prems" by (metis list.simps(9) map_append sorted_append sorted_simps(2) takeWhile_dropWhile_id)
  have "f x < f y" if "y \<in> set ?r" for y
  proof -
    have le: "f x \<le> f z" if "z \<in> set ?r" for z using "2.prems" sub that by auto
    have "?r \<noteq> []" using that by (cases ?r) simp_all
    then have "f (hd ?r) \<noteq> f x" by (rule hd_dropWhile)
    moreover have "hd ?r \<in> set ?r" using that by (cases ?r) auto
    ultimately have "f x < f (hd ?r)" using le by force
    moreover have "f (hd ?r) \<le> f y" using s that by (cases ?r) auto
    ultimately show ?thesis by simp
  qed
  then show ?case using "2.IH"[OF s] sub by auto
qed simp


text \<open>\<open>sort_key\<close> with a composite key sorts by its first component.\<close>

lemma fst_le_of_pair: "(a, b) \<le> (c, d) \<Longrightarrow> a \<le> (c :: 'a::linorder)"
  by (auto simp: less_eq_prod_def)

lemma sorted_fst_key: "sorted (map (\<lambda>x. (f x, g x)) xs) \<Longrightarrow> sorted (map f xs)"
proof (induction xs)
  case (Cons x xs)
  then have "\<forall>y\<in>set xs. (f x, g x) \<le> (f y, g y)" and "sorted (map (\<lambda>x. (f x, g x)) xs)" by simp_all
  then have le: "f x \<le> f y" if "y \<in> set xs" for y using that fst_le_of_pair by blast
  from Cons.IH[OF \<open>sorted (map (\<lambda>x. (f x, g x)) xs)\<close>] le show ?case by simp
qed simp

lemma latest_signals_sorted:
  "sorted_wrt (<) (map sig_window_start (get_latest_signals_for_segment db sdim sval))"
  and latest_signals_sub:
  "set (get_latest_signals_for_segment db sdim sval) \<subseteq> set (filter (for_segment sdim sval) (db_signals db))"
proof -
  let ?xs = "sort_key (\<lambda>s. (sig_window_start s, - sig_version s)) (filter (for_segment sdim sval) (db_signals db))"
  have "sorted (map sig_window_start ?xs)" by (rule sorted_fst_key[OF sorted_sort_key])
  from distinct_on_sorted[OF this]
  show "sorted_wrt (<) (map sig_window_start (get_latest_signals_for_segment db sdim sval))"
    and "set (get_latest_signals_for_segment db sdim sval) \<subseteq> set (filter (for_segment sdim sval) (db_signals db))"
    by (auto simp: get_latest_signals_for_segment_def)
qed

lemma latest_signals_replay:
  "\<exists>episodes. reconcile_timeline (get_latest_signals_for_segment db sdim sval) = Inr episodes \<and>
     list_all (episode_of sdim sval (get_latest_signals_for_segment db sdim sval)) episodes \<and>
     sorted_wrt (\<lambda>a b. ends_before a (ep_started_at b)) episodes \<and>
     distinct (map ep_episode_id episodes)"
proof (cases "get_latest_signals_for_segment db sdim sval")
  case Nil
  then show ?thesis by (simp add: reconcile_timeline_def)
next
  case (Cons s rest)
  let ?sigs = "get_latest_signals_for_segment db sdim sval"
  have seg: "sig_dimension s = sdim" "sig_value s = sval"
    using latest_signals_sub[of db sdim sval] Cons by (auto simp: for_segment_def)
  from replays_sorted[OF latest_signals_sorted] obtain m
    where m: "fold_result (machine_step sdim sval) ?sigs machine_init = Inr m" "replays sdim sval ?sigs m"
    by blast
  then have r: "reconcile_timeline ?sigs = Inr (machine_result m)"
    unfolding reconcile_timeline_def by (simp add: Cons seg)
  note res = machine_inv_result[OF conjunct2[OF replays_inv[OF m(2)]]]
  have "sorted_wrt (\<lambda>a b. ep_started_at a < ep_started_at b) (machine_result m)"
  proof (rule sorted_wrt_mono_rel[OF _ res(2)])
    fix a b assume "a \<in> set (machine_result m)" and e: "ends_before a (ep_started_at b)"
    with res(1) have "episode_of sdim sval ?sigs a" by (simp add: list_all_iff)
    then have "ep_started_at a \<le> the (ep_ended_at a)" if "ep_ended_at a \<noteq> None"
    proof -
      let ?b = "affected_signals ?sigs a"
      have "?b \<noteq> []" and u: "ep_ended_at a = Some (sig_window_start (last ?b))"
        using \<open>episode_of sdim sval ?sigs a\<close> that by (auto simp: episode_of_def Let_def)
      then have "last ?b \<in> set ?b" by simp
      then have "ep_started_at a \<le> sig_window_start (last ?b)" by (simp add: affected_signals_def)
      with u show ?thesis by simp
    qed
    with e show "ep_started_at a < ep_started_at b" by (auto simp: ends_before_def split: option.splits)
  qed
  then have "distinct (map ep_started_at (machine_result m))"
    by (metis strict_sorted_iff sorted_wrt_map)
  moreover have "map ep_episode_id (machine_result m) =
      map (make_episode_id sdim sval) (map ep_started_at (machine_result m))"
    using res(1) by (auto simp: list_all_iff episode_of_def Let_def)
  moreover have "inj (make_episode_id sdim sval)" by (auto simp: inj_def make_episode_id_def)
  ultimately have "distinct (map ep_episode_id (machine_result m))"
    by (simp only: distinct_map) (metis inj_on_subset top_greatest)
  with r res show ?thesis by simp
qed

text \<open>C6: The episodes the service reconstructs for a segment. Replaying the latest signal of every
  window never raises; every episode returned is the one of its segment and first bad window, its
  affected count, severity and peak drop are those of exactly the BAD signals from its start to its
  end (at least three), it is RECOVERED exactly when it has an end and then ends at its last BAD
  window; episodes follow each other without overlap, only the last may be ACTIVE, and their ids
  are distinct.\<close>

theorem reconcile_timeline_segment:
  "case reconcile_timeline (get_latest_signals_for_segment db sdim sval) of
     Inl _ \<Rightarrow> False
   | Inr episodes \<Rightarrow>
       list_all (episode_of sdim sval (get_latest_signals_for_segment db sdim sval)) episodes \<and>
       sorted_wrt (\<lambda>a b. ends_before a (ep_started_at b)) episodes \<and>
       distinct (map ep_episode_id episodes)"
  using latest_signals_replay[of db sdim sval] by auto

section \<open>Later windows only extend the episodes\<close>

text \<open>How an episode may change when later signals are replayed.\<close>

definition grows :: "degradation_episode \<Rightarrow> degradation_episode \<Rightarrow> bool" where
  "grows a b \<longleftrightarrow>
     ep_episode_id b = ep_episode_id a \<and> ep_started_at b = ep_started_at a \<and>
     ep_affected_count a \<le> ep_affected_count b \<and> ep_peak_drop a \<le> ep_peak_drop b \<and>
     severity_order (ep_severity a) \<le> severity_order (ep_severity b) \<and>
     (ep_status a = ACTIVE \<or> b = a)"

definition evolves :: "degradation_episode list \<Rightarrow> degradation_episode list \<Rightarrow> bool" where
  "evolves xs ys \<longleftrightarrow> list_all2 grows xs (take (length xs) ys)"

lemma grows_refl [simp]: "grows a a"
  by (simp add: grows_def)

lemma grows_trans: "grows a b \<Longrightarrow> grows b c \<Longrightarrow> grows a c"
  by (auto simp: grows_def)

lemma evolves_refl [simp]: "evolves xs xs"
  by (simp add: evolves_def list_all2_refl)

lemma evolves_trans: "evolves xs ys \<Longrightarrow> evolves ys zs \<Longrightarrow> evolves xs zs"
  unfolding evolves_def list_all2_conv_all_nth by (auto intro: grows_trans)

lemma evolves_append: "list_all2 grows xs ys \<Longrightarrow> evolves xs (ys @ zs)"
  by (frule list_all2_lengthD) (simp add: evolves_def)

definition machine_ok :: "machine \<Rightarrow> bool" where
  "machine_ok m \<longleftrightarrow>
     (case m_state m of
        HEALTHY \<Rightarrow> m_episode m = None
      | BAD_PENDING \<Rightarrow> m_episode m = None \<and> m_first_bad m \<noteq> None
      | _ \<Rightarrow> (case m_episode m of None \<Rightarrow> False | Some ep \<Rightarrow> ep_status ep = ACTIVE))"

lemma machine_ok_init: "machine_ok machine_init"
  by (simp add: machine_ok_def machine_init_def)

lemma severity_order_escalate: "severity_order a \<le> severity_order (escalate_severity a b)"
  by (simp add: escalate_severity_def)

lemma grows_worsen: "ep_status e = ACTIVE \<Longrightarrow> grows e (worsen_episode s e)"
  by (simp add: grows_def severity_order_escalate) (simp add: worsen_episode_def split: option.splits)

lemma machine_step_ok:
  assumes "machine_ok m"
  shows "\<exists>m'. machine_step sdim sval s m = Inr m' \<and> machine_ok m' \<and>
    evolves (machine_result m) (machine_result m')"
proof (cases "m_episode m")
  case None
  then have "evolves (machine_result m) (m_episodes m @ es)" for es
    by (intro evolves_append) (simp add: machine_result_def list_all2_refl)
  with None assms show ?thesis
    by (cases "m_state m"; cases "sig_type s")
      (auto simp: machine_ok_def machine_step_def machine_result_def open_episode_def Let_def
        split: option.splits intro: evolves_append)
next
  case (Some ep)
  with assms have act: "ep_status ep = ACTIVE" by (auto simp: machine_ok_def split: sm_state.splits)
  have g: "evolves (machine_result m) (m_episodes m @ [e])" if "grows ep e" for e
    using that Some
    by (simp add: evolves_def machine_result_def list_all2_appendI list_all2_refl)
  have "grows ep (ep\<lparr>ep_status := RECOVERED, ep_ended_at := x\<rparr>)" for x
    using act by (simp add: grows_def)
  with g[OF grows_worsen[OF act]] g[OF grows_refl] g Some assms act show ?thesis
    by (cases "m_state m"; cases "sig_type s")
      (auto simp: machine_ok_def machine_step_def machine_result_def with_episode_def Let_def)
qed

lemma machine_run_ok:
  "machine_ok m \<Longrightarrow> \<exists>m'. fold_result (machine_step sdim sval) sigs m = Inr m' \<and> machine_ok m' \<and>
    evolves (machine_result m) (machine_result m')"
proof (induction sigs arbitrary: m)
  case (Cons s sigs)
  obtain m1 where "machine_step sdim sval s m = Inr m1" "machine_ok m1"
      "evolves (machine_result m) (machine_result m1)"
    using machine_step_ok[OF Cons.prems] by blast
  with Cons.IH[of m1] show ?case by (auto intro: evolves_trans)
qed simp

text \<open>Replay is stable under new windows. For any signals and any later signals, both replays
  succeed and the episodes of the first are a prefix of those of the second: ids and starts are
  kept, affected count, peak drop and severity only grow, and a RECOVERED episode never changes.\<close>

lemma reconcile_timeline_extends:
  "case reconcile_timeline sigs of
     Inl _ \<Rightarrow> False
   | Inr before \<Rightarrow>
       (case reconcile_timeline (sigs @ later) of
          Inl _ \<Rightarrow> False
        | Inr after \<Rightarrow> length before \<le> length after \<and> evolves before after)"
proof (cases sigs)
  case Nil
  obtain r where "reconcile_timeline later = Inr r"
    using machine_run_ok[OF machine_ok_init, of _ _ later]
    by (cases later) (auto simp: reconcile_timeline_def simp del: fold_result.simps, metis bind_result_simps(2))
  with Nil show ?thesis by (simp add: reconcile_timeline_def[of "[]"] evolves_def)
next
  case (Cons s rest)
  let ?run = "fold_result (machine_step (sig_dimension s) (sig_value s))"
  obtain m where m: "?run sigs machine_init = Inr m" "machine_ok m"
    using machine_run_ok[OF machine_ok_init] by blast
  obtain m' where m': "?run later m = Inr m'" "evolves (machine_result m) (machine_result m')"
    using machine_run_ok[OF m(2)] by blast
  have "reconcile_timeline sigs = Inr (machine_result m)"
    using m(1) unfolding reconcile_timeline_def by (simp add: Cons)
  moreover have "?run (sigs @ later) machine_init = Inr m'"
    using m(1) m'(1) by (simp only: fold_result_append) simp
  then have "reconcile_timeline (sigs @ later) = Inr (machine_result m')"
    unfolding reconcile_timeline_def by (simp add: Cons)
  moreover have "length (machine_result m) \<le> length (machine_result m')"
    using m'(2) by (auto simp: evolves_def dest: list_all2_lengthD)
  ultimately show ?thesis using m'(2) by simp
qed

text \<open>Signals without a verdict leave the machine as it is.\<close>

definition decisive :: "degradation_signal \<Rightarrow> bool" where
  "decisive s \<longleftrightarrow> sig_type s \<in> {BAD, NORMAL}"

lemma machine_step_idle: "\<not> decisive s \<Longrightarrow> machine_step sdim sval s m = Inr m"
  by (cases "sig_type s"; cases "m_state m") (simp_all add: decisive_def machine_step_def)

lemma run_decisive:
  "fold_result (machine_step sdim sval) (filter decisive sigs) m =
   fold_result (machine_step sdim sval) sigs m"
proof (induction sigs arbitrary: m)
  case (Cons s sigs)
  then show ?case by (cases "machine_step sdim sval s m") (auto simp: machine_step_idle)
qed simp

text \<open>C7: Windows with too little volume or without a baseline are transparent: deleting them from a
  segment's signals does not change its episodes (they neither break nor advance a run of BAD
  windows or a recovery).\<close>

theorem reconcile_timeline_decisive:
  assumes "list_all (for_segment sdim sval) sigs"
  shows "reconcile_timeline (filter decisive sigs) = reconcile_timeline sigs"
proof (cases "filter decisive sigs")
  case Nil
  then have idle: "fold_result (machine_step a b) sigs machine_init = Inr machine_init" for a b
    by (metis fold_result.simps(1) run_decisive)
  have "machine_result machine_init = []" by (simp add: machine_result_def machine_init_def)
  with idle Nil show ?thesis
    unfolding reconcile_timeline_def by (cases sigs) (simp_all del: fold_result.simps(2))
next
  case (Cons t ts)
  then obtain s rest where s: "sigs = s # rest" by (cases sigs) auto
  have "t \<in> set sigs" using Cons by (metis filter_is_subset list.set_intros(1) subsetD)
  then have "sig_dimension t = sig_dimension s" "sig_value t = sig_value s"
    using assms s by (auto simp: list_all_iff for_segment_def)
  then show ?thesis
    unfolding reconcile_timeline_def s using run_decisive[of _ _ "s # rest"] Cons[unfolded s]
    by (simp only: list.case)
qed


section \<open>The service reconciles the stored episodes\<close>

text \<open>Access by the primary key.\<close>

definition lookup_episode :: "('a degradation_db_scheme) \<Rightarrow> uuid \<Rightarrow> degradation_episode option" where
  "lookup_episode db k = find (\<lambda>e. ep_episode_id e = k) (db_episodes db)"

lemma find_put_episode:
  "find (\<lambda>e. ep_episode_id e = k) (put_episode ep es) =
     (if k = ep_episode_id ep
      then Some (case find (\<lambda>e. ep_episode_id e = k) es of None \<Rightarrow> ep | Some old \<Rightarrow> merge_episode old ep)
      else find (\<lambda>e. ep_episode_id e = k) es)"
  by (induction es) (auto simp: merge_episode_def)

interpretation episode_table: keyed_table lookup_episode ep_episode_id "upsert_episode run_id ts" merge_episode
  by unfold_locales (simp_all add: lookup_episode_def upsert_episode_def find_put_episode merge_episode_def)

interpretation signal_log: version_log db_signals signal_key sig_version get_max_evaluation_version append_signal
  by unfold_locales (simp_all add: append_signal_def get_max_evaluation_version_def)

lemma upsert_episode_frame [simp]: "db_signals (upsert_episode run_id ts ep db) = db_signals db"
  by (simp add: upsert_episode_def)

lemma fold_upsert_signals [simp]: "db_signals (fold (upsert_episode run_id ts) eps db) = db_signals db"
  by (induction eps arbitrary: db) simp_all

lemma invalidate_signals [simp]:
  "db_signals (fold (invalidate_stale run_id ts ids) eps db) = db_signals db"
  by (induction eps arbitrary: db) (simp_all add: invalidate_stale_def)

lemma map_sort_key: "map f (sort_key f xs) = sort (map f xs)"
  by (rule sym, rule properties_for_sort) simp_all

lemma append_evaluation_Inr:
  "append_evaluation ids sdim sval ts i db = Inr db' \<longleftrightarrow>
    (\<exists>s. evaluate_snapshot (ids (fst i)) (snd i)
        (get_max_evaluation_version db (sdim, sval, hs_window_start (snd i)) + 1) ts = Inr s \<and>
      db' = append_signal s db)"
  by (auto simp: append_evaluation_def Let_def bind_result_Inr)

lemma evaluate_snapshot_window: "evaluate_snapshot i snap n ts = Inr s \<Longrightarrow> sig_window_start s = hs_window_start snap"
  by (auto simp: evaluate_snapshot_def bind_result_Inr split: option.splits)

lemma append_evaluation_frame:
  "fold_result (append_evaluation ids sdim sval ts) isnaps db = Inr db' \<Longrightarrow>
    db_episodes db' = db_episodes db \<and>
    map sig_window_start (db_signals db') =
      map sig_window_start (db_signals db) @ map (\<lambda>i. hs_window_start (snd i)) isnaps"
proof (induction isnaps arbitrary: db)
  case (Cons i isnaps)
  then obtain db1 where db1: "append_evaluation ids sdim sval ts i db = Inr db1"
    "fold_result (append_evaluation ids sdim sval ts) isnaps db1 = Inr db'"
    by (auto simp: bind_result_Inr)
  with Cons.IH[OF db1(2)] show ?case
    by (auto simp: append_evaluation_Inr append_signal_def evaluate_snapshot_window)
qed simp

lemma append_evaluation_error:
  "fold_result (append_evaluation ids sdim sval ts) isnaps db = Inl e \<Longrightarrow> e = TypeError"
proof (induction isnaps arbitrary: db)
  case (Cons i isnaps)
  have "append_evaluation ids sdim sval ts i db = Inl e \<Longrightarrow> e = TypeError"
    by (auto simp: append_evaluation_def Let_def evaluate_snapshot_def bind_result_Inl bind_result_Inr split: option.splits if_splits)
  with Cons show ?case by (cases "append_evaluation ids sdim sval ts i db") auto
qed simp

definition retire :: "string \<Rightarrow> string \<Rightarrow> degradation_episode \<Rightarrow> degradation_episode" where
  "retire sdim sval r =
     (if ep_dimension r = sdim \<and> ep_value r = sval then r\<lparr>ep_status := INVALIDATED\<rparr> else r)"

definition stale :: "uuid list \<Rightarrow> degradation_episode \<Rightarrow> bool" where
  "stale valid_ids e \<longleftrightarrow> ep_episode_id e \<notin> set valid_ids \<and> ep_status e \<noteq> INVALIDATED"

lemma fold_invalidate_stale:
  "fold (invalidate_stale run_id ts valid_ids) es db =
   fold (upsert_episode run_id ts) (map (\<lambda>e. e\<lparr>ep_status := INVALIDATED\<rparr>) (filter (stale valid_ids) es)) db"
  by (induction es arbitrary: db) (auto simp: invalidate_stale_def stale_def)

lemma find_by_key:
  "distinct (map f xs) \<Longrightarrow> find (\<lambda>x. f x = k) xs = Some r \<longleftrightarrow> r \<in> set xs \<and> f r = k"
  by (induction xs) (auto split: if_splits intro: rev_image_eqI)

lemma invalidate_lookup:
  assumes "distinct (map ep_episode_id (db_episodes db))" and "k \<notin> set valid_ids"
  shows "lookup_episode (fold (invalidate_stale run_id ts valid_ids) (get_episodes_for_segment db sdim sval) db) k =
    map_option (retire sdim sval) (lookup_episode db k)"
proof -
  let ?rs = "map (\<lambda>e. e\<lparr>ep_status := INVALIDATED\<rparr>)
      (filter (stale valid_ids) (get_episodes_for_segment db sdim sval))"
  have d: "distinct (map ep_episode_id ?rs)"
    using assms(1) by (simp add: get_episodes_for_segment_def comp_def distinct_map_filter)
  note upd = episode_table.fold_put[OF d, of run_id ts db k, folded fold_invalidate_stale]
  show ?thesis
  proof (cases "lookup_episode db k")
    case None
    then have "\<not> (\<exists>e\<in>set (db_episodes db). ep_episode_id e = k)"
      by (auto simp: lookup_episode_def find_None_iff)
    then have "find (\<lambda>r. ep_episode_id r = k) ?rs = None"
      by (auto simp: find_None_iff get_episodes_for_segment_def)
    with None show ?thesis by (simp add: upd episode_table.updated_def)
  next
    case (Some r)
    then have r: "r \<in> set (db_episodes db)" "ep_episode_id r = k"
      using find_SomeD unfolding lookup_episode_def by fastforce+
    have only: "e = r" if "e \<in> set (db_episodes db)" "ep_episode_id e = k" for e
      using that r assms(1) by (metis find_by_key option.inject)
    show ?thesis
    proof (cases "ep_dimension r = sdim \<and> ep_value r = sval \<and> ep_status r \<noteq> INVALIDATED")
      case True
      then have "find (\<lambda>x. ep_episode_id x = k) ?rs = Some (r\<lparr>ep_status := INVALIDATED\<rparr>)"
        unfolding find_by_key[OF d]
        using r assms(2) by (auto simp: get_episodes_for_segment_def stale_def)
      with Some True show ?thesis
        by (simp add: upd episode_table.updated_def merge_episode_def retire_def)
    next
      case False
      then have "find (\<lambda>x. ep_episode_id x = k) ?rs = None"
        using only by (auto simp: find_None_iff get_episodes_for_segment_def stale_def)
      moreover have "retire sdim sval r = r" using False by (auto simp: retire_def)
      ultimately show ?thesis using Some by (simp add: upd episode_table.updated_def)
    qed
  qed
qed

text \<open>A run of the service reconciles the store with the replay. It can only fail with the
  TypeError of a missing rate; otherwise exactly one signal per snapshot is appended, in window
  order, the replay of the segment's latest signals succeeds, every replayed episode is stored with
  its status, end, counts, peak and severity, and every other stored episode is untouched, except
  that those of the segment become INVALIDATED.\<close>

lemma process_snapshots_reconciles:
  assumes "distinct (map ep_episode_id (db_episodes db))"
  shows "case process_snapshots ids run_id snapshots ts db of
      Inl e \<Rightarrow> e = TypeError
    | Inr db' \<Rightarrow>
        if snapshots = [] then db' = db
        else let sdim = hs_dimension (hd snapshots); sval = hs_value (hd snapshots) in
          map sig_window_start (db_signals db') =
            map sig_window_start (db_signals db) @ sort (map hs_window_start snapshots) \<and>
          (case reconcile_timeline (get_latest_signals_for_segment db' sdim sval) of
             Inl _ \<Rightarrow> False
           | Inr episodes \<Rightarrow>
               list_all (\<lambda>e. case lookup_episode db' (ep_episode_id e) of
                  None \<Rightarrow> False | Some r \<Rightarrow> merge_episode r e = r) episodes \<and>
               (\<forall>k. k \<in> set (map ep_episode_id episodes) \<or>
                  lookup_episode db' k = map_option (retire sdim sval) (lookup_episode db k)))"
proof (cases snapshots)
  case Nil
  then show ?thesis by (simp add: process_snapshots_def)
next
  case (Cons s0 rest)
  let ?d = "hs_dimension s0" and ?v = "hs_value s0"
  let ?run = "fold_result (append_evaluation ids ?d ?v ts) (enumerate 0 (sort_key hs_window_start snapshots)) db"
  show ?thesis
  proof (cases ?run)
    case (Inl e)
    with append_evaluation_error[OF Inl] show ?thesis
      unfolding process_snapshots_def by (simp add: Cons Let_def)
  next
    case (Inr db1)
    note frame = append_evaluation_frame[OF Inr]
    have "map (\<lambda>i. hs_window_start (snd i)) (enumerate 0 (sort_key hs_window_start snapshots)) =
        map hs_window_start (map snd (enumerate 0 (sort_key hs_window_start snapshots)))"
      by (simp only: map_map comp_def)
    then have ws: "map sig_window_start (db_signals db1) =
        map sig_window_start (db_signals db) @ sort (map hs_window_start snapshots)"
      using frame by (simp add: map_sort_key)
    obtain episodes where eps: "reconcile_timeline (get_latest_signals_for_segment db1 ?d ?v) = Inr episodes"
      and dist: "distinct (map ep_episode_id episodes)"
      using latest_signals_replay by blast
    let ?ids = "map ep_episode_id episodes"
    let ?db2 = "fold (invalidate_stale run_id ts ?ids) (get_episodes_for_segment db1 ?d ?v) db1"
    let ?db' = "fold (upsert_episode run_id ts) episodes ?db2"
    have run: "process_snapshots ids run_id snapshots ts db = Inr ?db'"
      using Inr eps unfolding process_snapshots_def by (simp add: Cons Let_def)
    have sigs: "db_signals ?db' = db_signals db1" by simp
    note upd = episode_table.fold_put[OF dist, of run_id ts ?db2]
    have valid: "case lookup_episode ?db' (ep_episode_id e) of None \<Rightarrow> False | Some r \<Rightarrow> merge_episode r e = r"
      if "e \<in> set episodes" for e
    proof -
      have "find (\<lambda>r. ep_episode_id r = ep_episode_id e) episodes = Some e"
        using that by (simp add: find_by_key[OF dist])
      then show ?thesis
        by (simp add: upd episode_table.updated_def merge_episode_def split: option.splits)
    qed
    have others: "lookup_episode ?db' k = map_option (retire ?d ?v) (lookup_episode db k)"
      if "k \<notin> set ?ids" for k
    proof -
      have "lookup_episode ?db' k = lookup_episode ?db2 k"
        using that by (intro episode_table.fold_put_frame) simp
      also have "\<dots> = map_option (retire ?d ?v) (lookup_episode db1 k)"
        using assms frame that by (intro invalidate_lookup) simp_all
      finally show ?thesis using frame by (simp add: lookup_episode_def)
    qed
    have latest: "get_latest_signals_for_segment ?db' ?d ?v = get_latest_signals_for_segment db1 ?d ?v"
      by (simp add: get_latest_signals_for_segment_def)
    show ?thesis
      unfolding run sum.case Let_def using Cons sigs ws latest eps valid others
      by (auto simp: list_all_iff)
  qed
qed


section \<open>Concrete signals\<close>

text \<open>A signal of segment (GLOBAL, ALL) in the window \<open>5 n\<close> minutes after the epoch.\<close>

definition example_signal :: "int \<Rightarrow> signal_type \<Rightarrow> degradation_signal" where
  "example_signal n ty =
     \<lparr>sig_signal_id = Uuid4 (nat n), sig_snapshot_id = Uuid4 (nat n), sig_dimension = ''GLOBAL'',
      sig_value = ''ALL'', sig_window_start = minutes (5 * n), sig_version = 1, sig_type = ty,
      sig_baseline = Some (fl (9 / 10)), sig_absolute_drop = (if ty = BAD then Some (1 / 4) else None),
      sig_relative_drop = (if ty = BAD then Some (fl (5 / 18)) else None),
      sig_evaluation_timestamp = minutes (5 * n + 5)\<rparr>"

definition example_timeline :: "degradation_signal list" where
  "example_timeline = map (\<lambda>(n, ty). example_signal n ty)
     [(0, BAD), (1, BAD), (2, LOW_VOLUME), (3, BAD), (4, NORMAL), (5, NORMAL)]"

lemma example_timeline_episode:
  "map_sum id (map (\<lambda>e. (ep_started_at e, ep_ended_at e, ep_affected_count e, ep_severity e)))
     (reconcile_timeline example_timeline) = Inr [(0, Some (minutes 15), 3, HIGH)]"
  by code_simp

theorem reconcile_timeline_decisive_witness:
  "reconcile_timeline (filter decisive example_timeline) = reconcile_timeline example_timeline"
  by (rule reconcile_timeline_decisive[of "''GLOBAL''" "''ALL''"]) code_simp

definition example_degradation_db :: degradation_db where
  "example_degradation_db =
     \<lparr>db_raw = [], db_events = [], db_snapshots = [], db_signals = example_timeline,
      db_episodes = [], db_history = []\<rparr>"

lemma process_snapshots_reconciles_witness:
  "case process_snapshots Uuid4 (Uuid4 9) [example_snapshot (minutes 30) [''payment.captured'']] 0
      example_degradation_db of
     Inl e \<Rightarrow> e = TypeError
   | Inr db' \<Rightarrow> map sig_window_start (db_signals db') =
       map sig_window_start example_timeline @ [minutes 30]"
  using process_snapshots_reconciles[where db = example_degradation_db and ids = Uuid4
      and run_id = "Uuid4 9" and snapshots = "[example_snapshot (minutes 30) [''payment.captured'']]"
      and ts = 0]
  by (simp add: example_degradation_db_def example_snapshot_def Let_def split: sum.splits)

section \<open>Classification\<close>

definition signal_rank :: "degradation_signal \<Rightarrow> int" where
  "signal_rank s = (if sig_type s = BAD then severity_order (signal_severity s) else 0)"

lemma severity_order_bounds: "1 \<le> severity_order v \<and> severity_order v \<le> 3"
  by (cases v) simp_all

text \<open>Classification is monotone in the success rate. For one baseline, a lower current rate never
  turns a BAD window into a NORMAL one and never lowers its severity, although both drops are
  rounded to binary64.\<close>

lemma evaluate_snapshot_monotone:
  assumes "hs_success_rate snap = Some c" and "c' \<le> c"
  shows "case evaluate_snapshot i snap n ts of
      Inl _ \<Rightarrow> False
    | Inr s \<Rightarrow>
        (case evaluate_snapshot i (snap\<lparr>hs_success_rate := Some c'\<rparr>) n ts of
           Inl _ \<Rightarrow> False
         | Inr s' \<Rightarrow> signal_rank s \<le> signal_rank s')"
proof (cases "hs_baseline_success_rate snap")
  case None
  then show ?thesis using assms(1) by (simp add: evaluate_snapshot_def signal_rank_def)
next
  case (Some b)
  show ?thesis
  proof (cases "hs_insufficient_volume snap")
    case True
    then show ?thesis using Some by (simp add: evaluate_snapshot_def signal_rank_def)
  next
    case False
    have abs: "f_sub b c \<le> f_sub b c'" using assms(2) by (simp add: f_sub_def fl_mono)
    then have rel: "f_div (f_sub b c) b \<le> f_div (f_sub b c') b" if "0 < b"
      using that by (simp add: f_div_def fl_mono divide_right_mono)
    show ?thesis
      using Some False assms(1) abs rel
      by (auto simp: evaluate_snapshot_def Let_def signal_rank_def signal_severity_def
          evaluate_severity_def severity_order_bounds)
  qed
qed

text \<open>A drop of exactly five percentage points, the configured minimum, is classified by rounding:
  from 50 to 45 per cent it is NORMAL, from 46 to 41 per cent it is BAD.\<close>

lemma evaluate_snapshot_boundary:
  "map (\<lambda>(b, c). map_sum id sig_type
     (evaluate_snapshot (Uuid4 0)
       ((example_snapshot 0 [])\<lparr>hs_insufficient_volume := False,
          hs_baseline_success_rate := Some (int_truediv b 100),
          hs_success_rate := Some (int_truediv c 100)\<rparr>) 1 0)) [(50, 45), (46, 41)] =
   [Inr NORMAL, Inr BAD]"
  by code_simp

lemma evaluate_snapshot_monotone_witness:
  "case evaluate_snapshot (Uuid4 0) (example_snapshot 0 [''payment.captured'']) 1 0 of
      Inl _ \<Rightarrow> False
    | Inr s \<Rightarrow>
        (case evaluate_snapshot (Uuid4 0)
            ((example_snapshot 0 [''payment.captured''])\<lparr>hs_success_rate := Some 0\<rparr>) 1 0 of
           Inl _ \<Rightarrow> False
         | Inr s' \<Rightarrow> signal_rank s \<le> signal_rank s')"
  by (rule evaluate_snapshot_monotone[where c = 1]) code_simp+


end
