(* ===== verification/Rca.thy ===== *)
theory Rca
  imports Degradation "HOL-Library.While_Combinator"
begin

text \<open>
  Stage 4 (\<open>src/core/rca\<close>, \<open>rca_repository.py\<close>, \<open>rca_models.py\<close>): the analysis window of an
  episode, its historical comparison windows, the excess failures of every structural segment, the
  qualification and ranking of candidate causes, and the service that appends a new evaluation
  version when the input fingerprint has changed.
\<close>

section \<open>Data\<close>

definition HISTORICAL_WEEKS_BACK :: int where "HISTORICAL_WEEKS_BACK = 4"
definition MIN_VALID_HISTORICAL_WINDOWS :: int where "MIN_VALID_HISTORICAL_WINDOWS = 2"
definition MIN_BASELINE_VOLUME :: int where "MIN_BASELINE_VOLUME = 50"
definition MIN_FAILURES_FOR_RCA_EVALUATION :: int where "MIN_FAILURES_FOR_RCA_EVALUATION = 10"
definition MIN_CONTRIBUTION_THRESHOLD :: pyfloat where "MIN_CONTRIBUTION_THRESHOLD = fl (30 / 100)"
definition MIN_ERROR_DEVIATION_THRESHOLD :: pyfloat where
  "MIN_ERROR_DEVIATION_THRESHOLD = fl (20 / 100)"
definition STRONG_CONTRIBUTION_THRESHOLD :: pyfloat where
  "STRONG_CONTRIBUTION_THRESHOLD = fl (70 / 100)"
definition STRONG_FAILURE_COUNT_MULTIPLIER :: int where "STRONG_FAILURE_COUNT_MULTIPLIER = 3"
definition MODERATE_CONTRIBUTION_THRESHOLD :: pyfloat where
  "MODERATE_CONTRIBUTION_THRESHOLD = fl (40 / 100)"
definition NAMESPACE_RCA :: uuid where
  "NAMESPACE_RCA = UuidLit ''a1b2c3d4-e5f6-7890-abcd-ef1234567890''"

text \<open>The dimensions with the event field each one reads.\<close>

definition STRUCTURAL_DIMENSIONS :: "(string \<times> string) list" where
  "STRUCTURAL_DIMENSIONS =
     [(''BANK'', ''bank''), (''CURRENCY'', ''currency''),
      (''PAYMENT_METHOD'', ''payment_method''), (''WALLET'', ''wallet'')]"

definition SUPPORTING_DIMENSIONS :: "(string \<times> string) list" where
  "SUPPORTING_DIMENSIONS =
     [(''ERROR_CODE'', ''error_code''), (''ERROR_SOURCE'', ''error_source''), (''ERROR_STEP'', ''error_step'')]"

datatype rca_classification = SEGMENT_SPECIFIC | SYSTEMIC | UNKNOWN

text \<open>\<open>MODERATE\<close> is already a severity.\<close>

datatype evidence_strength = STRONG | MODERATE_EVIDENCE | WEAK

primrec classification_value :: "rca_classification \<Rightarrow> string" where
  "classification_value SEGMENT_SPECIFIC = ''SEGMENT_SPECIFIC''"
| "classification_value SYSTEMIC = ''SYSTEMIC''"
| "classification_value UNKNOWN = ''UNKNOWN''"

primrec strength_value :: "evidence_strength \<Rightarrow> string" where
  "strength_value STRONG = ''STRONG''"
| "strength_value MODERATE_EVIDENCE = ''MODERATE''"
| "strength_value WEAK = ''WEAK''"

primrec status_value :: "episode_status \<Rightarrow> string" where
  "status_value ACTIVE = ''ACTIVE''"
| "status_value RECOVERED = ''RECOVERED''"
| "status_value INVALIDATED = ''INVALIDATED''"

record candidate_cause =
  cc_candidate_id :: uuid
  cc_evaluation_id :: uuid
  cc_dimension :: string
  cc_value :: string
  cc_strength :: evidence_strength
  cc_contribution :: pyfloat
  cc_actual_failures :: int
  cc_expected_failures :: pyfloat
  cc_excess_failures :: pyfloat
  cc_rank :: int

record rca_evaluation =
  re_evaluation_id :: uuid
  re_episode_id :: uuid
  re_version :: int
  re_classification :: rca_classification
  re_window_start :: datetime
  re_window_end :: datetime
  re_fingerprint :: digest
  re_generated_at :: datetime
  re_payload :: json

record rca_db = degradation_db +
  db_evaluations :: "rca_evaluation list"
  db_candidates :: "candidate_cause list"

definition make_evaluation_id :: "uuid \<Rightarrow> int \<Rightarrow> uuid" where
  "make_evaluation_id episode_id evaluation_version =
     Uuid5 NAMESPACE_RCA (versioned_name [UuidStr episode_id] evaluation_version)"

definition make_candidate_id :: "uuid \<Rightarrow> string \<Rightarrow> string \<Rightarrow> uuid" where
  "make_candidate_id evaluation_id candidate_dimension candidate_value =
     Uuid5 NAMESPACE_RCA
       (UuidStr evaluation_id # Ch CHR '':'' # chars candidate_dimension @ Ch CHR '':'' # chars candidate_value)"

text \<open>A historical window of the fingerprint: start, failures, transactions, dimension and value.\<close>

type_synonym hist_tuple = "datetime \<times> int \<times> int \<times> string \<times> string"

definition compute_input_fingerprint ::
  "uuid \<Rightarrow> string \<Rightarrow> datetime \<Rightarrow> datetime \<Rightarrow> int \<Rightarrow> int \<Rightarrow> hist_tuple list \<Rightarrow> digest" where
  "compute_input_fingerprint episode_id episode_status analysis_window_start analysis_window_end
       episode_actual_failures episode_transaction_count historical_window_tuples =
     sha256_json (JObj
       [(''episode_id'', JUuid episode_id),
        (''episode_status'', JStr episode_status),
        (''analysis_window_start'', JTime analysis_window_start),
        (''analysis_window_end'', JTime analysis_window_end),
        (''episode_actual_failures'', JInt episode_actual_failures),
        (''episode_transaction_count'', JInt episode_transaction_count),
        (''historical_windows'',
          JArr (map (\<lambda>(t, f, n, d, v). JArr [JTime t, JInt f, JInt n, JStr d, JStr v])
            (sort historical_window_tuples)))])"

section \<open>Calculator\<close>

definition compute_analysis_window ::
  "datetime \<Rightarrow> datetime option \<Rightarrow> datetime option \<Rightarrow> episode_status
     \<Rightarrow> (exn, datetime \<times> datetime) result" where
  "compute_analysis_window started_at_window ended_at_window latest_bad_window_start status =
     (case status of
        RECOVERED \<Rightarrow>
          (case ended_at_window of None \<Rightarrow> Inl ValueError | Some e \<Rightarrow> Inr (started_at_window, e))
      | ACTIVE \<Rightarrow>
          (case latest_bad_window_start of
             None \<Rightarrow> Inl ValueError | Some b \<Rightarrow> Inr (started_at_window, b + minutes 5))
      | INVALIDATED \<Rightarrow> Inr (started_at_window, started_at_window + minutes 5))"

function get_historical_window_starts ::
  "datetime \<Rightarrow> datetime \<Rightarrow> int \<Rightarrow> (datetime \<times> datetime list) list" where
  "get_historical_window_starts current analysis_window_end weeks_back =
     (if current < analysis_window_end
      then (current, map (\<lambda>i. current - weeks i) [1..weeks_back])
             # get_historical_window_starts (current + minutes 5) analysis_window_end weeks_back
      else [])"
  by pat_completeness auto
termination
  by (relation "measure (\<lambda>(current, e, _). nat (e - current))") (auto simp: minutes_def)

declare get_historical_window_starts.simps [simp del]

definition get_all_historical_starts :: "datetime \<Rightarrow> datetime \<Rightarrow> int \<Rightarrow> datetime list" where
  "get_all_historical_starts analysis_window_start analysis_window_end weeks_back =
     fold (\<lambda>s acc. if s \<in> set acc then acc else acc @ [s])
       (concat (map snd (get_historical_window_starts analysis_window_start analysis_window_end weeks_back))) []"

definition compute_volume_weighted_failure_rate :: "int list \<Rightarrow> int list \<Rightarrow> pyfloat option" where
  "compute_volume_weighted_failure_rate hist_failures_list hist_transactions_list =
     (let total_failures = sum_list hist_failures_list;
          total_transactions = sum_list hist_transactions_list
      in if total_transactions = 0 then None else Some (int_truediv total_failures total_transactions))"

definition compute_candidate_metrics :: "int \<Rightarrow> int \<Rightarrow> pyfloat \<Rightarrow> pyfloat \<times> pyfloat" where
  "compute_candidate_metrics episode_segment_transactions actual_segment_failures rate =
     (let expected = f_mul (float_of_int episode_segment_transactions) rate;
          excess = f_sub (float_of_int actual_segment_failures) expected
      in (expected, excess))"

definition compute_episode_total_excess_failures :: "int \<Rightarrow> pyfloat \<Rightarrow> pyfloat" where
  "compute_episode_total_excess_failures episode_actual_failures episode_expected_failures =
     max 0 (f_sub (float_of_int episode_actual_failures) episode_expected_failures)"

definition compute_excess_failure_contribution :: "pyfloat \<Rightarrow> pyfloat \<Rightarrow> pyfloat option" where
  "compute_excess_failure_contribution excess_segment_failures episode_total_excess_failures =
     (if episode_total_excess_failures \<le> 0 then None
      else Some (f_div excess_segment_failures episode_total_excess_failures))"

definition assign_evidence_strength :: "pyfloat \<Rightarrow> int \<Rightarrow> evidence_strength" where
  "assign_evidence_strength contribution actual_segment_failures =
     (if STRONG_CONTRIBUTION_THRESHOLD \<le> contribution \<and>
         STRONG_FAILURE_COUNT_MULTIPLIER * MIN_FAILURES_FOR_RCA_EVALUATION \<le> actual_segment_failures
      then STRONG
      else if MODERATE_CONTRIBUTION_THRESHOLD \<le> contribution then MODERATE_EVIDENCE
      else WEAK)"

definition compute_error_deviation :: "int \<Rightarrow> int \<Rightarrow> int \<Rightarrow> int \<Rightarrow> pyfloat option" where
  "compute_error_deviation episode_error_count episode_total_failures
       historical_error_count historical_total_failures =
     (if episode_total_failures = 0 then None
      else let episode_freq = int_truediv episode_error_count episode_total_failures;
               baseline_freq =
                 (if historical_total_failures = 0 then 0
                  else int_truediv historical_error_count historical_total_failures)
           in Some (f_sub episode_freq baseline_freq))"

text \<open>The dictionary computed for a structural dimension and value.\<close>

record structural_result =
  sr_dimension :: string
  sr_value :: string
  sr_transactions :: int
  sr_hist_transactions :: int
  sr_hist_failures :: int
  sr_hist_rate :: "pyfloat option"
  sr_expected :: pyfloat
  sr_actual :: int
  sr_excess :: pyfloat
  sr_traffic_share :: pyfloat
  sr_failure_share :: pyfloat
  sr_contribution :: pyfloat
  sr_strength :: "evidence_strength option"
  sr_qualified :: bool
  sr_disqualification :: "string option"
  sr_baseline_sufficient :: bool
  sr_hist_tuples :: "hist_tuple list"
  sr_rank :: "int option"

definition candidate_order :: "structural_result \<Rightarrow> pyfloat \<times> int \<times> string \<times> string" where
  "candidate_order c = (- sr_contribution c, - sr_actual c, sr_dimension c, sr_value c)"

definition rank_candidates :: "structural_result list \<Rightarrow> structural_result list" where
  "rank_candidates unranked =
     map (\<lambda>(i, c). c\<lparr>sr_rank := Some (int i + 1)\<rparr>) (enumerate 0 (sort_key candidate_order unranked))"


section \<open>Audit payloads\<close>

text \<open>\<open>f"\{x:.4f\}"\<close>: the exact value rounded half to even at four decimals.\<close>

definition pad_zeros :: "nat \<Rightarrow> string \<Rightarrow> string" where
  "pad_zeros n s = replicate (n - length s) (CHR ''0'') @ s"

definition show_fixed4 :: "pyfloat \<Rightarrow> string" where
  "show_fixed4 x =
     (let k = round_half_even (x * 10000); a = nat \<bar>k\<bar>
      in (if k < 0 then ''-'' else '''') @ show_nat (a div 10000) @ ''.'' @ pad_zeros 4 (show_nat (a mod 10000)))"

definition json_strength :: "evidence_strength option \<Rightarrow> json" where
  "json_strength = json_opt (\<lambda>v. JStr (strength_value v))"

text \<open>
  A cleaned result in the payload: the keys starting with an underscore and \<open>baseline_sufficient\<close> are
  dropped, the \<open>rank\<close> assigned to the same dictionary is present once it is ranked.
\<close>

definition clean_structural_result :: "structural_result \<Rightarrow> json" where
  "clean_structural_result r = JObj
     ([(''dimension'', JStr (sr_dimension r)),
       (''value'', JStr (sr_value r)),
       (''episode_segment_transaction_count'', JInt (sr_transactions r)),
       (''historical_segment_transaction_count'', JInt (sr_hist_transactions r)),
       (''historical_segment_failures_total'', JInt (sr_hist_failures r)),
       (''historical_segment_failure_rate'', json_opt JFloat (sr_hist_rate r)),
       (''expected_segment_failures'', JFloat (sr_expected r)),
       (''actual_segment_failures'', JInt (sr_actual r)),
       (''excess_segment_failures'', JFloat (sr_excess r)),
       (''traffic_share'', JFloat (sr_traffic_share r)),
       (''failure_share'', JFloat (sr_failure_share r)),
       (''excess_failure_contribution'', JFloat (sr_contribution r)),
       (''evidence_strength'', json_strength (sr_strength r)),
       (''qualified_as_candidate'', JBool (sr_qualified r)),
       (''disqualification_reason'', json_opt JStr (sr_disqualification r))]
      @ (case sr_rank r of None \<Rightarrow> [] | Some k \<Rightarrow> [(''rank'', JInt k)]))"

definition thresholds_payload :: json where
  "thresholds_payload = JObj
     [(''MIN_FAILURES_FOR_RCA_EVALUATION'', JInt MIN_FAILURES_FOR_RCA_EVALUATION),
      (''MIN_CONTRIBUTION_THRESHOLD'', JFloat MIN_CONTRIBUTION_THRESHOLD),
      (''MIN_ERROR_DEVIATION_THRESHOLD'', JFloat MIN_ERROR_DEVIATION_THRESHOLD),
      (''MIN_BASELINE_VOLUME'', JInt MIN_BASELINE_VOLUME),
      (''HISTORICAL_WEEKS_BACK'', JInt HISTORICAL_WEEKS_BACK),
      (''MIN_VALID_HISTORICAL_WINDOWS'', JInt MIN_VALID_HISTORICAL_WINDOWS)]"

definition episode_payload :: "degradation_episode \<Rightarrow> json" where
  "episode_payload ep = JObj
     [(''episode_id'', JUuid (ep_episode_id ep)),
      (''segment_dimension'', JStr (ep_dimension ep)),
      (''segment_value'', JStr (ep_value ep)),
      (''status'', JStr (status_value (ep_status ep)))]"

definition window_payload :: "datetime \<Rightarrow> datetime \<Rightarrow> json" where
  "window_payload s e = JObj [(''start'', JTime s), (''end'', JTime e)]"

definition build_audit_payload ::
  "datetime \<Rightarrow> datetime \<Rightarrow> json list \<Rightarrow> degradation_episode \<Rightarrow> int \<Rightarrow> int \<Rightarrow> pyfloat option \<Rightarrow> pyfloat
     \<Rightarrow> pyfloat \<Rightarrow> json list \<Rightarrow> json list \<Rightarrow> rca_classification \<Rightarrow> string \<Rightarrow> string option \<Rightarrow> digest \<Rightarrow> json" where
  "build_audit_payload ws we hist_windows ep transaction_count actual_failures baseline_rate
       expected_failures total_excess structural supporting classification reason overlap_note fp =
     JObj
       ([(''analysis_window'', window_payload ws we),
         (''historical_comparison_windows'', JArr hist_windows),
         (''episode'', episode_payload ep),
         (''episode_totals'', JObj
            [(''transaction_count'', JInt transaction_count),
             (''actual_failures'', JInt actual_failures),
             (''historical_baseline_failure_rate'', json_opt JFloat baseline_rate),
             (''expected_failures'', JFloat expected_failures),
             (''episode_total_excess_failures'', JFloat total_excess)]),
         (''thresholds'', thresholds_payload),
         (''structural_candidates_evaluated'', JArr structural),
         (''supporting_error_evidence'', JArr supporting),
         (''classification'', JStr (classification_value classification)),
         (''classification_reason'', JStr reason),
         (''input_fingerprint'', (case fp of Sha256 doc \<Rightarrow> doc))]
        @ (if truthy overlap_note then [(''overlap_note'', json_opt JStr overlap_note)] else []))"

text \<open>\<open>build_unknown_payload\<close>, with the two lists replaced when they are not empty.\<close>

definition build_unknown_payload ::
  "string \<Rightarrow> datetime \<Rightarrow> datetime \<Rightarrow> degradation_episode \<Rightarrow> json list \<Rightarrow> json list \<Rightarrow> digest \<Rightarrow> json" where
  "build_unknown_payload reason ws we ep structural supporting fp =
     JObj
       [(''analysis_window'', window_payload ws we),
        (''episode'', episode_payload ep),
        (''classification'', JStr (classification_value UNKNOWN)),
        (''classification_reason'', JStr reason),
        (''structural_candidates_evaluated'', JArr structural),
        (''supporting_error_evidence'', JArr supporting),
        (''input_fingerprint'', (case fp of Sha256 doc \<Rightarrow> doc)),
        (''thresholds'', thresholds_payload)]"

text \<open>The historical windows in the payload, a dictionary keyed by start in insertion order.\<close>

definition build_hist_window_audit :: "datetime list \<Rightarrow> structural_result list \<Rightarrow> json list" where
  "build_hist_window_audit hist_starts structural_results =
     (let with_snapshot =
            fold (\<lambda>tup seen. if fst tup \<in> fst ` set seen then seen
                    else seen @ [(fst tup, JObj [(''start'', JTime (fst tup)), (''valid'', JBool True)])])
              (concat (map sr_hist_tuples structural_results)) [];
          all_windows =
            fold (\<lambda>s seen. if s \<in> fst ` set seen then seen
                    else seen @ [(s, JObj [(''start'', JTime s), (''valid'', JBool False),
                                           (''exclusion_reason'', JStr ''No snapshot found'')])])
              hist_starts with_snapshot
      in map snd all_windows)"

section \<open>Repository\<close>

definition get_max_rca_version :: "('a rca_db_scheme) \<Rightarrow> uuid \<Rightarrow> int" where
  "get_max_rca_version db episode_id =
     max_default 0 (map re_version (filter (\<lambda>e. re_episode_id e = episode_id) (db_evaluations db)))"

definition get_latest_evaluation_for_episode :: "('a rca_db_scheme) \<Rightarrow> uuid \<Rightarrow> rca_evaluation option" where
  "get_latest_evaluation_for_episode db episode_id =
     (case sort_key (\<lambda>e. - re_version e) (filter (\<lambda>e. re_episode_id e = episode_id) (db_evaluations db)) of
        [] \<Rightarrow> None | e # _ \<Rightarrow> Some e)"

definition get_evaluation_by_id :: "('a rca_db_scheme) \<Rightarrow> uuid \<Rightarrow> rca_evaluation option" where
  "get_evaluation_by_id db evaluation_id = find (\<lambda>e. re_evaluation_id e = evaluation_id) (db_evaluations db)"

definition get_candidates_for_evaluation :: "('a rca_db_scheme) \<Rightarrow> uuid \<Rightarrow> candidate_cause list" where
  "get_candidates_for_evaluation db evaluation_id =
     sort_key cc_rank (filter (\<lambda>c. cc_evaluation_id c = evaluation_id) (db_candidates db))"

definition append_rca_evaluation :: "rca_evaluation \<Rightarrow> ('a rca_db_scheme) \<Rightarrow> ('a rca_db_scheme)" where
  "append_rca_evaluation e db = db\<lparr>db_evaluations := db_evaluations db @ [e]\<rparr>"

definition append_candidate_causes :: "candidate_cause list \<Rightarrow> ('a rca_db_scheme) \<Rightarrow> ('a rca_db_scheme)" where
  "append_candidate_causes cs db = db\<lparr>db_candidates := db_candidates db @ cs\<rparr>"

section \<open>Queries of the service\<close>

definition get_latest_bad_window_start :: "('a rca_db_scheme) \<Rightarrow> degradation_episode \<Rightarrow> datetime option" where
  "get_latest_bad_window_start db ep =
     (if ep_status ep = RECOVERED then None
      else case sort_key (\<lambda>s. (- sig_window_start s, - sig_version s))
             (filter (\<lambda>s. for_segment (ep_dimension ep) (ep_value ep) s \<and> sig_type s = BAD \<and>
                          ep_started_at ep \<le> sig_window_start s) (db_signals db)) of
             [] \<Rightarrow> None | s # _ \<Rightarrow> Some (sig_window_start s))"

definition get_episode_events :: "('a rca_db_scheme) \<Rightarrow> datetime \<Rightarrow> datetime \<Rightarrow> payment_event list" where
  "get_episode_events db window_start window_end =
     filter (\<lambda>e. window_start \<le> ev_timestamp e \<and> ev_timestamp e < window_end \<and> event_visible e) (db_events db)"

definition get_hist_snapshot_for_dim :: "('a rca_db_scheme) \<Rightarrow> datetime list \<Rightarrow> string \<Rightarrow> string \<Rightarrow> snapshot list" where
  "get_hist_snapshot_for_dim db hist_starts snapshot_dim val =
     (if hist_starts = [] then []
      else filter (\<lambda>s. hs_window_start s \<in> set hist_starts \<and> hs_dimension s = snapshot_dim \<and> hs_value s = val)
             (db_snapshots db))"

definition in_windows :: "datetime list \<Rightarrow> payment_event \<Rightarrow> bool" where
  "in_windows hist_starts e \<longleftrightarrow>
     list_ex (\<lambda>s. s \<le> ev_timestamp e \<and> ev_timestamp e < s + minutes 5) hist_starts"

text \<open>Failures and terminal transactions with \<open>field = value\<close> in the historical windows.\<close>

definition get_hist_events_for_dim ::
  "('a rca_db_scheme) \<Rightarrow> datetime list \<Rightarrow> string \<Rightarrow> string \<Rightarrow> int \<times> int" where
  "get_hist_events_for_dim db hist_starts field_name val =
     (if hist_starts = [] then (0, 0)
      else let rows = filter (\<lambda>e. in_windows hist_starts e \<and> event_visible e \<and>
                                  ev_field e field_name = Some val) (db_events db)
           in (int (length (filter (\<lambda>e. ev_event_type e = ''payment.failed'') rows)),
               int (length (filter is_terminal rows))))"

text \<open>Failures with \<open>field = value\<close>, and all failures, in the historical windows.\<close>

definition get_hist_error_counts ::
  "('a rca_db_scheme) \<Rightarrow> datetime list \<Rightarrow> string \<Rightarrow> string \<Rightarrow> int \<times> int" where
  "get_hist_error_counts db hist_starts field_name val =
     (if hist_starts = [] then (0, 0)
      else let failures = filter (\<lambda>e. in_windows hist_starts e \<and> event_visible e \<and>
                                      ev_event_type e = ''payment.failed'') (db_events db)
           in (int (length (filter (\<lambda>e. ev_field e field_name = Some val) failures)),
               int (length failures)))"

section \<open>Service\<close>

definition terminal_count :: "payment_event list \<Rightarrow> int" where
  "terminal_count es = int (length (filter is_terminal es))"

definition failure_count :: "payment_event list \<Rightarrow> int" where
  "failure_count es = int (length (filter (\<lambda>e. ev_event_type e = ''payment.failed'') es))"

definition valid_hist_snapshot :: "snapshot \<Rightarrow> bool" where
  "valid_hist_snapshot s \<longleftrightarrow> \<not> (hs_insufficient_volume s \<or> hs_transaction_count s < MIN_BASELINE_VOLUME)"

definition evaluate_structural_candidate ::
  "('a rca_db_scheme) \<Rightarrow> payment_event list \<Rightarrow> int \<Rightarrow> int \<Rightarrow> string \<Rightarrow> string \<Rightarrow> string \<Rightarrow> datetime list
     \<Rightarrow> structural_result" where
  "evaluate_structural_candidate db episode_events episode_transactions episode_actual_failures
       dimension field_name val all_hist_starts =
     (let seg_events = filter (\<lambda>e. ev_field e field_name = Some val \<and> is_terminal e) episode_events;
          seg_transactions = int (length seg_events);
          seg_failures = failure_count seg_events;
          valid = filter valid_hist_snapshot (get_hist_snapshot_for_dim db all_hist_starts field_name val);
          hist_failures = map hs_failed_count valid;
          hist_transactions = map hs_transaction_count valid;
          enough = MIN_VALID_HISTORICAL_WINDOWS \<le> int (length valid);
          rate = (if enough then compute_volume_weighted_failure_rate hist_failures hist_transactions else None);
          baseline_sufficient = (enough \<and> rate \<noteq> None);
          (expected, excess) =
            (case rate of None \<Rightarrow> (0, 0) | Some r \<Rightarrow> compute_candidate_metrics seg_transactions seg_failures r)
      in \<lparr>sr_dimension = dimension,
          sr_value = val,
          sr_transactions = seg_transactions,
          sr_hist_transactions = sum_list hist_transactions,
          sr_hist_failures = sum_list hist_failures,
          sr_hist_rate = rate,
          sr_expected = expected,
          sr_actual = seg_failures,
          sr_excess = excess,
          sr_traffic_share =
            (if 0 < episode_transactions then int_truediv seg_transactions episode_transactions else 0),
          sr_failure_share =
            (if 0 < episode_actual_failures then int_truediv seg_failures episode_actual_failures else 0),
          sr_contribution = 0,
          sr_strength = None,
          sr_qualified = False,
          sr_disqualification =
            (if baseline_sufficient then None
             else Some (''Insufficient historical baseline: only '' @ show_int (int (length valid)) @
                        '' valid window(s) (need >= '' @ show_int MIN_VALID_HISTORICAL_WINDOWS @ '').'')),
          sr_baseline_sufficient = baseline_sufficient,
          sr_hist_tuples =
            map (\<lambda>s. (hs_window_start s, hs_failed_count s, hs_transaction_count s, dimension, val)) valid,
          sr_rank = None\<rparr>)"

text \<open>\<open>sorted(set(...))\<close> of the values a field takes.\<close>

definition field_values :: "string \<Rightarrow> payment_event list \<Rightarrow> string list" where
  "field_values field_name es = sort (remdups (List.map_filter (\<lambda>e. ev_field e field_name) es))"

definition evaluate_structural ::
  "('a rca_db_scheme) \<Rightarrow> payment_event list \<Rightarrow> datetime list \<Rightarrow> structural_result list" where
  "evaluate_structural db episode_events all_hist_starts =
     concat (map (\<lambda>(dimension, field_name).
       map (\<lambda>val. evaluate_structural_candidate db episode_events (terminal_count episode_events)
                    (failure_count episode_events) dimension field_name val all_hist_starts)
         (field_values field_name (filter is_terminal episode_events))) STRUCTURAL_DIMENSIONS)"

definition evaluate_supporting_dimension ::
  "('a rca_db_scheme) \<Rightarrow> payment_event list \<Rightarrow> int \<Rightarrow> string \<Rightarrow> string \<Rightarrow> datetime list \<Rightarrow> json list" where
  "evaluate_supporting_dimension db episode_events episode_actual_failures support_dim field_name all_hist_starts =
     (if episode_actual_failures = 0 then []
      else let failed_events = filter (\<lambda>e. ev_event_type e = ''payment.failed'') episode_events
           in concat (map (\<lambda>val.
                let episode_count = int (length (filter (\<lambda>e. ev_field e field_name = Some val) failed_events));
                    ep_freq = int_truediv episode_count episode_actual_failures;
                    (hist_error_failures, hist_total_failures) =
                      get_hist_error_counts db all_hist_starts field_name val;
                    baseline_freq =
                      (if hist_total_failures = 0 then 0
                       else int_truediv hist_error_failures hist_total_failures);
                    deviation = f_sub ep_freq baseline_freq
                in if MIN_ERROR_DEVIATION_THRESHOLD \<le> deviation
                   then [JObj [(''dimension'', JStr support_dim), (''value'', JStr val),
                               (''episode_error_frequency'', JFloat ep_freq),
                               (''baseline_error_frequency'', JFloat baseline_freq),
                               (''error_deviation'', JFloat deviation),
                               (''qualifies_as_supporting'', JBool True)]]
                   else [])
              (field_values field_name failed_events)))"

definition episode_baseline_rate :: "('a rca_db_scheme) \<Rightarrow> datetime list \<Rightarrow> pyfloat option" where
  "episode_baseline_rate db all_hist_starts =
     (let valid = filter valid_hist_snapshot
            (get_hist_snapshot_for_dim db all_hist_starts ''GLOBAL'' ''GLOBAL'')
      in if MIN_VALID_HISTORICAL_WINDOWS \<le> int (length valid)
         then compute_volume_weighted_failure_rate (map hs_failed_count valid) (map hs_transaction_count valid)
         else None)"

text \<open>Formatting a missing contribution with \<open>:.4f\<close> would be a \<open>TypeError\<close>.\<close>

definition format_contribution :: "pyfloat option \<Rightarrow> (exn, string) result" where
  "format_contribution contribution =
     (case contribution of
        None \<Rightarrow> Inl TypeError
      | Some c \<Rightarrow> Inr (''excess_failure_contribution '' @ show_fixed4 c @
                       '' < MIN_CONTRIBUTION_THRESHOLD 0.3''))"

definition qualify_result :: "pyfloat \<Rightarrow> structural_result \<Rightarrow> (exn, structural_result) result" where
  "qualify_result episode_total_excess r =
     (if \<not> sr_baseline_sufficient r then Inr r
      else if sr_excess r \<le> 0 then
        Inr (r\<lparr>sr_contribution := 0, sr_strength := None, sr_qualified := False,
               sr_disqualification := Some ''excess_segment_failures <= 0''\<rparr>)
      else
        let contribution = compute_excess_failure_contribution (sr_excess r) episode_total_excess;
            r' = r\<lparr>sr_contribution := (case contribution of Some c \<Rightarrow> c | None \<Rightarrow> 0)\<rparr>
        in case contribution of
             Some c \<Rightarrow>
               if MIN_FAILURES_FOR_RCA_EVALUATION \<le> sr_actual r \<and> MIN_CONTRIBUTION_THRESHOLD \<le> c
               then Inr (r'\<lparr>sr_strength := Some (assign_evidence_strength c (sr_actual r)),
                            sr_qualified := True, sr_disqualification := None\<rparr>)
               else if sr_actual r < MIN_FAILURES_FOR_RCA_EVALUATION
               then Inr (r'\<lparr>sr_strength := None, sr_qualified := False,
                            sr_disqualification := Some (''actual_segment_failures '' @ show_int (sr_actual r) @
                              '' < MIN_FAILURES_FOR_RCA_EVALUATION '' @ show_int MIN_FAILURES_FOR_RCA_EVALUATION)\<rparr>)
               else bind_result (format_contribution contribution)
                      (\<lambda>why. Inr (r'\<lparr>sr_strength := None, sr_qualified := False,
                                     sr_disqualification := Some why\<rparr>))
           | None \<Rightarrow>
               if sr_actual r < MIN_FAILURES_FOR_RCA_EVALUATION
               then Inr (r'\<lparr>sr_strength := None, sr_qualified := False,
                            sr_disqualification := Some (''actual_segment_failures '' @ show_int (sr_actual r) @
                              '' < MIN_FAILURES_FOR_RCA_EVALUATION '' @ show_int MIN_FAILURES_FOR_RCA_EVALUATION)\<rparr>)
               else bind_result (format_contribution contribution)
                      (\<lambda>why. Inr (r'\<lparr>sr_strength := None, sr_qualified := False,
                                     sr_disqualification := Some why\<rparr>)))"

definition qualify_results ::
  "pyfloat \<Rightarrow> structural_result list \<Rightarrow> (exn, structural_result list) result" where
  "qualify_results episode_total_excess rs =
     fold_result (\<lambda>r acc. bind_result (qualify_result episode_total_excess r) (\<lambda>q. Inr (acc @ [q]))) rs []"

text \<open>The ranked dictionaries are the same objects as the evaluated ones, so these carry the rank too.\<close>

definition share_ranks :: "structural_result list \<Rightarrow> structural_result list \<Rightarrow> structural_result list" where
  "share_ranks ranked results =
     map (\<lambda>r. case find (\<lambda>q. sr_dimension q = sr_dimension r \<and> sr_value q = sr_value r) ranked of
            None \<Rightarrow> r | Some q \<Rightarrow> q) results"

definition persist_unknown_with_fingerprint ::
  "datetime \<Rightarrow> degradation_episode \<Rightarrow> datetime \<Rightarrow> datetime \<Rightarrow> string \<Rightarrow> digest \<Rightarrow> structural_result list \<Rightarrow> json list
     \<Rightarrow> ('a rca_db_scheme) \<Rightarrow> ('a rca_db_scheme)" where
  "persist_unknown_with_fingerprint now ep ws we reason fp structural supporting db =
     (let new_version = get_max_rca_version db (ep_episode_id ep) + 1
      in append_rca_evaluation
           \<lparr>re_evaluation_id = make_evaluation_id (ep_episode_id ep) new_version,
            re_episode_id = ep_episode_id ep,
            re_version = new_version,
            re_classification = UNKNOWN,
            re_window_start = ws,
            re_window_end = we,
            re_fingerprint = fp,
            re_generated_at = now,
            re_payload = build_unknown_payload reason ws we ep
              (map clean_structural_result structural) supporting fp\<rparr> db)"

definition unchanged :: "('a rca_db_scheme) \<Rightarrow> uuid \<Rightarrow> digest \<Rightarrow> bool" where
  "unchanged db episode_id fp \<longleftrightarrow>
     (case get_latest_evaluation_for_episode db episode_id of
        None \<Rightarrow> False | Some prev \<Rightarrow> re_fingerprint prev = fp)"

definition persist_unknown ::
  "datetime \<Rightarrow> degradation_episode \<Rightarrow> datetime \<Rightarrow> datetime \<Rightarrow> string \<Rightarrow> int \<Rightarrow> int \<Rightarrow> hist_tuple list
     \<Rightarrow> ('a rca_db_scheme) \<Rightarrow> ('a rca_db_scheme)" where
  "persist_unknown now ep ws we reason transaction_count actual_failures hist_window_tuples db =
     (let fp = compute_input_fingerprint (ep_episode_id ep) (status_value (ep_status ep)) ws we
                 actual_failures transaction_count hist_window_tuples
      in if unchanged db (ep_episode_id ep) fp then db
         else persist_unknown_with_fingerprint now ep ws we reason fp [] [] db)"

definition candidate_row :: "uuid \<Rightarrow> structural_result \<Rightarrow> candidate_cause" where
  "candidate_row evaluation_id r =
     \<lparr>cc_candidate_id = make_candidate_id evaluation_id (sr_dimension r) (sr_value r),
      cc_evaluation_id = evaluation_id,
      cc_dimension = sr_dimension r,
      cc_value = sr_value r,
      cc_strength = the (sr_strength r),
      cc_contribution = sr_contribution r,
      cc_actual_failures = sr_actual r,
      cc_expected_failures = sr_expected r,
      cc_excess_failures = sr_excess r,
      cc_rank = the (sr_rank r)\<rparr>"

definition SEGMENT_REASON :: string where
  "SEGMENT_REASON = ''At least one structural candidate passed all deterministic thresholds.''"

definition SYSTEMIC_REASON :: string where
  "SYSTEMIC_REASON =
     ''Episode total excess failures > 0, historical baseline valid, but no structural dimension exceeded '' @
     ''the contribution threshold. Degradation appears to be broadly distributed across all segments.''"

definition OVERLAP_NOTE :: string where
  "OVERLAP_NOTE =
     ''Multiple structural candidates detected. Candidates may be correlated - e.g., BANK failures may be '' @
     ''a subset of PAYMENT_METHOD failures. Treat as correlated hypotheses, not independent proven causes.''"

definition NO_EXCESS_REASON :: string where
  "NO_EXCESS_REASON =
     ''No net excess failures detected: observed failures did not exceed historical baseline across any '' @
     ''structural dimension.''"

text \<open>From the computed excess on: qualification, classification, ranking and the two inserts.\<close>

definition persist_classified ::
  "datetime \<Rightarrow> degradation_episode \<Rightarrow> datetime \<Rightarrow> datetime \<Rightarrow> int \<Rightarrow> int \<Rightarrow> datetime list \<Rightarrow> pyfloat option
     \<Rightarrow> pyfloat \<Rightarrow> pyfloat \<Rightarrow> json list \<Rightarrow> digest \<Rightarrow> structural_result list \<Rightarrow> ('a rca_db_scheme)
     \<Rightarrow> ('a rca_db_scheme)" where
  "persist_classified now ep ws we transactions actual_failures hist_starts baseline_rate expected
       total_excess supporting fp results db =
     (let qualified = filter sr_qualified results;
          classification = (if qualified \<noteq> [] then SEGMENT_SPECIFIC else SYSTEMIC);
          reason = (if qualified \<noteq> [] then SEGMENT_REASON else SYSTEMIC_REASON);
          ranked = rank_candidates qualified;
          overlap_note = (if 1 < length ranked then Some OVERLAP_NOTE else None);
          payload = build_audit_payload ws we (build_hist_window_audit hist_starts results) ep transactions
            actual_failures baseline_rate expected total_excess
            (map clean_structural_result (share_ranks ranked results)) supporting classification reason
            overlap_note fp;
          new_version = get_max_rca_version db (ep_episode_id ep) + 1;
          ev = \<lparr>re_evaluation_id = make_evaluation_id (ep_episode_id ep) new_version,
                re_episode_id = ep_episode_id ep,
                re_version = new_version,
                re_classification = classification,
                re_window_start = ws,
                re_window_end = we,
                re_fingerprint = fp,
                re_generated_at = now,
                re_payload = payload\<rparr>
      in append_candidate_causes (map (candidate_row (re_evaluation_id ev)) ranked)
           (append_rca_evaluation ev db))"

definition evaluate_in_window ::
  "datetime \<Rightarrow> degradation_episode \<Rightarrow> datetime \<Rightarrow> datetime \<Rightarrow> ('a rca_db_scheme)
     \<Rightarrow> (exn, 'a rca_db_scheme) result" where
  "evaluate_in_window now ep ws we db =
     (let episode_events = get_episode_events db ws we;
          transactions = terminal_count episode_events;
          actual_failures = failure_count episode_events;
          fingerprint = compute_input_fingerprint (ep_episode_id ep) (status_value (ep_status ep)) ws we
            actual_failures transactions
      in if actual_failures < MIN_FAILURES_FOR_RCA_EVALUATION then
           Inr (if unchanged db (ep_episode_id ep) (fingerprint []) then db
                else persist_unknown now ep ws we
                  (''Insufficient episode failures: '' @ show_int actual_failures @ '' < '' @
                   show_int MIN_FAILURES_FOR_RCA_EVALUATION @ '' (MIN_FAILURES_FOR_RCA_EVALUATION).'')
                  transactions actual_failures [] db)
         else
           let hist_starts = get_all_historical_starts ws we HISTORICAL_WEEKS_BACK;
               structural = evaluate_structural db episode_events hist_starts;
               supporting = concat (map (\<lambda>(support_dim, field_name).
                 evaluate_supporting_dimension db episode_events actual_failures support_dim field_name hist_starts)
                 SUPPORTING_DIMENSIONS);
               fp = fingerprint (concat (map sr_hist_tuples structural))
           in if unchanged db (ep_episode_id ep) fp then Inr db
              else
                let baseline_rate = episode_baseline_rate db hist_starts;
                    expected = (case baseline_rate of
                        Some r \<Rightarrow> f_mul (float_of_int transactions) r | None \<Rightarrow> 0);
                    total_excess = compute_episode_total_excess_failures actual_failures expected
                in if total_excess \<le> 0 then
                     Inr (persist_unknown_with_fingerprint now ep ws we NO_EXCESS_REASON fp structural supporting db)
                   else bind_result (qualify_results total_excess structural)
                     (\<lambda>results. Inr (persist_classified now ep ws we transactions actual_failures hist_starts
                        baseline_rate expected total_excess supporting fp results db)))"

definition evaluate_episode ::
  "datetime \<Rightarrow> degradation_episode \<Rightarrow> ('a rca_db_scheme) \<Rightarrow> (exn, 'a rca_db_scheme) result" where
  "evaluate_episode now ep db =
     (if ep_status ep = INVALIDATED then
        Inr (persist_unknown now ep (ep_started_at ep) (ep_started_at ep + minutes 5)
          ''Episode invalidated by Stage 3.'' 0 0 [] db)
      else bind_result
        (compute_analysis_window (ep_started_at ep) (ep_ended_at ep) (get_latest_bad_window_start db ep) (ep_status ep))
        (\<lambda>(ws, we). evaluate_in_window now ep ws we db))"


section \<open>Lemmas\<close>

interpretation evaluation_log: version_log db_evaluations re_episode_id re_version get_max_rca_version append_rca_evaluation
  by unfold_locales (simp_all add: append_rca_evaluation_def get_max_rca_version_def)

lemma append_candidates_frame [simp]:
  "db_evaluations (append_candidate_causes cs db) = db_evaluations db"
  "db_candidates (append_candidate_causes cs db) = db_candidates db @ cs"
  "db_events (append_candidate_causes cs db) = db_events db"
  "db_snapshots (append_candidate_causes cs db) = db_snapshots db"
  "db_signals (append_candidate_causes cs db) = db_signals db"
  by (simp_all add: append_candidate_causes_def)

lemma append_rca_frame [simp]:
  "db_evaluations (append_rca_evaluation e db) = db_evaluations db @ [e]"
  "db_candidates (append_rca_evaluation e db) = db_candidates db"
  "db_events (append_rca_evaluation e db) = db_events db"
  "db_snapshots (append_rca_evaluation e db) = db_snapshots db"
  "db_signals (append_rca_evaluation e db) = db_signals db"
  by (simp_all add: append_rca_evaluation_def)

subsection \<open>The latest evaluation\<close>

lemma sort_key_hd_min:
  "sort_key f xs = y # ys \<Longrightarrow> x \<in> set xs \<Longrightarrow> f y \<le> f x"
proof -
  assume s: "sort_key f xs = y # ys" and x: "x \<in> set xs"
  have "sorted (map f (y # ys))" unfolding s[symmetric] by (rule sorted_sort_key)
  moreover have "x \<in> set (y # ys)" using x unfolding s[symmetric] by simp
  ultimately show ?thesis by auto
qed

lemma sort_key_hd_unique:
  assumes "x \<in> set xs" and "\<And>y. y \<in> set xs \<Longrightarrow> y \<noteq> x \<Longrightarrow> f x < f y"
  shows "\<exists>ys. sort_key f xs = x # ys"
proof (cases "sort_key f xs")
  case Nil
  with assms(1) show ?thesis by (metis empty_iff empty_set set_sort)
next
  case (Cons y ys)
  then have "y \<in> set xs" by (metis list.set_intros(1) set_sort)
  with sort_key_hd_min[OF Cons assms(1)] assms(2)[of y] Cons show ?thesis by fastforce
qed

lemma latest_after_append:
  assumes "db_evaluations db' = db_evaluations db @ [e]" and "re_episode_id e = i"
    and "re_version e = get_max_rca_version db i + 1"
  shows "get_latest_evaluation_for_episode db' i = Some e"
proof -
  let ?es = "filter (\<lambda>e. re_episode_id e = i) (db_evaluations db')"
  have "\<exists>ys. sort_key (\<lambda>e. - re_version e) ?es = e # ys"
  proof (rule sort_key_hd_unique)
    show "e \<in> set ?es" using assms by simp
    fix y assume y: "y \<in> set ?es" "y \<noteq> e"
    then have "y \<in> set (filter (\<lambda>e. re_episode_id e = i) (db_evaluations db))" using assms by auto
    then have "re_version y \<le> get_max_rca_version db i"
      unfolding get_max_rca_version_def by (intro max_default_upper) simp
    then show "- re_version e < - re_version y" using assms(3) by simp
  qed
  then show ?thesis by (auto simp: get_latest_evaluation_for_episode_def)
qed

lemma unchanged_after_append:
  "db_evaluations db' = db_evaluations db @ [e] \<Longrightarrow> re_episode_id e = i \<Longrightarrow>
   re_version e = get_max_rca_version db i + 1 \<Longrightarrow> re_fingerprint e = fp \<Longrightarrow> unchanged db' i fp"
  by (simp add: unchanged_def latest_after_append)

subsection \<open>Qualification\<close>

definition result_ok :: "pyfloat \<Rightarrow> structural_result \<Rightarrow> bool" where
  "result_ok tot r \<longleftrightarrow>
     (if sr_qualified r
      then sr_baseline_sufficient r \<and> 0 < sr_excess r \<and>
           MIN_FAILURES_FOR_RCA_EVALUATION \<le> sr_actual r \<and>
           sr_contribution r = f_div (sr_excess r) tot \<and>
           MIN_CONTRIBUTION_THRESHOLD \<le> sr_contribution r \<and>
           sr_strength r = Some (assign_evidence_strength (sr_contribution r) (sr_actual r))
      else sr_strength r = None)"

lemma qualify_result_total:
  "0 < tot \<Longrightarrow> result_ok tot r \<Longrightarrow> \<not> sr_qualified r \<Longrightarrow> \<exists>q. qualify_result tot r = Inr q \<and>
     result_ok tot q \<and> sr_dimension q = sr_dimension r \<and> sr_value q = sr_value r \<and>
     (sr_qualified q \<longleftrightarrow> sr_baseline_sufficient r \<and> 0 < sr_excess r \<and>
        MIN_FAILURES_FOR_RCA_EVALUATION \<le> sr_actual r \<and>
        MIN_CONTRIBUTION_THRESHOLD \<le> f_div (sr_excess r) tot)"
  by (auto simp: qualify_result_def compute_excess_failure_contribution_def Let_def result_ok_def
      format_contribution_def)


definition fresh :: "structural_result \<Rightarrow> bool" where
  "fresh r \<longleftrightarrow> \<not> sr_qualified r \<and> sr_strength r = None"

definition result_key :: "structural_result \<Rightarrow> string \<times> string" where
  "result_key r = (sr_dimension r, sr_value r)"

lemma qualify_results_total:
  assumes "0 < tot" and "list_all fresh rs"
  shows "\<exists>qs. qualify_results tot rs = Inr qs \<and> list_all (result_ok tot) qs \<and> map result_key qs = map result_key rs"
proof -
  have "\<exists>qs. fold_result (\<lambda>r acc. bind_result (qualify_result tot r) (\<lambda>q. Inr (acc @ [q]))) rs acc = Inr (acc @ qs) \<and>
      list_all (result_ok tot) qs \<and> map result_key qs = map result_key rs" for acc
    using assms(2)
  proof (induction rs arbitrary: acc)
    case (Cons r rs)
    then obtain q where q: "qualify_result tot r = Inr q" "result_ok tot q" "result_key q = result_key r"
      using qualify_result_total[OF assms(1), of r] by (auto simp: fresh_def result_ok_def result_key_def)
    obtain qs where "fold_result (\<lambda>r acc. bind_result (qualify_result tot r) (\<lambda>q. Inr (acc @ [q]))) rs (acc @ [q]) =
        Inr ((acc @ [q]) @ qs)" "list_all (result_ok tot) qs" "map result_key qs = map result_key rs"
      using Cons.IH[of "acc @ [q]"] Cons.prems by auto
    with q show ?case by (intro exI[of _ "q # qs"]) simp
  qed simp
  from this[of "[]"] show ?thesis by (auto simp: qualify_results_def)
qed

lemma candidate_fields [simp]:
  "sr_qualified (evaluate_structural_candidate db es n f d fld v hs) = False"
  "sr_strength (evaluate_structural_candidate db es n f d fld v hs) = None"
  "sr_dimension (evaluate_structural_candidate db es n f d fld v hs) = d"
  "sr_value (evaluate_structural_candidate db es n f d fld v hs) = v"
  by (simp_all add: evaluate_structural_candidate_def Let_def case_prod_beta)

lemma structural_fresh: "list_all fresh (evaluate_structural db es hs)"
  by (auto simp: evaluate_structural_def list_all_iff fresh_def)

lemma structural_key:
  "result_key (evaluate_structural_candidate db es n f d fld v hs) = (d, v)"
  by (simp add: result_key_def)

lemma field_values_distinct: "distinct (field_values f es)"
  by (simp add: field_values_def)

lemma structural_keys:
  "map result_key (evaluate_structural db es hs) =
   concat (map (\<lambda>(d, f). map (Pair d) (field_values f (filter is_terminal es))) STRUCTURAL_DIMENSIONS)"
  by (simp add: evaluate_structural_def map_concat comp_def structural_key split_def)

lemma structural_keys_distinct: "distinct (map result_key (evaluate_structural db es hs))"
  unfolding structural_keys
  by (auto simp: STRUCTURAL_DIMENSIONS_def distinct_map inj_on_def field_values_distinct)

lemma structural_dimensions:
  "r \<in> set (evaluate_structural db es hs) \<Longrightarrow> sr_dimension r \<in> fst ` set STRUCTURAL_DIMENSIONS"
  by (force simp: evaluate_structural_def)

subsection \<open>Ranking\<close>

lemma rank_candidates_facts:
  "map sr_rank (rank_candidates rs) = map Some [1..int (length rs)]"
  "sorted (map candidate_order (rank_candidates rs))"
  "mset (map (\<lambda>c. c\<lparr>sr_rank := None\<rparr>) (rank_candidates rs)) = mset (map (\<lambda>c. c\<lparr>sr_rank := None\<rparr>) rs)"
proof -
  have upto: "[1..int n] = map (\<lambda>i. int i + 1) [0..<n]" for n
    by (induction n) (simp_all add: upto_rec2)
  have "map sr_rank (rank_candidates rs) = map (\<lambda>(i, c). Some (int i + 1)) (enumerate 0 (sort_key candidate_order rs))"
    by (simp add: rank_candidates_def comp_def split_def)
  also have "\<dots> = map (\<lambda>i. Some (int i + 1)) (map fst (enumerate 0 (sort_key candidate_order rs)))"
    by (simp only: map_map comp_def split_def)
  finally show "map sr_rank (rank_candidates rs) = map Some [1..int (length rs)]"
    by (simp add: upto comp_def)
  have strip: "map f (rank_candidates rs) = map f (sort_key candidate_order rs)"
    if "\<And>c k. f (c\<lparr>sr_rank := k\<rparr>) = f c" for f :: "structural_result \<Rightarrow> 'x"
  proof -
    have "map f (rank_candidates rs) = map f (map snd (enumerate 0 (sort_key candidate_order rs)))"
      unfolding rank_candidates_def map_map comp_def split_def that ..
    then show ?thesis by simp
  qed
  show "sorted (map candidate_order (rank_candidates rs))"
    by (subst strip) (simp_all add: candidate_order_def)
  show "mset (map (\<lambda>c. c\<lparr>sr_rank := None\<rparr>) (rank_candidates rs)) = mset (map (\<lambda>c. c\<lparr>sr_rank := None\<rparr>) rs)"
    by (subst strip) (simp_all)
qed


subsection \<open>Candidate rows\<close>

lemma chars_sep_inject:
  assumes "CHR '':'' \<notin> set d" and "CHR '':'' \<notin> set d'"
  shows "chars d @ Ch CHR '':'' # x = chars d' @ Ch CHR '':'' # y \<longleftrightarrow> d = d' \<and> x = y"
proof
  have cut: "takeWhile (\<lambda>t. t \<noteq> Ch CHR '':'') (chars d @ Ch CHR '':'' # x) = chars d"
    if "CHR '':'' \<notin> set d" for d x
    using that by (auto simp: takeWhile_append chars_def)
  assume eq: "chars d @ Ch CHR '':'' # x = chars d' @ Ch CHR '':'' # y"
  then have "chars d = chars d'" using cut[OF assms(1), of x] cut[OF assms(2), of y] by simp
  with eq show "d = d' \<and> x = y" by simp
qed simp

lemma make_candidate_id_inject:
  assumes "d \<in> fst ` set STRUCTURAL_DIMENSIONS" and "d' \<in> fst ` set STRUCTURAL_DIMENSIONS"
  shows "make_candidate_id i d v = make_candidate_id i d' v' \<longleftrightarrow> d = d' \<and> v = v'"
proof -
  have "CHR '':'' \<notin> set x" if "x \<in> fst ` set STRUCTURAL_DIMENSIONS" for x
    using that by (auto simp: STRUCTURAL_DIMENSIONS_def)
  with assms show ?thesis by (simp add: make_candidate_id_def chars_sep_inject)
qed

definition candidate_ok :: "rca_evaluation \<Rightarrow> candidate_cause \<Rightarrow> bool" where
  "candidate_ok ev c \<longleftrightarrow>
     cc_evaluation_id c = re_evaluation_id ev \<and>
     cc_candidate_id c = make_candidate_id (re_evaluation_id ev) (cc_dimension c) (cc_value c) \<and>
     0 < cc_excess_failures c \<and>
     MIN_FAILURES_FOR_RCA_EVALUATION \<le> cc_actual_failures c \<and>
     MIN_CONTRIBUTION_THRESHOLD \<le> cc_contribution c \<and>
     cc_strength c = assign_evidence_strength (cc_contribution c) (cc_actual_failures c)"

definition candidates_ranked :: "candidate_cause list \<Rightarrow> bool" where
  "candidates_ranked cs \<longleftrightarrow>
     map cc_rank cs = [1..int (length cs)] \<and>
     sorted (map (\<lambda>c. (- cc_contribution c, - cc_actual_failures c, cc_dimension c, cc_value c)) cs) \<and>
     distinct (map cc_candidate_id cs)"

lemma ranked_members:
  assumes "r \<in> set (rank_candidates rs)"
  obtains c k where "c \<in> set rs" "r = c\<lparr>sr_rank := Some k\<rparr>"
  using assms unfolding rank_candidates_def
  by (auto simp: in_set_enumerate_eq) (metis nth_mem set_sort length_sort)

lemma ranked_rows:
  assumes ok: "list_all (\<lambda>r. sr_qualified r \<and> result_ok tot r) qs"
    and keys: "distinct (map result_key qs)"
    and dims: "list_all (\<lambda>r. sr_dimension r \<in> fst ` set STRUCTURAL_DIMENSIONS) qs"
    and ev: "re_evaluation_id ev = i"
  shows "list_all (candidate_ok ev) (map (candidate_row i) (rank_candidates qs))"
    and "candidates_ranked (map (candidate_row i) (rank_candidates qs))"
    and "mset (map (\<lambda>c. (cc_dimension c, cc_value c)) (map (candidate_row i) (rank_candidates qs))) =
         mset (map result_key qs)"
proof -
  let ?rs = "rank_candidates qs"
  note facts = rank_candidates_facts[of qs]
  have "candidate_ok ev (candidate_row i r)" if "r \<in> set ?rs" for r
  proof -
    from that obtain c k where "c \<in> set qs" "r = c\<lparr>sr_rank := Some k\<rparr>" by (rule ranked_members)
    with ok ev show ?thesis by (auto simp: list_all_iff candidate_ok_def candidate_row_def result_ok_def)
  qed
  then show "list_all (candidate_ok ev) (map (candidate_row i) ?rs)" by (simp add: list_all_iff)
  have "mset (map (\<lambda>c. (cc_dimension c, cc_value c)) (map (candidate_row i) ?rs)) =
      image_mset result_key (mset (map (\<lambda>c. c\<lparr>sr_rank := None\<rparr>) ?rs))"
    by (simp add: candidate_row_def result_key_def[abs_def] comp_def multiset.map_comp)
  also have "\<dots> = mset (map result_key qs)" unfolding facts(3) by (simp add: comp_def result_key_def[abs_def] multiset.map_comp)
  finally show keys_eq: "mset (map (\<lambda>c. (cc_dimension c, cc_value c)) (map (candidate_row i) ?rs)) =
         mset (map result_key qs)" .
  have len: "length ?rs = length qs" by (simp add: rank_candidates_def)
  have "map cc_rank (map (candidate_row i) ?rs) = map the (map sr_rank ?rs)"
    by (simp add: candidate_row_def comp_def)
  then have ranks: "map cc_rank (map (candidate_row i) ?rs) = [1..int (length qs)]"
    unfolding facts(1) by (simp add: comp_def)
  have "map (\<lambda>c. (- cc_contribution c, - cc_actual_failures c, cc_dimension c, cc_value c)) (map (candidate_row i) ?rs) =
      map candidate_order ?rs"
    by (simp add: candidate_row_def candidate_order_def)
  then have order: "sorted (map (\<lambda>c. (- cc_contribution c, - cc_actual_failures c, cc_dimension c, cc_value c))
      (map (candidate_row i) ?rs))" using facts(2) by (simp only:)
  have rs_keys: "mset (map result_key ?rs) = mset (map result_key qs)"
    using keys_eq by (simp add: candidate_row_def result_key_def[abs_def] comp_def)
  then have "distinct (map result_key ?rs)" using keys by (metis mset_eq_imp_distinct_iff)
  moreover have "sr_dimension r \<in> fst ` set STRUCTURAL_DIMENSIONS" if "r \<in> set ?rs" for r
  proof -
    from that obtain c k where "c \<in> set qs" "r = c\<lparr>sr_rank := Some k\<rparr>" by (rule ranked_members)
    with dims show ?thesis by (auto simp: list_all_iff)
  qed
  ultimately have "distinct (map (\<lambda>r. make_candidate_id i (sr_dimension r) (sr_value r)) ?rs)"
    by (auto simp: distinct_map inj_on_def result_key_def make_candidate_id_inject)
  then have "distinct (map cc_candidate_id (map (candidate_row i) ?rs))"
    by (simp add: candidate_row_def comp_def)
  with ranks order len show "candidates_ranked (map (candidate_row i) ?rs)"
    by (simp add: candidates_ranked_def)
qed


subsection \<open>A run of the service\<close>

text \<open>A structural result that satisfies all qualification thresholds.\<close>

definition qualifies :: "pyfloat \<Rightarrow> structural_result \<Rightarrow> bool" where
  "qualifies tot r \<longleftrightarrow>
     sr_baseline_sufficient r \<and> 0 < sr_excess r \<and>
     MIN_FAILURES_FOR_RCA_EVALUATION \<le> sr_actual r \<and>
     MIN_CONTRIBUTION_THRESHOLD \<le> f_div (sr_excess r) tot"

text \<open>The excess failures of the episode in a window, and the qualifying segments.\<close>

definition episode_excess :: "('a rca_db_scheme) \<Rightarrow> datetime \<Rightarrow> datetime \<Rightarrow> pyfloat" where
  "episode_excess db ws we =
     (let events = get_episode_events db ws we in
      compute_episode_total_excess_failures (failure_count events)
        (case episode_baseline_rate db (get_all_historical_starts ws we HISTORICAL_WEEKS_BACK) of
           Some r \<Rightarrow> f_mul (float_of_int (terminal_count events)) r | None \<Rightarrow> 0))"

definition qualifying_segments :: "('a rca_db_scheme) \<Rightarrow> datetime \<Rightarrow> datetime \<Rightarrow> (string \<times> string) list" where
  "qualifying_segments db ws we =
     map result_key (filter (qualifies (episode_excess db ws we))
       (evaluate_structural db (get_episode_events db ws we)
          (get_all_historical_starts ws we HISTORICAL_WEEKS_BACK)))"

definition rca_outcome ::
  "degradation_episode \<Rightarrow> ('a rca_db_scheme) \<Rightarrow> rca_evaluation \<Rightarrow> candidate_cause list \<Rightarrow> bool" where
  "rca_outcome ep db ev cands \<longleftrightarrow>
     re_episode_id ev = ep_episode_id ep \<and>
     re_version ev = get_max_rca_version db (ep_episode_id ep) + 1 \<and>
     re_evaluation_id ev = make_evaluation_id (ep_episode_id ep) (re_version ev) \<and>
     list_all (candidate_ok ev) cands \<and>
     candidates_ranked cands \<and>
     (case re_classification ev of
        UNKNOWN \<Rightarrow> cands = []
      | SYSTEMIC \<Rightarrow> cands = [] \<and> qualifying_segments db (re_window_start ev) (re_window_end ev) = []
      | SEGMENT_SPECIFIC \<Rightarrow> cands \<noteq> [] \<and>
          mset (map (\<lambda>c. (cc_dimension c, cc_value c)) cands) =
          mset (qualifying_segments db (re_window_start ev) (re_window_end ev)))"

lemma qualify_results_keys:
  assumes "0 < tot" and "list_all fresh rs" and "qualify_results tot rs = Inr qs"
  shows "map result_key (filter sr_qualified qs) = map result_key (filter (qualifies tot) rs)"
proof -
  have "map result_key (filter sr_qualified qs) =
      map result_key (filter sr_qualified acc) @ map result_key (filter (qualifies tot) rs)"
    if "fold_result (\<lambda>r acc. bind_result (qualify_result tot r) (\<lambda>q. Inr (acc @ [q]))) rs acc = Inr qs" for acc
    using assms(2) that
  proof (induction rs arbitrary: acc)
    case (Cons r rs)
    then obtain q where q: "qualify_result tot r = Inr q" "result_key q = result_key r"
        "sr_qualified q \<longleftrightarrow> qualifies tot r"
      using qualify_result_total[OF assms(1), of r]
      by (auto simp: fresh_def result_ok_def result_key_def qualifies_def)
    with Cons.prems have "fold_result (\<lambda>r acc. bind_result (qualify_result tot r) (\<lambda>q. Inr (acc @ [q]))) rs (acc @ [q]) = Inr qs"
      by simp
    from Cons.IH[OF _ this] Cons.prems(1) q show ?case by simp
  qed simp
  from this[of "[]"] assms(3) show ?thesis by (simp add: qualify_results_def)
qed

lemma candidates_ranked_Nil: "candidates_ranked []"
  by (simp add: candidates_ranked_def)

lemma persist_unknown_fp_outcome:
  "\<exists>ev. persist_unknown_with_fingerprint now ep ws we reason fp st su db = append_rca_evaluation ev db \<and>
     rca_outcome ep db ev [] \<and> re_fingerprint ev = fp"
  unfolding persist_unknown_with_fingerprint_def Let_def
  by (intro exI conjI, rule refl) (simp_all add: rca_outcome_def candidates_ranked_Nil)

lemma persist_classified_outcome:
  assumes tot: "tot = episode_excess db ws we" "0 < tot"
    and q: "qualify_results tot (evaluate_structural db (get_episode_events db ws we)
          (get_all_historical_starts ws we HISTORICAL_WEEKS_BACK)) = Inr results"
  shows "\<exists>ev cands. persist_classified now ep ws we n f hs br ex tot su fp results db =
      append_candidate_causes cands (append_rca_evaluation ev db) \<and>
    rca_outcome ep db ev cands \<and> re_fingerprint ev = fp"
proof -
  let ?rs = "evaluate_structural db (get_episode_events db ws we) (get_all_historical_starts ws we HISTORICAL_WEEKS_BACK)"
    and ?qs = "filter sr_qualified results"
  obtain qs' where "qualify_results tot ?rs = Inr qs'" "list_all (result_ok tot) qs'"
      "map result_key qs' = map result_key ?rs"
    using qualify_results_total[OF tot(2) structural_fresh] by blast
  with q have ok: "list_all (result_ok tot) results" and keys: "map result_key results = map result_key ?rs"
    by simp_all
  note qkeys = qualify_results_keys[OF tot(2) structural_fresh q]
  have ok': "list_all (\<lambda>r. sr_qualified r \<and> result_ok tot r) ?qs" using ok by (simp add: list_all_iff)
  have dist: "distinct (map result_key ?qs)"
    using keys structural_keys_distinct by (metis distinct_map_filter)
  have dims: "list_all (\<lambda>r. sr_dimension r \<in> fst ` set STRUCTURAL_DIMENSIONS) ?qs"
  proof -
    have "result_key r \<in> set (map result_key ?rs)" if "r \<in> set results" for r
      using that keys by (metis image_eqI set_map)
    then show ?thesis using structural_dimensions by (fastforce simp: list_all_iff result_key_def)
  qed
  have "\<exists>ev. persist_classified now ep ws we n f hs br ex tot su fp results db =
      append_candidate_causes (map (candidate_row (re_evaluation_id ev)) (rank_candidates ?qs)) (append_rca_evaluation ev db) \<and>
    re_episode_id ev = ep_episode_id ep \<and> re_version ev = get_max_rca_version db (ep_episode_id ep) + 1 \<and>
    re_evaluation_id ev = make_evaluation_id (ep_episode_id ep) (re_version ev) \<and> re_fingerprint ev = fp \<and>
    re_window_start ev = ws \<and> re_window_end ev = we \<and>
    re_classification ev = (if ?qs \<noteq> [] then SEGMENT_SPECIFIC else SYSTEMIC)"
    unfolding persist_classified_def Let_def by (rule exI, rule conjI, rule refl) simp
  then obtain ev where ev: "persist_classified now ep ws we n f hs br ex tot su fp results db =
      append_candidate_causes (map (candidate_row (re_evaluation_id ev)) (rank_candidates ?qs)) (append_rca_evaluation ev db)"
    "re_episode_id ev = ep_episode_id ep" "re_version ev = get_max_rca_version db (ep_episode_id ep) + 1"
    "re_evaluation_id ev = make_evaluation_id (ep_episode_id ep) (re_version ev)" "re_fingerprint ev = fp"
    "re_window_start ev = ws" "re_window_end ev = we"
    "re_classification ev = (if ?qs \<noteq> [] then SEGMENT_SPECIFIC else SYSTEMIC)" by blast
  note rows = ranked_rows[OF ok' dist dims refl, of ev]
  have "length (rank_candidates ?qs) = length ?qs" by (simp add: rank_candidates_def)
  then have "rank_candidates ?qs = [] \<longleftrightarrow> ?qs = []" by (metis length_0_conv)
  moreover have "qualifying_segments db ws we = map result_key ?qs"
    using qkeys by (simp add: qualifying_segments_def tot(1))
  ultimately have "rca_outcome ep db ev (map (candidate_row (re_evaluation_id ev)) (rank_candidates ?qs))"
    using ev rows by (auto simp: rca_outcome_def)
  with ev show ?thesis by blast
qed


definition same_inputs :: "('a rca_db_scheme) \<Rightarrow> ('a rca_db_scheme) \<Rightarrow> bool" where
  "same_inputs db db' \<longleftrightarrow>
     db_events db' = db_events db \<and> db_snapshots db' = db_snapshots db \<and> db_signals db' = db_signals db"

definition appended ::
  "degradation_episode \<Rightarrow> digest \<Rightarrow> ('a rca_db_scheme) \<Rightarrow> ('a rca_db_scheme) \<Rightarrow> bool" where
  "appended ep fp db db' \<longleftrightarrow>
     (\<exists>ev cands. db' = append_candidate_causes cands (append_rca_evaluation ev db) \<and>
        rca_outcome ep db ev cands \<and> re_fingerprint ev = fp)"

lemma append_no_candidates: "append_candidate_causes [] db = db"
  by (simp add: append_candidate_causes_def)

lemma appended_unknown:
  "appended ep fp db (persist_unknown_with_fingerprint now ep ws we reason fp st su db)"
  using persist_unknown_fp_outcome[of now ep ws we reason fp st su db] append_no_candidates
  unfolding appended_def by metis

lemma same_inputs_refl [simp]: "same_inputs db db"
  by (simp add: same_inputs_def)

lemma appended_unchanged: "appended ep fp db db' \<Longrightarrow> unchanged db' (ep_episode_id ep) fp"
  by (auto simp: appended_def rca_outcome_def intro!: unchanged_after_append)

lemma appended_same_inputs: "appended ep fp db db' \<Longrightarrow> same_inputs db db'"
  by (auto simp: appended_def same_inputs_def)

text \<open>The fingerprint a run computes for a window.\<close>

definition window_fingerprint ::
  "degradation_episode \<Rightarrow> datetime \<Rightarrow> datetime \<Rightarrow> ('a rca_db_scheme) \<Rightarrow> digest" where
  "window_fingerprint ep ws we db =
     (let events = get_episode_events db ws we in
      compute_input_fingerprint (ep_episode_id ep) (status_value (ep_status ep)) ws we
        (failure_count events) (terminal_count events)
        (if failure_count events < MIN_FAILURES_FOR_RCA_EVALUATION then []
         else concat (map sr_hist_tuples (evaluate_structural db events
                (get_all_historical_starts ws we HISTORICAL_WEEKS_BACK)))))"

lemma evaluate_in_window_outcome:
  "\<exists>db'. evaluate_in_window now ep ws we db = Inr db' \<and>
     (if unchanged db (ep_episode_id ep) (window_fingerprint ep ws we db) then db' = db
      else appended ep (window_fingerprint ep ws we db) db db')"
proof -
  let ?events = "get_episode_events db ws we"
    and ?hs = "get_all_historical_starts ws we HISTORICAL_WEEKS_BACK"
  let ?fp = "window_fingerprint ep ws we db" and ?tot = "episode_excess db ws we"
    and ?st = "evaluate_structural db (get_episode_events db ws we) (get_all_historical_starts ws we HISTORICAL_WEEKS_BACK)"
  show ?thesis
  proof (cases "failure_count ?events < MIN_FAILURES_FOR_RCA_EVALUATION")
    case True
    then have fp: "?fp = compute_input_fingerprint (ep_episode_id ep) (status_value (ep_status ep)) ws we
        (failure_count ?events) (terminal_count ?events) []"
      by (simp add: window_fingerprint_def Let_def)
    show ?thesis
      unfolding evaluate_in_window_def Let_def using True
      by (auto simp: fp[symmetric] persist_unknown_def Let_def appended_unknown)
  next
    case False
    then have fp: "?fp = compute_input_fingerprint (ep_episode_id ep) (status_value (ep_status ep)) ws we
        (failure_count ?events) (terminal_count ?events) (concat (map sr_hist_tuples ?st))"
      by (simp add: window_fingerprint_def Let_def)
    have tot: "compute_episode_total_excess_failures (failure_count ?events)
        (case episode_baseline_rate db ?hs of None \<Rightarrow> 0 | Some r \<Rightarrow> f_mul (float_of_int (terminal_count ?events)) r) = ?tot"
      by (simp add: episode_excess_def Let_def)
    show ?thesis
    proof (cases "unchanged db (ep_episode_id ep) ?fp \<or> ?tot \<le> 0")
      case True
      with False show ?thesis
        unfolding evaluate_in_window_def Let_def tot fp[symmetric] by (auto simp: appended_unknown)
    next
      case pos: False
      then have "0 < ?tot" by simp
      then obtain results where q: "qualify_results ?tot ?st = Inr results"
        using qualify_results_total[OF _ structural_fresh] by blast
      have "appended ep ?fp db (persist_classified now ep ws we (terminal_count ?events) (failure_count ?events) ?hs
          br ex ?tot su ?fp results db)" for br ex su
        using persist_classified_outcome[OF refl \<open>0 < ?tot\<close> q] unfolding appended_def by blast
      with False pos q show ?thesis
        unfolding evaluate_in_window_def Let_def tot fp[symmetric] by simp
    qed
  qed
qed


lemma evaluate_in_window_again:
  assumes "evaluate_in_window now ep ws we db = Inr db'"
  shows "evaluate_in_window now' ep ws we db' = Inr db' \<and> same_inputs db db'"
proof -
  let ?fp = "window_fingerprint ep ws we"
  have same: "same_inputs db db'" and un: "unchanged db' (ep_episode_id ep) (?fp db)"
    using evaluate_in_window_outcome[of now ep ws we db] assms
    by (auto dest: appended_same_inputs appended_unchanged split: if_splits)
  have "get_episode_events db' ws we = get_episode_events db ws we"
    using same by (simp add: get_episode_events_def same_inputs_def)
  moreover have "get_hist_snapshot_for_dim db' = get_hist_snapshot_for_dim db"
    using same by (auto simp: get_hist_snapshot_for_dim_def same_inputs_def fun_eq_iff)
  then have "evaluate_structural db' = evaluate_structural db"
    by (auto simp: evaluate_structural_def evaluate_structural_candidate_def fun_eq_iff)
  ultimately have "?fp db' = ?fp db" by (simp add: window_fingerprint_def cong: if_cong)
  with evaluate_in_window_outcome[of now' ep ws we db'] un same show ?thesis by auto
qed

lemma persist_unknown_outcome:
  "persist_unknown now ep ws we r n f hs db = db \<or>
   (\<exists>fp. appended ep fp db (persist_unknown now ep ws we r n f hs db))"
proof (cases "persist_unknown now ep ws we r n f hs db = db")
  case False
  then have "persist_unknown now ep ws we r n f hs db = persist_unknown_with_fingerprint now ep ws we r
      (compute_input_fingerprint (ep_episode_id ep) (status_value (ep_status ep)) ws we f n hs) [] [] db"
    by (simp add: persist_unknown_def Let_def split: if_splits)
  then show ?thesis by (simp only:) (blast intro: appended_unknown)
qed simp

lemma persist_unknown_again:
  "persist_unknown now' ep ws we r n f hs (persist_unknown now ep ws we r n f hs db) =
   persist_unknown now ep ws we r n f hs db"
  unfolding persist_unknown_def Let_def by (simp add: appended_unchanged[OF appended_unknown])

section \<open>Properties\<close>

text \<open>C8: What a run of Stage 4 stores. It can only fail with the ValueError of an undefined analysis
  window; otherwise the database is unchanged, or exactly one evaluation with the next version of
  the episode and the id derived from it is appended together with its candidates: every candidate
  meets all thresholds and has the strength its numbers imply, ranks are 1 to n in the order of
  contribution, failures, dimension and value, candidate ids are distinct, SEGMENT_SPECIFIC has
  exactly the qualifying segments as candidates, SYSTEMIC means none qualifies, UNKNOWN has none.\<close>

theorem evaluate_episode_outcome:
  "case evaluate_episode now ep db of
     Inl e \<Rightarrow> e = ValueError
   | Inr db' \<Rightarrow> db' = db \<or>
       (\<exists>ev cands. db' = append_candidate_causes cands (append_rca_evaluation ev db) \<and>
          rca_outcome ep db ev cands)"
proof (cases "ep_status ep = INVALIDATED")
  case True
  let ?db' = "persist_unknown now ep (ep_started_at ep) (ep_started_at ep + minutes 5)
      ''Episode invalidated by Stage 3.'' 0 0 [] db"
  have "?db' = db \<or> (\<exists>fp. appended ep fp db ?db')"
    by (rule persist_unknown_outcome)
  then have "?db' = db \<or> (\<exists>ev cands. ?db' = append_candidate_causes cands (append_rca_evaluation ev db) \<and>
      rca_outcome ep db ev cands)"
    unfolding appended_def by blast
  moreover have "evaluate_episode now ep db = Inr ?db'" using True by (simp add: evaluate_episode_def)
  ultimately show ?thesis by (simp only: sum.case)
next
  case False
  show ?thesis
  proof (cases "compute_analysis_window (ep_started_at ep) (ep_ended_at ep) (get_latest_bad_window_start db ep) (ep_status ep)")
    case (Inl e)
    then have "e = ValueError"
      by (auto simp: compute_analysis_window_def split: episode_status.splits option.splits)
    with Inl False show ?thesis by (simp add: evaluate_episode_def)
  next
    case (Inr w)
    obtain db' where "evaluate_in_window now ep (fst w) (snd w) db = Inr db'"
        "db' = db \<or> (\<exists>fp. appended ep fp db db')"
      using evaluate_in_window_outcome[of now ep "fst w" "snd w" db] by (metis (full_types))
    with Inr False show ?thesis unfolding evaluate_episode_def appended_def by (auto simp: case_prod_beta)
  qed
qed

text \<open>Stage 4 is idempotent: evaluating the same episode again, at any later time, on the database
  a run left finds the fingerprint of the latest evaluation unchanged and changes nothing.\<close>

lemma evaluate_episode_idempotent:
  "case evaluate_episode now ep db of
     Inl _ \<Rightarrow> True
   | Inr db' \<Rightarrow> evaluate_episode now' ep db' = Inr db'"
proof (cases "ep_status ep = INVALIDATED")
  case True
  then show ?thesis by (simp add: evaluate_episode_def persist_unknown_again)
next
  case False
  let ?w = "\<lambda>db. compute_analysis_window (ep_started_at ep) (ep_ended_at ep) (get_latest_bad_window_start db ep) (ep_status ep)"
  show ?thesis
  proof (cases "evaluate_episode now ep db")
    case (Inr db')
    then obtain w where w: "?w db = Inr w" "evaluate_in_window now ep (fst w) (snd w) db = Inr db'"
      using False by (auto simp: evaluate_episode_def bind_result_Inr)
    note again = evaluate_in_window_again[OF w(2)]
    then have "?w db' = ?w db" by (simp add: get_latest_bad_window_start_def same_inputs_def)
    with w(1) again Inr False show ?thesis by (simp add: evaluate_episode_def case_prod_beta)
  qed simp
qed

text \<open>Stage 2 labels its global segment ALL.\<close>

definition global_all :: "snapshot \<Rightarrow> bool" where
  "global_all s \<longleftrightarrow> \<not> (hs_dimension s = ''GLOBAL'' \<and> hs_value s \<noteq> ''ALL'')"

lemma segments_of_global:
  "fst ` set (segments_of ''GLOBAL'' ws we events) \<subseteq> {''ALL''}"
proof (induction events rule: rev_induct)
  case (snoc e events)
  moreover have "fst ` set (segments_of ''GLOBAL'' ws we [e]) \<subseteq> {''ALL''}"
    by (auto simp: segments_of_single get_segment_value_def)
  ultimately show ?case
    by (cases "events = []") (simp_all add: segments_of_snoc get_segment_value_def keys_add_to_segment)
qed simp

lemma calculate_global_all:
  "list_all global_all (calculate_health_metrics_for_window ids now events ws we th)"
  using segments_of_global unfolding list_all_iff
  by (fastforce elim!: in_calculate simp: global_all_def)

lemma attach_baselines_global:
  "list_all global_all ss \<Longrightarrow> list_all (\<lambda>i. i < length ss) is \<Longrightarrow> list_all global_all (attach_baselines f is ss)"
proof (induction "is" arbitrary: ss)
  case (Cons i "is")
  let ?u = "(ss ! i)\<lparr>hs_baseline_success_rate := f (ss ! i)\<rparr>"
  have "global_all (ss ! i)" using Cons.prems by (auto simp: list_all_iff)
  then have "global_all ?u" by (simp add: global_all_def)
  then have "list_all global_all (ss[index_of (ss ! i) ss := ?u])"
    using Cons.prems(1) by (auto simp: list_all_iff dest: subsetD[OF set_update_subset_insert])
  with Cons show ?case by (simp add: Let_def)
qed simp

lemma upsert_global: "global_all s \<Longrightarrow> list_all global_all rs \<Longrightarrow> list_all global_all (upsert_row s rs)"
  by (induction s rs rule: upsert_row.induct) (auto simp: global_all_def)

lemma calculate_and_save_global:
  assumes "list_all global_all (db_snapshots db)"
  shows "list_all global_all (db_snapshots (calculate_and_save_window ids now ws we db))"
proof -
  have "list_all global_all rs \<Longrightarrow> list_all global_all ss \<Longrightarrow> list_all global_all (fold upsert_row ss rs)" for ss rs
    by (induction ss arbitrary: rs) (auto simp: upsert_global)
  with assms show ?thesis
    by (simp add: calculate_and_save_window_def Let_def upsert_snapshots_def attach_baselines_global
        calculate_global_all list_all_iff[where P = "\<lambda>i. i < _"])
qed

text \<open>The historical baseline of an episode is never found. However many windows Stage 2 has
  computed, the query of Stage 4 for the snapshots of segment (GLOBAL, GLOBAL) is empty, because
  Stage 2 stores its global segment as (GLOBAL, ALL); so the expected failures are always 0 and
  every failure counts as excess.\<close>

lemma episode_baseline_never_found:
  "episode_baseline_rate
     (fold (\<lambda>(ids, now, ws, we). calculate_and_save_window ids now ws we) runs
        (db\<lparr>db_snapshots := []\<rparr>)) hist_starts = None"
proof -
  have "list_all global_all (db_snapshots (fold (\<lambda>(ids, now, ws, we). calculate_and_save_window ids now ws we) runs d))"
    if "list_all global_all (db_snapshots d)" for d :: "'a rca_db_scheme"
    using that by (induction runs arbitrary: d) (auto simp: calculate_and_save_global)
  from this[of "db\<lparr>db_snapshots := []\<rparr>"]
  have "get_hist_snapshot_for_dim (fold (\<lambda>(ids, now, ws, we). calculate_and_save_window ids now ws we) runs
        (db\<lparr>db_snapshots := []\<rparr>)) hist_starts ''GLOBAL'' ''GLOBAL'' = []"
    by (auto simp: get_hist_snapshot_for_dim_def list_all_iff global_all_def filter_empty_conv)
  then show ?thesis by (simp add: episode_baseline_rate_def MIN_VALID_HISTORICAL_WINDOWS_def)
qed

text \<open>The analysis window of a recovered episode ends at the start of its last BAD window: the
  window of that signal, which the episode counts as affected, is not analysed.\<close>

lemma recovered_window_excludes_last_bad:
  "case reconcile_timeline (get_latest_signals_for_segment db sdim sval) of
     Inl _ \<Rightarrow> False
   | Inr episodes \<Rightarrow>
       list_all (\<lambda>ep. case ep_ended_at ep of
           None \<Rightarrow> ep_status ep = ACTIVE
         | Some u \<Rightarrow>
             compute_analysis_window (ep_started_at ep) (ep_ended_at ep) None (ep_status ep) =
               Inr (ep_started_at ep, u) \<and>
             u \<in> sig_window_start ` set (affected_signals (get_latest_signals_for_segment db sdim sval) ep))
         episodes"
proof -
  obtain eps where eps: "reconcile_timeline (get_latest_signals_for_segment db sdim sval) = Inr eps"
    "list_all (episode_of sdim sval (get_latest_signals_for_segment db sdim sval)) eps"
    using latest_signals_replay by blast
  have last_mem: "3 \<le> length xs \<Longrightarrow> last xs \<in> set xs" for xs :: "degradation_signal list"
    by (cases xs) auto
  have "case ep_ended_at ep of
           None \<Rightarrow> ep_status ep = ACTIVE
         | Some u \<Rightarrow>
             compute_analysis_window (ep_started_at ep) (ep_ended_at ep) None (ep_status ep) =
               Inr (ep_started_at ep, u) \<and>
             u \<in> sig_window_start ` set (affected_signals (get_latest_signals_for_segment db sdim sval) ep)"
    if "ep \<in> set eps" for ep
  proof -
    have e: "episode_of sdim sval (get_latest_signals_for_segment db sdim sval) ep"
      using eps(2) that by (simp add: list_all_iff)
    show ?thesis
      using e last_mem by (cases "ep_ended_at ep")
        (auto simp: episode_of_def Let_def compute_analysis_window_def)
  qed
  then show ?thesis using eps(1) by (simp add: list_all_iff)
qed

section \<open>The window loop returns\<close>

text \<open>The \<open>while\<close> loop over the five-minute windows, as the code writes it: its state is the current window and the result so far.\<close>

definition window_loop ::
  "datetime \<Rightarrow> datetime \<Rightarrow> int \<Rightarrow> (datetime \<times> (datetime \<times> datetime list) list) option" where
  "window_loop analysis_window_start analysis_window_end weeks_back =
     while_option (\<lambda>(current, starts). current < analysis_window_end)
       (\<lambda>(current, starts). (current + minutes 5, starts @ [(current, map (\<lambda>i. current - weeks i) [1..weeks_back])]))
       (analysis_window_start, [])"

definition window_count :: "datetime \<Rightarrow> datetime \<Rightarrow> nat" where
  "window_count a e = nat ((e - a + minutes 5 - 1) div minutes 5)"

lemma window_count_step: "window_count a e = (if a < e then Suc (window_count (a + minutes 5) e) else 0)"
proof (cases "a < e")
  case True
  have "(e - a + minutes 5 - 1) div minutes 5 = (e - (a + minutes 5) + minutes 5 - 1) div minutes 5 + 1"
    using div_add_self2[of "minutes 5" "e - a - 1"] by (simp add: minutes_def algebra_simps)
  moreover have "0 \<le> (e - (a + minutes 5) + minutes 5 - 1) div minutes 5"
    using True by (simp add: minutes_def)
  ultimately show ?thesis using True by (simp add: window_count_def)
next
  case False
  then have "(e - a + minutes 5 - 1) div minutes 5 \<le> 0" by (simp add: minutes_def)
  with False show ?thesis by (simp add: window_count_def)
qed

lemma historical_windows_closed:
  "get_historical_window_starts a e n =
     map (\<lambda>k. let current = a + int k * minutes 5 in (current, map (\<lambda>i. current - weeks i) [1..n])) [0..<window_count a e]"
proof (induction a e n rule: get_historical_window_starts.induct)
  case (1 a e n)
  show ?case
  proof (cases "a < e")
    case True
    have shift: "map (\<lambda>k. f (a + int k * minutes 5)) [0..<Suc m] = f a # map (\<lambda>k. f (a + minutes 5 + int k * minutes 5)) [0..<m]"
      for f :: "datetime \<Rightarrow> datetime \<times> datetime list" and m
      by (simp add: map_upt_Suc algebra_simps del: upt_Suc)
    from 1[OF True] True window_count_step[of a e] show ?thesis
      using shift[of "\<lambda>c. (c, map (\<lambda>i. c - weeks i) [1..n])" "window_count (a + minutes 5) e"]
      by (subst get_historical_window_starts.simps) (simp add: Let_def del: upt_Suc)
  next
    case False
    then show ?thesis using window_count_step[of a e] by (subst get_historical_window_starts.simps) simp
  qed
qed

lemma window_loop_from:
  "while_option (\<lambda>(current, starts). current < e)
     (\<lambda>(current, starts). (current + minutes 5, starts @ [(current, map (\<lambda>i. current - weeks i) [1..n])])) (a, acc) =
   Some (a + int (window_count a e) * minutes 5, acc @ get_historical_window_starts a e n)"
proof (induction a e n arbitrary: acc rule: get_historical_window_starts.induct)
  case (1 a e n)
  show ?case
  proof (cases "a < e")
    case True
    then show ?thesis
      using 1[OF True] window_count_step[of a e] get_historical_window_starts.simps[of a e n]
      by (subst while_option_unfold) (simp add: algebra_simps)
  next
    case False
    then show ?thesis
      using window_count_step[of a e] get_historical_window_starts.simps[of a e n] by (subst while_option_unfold) simp
  qed
qed

text \<open>C34: The loop over the windows of an episode returns, for every start, end and number of weeks (an empty or
  inverted window included): it stops after exactly the number of five-minute windows that begin before the
  end, at the first grid point that is not before the end, and what it has collected is, window by window, the
  same weekday and time of day in each of the previous weeks, newest first, which is what the recursive
  definition used by the root cause analysis computes.\<close>

theorem window_loop_returns:
  "window_loop a e n =
     Some (a + int (window_count a e) * minutes 5,
       map (\<lambda>k. let current = a + int k * minutes 5 in (current, map (\<lambda>i. current - weeks i) [1..n])) [0..<window_count a e]) \<and>
   get_historical_window_starts a e n =
     map (\<lambda>k. let current = a + int k * minutes 5 in (current, map (\<lambda>i. current - weeks i) [1..n])) [0..<window_count a e] \<and>
   e \<le> a + int (window_count a e) * minutes 5 \<and>
   (if a < e then a + int (window_count a e) * minutes 5 < e + minutes 5 else window_count a e = 0)"
proof -
  have "window_loop a e n = Some (a + int (window_count a e) * minutes 5, get_historical_window_starts a e n)"
    by (simp add: window_loop_def window_loop_from)
  moreover have "e \<le> a + int (window_count a e) * minutes 5 \<and>
      (if a < e then a + int (window_count a e) * minutes 5 < e + minutes 5 else window_count a e = 0)"
    by (simp add: window_count_def minutes_def) linarith
  ultimately show ?thesis using historical_windows_closed[of a e n] by simp
qed

end
