(* ===== verification/Attempts.thy ===== *)
theory Attempts
  imports Rca
begin

text \<open>
  The identity of the payment attempts of Stages 5 to 8 (\<open>payment_attempts.py\<close>), the registry that
  owns them (\<open>payment_attempt_repository.py\<close>), the PayPal lifecycle contract
  (\<open>paypal_lifecycle.py\<close>), and the queries by which the later stages select the events of an attempt.
\<close>

section \<open>Attempt identity\<close>

definition PAYPAL_ATTEMPT_PREFIX :: string where "PAYPAL_ATTEMPT_PREFIX = ''paypal-order:''"
definition PIPELINE_TRIGGER_EVENT_TYPE :: string where "PIPELINE_TRIGGER_EVENT_TYPE = ''payment.authorized''"
definition PAYPAL_TRIGGER_EVENT_TYPE :: string where "PAYPAL_TRIGGER_EVENT_TYPE = ''order.approved''"

lemmas attempt_consts = PAYPAL_ATTEMPT_PREFIX_def PIPELINE_TRIGGER_EVENT_TYPE_def
  PAYPAL_TRIGGER_EVENT_TYPE_def TERMINAL_EVENT_TYPES_def

text \<open>\<open>[A-Za-z0-9]\<close> and \<open>[A-Za-z0-9_-]\<close>\<close>

definition is_alnum :: "char \<Rightarrow> bool" where
  "is_alnum c \<longleftrightarrow>
     (let n = (of_char c :: nat) in 48 \<le> n \<and> n \<le> 57 \<or> 65 \<le> n \<and> n \<le> 90 \<or> 97 \<le> n \<and> n \<le> 122)"

definition is_identifier_char :: "char \<Rightarrow> bool" where
  "is_identifier_char c \<longleftrightarrow> is_alnum c \<or> c = CHR ''_'' \<or> c = CHR ''-''"

definition is_paypal_identifier :: "string \<Rightarrow> bool" where
  "is_paypal_identifier s \<longleftrightarrow>
     (case s of [] \<Rightarrow> False
      | c # cs \<Rightarrow> is_alnum c \<and> list_all is_identifier_char cs \<and> length cs \<le> 127)"

definition paypal_attempt_id :: "string \<Rightarrow> string" where
  "paypal_attempt_id order_id = PAYPAL_ATTEMPT_PREFIX @ order_id"

text \<open>\<open>s.startswith(p)\<close> is \<open>prefix p s\<close>.\<close>

definition paypal_order_id :: "string \<Rightarrow> string option" where
  "paypal_order_id payment_attempt_id =
     (if prefix PAYPAL_ATTEMPT_PREFIX payment_attempt_id
      then let r = drop (length PAYPAL_ATTEMPT_PREFIX) payment_attempt_id
           in if r = [] then None else Some r
      else None)"

record attempt_ref =
  ar_source_system :: string
  ar_payment_attempt_id :: string
  ar_provider_reference :: string

definition ar_is_paypal :: "attempt_ref \<Rightarrow> bool" where
  "ar_is_paypal ref \<longleftrightarrow> ar_source_system ref = PAYPAL_SOURCE_SYSTEM"

definition attempt_ref_valid :: "attempt_ref \<Rightarrow> bool" where
  "attempt_ref_valid ref \<longleftrightarrow>
     (if ar_is_paypal ref
      then is_paypal_identifier (ar_provider_reference ref) \<and>
           ar_payment_attempt_id ref = paypal_attempt_id (ar_provider_reference ref)
      else ar_provider_reference ref \<noteq> [] \<and>
           ar_payment_attempt_id ref = ar_provider_reference ref \<and>
           \<not> prefix PAYPAL_ATTEMPT_PREFIX (ar_payment_attempt_id ref))"

definition new_attempt_ref :: "string \<Rightarrow> string \<Rightarrow> string \<Rightarrow> (exn, attempt_ref) result" where
  "new_attempt_ref source_system payment_attempt_id provider_reference =
     (let ref = \<lparr>ar_source_system = source_system, ar_payment_attempt_id = payment_attempt_id,
                 ar_provider_reference = provider_reference\<rparr>
      in if source_system \<notin> set PIPELINE_PROVIDERS then Inl UnsupportedProviderError
         else if \<not> attempt_ref_valid ref then Inl InvalidAttemptIdentityError
         else Inr ref)"

definition for_key :: "string \<Rightarrow> string \<Rightarrow> (exn, attempt_ref) result" where
  "for_key source_system payment_attempt_id =
     (let reference =
            (if source_system = PAYPAL_SOURCE_SYSTEM
             then case paypal_order_id payment_attempt_id of Some r \<Rightarrow> r | None \<Rightarrow> []
             else payment_attempt_id)
      in new_attempt_ref source_system payment_attempt_id reference)"

definition for_trigger_event :: "payment_event \<Rightarrow> (exn, attempt_ref) result" where
  "for_trigger_event event =
     (let expected = (if ev_source_system event = PAYPAL_SOURCE_SYSTEM
                      then PAYPAL_TRIGGER_EVENT_TYPE else PIPELINE_TRIGGER_EVENT_TYPE)
      in if ev_event_type event \<noteq> expected then Inl InvalidAttemptIdentityError
         else if ev_source_system event = PAYPAL_SOURCE_SYSTEM
         then new_attempt_ref PAYPAL_SOURCE_SYSTEM (paypal_attempt_id (ev_payment_id event)) (ev_payment_id event)
         else new_attempt_ref (ev_source_system event) (ev_payment_id event) (ev_payment_id event))"

definition recorded_provider :: "string option \<Rightarrow> (exn, string) result" where
  "recorded_provider source_system =
     (case source_system of None \<Rightarrow> Inl ProviderIdentityMissingError | Some s \<Rightarrow> Inr s)"

definition validate_provider :: "string option \<Rightarrow> (exn, string) result" where
  "validate_provider source_system =
     (case source_system of
        None \<Rightarrow> Inl ProviderIdentityMissingError
      | Some s \<Rightarrow> if s \<notin> set PIPELINE_PROVIDERS then Inl UnsupportedProviderError else Inr s)"

section \<open>The role of an event\<close>

datatype pipeline_role = TRIGGER | TERMINAL

record pipeline_attempt =
  pa_role :: pipeline_role
  pa_ref :: attempt_ref

definition in_paypal_attempt_namespace :: "payment_event \<Rightarrow> bool" where
  "in_paypal_attempt_namespace event \<longleftrightarrow>
     ev_source_system event \<noteq> PAYPAL_SOURCE_SYSTEM \<and> paypal_order_id (ev_payment_id event) \<noteq> None"

definition candidate_role :: "payment_event \<Rightarrow> (pipeline_role \<times> string) option" where
  "candidate_role event =
     (if ev_source_system event = PAYPAL_SOURCE_SYSTEM then
        if ev_event_type event = PAYPAL_TRIGGER_EVENT_TYPE \<and> ev_payment_id event \<noteq> []
        then Some (TRIGGER, paypal_attempt_id (ev_payment_id event))
        else if ev_event_type event \<in> set TERMINAL_EVENT_TYPES
        then case ev_order_id event of
               None \<Rightarrow> None
             | Some order \<Rightarrow> if order = [] then None else Some (TERMINAL, paypal_attempt_id order)
        else None
      else if ev_event_type event = PIPELINE_TRIGGER_EVENT_TYPE then Some (TRIGGER, ev_payment_id event)
      else if ev_event_type event \<in> set TERMINAL_EVENT_TYPES then Some (TERMINAL, ev_payment_id event)
      else None)"

text \<open>The refusal is a message in the code; here, what it reports.\<close>

datatype refusal = UsesPayPalNamespace | IdentityRefused exn

definition pipeline_attempt_refusal :: "payment_event \<Rightarrow> refusal option" where
  "pipeline_attempt_refusal event =
     (if in_paypal_attempt_namespace event then Some UsesPayPalNamespace
      else case candidate_role event of
             None \<Rightarrow> None
           | Some (_, key) \<Rightarrow>
               (case for_key (ev_source_system event) key of
                  Inl e \<Rightarrow> Some (IdentityRefused e) | Inr _ \<Rightarrow> None))"

text \<open>The second \<open>for_key\<close> would raise what the refusal has already ruled out.\<close>

definition resolve_pipeline_attempt :: "payment_event \<Rightarrow> (exn, pipeline_attempt option) result" where
  "resolve_pipeline_attempt event =
     (if pipeline_attempt_refusal event \<noteq> None then Inr None
      else case candidate_role event of
             None \<Rightarrow> Inr None
           | Some (role, key) \<Rightarrow>
               bind_result (for_key (ev_source_system event) key)
                 (\<lambda>ref. Inr (Some \<lparr>pa_role = role, pa_ref = ref\<rparr>)))"

section \<open>Events of a PayPal attempt\<close>

definition paypal_trigger_events :: "string \<Rightarrow> payment_event \<Rightarrow> bool" where
  "paypal_trigger_events order_id e \<longleftrightarrow>
     ev_source_system e = PAYPAL_SOURCE_SYSTEM \<and> ev_event_type e = PAYPAL_TRIGGER_EVENT_TYPE \<and>
     ev_payment_id e = order_id"

definition paypal_terminal_events :: "string \<Rightarrow> payment_event \<Rightarrow> bool" where
  "paypal_terminal_events order_id e \<longleftrightarrow>
     ev_source_system e = PAYPAL_SOURCE_SYSTEM \<and> ev_event_type e \<in> set TERMINAL_EVENT_TYPES \<and>
     ev_order_id e = Some order_id"

section \<open>The registry\<close>

record attempt_row =
  at_payment_attempt_id :: string
  at_source_system :: string
  at_provider_reference :: string
  at_trigger_event_id :: uuid
  at_registered_at :: datetime

record registered_attempt =
  ra_ref :: attempt_ref
  ra_trigger_event_id :: uuid
  ra_registered_at :: datetime

record attempts_db = rca_db +
  db_attempts :: "attempt_row list"

definition lookup_attempt :: "('a attempts_db_scheme) \<Rightarrow> string \<Rightarrow> attempt_row option" where
  "lookup_attempt db k = find (\<lambda>r. at_payment_attempt_id r = k) (db_attempts db)"

text \<open>\<open>ON CONFLICT (payment_attempt_id) DO NOTHING\<close>\<close>

definition insert_attempt :: "attempt_row \<Rightarrow> ('a attempts_db_scheme) \<Rightarrow> ('a attempts_db_scheme)" where
  "insert_attempt row db =
     (if lookup_attempt db (at_payment_attempt_id row) = None
      then db\<lparr>db_attempts := db_attempts db @ [row]\<rparr> else db)"

definition require_attempt ::
  "('a attempts_db_scheme) \<Rightarrow> attempt_ref \<Rightarrow> (exn, registered_attempt) result" where
  "require_attempt db ref =
     (case lookup_attempt db (ar_payment_attempt_id ref) of
        None \<Rightarrow> Inl AttemptNotRegisteredError
      | Some row \<Rightarrow>
          if (at_source_system row, at_provider_reference row) \<noteq> (ar_source_system ref, ar_provider_reference ref)
          then Inl AttemptProviderConflictError
          else Inr \<lparr>ra_ref = ref, ra_trigger_event_id = at_trigger_event_id row,
                    ra_registered_at = at_registered_at row\<rparr>)"

text \<open>
  A new row also has to satisfy \<open>fk_payment_attempt_trigger\<close> (the trigger event is stored under the
  same provider) and \<open>uq_payment_attempt_reference\<close>; the database raises \<open>IntegrityError\<close> otherwise.
\<close>

definition attempt_row_accepted :: "('a attempts_db_scheme) \<Rightarrow> attempt_row \<Rightarrow> bool" where
  "attempt_row_accepted db row \<longleftrightarrow>
     list_ex (\<lambda>e. ev_event_id e = at_trigger_event_id row \<and> ev_source_system e = at_source_system row)
       (db_events db) \<and>
     \<not> list_ex (\<lambda>r. at_source_system r = at_source_system row \<and>
                    at_provider_reference r = at_provider_reference row) (db_attempts db)"

definition register_attempt ::
  "datetime \<Rightarrow> payment_event \<Rightarrow> ('a attempts_db_scheme)
     \<Rightarrow> (exn, registered_attempt \<times> 'a attempts_db_scheme) result" where
  "register_attempt now trigger_event db =
     bind_result (for_trigger_event trigger_event) (\<lambda>ref.
       let row = \<lparr>at_payment_attempt_id = ar_payment_attempt_id ref,
                  at_source_system = ar_source_system ref,
                  at_provider_reference = ar_provider_reference ref,
                  at_trigger_event_id = ev_event_id trigger_event,
                  at_registered_at = now\<rparr>
       in if lookup_attempt db (ar_payment_attempt_id ref) = None \<and> \<not> attempt_row_accepted db row
          then Inl IntegrityError
          else let db' = insert_attempt row db
               in bind_result (require_attempt db' ref) (\<lambda>r. Inr (r, db')))"

section \<open>The PayPal lifecycle\<close>

datatype lifecycle_class =
    ORDER_CONSENT | ORDER_INFORMATIONAL | CAPTURE_PENDING | CAPTURE_SUCCEEDED | CAPTURE_FAILED | REFUND

datatype capture_outcome = CAPTURED | FAILED

datatype order_correlation = CORRELATABLE | NOT_CORRELATABLE

definition PAYPAL_LIFECYCLE_CLASSES :: "string \<Rightarrow> lifecycle_class option" where
  "PAYPAL_LIFECYCLE_CLASSES = map_of
     [(''order.approved'', ORDER_CONSENT), (''order.completed'', ORDER_INFORMATIONAL),
      (''payment.pending'', CAPTURE_PENDING), (''payment.captured'', CAPTURE_SUCCEEDED),
      (''payment.failed'', CAPTURE_FAILED), (''payment.refunded'', REFUND)]"

definition CAPTURE_CLASSES :: "lifecycle_class list" where
  "CAPTURE_CLASSES = [CAPTURE_PENDING, CAPTURE_SUCCEEDED, CAPTURE_FAILED]"

definition TERMINAL_CAPTURE_OUTCOMES :: "lifecycle_class \<Rightarrow> capture_outcome option" where
  "TERMINAL_CAPTURE_OUTCOMES = map_of [(CAPTURE_SUCCEEDED, CAPTURED), (CAPTURE_FAILED, FAILED)]"

definition PAYMENT_SIZING_CLASSES :: "lifecycle_class list" where
  "PAYMENT_SIZING_CLASSES = [ORDER_CONSENT]"

definition CAPTURED_GMV_CLASSES :: "lifecycle_class list" where
  "CAPTURED_GMV_CLASSES = [CAPTURE_SUCCEEDED]"

definition classify_paypal_event :: "payment_event \<Rightarrow> (exn, lifecycle_class) result" where
  "classify_paypal_event event =
     (if ev_source_system event \<noteq> PAYPAL_SOURCE_SYSTEM then Inl PayPalLifecycleError
      else case PAYPAL_LIFECYCLE_CLASSES (ev_event_type event) of
             None \<Rightarrow> Inl PayPalLifecycleError | Some c \<Rightarrow> Inr c)"

definition is_terminal_capture :: "payment_event \<Rightarrow> (exn, bool) result" where
  "is_terminal_capture event =
     bind_result (classify_paypal_event event) (\<lambda>c. Inr (TERMINAL_CAPTURE_OUTCOMES c \<noteq> None))"

definition capture_outcome_of :: "payment_event \<Rightarrow> (exn, capture_outcome option) result" where
  "capture_outcome_of event =
     bind_result (classify_paypal_event event) (\<lambda>c. Inr (TERMINAL_CAPTURE_OUTCOMES c))"

definition is_payment_sizing_event :: "payment_event \<Rightarrow> (exn, bool) result" where
  "is_payment_sizing_event event =
     bind_result (classify_paypal_event event) (\<lambda>c. Inr (c \<in> set PAYMENT_SIZING_CLASSES))"

definition counts_as_captured_gmv :: "payment_event \<Rightarrow> (exn, bool) result" where
  "counts_as_captured_gmv event =
     bind_result (classify_paypal_event event) (\<lambda>c. Inr (c \<in> set CAPTURED_GMV_CLASSES))"

definition capture_id_of :: "payment_event \<Rightarrow> (exn, string option) result" where
  "capture_id_of event =
     bind_result (classify_paypal_event event)
       (\<lambda>c. Inr (if c \<in> set CAPTURE_CLASSES then Some (ev_payment_id event) else None))"

definition refunded_capture_id_of :: "payment_event \<Rightarrow> (exn, string option) result" where
  "refunded_capture_id_of event =
     bind_result (classify_paypal_event event)
       (\<lambda>c. Inr (if c = REFUND then Some (ev_payment_id event) else None))"

definition order_correlation_key :: "payment_event \<Rightarrow> (exn, string option) result" where
  "order_correlation_key event =
     bind_result (classify_paypal_event event)
       (\<lambda>_. Inr (if truthy (ev_order_id event) then ev_order_id event else None))"

definition order_correlation_of :: "payment_event \<Rightarrow> (exn, order_correlation) result" where
  "order_correlation_of event =
     bind_result (order_correlation_key event)
       (\<lambda>k. Inr (if k = None then NOT_CORRELATABLE else CORRELATABLE))"

section \<open>Lemmas\<close>

lemma append_prefix_id [simp]:
  "prefix PAYPAL_ATTEMPT_PREFIX (paypal_attempt_id s)"
  "drop (length PAYPAL_ATTEMPT_PREFIX) (paypal_attempt_id s) = s"
  "paypal_attempt_id s = paypal_attempt_id t \<longleftrightarrow> s = t"
  by (simp_all add: paypal_attempt_id_def)

lemma paypal_order_id_attempt: "paypal_order_id (paypal_attempt_id s) = (if s = [] then None else Some s)"
  by (simp add: paypal_order_id_def Let_def)

lemma paypal_order_id_Some: "paypal_order_id k = Some r \<longleftrightarrow> k = paypal_attempt_id r \<and> r \<noteq> []"
  by (auto simp: paypal_order_id_def Let_def paypal_attempt_id_def prefix_def split: if_splits)

lemma new_attempt_ref_Inr:
  "new_attempt_ref s k r = Inr ref \<longleftrightarrow>
     ref = \<lparr>ar_source_system = s, ar_payment_attempt_id = k, ar_provider_reference = r\<rparr> \<and>
     s \<in> set PIPELINE_PROVIDERS \<and> attempt_ref_valid ref"
  by (auto simp: new_attempt_ref_def Let_def)

lemma valid_ref_namespace:
  "attempt_ref_valid ref \<Longrightarrow> prefix PAYPAL_ATTEMPT_PREFIX (ar_payment_attempt_id ref) \<longleftrightarrow> ar_is_paypal ref"
  by (auto simp: attempt_ref_valid_def split: if_splits)

lemma valid_ref_key:
  "attempt_ref_valid ref \<Longrightarrow>
     ar_provider_reference ref =
       (if prefix PAYPAL_ATTEMPT_PREFIX (ar_payment_attempt_id ref)
        then drop (length PAYPAL_ATTEMPT_PREFIX) (ar_payment_attempt_id ref)
        else ar_payment_attempt_id ref)"
  by (auto simp: attempt_ref_valid_def split: if_splits)

lemma is_paypal_identifier_Nil [simp]: "is_paypal_identifier [] = False"
  by (simp add: is_paypal_identifier_def)

lemma for_key_of_valid:
  assumes "attempt_ref_valid ref" and "ar_source_system ref \<in> set PIPELINE_PROVIDERS"
  shows "for_key (ar_source_system ref) (ar_payment_attempt_id ref) = Inr ref"
  using assms
  by (cases ref) (auto simp: for_key_def Let_def new_attempt_ref_Inr attempt_ref_valid_def ar_is_paypal_def
      paypal_order_id_attempt split: if_splits)


lemma attempt_lookup_append:
  "lookup_attempt (insert_attempt row db) k =
     (if k = at_payment_attempt_id row
      then Some (case lookup_attempt db k of None \<Rightarrow> row | Some old \<Rightarrow> old) else lookup_attempt db k)"
  by (auto simp: insert_attempt_def lookup_attempt_def find_append split: option.splits)

interpretation attempt_table: keyed_table lookup_attempt at_payment_attempt_id insert_attempt "\<lambda>old new. old"
  by unfold_locales (simp_all add: attempt_lookup_append)

lemma candidate_role_key:
  "candidate_role e = Some (role, k) \<Longrightarrow> ev_source_system e = PAYPAL_SOURCE_SYSTEM \<Longrightarrow>
     \<exists>r. k = paypal_attempt_id r"
  by (auto simp: candidate_role_def split: if_splits option.splits)

lemma for_key_Inr:
  "for_key s k = Inr ref \<Longrightarrow> attempt_ref_valid ref \<and> s \<in> set PIPELINE_PROVIDERS \<and>
     ar_source_system ref = s \<and> ar_payment_attempt_id ref = k"
  by (auto simp: for_key_def Let_def new_attempt_ref_Inr)

lemma resolve_cases:
  "resolve_pipeline_attempt e = Inr None \<or>
   (\<exists>a. resolve_pipeline_attempt e = Inr (Some a) \<and> \<not> in_paypal_attempt_namespace e \<and>
      candidate_role e = Some (pa_role a, ar_payment_attempt_id (pa_ref a)) \<and>
      for_key (ev_source_system e) (ar_payment_attempt_id (pa_ref a)) = Inr (pa_ref a))"
proof (cases "pipeline_attempt_refusal e")
  case None
  show ?thesis
  proof (cases "candidate_role e")
    case (Some rk)
    then obtain role k where rk: "candidate_role e = Some (role, k)" by (cases rk) simp
    with None obtain ref where "for_key (ev_source_system e) k = Inr ref" "\<not> in_paypal_attempt_namespace e"
      by (auto simp: pipeline_attempt_refusal_def split: sum.splits if_splits)
    then show ?thesis
      using None rk for_key_Inr[of "ev_source_system e" k ref]
      by (auto simp: resolve_pipeline_attempt_def)
  qed (simp add: resolve_pipeline_attempt_def)
qed (simp add: resolve_pipeline_attempt_def)

section \<open>Properties\<close>

text \<open>C9: Resolving the role of an event never raises, and what it resolves is sound: the reference is a
  valid identity of a pipeline provider, the event's own; a TRIGGER is exactly the reference the
  registry would register for the event; a TERMINAL event belongs to the attempt by its order id
  (PayPal) or its payment id; for PayPal the roles agree with the lifecycle contract (TRIGGER is
  the sizing event, TERMINAL a correlatable terminal capture).\<close>

theorem resolve_pipeline_attempt_sound:
  "case resolve_pipeline_attempt e of
     Inl _ \<Rightarrow> False
   | Inr None \<Rightarrow> True
   | Inr (Some a) \<Rightarrow>
       attempt_ref_valid (pa_ref a) \<and> ar_source_system (pa_ref a) = ev_source_system e \<and>
       ev_source_system e \<in> set PIPELINE_PROVIDERS \<and>
       (case pa_role a of
          TRIGGER \<Rightarrow> for_trigger_event e = Inr (pa_ref a) \<and>
            (if ar_is_paypal (pa_ref a) then is_payment_sizing_event e = Inr True else True)
        | TERMINAL \<Rightarrow>
            if ar_is_paypal (pa_ref a)
            then paypal_terminal_events (ar_provider_reference (pa_ref a)) e \<and>
                 is_terminal_capture e = Inr True \<and> order_correlation_of e = Inr CORRELATABLE
            else is_terminal e \<and> ev_payment_id e = ar_payment_attempt_id (pa_ref a))"
proof -
  consider "resolve_pipeline_attempt e = Inr None"
    | a where "resolve_pipeline_attempt e = Inr (Some a)"
        "candidate_role e = Some (pa_role a, ar_payment_attempt_id (pa_ref a))"
        "for_key (ev_source_system e) (ar_payment_attempt_id (pa_ref a)) = Inr (pa_ref a)"
    using resolve_cases[of e] by blast
  then show ?thesis
  proof cases
    case 2
    note valid = for_key_Inr[OF 2(3)]
    show ?thesis
    proof (cases "ev_source_system e = PAYPAL_SOURCE_SYSTEM")
      case True
      with 2 valid show ?thesis
        by (auto simp: candidate_role_def for_trigger_event_def new_attempt_ref_Inr attempt_ref_valid_def
            ar_is_paypal_def paypal_terminal_events_def is_terminal_capture_def order_correlation_of_def
            order_correlation_key_def is_payment_sizing_event_def classify_paypal_event_def attempt_consts
            PAYPAL_LIFECYCLE_CLASSES_def TERMINAL_CAPTURE_OUTCOMES_def PAYMENT_SIZING_CLASSES_def
            split: if_splits option.splits)
    next
      case False
      with 2 valid show ?thesis
        by (auto simp: candidate_role_def for_trigger_event_def for_key_def ar_is_paypal_def is_terminal_def
            split: if_splits option.splits)
    qed
  qed simp
qed

text \<open>Provider namespaces never meet. Two events that resolve to the same attempt key are both
  PayPal events or both not, and name the same provider reference.\<close>

lemma attempt_namespaces_disjoint:
  "case (resolve_pipeline_attempt e, resolve_pipeline_attempt f) of
     (Inr (Some a), Inr (Some b)) \<Rightarrow>
       (if ar_payment_attempt_id (pa_ref a) = ar_payment_attempt_id (pa_ref b)
        then ar_is_paypal (pa_ref a) = ar_is_paypal (pa_ref b) \<and>
             ar_provider_reference (pa_ref a) = ar_provider_reference (pa_ref b)
        else True)
   | _ \<Rightarrow> True"
proof -
  have valid: "attempt_ref_valid (pa_ref a)" if "resolve_pipeline_attempt e = Inr (Some a)" for e a
    using resolve_cases[of e] that by (auto dest: for_key_Inr)
  have agree: "ar_is_paypal a = ar_is_paypal b \<and> ar_provider_reference a = ar_provider_reference b"
    if "attempt_ref_valid a" "attempt_ref_valid b" "ar_payment_attempt_id a = ar_payment_attempt_id b" for a b
    using valid_ref_namespace[OF that(1)] valid_ref_namespace[OF that(2)]
      valid_ref_key[OF that(1)] valid_ref_key[OF that(2)] that(3) by simp
  show ?thesis
    using valid[of e] valid[of f] agree by (auto split: sum.splits option.splits)
qed

definition registry_ok :: "('a attempts_db_scheme) \<Rightarrow> bool" where
  "registry_ok db \<longleftrightarrow>
     distinct (map at_payment_attempt_id (db_attempts db)) \<and>
     list_all (\<lambda>r. for_key (at_source_system r) (at_payment_attempt_id r) =
         Inr \<lparr>ar_source_system = at_source_system r, ar_payment_attempt_id = at_payment_attempt_id r,
              ar_provider_reference = at_provider_reference r\<rparr> \<and>
       list_ex (\<lambda>e. ev_event_id e = at_trigger_event_id r \<and> ev_source_system e = at_source_system r)
         (db_events db)) (db_attempts db)"

lemma register_cases:
  assumes "register_attempt now e db = Inr (r, db')"
  obtains ref row where "for_trigger_event e = Inr ref" "attempt_ref_valid ref"
    "ar_source_system ref \<in> set PIPELINE_PROVIDERS"
    "at_payment_attempt_id row = ar_payment_attempt_id ref" "at_source_system row = ar_source_system ref"
    "at_provider_reference row = ar_provider_reference ref" "at_trigger_event_id row = ev_event_id e"
    "db' = insert_attempt row db" "require_attempt db' ref = Inr r"
    "lookup_attempt db (ar_payment_attempt_id ref) = None \<Longrightarrow> attempt_row_accepted db row"
proof -
  from assms obtain ref where ref: "for_trigger_event e = Inr ref"
    by (auto simp: register_attempt_def bind_result_Inr)
  then have "attempt_ref_valid ref" "ar_source_system ref \<in> set PIPELINE_PROVIDERS"
    by (auto simp: for_trigger_event_def new_attempt_ref_Inr split: if_splits)
  with assms ref show thesis
    by (intro that[of ref "\<lparr>at_payment_attempt_id = ar_payment_attempt_id ref,
                  at_source_system = ar_source_system ref,
                  at_provider_reference = ar_provider_reference ref,
                  at_trigger_event_id = ev_event_id e,
                  at_registered_at = now\<rparr>"])
      (auto simp: register_attempt_def Let_def bind_result_Inr split: if_splits)
qed

text \<open>Registration is idempotent and append-only. A successful registration returns the identity of
  the trigger event as the registry now has it, never changes an existing row, and registering the
  same event again, at any later time, returns the same registered attempt and changes nothing.\<close>

lemma register_attempt_idempotent:
  "case register_attempt now e db of
     Inl _ \<Rightarrow> True
   | Inr (r, db') \<Rightarrow>
       for_trigger_event e = Inr (ra_ref r) \<and>
       require_attempt db' (ra_ref r) = Inr r \<and>
       prefix (db_attempts db) (db_attempts db') \<and>
       register_attempt now' e db' = Inr (r, db')"
proof (cases "register_attempt now e db")
  case (Inr p)
  then obtain r db' where reg: "register_attempt now e db = Inr (r, db')" by (cases p) simp
  then obtain ref row where c: "for_trigger_event e = Inr ref"
    "at_payment_attempt_id row = ar_payment_attempt_id ref"
    "db' = insert_attempt row db" "require_attempt db' ref = Inr r"
    by (rule register_cases) blast
  have look: "lookup_attempt db' (ar_payment_attempt_id ref) \<noteq> None"
    using c by (simp add: attempt_lookup_append)
  have "ra_ref r = ref" using c(4) by (auto simp: require_attempt_def split: option.splits if_splits)
  moreover have "prefix (db_attempts db) (db_attempts db')" using c(3) by (simp add: insert_attempt_def)
  moreover have "insert_attempt row' db' = db'" if "at_payment_attempt_id row' = ar_payment_attempt_id ref" for row'
    using look that by (auto simp: insert_attempt_def)
  then have "register_attempt now' e db' = Inr (r, db')"
    using c(1,4) look by (simp add: register_attempt_def Let_def)
  ultimately show ?thesis using reg c by simp
qed simp

lemma register_attempt_ok:
  assumes "registry_ok db" and "register_attempt now e db = Inr (r, db')"
  shows "registry_ok db' \<and> db_events db' = db_events db"
  using assms(2)
proof (rule register_cases)
  fix ref row
  assume c: "for_trigger_event e = Inr ref" "attempt_ref_valid ref"
    "ar_source_system ref \<in> set PIPELINE_PROVIDERS"
    "at_payment_attempt_id row = ar_payment_attempt_id ref" "at_source_system row = ar_source_system ref"
    "at_provider_reference row = ar_provider_reference ref" "at_trigger_event_id row = ev_event_id e"
    "db' = insert_attempt row db" "require_attempt db' ref = Inr r"
    "lookup_attempt db (ar_payment_attempt_id ref) = None \<Longrightarrow> attempt_row_accepted db row"
  have key: "for_key (ar_source_system ref) (ar_payment_attempt_id ref) = Inr ref"
    by (rule for_key_of_valid[OF c(2,3)])
  show ?thesis
  proof (cases "lookup_attempt db (ar_payment_attempt_id ref)")
    case None
    then have new: "ar_payment_attempt_id ref \<notin> at_payment_attempt_id ` set (db_attempts db)"
      by (auto simp: lookup_attempt_def find_None_iff)
    have "\<lparr>ar_source_system = ar_source_system ref, ar_payment_attempt_id = ar_payment_attempt_id ref,
           ar_provider_reference = ar_provider_reference ref\<rparr> = ref" by simp
    with new None c key show ?thesis
      using assms(1) by (auto simp: registry_ok_def insert_attempt_def attempt_row_accepted_def)
  next
    case (Some row)
    with c assms(1) show ?thesis by (simp add: insert_attempt_def)
  qed
qed

text \<open>Whatever trigger events are registered, in whatever order, the registry stays consistent: keys
  are unique, every row carries a valid identity of its provider, reconstructible from its key, and
  its trigger event is stored under the same provider.\<close>

lemma registry_always_ok:
  "registry_ok (fold (\<lambda>(now, e) db. case register_attempt now e db of Inl _ \<Rightarrow> db | Inr (_, db') \<Rightarrow> db')
     requests (db\<lparr>db_attempts := []\<rparr>))"
proof -
  have "registry_ok d \<Longrightarrow> registry_ok (fold (\<lambda>(now, e) db. case register_attempt now e db of
      Inl _ \<Rightarrow> db | Inr (_, db') \<Rightarrow> db') requests d)" for d :: "'a attempts_db_scheme"
  proof (induction requests arbitrary: d)
    case (Cons q requests)
    then show ?case by (cases q) (auto simp: register_attempt_ok split: sum.splits)
  qed simp
  then show ?thesis by (simp add: registry_ok_def)
qed

section \<open>Versioned tables of attempts\<close>

text \<open>The join with the registry that the stage tables' queries use.\<close>

definition joined_attempt :: "('a attempts_db_scheme) \<Rightarrow> string \<Rightarrow> string \<Rightarrow> bool" where
  "joined_attempt db payment_attempt_id source_system \<longleftrightarrow>
     list_ex (\<lambda>r. at_payment_attempt_id r = payment_attempt_id \<and> at_source_system r = source_system) (db_attempts db)"

lemma registry_unique_provider:
  assumes "registry_ok db" "joined_attempt db pid s" "joined_attempt db pid s'"
  shows "s = s'"
proof -
  from assms(2,3) obtain r r' where r: "r \<in> set (db_attempts db)" "at_payment_attempt_id r = pid" "at_source_system r = s"
    and r': "r' \<in> set (db_attempts db)" "at_payment_attempt_id r' = pid" "at_source_system r' = s'"
    by (auto simp: joined_attempt_def list_ex_iff)
  from assms(1) have "inj_on at_payment_attempt_id (set (db_attempts db))"
    by (simp add: registry_ok_def distinct_map)
  with r r' have "r = r'" by (auto dest: inj_onD)
  with r r' show ?thesis by simp
qed

lemma require_joined:
  "require_attempt db a = Inr r \<Longrightarrow> joined_attempt db (ar_payment_attempt_id a) (ar_source_system a)"
  by (auto simp: require_attempt_def joined_attempt_def lookup_attempt_def list_ex_iff
      split: option.splits if_splits dest!: find_SomeD)

lemma joined_provider:
  assumes "registry_ok db" "joined_attempt db pid s"
  shows "s \<in> set PIPELINE_PROVIDERS"
proof -
  from assms(2) obtain r where r: "r \<in> set (db_attempts db)" "at_source_system r = s"
    by (auto simp: joined_attempt_def list_ex_iff)
  with assms(1) have "for_key s (at_payment_attempt_id r) \<noteq> Inl UnsupportedProviderError \<and>
      (\<exists>x. for_key s (at_payment_attempt_id r) = Inr x)" by (auto simp: registry_ok_def list_all_iff)
  then show ?thesis by (auto simp: for_key_def Let_def new_attempt_ref_def split: if_splits option.splits)
qed

text \<open>
  Predictions and decisions are versioned per attempt, carry the provider of the attempt and an id
  derived from attempt and version, and reference the registry. The laws are what both repositories
  provide; the lemmas show that a row built as the services build it never violates a constraint.
\<close>

locale attempt_log = version_log rows pid version max_version append
  for rows :: "'s \<Rightarrow> 'r list" and pid :: "'r \<Rightarrow> string" and version :: "'r \<Rightarrow> int"
    and max_version :: "'s \<Rightarrow> string \<Rightarrow> int" and append :: "'r \<Rightarrow> 's \<Rightarrow> 's" +
  fixes src :: "'r \<Rightarrow> string" and rid :: "'r \<Rightarrow> uuid" and make_id :: "string \<Rightarrow> int \<Rightarrow> uuid"
    and joined :: "'s \<Rightarrow> string \<Rightarrow> string \<Rightarrow> bool" and registry :: "'s \<Rightarrow> bool"
  assumes make_id_inject: "make_id p v = make_id q w \<longleftrightarrow> p = q \<and> v = w"
    and joined_append: "joined (append r s) p x = joined s p x"
    and registry_append: "registry (append r s) = registry s"
    and one_provider: "registry s \<Longrightarrow> joined s p x \<Longrightarrow> joined s p y \<Longrightarrow> x = y"
begin

definition consistent :: "'s \<Rightarrow> bool" where
  "consistent s \<longleftrightarrow> registry s \<and> contiguous s \<and>
     list_all (\<lambda>r. joined s (pid r) (src r) \<and> rid r = make_id (pid r) (version r)) (rows s)"

definition conflicts :: "'r \<Rightarrow> 's \<Rightarrow> bool" where
  "conflicts r s \<longleftrightarrow>
     list_ex (\<lambda>q. rid q = rid r \<or> pid q = pid r \<and> src q = src r \<and> version q = version r) (rows s) \<or>
     \<not> joined s (pid r) (src r)"

lemma provider_rows_all:
  assumes "consistent s" "joined s p x"
  shows "filter (\<lambda>r. pid r = p \<and> src r = x \<and> joined s p (src r)) (rows s) = filter (\<lambda>r. pid r = p) (rows s)"
proof (rule filter_cong)
  fix r assume "r \<in> set (rows s)"
  with assms have "pid r = p \<Longrightarrow> src r = x"
    using one_provider[of s p "src r" x] by (auto simp: consistent_def list_all_iff)
  with assms show "(pid r = p \<and> src r = x \<and> joined s p (src r)) = (pid r = p)" by auto
qed simp

lemma version_le_max:
  assumes "r \<in> set (rows s)"
  shows "version r \<le> max_version s (pid r)"
  using assms by (auto simp: max_version_rows intro: max_default_upper)

lemma next_no_conflict:
  assumes "consistent s" "joined s (pid r) (src r)"
    and "version r = max_version s (pid r) + 1" "rid r = make_id (pid r) (version r)"
  shows "\<not> conflicts r s"
proof -
  have "rid q \<noteq> rid r \<and> (pid q = pid r \<longrightarrow> version q \<noteq> version r)" if q: "q \<in> set (rows s)" for q
  proof -
    from assms(1) q have "rid q = make_id (pid q) (version q)" by (simp add: consistent_def list_all_iff)
    moreover have "pid q = pid r \<Longrightarrow> version q \<noteq> version r" using version_le_max[OF q] assms(3) by auto
    ultimately show ?thesis using assms(4) by (auto simp: make_id_inject)
  qed
  with assms(2) show ?thesis by (auto simp: conflicts_def list_ex_iff)
qed

lemma append_consistent:
  assumes "consistent s" "joined s (pid r) (src r)"
    and "version r = max_version s (pid r) + 1" "rid r = make_id (pid r) (version r)"
  shows "consistent (append r s)"
  using assms append_contiguous[of s r]
  by (auto simp: consistent_def rows_append joined_append registry_append list_all_iff)

lemma consistent_frame:
  assumes "consistent s" "rows s' = rows s" "registry s'" "\<And>p x. joined s p x \<Longrightarrow> joined s' p x"
  shows "consistent s'"
proof -
  have "contiguous s' = contiguous s" unfolding contiguous_def versions_of_def assms(2) ..
  with assms show ?thesis by (auto simp: consistent_def list_all_iff)
qed

lemma consistent_empty: "registry s \<Longrightarrow> rows s = [] \<Longrightarrow> consistent s"
  by (simp add: consistent_def contiguous_def versions_of_def)

end

end
