(* ===== verification/Paypal.thy ===== *)
theory Paypal
  imports Attempts
begin

text \<open>
  PayPal intake: amounts (\<open>to_minor_units\<close>), RFC 3339 timestamps, the structural parser
  (\<open>parsers/paypal.py\<close>) and the normalizer (\<open>normalizers/paypal.py\<close>).
\<close>

section \<open>Amounts\<close>

definition is_digit :: "char \<Rightarrow> bool" where
  "is_digit c \<longleftrightarrow> (48::nat) \<le> of_char c \<and> (of_char c :: nat) \<le> 57"

definition PAYPAL_CURRENCY_EXPONENTS :: "(string \<times> nat) list" where
  "PAYPAL_CURRENCY_EXPONENTS =
     [(''AUD'', 2), (''BRL'', 2), (''CAD'', 2), (''CHF'', 2), (''CNY'', 2), (''CZK'', 2), (''DKK'', 2),
      (''EUR'', 2), (''GBP'', 2), (''HKD'', 2), (''ILS'', 2), (''MXN'', 2), (''MYR'', 2), (''NOK'', 2),
      (''NZD'', 2), (''PHP'', 2), (''PLN'', 2), (''RUB'', 2), (''SEK'', 2), (''SGD'', 2), (''THB'', 2),
      (''USD'', 2), (''HUF'', 0), (''JPY'', 0), (''TWD'', 0)]"

definition MAX_AMOUNT_MINOR_UNITS :: int where "MAX_AMOUNT_MINOR_UNITS = 2147483647"

definition MAX_AMOUNT_LENGTH :: nat where "MAX_AMOUNT_LENGTH = 32"

text \<open>
  \<open>re.match\<close> with a pattern that ends in \<open>$\<close> also matches before one final newline.
\<close>

definition dollar :: "string \<Rightarrow> string" where
  "dollar s = (if s \<noteq> [] \<and> last s = CHR 0x0A then butlast s else s)"

text \<open>\<open>(0|[1-9][0-9]*)(\.([0-9]+))?$\<close>: the integer digits and the fraction digits.\<close>

definition match_amount :: "string \<Rightarrow> (string \<times> string) option" where
  "match_amount text =
     (let s = dollar text;
          whole = takeWhile is_digit s;
          rest = dropWhile is_digit s
      in if whole = [] \<or> (hd whole = CHR ''0'' \<and> length whole \<noteq> 1) then None
         else case rest of
                [] \<Rightarrow> Some (whole, [])
              | c # fraction \<Rightarrow>
                  if c = CHR ''.'' \<and> fraction \<noteq> [] \<and> list_all is_digit fraction
                  then Some (whole, fraction) else None)"

text \<open>The number a string of digits denotes.\<close>

definition digits_value :: "string \<Rightarrow> int" where
  "digits_value s = fold (\<lambda>c n. n * 10 + ((of_char c :: int) - 48)) s 0"

text \<open>\<open>Decimal(value)\<close> of a matched amount.\<close>

definition decimal_value :: "string \<Rightarrow> string \<Rightarrow> decimal" where
  "decimal_value whole fraction =
     of_int (digits_value (whole @ fraction)) / 10 ^ length fraction"

text \<open>\<open>[A-Z]{3}$\<close>\<close>

definition is_currency_code :: "string \<Rightarrow> bool" where
  "is_currency_code s \<longleftrightarrow>
     length (dollar s) = 3 \<and> list_all (\<lambda>c. (65::nat) \<le> of_char c \<and> (of_char c :: nat) \<le> 90) (dollar s)"

definition to_minor_units :: "string \<Rightarrow> string \<Rightarrow> (string \<times> nat) list \<Rightarrow> (exn, int) result" where
  "to_minor_units val currency_code exponents =
     (if \<not> is_currency_code currency_code then Inl NormalizationError
      else case map_of exponents currency_code of
        None \<Rightarrow> Inl NormalizationError
      | Some exponent \<Rightarrow>
          if MAX_AMOUNT_LENGTH < length val then Inl NormalizationError
          else case match_amount val of
            None \<Rightarrow> Inl NormalizationError
          | Some (whole, fraction) \<Rightarrow>
              if exponent < length fraction then Inl NormalizationError
              else let minor_units = \<lfloor>decimal_value whole fraction * 10 ^ exponent\<rfloor>
                   in if minor_units \<le> 0 then Inl NormalizationError
                      else if MAX_AMOUNT_MINOR_UNITS < minor_units then Inl NormalizationError
                      else Inr minor_units)"

section \<open>Timestamps\<close>

text \<open>
  \<open>^\d{4}-\d{2}-\d{2}T\d{2}:\d{2}:\d{2}(\.\d{1,9})?(Z|[+-]\d{2}:\d{2})$\<close>, then
  \<open>datetime.fromisoformat(value).astimezone(timezone.utc)\<close>. A final newline passes the pattern and is
  refused by \<open>fromisoformat\<close>. Non-ASCII digits pass the pattern and are refused as well, so only ASCII
  digits are read.
\<close>

definition fixed_digits :: "nat \<Rightarrow> string \<Rightarrow> (int \<times> string) option" where
  "fixed_digits n s =
     (if n \<le> length s \<and> list_all is_digit (take n s) then Some (digits_value (take n s), drop n s) else None)"

definition expect :: "char \<Rightarrow> string \<Rightarrow> string option" where
  "expect c s = (case s of d # rest \<Rightarrow> if d = c then Some rest else None | [] \<Rightarrow> None)"

text \<open>\<open>(\.\d{1,9})?\<close>: microseconds, further digits are cut off.\<close>

definition fraction_micros :: "string \<Rightarrow> (int \<times> string) option" where
  "fraction_micros s =
     (case s of
        c # rest \<Rightarrow>
          if c = CHR ''.'' then
            let ds = takeWhile is_digit rest
            in if 1 \<le> length ds \<and> length ds \<le> 9
               then Some (digits_value (take 6 (ds @ replicate 6 (CHR ''0''))), dropWhile is_digit rest)
               else None
          else Some (0, s)
      | [] \<Rightarrow> Some (0, []))"

text \<open>The offset in minutes. A total of 24 hours or more is not a \<open>timezone\<close>.\<close>

definition utc_offset :: "string \<Rightarrow> int option" where
  "utc_offset s =
     (if s = ''Z'' then Some 0
      else case s of
        [] \<Rightarrow> None
      | c # rest \<Rightarrow>
          if c \<noteq> CHR ''+'' \<and> c \<noteq> CHR ''-'' then None
          else (case Option.bind (fixed_digits 2 rest) (\<lambda>(h, r1).
                  Option.bind (expect CHR '':'' r1) (\<lambda>r2. Option.bind (fixed_digits 2 r2) (\<lambda>(m, r3).
                    if r3 = [] then Some (60 * h + m) else None))) of
                None \<Rightarrow> None
              | Some mins \<Rightarrow>
                  if 1440 \<le> mins then None
                  else Some (if c = CHR ''-'' then - mins else mins)))"

definition is_leap :: "int \<Rightarrow> bool" where
  "is_leap y \<longleftrightarrow> y mod 4 = 0 \<and> (y mod 100 \<noteq> 0 \<or> y mod 400 = 0)"

definition days_in_month :: "int \<Rightarrow> int \<Rightarrow> int" where
  "days_in_month y m =
     (if m = 2 then (if is_leap y then 29 else 28) else if m \<in> {4, 6, 9, 11} then 30 else 31)"

definition days_before_year :: "int \<Rightarrow> int" where
  "days_before_year y = (let z = y - 1 in z * 365 + z div 4 - z div 100 + z div 400)"

definition days_before_month :: "int \<Rightarrow> int \<Rightarrow> int" where
  "days_before_month y m = (\<Sum>k\<leftarrow>[1..m - 1]. days_in_month y k)"

text \<open>Days from 1 January 1970.\<close>

definition epoch_day :: "int \<Rightarrow> int \<Rightarrow> int \<Rightarrow> int" where
  "epoch_day y m d = days_before_year y + days_before_month y m + d - 719163"

definition MIN_DATETIME :: datetime where "MIN_DATETIME = seconds (- 62135596800)"
definition MAX_DATETIME :: datetime where "MAX_DATETIME = seconds 253402300800 - 1"

text \<open>
  \<open>astimezone\<close> of a local time outside the range of \<open>datetime\<close> raises \<open>OverflowError\<close>, which the
  code does not catch.
\<close>

definition parse_paypal_timestamp :: "string \<Rightarrow> (exn, datetime) result" where
  "parse_paypal_timestamp val =
     (case Option.bind (fixed_digits 4 val) (\<lambda>(y, r1). Option.bind (expect CHR ''-'' r1) (\<lambda>r2.
        Option.bind (fixed_digits 2 r2) (\<lambda>(mo, r3). Option.bind (expect CHR ''-'' r3) (\<lambda>r4.
        Option.bind (fixed_digits 2 r4) (\<lambda>(d, r5). Option.bind (expect CHR ''T'' r5) (\<lambda>r6.
        Option.bind (fixed_digits 2 r6) (\<lambda>(h, r7). Option.bind (expect CHR '':'' r7) (\<lambda>r8.
        Option.bind (fixed_digits 2 r8) (\<lambda>(mi, r9). Option.bind (expect CHR '':'' r9) (\<lambda>r10.
        Option.bind (fixed_digits 2 r10) (\<lambda>(s, r11). Option.bind (fraction_micros r11) (\<lambda>(us, r12).
        Option.bind (utc_offset r12) (\<lambda>off. Some (y, mo, d, h, mi, s, us, off)))))))))))))) of
        None \<Rightarrow> Inl NormalizationError
      | Some (y, mo, d, h, mi, s, us, off) \<Rightarrow>
          if y < 1 \<or> mo < 1 \<or> 12 < mo \<or> d < 1 \<or> days_in_month y mo < d \<or> 23 < h \<or> 59 < mi \<or> 59 < s
          then Inl NormalizationError
          else let utc = seconds (epoch_day y mo d * 86400 + h * 3600 + mi * 60 + s)
                         + us - minutes off
               in if utc < MIN_DATETIME \<or> MAX_DATETIME < utc then Inl OverflowError else Inr utc)"


section \<open>Resources\<close>

record paypal_money =
  pm_currency_code :: string
  pm_value :: string

text \<open>
  The optional models \<open>status_details\<close> and \<open>supplementary_data.related_ids\<close> keep every level of
  optionality.
\<close>

record capture_resource =
  cr_id :: string
  cr_status :: string
  cr_amount :: paypal_money
  cr_status_details :: "string option option"
  cr_supplementary :: "string option option option"

record refund_resource =
  rr_id :: string
  rr_status :: string
  rr_amount :: paypal_money
  rr_links :: "(string \<times> string) list"
  rr_supplementary :: "string option option option"

record order_resource =
  od_id :: string
  od_status :: string
  od_purchase_units :: "(paypal_money \<times> string option) list"

datatype paypal_resource =
    CaptureResource capture_resource | RefundResource refund_resource | OrderResource order_resource

record paypal_event =
  pe_event_id :: string
  pe_event_type :: string
  pe_create_time :: string
  pe_resource_type :: string
  pe_resource :: paypal_resource
  pe_capture_id :: "string option"
  pe_order_id :: "string option"

section \<open>Validation of decoded JSON\<close>

text \<open>
  A pydantic model validates a field of a decoded JSON object: \<open>None\<close> stands for a \<open>ValidationError\<close>.
  \<open>StrictStr\<close> accepts strings only, an \<open>Optional\<close> field may be missing or null, unknown keys are
  ignored.
\<close>

definition strict_str :: "json option \<Rightarrow> string option" where
  "strict_str j = (case j of Some (JStr s) \<Rightarrow> Some s | _ \<Rightarrow> None)"

definition strict_identifier :: "json option \<Rightarrow> string option" where
  "strict_identifier j =
     (case strict_str j of None \<Rightarrow> None | Some s \<Rightarrow> if is_paypal_identifier s then Some s else None)"

text \<open>\<open>[A-Z0-9][A-Z0-9_.-]{0,127}\<close>\<close>

definition is_event_type :: "string \<Rightarrow> bool" where
  "is_event_type s \<longleftrightarrow>
     (let up = (\<lambda>c. is_digit c \<or> (65::nat) \<le> of_char c \<and> (of_char c :: nat) \<le> 90) in
      case s of [] \<Rightarrow> False
      | c # cs \<Rightarrow> up c \<and> list_all (\<lambda>c. up c \<or> c = CHR ''_'' \<or> c = CHR ''.'' \<or> c = CHR ''-'') cs \<and> length cs \<le> 127)"

definition optional :: "(json option \<Rightarrow> 'a option) \<Rightarrow> json option \<Rightarrow> 'a option option" where
  "optional f j =
     (case j of None \<Rightarrow> Some None | Some JNull \<Rightarrow> Some None | Some v \<Rightarrow> map_option Some (f (Some v)))"

text \<open>A nested model: the value must be an object.\<close>

definition model :: "(json \<Rightarrow> 'a option) \<Rightarrow> json option \<Rightarrow> 'a option" where
  "model f j = (case j of Some (JObj kvs) \<Rightarrow> f (JObj kvs) | _ \<Rightarrow> None)"

fun all_some :: "'a option list \<Rightarrow> 'a list option" where
  "all_some [] = Some []"
| "all_some (None # xs) = None"
| "all_some (Some x # xs) = map_option (Cons x) (all_some xs)"

definition list_of :: "(json option \<Rightarrow> 'a option) \<Rightarrow> json option \<Rightarrow> 'a list option" where
  "list_of f j = (case j of Some (JArr xs) \<Rightarrow> all_some (map (\<lambda>x. f (Some x)) xs) | _ \<Rightarrow> None)"

definition validate_money :: "json \<Rightarrow> paypal_money option" where
  "validate_money j =
     Option.bind (strict_str (json_get j ''currency_code'')) (\<lambda>c.
     Option.bind (strict_str (json_get j ''value'')) (\<lambda>v.
       Some \<lparr>pm_currency_code = c, pm_value = v\<rparr>))"

definition validate_supplementary :: "json \<Rightarrow> string option option option" where
  "validate_supplementary j =
     optional (model (\<lambda>r. optional strict_identifier (json_get r ''order_id''))) (json_get j ''related_ids'')"

definition validate_capture :: "json \<Rightarrow> capture_resource option" where
  "validate_capture j =
     Option.bind (strict_identifier (json_get j ''id'')) (\<lambda>i.
     Option.bind (strict_str (json_get j ''status'')) (\<lambda>st.
     Option.bind (model validate_money (json_get j ''amount'')) (\<lambda>a.
     Option.bind (optional (model (\<lambda>d. optional strict_str (json_get d ''reason''))) (json_get j ''status_details'')) (\<lambda>sd.
     Option.bind (optional (model validate_supplementary) (json_get j ''supplementary_data'')) (\<lambda>suppl.
       Some \<lparr>cr_id = i, cr_status = st, cr_amount = a, cr_status_details = sd, cr_supplementary = suppl\<rparr>)))))"

definition validate_link :: "json \<Rightarrow> (string \<times> string) option" where
  "validate_link j =
     Option.bind (strict_str (json_get j ''href'')) (\<lambda>href.
     Option.bind (strict_str (json_get j ''rel'')) (\<lambda>rel. Some (href, rel)))"

definition validate_refund :: "json \<Rightarrow> refund_resource option" where
  "validate_refund j =
     Option.bind (strict_identifier (json_get j ''id'')) (\<lambda>i.
     Option.bind (strict_str (json_get j ''status'')) (\<lambda>st.
     Option.bind (model validate_money (json_get j ''amount'')) (\<lambda>a.
     Option.bind (list_of (model validate_link) (json_get j ''links'')) (\<lambda>ls.
     Option.bind (optional (model validate_supplementary) (json_get j ''supplementary_data'')) (\<lambda>suppl.
       Some \<lparr>rr_id = i, rr_status = st, rr_amount = a, rr_links = ls, rr_supplementary = suppl\<rparr>)))))"

definition validate_purchase_unit :: "json \<Rightarrow> (paypal_money \<times> string option) option" where
  "validate_purchase_unit j =
     Option.bind (model validate_money (json_get j ''amount'')) (\<lambda>a.
     Option.bind (optional strict_str (json_get j ''reference_id'')) (\<lambda>r. Some (a, r)))"

definition validate_order :: "json \<Rightarrow> order_resource option" where
  "validate_order j =
     Option.bind (strict_identifier (json_get j ''id'')) (\<lambda>i.
     Option.bind (strict_str (json_get j ''status'')) (\<lambda>st.
     Option.bind (list_of (model validate_purchase_unit) (json_get j ''purchase_units'')) (\<lambda>us.
       if us = [] then None else Some \<lparr>od_id = i, od_status = st, od_purchase_units = us\<rparr>)))"

section \<open>Refund links\<close>

text \<open>
  \<open>urllib.parse.urlparse\<close> as far as it is used: scheme, hostname and path. Leading control characters
  and blanks are stripped, tabs and line breaks removed. A network location with one kind of bracket
  only, or whose bracketed host the \<open>ipaddress\<close> module refuses, is a \<open>ValueError\<close>: \<open>bracketed_ok\<close> is
  that check. A bracketed host is never one of the PayPal hosts, so it reads as \<open>None\<close>.
\<close>

definition is_letter :: "char \<Rightarrow> bool" where
  "is_letter c \<longleftrightarrow> is_alnum c \<and> \<not> is_digit c"

definition clean_url :: "string \<Rightarrow> string" where
  "clean_url url =
     filter (\<lambda>c. c \<notin> {CHR 0x09, CHR 0x0A, CHR 0x0D}) (dropWhile (\<lambda>c. (of_char c :: nat) \<le> 32) url)"

definition split_scheme :: "string \<Rightarrow> string \<times> string" where
  "split_scheme url =
     (let s = takeWhile (\<lambda>c. c \<noteq> CHR '':'') url in
      if length s < length url \<and> s \<noteq> [] \<and> is_letter (hd s) \<and>
         list_all (\<lambda>c. is_alnum c \<or> c = CHR ''+'' \<or> c = CHR ''-'' \<or> c = CHR ''.'') s
      then (str_lower s, drop (Suc (length s)) url) else ('''', url))"

definition split_netloc :: "string \<Rightarrow> string \<times> string" where
  "split_netloc url =
     (if prefix ''//'' url
      then (let stop = (\<lambda>c. c \<notin> {CHR ''/'', CHR ''?'', CHR ''#''}); r = drop 2 url
            in (takeWhile stop r, dropWhile stop r))
      else ('''', url))"

text \<open>The path loses its fragment, query and the parameters of its last segment.\<close>

definition url_path :: "string \<Rightarrow> string" where
  "url_path rest =
     (let p = takeWhile (\<lambda>c. c \<noteq> CHR ''?'') (takeWhile (\<lambda>c. c \<noteq> CHR ''#'') rest);
          tail = rev (takeWhile (\<lambda>c. c \<noteq> CHR ''/'') (rev p))
      in take (length p - length tail) p @ takeWhile (\<lambda>c. c \<noteq> CHR '';'') tail)"

definition url_hostname :: "string \<Rightarrow> string option" where
  "url_hostname netloc =
     (let host = rev (takeWhile (\<lambda>c. c \<noteq> CHR ''@'') (rev netloc))
      in if CHR ''['' \<in> set host then None
         else (let h = str_lower (takeWhile (\<lambda>c. c \<noteq> CHR '':'') host) in if h = [] then None else Some h))"

definition urlparse :: "(string \<Rightarrow> bool) \<Rightarrow> string \<Rightarrow> (exn, string \<times> string option \<times> string) result" where
  "urlparse bracketed_ok href =
     (let (scheme, rest1) = split_scheme (clean_url href);
          (netloc, rest2) = split_netloc rest1;
          opening = CHR ''['' \<in> set netloc; closing = CHR '']'' \<in> set netloc
      in if opening \<noteq> closing \<or> opening \<and> \<not> bracketed_ok netloc then Inl ValueError
         else Inr (scheme, url_hostname netloc, url_path rest2))"

definition PAYPAL_API_HOSTS :: "string list" where
  "PAYPAL_API_HOSTS =
     [''api.paypal.com'', ''api-m.paypal.com'', ''api.sandbox.paypal.com'', ''api-m.sandbox.paypal.com'']"

definition capture_path :: "string \<Rightarrow> string option" where
  "capture_path path =
     (let p = ''/v2/payments/captures/'' in
      if prefix p path \<and> is_paypal_identifier (drop (length p) path) then Some (drop (length p) path) else None)"

definition refunded_capture_ids ::
  "(string \<Rightarrow> bool) \<Rightarrow> (string \<times> string) list \<Rightarrow> (exn, string list) result" where
  "refunded_capture_ids bracketed_ok links =
     fold_result (\<lambda>(href, rel) ids.
       if rel \<noteq> ''up'' then Inr ids
       else bind_result (urlparse bracketed_ok href) (\<lambda>(scheme, hostname, path).
         case capture_path path of
           Some i \<Rightarrow> Inr (if scheme = ''https'' \<and> opt_in hostname PAYPAL_API_HOSTS then ids @ [i] else ids)
         | None \<Rightarrow> Inr ids)) links []"

definition refunded_capture_id :: "(string \<Rightarrow> bool) \<Rightarrow> refund_resource \<Rightarrow> (exn, string) result" where
  "refunded_capture_id bracketed_ok refund =
     bind_result (refunded_capture_ids bracketed_ok (rr_links refund)) (\<lambda>ids.
       case ids of [i] \<Rightarrow> Inr i | _ \<Rightarrow> Inl SchemaValidationError)"

definition related_order_id :: "string option option option \<Rightarrow> string option" where
  "related_order_id suppl =
     (case suppl of None \<Rightarrow> None | Some None \<Rightarrow> None | Some (Some order) \<Rightarrow> order)"

section \<open>Parsing an event\<close>

text \<open>Resource type, validator and allowed statuses of every supported event type.\<close>

record event_spec =
  es_resource_type :: string
  es_validate :: "json \<Rightarrow> paypal_resource option"
  es_statuses :: "string list"

definition EVENT_SPECS :: "(string \<times> event_spec) list" where
  "EVENT_SPECS =
    (let capture = (\<lambda>sts. \<lparr>es_resource_type = ''capture'',
                           es_validate = (\<lambda>j. map_option CaptureResource (validate_capture j)), es_statuses = sts\<rparr>);
         order = (\<lambda>sts. \<lparr>es_resource_type = ''checkout-order'',
                         es_validate = (\<lambda>j. map_option OrderResource (validate_order j)), es_statuses = sts\<rparr>)
     in [(''PAYMENT.CAPTURE.COMPLETED'', capture [''COMPLETED'']),
         (''PAYMENT.CAPTURE.DECLINED'', capture [''DECLINED'', ''FAILED'']),
         (''PAYMENT.CAPTURE.PENDING'', capture [''PENDING'']),
         (''PAYMENT.CAPTURE.REFUNDED'',
            \<lparr>es_resource_type = ''refund'',
             es_validate = (\<lambda>j. map_option RefundResource (validate_refund j)), es_statuses = [''COMPLETED'']\<rparr>),
         (''CHECKOUT.ORDER.APPROVED'', order [''APPROVED'']),
         (''CHECKOUT.ORDER.COMPLETED'', order [''COMPLETED''])])"

definition resource_status :: "paypal_resource \<Rightarrow> string" where
  "resource_status r =
     (case r of CaptureResource c \<Rightarrow> cr_status c | RefundResource f \<Rightarrow> rr_status f | OrderResource d \<Rightarrow> od_status d)"

definition resource_ids ::
  "(string \<Rightarrow> bool) \<Rightarrow> paypal_resource \<Rightarrow> (exn, string option \<times> string option) result" where
  "resource_ids bracketed_ok r =
     (case r of
        OrderResource d \<Rightarrow> Inr (None, Some (od_id d))
      | RefundResource f \<Rightarrow>
          bind_result (refunded_capture_id bracketed_ok f)
            (\<lambda>c. Inr (Some c, related_order_id (rr_supplementary f)))
      | CaptureResource c \<Rightarrow> Inr (Some (cr_id c), related_order_id (cr_supplementary c)))"

definition schema :: "'a option \<Rightarrow> (exn, 'a) result" where
  "schema v = (case v of None \<Rightarrow> Inl SchemaValidationError | Some a \<Rightarrow> Inr a)"

definition parse_paypal_event :: "(string \<Rightarrow> bool) \<Rightarrow> json \<Rightarrow> (exn, paypal_event) result" where
  "parse_paypal_event bracketed_ok event =
     (case event of
        JObj kvs \<Rightarrow>
          bind_result (schema (strict_identifier (json_get event ''id''))) (\<lambda>eid.
          bind_result (schema (Option.bind (strict_str (json_get event ''event_type''))
                                 (\<lambda>t. if is_event_type t then Some t else None))) (\<lambda>etype.
          case map_of EVENT_SPECS etype of
            None \<Rightarrow> Inl UnsupportedEventTypeError
          | Some spec \<Rightarrow>
              bind_result (schema (strict_str (json_get event ''create_time''))) (\<lambda>ctime.
              bind_result (schema (strict_str (json_get event ''resource_type''))) (\<lambda>rtype.
              bind_result (schema (strict_str (json_get event ''resource_version''))) (\<lambda>rversion.
              bind_result (schema (model Some (json_get event ''resource''))) (\<lambda>res.
              bind_result (require_that (rtype = es_resource_type spec) SchemaValidationError) (\<lambda>_.
              bind_result (require_that (rversion = ''2.0'') SchemaValidationError) (\<lambda>_.
              bind_result (schema (es_validate spec res)) (\<lambda>resource.
              bind_result (require_that (resource_status resource \<in> set (es_statuses spec)) SchemaValidationError) (\<lambda>_.
              bind_result (resource_ids bracketed_ok resource) (\<lambda>(capture, order).
                Inr \<lparr>pe_event_id = eid, pe_event_type = etype, pe_create_time = ctime,
                     pe_resource_type = rtype, pe_resource = resource,
                     pe_capture_id = capture, pe_order_id = order\<rparr>)))))))))))
      | _ \<Rightarrow> Inl MalformedInputError)"

section \<open>Normalization\<close>

definition PAYPAL_EVENT_MAPPING :: "(string \<times> string \<times> string) list" where
  "PAYPAL_EVENT_MAPPING =
     [(''PAYMENT.CAPTURE.COMPLETED'', ''payment.captured'', ''captured''),
      (''PAYMENT.CAPTURE.DECLINED'', ''payment.failed'', ''failed''),
      (''PAYMENT.CAPTURE.PENDING'', ''payment.pending'', ''pending''),
      (''PAYMENT.CAPTURE.REFUNDED'', ''payment.refunded'', ''refunded''),
      (''CHECKOUT.ORDER.APPROVED'', ''order.approved'', ''approved''),
      (''CHECKOUT.ORDER.COMPLETED'', ''order.completed'', ''completed'')]"

definition event_amount :: "paypal_event \<Rightarrow> (exn, paypal_money) result" where
  "event_amount event =
     (case pe_resource event of
        OrderResource d \<Rightarrow>
          (case od_purchase_units d of [(a, _)] \<Rightarrow> Inr a | _ \<Rightarrow> Inl NormalizationError)
      | CaptureResource c \<Rightarrow> Inr (cr_amount c)
      | RefundResource f \<Rightarrow> Inr (rr_amount f))"

text \<open>\<open>new_id\<close> is the random event id, \<open>now\<close> the wall clock.\<close>

definition normalize_paypal_event :: "uuid \<Rightarrow> datetime \<Rightarrow> paypal_event \<Rightarrow> (exn, payment_event) result" where
  "normalize_paypal_event new_id now event =
     (case map_of PAYPAL_EVENT_MAPPING (pe_event_type event) of
        None \<Rightarrow> Inl NormalizationError
      | Some (etype, status) \<Rightarrow>
          let payment_id = (case pe_resource event of OrderResource _ \<Rightarrow> pe_order_id event | _ \<Rightarrow> pe_capture_id event)
          in case payment_id of
               None \<Rightarrow> Inl NormalizationError
             | Some pid \<Rightarrow>
                 if pid = [] then Inl NormalizationError
                 else bind_result (event_amount event) (\<lambda>amount.
                   let error_reason =
                         (case pe_resource event of
                            CaptureResource c \<Rightarrow>
                              (if etype = ''payment.failed''
                               then (case cr_status_details c of None \<Rightarrow> None | Some reason \<Rightarrow> reason) else None)
                          | _ \<Rightarrow> None)
                   in bind_result (parse_paypal_timestamp (pe_create_time event)) (\<lambda>ts.
                      bind_result (to_minor_units (pm_value amount) (pm_currency_code amount) PAYPAL_CURRENCY_EXPONENTS)
                        (\<lambda>units.
                          Inr \<lparr>ev_event_id = new_id, ev_source_system = PAYPAL_SOURCE_SYSTEM,
                               ev_source_event_id = pe_event_id event, ev_payment_id = pid,
                               ev_order_id = pe_order_id event, ev_timestamp = ts, ev_event_type = etype,
                               ev_currency = pm_currency_code amount, ev_amount_minor_units = units,
                               ev_payment_status = status, ev_payment_method = None, ev_bank = None,
                               ev_wallet = None, ev_error_code = None, ev_error_description = None,
                               ev_error_source = None, ev_error_step = None, ev_error_reason = error_reason,
                               ev_ingested_at = now\<rparr>))))"


section \<open>Lemmas on amounts\<close>

lemma digits_value_snoc: "digits_value (s @ [c]) = digits_value s * 10 + ((of_char c :: int) - 48)"
  by (simp add: digits_value_def)

lemma digits_value_append: "digits_value (s @ t) = digits_value s * 10 ^ length t + digits_value t"
proof (induction t rule: rev_induct)
  case Nil
  then show ?case by (simp add: digits_value_def)
next
  case (snoc c t)
  then show ?case
    using digits_value_snoc[of "s @ t" c] by (simp add: digits_value_snoc algebra_simps)
qed

lemma digit_char_int: "k < 10 \<Longrightarrow> (of_char (char_of (48 + k :: nat) :: char) :: int) = 48 + int k"
proof -
  assume "k < 10"
  then have "(of_char (char_of (48 + k) :: char) :: nat) = 48 + k" by simp
  then have "int (of_char (char_of (48 + k) :: char)) = 48 + int k" by simp
  then show ?thesis by (simp only: of_nat_of_char)
qed

lemma digits_value_show_nat: "digits_value (show_nat n) = int n"
proof (induction n rule: show_nat.induct)
  case (1 n)
  show ?case
  proof (cases "n < 10")
    case True
    then show ?thesis by (subst show_nat.simps) (simp add: digits_value_def digit_char_int)
  next
    case False
    then show ?thesis
      by (subst show_nat.simps) (simp add: digits_value_snoc 1 digit_char_int zdiv_int zmod_int)
  qed
qed

lemma digits_value_nonneg: "list_all is_digit s \<Longrightarrow> 0 \<le> digits_value s"
proof (induction s rule: rev_induct)
  case Nil
  then show ?case by (simp add: digits_value_def)
next
  case (snoc c s)
  then have "(48::nat) \<le> of_char c" by (simp add: is_digit_def)
  then have "(48::int) \<le> of_char c" by (metis of_nat_le_iff of_nat_numeral of_nat_of_char)
  with snoc show ?case by (simp add: digits_value_snoc)
qed

lemma match_amount_digits:
  "match_amount v = Some (whole, fraction) \<Longrightarrow> list_all is_digit whole \<and> list_all is_digit fraction"
  by (auto simp: match_amount_def Let_def list_all_iff dest: set_takeWhileD split: if_splits list.splits)

lemma show_nat_is_digit: "list_all is_digit (show_nat n)"
  using show_nat_digits by (auto simp: list_all_iff is_digit_def)


lemma length_show_nat: "k < 10 ^ e \<Longrightarrow> 0 < e \<Longrightarrow> length (show_nat k) \<le> e"
proof (induction k arbitrary: e rule: show_nat.induct)
  case (1 k)
  show ?case
  proof (cases "k < 10")
    case True
    with 1 show ?thesis by (subst show_nat.simps) simp
  next
    case False
    with 1(2) obtain e' where e: "e = Suc e'" "0 < e'" by (cases e; cases "e - 1") auto
    then have "k div 10 < 10 ^ e'" using 1(2) by (simp add: less_mult_imp_div_less)
    with False 1(1)[OF False _ e(2)] e show ?thesis by (subst show_nat.simps) simp
  qed
qed

lemma show_nat_nonempty [simp]: "show_nat n \<noteq> []"
  by (subst show_nat.simps) simp

lemma show_nat_leading: "hd (show_nat n) = CHR ''0'' \<Longrightarrow> length (show_nat n) = 1"
proof (induction n rule: show_nat.induct)
  case (1 n)
  show ?case
  proof (cases "n < 10")
    case True
    then show ?thesis by (subst show_nat.simps) simp
  next
    case False
    then have "hd (show_nat n) = hd (show_nat (n div 10))" by (subst show_nat.simps) simp
    with 1 False have "length (show_nat (n div 10)) = 1" "hd (show_nat (n div 10)) = CHR ''0''" by simp_all
    then have "show_nat (n div 10) = ''0''" by (cases "show_nat (n div 10)") auto
    then have "digits_value (show_nat (n div 10)) = digits_value ''0''" by simp
    then have "int (n div 10) = 0" by (simp only: digits_value_show_nat) (simp add: digits_value_def)
    with False show ?thesis by simp
  qed
qed

lemma pad_zeros_digits:
  assumes "k < 10 ^ e" and "0 < e"
  shows "length (pad_zeros e (show_nat k)) = e" "list_all is_digit (pad_zeros e (show_nat k))"
    "digits_value (pad_zeros e (show_nat k)) = int k"
proof -
  show "length (pad_zeros e (show_nat k)) = e" using length_show_nat[OF assms] by (simp add: pad_zeros_def)
  show "list_all is_digit (pad_zeros e (show_nat k))"
    using show_nat_is_digit[of k] by (auto simp: pad_zeros_def list_all_iff is_digit_def)
  have "digits_value (replicate m (CHR ''0'')) = 0" for m
    by (induction m) (simp_all add: replicate_append_same[symmetric] digits_value_snoc digits_value_def[of "[]"])
  then show "digits_value (pad_zeros e (show_nat k)) = int k"
    by (simp add: pad_zeros_def digits_value_append digits_value_show_nat)
qed

lemma dollar_digit: "s \<noteq> [] \<Longrightarrow> is_digit (last s) \<Longrightarrow> dollar s = s"
  by (auto simp: dollar_def is_digit_def)

lemma match_amount_whole: "match_amount (show_nat n) = Some (show_nat n, [])"
proof -
  have "is_digit (last (show_nat n))" using show_nat_is_digit[of n] by (simp add: list_all_iff)
  then have d: "dollar (show_nat n) = show_nat n" by (simp add: dollar_digit)
  have tw: "takeWhile is_digit (show_nat n) = show_nat n" "dropWhile is_digit (show_nat n) = []"
    using show_nat_is_digit[of n] by (simp_all add: takeWhile_eq_all_conv dropWhile_eq_Nil_conv list_all_iff)
  show ?thesis unfolding match_amount_def Let_def d tw using show_nat_leading[of n] by simp
qed

lemma match_amount_fraction:
  assumes "list_all is_digit f" and "f \<noteq> []"
  shows "match_amount (show_nat n @ CHR ''.'' # f) = Some (show_nat n, f)"
proof -
  have "is_digit (last (show_nat n @ CHR ''.'' # f))" using assms by (simp add: list_all_iff)
  then have d: "dollar (show_nat n @ CHR ''.'' # f) = show_nat n @ CHR ''.'' # f" by (simp add: dollar_digit)
  have "\<not> is_digit (CHR ''.'')" by (simp add: is_digit_def)
  then have tw: "takeWhile is_digit (show_nat n @ CHR ''.'' # f) = show_nat n"
    "dropWhile is_digit (show_nat n @ CHR ''.'' # f) = CHR ''.'' # f"
    using show_nat_is_digit[of n] by (simp_all add: takeWhile_append2 dropWhile_append2 list_all_iff)
  show ?thesis unfolding match_amount_def Let_def d tw using show_nat_leading[of n] assms by simp
qed

section \<open>Properties of amounts\<close>

text \<open>The canonical decimal rendering of an amount of minor units.\<close>

definition render_amount :: "nat \<Rightarrow> nat \<Rightarrow> string" where
  "render_amount e n =
     (if e = 0 then show_nat n
      else show_nat (n div 10 ^ e) @ CHR ''.'' # pad_zeros e (show_nat (n mod 10 ^ e)))"

lemma match_render:
  "\<exists>whole fraction. match_amount (render_amount e n) = Some (whole, fraction) \<and> length fraction = e \<and>
     decimal_value whole fraction * 10 ^ e = of_nat n"
proof (cases "e = 0")
  case True
  then show ?thesis
    by (simp add: render_amount_def match_amount_whole decimal_value_def digits_value_show_nat)
next
  case False
  let ?f = "pad_zeros e (show_nat (n mod 10 ^ e))"
  have lt: "n mod 10 ^ e < 10 ^ e" by simp
  note f = pad_zeros_digits[OF lt, of]
  have "?f \<noteq> []" using f(1) False by auto
  then have m: "match_amount (render_amount e n) = Some (show_nat (n div 10 ^ e), ?f)"
    using match_amount_fraction[OF f(2)] False by (simp add: render_amount_def)
  have "digits_value (show_nat (n div 10 ^ e) @ ?f) = int (n div 10 ^ e * 10 ^ e + n mod 10 ^ e)"
    using f False by (simp add: digits_value_append digits_value_show_nat)
  then have "digits_value (show_nat (n div 10 ^ e) @ ?f) = int n" by (simp only: div_mult_mod_eq)
  then have "decimal_value (show_nat (n div 10 ^ e)) ?f * 10 ^ e = of_nat n"
    using f(1) False by (simp add: decimal_value_def)
  with m f(1) False show ?thesis by blast
qed

text \<open>C10: Amounts round-trip. Every positive amount of minor units that fits the column, written with
  exactly the decimals of a supported currency, is read back as itself.\<close>

theorem to_minor_units_render:
  assumes "map_of PAYPAL_CURRENCY_EXPONENTS currency = Some e"
    and "0 < n" and "int n \<le> MAX_AMOUNT_MINOR_UNITS"
  shows "to_minor_units (render_amount e n) currency PAYPAL_CURRENCY_EXPONENTS = Inr (int n)"
proof -
  have cur: "is_currency_code currency \<and> e \<le> 2"
    using assms(1)
    by (auto simp: PAYPAL_CURRENCY_EXPONENTS_def is_currency_code_def dollar_def split: if_splits)
  have n: "n < 10 ^ 10" using assms(3) by (simp add: MAX_AMOUNT_MINOR_UNITS_def)
  have "length (show_nat k) \<le> 10" if "k \<le> n" for k
    using n that by (intro length_show_nat) auto
  then have "length (show_nat n) \<le> 10" "length (show_nat (n div 10 ^ e)) \<le> 10" by auto
  moreover have "e \<noteq> 0 \<Longrightarrow> length (pad_zeros e (show_nat (n mod 10 ^ e))) = e"
    by (rule pad_zeros_digits(1)) simp_all
  ultimately have "length (render_amount e n) \<le> 32"
    using cur by (auto simp: render_amount_def)
  moreover obtain whole fraction where "match_amount (render_amount e n) = Some (whole, fraction)"
    "length fraction = e" "decimal_value whole fraction * 10 ^ e = of_nat n"
    using match_render by blast
  ultimately show ?thesis
    using assms cur by (simp add: to_minor_units_def MAX_AMOUNT_LENGTH_def Let_def)
qed

theorem to_minor_units_render_witness:
  "to_minor_units (render_amount 2 1999) ''USD'' PAYPAL_CURRENCY_EXPONENTS = Inr 1999"
  using to_minor_units_render[of "''USD''" 2 1999]
  by (simp add: PAYPAL_CURRENCY_EXPONENTS_def MAX_AMOUNT_MINOR_UNITS_def)

text \<open>Conversion to minor units is exact and bounded. A result is exactly the written decimal
  scaled by the currency's exponent (nothing is rounded or cut off), positive, and fits the 32-bit
  column; every refusal is a NormalizationError.\<close>

lemma to_minor_units_exact:
  "case to_minor_units v currency exponents of
     Inl e \<Rightarrow> e = NormalizationError
   | Inr n \<Rightarrow>
       0 < n \<and> n \<le> 2 ^ 31 - 1 \<and>
       (case (map_of exponents currency, match_amount v) of
          (Some e, Some (whole, fraction)) \<Rightarrow>
            length fraction \<le> e \<and> of_int n = decimal_value whole fraction * 10 ^ e
        | _ \<Rightarrow> False)"
proof -
  have exact: "of_int \<lfloor>decimal_value whole fraction * 10 ^ e\<rfloor> = decimal_value whole fraction * 10 ^ e"
    if "length fraction \<le> e" for whole fraction and e :: nat
  proof -
    have "(10::rat) ^ e = 10 ^ length fraction * 10 ^ (e - length fraction)"
      using that by (simp flip: power_add)
    then have "decimal_value whole fraction * 10 ^ e =
        of_int (digits_value (whole @ fraction) * 10 ^ (e - length fraction))"
      by (simp add: decimal_value_def)
    then show ?thesis by (simp only: floor_of_int)
  qed
  show ?thesis
    using exact
    by (auto simp: to_minor_units_def Let_def MAX_AMOUNT_MINOR_UNITS_def split: option.splits)
qed


section \<open>Identifiers survive parsing\<close>

lemma strict_identifier_Some: "strict_identifier j = Some s \<Longrightarrow> is_paypal_identifier s"
  by (auto simp: strict_identifier_def split: option.splits if_splits)

lemma optional_Some: "optional f j = Some (Some a) \<Longrightarrow> \<exists>k. f k = Some a"
  by (auto simp: optional_def split: option.splits json.splits)

lemma model_Some: "model f j = Some a \<Longrightarrow> \<exists>k. f k = Some a"
  by (auto simp: model_def split: option.splits json.splits)

definition id_opt :: "string option \<Rightarrow> bool" where
  "id_opt s = (case s of None \<Rightarrow> True | Some i \<Rightarrow> is_paypal_identifier i)"

lemma supplementary_identifier:
  assumes "optional (model validate_supplementary) j = Some sup1"
  shows "id_opt (related_order_id sup1)"
proof (cases "related_order_id sup1")
  case (Some i)
  then obtain "sup1 = Some (Some (Some i))"
    by (auto simp: related_order_id_def split: option.splits)
  with assms obtain k where "model validate_supplementary k = Some (Some (Some i))" by (auto dest: optional_Some)
  then obtain k where "validate_supplementary k = Some (Some (Some i))" by (auto dest: model_Some)
  then obtain k where "model (\<lambda>r. optional strict_identifier (json_get r ''order_id'')) k = Some (Some i)"
    unfolding validate_supplementary_def by (auto dest: optional_Some)
  then obtain k where "optional strict_identifier k = Some (Some i)" by (auto dest: model_Some)
  then have "is_paypal_identifier i" by (auto dest: optional_Some strict_identifier_Some)
  with Some show ?thesis by (simp add: id_opt_def)
qed (simp add: id_opt_def)

lemma validate_capture_ids:
  "validate_capture j = Some c \<Longrightarrow> is_paypal_identifier (cr_id c) \<and> id_opt (related_order_id (cr_supplementary c))"
  by (auto simp: validate_capture_def Option.bind_eq_Some_conv dest: strict_identifier_Some supplementary_identifier)

lemma validate_refund_ids:
  "validate_refund j = Some c \<Longrightarrow> id_opt (related_order_id (rr_supplementary c))"
  by (auto simp: validate_refund_def Option.bind_eq_Some_conv dest: supplementary_identifier)

lemma validate_order_ids: "validate_order j = Some d \<Longrightarrow> is_paypal_identifier (od_id d)"
  by (auto simp: validate_order_def Option.bind_eq_Some_conv dest: strict_identifier_Some split: if_splits)

lemma capture_path_identifier: "capture_path p = Some i \<Longrightarrow> is_paypal_identifier i"
  by (auto simp: capture_path_def Let_def split: if_splits)

lemma refunded_capture_ids_identifiers:
  "refunded_capture_ids ok links = Inr ids \<Longrightarrow> list_all is_paypal_identifier ids"
proof -
  let ?f = "\<lambda>(href, rel) ids. if rel \<noteq> ''up'' then Inr ids
       else bind_result (urlparse ok href) (\<lambda>(scheme, hostname, path).
         case capture_path path of
           Some i \<Rightarrow> Inr (if scheme = ''https'' \<and> opt_in hostname PAYPAL_API_HOSTS then ids @ [i] else ids)
         | None \<Rightarrow> Inr ids)"
  have "fold_result ?f links acc = Inr ids \<Longrightarrow> list_all is_paypal_identifier acc \<Longrightarrow> list_all is_paypal_identifier ids"
    for acc
  proof (induction links arbitrary: acc)
    case (Cons l links)
    then obtain acc' where step: "?f l acc = Inr acc'" "fold_result ?f links acc' = Inr ids"
      by (auto simp: bind_result_Inr)
    obtain href rel where l: "l = (href, rel)" by (cases l)
    have "list_all is_paypal_identifier acc'"
    proof (cases "rel = ''up''")
      case True
      with step(1) l obtain sc host p where "urlparse ok href = Inr (sc, host, p)"
        by (cases "urlparse ok href") auto
      with True step(1) l Cons.prems(2) capture_path_identifier[of p] show ?thesis
        by (cases "capture_path p") (auto split: if_splits)
    qed (use step(1) l Cons.prems(2) in simp)
    with Cons.IH step(2) show ?case by blast
  qed simp
  then show "refunded_capture_ids ok links = Inr ids \<Longrightarrow> list_all is_paypal_identifier ids"
    unfolding refunded_capture_ids_def by simp
qed

lemma refunded_capture_id_identifier: "refunded_capture_id ok f = Inr i \<Longrightarrow> is_paypal_identifier i"
proof -
  assume "refunded_capture_id ok f = Inr i"
  then obtain ids where ids: "refunded_capture_ids ok (rr_links f) = Inr ids"
    "(case ids of [i] \<Rightarrow> Inr i | _ \<Rightarrow> Inl SchemaValidationError) = Inr i"
    by (auto simp: refunded_capture_id_def bind_result_Inr)
  then have "ids = [i]" by (cases ids; cases "tl ids") auto
  with refunded_capture_ids_identifiers[OF ids(1)] show ?thesis by simp
qed

definition spec_of :: "string \<Rightarrow> paypal_resource \<Rightarrow> bool" where
  "spec_of etype r =
     (case r of
        CaptureResource _ \<Rightarrow> etype \<in> {''PAYMENT.CAPTURE.COMPLETED'', ''PAYMENT.CAPTURE.DECLINED'', ''PAYMENT.CAPTURE.PENDING''}
      | RefundResource _ \<Rightarrow> etype = ''PAYMENT.CAPTURE.REFUNDED''
      | OrderResource _ \<Rightarrow> etype \<in> {''CHECKOUT.ORDER.APPROVED'', ''CHECKOUT.ORDER.COMPLETED''})"

lemma spec_validate:
  "map_of EVENT_SPECS etype = Some spec \<Longrightarrow> es_validate spec j = Some r \<Longrightarrow> spec_of etype r \<and>
     (case r of CaptureResource c \<Rightarrow> is_paypal_identifier (cr_id c) \<and> id_opt (related_order_id (cr_supplementary c))
      | RefundResource f \<Rightarrow> id_opt (related_order_id (rr_supplementary f))
      | OrderResource d \<Rightarrow> is_paypal_identifier (od_id d))"
  using validate_capture_ids[of j] validate_refund_ids[of j] validate_order_ids[of j]
  by (auto simp: EVENT_SPECS_def Let_def spec_of_def split: if_splits)

lemma parse_paypal_event_ids:
  assumes "parse_paypal_event ok j = Inr pe"
  shows "is_paypal_identifier (pe_event_id pe) \<and> id_opt (pe_capture_id pe) \<and> id_opt (pe_order_id pe) \<and>
    spec_of (pe_event_type pe) (pe_resource pe) \<and>
    (case pe_resource pe of OrderResource d \<Rightarrow> pe_order_id pe = Some (od_id d) | _ \<Rightarrow> pe_capture_id pe \<noteq> None)"
proof -
  from assms obtain spec res resource where
    s: "map_of EVENT_SPECS (pe_event_type pe) = Some spec" "es_validate spec res = Some resource"
    "pe_resource pe = resource" "resource_ids ok resource = Inr (pe_capture_id pe, pe_order_id pe)"
    "is_paypal_identifier (pe_event_id pe)"
    by (auto simp: parse_paypal_event_def bind_result_Inr schema_def Option.bind_eq_Some_conv
        dest: strict_identifier_Some split: json.splits option.splits if_splits)
  from spec_validate[OF s(1,2)] s(3-5) show ?thesis
    by (auto simp: resource_ids_def bind_result_Inr id_opt_def dest: refunded_capture_id_identifier
        dest!: sym[of "Some _" "pe_capture_id pe"] split: paypal_resource.splits option.splits)
qed


lemma normalize_paypal_Inr:
  assumes "normalize_paypal_event i now pe = Inr ev"
  obtains etype status pid cur whole units where
    "map_of PAYPAL_EVENT_MAPPING (pe_event_type pe) = Some (etype, status)"
    "(case pe_resource pe of OrderResource _ \<Rightarrow> pe_order_id pe | _ \<Rightarrow> pe_capture_id pe) = Some pid" "pid \<noteq> []"
    "to_minor_units whole cur PAYPAL_CURRENCY_EXPONENTS = Inr units"
    "ev_source_system ev = PAYPAL_SOURCE_SYSTEM" "ev_source_event_id ev = pe_event_id pe"
    "ev_payment_id ev = pid" "ev_order_id ev = pe_order_id pe" "ev_event_type ev = etype"
    "ev_currency ev = cur" "ev_amount_minor_units ev = units"
  using assms
  by (auto simp: normalize_paypal_event_def Let_def bind_result_Inr split: option.splits if_splits prod.splits)

lemma id_opt_simps [simp]: "id_opt None" "id_opt (Some i) = is_paypal_identifier i"
  by (simp_all add: id_opt_def)

lemma for_key_paypal: "is_paypal_identifier r \<Longrightarrow> \<exists>ref. for_key PAYPAL_SOURCE_SYSTEM (paypal_attempt_id r) = Inr ref"
  by (auto simp: for_key_def Let_def paypal_order_id_attempt new_attempt_ref_def attempt_ref_valid_def
      ar_is_paypal_def source_defs)

definition intake_errors :: "exn list" where
  "intake_errors = [MalformedInputError, SchemaValidationError, UnsupportedEventTypeError,
     NormalizationError, OverflowError, ValueError]"

lemma parse_paypal_event_error: "parse_paypal_event ok j = Inl e \<Longrightarrow> e \<in> set intake_errors"
proof -
  have url: "urlparse ok h = Inl e \<Longrightarrow> e = ValueError" for h e
    by (auto simp: urlparse_def Let_def split: if_splits prod.splits)
  have "refunded_capture_ids ok ls = Inl e \<Longrightarrow> e = ValueError" for ls e
    unfolding refunded_capture_ids_def
  proof (induction ls arbitrary: rule: rev_induct)
    case (snoc l ls)
    then show ?case
      by (auto simp: fold_result_append bind_result_Inl dest: url split: prod.splits if_splits option.splits)
  qed simp
  moreover have "(case ids of [i] \<Rightarrow> Inr i | _ \<Rightarrow> Inl SchemaValidationError) = Inl e \<Longrightarrow> e = SchemaValidationError"
    for ids :: "string list" and e by (cases ids; cases "tl ids") auto
  ultimately have "refunded_capture_id ok f = Inl e \<Longrightarrow> e \<in> {ValueError, SchemaValidationError}" for f e
    unfolding refunded_capture_id_def bind_result_Inl by blast
  then have ids: "resource_ids ok r = Inl e \<Longrightarrow> e \<in> {ValueError, SchemaValidationError}" for r e
    by (auto simp: resource_ids_def bind_result_Inl split: paypal_resource.splits)
  show "parse_paypal_event ok j = Inl e \<Longrightarrow> e \<in> set intake_errors"
    by (auto simp: parse_paypal_event_def intake_errors_def bind_result_Inl bind_result_Inr schema_def
        dest!: ids split: json.splits option.splits)
qed

lemma normalize_paypal_error: "normalize_paypal_event i now pe = Inl e \<Longrightarrow> e \<in> {NormalizationError, OverflowError}"
proof -
  have "parse_paypal_timestamp v = Inl e \<Longrightarrow> e \<in> {NormalizationError, OverflowError}" for v e
    by (auto simp: parse_paypal_timestamp_def Let_def split: option.splits if_splits)
  moreover have "to_minor_units v c x = Inl e \<Longrightarrow> e = NormalizationError" for v c x e
    by (auto simp: to_minor_units_def Let_def split: option.splits if_splits)
  moreover have "event_amount pe = Inl e \<Longrightarrow> e = NormalizationError" for e
    by (auto simp: event_amount_def split: paypal_resource.splits list.splits)
  ultimately show "normalize_paypal_event i now pe = Inl e \<Longrightarrow> e \<in> {NormalizationError, OverflowError}"
    by (auto simp: normalize_paypal_event_def Let_def bind_result_Inl split: option.splits if_splits prod.splits)
qed

text \<open>C11: The PayPal intake is sound for every JSON document. It either fails with one of the listed
  errors or yields a PayPal event whose webhook, payment and order identifiers obey the identifier
  grammar, whose amount is positive and fits its column, whose type is never the Razorpay trigger,
  which the lifecycle contract classifies, and which the pipeline never refuses as an attempt.\<close>

theorem paypal_intake_sound:
  "case bind_result (parse_paypal_event bracketed_ok j) (normalize_paypal_event new_id now) of
     Inl e \<Rightarrow> e \<in> set intake_errors
   | Inr ev \<Rightarrow>
       ev_source_system ev = PAYPAL_SOURCE_SYSTEM \<and>
       is_paypal_identifier (ev_source_event_id ev) \<and> is_paypal_identifier (ev_payment_id ev) \<and>
       id_opt (ev_order_id ev) \<and>
       0 < ev_amount_minor_units ev \<and> ev_amount_minor_units ev \<le> MAX_AMOUNT_MINOR_UNITS \<and>
       ev_event_type ev \<noteq> PIPELINE_TRIGGER_EVENT_TYPE \<and>
       classify_paypal_event ev \<noteq> Inl PayPalLifecycleError \<and>
       pipeline_attempt_refusal ev = None"
proof (cases "parse_paypal_event bracketed_ok j")
  case (Inl e)
  then show ?thesis by (simp add: parse_paypal_event_error)
next
  case parsed: (Inr pe)
  show ?thesis
  proof (cases "normalize_paypal_event new_id now pe")
    case (Inl e)
    with parsed show ?thesis using normalize_paypal_error by (fastforce simp: intake_errors_def)
  next
    case (Inr ev)
    note ids = parse_paypal_event_ids[OF parsed]
    from Inr show ?thesis
    proof (rule normalize_paypal_Inr)
      fix etype status pid cur whole units
      assume n: "map_of PAYPAL_EVENT_MAPPING (pe_event_type pe) = Some (etype, status)"
        "(case pe_resource pe of OrderResource _ \<Rightarrow> pe_order_id pe | _ \<Rightarrow> pe_capture_id pe) = Some pid" "pid \<noteq> []"
        "to_minor_units whole cur PAYPAL_CURRENCY_EXPONENTS = Inr units"
        "ev_source_system ev = PAYPAL_SOURCE_SYSTEM" "ev_source_event_id ev = pe_event_id pe"
        "ev_payment_id ev = pid" "ev_order_id ev = pe_order_id pe" "ev_event_type ev = etype"
        "ev_currency ev = cur" "ev_amount_minor_units ev = units"
      have pid: "is_paypal_identifier pid"
        using ids n(2) by (auto split: paypal_resource.splits)
      have amount: "0 < units \<and> units \<le> MAX_AMOUNT_MINOR_UNITS"
        using n(4) by (auto simp: to_minor_units_def Let_def split: option.splits if_splits)
      have etype: "etype \<in> {''payment.captured'', ''payment.failed'', ''payment.pending'', ''payment.refunded'',
          ''order.approved'', ''order.completed''}"
        using n(1) by (auto simp: PAYPAL_EVENT_MAPPING_def split: if_splits)
      have "candidate_role ev = Some (role, k) \<Longrightarrow> \<exists>r. is_paypal_identifier r \<and> k = paypal_attempt_id r" for role k
        using n ids pid by (auto simp: candidate_role_def split: if_splits option.splits)
      then have "pipeline_attempt_refusal ev = None"
        using n(5) for_key_paypal
        by (fastforce simp: pipeline_attempt_refusal_def in_paypal_attempt_namespace_def split: option.splits sum.splits)
      moreover have "classify_paypal_event ev \<noteq> Inl PayPalLifecycleError"
        using etype n(5,9) by (auto simp: classify_paypal_event_def PAYPAL_LIFECYCLE_CLASSES_def)
      ultimately show ?thesis
        using parsed Inr n ids pid amount etype by (auto simp: PIPELINE_TRIGGER_EVENT_TYPE_def)
    qed
  qed
qed

text \<open>Inputs the intake does not treat as documented: an amount with a final newline is accepted,
  and two malformed inputs raise exceptions outside the ingestion errors (an OverflowError for a
  local time whose UTC instant precedes year 1, a ValueError for a link with an unclosed bracket).\<close>

lemma paypal_boundary_inputs:
  "to_minor_units (''10.50'' @ [CHR 0x0A]) ''USD'' PAYPAL_CURRENCY_EXPONENTS = Inr 1050 \<and>
   parse_paypal_timestamp ''0001-01-01T00:00:00+00:01'' = Inl OverflowError \<and>
   urlparse (\<lambda>_. True) ''https://[api.paypal.com/'' = Inl ValueError"
  by code_simp

end
