(* ===== verification/Ingestion.thy ===== *)
theory Ingestion
  imports Paypal
begin

text \<open>
  Stage 1: the Razorpay parser and normalizer, the two ingestion services, their repository and the
  two webhook routes (\<open>core/parsers/razorpay.py\<close>, \<open>core/normalizers/razorpay.py\<close>,
  \<open>core/services/ingestion_service.py\<close>, \<open>core/services/paypal_ingestion_service.py\<close>,
  \<open>infrastructure/repository.py\<close>, \<open>api/routes.py\<close>), and every interleaving of deliveries.

  A request body is the list of its bytes. Parameters stand for what is outside the repository:
  \<open>hmac_hex\<close> is HMAC-SHA256, \<open>loads\<close> is \<open>json.loads\<close> (its argument says whether non-standard constants
  are rejected), \<open>coerce_int\<close> is pydantic's conversion to \<open>int\<close>, \<open>bracketed_ok\<close> the check of a
  bracketed host, \<open>verify\<close> the answer of the PayPal client.
\<close>

section \<open>Razorpay: signature\<close>

text \<open>
  \<open>hmac.compare_digest\<close> raises \<open>TypeError\<close> on a \<open>str\<close> with characters outside ASCII.
\<close>

definition is_ascii :: "string \<Rightarrow> bool" where
  "is_ascii s \<longleftrightarrow> list_all (\<lambda>c. (of_char c :: nat) < 128) s"

definition verify_razorpay_signature ::
  "(string \<Rightarrow> string \<Rightarrow> string) \<Rightarrow> string \<Rightarrow> string option \<Rightarrow> string option \<Rightarrow> (exn, unit) result" where
  "verify_razorpay_signature hmac_hex payload_body signature secret =
     (if \<not> truthy signature then Inl InvalidWebhookSignatureError
      else if \<not> truthy secret then Inl InvalidWebhookSignatureError
      else if \<not> is_ascii (the signature) then Inl TypeError
      else require_that (hmac_hex (the secret) payload_body = the signature) InvalidWebhookSignatureError)"

section \<open>Razorpay: schema\<close>

record razorpay_payment_entity =
  rp_id :: string
  rp_entity :: string
  rp_amount :: int
  rp_currency :: string
  rp_status :: string
  rp_order_id :: "string option"
  rp_method :: "string option"
  rp_bank :: "string option"
  rp_wallet :: "string option"
  rp_vpa :: "string option"
  rp_created_at :: int
  rp_error_code :: "string option"
  rp_error_description :: "string option"
  rp_error_source :: "string option"
  rp_error_step :: "string option"
  rp_error_reason :: "string option"

record razorpay_webhook_event =
  rw_entity :: string
  rw_account_id :: string
  rw_event :: string
  rw_contains :: "string list"
  rw_payment :: razorpay_payment_entity
  rw_created_at :: int

text \<open>\<open>StrictInt\<close> refuses everything but an integer.\<close>

definition strict_int :: "json option \<Rightarrow> int option" where
  "strict_int j = (case j of Some (JInt i) \<Rightarrow> Some i | _ \<Rightarrow> None)"

definition validate_razorpay_payment :: "(json \<Rightarrow> int option) \<Rightarrow> json \<Rightarrow> razorpay_payment_entity option" where
  "validate_razorpay_payment coerce_int j =
     (let req = (\<lambda>k. strict_str (json_get j k)); opt = (\<lambda>k. optional strict_str (json_get j k)) in
      Option.bind (req ''id'') (\<lambda>i. Option.bind (req ''entity'') (\<lambda>en.
      Option.bind (strict_int (json_get j ''amount'')) (\<lambda>am.
      Option.bind (req ''currency'') (\<lambda>cu. Option.bind (req ''status'') (\<lambda>st.
      Option.bind (opt ''order_id'') (\<lambda>ord. Option.bind (opt ''method'') (\<lambda>me.
      Option.bind (opt ''bank'') (\<lambda>ba. Option.bind (opt ''wallet'') (\<lambda>wa. Option.bind (opt ''vpa'') (\<lambda>vp.
      Option.bind (Option.bind (json_get j ''created_at'') coerce_int) (\<lambda>cr.
      Option.bind (opt ''error_code'') (\<lambda>ec. Option.bind (opt ''error_description'') (\<lambda>ed.
      Option.bind (opt ''error_source'') (\<lambda>es. Option.bind (opt ''error_step'') (\<lambda>et.
      Option.bind (opt ''error_reason'') (\<lambda>er.
        Some \<lparr>rp_id = i, rp_entity = en, rp_amount = am, rp_currency = cu, rp_status = st,
              rp_order_id = ord, rp_method = me, rp_bank = ba, rp_wallet = wa, rp_vpa = vp,
              rp_created_at = cr, rp_error_code = ec, rp_error_description = ed,
              rp_error_source = es, rp_error_step = et, rp_error_reason = er\<rparr>)))))))))))))))))"

definition validate_razorpay_event :: "(json \<Rightarrow> int option) \<Rightarrow> json \<Rightarrow> razorpay_webhook_event option" where
  "validate_razorpay_event coerce_int j =
     Option.bind (strict_str (json_get j ''entity'')) (\<lambda>en.
     if en \<noteq> ''event'' then None else
     Option.bind (strict_str (json_get j ''account_id'')) (\<lambda>ac.
     Option.bind (strict_str (json_get j ''event'')) (\<lambda>ev.
     Option.bind (list_of strict_str (json_get j ''contains'')) (\<lambda>co.
     Option.bind (model (\<lambda>p. model (\<lambda>w. model (validate_razorpay_payment coerce_int) (json_get w ''entity''))
                                (json_get p ''payment'')) (json_get j ''payload'')) (\<lambda>pay.
     Option.bind (Option.bind (json_get j ''created_at'') coerce_int) (\<lambda>cr.
       Some \<lparr>rw_entity = en, rw_account_id = ac, rw_event = ev, rw_contains = co,
             rw_payment = pay, rw_created_at = cr\<rparr>))))))"

text \<open>
  \<open>json.loads\<close> returns a document, raises \<open>JSONDecodeError\<close>, or raises another exception
  (\<open>UnicodeDecodeError\<close>, \<open>RecursionError\<close>, or \<open>ValueError\<close> for an over-long integer). The Razorpay
  parser catches the first only; the rest is represented by \<open>ValueError\<close>.
\<close>

datatype json_load = Loaded json | JSONDecodeError | OtherLoadError

definition parse_razorpay_event ::
  "(bool \<Rightarrow> string \<Rightarrow> json_load) \<Rightarrow> (json \<Rightarrow> int option) \<Rightarrow> string \<Rightarrow> (exn, razorpay_webhook_event \<times> json) result" where
  "parse_razorpay_event loads coerce_int payload_body =
     (case loads False payload_body of
        JSONDecodeError \<Rightarrow> Inl MalformedInputError
      | OtherLoadError \<Rightarrow> Inl ValueError
      | Loaded data \<Rightarrow>
          bind_result (schema (model (validate_razorpay_event coerce_int) (Some data))) (\<lambda>ev. Inr (ev, data)))"

section \<open>Razorpay: normalization\<close>

text \<open>
  \<open>datetime.fromtimestamp(n, tz=timezone.utc)\<close> for an integer: outside years 1 to 9999 it raises
  \<open>ValueError\<close> (caught by the caller), and \<open>OverflowError\<close> when the number does not fit \<open>time_t\<close>
  (not caught).
\<close>

definition fromtimestamp :: "int \<Rightarrow> (exn, datetime) result" where
  "fromtimestamp n =
     (if n < - (2 ^ 63) \<or> 2 ^ 63 \<le> n then Inl OverflowError
      else if seconds n < MIN_DATETIME \<or> MAX_DATETIME < seconds n then Inl ValueError
      else Inr (seconds n))"

definition normalize_razorpay_event ::
  "uuid \<Rightarrow> datetime \<Rightarrow> razorpay_webhook_event \<Rightarrow> string \<Rightarrow> (exn, payment_event) result" where
  "normalize_razorpay_event new_id now event source_event_id =
     (let entity = rw_payment event in
      case fromtimestamp (rw_created_at event) of
        Inl e \<Rightarrow> Inl (if e = ValueError then NormalizationError else e)
      | Inr ts \<Rightarrow>
          if paypal_order_id (rp_id entity) \<noteq> None then Inl NormalizationError
          else Inr \<lparr>ev_event_id = new_id, ev_source_system = RAZORPAY_SOURCE_SYSTEM,
                    ev_source_event_id = source_event_id, ev_payment_id = rp_id entity,
                    ev_order_id = rp_order_id entity, ev_timestamp = ts, ev_event_type = rw_event event,
                    ev_currency = str_upper (rp_currency entity),
                    ev_amount_minor_units = rp_amount entity, ev_payment_status = rp_status entity,
                    ev_payment_method = rp_method entity, ev_bank = rp_bank entity,
                    ev_wallet = rp_wallet entity, ev_error_code = rp_error_code entity,
                    ev_error_description = rp_error_description entity,
                    ev_error_source = rp_error_source entity, ev_error_step = rp_error_step entity,
                    ev_error_reason = rp_error_reason entity, ev_ingested_at = now\<rparr>)"

section \<open>Repository\<close>

definition generate_deterministic_hash :: "json \<Rightarrow> digest" where
  "generate_deterministic_hash payload = sha256_json payload"

definition raw_identity :: "raw_record \<Rightarrow> string \<times> string" where
  "raw_identity r = (raw_source_system r, raw_source_event_id r)"

definition event_identity :: "payment_event \<Rightarrow> string \<times> string" where
  "event_identity e = (ev_source_system e, ev_source_event_id e)"

definition get_raw_record :: "('a event_db_scheme) \<Rightarrow> string \<Rightarrow> string \<Rightarrow> raw_record option" where
  "get_raw_record db source_system source_event_id =
     find (\<lambda>r. raw_source_system r = source_system \<and> raw_source_event_id r = source_event_id) (db_raw db)"

text \<open>A \<open>VARCHAR(n)\<close> column holds no character 0 and at most \<open>n\<close> characters.\<close>

definition varchar :: "nat \<Rightarrow> string \<Rightarrow> bool" where
  "varchar n s \<longleftrightarrow> length s \<le> n \<and> CHR 0x00 \<notin> set s"

definition varchar_opt :: "nat \<Rightarrow> string option \<Rightarrow> bool" where
  "varchar_opt n s = (case s of None \<Rightarrow> True | Some t \<Rightarrow> varchar n t)"

definition event_row_fits :: "payment_event \<Rightarrow> bool" where
  "event_row_fits e \<longleftrightarrow>
     varchar 50 (ev_source_system e) \<and> varchar 255 (ev_source_event_id e) \<and>
     varchar 255 (ev_payment_id e) \<and> varchar_opt 255 (ev_order_id e) \<and>
     varchar 100 (ev_event_type e) \<and> varchar 3 (ev_currency e) \<and>
     - 2147483648 \<le> ev_amount_minor_units e \<and> ev_amount_minor_units e \<le> 2147483647 \<and>
     varchar 50 (ev_payment_status e) \<and> varchar_opt 50 (ev_payment_method e) \<and>
     varchar_opt 50 (ev_bank e) \<and> varchar_opt 50 (ev_wallet e) \<and>
     varchar_opt 255 (ev_error_code e) \<and> varchar_opt 1024 (ev_error_description e) \<and>
     varchar_opt 255 (ev_error_source e) \<and> varchar_opt 255 (ev_error_step e) \<and>
     varchar_opt 255 (ev_error_reason e)"

definition raw_row_fits :: "raw_record \<Rightarrow> bool" where
  "raw_row_fits r \<longleftrightarrow> varchar 50 (raw_source_system r) \<and> varchar 255 (raw_source_event_id r)"

text \<open>
  One transaction inserts both rows. A violated identity constraint is a
  \<open>DuplicateEventConflictError\<close>, any other database error a \<open>PersistenceError\<close>; both roll back.
\<close>

definition save_ingestion ::
  "raw_record \<Rightarrow> payment_event \<Rightarrow> ('a event_db_scheme) \<Rightarrow> (exn, 'a event_db_scheme) result" where
  "save_ingestion raw ev db =
     (if \<not> raw_row_fits raw then Inl PersistenceError
      else if raw_identity raw \<in> raw_identity ` set (db_raw db) then Inl DuplicateEventConflictError
      else if \<not> event_row_fits ev then Inl PersistenceError
      else if ev_event_id ev \<in> ev_event_id ` set (db_events db) then Inl PersistenceError
      else if event_identity ev \<in> event_identity ` set (db_events db) then Inl DuplicateEventConflictError
      else Inr (db\<lparr>db_raw := db_raw db @ [raw], db_events := db_events db @ [ev]\<rparr>))"

section \<open>Services\<close>

text \<open>
  A service reads the raw record first and saves later; other deliveries may commit in between.
  \<open>seen\<close> is the database at the first read, \<open>db\<close> the one at the save.
\<close>

record 'b stored =
  st_value :: 'b
  st_duplicate :: bool

definition ingest_razorpay_webhook ::
  "(string \<Rightarrow> string \<Rightarrow> string) \<Rightarrow> (bool \<Rightarrow> string \<Rightarrow> json_load) \<Rightarrow> (json \<Rightarrow> int option) \<Rightarrow> string option \<Rightarrow>
   uuid \<Rightarrow> datetime \<Rightarrow> ('a event_db_scheme) \<Rightarrow> string \<Rightarrow> string option \<Rightarrow> string \<Rightarrow> ('a event_db_scheme) \<Rightarrow>
   (exn, payment_event stored \<times> ('a event_db_scheme)) result" where
  "ingest_razorpay_webhook hmac_hex loads coerce_int secret new_id now seen
       payload_body signature_header source_event_id db =
     bind_result (verify_razorpay_signature hmac_hex payload_body signature_header secret) (\<lambda>_.
     bind_result (parse_razorpay_event loads coerce_int payload_body) (\<lambda>(parsed, payload).
       let payload_hash = generate_deterministic_hash payload in
       case get_raw_record seen RAZORPAY_SOURCE_SYSTEM source_event_id of
         Some existing \<Rightarrow>
           if raw_payload_hash existing = payload_hash
           then bind_result (normalize_razorpay_event new_id now parsed source_event_id)
                  (\<lambda>ev. Inr (\<lparr>st_value = ev, st_duplicate = True\<rparr>, db))
           else Inl DuplicateEventConflictError
       | None \<Rightarrow>
           bind_result (normalize_razorpay_event new_id now parsed source_event_id) (\<lambda>ev.
             let raw = \<lparr>raw_source_system = RAZORPAY_SOURCE_SYSTEM, raw_source_event_id = source_event_id,
                        raw_received_at = now, raw_payload = payload, raw_payload_hash = payload_hash\<rparr>
             in bind_result (save_ingestion raw ev db)
                  (\<lambda>db'. Inr (\<lparr>st_value = ev, st_duplicate = False\<rparr>, db')))))"

datatype paypal_outcome = STORED payment_event | DUPLICATE | IGNORED_UNSUPPORTED

definition resolve_existing :: "raw_record \<Rightarrow> digest \<Rightarrow> (exn, paypal_outcome) result" where
  "resolve_existing existing payload_hash =
     (if raw_payload_hash existing \<noteq> payload_hash then Inl DuplicateEventConflictError else Inr DUPLICATE)"

definition ingest_paypal_webhook ::
  "(bool \<Rightarrow> string \<Rightarrow> json_load) \<Rightarrow> (string \<Rightarrow> bool) \<Rightarrow> (exn, bool) result \<Rightarrow> uuid \<Rightarrow> datetime \<Rightarrow>
   ('a event_db_scheme) \<Rightarrow> string \<Rightarrow> ('a event_db_scheme) \<Rightarrow>
   (exn, paypal_outcome \<times> ('a event_db_scheme)) result" where
  "ingest_paypal_webhook loads bracketed_ok verification new_id now seen raw_body db =
     bind_result verification (\<lambda>verified.
     bind_result (require_that verified InvalidWebhookSignatureError) (\<lambda>_.
     case loads True raw_body of
       Loaded (JObj kvs) \<Rightarrow>
         (case parse_paypal_event bracketed_ok (JObj kvs) of
            Inl e \<Rightarrow> if e = UnsupportedEventTypeError then Inr (IGNORED_UNSUPPORTED, db) else Inl e
          | Inr event \<Rightarrow>
              let payload_hash = generate_deterministic_hash (JObj kvs) in
              case get_raw_record seen PAYPAL_SOURCE_SYSTEM (pe_event_id event) of
                Some existing \<Rightarrow> bind_result (resolve_existing existing payload_hash) (\<lambda>o'. Inr (o', db))
              | None \<Rightarrow>
                  bind_result (normalize_paypal_event new_id now event) (\<lambda>ev.
                    let raw = \<lparr>raw_source_system = PAYPAL_SOURCE_SYSTEM, raw_source_event_id = pe_event_id event,
                               raw_received_at = now, raw_payload = JObj kvs, raw_payload_hash = payload_hash\<rparr>
                    in case save_ingestion raw ev db of
                         Inr db' \<Rightarrow> Inr (STORED ev, db')
                       | Inl e \<Rightarrow>
                           if e \<noteq> DuplicateEventConflictError then Inl e
                           else case get_raw_record db PAYPAL_SOURCE_SYSTEM (pe_event_id event) of
                                  None \<Rightarrow> Inl e
                                | Some winner \<Rightarrow>
                                    bind_result (resolve_existing winner payload_hash) (\<lambda>o'. Inr (o', db))))
     | _ \<Rightarrow> Inl MalformedInputError))"

section \<open>Routes\<close>

text \<open>The response, the event handed to the background pipeline, and the database afterwards.\<close>

record response =
  rs_status :: int
  rs_content :: json
  rs_scheduled :: "payment_event option"

definition http_exception :: "int \<Rightarrow> string \<Rightarrow> response" where
  "http_exception code detail =
     \<lparr>rs_status = code, rs_content = JObj [(''detail'', JStr detail)], rs_scheduled = None\<rparr>"

definition razorpay_error_response :: "exn \<Rightarrow> response" where
  "razorpay_error_response e =
     (if e = InvalidWebhookSignatureError then http_exception 401 ''Invalid webhook signature''
      else if e = MalformedInputError then http_exception 400 ''Malformed request''
      else if e = SchemaValidationError \<or> e = UnsupportedEventTypeError
      then http_exception 422 ''Unprocessable webhook event''
      else if e = NormalizationError then http_exception 422 ''Unprocessable webhook event''
      else if e = DuplicateEventConflictError then http_exception 409 ''Conflicting duplicate event''
      else http_exception 500 ''Internal Server Error'')"

definition ingest_razorpay ::
  "(string \<Rightarrow> string \<Rightarrow> string) \<Rightarrow> (bool \<Rightarrow> string \<Rightarrow> json_load) \<Rightarrow> (json \<Rightarrow> int option) \<Rightarrow> string option \<Rightarrow>
   uuid \<Rightarrow> datetime \<Rightarrow> ('a event_db_scheme) \<Rightarrow> string \<Rightarrow> string option \<Rightarrow> string option \<Rightarrow> ('a event_db_scheme) \<Rightarrow>
   response \<times> ('a event_db_scheme)" where
  "ingest_razorpay hmac_hex loads coerce_int secret new_id now seen payload_body
       x_razorpay_signature x_razorpay_event_id db =
     (if \<not> truthy x_razorpay_event_id then (http_exception 400 ''Missing X-Razorpay-Event-Id header'', db)
      else case ingest_razorpay_webhook hmac_hex loads coerce_int secret new_id now seen
                  payload_body x_razorpay_signature (the x_razorpay_event_id) db of
             Inl e \<Rightarrow> (razorpay_error_response e, db)
           | Inr (s, db') \<Rightarrow>
               (\<lparr>rs_status = 200,
                 rs_content = JObj [(''status'', JStr ''success''), (''event_id'', JUuid (ev_event_id (st_value s)))],
                 rs_scheduled = (if \<not> st_duplicate s then Some (st_value s) else None)\<rparr>, db'))"

definition MAX_PAYPAL_WEBHOOK_BODY_BYTES :: int where
  "MAX_PAYPAL_WEBHOOK_BODY_BYTES = 256 * 1024"

text \<open>
  \<open>declared_length\<close> is the \<open>Content-Length\<close> header read by \<open>int\<close>: absent, not a number, or a number. The
  body arrives in chunks; \<open>read_chunks\<close> also counts the chunks it consumed.
\<close>

fun read_chunks :: "int \<Rightarrow> string \<Rightarrow> string list \<Rightarrow> (response, string) result" where
  "read_chunks limit body [] = Inr body"
| "read_chunks limit body (chunk # chunks) =
     (if limit < int (length (body @ chunk)) then Inl (http_exception 413 ''Request body too large'')
      else read_chunks limit (body @ chunk) chunks)"

definition read_limited_body ::
  "int option option \<Rightarrow> string list \<Rightarrow> int \<Rightarrow> (response, string) result" where
  "read_limited_body declared_length chunks limit =
     (case declared_length of
        Some None \<Rightarrow> Inl (http_exception 400 ''Invalid Content-Length header'')
      | Some (Some n) \<Rightarrow>
          if limit < n then Inl (http_exception 413 ''Request body too large'')
          else read_chunks limit [] chunks
      | None \<Rightarrow> read_chunks limit [] chunks)"

definition paypal_error_response :: "exn \<Rightarrow> response" where
  "paypal_error_response e =
     (if e = InvalidWebhookSignatureError then http_exception 401 ''Invalid webhook signature''
      else if e = MalformedInputError then http_exception 400 ''Malformed request''
      else if e = PayPalVerificationRequestRejectedError then http_exception 400 ''Webhook could not be verified''
      else if e \<in> {PayPalConfigurationError, PayPalAuthError, PayPalUnavailableError}
      then http_exception 503 ''Webhook verification temporarily unavailable''
      else if e \<in> {SchemaValidationError, UnsupportedEventTypeError, NormalizationError}
      then http_exception 422 ''Unprocessable webhook event''
      else if e = DuplicateEventConflictError then http_exception 409 ''Conflicting duplicate event''
      else http_exception 500 ''Internal Server Error'')"

text \<open>\<open>resolve_pipeline_attempt\<close> stands outside the \<open>try\<close>; it never raises.\<close>

definition ingest_paypal ::
  "(bool \<Rightarrow> string \<Rightarrow> json_load) \<Rightarrow> (string \<Rightarrow> bool) \<Rightarrow> (string \<Rightarrow> (exn, bool) result) \<Rightarrow> uuid \<Rightarrow> datetime \<Rightarrow>
   ('a event_db_scheme) \<Rightarrow> int option option \<Rightarrow> string list \<Rightarrow> ('a event_db_scheme) \<Rightarrow>
   response \<times> ('a event_db_scheme)" where
  "ingest_paypal loads bracketed_ok verify new_id now seen declared_length chunks db =
     (case read_limited_body declared_length chunks MAX_PAYPAL_WEBHOOK_BODY_BYTES of
        Inl r \<Rightarrow> (r, db)
      | Inr raw_body \<Rightarrow>
          (case ingest_paypal_webhook loads bracketed_ok (verify raw_body) new_id now seen raw_body db of
             Inl e \<Rightarrow> (paypal_error_response e, db)
           | Inr (STORED ev, db') \<Rightarrow>
               (case resolve_pipeline_attempt ev of
                  Inl e \<Rightarrow> (http_exception 500 ''Internal Server Error'', db')
                | Inr attempt \<Rightarrow>
                    (\<lparr>rs_status = 200,
                      rs_content = JObj [(''status'', JStr ''stored''), (''event_id'', JUuid (ev_event_id ev))],
                      rs_scheduled = (if attempt \<noteq> None then Some ev else None)\<rparr>, db'))
           | Inr (DUPLICATE, db') \<Rightarrow>
               (\<lparr>rs_status = 200, rs_content = JObj [(''status'', JStr ''duplicate'')], rs_scheduled = None\<rparr>, db')
           | Inr (IGNORED_UNSUPPORTED, db') \<Rightarrow>
               (\<lparr>rs_status = 200, rs_content = JObj [(''status'', JStr ''ignored'')], rs_scheduled = None\<rparr>, db')))"

section \<open>Deliveries in any order\<close>

datatype delivery =
    RazorpayDelivery string "string option" "string option"
  | PayPalDelivery "int option option" "string list"

record intake_env =
  ie_hmac :: "string \<Rightarrow> string \<Rightarrow> string"
  ie_loads :: "bool \<Rightarrow> string \<Rightarrow> json_load"
  ie_coerce :: "json \<Rightarrow> int option"
  ie_bracketed :: "string \<Rightarrow> bool"
  ie_verify :: "string \<Rightarrow> (exn, bool) result"
  ie_secret :: "string option"

definition deliver ::
  "intake_env \<Rightarrow> uuid \<Rightarrow> datetime \<Rightarrow> event_db \<Rightarrow> delivery \<Rightarrow> event_db \<Rightarrow> response \<times> event_db" where
  "deliver env new_id now seen d db =
     (case d of
        RazorpayDelivery body sig eid \<Rightarrow>
          ingest_razorpay (ie_hmac env) (ie_loads env) (ie_coerce env) (ie_secret env) new_id now seen body sig eid db
      | PayPalDelivery len chunks \<Rightarrow>
          ingest_paypal (ie_loads env) (ie_bracketed env) (ie_verify env) new_id now seen len chunks db)"

text \<open>
  A run is the list of the databases after each committed delivery, newest first, and of the events
  scheduled so far. A delivery may have read any database of the past.
\<close>

inductive intake_run :: "intake_env \<Rightarrow> event_db list \<Rightarrow> payment_event list \<Rightarrow> bool" for env where
  start: "intake_run env [\<lparr>db_raw = [], db_events = []\<rparr>] []"
| step: "intake_run env (db # past) scheduled \<Longrightarrow> seen \<in> set (db # past) \<Longrightarrow>
         deliver env new_id now seen d db = (r, db') \<Longrightarrow>
         intake_run env (db' # db # past) (scheduled @ (case rs_scheduled r of None \<Rightarrow> [] | Some e \<Rightarrow> [e]))"

section \<open>Lemmas\<close>

lemma no_colon_identifier: "is_paypal_identifier i \<Longrightarrow> paypal_order_id i = None"
proof (cases "paypal_order_id i")
  case (Some r)
  assume i: "is_paypal_identifier i"
  from Some have "i = paypal_attempt_id r" by (simp add: paypal_order_id_Some)
  with i show ?thesis
    by (simp add: paypal_attempt_id_def PAYPAL_ATTEMPT_PREFIX_def is_paypal_identifier_def is_identifier_char_def
        is_alnum_def)
qed

definition stored_event_ok :: "payment_event \<Rightarrow> bool" where
  "stored_event_ok e \<longleftrightarrow>
     event_row_fits e \<and> paypal_order_id (ev_payment_id e) = None \<and>
     (ev_source_system e = RAZORPAY_SOURCE_SYSTEM \<or>
      ev_source_system e = PAYPAL_SOURCE_SYSTEM \<and> is_paypal_identifier (ev_payment_id e))"

definition intake_ok :: "('a event_db_scheme) \<Rightarrow> bool" where
  "intake_ok db \<longleftrightarrow>
     map raw_identity (db_raw db) = map event_identity (db_events db) \<and>
     distinct (map raw_identity (db_raw db)) \<and>
     distinct (map ev_event_id (db_events db)) \<and>
     list_all stored_event_ok (db_events db)"

lemma save_ingestion_Inr:
  "save_ingestion raw ev db = Inr db' \<longleftrightarrow>
     raw_row_fits raw \<and> event_row_fits ev \<and>
     raw_identity raw \<notin> raw_identity ` set (db_raw db) \<and>
     event_identity ev \<notin> event_identity ` set (db_events db) \<and>
     ev_event_id ev \<notin> ev_event_id ` set (db_events db) \<and>
     db' = db\<lparr>db_raw := db_raw db @ [raw], db_events := db_events db @ [ev]\<rparr>"
  by (auto simp: save_ingestion_def)

lemma normalize_razorpay_Inr:
  "normalize_razorpay_event i now p eid = Inr ev \<Longrightarrow>
     ev_event_id ev = i \<and> ev_source_system ev = RAZORPAY_SOURCE_SYSTEM \<and> ev_source_event_id ev = eid \<and>
     paypal_order_id (ev_payment_id ev) = None"
  by (auto simp: normalize_razorpay_event_def Let_def split: sum.splits if_splits)

lemma normalize_razorpay_again:
  "normalize_razorpay_event i now p eid = Inr ev \<Longrightarrow> \<exists>ev'. normalize_razorpay_event i' now' p eid = Inr ev'"
  by (auto simp: normalize_razorpay_event_def Let_def split: sum.splits if_splits)

text \<open>A committed delivery stores one raw record with its event; the other results leave the database alone.\<close>

definition stores :: "('a event_db_scheme) \<Rightarrow> payment_event \<Rightarrow> digest \<Rightarrow> ('a event_db_scheme) \<Rightarrow> bool" where
  "stores db ev h db' \<longleftrightarrow>
     (\<exists>raw. save_ingestion raw ev db = Inr db' \<and> raw_identity raw = event_identity ev \<and>
            raw_payload_hash raw = h \<and> stored_event_ok ev)"

lemma ingest_razorpay_cases:
  assumes "ingest_razorpay_webhook hm ld co sec i now seen body sig eid db = Inr (s, db')"
  shows "\<exists>parsed payload. verify_razorpay_signature hm body sig sec = Inr () \<and>
           parse_razorpay_event ld co body = Inr (parsed, payload) \<and>
           normalize_razorpay_event i now parsed eid = Inr (st_value s) \<and>
           (if st_duplicate s
            then db' = db \<and> (\<exists>r. get_raw_record seen RAZORPAY_SOURCE_SYSTEM eid = Some r \<and>
                                  raw_payload_hash r = generate_deterministic_hash payload)
            else stores db (st_value s) (generate_deterministic_hash payload) db')"
proof -
  from assms obtain parsed payload where v: "verify_razorpay_signature hm body sig sec = Inr ()"
    and p: "parse_razorpay_event ld co body = Inr (parsed, payload)"
    by (auto simp: ingest_razorpay_webhook_def bind_result_Inr)
  show ?thesis
  proof (cases "get_raw_record seen RAZORPAY_SOURCE_SYSTEM eid")
    case None
    with assms v p obtain raw where n: "normalize_razorpay_event i now parsed eid = Inr (st_value s)"
      "\<not> st_duplicate s" "save_ingestion raw (st_value s) db = Inr db'"
      "raw_source_system raw = RAZORPAY_SOURCE_SYSTEM" "raw_source_event_id raw = eid"
      "raw_payload_hash raw = generate_deterministic_hash payload"
      by (fastforce simp: ingest_razorpay_webhook_def bind_result_Inr Let_def)
    with normalize_razorpay_Inr[OF n(1)] have "stores db (st_value s) (generate_deterministic_hash payload) db'"
      by (auto simp: stores_def raw_identity_def event_identity_def stored_event_ok_def save_ingestion_Inr)
    with v p n(1,2) show ?thesis by auto
  next
    case (Some r)
    with assms v p show ?thesis
      by (auto simp: ingest_razorpay_webhook_def bind_result_Inr Let_def split: if_splits)
  qed
qed

lemma normalize_paypal_again:
  assumes "normalize_paypal_event i now pe = Inr ev"
  shows "\<exists>ev'. normalize_paypal_event i' now' pe = Inr ev'"
proof -
  have "bind_result r (\<lambda>a. Inr (g a)) = Inr b \<Longrightarrow> \<exists>a. r = Inr a" for r :: "(exn, 'x) result" and g b
    by (cases r) auto
  with assms show ?thesis
    by (auto simp: normalize_paypal_event_def Let_def bind_result_Inr split: option.splits if_splits prod.splits)
qed

lemma paypal_event_stored_ok:
  assumes "parse_paypal_event ok j = Inr pe" and "normalize_paypal_event i now pe = Inr ev"
  shows "is_paypal_identifier (ev_payment_id ev) \<and> ev_source_system ev = PAYPAL_SOURCE_SYSTEM \<and>
         ev_source_event_id ev = pe_event_id pe \<and> ev_event_id ev = i"
proof -
  note ids = parse_paypal_event_ids[OF assms(1)]
  have "ev_event_id ev = i"
    using assms(2) by (auto simp: normalize_paypal_event_def Let_def bind_result_Inr split: option.splits if_splits prod.splits)
  moreover from assms(2) ids show ?thesis
    by (rule_tac normalize_paypal_Inr[OF assms(2)]) (use calculation in \<open>auto split: paypal_resource.splits\<close>)
qed

lemma ingest_paypal_cases:
  assumes "ingest_paypal_webhook ld ok ver i now seen body db = Inr (out, db')"
  shows "ver = Inr True \<and> (\<exists>kvs. ld True body = Loaded (JObj kvs) \<and>
     (case parse_paypal_event ok (JObj kvs) of
        Inl e \<Rightarrow> e = UnsupportedEventTypeError \<and> out = IGNORED_UNSUPPORTED \<and> db' = db
      | Inr pe \<Rightarrow>
          (case out of
             STORED ev \<Rightarrow> normalize_paypal_event i now pe = Inr ev \<and>
                          get_raw_record seen PAYPAL_SOURCE_SYSTEM (pe_event_id pe) = None \<and>
                          stores db ev (generate_deterministic_hash (JObj kvs)) db'
           | DUPLICATE \<Rightarrow> db' = db \<and> (\<exists>r s. s \<in> {seen, db} \<and>
               get_raw_record s PAYPAL_SOURCE_SYSTEM (pe_event_id pe) = Some r \<and>
               raw_payload_hash r = generate_deterministic_hash (JObj kvs))
           | IGNORED_UNSUPPORTED \<Rightarrow> False)))"
proof -
  from assms obtain kvs where v: "ver = Inr True" and l: "ld True body = Loaded (JObj kvs)"
    by (auto simp: ingest_paypal_webhook_def bind_result_Inr split: json_load.splits json.splits)
  show ?thesis
  proof (cases "parse_paypal_event ok (JObj kvs)")
    case (Inl e)
    with assms v l show ?thesis by (auto simp: ingest_paypal_webhook_def split: if_splits)
  next
    case p: (Inr pe)
    show ?thesis
    proof (cases "get_raw_record seen PAYPAL_SOURCE_SYSTEM (pe_event_id pe)")
      case (Some r)
      with assms v l p have "out = DUPLICATE \<and> db' = db \<and> raw_payload_hash r = generate_deterministic_hash (JObj kvs)"
        by (auto simp: ingest_paypal_webhook_def resolve_existing_def Let_def bind_result_Inr split: if_splits)
      with v l p Some show ?thesis by auto
    next
      case None
      define raw where "raw = \<lparr>raw_source_system = PAYPAL_SOURCE_SYSTEM, raw_source_event_id = pe_event_id pe,
        raw_received_at = now, raw_payload = JObj kvs, raw_payload_hash = generate_deterministic_hash (JObj kvs)\<rparr>"
      from assms v l p None obtain ev where n: "normalize_paypal_event i now pe = Inr ev"
        by (auto simp: ingest_paypal_webhook_def Let_def bind_result_Inr)
      show ?thesis
      proof (cases "save_ingestion raw ev db")
        case (Inr db1)
        with assms v l p None n have o: "out = STORED ev" "db' = db1"
          by (simp_all add: ingest_paypal_webhook_def Let_def raw_def)
        have "stores db ev (generate_deterministic_hash (JObj kvs)) db'"
          using Inr paypal_event_stored_ok[OF p n] no_colon_identifier o
          by (auto simp: stores_def raw_identity_def event_identity_def stored_event_ok_def save_ingestion_Inr raw_def
              intro!: exI[of _ raw])
        with v l p n None o show ?thesis by simp
      next
        case (Inl e)
        with assms v l p None n obtain r where "out = DUPLICATE" "db' = db"
          "get_raw_record db PAYPAL_SOURCE_SYSTEM (pe_event_id pe) = Some r"
          "raw_payload_hash r = generate_deterministic_hash (JObj kvs)"
          by (auto simp: ingest_paypal_webhook_def Let_def resolve_existing_def bind_result_Inr simp flip: raw_def
              split: if_splits option.splits)
        with v l p show ?thesis by auto
      qed
    qed
  qed
qed


lemma ingest_paypal_db:
  assumes "ingest_paypal_webhook ld ok ver i now seen body db = Inr (out, db')"
  shows "case out of STORED ev \<Rightarrow> \<exists>h. stores db ev h db' | _ \<Rightarrow> db' = db"
  using ingest_paypal_cases[OF assms]
  apply (elim conjE exE)
  subgoal for kvs by (cases "parse_paypal_event ok (JObj kvs)"; cases out) auto
  done

lemma deliver_cases:
  assumes "deliver env i now seen d db = (r, db')"
  shows "db' = db \<and> rs_scheduled r = None \<or>
         (\<exists>ev h. stores db ev h db' \<and> (rs_scheduled r = None \<or> rs_scheduled r = Some ev))"
proof (cases d)
  case (RazorpayDelivery body sig eid)
  define res where "res = ingest_razorpay_webhook (ie_hmac env) (ie_loads env) (ie_coerce env) (ie_secret env)
    i now seen body sig (the eid) db"
  show ?thesis
  proof (cases "truthy eid")
    case True
    show ?thesis
    proof (cases res)
      case (Inl e)
      with assms RazorpayDelivery True show ?thesis
        by (auto simp: deliver_def ingest_razorpay_def razorpay_error_response_def http_exception_def simp flip: res_def)
    next
      case (Inr sd)
      obtain s db1 where sd: "sd = (s, db1)" by (cases sd)
      from Inr have "\<exists>h. if st_duplicate s then db1 = db else stores db (st_value s) h db1"
        unfolding res_def sd by (auto dest!: ingest_razorpay_cases split: if_splits)
      with assms RazorpayDelivery True Inr sd show ?thesis
        by (auto simp: deliver_def ingest_razorpay_def simp flip: res_def split: if_splits)
    qed
  qed (use assms RazorpayDelivery in \<open>auto simp: deliver_def ingest_razorpay_def http_exception_def\<close>)
next
  case (PayPalDelivery len chunks)
  have chunks: "read_chunks l b cs = Inl q \<Longrightarrow> rs_scheduled q = None" for l b cs q
    by (induction l b cs rule: read_chunks.induct) (auto simp: http_exception_def split: if_splits)
  then have body: "read_limited_body len chunks l = Inl q \<Longrightarrow> rs_scheduled q = None" for l q
    by (auto simp: read_limited_body_def http_exception_def split: option.splits if_splits)
  show ?thesis
  proof (cases "read_limited_body len chunks MAX_PAYPAL_WEBHOOK_BODY_BYTES")
    case (Inl q)
    with assms PayPalDelivery body[OF Inl] show ?thesis by (auto simp: deliver_def ingest_paypal_def)
  next
    case b: (Inr body)
    show ?thesis
    proof (cases "ingest_paypal_webhook (ie_loads env) (ie_bracketed env) (ie_verify env body) i now seen body db")
      case (Inl e)
      with assms PayPalDelivery b show ?thesis
        by (auto simp: deliver_def ingest_paypal_def paypal_error_response_def http_exception_def)
    next
      case (Inr od)
      obtain out db1 where od: "od = (out, db1)" by (cases od)
      note c = ingest_paypal_db[OF Inr[unfolded od]]
      show ?thesis
      proof (cases out)
        case (STORED ev)
        with c obtain h where "stores db ev h db1" by auto
        have "db1 = db' \<and> (rs_scheduled r = None \<or> rs_scheduled r = Some ev)"
          using assms PayPalDelivery b Inr od STORED
          by (cases "resolve_pipeline_attempt ev") (auto simp: deliver_def ingest_paypal_def http_exception_def split: if_splits)
        with \<open>stores db ev h db1\<close> show ?thesis by blast
      qed (use assms PayPalDelivery b Inr od c in \<open>auto simp: deliver_def ingest_paypal_def\<close>)
    qed
  qed
qed

lemma stores_extends:
  "stores db ev h db' \<Longrightarrow> \<exists>raw. db_raw db' = db_raw db @ [raw] \<and> db_events db' = db_events db @ [ev] \<and>
     raw_identity raw = event_identity ev \<and> raw_payload_hash raw = h"
  by (auto simp: stores_def save_ingestion_Inr)

lemma stores_ok: "stores db ev h db' \<Longrightarrow> intake_ok db \<Longrightarrow> intake_ok db'"
  by (auto simp: stores_def save_ingestion_Inr intake_ok_def)

definition extends_db :: "('a event_db_scheme) \<Rightarrow> ('b event_db_scheme) \<Rightarrow> bool" where
  "extends_db new old \<longleftrightarrow> prefix (db_raw old) (db_raw new) \<and> prefix (db_events old) (db_events new)"

lemma extends_trans: "extends_db a b \<Longrightarrow> extends_db b c \<Longrightarrow> extends_db a c"
  by (auto simp: extends_db_def intro: prefix_order.trans)

lemma intake_run_ok:
  "intake_run env dbs scheduled \<Longrightarrow>
     list_all intake_ok dbs \<and> sorted_wrt extends_db dbs \<and> subseq scheduled (db_events (hd dbs))"
proof (induction rule: intake_run.induct)
  case start
  show ?case by (simp add: intake_ok_def)
next
  case (step db past scheduled seen i now d r db')
  note IH = step.IH
  have later: "sorted_wrt extends_db (db' # db # past)" if "extends_db db' db"
    using that IH by (auto intro: extends_trans)
  from deliver_cases[OF step.hyps(3)] show ?case
  proof
    assume "db' = db \<and> rs_scheduled r = None"
    with IH later show ?thesis by (auto simp: extends_db_def)
  next
    assume "\<exists>ev h. stores db ev h db' \<and> (rs_scheduled r = None \<or> rs_scheduled r = Some ev)"
    then obtain ev h where s: "stores db ev h db'" "rs_scheduled r = None \<or> rs_scheduled r = Some ev" by blast
    from stores_extends[OF s(1)] have "extends_db db' db" by (auto simp: extends_db_def)
    with later stores_ok[OF s(1)] stores_extends[OF s(1)] s(2) IH show ?thesis
      by (auto simp: subseq_append intro: list_emb_append2 list_emb_append_mono)
  qed
qed

lemma subseq_distinct_map: "subseq xs ys \<Longrightarrow> distinct (map f ys) \<Longrightarrow> distinct (map f xs)"
  by (auto simp: subseq_conv_nths simp flip: nths_map intro: distinct_nthsI)


section \<open>Redelivery\<close>

lemma get_after_store:
  assumes "stores db ev h db'"
  shows "\<exists>r. get_raw_record db' (ev_source_system ev) (ev_source_event_id ev) = Some r \<and> raw_payload_hash r = h"
proof -
  from assms obtain raw where raw: "raw_identity raw \<notin> raw_identity ` set (db_raw db)"
    "db_raw db' = db_raw db @ [raw]" "raw_identity raw = event_identity ev" "raw_payload_hash raw = h"
    by (auto simp: stores_def save_ingestion_Inr)
  have "find (\<lambda>r. raw_source_system r = ev_source_system ev \<and> raw_source_event_id r = ev_source_event_id ev)
      (db_raw db) = None"
    using raw(1,3) by (auto simp: find_None_iff raw_identity_def event_identity_def image_iff)
  with raw show ?thesis
    by (auto simp: get_raw_record_def find_append raw_identity_def event_identity_def)
qed

lemma razorpay_redelivery:
  assumes "ingest_razorpay_webhook hm ld co sec i now db body sig eid db = Inr (s, db')"
  shows "\<exists>s2. ingest_razorpay_webhook hm ld co sec i2 now2 db' body sig eid db' = Inr (s2, db') \<and> st_duplicate s2"
proof -
  from ingest_razorpay_cases[OF assms] obtain parsed payload r where
    v: "verify_razorpay_signature hm body sig sec = Inr ()" "parse_razorpay_event ld co body = Inr (parsed, payload)"
    and n: "normalize_razorpay_event i now parsed eid = Inr (st_value s)"
    and g: "get_raw_record db' RAZORPAY_SOURCE_SYSTEM eid = Some r" "raw_payload_hash r = generate_deterministic_hash payload"
    using normalize_razorpay_Inr get_after_store by (metis (no_types, lifting))
  from normalize_razorpay_again[OF n] obtain ev2 where "normalize_razorpay_event i2 now2 parsed eid = Inr ev2" by blast
  with v g show ?thesis by (simp add: ingest_razorpay_webhook_def Let_def)
qed

lemma paypal_redelivery:
  assumes "ingest_paypal_webhook ld ok ver i now db body db = Inr (out, db')"
  shows "\<exists>out2. ingest_paypal_webhook ld ok ver i2 now2 db' body db' = Inr (out2, db') \<and> (\<forall>ev. out2 \<noteq> STORED ev)"
proof -
  note c = ingest_paypal_cases[OF assms]
  then obtain kvs where l: "ver = Inr True" "ld True body = Loaded (JObj kvs)" by blast
  show ?thesis
  proof (cases "parse_paypal_event ok (JObj kvs)")
    case (Inl e)
    with c l have "e = UnsupportedEventTypeError" by simp
    with Inl l show ?thesis by (simp add: ingest_paypal_webhook_def)
  next
    case (Inr pe)
    from c l Inr have o: "case out of
             STORED ev \<Rightarrow> normalize_paypal_event i now pe = Inr ev \<and> stores db ev (generate_deterministic_hash (JObj kvs)) db'
           | DUPLICATE \<Rightarrow> db' = db \<and> (\<exists>r. get_raw_record db PAYPAL_SOURCE_SYSTEM (pe_event_id pe) = Some r \<and>
               raw_payload_hash r = generate_deterministic_hash (JObj kvs))
           | IGNORED_UNSUPPORTED \<Rightarrow> False"
      by (auto split: paypal_outcome.splits)
    have "\<exists>r. get_raw_record db' PAYPAL_SOURCE_SYSTEM (pe_event_id pe) = Some r \<and>
        raw_payload_hash r = generate_deterministic_hash (JObj kvs)"
    proof (cases out)
      case (STORED ev)
      with o paypal_event_stored_ok[OF Inr] get_after_store show ?thesis by fastforce
    qed (use o in auto)
    with l Inr show ?thesis by (auto simp: ingest_paypal_webhook_def Let_def resolve_existing_def)
  qed
qed

section \<open>Properties\<close>

text \<open>C12: Stage 1 under concurrency. In every run of deliveries, where each may have looked for its
  record in any earlier state of the database (so another delivery may have won the race in
  between), all of these hold. Every state keeps raw records and events in one-to-one
  correspondence by \<open>(source_system, source_event_id)\<close>, with unique identities and event ids, rows
  that fit their columns and payment ids that cannot be taken for another provider's attempt. The tables only
  grow. The events handed to the pipeline are stored ones, in order, and no identity is handed over
  twice.\<close>

theorem intake_exactly_once:
  assumes "intake_run env dbs scheduled"
  shows "list_all intake_ok dbs \<and> sorted_wrt extends_db dbs \<and>
     subseq scheduled (db_events (hd dbs)) \<and> distinct (map event_identity scheduled)"
proof -
  note run = intake_run_ok[OF assms]
  from assms have "dbs \<noteq> []" by (cases rule: intake_run.cases) auto
  with run have "intake_ok (hd dbs)" by (cases dbs) auto
  then have "distinct (map event_identity (db_events (hd dbs)))" unfolding intake_ok_def by metis
  with run show ?thesis by (blast intro: subseq_distinct_map)
qed

text \<open>Delivering a webhook again is idempotent. After a delivery answered with 200, the same delivery
  (with any new event id and clock) is answered with 200, schedules nothing and leaves the database
  as it is; after any other answer nothing was stored or scheduled.\<close>

lemma redelivery_idempotent:
  "case deliver env i1 t1 db d db of (r, db') \<Rightarrow>
     if rs_status r = 200
     then (case deliver env i2 t2 db' d db' of (r2, db2) \<Rightarrow>
             rs_status r2 = 200 \<and> rs_scheduled r2 = None \<and> db2 = db')
     else rs_scheduled r = None \<and> db' = db"
proof (cases d)
  case (RazorpayDelivery body sig eid)
  show ?thesis
  proof (cases "truthy eid")
    case True
    show ?thesis
    proof (cases "ingest_razorpay_webhook (ie_hmac env) (ie_loads env) (ie_coerce env) (ie_secret env)
        i1 t1 db body sig (the eid) db")
      case (Inl e)
      with RazorpayDelivery True show ?thesis
        by (simp add: deliver_def ingest_razorpay_def razorpay_error_response_def http_exception_def)
    next
      case (Inr sd)
      obtain s db' where sd: "sd = (s, db')" by (cases sd)
      from razorpay_redelivery[OF Inr[unfolded sd], of i2 t2] RazorpayDelivery True Inr sd show ?thesis
        by (auto simp: deliver_def ingest_razorpay_def)
    qed
  qed (use RazorpayDelivery in \<open>simp add: deliver_def ingest_razorpay_def http_exception_def\<close>)
next
  case (PayPalDelivery len chunks)
  have chunks: "read_chunks l b cs = Inl q \<Longrightarrow> rs_scheduled q = None \<and> rs_status q \<noteq> 200" for l b cs q
    by (induction l b cs rule: read_chunks.induct) (auto simp: http_exception_def split: if_splits)
  then have body: "read_limited_body len chunks l = Inl q \<Longrightarrow> rs_scheduled q = None \<and> rs_status q \<noteq> 200" for l q
    by (auto simp: read_limited_body_def http_exception_def split: option.splits if_splits)
  show ?thesis
  proof (cases "read_limited_body len chunks MAX_PAYPAL_WEBHOOK_BODY_BYTES")
    case (Inl q)
    with PayPalDelivery body[OF Inl] show ?thesis by (simp add: deliver_def ingest_paypal_def)
  next
    case b: (Inr body)
    show ?thesis
    proof (cases "ingest_paypal_webhook (ie_loads env) (ie_bracketed env) (ie_verify env body) i1 t1 db body db")
      case (Inl e)
      with PayPalDelivery b show ?thesis
        by (simp add: deliver_def ingest_paypal_def paypal_error_response_def http_exception_def)
    next
      case (Inr od)
      obtain out db' where od: "od = (out, db')" by (cases od)
      from paypal_redelivery[OF Inr[unfolded od], of i2 t2] obtain out2 where
        again: "ingest_paypal_webhook (ie_loads env) (ie_bracketed env) (ie_verify env body) i2 t2 db' body db' = Inr (out2, db')"
        "\<forall>ev. out2 \<noteq> STORED ev" by blast
      have r2: "case deliver env i2 t2 db' d db' of (r2, db2) \<Rightarrow>
          rs_status r2 = 200 \<and> rs_scheduled r2 = None \<and> db2 = db'"
        using again PayPalDelivery b by (cases out2) (simp_all add: deliver_def ingest_paypal_def)
      have "\<exists>r. deliver env i1 t1 db d db = (r, db') \<and> rs_status r = 200"
      proof (cases out)
        case (STORED ev)
        from resolve_cases[of ev] have "\<exists>a. resolve_pipeline_attempt ev = Inr a" by blast
        with STORED PayPalDelivery b Inr od show ?thesis by (auto simp: deliver_def ingest_paypal_def)
      qed (use PayPalDelivery b Inr od in \<open>simp_all add: deliver_def ingest_paypal_def\<close>)
      with r2 show ?thesis by auto
    qed
  qed
qed


section \<open>A concrete run\<close>

text \<open>
  A PayPal order approval, the same approval delivered again by a worker that had looked before the first
  was stored, and a Razorpay authorization.
\<close>

definition example_paypal_document :: json where
  "example_paypal_document =
     JObj [(''id'', JStr ''WH-1''), (''event_type'', JStr ''CHECKOUT.ORDER.APPROVED''),
           (''create_time'', JStr ''2024-05-01T10:00:00Z''), (''resource_type'', JStr ''checkout-order''),
           (''resource_version'', JStr ''2.0''),
           (''resource'', JObj [(''id'', JStr ''ORDER1''), (''status'', JStr ''APPROVED''),
              (''purchase_units'', JArr [JObj [(''amount'',
                 JObj [(''currency_code'', JStr ''USD''), (''value'', JStr ''10.50'')])]])])]"

definition example_razorpay_document :: json where
  "example_razorpay_document =
     JObj [(''entity'', JStr ''event''), (''account_id'', JStr ''acc''), (''event'', JStr ''payment.authorized''),
           (''contains'', JArr [JStr ''payment'']), (''created_at'', JInt 1714557600),
           (''payload'', JObj [(''payment'', JObj [(''entity'', JObj
              [(''id'', JStr ''pay_1''), (''entity'', JStr ''payment''), (''amount'', JInt 250000),
               (''currency'', JStr ''inr''), (''status'', JStr ''authorized''), (''method'', JStr ''card''),
               (''created_at'', JInt 1714557590)])])])]"

definition example_intake_env :: intake_env where
  "example_intake_env =
     \<lparr>ie_hmac = (\<lambda>_ _. ''sig''),
      ie_loads = (\<lambda>_ body. if body = ''P'' then Loaded example_paypal_document
                            else if body = ''R'' then Loaded example_razorpay_document else JSONDecodeError),
      ie_coerce = (\<lambda>j. case j of JInt i \<Rightarrow> Some i | _ \<Rightarrow> None), ie_bracketed = (\<lambda>_. True),
      ie_verify = (\<lambda>_. Inr True), ie_secret = Some ''secret''\<rparr>"

definition example_paypal_delivery :: delivery where
  "example_paypal_delivery = PayPalDelivery None [''P'']"

definition example_razorpay_delivery :: delivery where
  "example_razorpay_delivery = RazorpayDelivery ''R'' (Some ''sig'') (Some ''evt_1'')"

definition example_intake :: "(event_db list \<times> payment_event list)" where
  "example_intake =
     (let db0 = \<lparr>db_raw = [], db_events = []\<rparr>;
          (r1, db1) = deliver example_intake_env (Uuid4 1) 1 db0 example_paypal_delivery db0;
          (r2, db2) = deliver example_intake_env (Uuid4 2) 2 db0 example_paypal_delivery db1;
          (r3, db3) = deliver example_intake_env (Uuid4 3) 3 db1 example_razorpay_delivery db2;
          out = (\<lambda>r. case rs_scheduled r of None \<Rightarrow> [] | Some e \<Rightarrow> [e])
      in ([db3, db2, db1, db0], [] @ out r1 @ out r2 @ out r3))"

lemma example_intake_run: "intake_run example_intake_env (fst example_intake) (snd example_intake)"
proof -
  let ?db0 = "\<lparr>db_raw = [], db_events = []\<rparr> :: event_db"
  obtain r1 db1 where s1: "deliver example_intake_env (Uuid4 1) 1 ?db0 example_paypal_delivery ?db0 = (r1, db1)"
    by fastforce
  obtain r2 db2 where s2: "deliver example_intake_env (Uuid4 2) 2 ?db0 example_paypal_delivery db1 = (r2, db2)"
    by fastforce
  obtain r3 db3 where s3: "deliver example_intake_env (Uuid4 3) 3 db1 example_razorpay_delivery db2 = (r3, db3)"
    by fastforce
  note run1 = intake_run.step[OF intake_run.start _ s1, simplified]
  note run2 = intake_run.step[OF run1 _ s2, simplified]
  note run3 = intake_run.step[OF run2 _ s3, simplified]
  from run3 s1 s2 s3 show ?thesis by (simp add: example_intake_def Let_def)
qed

lemma example_intake_result: "length (fst example_intake) = 4 \<and> map ev_payment_id (snd example_intake) = [''ORDER1'', ''pay_1'']"
  by code_simp

theorem intake_exactly_once_witness:
  "list_all intake_ok (fst example_intake) \<and> distinct (map event_identity (snd example_intake)) \<and>
   map ev_payment_id (snd example_intake) = [''ORDER1'', ''pay_1'']"
  using intake_exactly_once[OF example_intake_run] example_intake_result by simp

text \<open>
  Two Razorpay deliveries with a valid signature whose exceptions the route does not name: an envelope
  time beyond the machine's time type, and a body that is not UTF-8.
\<close>

lemma razorpay_boundary_inputs:
  "fromtimestamp (2 ^ 63) = Inl OverflowError \<and>
   (\<forall>loads body. loads False body = OtherLoadError \<longrightarrow>
      rs_status (fst (ingest_razorpay (\<lambda>_ _. ''sig'') loads coerce_int (Some ''secret'') new_id now db
        body (Some ''sig'') (Some ''evt_1'') db)) = 500)"
  by (auto simp: fromtimestamp_def ingest_razorpay_def ingest_razorpay_webhook_def verify_razorpay_signature_def
      is_ascii_def parse_razorpay_event_def razorpay_error_response_def http_exception_def)


end
