(* ===== verification/PaypalClient.thy ===== *)
theory PaypalClient
  imports Ingestion
begin

text \<open>
  The PayPal REST client (\<open>infrastructure/paypal_client.py\<close>): configuration, the OAuth token cache and its
  lock under any interleaving of tasks, and the verification of a webhook by PayPal, down to the bytes that
  are posted; and what it means for the intake route.

  Parameters: \<open>post\<close> is the network (one request to one reply), clock readings are the floats that
  \<open>time.monotonic\<close> returns. A character of a header or setting is a code point below 256, as Starlette
  decodes headers. Exception messages are not modelled.
\<close>

section \<open>Configuration\<close>

text \<open>\<open>str.isspace\<close> and \<open>str.strip\<close> below code point 256\<close>

definition is_space :: "char \<Rightarrow> bool" where
  "is_space c = (let n = of_char c :: nat in 9 \<le> n \<and> n \<le> 13 \<or> 28 \<le> n \<and> n \<le> 32 \<or> n = 133 \<or> n = 160)"

definition strip :: "string \<Rightarrow> string" where
  "strip s = rev (dropWhile is_space (rev (dropWhile is_space s)))"

text \<open>\<open>os.environ\<close>, and \<open>env.get(name, '')\<close>\<close>

type_synonym environ = "string \<Rightarrow> string option"

definition env_get :: "environ \<Rightarrow> string \<Rightarrow> string" where
  "env_get env name = (case env name of None \<Rightarrow> '''' | Some v \<Rightarrow> v)"

definition SANDBOX_BASE_URL :: string where "SANDBOX_BASE_URL = ''https://api-m.sandbox.paypal.com''"
definition LIVE_BASE_URL :: string where "LIVE_BASE_URL = ''https://api-m.paypal.com''"
definition TOKEN_PATH :: string where "TOKEN_PATH = ''/v1/oauth2/token''"
definition VERIFY_WEBHOOK_SIGNATURE_PATH :: string where
  "VERIFY_WEBHOOK_SIGNATURE_PATH = ''/v1/notifications/verify-webhook-signature''"
definition TOKEN_REFRESH_MARGIN_SECONDS :: int where "TOKEN_REFRESH_MARGIN_SECONDS = 60"
definition MAX_TOKEN_LIFETIME_SECONDS :: int where "MAX_TOKEN_LIFETIME_SECONDS = 86400"
definition MAX_TOKEN_LENGTH :: nat where "MAX_TOKEN_LENGTH = 4096"

datatype paypal_environment = SANDBOX | LIVE

definition read_environment :: "string \<Rightarrow> paypal_environment option" where
  "read_environment s = (if s = ''sandbox'' then Some SANDBOX else if s = ''live'' then Some LIVE else None)"

record paypal_config =
  cf_client_id :: string
  cf_client_secret :: string
  cf_webhook_id :: "string option"
  cf_environment :: paypal_environment

text \<open>\<open>^[A-Za-z0-9_-]{1,n}$\<close> with \<open>re.match\<close>\<close>

definition is_setting_id :: "nat \<Rightarrow> string \<Rightarrow> bool" where
  "is_setting_id n s = (let t = dollar s in t \<noteq> [] \<and> length t \<le> n \<and> list_all is_identifier_char t)"

definition new_paypal_config ::
  "string \<Rightarrow> string \<Rightarrow> string option \<Rightarrow> paypal_environment \<Rightarrow> (exn, paypal_config) result" where
  "new_paypal_config client_id client_secret webhook_id environment =
     (if is_setting_id 256 client_id \<and> strip client_secret \<noteq> [] \<and>
         (case webhook_id of None \<Rightarrow> True | Some w \<Rightarrow> is_setting_id 128 w)
      then Inr \<lparr>cf_client_id = client_id, cf_client_secret = client_secret, cf_webhook_id = webhook_id,
                cf_environment = environment\<rparr>
      else Inl PayPalConfigurationError)"

definition base_url :: "paypal_config \<Rightarrow> string" where
  "base_url config = (case cf_environment config of SANDBOX \<Rightarrow> SANDBOX_BASE_URL | LIVE \<Rightarrow> LIVE_BASE_URL)"

definition non_empty :: "string \<Rightarrow> string option" where
  "non_empty s = (if s = [] then None else Some s)"

definition config_from_env :: "environ \<Rightarrow> (exn, paypal_config) result" where
  "config_from_env env =
     (if strip (env_get env ''PAYPAL_CLIENT_ID'') = [] \<or> strip (env_get env ''PAYPAL_CLIENT_SECRET'') = []
      then Inl PayPalConfigurationError
      else
        let raw_environment = strip (env_get env ''PAYPAL_ENVIRONMENT'');
            raw_environment = (if raw_environment = [] then ''sandbox'' else raw_environment)
        in case read_environment raw_environment of
             None \<Rightarrow> Inl PayPalConfigurationError
           | Some environment \<Rightarrow>
               new_paypal_config (strip (env_get env ''PAYPAL_CLIENT_ID'')) (env_get env ''PAYPAL_CLIENT_SECRET'')
                 (non_empty (strip (env_get env ''PAYPAL_WEBHOOK_ID''))) environment)"

section \<open>Requests and replies\<close>

datatype http_request =
    TokenRequest string string string  \<comment> \<open>URL, Basic user and password\<close>
  | VerifyRequest string string string  \<comment> \<open>URL, bearer token, content\<close>

text \<open>
  A reply times out, fails in transport, or has a status and a body: \<open>None\<close> where \<open>response.json()\<close> raises
  \<open>ValueError\<close>.
\<close>

datatype http_reply = HttpTimeout | HttpFailure | HttpResponse int "json option"

section \<open>The access token\<close>

record cached_token =
  ct_value :: string
  ct_refresh_at :: pyfloat

text \<open>\<open>^[\x21-\x7e]+$\<close>\<close>

definition is_token :: "string \<Rightarrow> bool" where
  "is_token s = (let t = dollar s in t \<noteq> [] \<and> list_all (\<lambda>c. 33 \<le> (of_char c :: nat) \<and> (of_char c :: nat) \<le> 126) t)"

definition token_of_body :: "json \<Rightarrow> (string \<times> int) option" where
  "token_of_body body =
     (case (json_get body ''access_token'', json_get body ''token_type'', json_get body ''expires_in'') of
        (Some (JStr access_token), Some (JStr token_type), Some (JInt expires_in)) \<Rightarrow>
          if length access_token \<le> MAX_TOKEN_LENGTH \<and> is_token access_token \<and> str_lower token_type = ''bearer'' \<and>
             0 < expires_in \<and> expires_in \<le> MAX_TOKEN_LIFETIME_SECONDS
          then Some (access_token, expires_in) else None
      | _ \<Rightarrow> None)"

definition token_of_reply :: "pyfloat \<Rightarrow> http_reply \<Rightarrow> (exn, cached_token) result" where
  "token_of_reply requested_at reply =
     (case reply of
        HttpTimeout \<Rightarrow> Inl PayPalUnavailableError
      | HttpFailure \<Rightarrow> Inl PayPalUnavailableError
      | HttpResponse status body \<Rightarrow>
          if status \<in> {400, 401, 403} then Inl PayPalAuthError
          else if status \<noteq> 200 then Inl PayPalUnavailableError
          else case Option.bind body token_of_body of
                 None \<Rightarrow> Inl PayPalUnavailableError
               | Some (access_token, expires_in) \<Rightarrow>
                   Inr \<lparr>ct_value = access_token,
                        ct_refresh_at = fl (requested_at + of_int (max (expires_in - TOKEN_REFRESH_MARGIN_SECONDS) 0))\<rparr>)"

definition valid_cached_token :: "pyfloat \<Rightarrow> cached_token option \<Rightarrow> string option" where
  "valid_cached_token clock tok =
     (case tok of None \<Rightarrow> None | Some c \<Rightarrow> if clock < ct_refresh_at c then Some (ct_value c) else None)"

definition discard_token :: "string \<Rightarrow> cached_token option \<Rightarrow> cached_token option" where
  "discard_token access_token tok =
     (case tok of None \<Rightarrow> None | Some c \<Rightarrow> if ct_value c = access_token then None else tok)"

definition token_request :: "paypal_config \<Rightarrow> http_request" where
  "token_request config = TokenRequest (base_url config @ TOKEN_PATH) (cf_client_id config) (cf_client_secret config)"

text \<open>
  One call of \<open>get_access_token\<close> on its own; the clock is read before the lock, inside it, and when the request
  is sent.
\<close>

definition get_access_token ::
  "(http_request \<Rightarrow> http_reply) \<Rightarrow> pyfloat \<times> pyfloat \<times> pyfloat \<Rightarrow> paypal_config \<Rightarrow> cached_token option \<Rightarrow>
   (exn, string) result \<times> cached_token option" where
  "get_access_token post clocks config tok =
     (case clocks of (t1, t2, t3) \<Rightarrow>
        case valid_cached_token t1 tok of
          Some v \<Rightarrow> (Inr v, tok)
        | None \<Rightarrow>
            (case valid_cached_token t2 tok of
               Some v \<Rightarrow> (Inr v, tok)
             | None \<Rightarrow>
                 (case token_of_reply t3 (post (token_request config)) of
                    Inl e \<Rightarrow> (Inl e, tok)
                  | Inr c \<Rightarrow> (Inr (ct_value c), Some c))))"

section \<open>Concurrent calls\<close>

text \<open>
  The tasks of the process share the client. Between two awaits a task runs alone: it is called and looks at
  the cache, it gets the lock and looks again, its request is answered, it is cancelled; and a verification that
  was refused with 401 discards its token. A request that is sent and a token that is granted are recorded.
\<close>

datatype token_task = Idle | WaitingLock | Fetching pyfloat | Returned "(exn, string) result" | Cancelled

record token_system =
  ts_token :: "cached_token option"
  ts_lock :: "nat option"
  ts_task :: "nat \<Rightarrow> token_task"
  ts_sent :: "pyfloat list"
  ts_granted :: "cached_token list"

datatype token_event =
    CallToken nat pyfloat
  | AcquireLock nat pyfloat pyfloat
  | AnswerToken nat http_reply
  | CancelTask nat
  | DiscardToken string

definition set_task :: "nat \<Rightarrow> token_task \<Rightarrow> token_system \<Rightarrow> token_system" where
  "set_task i t s = s\<lparr>ts_task := (ts_task s)(i := t)\<rparr>"

definition token_step :: "token_event \<Rightarrow> token_system \<Rightarrow> token_system" where
  "token_step ev s =
     (case ev of
        CallToken i t \<Rightarrow>
          if ts_task s i \<noteq> Idle then s
          else (case valid_cached_token t (ts_token s) of
                  Some v \<Rightarrow> set_task i (Returned (Inr v)) s
                | None \<Rightarrow> set_task i WaitingLock s)
      | AcquireLock i t requested_at \<Rightarrow>
          if ts_task s i \<noteq> WaitingLock \<or> ts_lock s \<noteq> None then s
          else (case valid_cached_token t (ts_token s) of
                  Some v \<Rightarrow> set_task i (Returned (Inr v)) s
                | None \<Rightarrow> set_task i (Fetching requested_at)
                            (s\<lparr>ts_lock := Some i, ts_sent := ts_sent s @ [requested_at]\<rparr>))
      | AnswerToken i reply \<Rightarrow>
          (case ts_task s i of
             Fetching requested_at \<Rightarrow>
               (case token_of_reply requested_at reply of
                  Inl e \<Rightarrow> set_task i (Returned (Inl e)) (s\<lparr>ts_lock := None\<rparr>)
                | Inr c \<Rightarrow> set_task i (Returned (Inr (ct_value c)))
                             (s\<lparr>ts_lock := None, ts_token := Some c, ts_granted := ts_granted s @ [c]\<rparr>))
           | _ \<Rightarrow> s)
      | CancelTask i \<Rightarrow>
          (case ts_task s i of
             Fetching _ \<Rightarrow> set_task i Cancelled (s\<lparr>ts_lock := None\<rparr>)
           | WaitingLock \<Rightarrow> set_task i Cancelled s
           | _ \<Rightarrow> s)
      | DiscardToken v \<Rightarrow> s\<lparr>ts_token := discard_token v (ts_token s)\<rparr>)"

definition initial_tokens :: token_system where
  "initial_tokens = \<lparr>ts_token = None, ts_lock = None, ts_task = (\<lambda>_. Idle), ts_sent = [], ts_granted = []\<rparr>"

definition run_tokens :: "token_event list \<Rightarrow> token_system" where
  "run_tokens evs = fold token_step evs initial_tokens"

section \<open>Verification of a webhook\<close>

definition TRANSMISSION_HEADER_FIELDS :: "(string \<times> string) list" where
  "TRANSMISSION_HEADER_FIELDS =
     [(''paypal-auth-algo'', ''auth_algo''), (''paypal-cert-url'', ''cert_url''),
      (''paypal-transmission-id'', ''transmission_id''), (''paypal-transmission-sig'', ''transmission_sig''),
      (''paypal-transmission-time'', ''transmission_time'')]"

text \<open>The fields found so far, in the order of their first header.\<close>

definition add_transmission_field ::
  "string \<times> string \<Rightarrow> (string \<times> string) list \<Rightarrow> (exn, (string \<times> string) list) result" where
  "add_transmission_field header found =
     (case header of (name, value) \<Rightarrow>
        case map_of TRANSMISSION_HEADER_FIELDS (str_lower name) of
          None \<Rightarrow> Inr found
        | Some field_name \<Rightarrow>
            if strip value = [] then Inr found
            else (case map_of found field_name of
                    Some v \<Rightarrow> if v \<noteq> value then Inl InvalidWebhookSignatureError else Inr found
                  | None \<Rightarrow> Inr (found @ [(field_name, value)])))"

definition transmission_fields :: "(string \<times> string) list \<Rightarrow> (exn, (string \<times> string) list) result" where
  "transmission_fields headers =
     bind_result (fold_result add_transmission_field headers [])
       (\<lambda>found. if list_all (\<lambda>(_, name). map_of found name \<noteq> None) TRANSMISSION_HEADER_FIELDS
                 then Inr found else Inl InvalidWebhookSignatureError)"

text \<open>\<open>json.dumps\<close> of a string, which escapes everything but printable ASCII\<close>

definition hex_digit :: "nat \<Rightarrow> char" where
  "hex_digit n = char_of (if n < 10 then 48 + n else 87 + n)"

definition escape_char :: "char \<Rightarrow> string" where
  "escape_char c =
     (let n = of_char c :: nat; b = CHR 0x5C in
      if n = 0x22 then [b, CHR 0x22]
      else if n = 0x5C then [b, b]
      else if n = 0x0A then [b, CHR ''n'']
      else if n = 0x0D then [b, CHR ''r'']
      else if n = 0x09 then [b, CHR ''t'']
      else if n = 0x0C then [b, CHR ''f'']
      else if n = 0x08 then [b, CHR ''b'']
      else if 32 \<le> n \<and> n \<le> 126 then [c]
      else [b, CHR ''u'', CHR ''0'', CHR ''0'', hex_digit (n div 16), hex_digit (n mod 16)])"

definition dumps_string :: "string \<Rightarrow> string" where
  "dumps_string s = CHR 0x22 # concat (map escape_char s) @ [CHR 0x22]"

text \<open>\<open>json.dumps\<close> of an object of strings with compact separators, without its closing brace\<close>

fun dumps_members :: "(string \<times> string) list \<Rightarrow> string" where
  "dumps_members [] = []"
| "dumps_members [(k, v)] = dumps_string k @ '':'' @ dumps_string v"
| "dumps_members ((k, v) # kvs) = dumps_string k @ '':'' @ dumps_string v @ '','' @ dumps_members kvs"

definition verification_request_body ::
  "(bool \<Rightarrow> string \<Rightarrow> json_load) \<Rightarrow> (string \<times> string) list \<Rightarrow> string \<Rightarrow> string \<Rightarrow> (exn, string) result" where
  "verification_request_body loads transmission webhook_id raw_body =
     (case loads True raw_body of
        Loaded (JObj _) \<Rightarrow>
          Inr (''{'' @ dumps_members (transmission @ [(''webhook_id'', webhook_id)]) @
               '','' @ dumps_string ''webhook_event'' @ '':'' @ raw_body @ ''}'')
      | _ \<Rightarrow> Inl MalformedInputError)"

text \<open>The answer, and whether the token was refused.\<close>

definition verified_of_reply :: "http_reply \<Rightarrow> (exn, bool) result" where
  "verified_of_reply reply =
     (case reply of
        HttpTimeout \<Rightarrow> Inl PayPalUnavailableError
      | HttpFailure \<Rightarrow> Inl PayPalUnavailableError
      | HttpResponse status body \<Rightarrow>
          if status = 401 \<or> status = 403 then Inl PayPalAuthError
          else if status = 400 then Inl PayPalVerificationRequestRejectedError
          else if status \<noteq> 200 then Inl PayPalUnavailableError
          else (case body of
                  None \<Rightarrow> Inl PayPalUnavailableError
                | Some j \<Rightarrow>
                    if json_get j ''verification_status'' = Some (JStr ''SUCCESS'') then Inr True
                    else if json_get j ''verification_status'' = Some (JStr ''FAILURE'') then Inr False
                    else Inl PayPalUnavailableError))"

definition token_refused :: "http_reply \<Rightarrow> bool" where
  "token_refused reply = (case reply of HttpResponse status _ \<Rightarrow> status = 401 | _ \<Rightarrow> False)"

definition verify_webhook_signature ::
  "(bool \<Rightarrow> string \<Rightarrow> json_load) \<Rightarrow> (http_request \<Rightarrow> http_reply) \<Rightarrow> pyfloat \<times> pyfloat \<times> pyfloat \<Rightarrow> paypal_config \<Rightarrow>
   (string \<times> string) list \<Rightarrow> string \<Rightarrow> cached_token option \<Rightarrow> (exn, bool) result \<times> cached_token option" where
  "verify_webhook_signature loads post clocks config headers raw_body tok =
     (if \<not> truthy (cf_webhook_id config) then (Inl PayPalConfigurationError, tok)
      else case bind_result (transmission_fields headers)
                  (\<lambda>transmission. verification_request_body loads transmission (the (cf_webhook_id config)) raw_body) of
             Inl e \<Rightarrow> (Inl e, tok)
           | Inr content \<Rightarrow>
               (case get_access_token post clocks config tok of
                  (Inl e, tok') \<Rightarrow> (Inl e, tok')
                | (Inr access_token, tok') \<Rightarrow>
                    let reply = post (VerifyRequest (base_url config @ VERIFY_WEBHOOK_SIGNATURE_PATH) access_token content)
                    in (verified_of_reply reply,
                        if token_refused reply then discard_token access_token tok' else tok')))"

section \<open>The intake that uses it\<close>

text \<open>
  The client is built once per process and shared by its requests (\<open>main.py\<close>, \<open>api/dependencies.py\<close>); without
  usable settings the route answers 503.
\<close>

definition create_paypal_client :: "environ \<Rightarrow> paypal_config option" where
  "create_paypal_client env = (case config_from_env env of Inl _ \<Rightarrow> None | Inr config \<Rightarrow> Some config)"

definition paypal_route ::
  "(bool \<Rightarrow> string \<Rightarrow> json_load) \<Rightarrow> (string \<Rightarrow> bool) \<Rightarrow> (http_request \<Rightarrow> http_reply) \<Rightarrow> pyfloat \<times> pyfloat \<times> pyfloat \<Rightarrow>
   paypal_config option \<Rightarrow> (string \<times> string) list \<Rightarrow> uuid \<Rightarrow> datetime \<Rightarrow> ('a event_db_scheme) \<Rightarrow>
   int option option \<Rightarrow> string list \<Rightarrow> cached_token option \<Rightarrow> ('a event_db_scheme) \<Rightarrow> response \<times> ('a event_db_scheme)" where
  "paypal_route loads bracketed_ok post clocks client headers new_id now seen declared_length chunks tok db =
     (case client of
        None \<Rightarrow> (http_exception 503 ''PayPal webhook intake is not configured'', db)
      | Some config \<Rightarrow>
          ingest_paypal loads bracketed_ok
            (\<lambda>raw_body. fst (verify_webhook_signature loads post clocks config headers raw_body tok))
            new_id now seen declared_length chunks db)"

section \<open>The token cache\<close>

lemma token_of_reply_Inr:
  "token_of_reply t r = Inr c \<longleftrightarrow>
     (\<exists>j n. r = HttpResponse 200 (Some j) \<and> token_of_body j = Some (ct_value c, n) \<and>
        ct_refresh_at c = fl (t + of_int (max (n - TOKEN_REFRESH_MARGIN_SECONDS) 0)))"
  by (cases c; cases r) (auto simp: token_of_reply_def bind_eq_Some_conv split: option.splits)

lemma token_of_reply_Inl: "token_of_reply t r = Inl e \<Longrightarrow> e = PayPalAuthError \<or> e = PayPalUnavailableError"
  by (auto simp: token_of_reply_def split: http_reply.splits option.splits if_splits)

lemma token_of_body_Some:
  "token_of_body j = Some (v, n) \<Longrightarrow> is_token v \<and> 0 < n \<and> n \<le> MAX_TOKEN_LIFETIME_SECONDS"
  by (auto simp: token_of_body_def split: option.splits json.splits if_splits)

lemma valid_cached_token_Some:
  "valid_cached_token t tok = Some v \<longleftrightarrow> (\<exists>c. tok = Some c \<and> t < ct_refresh_at c \<and> v = ct_value c)"
  by (auto simp: valid_cached_token_def split: option.splits)

lemma valid_cached_token_None:
  "valid_cached_token t tok = None \<longleftrightarrow> (\<forall>c. tok = Some c \<longrightarrow> ct_refresh_at c \<le> t)"
  by (auto simp: valid_cached_token_def not_less split: option.splits)

lemma set_task_simps [simp]:
  "ts_token (set_task i t s) = ts_token s" "ts_lock (set_task i t s) = ts_lock s"
  "ts_task (set_task i t s) = (ts_task s)(i := t)" "ts_sent (set_task i t s) = ts_sent s"
  "ts_granted (set_task i t s) = ts_granted s"
  by (simp_all add: set_task_def)

text \<open>Who holds the lock fetches, and what is handed out was granted.\<close>

definition task_ok :: "nat option \<Rightarrow> cached_token list \<Rightarrow> nat \<Rightarrow> token_task \<Rightarrow> bool" where
  "task_ok lock granted i t =
     (case t of
        Fetching _ \<Rightarrow> lock = Some i
      | Returned (Inr v) \<Rightarrow> lock \<noteq> Some i \<and> v \<in> ct_value ` set granted
      | _ \<Rightarrow> lock \<noteq> Some i)"

definition tokens_ok :: "token_system \<Rightarrow> bool" where
  "tokens_ok s \<longleftrightarrow>
     (\<forall>i. task_ok (ts_lock s) (ts_granted s) i (ts_task s i)) \<and> set_option (ts_token s) \<subseteq> set (ts_granted s) \<and>
     length (ts_granted s) + card (set_option (ts_lock s)) \<le> length (ts_sent s)"

lemma task_ok_simps [simp]:
  "task_ok L G i (Fetching r) \<longleftrightarrow> L = Some i"
  "task_ok L G i (Returned (Inr v)) \<longleftrightarrow> L \<noteq> Some i \<and> v \<in> ct_value ` set G"
  "task_ok L G i (Returned (Inl e)) \<longleftrightarrow> L \<noteq> Some i"
  "task_ok L G i Idle \<longleftrightarrow> L \<noteq> Some i"
  "task_ok L G i WaitingLock \<longleftrightarrow> L \<noteq> Some i"
  "task_ok L G i Cancelled \<longleftrightarrow> L \<noteq> Some i"
  by (simp_all add: task_ok_def)

lemma task_ok_mono:
  "task_ok L G i t \<Longrightarrow> (L' = Some i) = (L = Some i) \<Longrightarrow> set G \<subseteq> set G' \<Longrightarrow> task_ok L' G' i t"
  by (auto simp: task_ok_def split: token_task.splits sum.splits)

lemma tokens_ok_task: "tokens_ok s \<Longrightarrow> task_ok (ts_lock s) (ts_granted s) i (ts_task s i)"
  by (simp add: tokens_ok_def)

lemma tokens_ok_put:
  assumes ok: "tokens_ok s" and same: "ts_task s' = ts_task s"
    and lock: "ts_lock s' \<in> {ts_lock s, Some i, None}" "ts_lock s \<in> {ts_lock s', Some i, None}"
    and task: "task_ok (ts_lock s') (ts_granted s') i t" and grows: "set (ts_granted s) \<subseteq> set (ts_granted s')"
    and token: "set_option (ts_token s') \<subseteq> set (ts_granted s')"
    and sent: "length (ts_granted s') + card (set_option (ts_lock s')) \<le> length (ts_sent s')"
  shows "tokens_ok (set_task i t s')"
proof -
  have "task_ok (ts_lock s') (ts_granted s') j (ts_task s j)" if "j \<noteq> i" for j
  proof (rule task_ok_mono[OF tokens_ok_task[OF ok] _ grows])
    show "(ts_lock s' = Some j) = (ts_lock s = Some j)" using lock that by auto
  qed
  then show ?thesis using task same token sent by (simp add: tokens_ok_def)
qed

lemma tokens_ok_step:
  assumes ok: "tokens_ok s"
  shows "tokens_ok (token_step ev s)"
proof -
  note invariant = ok[unfolded tokens_ok_def]
  note put = tokens_ok_put[OF ok]
  show ?thesis
  proof (cases ev)
    case (CallToken i t)
    with invariant tokens_ok_task[OF ok, of i] show ?thesis
      by (cases "ts_task s i"; cases "ts_token s")
        (auto simp: token_step_def valid_cached_token_def ok intro!: put)
  next
    case (AcquireLock i t r)
    with invariant tokens_ok_task[OF ok, of i] show ?thesis
      by (cases "ts_task s i"; cases "ts_token s"; cases "ts_lock s")
        (auto simp: token_step_def valid_cached_token_def ok intro!: put)
  next
    case (AnswerToken i r)
    with invariant tokens_ok_task[OF ok, of i] show ?thesis
      by (cases "ts_task s i") (auto simp: token_step_def ok split: sum.splits intro!: put)
  next
    case (CancelTask i)
    with invariant tokens_ok_task[OF ok, of i] show ?thesis
      by (cases "ts_task s i") (auto simp: token_step_def ok intro!: put)
  next
    case (DiscardToken v)
    with invariant show ?thesis
      by (auto simp: token_step_def tokens_ok_def discard_token_def split: option.splits if_splits)
  qed
qed

lemma tokens_ok_run: "tokens_ok (run_tokens evs)"
proof -
  have "tokens_ok s \<Longrightarrow> tokens_ok (fold token_step evs s)" for s
    by (induction evs arbitrary: s) (simp_all add: tokens_ok_step)
  moreover have "tokens_ok initial_tokens" by (simp add: tokens_ok_def initial_tokens_def)
  ultimately show ?thesis unfolding run_tokens_def by blast
qed

text \<open>Events in which no token is discarded and every clock reading precedes the refresh of all granted tokens.\<close>

definition calm_event :: "cached_token list \<Rightarrow> token_event \<Rightarrow> bool" where
  "calm_event granted ev =
     (case ev of
        CallToken _ t \<Rightarrow> list_all (\<lambda>c. t < ct_refresh_at c) granted
      | AcquireLock _ t _ \<Rightarrow> list_all (\<lambda>c. t < ct_refresh_at c) granted
      | DiscardToken _ \<Rightarrow> False
      | _ \<Rightarrow> True)"

lemma granted_step: "set (ts_granted s) \<subseteq> set (ts_granted (token_step ev s))"
  by (auto simp: token_step_def split: token_event.splits option.splits token_task.splits sum.splits)

lemma calm_subset: "calm_event G ev \<Longrightarrow> set G' \<subseteq> set G \<Longrightarrow> calm_event G' ev"
  by (auto simp: calm_event_def list_all_iff split: token_event.splits)

lemma calm_single:
  assumes "list_all (calm_event (ts_granted (run_tokens evs))) evs"
  shows "ts_granted (run_tokens evs) = [] \<or>
    (\<exists>c. ts_granted (run_tokens evs) = [c] \<and> ts_token (run_tokens evs) = Some c \<and> ts_lock (run_tokens evs) = None)"
  using assms
proof (induction evs rule: rev_induct)
  case Nil
  then show ?case by (simp add: run_tokens_def initial_tokens_def)
next
  case (snoc ev evs)
  let ?s = "run_tokens evs" and ?s' = "run_tokens (evs @ [ev])"
  have s': "?s' = token_step ev ?s" by (simp add: run_tokens_def)
  have calm: "list_all (calm_event (ts_granted ?s)) evs" "calm_event (ts_granted ?s) ev"
    using snoc.prems granted_step[of ?s ev] by (auto simp: s' list_all_iff intro: calm_subset)
  have ok: "tokens_ok ?s" by (rule tokens_ok_run)
  from snoc.IH[OF calm(1)] show ?case
  proof (elim disjE exE conjE)
    assume none: "ts_granted ?s = []"
    then have "ts_token ?s = None" using ok by (auto simp: tokens_ok_def)
    with none show ?case unfolding s'
      by (auto simp: token_step_def valid_cached_token_def discard_token_def
          split: token_event.splits token_task.splits sum.splits)
  next
    fix c assume one: "ts_granted ?s = [c]" "ts_token ?s = Some c" "ts_lock ?s = None"
    have "ts_task ?s i \<noteq> Fetching r" for i r using tokens_ok_task[OF ok, of i] one by auto
    with one calm(2) show ?case unfolding s'
      by (auto simp: token_step_def valid_cached_token_def calm_event_def
          split: token_event.splits token_task.splits sum.splits)
  qed
qed

text \<open>A call on its own is the sequence of its steps.\<close>

lemma get_access_token_steps:
  assumes "ts_task s i = Idle" "ts_lock s = None"
    and "get_access_token post (t1, t2, t3) config (ts_token s) = (r, tok)"
    and "s' = fold token_step [CallToken i t1, AcquireLock i t2 t3, AnswerToken i (post (token_request config))] s"
  shows "ts_task s' i = Returned r \<and> ts_token s' = tok \<and> ts_lock s' = None"
  using assms
  by (auto simp: get_access_token_def token_step_def set_task_def split: option.splits sum.splits if_splits)

text \<open>A token from the cache is used more than the margin before PayPal lets it expire.\<close>

lemma cached_token_margin:
  assumes "token_of_reply requested reply = Inr c" "valid_cached_token (fl t) (Some c) = Some v" "requested \<le> fl t"
    "fl requested = requested"
  obtains j n where "reply = HttpResponse 200 (Some j)" "token_of_body j = Some (v, n)" "60 < n" "n \<le> 86400"
    "fl t + 60 < requested + of_int n"
proof -
  from assms(1) obtain j n where j: "reply = HttpResponse 200 (Some j)" "token_of_body j = Some (ct_value c, n)"
    and c: "ct_refresh_at c = fl (requested + of_int (max (n - 60) 0))"
    by (auto simp: token_of_reply_Inr TOKEN_REFRESH_MARGIN_SECONDS_def)
  from assms(2) have v: "v = ct_value c" and early: "fl t < ct_refresh_at c" by (simp_all add: valid_cached_token_def split: if_splits)
  have before: "fl t < requested + of_int (max (n - 60) 0)"
  proof (rule ccontr)
    assume "\<not> fl t < requested + of_int (max (n - 60) 0)"
    then have "fl (requested + of_int (max (n - 60) 0)) \<le> fl (fl t)" by (intro fl_mono) simp
    with early c show False by (simp add: fl_idem)
  qed
  moreover from before assms(3) have "60 < n" by (cases "n \<le> 60") simp_all
  moreover from j(2) have "n \<le> 86400" by (auto dest: token_of_body_Some simp: MAX_TOKEN_LIFETIME_SECONDS_def)
  ultimately show ?thesis using j v that by simp
qed

section \<open>The posted body\<close>

text \<open>A reader of JSON strings and of an object of strings whose last member is \<open>webhook_event\<close>.\<close>

definition hex_value :: "char \<Rightarrow> nat" where
  "hex_value c = (let n = of_char c :: nat in if n < 58 then n - 48 else n - 87)"

definition unescape_char :: "char \<Rightarrow> char" where
  "unescape_char c =
     (if c = CHR ''n'' then CHR 0x0A else if c = CHR ''r'' then CHR 0x0D else if c = CHR ''t'' then CHR 0x09
      else if c = CHR ''f'' then CHR 0x0C else if c = CHR ''b'' then CHR 0x08 else c)"

fun read_chars :: "string \<Rightarrow> (string \<times> string) option" where
  "read_chars [] = None"
| "read_chars (c # cs) =
     (if c = CHR 0x22 then Some ([], cs)
      else if c \<noteq> CHR 0x5C then map_option (\<lambda>(s, r). (c # s, r)) (read_chars cs)
      else (case cs of
              [] \<Rightarrow> None
            | d # ds \<Rightarrow>
                if d \<noteq> CHR ''u'' then map_option (\<lambda>(s, r). (unescape_char d # s, r)) (read_chars ds)
                else (case ds of
                        _ # _ # x # y # rest \<Rightarrow>
                          map_option (\<lambda>(s, r). (char_of (16 * hex_value x + hex_value y) # s, r)) (read_chars rest)
                      | _ \<Rightarrow> None)))"

lemma read_chars_shorter: "read_chars s = Some (v, r) \<Longrightarrow> length r < length s"
  by (induction s arbitrary: v r rule: read_chars.induct)
    (auto split: if_splits list.splits, fastforce+)

function read_members :: "string \<Rightarrow> ((string \<times> string) list \<times> string) option" where
  "read_members s =
     (case read_chars (drop 1 s) of
        None \<Rightarrow> None
      | Some (k, r) \<Rightarrow>
          if k = ''webhook_event'' then Some ([], butlast (drop 1 r))
          else (case read_chars (drop 2 r) of
                  None \<Rightarrow> None
                | Some (v, r') \<Rightarrow> map_option (\<lambda>(kvs, raw). ((k, v) # kvs, raw)) (read_members (drop 1 r'))))"
  by auto
termination
  by (relation "measure length") (auto dest!: read_chars_shorter)

declare read_members.simps [simp del]

lemma hex_value_digit: "k < 16 \<Longrightarrow> hex_value (hex_digit k) = k"
  by (auto simp: hex_value_def hex_digit_def)

lemma escaped_controls:
  "char_of (34 :: nat) = CHR 0x22" "char_of (92 :: nat) = CHR 0x5C" "char_of (10 :: nat) = CHR 0x0A"
  "char_of (13 :: nat) = CHR 0x0D" "char_of (9 :: nat) = CHR 0x09" "char_of (12 :: nat) = CHR 0x0C"
  "char_of (8 :: nat) = CHR 0x08"
  by code_simp+

lemma read_escaped:
  "read_chars (escape_char c @ r) = map_option (\<lambda>(s, r'). (c # s, r')) (read_chars r)"
proof -
  define n where "n = (of_char c :: nat)"
  have c: "c = char_of n" and n: "n < 256" by (simp_all add: n_def)
  consider "n \<in> {0x22, 0x5C, 0x0A, 0x0D, 0x09, 0x0C, 0x08}" | "32 \<le> n" "n \<le> 126" "n \<noteq> 0x22" "n \<noteq> 0x5C"
    | "n \<notin> {0x22, 0x5C, 0x0A, 0x0D, 0x09, 0x0C, 0x08}" "\<not> (32 \<le> n \<and> n \<le> 126)" by auto
  then show ?thesis
  proof cases
    case 1
    then have "c \<in> {CHR 0x22, CHR 0x5C, CHR 0x0A, CHR 0x0D, CHR 0x09, CHR 0x0C, CHR 0x08}"
      by (elim insertE) (simp_all add: c escaped_controls)
    then show ?thesis by (elim insertE) (simp_all add: escape_char_def unescape_char_def Let_def)
  next
    case 2
    then have e: "escape_char c = [c]" by (simp add: escape_char_def n_def[symmetric])
    from 2 have "c \<noteq> CHR 0x22" "c \<noteq> CHR 0x5C" by (auto simp: n_def)
    with e show ?thesis by simp
  next
    case 3
    then have e: "escape_char c = [CHR 0x5C, CHR ''u'', CHR ''0'', CHR ''0'', hex_digit (n div 16), hex_digit (n mod 16)]"
      by (simp add: escape_char_def n_def[symmetric])
    have "char_of (16 * hex_value (hex_digit (n div 16)) + hex_value (hex_digit (n mod 16))) = c"
      using n by (simp add: hex_value_digit c)
    with e show ?thesis by simp
  qed
qed

lemma read_dumped: "read_chars (concat (map escape_char s) @ CHR 0x22 # r) = Some (s, r)"
  by (induction s) (simp_all add: read_escaped del: read_chars.simps(2), simp)

lemma read_dumps_string: "read_chars (drop (Suc 0) (dumps_string s @ r)) = Some (s, r)"
  by (simp add: dumps_string_def read_dumped)

lemma read_dumps_members:
  assumes "list_all (\<lambda>(k, v). k \<noteq> ''webhook_event'') (kvs @ [kv])"
  shows "read_members (dumps_members (kvs @ [kv]) @ '','' @ dumps_string ''webhook_event'' @ '':'' @ raw @ ''}'') =
    Some (kvs @ [kv], raw)"
  using assms
proof (induction kvs)
  case Nil
  obtain k v where kv: "kv = (k, v)" by (cases kv)
  have "read_members (dumps_string ''webhook_event'' @ '':'' @ raw @ ''}'') = Some ([], raw)"
    by (subst read_members.simps) (simp add: read_dumps_string drop_Cons' del: drop_append)
  with Nil kv show ?case by (subst read_members.simps) (simp add: read_dumps_string drop_Cons' del: drop_append)
next
  case (Cons a kvs)
  obtain k v where kv: "a = (k, v)" by (cases a)
  have "dumps_members ((a # kvs) @ [kv]) = dumps_string k @ '':'' @ dumps_string v @ '','' @ dumps_members (kvs @ [kv])"
    using kv by (cases kvs) simp_all
  with Cons kv show ?case by (subst read_members.simps) (simp add: read_dumps_string drop_Cons' del: drop_append)
qed

section \<open>Headers\<close>

definition field_source :: "(string \<times> string) list \<Rightarrow> string \<times> string \<Rightarrow> bool" where
  "field_source headers kv \<longleftrightarrow>
     (\<exists>name. (name, snd kv) \<in> set headers \<and> (str_lower name, fst kv) \<in> set TRANSMISSION_HEADER_FIELDS \<and> strip (snd kv) \<noteq> [])"

lemma add_transmission_field_Inr:
  assumes "add_transmission_field h found = Inr found'" "distinct (map fst found)"
    "list_all (field_source headers) found" "h \<in> set headers"
  shows "distinct (map fst found') \<and> list_all (field_source headers) found'"
proof -
  obtain name v where h: "h = (name, v)" by (cases h)
  show ?thesis
  proof (cases "found' = found")
    case False
    with assms(1) h obtain k where k: "map_of TRANSMISSION_HEADER_FIELDS (str_lower name) = Some k" "strip v \<noteq> []"
      "map_of found k = None" "found' = found @ [(k, v)]"
      by (auto simp: add_transmission_field_def split: option.splits if_splits)
    from k(1) have "(str_lower name, k) \<in> set TRANSMISSION_HEADER_FIELDS" by (rule map_of_SomeD)
    with assms(4) h k(2) have "field_source headers (k, v)" by (auto simp: field_source_def)
    with k assms(2,3) show ?thesis by (auto simp: map_of_eq_None_iff)
  qed (use assms in simp)
qed

lemma add_transmission_field_Inl: "add_transmission_field h found = Inl e \<Longrightarrow> e = InvalidWebhookSignatureError"
  by (auto simp: add_transmission_field_def split: prod.splits option.splits if_splits)

lemma fold_fields_Inr:
  assumes "fold_result add_transmission_field hs found = Inr found'" "distinct (map fst found)"
    "list_all (field_source headers) found" "set hs \<subseteq> set headers"
  shows "distinct (map fst found') \<and> list_all (field_source headers) found'"
  using assms
proof (induction hs arbitrary: found)
  case (Cons h hs)
  from Cons.prems(1) obtain mid where "add_transmission_field h found = Inr mid"
    "fold_result add_transmission_field hs mid = Inr found'" by (auto simp: bind_result_Inr)
  with Cons.IH[of mid] add_transmission_field_Inr[of h found mid headers] Cons.prems(2-4) show ?case by auto
qed simp

lemma fold_fields_Inl: "fold_result add_transmission_field hs found = Inl e \<Longrightarrow> e = InvalidWebhookSignatureError"
  by (induction hs arbitrary: found) (auto simp: bind_result_Inl dest: add_transmission_field_Inl)

lemma transmission_fields_Inr:
  assumes "transmission_fields headers = Inr found"
  shows "distinct (map fst found)" "list_all (field_source headers) found"
    "set (map fst found) = set (map snd TRANSMISSION_HEADER_FIELDS)"
proof -
  from assms have run: "fold_result add_transmission_field headers [] = Inr found"
    and all: "list_all (\<lambda>(_, name). map_of found name \<noteq> None) TRANSMISSION_HEADER_FIELDS"
    by (auto simp: transmission_fields_def bind_result_Inr split: if_splits)
  from fold_fields_Inr[OF run, of headers] show d: "distinct (map fst found)" and s: "list_all (field_source headers) found"
    by simp_all
  from s have "set (map fst found) \<subseteq> set (map snd TRANSMISSION_HEADER_FIELDS)"
  proof -
    have "fst kv \<in> set (map snd TRANSMISSION_HEADER_FIELDS)" if "kv \<in> set found" for kv
    proof -
      from s that obtain name where "(name, fst kv) \<in> set TRANSMISSION_HEADER_FIELDS"
        by (auto simp: list_all_iff field_source_def)
      then show ?thesis by (metis image_eqI set_map snd_conv)
    qed
    then show ?thesis by auto
  qed
  moreover from all have "set (map snd TRANSMISSION_HEADER_FIELDS) \<subseteq> set (map fst found)"
    by (auto simp: list_all_iff map_of_eq_None_iff)
  ultimately show "set (map fst found) = set (map snd TRANSMISSION_HEADER_FIELDS)" by blast
qed

lemma transmission_fields_Inl: "transmission_fields headers = Inl e \<Longrightarrow> e = InvalidWebhookSignatureError"
  by (auto simp: transmission_fields_def bind_result_Inl dest: fold_fields_Inl split: if_splits)

lemma verification_request_body_Inl:
  "verification_request_body loads found w raw = Inl e \<Longrightarrow> e = MalformedInputError"
  by (auto simp: verification_request_body_def split: json_load.splits json.splits)

lemma posted_body:
  assumes "transmission_fields headers = Inr found" "verification_request_body loads found w raw = Inr content"
  shows "read_members (drop 1 content) = Some (found @ [(''webhook_id'', w)], raw)"
proof -
  have "fst kv \<noteq> ''webhook_event''" if "kv \<in> set found" for kv
  proof
    assume "fst kv = ''webhook_event''"
    with that have "''webhook_event'' \<in> set (map fst found)" by force
    with transmission_fields_Inr(3)[OF assms(1)] show False by (simp add: TRANSMISSION_HEADER_FIELDS_def)
  qed
  then have "list_all (\<lambda>(k, v). k \<noteq> ''webhook_event'') (found @ [(''webhook_id'', w)])"
    by (force simp: list_all_iff)
  from read_dumps_members[OF this, of raw] assms(2) show ?thesis
    by (auto simp: verification_request_body_def split: json_load.splits json.splits)
qed

lemma read_chunks_concat: "read_chunks n b cs = Inr r \<Longrightarrow> r = b @ concat cs"
  by (induction n b cs rule: read_chunks.induct) (auto split: if_splits)

lemma read_limited_body_concat: "read_limited_body len cs n = Inr r \<Longrightarrow> r = concat cs"
  by (auto simp: read_limited_body_def dest: read_chunks_concat split: option.splits if_splits)

section \<open>Theorems\<close>

text \<open>C24: Token requests are single-flight. However the calls, lock acquisitions, replies, cancellations and
  discards of any number of tasks interleave, the one task that fetches is the holder of the lock, the cache
  holds and the callers receive only tokens that PayPal granted, and no more are granted than were requested;
  while no token is discarded and the clock stays before the refresh time, only one is ever granted.\<close>
theorem token_cache_single_flight:
  "let s = run_tokens evs
   in {i. case ts_task s i of Fetching _ \<Rightarrow> True | _ \<Rightarrow> False} = set_option (ts_lock s) \<and>
      set_option (ts_token s) \<subseteq> set (ts_granted s) \<and>
      {v. \<exists>i. ts_task s i = Returned (Inr v)} \<subseteq> ct_value ` set (ts_granted s) \<and>
      length (ts_granted s) + card (set_option (ts_lock s)) \<le> length (ts_sent s) \<and>
      (if list_all (calm_event (ts_granted s)) evs then length (ts_granted s) \<le> 1 else True)"
proof -
  let ?s = "run_tokens evs"
  have ok: "tokens_ok ?s" by (rule tokens_ok_run)
  have task: "(case ts_task ?s i of Fetching _ \<Rightarrow> True | _ \<Rightarrow> False) \<longleftrightarrow> ts_lock ?s = Some i"
    "ts_task ?s i = Returned (Inr v) \<Longrightarrow> v \<in> ct_value ` set (ts_granted ?s)" for i v
    using tokens_ok_task[OF ok, of i] by (auto simp: task_ok_def split: token_task.splits sum.splits)
  have "{i. case ts_task ?s i of Fetching _ \<Rightarrow> True | _ \<Rightarrow> False} = set_option (ts_lock ?s)"
    by (auto simp: task(1))
  moreover have "{v. \<exists>i. ts_task ?s i = Returned (Inr v)} \<subseteq> ct_value ` set (ts_granted ?s)" by (auto dest: task(2))
  moreover have "if list_all (calm_event (ts_granted ?s)) evs then length (ts_granted ?s) \<le> 1 else True"
    using calm_single[of evs] by auto
  ultimately show ?thesis using ok by (simp add: tokens_ok_def Let_def)
qed

text \<open>What is posted to PayPal for verification is the received request and nothing else. The request is
  refused with the two documented errors, or a reader of the posted body recovers each transmission field once,
  with the value of a received header of that name that is not blank, the configured webhook id, and the bytes
  of the received body unchanged, whatever characters the headers contain.\<close>
lemma verification_body_roundtrip:
  "case bind_result (transmission_fields headers)
          (\<lambda>found. bind_result (verification_request_body loads found webhook_id raw_body) (\<lambda>content. Inr (found, content))) of
     Inl e \<Rightarrow> e = InvalidWebhookSignatureError \<or> e = MalformedInputError
   | Inr (found, content) \<Rightarrow>
       read_members (drop 1 content) = Some (found @ [(''webhook_id'', webhook_id)], raw_body) \<and>
       distinct (map fst found) \<and> set (map fst found) = set (map snd TRANSMISSION_HEADER_FIELDS) \<and>
       list_all (field_source headers) found"
proof (cases "transmission_fields headers")
  case (Inl e)
  then show ?thesis using transmission_fields_Inl by simp
next
  case (Inr found)
  note fields = transmission_fields_Inr[OF Inr]
  then show ?thesis
    using Inr transmission_fields_Inr[OF Inr] posted_body[OF Inr] verification_request_body_Inl[of loads found webhook_id raw_body]
    by (cases "verification_request_body loads found webhook_id raw_body") simp_all
qed

text \<open>A PayPal event is stored only on PayPal's word. If the route changes the database, the client was
  configured, and PayPal answered SUCCESS with status 200 to a verification request at its configured host whose
  body reads back as the received headers, the configured webhook id and exactly the received bytes.\<close>
lemma paypal_route_authentic:
  "let (r, db') = paypal_route loads bracketed_ok post clocks client headers new_id now seen declared_length chunks tok db
   in if db' = db then True
      else \<exists>config webhook_id found access_token content j.
        client = Some config \<and> cf_webhook_id config = Some webhook_id \<and> transmission_fields headers = Inr found \<and>
        read_members (drop 1 content) = Some (found @ [(''webhook_id'', webhook_id)], concat chunks) \<and>
        post (VerifyRequest (base_url config @ VERIFY_WEBHOOK_SIGNATURE_PATH) access_token content) = HttpResponse 200 (Some j) \<and>
        json_get j ''verification_status'' = Some (JStr ''SUCCESS'')"
proof (cases client)
  case None
  then show ?thesis by (simp add: paypal_route_def)
next
  case (Some config)
  obtain r db' where run: "paypal_route loads bracketed_ok post clocks client headers new_id now seen declared_length chunks tok db = (r, db')"
    by fastforce
  show ?thesis
  proof (cases "db' = db")
    case False
    let ?verify = "\<lambda>raw. fst (verify_webhook_signature loads post clocks config headers raw tok)"
    from run Some False obtain body o' where body: "read_limited_body declared_length chunks MAX_PAYPAL_WEBHOOK_BODY_BYTES = Inr body"
      and ingest: "ingest_paypal_webhook loads bracketed_ok (?verify body) new_id now seen body db = Inr (o', db')"
      by (auto simp: paypal_route_def ingest_paypal_def split: sum.splits prod.splits paypal_outcome.splits)
    have whole: "body = concat chunks" using read_limited_body_concat[OF body] .
    from ingest_paypal_cases[OF ingest] have "?verify body = Inr True" by blast
    then obtain webhook_id found content access_token where w: "cf_webhook_id config = Some webhook_id"
      "transmission_fields headers = Inr found" "verification_request_body loads found webhook_id body = Inr content"
      "verified_of_reply (post (VerifyRequest (base_url config @ VERIFY_WEBHOOK_SIGNATURE_PATH) access_token content)) = Inr True"
      by (auto simp: verify_webhook_signature_def bind_result_Inr Let_def elim!: truthyE split: if_splits sum.splits prod.splits)
    from w(4) obtain j where "post (VerifyRequest (base_url config @ VERIFY_WEBHOOK_SIGNATURE_PATH) access_token content) = HttpResponse 200 (Some j)"
      "json_get j ''verification_status'' = Some (JStr ''SUCCESS'')"
      by (auto simp: verified_of_reply_def split: http_reply.splits option.splits if_splits)
    moreover have "read_members (drop 1 content) = Some (found @ [(''webhook_id'', webhook_id)], concat chunks)"
      using posted_body[OF w(2,3)] whole by simp
    ultimately show ?thesis using run Some w by auto
  qed (use run in simp)
qed

end
