(* ===== verification/Guards.thy ===== *)
theory Guards
  imports PaypalClient
begin

text \<open>
  What keeps the service and its databases out of the wrong hands: the Razorpay secret
  (\<open>api/dependencies.py\<close>), dashboard credentials, API documentation and trusted hosts
  (\<open>api/security.py\<close>), and the guards on destructive database operations with the migration runner that
  uses them (\<open>infrastructure/db_safety.py\<close>, \<open>migrations/env.py\<close>).

  Settings are read from \<open>environ\<close> at each request. \<open>make_url\<close> is SQLAlchemy's URL parser (\<open>None\<close> where it raises
  \<open>ArgumentError\<close>); the credentials of a request are those FastAPI's \<open>HTTPBasic\<close> decodes, \<open>None\<close> where it
  answers 401 itself. Strings of settings are ASCII.
\<close>

section \<open>The Razorpay secret\<close>

definition KNOWN_PLACEHOLDER_RAZORPAY_SECRETS :: "string list" where
  "KNOWN_PLACEHOLDER_RAZORPAY_SECRETS =
     [''dummy_secret_for_local_dev'', ''your_razorpay_webhook_secret_here'', ''test_webhook_secret'',
      ''replace_with_a_local_test_secret'']"

definition get_razorpay_webhook_secret :: "environ \<Rightarrow> (response, string) result" where
  "get_razorpay_webhook_secret env =
     (let secret = env_get env ''RAZORPAY_WEBHOOK_SECRET''; normalized = strip secret
      in if normalized = [] \<or> str_lower normalized \<in> set KNOWN_PLACEHOLDER_RAZORPAY_SECRETS
         then Inl (http_exception 503 ''Webhook intake temporarily unavailable'')
         else Inr secret)"

text \<open>The route with the service built for it: the secret is resolved before anything else.\<close>

definition razorpay_route ::
  "environ \<Rightarrow> (string \<Rightarrow> string \<Rightarrow> string) \<Rightarrow> (bool \<Rightarrow> string \<Rightarrow> json_load) \<Rightarrow> (json \<Rightarrow> int option) \<Rightarrow> uuid \<Rightarrow> datetime \<Rightarrow>
   ('a event_db_scheme) \<Rightarrow> string \<Rightarrow> string option \<Rightarrow> string option \<Rightarrow> ('a event_db_scheme) \<Rightarrow> response \<times> ('a event_db_scheme)" where
  "razorpay_route env hmac_hex loads coerce_int new_id now seen body signature event_id db =
     (case get_razorpay_webhook_secret env of
        Inl r \<Rightarrow> (r, db)
      | Inr secret \<Rightarrow> ingest_razorpay hmac_hex loads coerce_int (Some secret) new_id now seen body signature event_id db)"

section \<open>Dashboard access\<close>

definition require_dashboard_auth :: "environ \<Rightarrow> (string \<times> string) option \<Rightarrow> (response, unit) result" where
  "require_dashboard_auth env credentials =
     (let username = env_get env ''DASHBOARD_USERNAME''; password = env_get env ''DASHBOARD_PASSWORD''
      in if strip username = [] \<or> strip password = []
         then Inl (http_exception 503 ''Dashboard temporarily unavailable'')
         else (case credentials of
                 None \<Rightarrow> Inl (http_exception 401 ''Invalid authentication credentials'')
               | Some (u, p) \<Rightarrow>
                   if u = username \<and> p = password then Inr ()
                   else Inl (http_exception 401 ''Invalid authentication credentials'')))"

definition api_docs_enabled :: "environ \<Rightarrow> bool" where
  "api_docs_enabled env = (str_lower (strip (env_get env ''ENABLE_API_DOCS'')) \<in> {''1'', ''true'', ''yes''})"

definition require_api_docs_enabled :: "environ \<Rightarrow> (response, unit) result" where
  "require_api_docs_enabled env = require_that (api_docs_enabled env) (http_exception 404 ''Not Found'')"

text \<open>The guards of each path, in the order in which they run.\<close>

datatype resource = WebhookPath | InspectionPath | DocsPath | HealthPath | StaticPath | DashboardPage

definition guards_of :: "environ \<Rightarrow> (string \<times> string) option \<Rightarrow> resource \<Rightarrow> (response, unit) result" where
  "guards_of env credentials r =
     (case r of
        WebhookPath \<Rightarrow> Inr ()
      | HealthPath \<Rightarrow> Inr ()
      | InspectionPath \<Rightarrow> require_dashboard_auth env credentials
      | StaticPath \<Rightarrow> require_dashboard_auth env credentials
      | DashboardPage \<Rightarrow> require_dashboard_auth env credentials
      | DocsPath \<Rightarrow> bind_result (require_api_docs_enabled env) (\<lambda>_. require_dashboard_auth env credentials))"

section \<open>Trusted hosts\<close>

fun split_on :: "char \<Rightarrow> string \<Rightarrow> string list" where
  "split_on d [] = [[]]"
| "split_on d (c # cs) =
     (if c = d then [] # split_on d cs
      else (case split_on d cs of [] \<Rightarrow> [[c]] | w # ws \<Rightarrow> (c # w) # ws))"

text \<open>\<open>[A-Za-z0-9](?:[A-Za-z0-9-]{0,61}[A-Za-z0-9])?\<close>\<close>

definition is_host_label :: "string \<Rightarrow> bool" where
  "is_host_label l \<longleftrightarrow>
     l \<noteq> [] \<and> length l \<le> 63 \<and> is_alnum (hd l) \<and> is_alnum (last l) \<and> list_all (\<lambda>c. is_alnum c \<or> c = CHR ''-'') l"

definition is_wildcard :: "string \<Rightarrow> bool" where
  "is_wildcard host = prefix ''*.'' host"

definition is_allowed_host_entry :: "string \<Rightarrow> bool" where
  "is_allowed_host_entry host =
     list_all is_host_label (split_on CHR ''.'' (if is_wildcard host then drop 2 host else host))"

definition is_overly_broad_wildcard :: "string \<Rightarrow> bool" where
  "is_overly_broad_wildcard host =
     (is_wildcard host \<and>
      (let labels = split_on CHR ''.'' (drop 2 host)
       in length labels < 2 \<or> (last labels \<noteq> [] \<and> list_all is_digit (last labels))))"

definition SHARED_SUFFIX_WILDCARD_DENYLIST :: "string list" where
  "SHARED_SUFFIX_WILDCARD_DENYLIST =
     [''co.uk'', ''org.uk'', ''com.au'', ''co.in'', ''ngrok-free.app'', ''ngrok-free.dev'', ''ngrok.app'', ''ngrok.io'',
      ''trycloudflare.com'', ''loca.lt'']"

definition is_shared_suffix_wildcard :: "string \<Rightarrow> bool" where
  "is_shared_suffix_wildcard host = (is_wildcard host \<and> str_lower (drop 2 host) \<in> set SHARED_SUFFIX_WILDCARD_DENYLIST)"

definition DEFAULT_ALLOWED_HOSTS :: "string list" where
  "DEFAULT_ALLOWED_HOSTS = [''localhost'', ''127.0.0.1'']"

definition get_allowed_hosts :: "environ \<Rightarrow> (exn, string list) result" where
  "get_allowed_hosts env =
     (let configured = filter (\<lambda>h. h \<noteq> []) (map strip (split_on CHR '','' (env_get env ''ALLOWED_HOSTS'')))
      in if configured = [] then Inr DEFAULT_ALLOWED_HOSTS
         else if ''*'' \<in> set configured then Inl InvalidAllowedHostsError
         else if \<not> list_all is_allowed_host_entry configured then Inl InvalidAllowedHostsError
         else if list_ex is_overly_broad_wildcard configured then Inl InvalidAllowedHostsError
         else if list_ex is_shared_suffix_wildcard configured then Inl InvalidAllowedHostsError
         else Inr configured)"

text \<open>
  The middleware: \<open>trusted hosts\<close> is Starlette's \<open>TrustedHostMiddleware\<close>, which passes the request on (\<open>None\<close>)
  or answers it; lifespan events are not checked.
\<close>

datatype scope_type = HttpScope | WebsocketScope | LifespanScope

datatype host_verdict = Forward | Respond response | CloseWebsocket int

definition trusted_host_middleware ::
  "(string list \<Rightarrow> response option) \<Rightarrow> environ \<Rightarrow> scope_type \<Rightarrow> host_verdict" where
  "trusted_host_middleware trusted env scope =
     (if scope = LifespanScope then Forward
      else case get_allowed_hosts env of
             Inl _ \<Rightarrow>
               if scope = WebsocketScope then CloseWebsocket 1011
               else Respond (http_exception 503 ''Service temporarily unavailable'')
           | Inr allowed_hosts \<Rightarrow>
               (case trusted allowed_hosts of None \<Rightarrow> Forward | Some r \<Rightarrow> Respond r))"

section \<open>Database URLs\<close>

record db_url =
  du_drivername :: string
  du_host :: "string option"
  du_port :: "int option"
  du_database :: "string option"

type_synonym url_parser = "string \<Rightarrow> db_url option"

definition DEV_DATABASE_PORT :: int where "DEV_DATABASE_PORT = 5433"
definition DEV_DATABASE_NAME :: string where "DEV_DATABASE_NAME = ''payment_recovery''"
definition DEMO_RESET_ALLOWED_DATABASES :: "string list" where
  "DEMO_RESET_ALLOWED_DATABASES = [''payment_recovery'', ''payment_recovery_demo'']"
definition DISPOSABLE_TEST_HOSTS :: "string list" where
  "DISPOSABLE_TEST_HOSTS = [''localhost'', ''127.0.0.1'', ''::1'']"
definition DISPOSABLE_TEST_PORT :: int where "DISPOSABLE_TEST_PORT = 5434"
definition DISPOSABLE_TEST_DATABASE :: string where "DISPOSABLE_TEST_DATABASE = ''payment_recovery_test''"
definition ALEMBIC_INTERMEDIATE_REVISIONS :: "string list" where
  "ALEMBIC_INTERMEDIATE_REVISIONS = [''9d2e4f6a8b1c'']"

definition parse_url :: "url_parser \<Rightarrow> string \<Rightarrow> (exn, db_url) result" where
  "parse_url make_url url = (case make_url url of None \<Rightarrow> Inl UnsafeDatabaseError | Some u \<Rightarrow> Inr u)"

text \<open>\<open>x or default\<close>\<close>

definition str_or :: "string option \<Rightarrow> string" where
  "str_or s = (case s of None \<Rightarrow> '''' | Some t \<Rightarrow> t)"

definition url_identity :: "db_url \<Rightarrow> string \<times> int \<times> string" where
  "url_identity u =
     (let host = str_lower (str_or (du_host u));
          host = (if host \<in> {''localhost'', ''127.0.0.1'', ''::1'', ''''} then ''localhost'' else host)
      in (host, (case du_port u of None \<Rightarrow> 5432 | Some p \<Rightarrow> if p = 0 then 5432 else p), str_or (du_database u)))"

definition require_env_database_url :: "environ \<Rightarrow> string \<Rightarrow> (exn, string) result" where
  "require_env_database_url env env_var =
     (if truthy (env env_var) then Inr (the (env env_var)) else Inl UnsafeDatabaseError)"

definition is_protected_identity :: "url_parser \<Rightarrow> db_url \<Rightarrow> string option \<Rightarrow> bool" where
  "is_protected_identity make_url u protected =
     (if \<not> truthy protected then False
      else case make_url (the protected) of None \<Rightarrow> False | Some p \<Rightarrow> url_identity p = url_identity u)"

definition validate_test_database_url :: "url_parser \<Rightarrow> string option \<Rightarrow> string option list \<Rightarrow> (exn, db_url) result" where
  "validate_test_database_url make_url url protected_urls =
     (if \<not> truthy url then Inl UnsafeDatabaseError
      else bind_result (parse_url make_url (the url)) (\<lambda>u.
        if \<not> prefix ''postgresql'' (du_drivername u) then Inl UnsafeDatabaseError
        else if \<not> suffix ''_test'' (str_or (du_database u)) then Inl UnsafeDatabaseError
        else if du_port u = Some DEV_DATABASE_PORT then Inl UnsafeDatabaseError
        else if list_ex (is_protected_identity make_url u) protected_urls then Inl UnsafeDatabaseError
        else Inr u))"

definition validate_demo_reset_database_url :: "url_parser \<Rightarrow> string \<Rightarrow> (exn, db_url) result" where
  "validate_demo_reset_database_url make_url url =
     bind_result (parse_url make_url url) (\<lambda>u.
       if str_or (du_database u) \<in> set DEMO_RESET_ALLOWED_DATABASES then Inr u else Inl UnsafeDatabaseError)"

definition assert_connected_database :: "string \<Rightarrow> db_url \<Rightarrow> (exn, unit) result" where
  "assert_connected_database actual expected = require_that (Some actual = du_database expected) UnsafeDatabaseError"

definition is_disposable_test_identity :: "db_url \<Rightarrow> bool" where
  "is_disposable_test_identity u \<longleftrightarrow>
     str_lower (str_or (du_host u)) \<in> set DISPOSABLE_TEST_HOSTS \<and> du_port u = Some DISPOSABLE_TEST_PORT \<and>
     du_database u = Some DISPOSABLE_TEST_DATABASE"

definition assert_disposable_test_target :: "url_parser \<Rightarrow> string option \<Rightarrow> string option list \<Rightarrow> (exn, db_url) result" where
  "assert_disposable_test_target make_url url protected_urls =
     bind_result (validate_test_database_url make_url url protected_urls) (\<lambda>u.
       if str_lower (str_or (du_host u)) \<notin> set DISPOSABLE_TEST_HOSTS then Inl UnsafeDatabaseError
       else if du_port u \<noteq> Some DISPOSABLE_TEST_PORT then Inl UnsafeDatabaseError
       else if du_database u \<noteq> Some DISPOSABLE_TEST_DATABASE then Inl UnsafeDatabaseError
       else Inr u)"

definition verify_connected_disposable :: "string \<Rightarrow> (exn, unit) result" where
  "verify_connected_disposable actual = require_that (actual = DISPOSABLE_TEST_DATABASE) UnsafeDatabaseError"

definition build_truncate_statement :: "string list \<Rightarrow> string set option \<Rightarrow> string list option" where
  "build_truncate_statement sorted_tables existing_tables =
     (let tables = filter (\<lambda>n. case existing_tables of None \<Rightarrow> True | Some e \<Rightarrow> n \<in> e) sorted_tables
      in if tables = [] then None else Some tables)"

section \<open>Migrations\<close>

definition validate_alembic_url :: "url_parser \<Rightarrow> string option \<Rightarrow> (exn, db_url) result" where
  "validate_alembic_url make_url raw_url =
     (if \<not> truthy raw_url \<or> strip (the raw_url) = [] then Inl UnsafeDatabaseError
      else bind_result (parse_url make_url (the raw_url)) (\<lambda>u.
        if \<not> prefix ''postgresql'' (du_drivername u) then Inl UnsafeDatabaseError
        else if \<not> truthy (du_host u) \<or> du_port u = None \<or> \<not> truthy (du_database u) then Inl UnsafeDatabaseError
        else if url_identity u = (''localhost'', DEV_DATABASE_PORT, DEV_DATABASE_NAME) then Inl UnsafeDatabaseError
        else if du_port u = Some DEV_DATABASE_PORT then Inl UnsafeDatabaseError
        else Inr u))"

definition validate_alembic_target :: "url_parser \<Rightarrow> environ \<Rightarrow> bool \<Rightarrow> (exn, db_url) result" where
  "validate_alembic_target make_url env offline =
     bind_result (validate_alembic_url make_url (env ''DATABASE_URL'')) (\<lambda>u.
       if offline then Inr u
       else if env ''ALEMBIC_TARGET_DATABASE'' \<noteq> du_database u then Inl UnsafeDatabaseError
       else if is_disposable_test_identity u
       then bind_result (validate_test_database_url make_url (env ''DATABASE_URL'') []) (\<lambda>_. Inr u)
       else if env ''ALEMBIC_ALLOW_NON_TEST_DATABASE'' \<noteq> Some ''yes'' then Inl UnsafeDatabaseError
       else Inr u)"

definition final_state_requires_assertion :: "string set \<Rightarrow> db_url \<Rightarrow> bool \<Rightarrow> (exn, bool) result" where
  "final_state_requires_assertion final_heads target offline =
     (if final_heads \<inter> set ALEMBIC_INTERMEDIATE_REVISIONS = {} then Inr False
      else if \<not> offline \<and> \<not> is_disposable_test_identity target then Inl UnsafeDatabaseError
      else Inr True)"

text \<open>The heads after each step that was applied, and the heads the run ends at.\<close>

definition final_heads :: "string set list \<Rightarrow> string set option \<Rightarrow> string set" where
  "final_heads applied current =
     (if applied \<noteq> [] then last applied else (case current of None \<Rightarrow> {} | Some h \<Rightarrow> h))"

text \<open>
  An online run against a server whose database is \<open>actual\<close> at heads \<open>current\<close>, applying the steps \<open>applied\<close>:
  the heads that are committed. The assertion is a PL/pgSQL block that raises unless \<open>current_database()\<close> is
  the disposable one. An exception rolls the transaction back.
\<close>

definition run_assertion :: "string \<Rightarrow> (exn, unit) result" where
  "run_assertion actual = require_that (actual = DISPOSABLE_TEST_DATABASE) RuntimeError"

definition run_migrations_online ::
  "url_parser \<Rightarrow> environ \<Rightarrow> string \<Rightarrow> string set \<Rightarrow> string set list \<Rightarrow> (exn, string set) result" where
  "run_migrations_online make_url env actual current applied =
     bind_result (validate_alembic_target make_url env False) (\<lambda>target.
     bind_result (assert_connected_database actual target) (\<lambda>_.
     let heads = final_heads applied (Some (if applied = [] then current else last applied)) in
     bind_result (final_state_requires_assertion heads target False) (\<lambda>needed.
     bind_result (if needed then run_assertion actual else Inr ()) (\<lambda>_. Inr heads))))"

text \<open>
  An offline run renders a script: the heads it ends at and whether it asserts the database before its
  \<open>COMMIT\<close>.
\<close>

definition run_migrations_offline ::
  "url_parser \<Rightarrow> environ \<Rightarrow> string set list \<Rightarrow> (exn, string set \<times> bool) result" where
  "run_migrations_offline make_url env applied =
     bind_result (validate_alembic_target make_url env True) (\<lambda>target.
     bind_result (final_state_requires_assertion (final_heads applied None) target True) (\<lambda>needed.
     Inr (final_heads applied None, needed)))"

section \<open>Intake\<close>

lemma razorpay_route_authentic:
  "let (r, db') = razorpay_route env hmac_hex loads coerce_int new_id now seen body signature event_id db
   in if db' = db then True
      else \<exists>secret. env ''RAZORPAY_WEBHOOK_SECRET'' = Some secret \<and> strip secret \<noteq> [] \<and>
        str_lower (strip secret) \<notin> set KNOWN_PLACEHOLDER_RAZORPAY_SECRETS \<and> signature = Some (hmac_hex secret body)"
proof -
  obtain r db' where run: "razorpay_route env hmac_hex loads coerce_int new_id now seen body signature event_id db = (r, db')"
    by fastforce
  show ?thesis
  proof (cases "db' = db")
    case False
    with run obtain secret s where secret: "get_razorpay_webhook_secret env = Inr secret"
      and ingest: "ingest_razorpay_webhook hmac_hex loads coerce_int (Some secret) new_id now seen body signature (the event_id) db = Inr (s, db')"
      by (auto simp: razorpay_route_def ingest_razorpay_def split: sum.splits if_splits)
    from ingest_razorpay_cases[OF ingest] have "signature = Some (hmac_hex secret body)"
      by (auto simp: verify_razorpay_signature_def elim!: truthyE split: if_splits)
    moreover from secret have "strip secret \<noteq> []" "str_lower (strip secret) \<notin> set KNOWN_PLACEHOLDER_RAZORPAY_SECRETS"
      "env_get env ''RAZORPAY_WEBHOOK_SECRET'' = secret"
      by (auto simp: get_razorpay_webhook_secret_def Let_def split: if_splits)
    moreover from this have "env ''RAZORPAY_WEBHOOK_SECRET'' = Some secret"
      by (auto simp: env_get_def strip_def split: option.splits)
    ultimately show ?thesis using run by simp
  qed (use run in simp)
qed

section \<open>Hosts\<close>

lemma split_on_nonempty: "split_on d s \<noteq> []"
  by (induction s) (auto split: list.splits)

lemma split_on_covers: "c \<in> set s \<Longrightarrow> c \<noteq> d \<Longrightarrow> \<exists>w\<in>set (split_on d s). c \<in> set w"
  by (induction s) (auto split: list.splits)

lemma label_chars: "is_host_label l \<Longrightarrow> c \<in> set l \<Longrightarrow> is_alnum c \<or> c = CHR ''-''"
  by (auto simp: is_host_label_def list_all_iff)

lemma split_on_single: "length (split_on d s) < 2 \<longleftrightarrow> d \<notin> set s"
proof (induction s)
  case (Cons c s)
  then show ?case using split_on_nonempty[of d s]
    by (cases "split_on d s") (auto simp: neq_Nil_conv)
qed simp

text \<open>An entry that names hosts of one owner: an exact name, or a wildcard below a registered name.\<close>

definition safe_host_entry :: "string \<Rightarrow> bool" where
  "safe_host_entry h \<longleftrightarrow>
     (if is_wildcard h
      then CHR ''*'' \<notin> set (drop 2 h) \<and> CHR ''.'' \<in> set (drop 2 h) \<and>
           str_lower (drop 2 h) \<notin> set SHARED_SUFFIX_WILDCARD_DENYLIST \<and>
           \<not> list_all is_digit (last (split_on CHR ''.'' h))
      else CHR ''*'' \<notin> set h \<and> h \<noteq> [])"

lemma entry_no_star:
  assumes "list_all is_host_label (split_on CHR ''.'' s)"
  shows "CHR ''*'' \<notin> set s" "s \<noteq> []"
proof
  assume "CHR ''*'' \<in> set s"
  from split_on_covers[OF this, of "CHR ''.''"] obtain w where "w \<in> set (split_on CHR ''.'' s)" "CHR ''*'' \<in> set w" by auto
  with assms label_chars[of w "CHR ''*''"] show False by (auto simp: list_all_iff is_alnum_def)
next
  show "s \<noteq> []" using assms by (auto simp: is_host_label_def)
qed

lemma last_split_drop: "is_wildcard h \<Longrightarrow> last (split_on CHR ''.'' h) = last (split_on CHR ''.'' (drop 2 h))"
  using split_on_nonempty[of "CHR ''.''" "drop 2 h"]
  by (auto simp: is_wildcard_def prefix_def split: list.splits)

lemma allowed_entry_safe:
  assumes "is_allowed_host_entry h" "\<not> is_overly_broad_wildcard h" "\<not> is_shared_suffix_wildcard h"
  shows "safe_host_entry h"
proof (cases "is_wildcard h")
  case True
  with assms(1) have labels: "list_all is_host_label (split_on CHR ''.'' (drop 2 h))" by (simp add: is_allowed_host_entry_def)
  then have "last (split_on CHR ''.'' (drop 2 h)) \<noteq> []"
    using split_on_nonempty[of "CHR ''.''" "drop 2 h"] by (auto simp: list_all_iff is_host_label_def)
  with True assms(2,3) entry_no_star[OF labels] show ?thesis
    by (auto simp: safe_host_entry_def is_overly_broad_wildcard_def is_shared_suffix_wildcard_def last_split_drop
        split_on_single Let_def)
next
  case False
  with assms(1) entry_no_star[of h] show ?thesis by (simp add: is_allowed_host_entry_def safe_host_entry_def)
qed


section \<open>Databases\<close>

lemma disposable_identity:
  "is_disposable_test_identity u \<Longrightarrow> url_identity u = (''localhost'', 5434, ''payment_recovery_test'')"
  by (auto simp: is_disposable_test_identity_def url_identity_def str_or_def DISPOSABLE_TEST_HOSTS_def
      DISPOSABLE_TEST_PORT_def DISPOSABLE_TEST_DATABASE_def Let_def)

lemma parse_url_Inr: "parse_url make_url url = Inr u \<longleftrightarrow> make_url url = Some u"
  by (simp add: parse_url_def split: option.splits)

lemma parse_url_Inl: "parse_url make_url url = Inl e \<Longrightarrow> e = UnsafeDatabaseError"
  by (simp add: parse_url_def split: option.splits)

lemma validate_test_Inr:
  "validate_test_database_url make_url url protected = Inr u \<longleftrightarrow>
     (\<exists>t. url = Some t \<and> t \<noteq> [] \<and> make_url t = Some u \<and> prefix ''postgresql'' (du_drivername u) \<and>
       suffix ''_test'' (str_or (du_database u)) \<and> du_port u \<noteq> Some 5433 \<and>
       \<not> list_ex (is_protected_identity make_url u) protected)"
  by (cases url) (auto simp: validate_test_database_url_def bind_result_Inr parse_url_Inr DEV_DATABASE_PORT_def split: if_splits)

lemma validate_test_Inl: "validate_test_database_url make_url url protected = Inl e \<Longrightarrow> e = UnsafeDatabaseError"
  by (auto simp: validate_test_database_url_def bind_result_Inl dest: parse_url_Inl split: if_splits)

lemma validate_alembic_Inr:
  "validate_alembic_url make_url url = Inr u \<Longrightarrow>
     (\<exists>t. url = Some t \<and> make_url t = Some u \<and> prefix ''postgresql'' (du_drivername u) \<and> truthy (du_host u) \<and>
       du_port u \<noteq> None \<and> du_port u \<noteq> Some 5433 \<and> truthy (du_database u))"
  by (cases url) (auto simp: validate_alembic_url_def bind_result_Inr parse_url_Inr DEV_DATABASE_PORT_def split: if_splits)

lemma alembic_online_Inr:
  assumes "validate_alembic_target make_url env False = Inr u"
  obtains t where "env ''DATABASE_URL'' = Some t" "make_url t = Some u" "du_port u \<noteq> Some 5433"
    "env ''ALEMBIC_TARGET_DATABASE'' = du_database u" "truthy (du_database u)"
    "is_disposable_test_identity u \<or> env ''ALEMBIC_ALLOW_NON_TEST_DATABASE'' = Some ''yes''"
proof -
  from assms obtain u' where u': "validate_alembic_url make_url (env ''DATABASE_URL'') = Inr u'" and
    c: "u' = u" "env ''ALEMBIC_TARGET_DATABASE'' = du_database u"
    "is_disposable_test_identity u \<or> env ''ALEMBIC_ALLOW_NON_TEST_DATABASE'' = Some ''yes''"
    by (auto simp: validate_alembic_target_def bind_result_Inr split: if_splits)
  from validate_alembic_Inr[OF u'] c that show ?thesis by auto
qed

text \<open>A database that a test may empty is neither one the demo may reset nor the development one.\<close>

lemma disposable_target_separate:
  "case assert_disposable_test_target make_url url protected of
     Inl e \<Rightarrow> e = UnsafeDatabaseError
   | Inr u \<Rightarrow>
       url_identity u = (''localhost'', 5434, ''payment_recovery_test'') \<and>
       (case url of None \<Rightarrow> False | Some t \<Rightarrow> validate_demo_reset_database_url make_url t = Inl UnsafeDatabaseError) \<and>
       list_all (\<lambda>p. case p of None \<Rightarrow> True | Some t \<Rightarrow>
         (case make_url t of None \<Rightarrow> True | Some v \<Rightarrow> url_identity v \<noteq> url_identity u \<or> t = [])) protected"
proof (cases "assert_disposable_test_target make_url url protected")
  case (Inl e)
  then show ?thesis by (auto simp: assert_disposable_test_target_def bind_result_Inl dest: validate_test_Inl split: if_splits)
next
  case (Inr u)
  then have v: "validate_test_database_url make_url url protected = Inr u" and d: "is_disposable_test_identity u"
    by (auto simp: assert_disposable_test_target_def bind_result_Inr is_disposable_test_identity_def split: if_splits)
  from v obtain t where t: "url = Some t" "make_url t = Some u" "\<not> list_ex (is_protected_identity make_url u) protected"
    by (auto simp: validate_test_Inr)
  from d have "str_or (du_database u) \<notin> set DEMO_RESET_ALLOWED_DATABASES"
    by (simp add: is_disposable_test_identity_def str_or_def DISPOSABLE_TEST_DATABASE_def DEMO_RESET_ALLOWED_DATABASES_def)
  with t have "validate_demo_reset_database_url make_url t = Inl UnsafeDatabaseError"
    by (simp add: validate_demo_reset_database_url_def parse_url_def)
  moreover have "case p of None \<Rightarrow> True | Some s \<Rightarrow>
      (case make_url s of None \<Rightarrow> True | Some v \<Rightarrow> url_identity v \<noteq> url_identity u \<or> s = [])" if "p \<in> set protected" for p
    using that t(3) by (auto simp: list_ex_iff is_protected_identity_def split: option.splits if_splits)
  ultimately show ?thesis using Inr t disposable_identity[OF d] by (simp add: list_all_iff)
qed

section \<open>Theorems\<close>

text \<open>C25: Events enter the system only over an authenticated webhook. A Razorpay request that changes the
  database carried the HMAC of its exact body under the configured secret, which is neither blank nor a published
  placeholder; a PayPal request that changes it was confirmed by PayPal's own API at the configured host.\<close>
theorem intake_authentic:
  "(let (r, db') = razorpay_route env hmac_hex loads coerce_int new_id now seen body signature event_id db
    in if db' = db then True
       else \<exists>secret. env ''RAZORPAY_WEBHOOK_SECRET'' = Some secret \<and> strip secret \<noteq> [] \<and>
         str_lower (strip secret) \<notin> set KNOWN_PLACEHOLDER_RAZORPAY_SECRETS \<and> signature = Some (hmac_hex secret body)) \<and>
   (let (r, db') = paypal_route loads bracketed_ok post clocks (create_paypal_client env) headers new_id now seen
                     declared_length chunks tok db
    in if db' = db then True
       else \<exists>config webhook_id found access_token content j.
         config_from_env env = Inr config \<and> cf_webhook_id config = Some webhook_id \<and>
         transmission_fields headers = Inr found \<and>
         read_members (drop 1 content) = Some (found @ [(''webhook_id'', webhook_id)], concat chunks) \<and>
         post (VerifyRequest (base_url config @ VERIFY_WEBHOOK_SIGNATURE_PATH) access_token content) = HttpResponse 200 (Some j) \<and>
         json_get j ''verification_status'' = Some (JStr ''SUCCESS''))"
proof -
  have client: "create_paypal_client env = Some config \<longleftrightarrow> config_from_env env = Inr config" for config
    by (auto simp: create_paypal_client_def split: sum.splits)
  show ?thesis
    using razorpay_route_authentic[of env hmac_hex loads coerce_int new_id now seen body signature event_id db]
      paypal_route_authentic[of loads bracketed_ok post clocks "create_paypal_client env" headers new_id now seen
        declared_length chunks tok db]
    unfolding client by blast
qed


text \<open>C27: Migrations touch only what was named, and never park a database between the two provider revisions. A
  committed online run had an explicit URL, not on the development port, whose database is the one the operator
  named and the server reported, and is the disposable one unless the operator opted out; if it ends at an
  intermediate revision the database is the disposable one. An offline script that ends there carries the
  assertion.\<close>
theorem migration_guarded:
  "(case run_migrations_online make_url env actual current applied of
      Inl e \<Rightarrow> e = UnsafeDatabaseError \<or> e = RuntimeError
    | Inr heads \<Rightarrow>
        (\<exists>url u. env ''DATABASE_URL'' = Some url \<and> make_url url = Some u \<and> du_port u \<noteq> Some DEV_DATABASE_PORT \<and>
           du_database u = Some actual \<and> env ''ALEMBIC_TARGET_DATABASE'' = Some actual \<and>
           (is_disposable_test_identity u \<or> env ''ALEMBIC_ALLOW_NON_TEST_DATABASE'' = Some ''yes'') \<and>
           heads = (if applied = [] then current else last applied) \<and>
           (heads \<inter> set ALEMBIC_INTERMEDIATE_REVISIONS = {} \<or>
            actual = DISPOSABLE_TEST_DATABASE \<and> is_disposable_test_identity u))) \<and>
   (case run_migrations_offline make_url env applied of
      Inl e \<Rightarrow> e = UnsafeDatabaseError
    | Inr (heads, asserts) \<Rightarrow> asserts = (heads \<inter> set ALEMBIC_INTERMEDIATE_REVISIONS \<noteq> {}))"
proof (intro conjI)
  have target: "e = UnsafeDatabaseError" if "validate_alembic_target make_url env b = Inl e" for e b
    using that by (auto simp: validate_alembic_target_def validate_alembic_url_def bind_result_Inl
        dest: parse_url_Inl validate_test_Inl split: if_splits)
  have final: "e = UnsafeDatabaseError" if "final_state_requires_assertion h u b = Inl e" for e h u b
    using that by (auto simp: final_state_requires_assertion_def split: if_splits)
  show "case run_migrations_offline make_url env applied of
      Inl e \<Rightarrow> e = UnsafeDatabaseError
    | Inr (heads, asserts) \<Rightarrow> asserts = (heads \<inter> set ALEMBIC_INTERMEDIATE_REVISIONS \<noteq> {})"
    by (auto simp: run_migrations_offline_def bind_result_def final_state_requires_assertion_def dest: target split: sum.splits if_splits)
  show "case run_migrations_online make_url env actual current applied of
      Inl e \<Rightarrow> e = UnsafeDatabaseError \<or> e = RuntimeError
    | Inr heads \<Rightarrow>
        (\<exists>url u. env ''DATABASE_URL'' = Some url \<and> make_url url = Some u \<and> du_port u \<noteq> Some DEV_DATABASE_PORT \<and>
           du_database u = Some actual \<and> env ''ALEMBIC_TARGET_DATABASE'' = Some actual \<and>
           (is_disposable_test_identity u \<or> env ''ALEMBIC_ALLOW_NON_TEST_DATABASE'' = Some ''yes'') \<and>
           heads = (if applied = [] then current else last applied) \<and>
           (heads \<inter> set ALEMBIC_INTERMEDIATE_REVISIONS = {} \<or>
            actual = DISPOSABLE_TEST_DATABASE \<and> is_disposable_test_identity u))"
  proof (cases "run_migrations_online make_url env actual current applied")
    case (Inl e)
    then show ?thesis
      by (auto simp: run_migrations_online_def bind_result_Inl assert_connected_database_def run_assertion_def Let_def
          dest: target final split: if_splits)
  next
    case (Inr heads)
    then obtain u needed where u: "validate_alembic_target make_url env False = Inr u" "Some actual = du_database u"
      and heads: "heads = (if applied = [] then current else last applied)"
      and needed: "final_state_requires_assertion heads u False = Inr needed" "needed \<Longrightarrow> run_assertion actual = Inr ()"
      by (auto simp: run_migrations_online_def bind_result_Inr assert_connected_database_def final_heads_def Let_def split: if_splits)
    have "heads \<inter> set ALEMBIC_INTERMEDIATE_REVISIONS = {} \<or> actual = DISPOSABLE_TEST_DATABASE \<and> is_disposable_test_identity u"
      using needed by (auto simp: final_state_requires_assertion_def run_assertion_def split: if_splits)
    moreover obtain t where "env ''DATABASE_URL'' = Some t" "make_url t = Some u" "du_port u \<noteq> Some 5433"
      "env ''ALEMBIC_TARGET_DATABASE'' = du_database u"
      "is_disposable_test_identity u \<or> env ''ALEMBIC_ALLOW_NON_TEST_DATABASE'' = Some ''yes''"
      using alembic_online_Inr[OF u(1)] by blast
    ultimately show ?thesis using u(2)[symmetric] heads Inr by (simp add: DEV_DATABASE_PORT_def)
  qed
qed

end
