(* ===== verification/Prediction.thy ===== *)
theory Prediction
  imports Attempts
begin

text \<open>
  Stage 5: feature reconstruction as of an instant, the prediction models and the prediction service
  (\<open>core/services/feature_reconstruction_service.py\<close>, \<open>core/services/failure_prediction_service.py\<close>,
  \<open>core/ml/model.py\<close>, \<open>core/domain/failure_prediction_models.py\<close>, \<open>failure_prediction_features.py\<close> and
  the two repositories).

  A random or learned part is a parameter: \<open>uuid_str\<close> renders a UUID, \<open>predict_proba\<close> is the fitted
  scikit-learn classifier.
\<close>

section \<open>Queries\<close>

text \<open>
  \<open>ORDER BY key DESC LIMIT 1\<close>; among rows with the same key the first inserted one is returned.
\<close>

definition latest_by :: "('r \<Rightarrow> 'k::linorder) \<Rightarrow> 'r list \<Rightarrow> 'r option" where
  "latest_by key rows = find (\<lambda>r. list_all (\<lambda>q. key q \<le> key r) rows) rows"

definition get_payment_event_by_id ::
  "('a event_db_scheme) \<Rightarrow> string \<Rightarrow> datetime \<Rightarrow> payment_event option" where
  "get_payment_event_by_id db payment_id t =
     (case paypal_order_id payment_id of
        Some order_id \<Rightarrow>
          latest_by ev_ingested_at
            (filter (\<lambda>e. paypal_trigger_events order_id e \<and> ev_ingested_at e \<le> t) (db_events db))
      | None \<Rightarrow>
          latest_by ev_ingested_at
            (filter (\<lambda>e. ev_payment_id e = payment_id \<and> ev_event_type e = PIPELINE_TRIGGER_EVENT_TYPE \<and>
                         ev_ingested_at e \<le> t \<and> event_visible e) (db_events db)))"

text \<open>The column of a dimension; \<open>source_system\<close> for the global rate.\<close>

definition dimension_col :: "string \<Rightarrow> payment_event \<Rightarrow> string option" where
  "dimension_col f e = (if f = ''source_system'' then Some (ev_source_system e) else ev_field e f)"

definition get_historical_failure_rate ::
  "('a event_db_scheme) \<Rightarrow> string \<Rightarrow> string \<Rightarrow> datetime \<Rightarrow> int \<Rightarrow> bool \<Rightarrow> int \<times> int" where
  "get_historical_failure_rate db col dimension_value t window_minutes paypal =
     (let window_start = t - minutes window_minutes;
          rows = filter (\<lambda>e. dimension_col col e = Some dimension_value \<and> ev_ingested_at e < t \<and>
                    window_start \<le> ev_timestamp e \<and> ev_timestamp e < t \<and>
                    ev_event_type e \<in> set TERMINAL_EVENT_TYPES \<and>
                    (if paypal then ev_source_system e = PAYPAL_SOURCE_SYSTEM else event_visible e))
                  (db_events db)
      in (int (length rows), int (length (filter (\<lambda>e. ev_event_type e = ''payment.failed'') rows))))"

definition get_active_episode_context ::
  "('a degradation_db_scheme) \<Rightarrow> string \<Rightarrow> string \<Rightarrow> datetime \<Rightarrow> episode_history option" where
  "get_active_episode_context db segment_dimension segment_value t =
     (let segment = (\<lambda>h. str_upper (hist_dimension h) = str_upper segment_dimension \<and> hist_value h = segment_value)
      in case latest_by hist_evaluation_timestamp
                (filter (\<lambda>h. segment h \<and> hist_evaluation_timestamp h \<le> t) (db_history db)) of
           None \<Rightarrow> None
         | Some r \<Rightarrow>
             find (\<lambda>h. hist_run_id h = hist_run_id r \<and> segment h \<and> hist_status h = ACTIVE) (db_history db))"

text \<open>The candidates of an evaluation have distinct ranks.\<close>

definition get_rca_context ::
  "('a rca_db_scheme) \<Rightarrow> uuid \<Rightarrow> datetime \<Rightarrow> (rca_evaluation \<times> candidate_cause option) option" where
  "get_rca_context db episode_id t =
     (case latest_by re_version
             (filter (\<lambda>r. re_episode_id r = episode_id \<and> re_generated_at r < t) (db_evaluations db)) of
        None \<Rightarrow> None
      | Some r \<Rightarrow>
          Some (r, find (\<lambda>c. cc_evaluation_id c = re_evaluation_id r \<and> cc_rank c = 1) (db_candidates db)))"

text \<open>
  The candidates are sorted in reverse order of severity, negated start and identifier: the most severe,
  then the oldest, then the greatest identifier comes first.
\<close>

definition episode_precedence ::
  "(uuid \<Rightarrow> string) \<Rightarrow> episode_history \<Rightarrow> int \<times> int \<times> string" where
  "episode_precedence uuid_str h =
     (severity_order (hist_severity h), - hist_effective_start h, uuid_str (hist_episode_id h))"

definition get_most_severe_active_episode ::
  "(uuid \<Rightarrow> string) \<Rightarrow> ('a degradation_db_scheme) \<Rightarrow> payment_event \<Rightarrow> datetime \<Rightarrow> episode_history option" where
  "get_most_severe_active_episode uuid_str db auth_event t =
     (if ev_source_system auth_event = PAYPAL_SOURCE_SYSTEM then None
      else
        let opt = (\<lambda>d v. if truthy v then [(d, the v)] else []);
            segments = [(''GLOBAL'', ''ALL'')] @ opt ''CURRENCY'' (Some (ev_currency auth_event))
              @ opt ''PAYMENT_METHOD'' (ev_payment_method auth_event)
              @ opt ''BANK'' (ev_bank auth_event) @ opt ''WALLET'' (ev_wallet auth_event);
            candidates = List.map_filter (\<lambda>(d, v). get_active_episode_context db d v t) segments
        in latest_by (episode_precedence uuid_str) candidates)"

section \<open>Features\<close>

record feature_snapshot =
  fs_payment_method :: "string option"
  fs_bank :: "string option"
  fs_wallet :: "string option"
  fs_currency :: string
  fs_amount_minor_units :: int
  fs_hour_of_day :: int
  fs_day_of_week :: int
  fs_global_30m :: "pyfloat option"
  fs_global_24h :: "pyfloat option"
  fs_payment_method_30m :: "pyfloat option"
  fs_payment_method_24h :: "pyfloat option"
  fs_bank_30m :: "pyfloat option"
  fs_bank_24h :: "pyfloat option"
  fs_wallet_30m :: "pyfloat option"
  fs_wallet_24h :: "pyfloat option"
  fs_currency_30m :: "pyfloat option"
  fs_currency_24h :: "pyfloat option"
  fs_insufficient_global_volume :: bool
  fs_is_in_active_degradation :: bool
  fs_degradation_severity :: "string option"
  fs_rca_classification :: "string option"
  fs_rca_candidate_dimension :: "string option"
  fs_rca_candidate_value :: "string option"
  fs_rca_evidence_strength :: "string option"
  fs_rca_contribution :: "pyfloat option"
  fs_rca_candidate_rank :: "int option"
  fs_rca_matches_segment :: "bool option"

text \<open>\<open>dataclasses.asdict\<close>\<close>

definition snapshot_dict :: "feature_snapshot \<Rightarrow> json" where
  "snapshot_dict s = JObj
     [(''payment_method'', json_opt JStr (fs_payment_method s)), (''bank'', json_opt JStr (fs_bank s)),
      (''wallet'', json_opt JStr (fs_wallet s)), (''currency'', JStr (fs_currency s)),
      (''amount_minor_units'', JInt (fs_amount_minor_units s)),
      (''hour_of_day'', JInt (fs_hour_of_day s)), (''day_of_week'', JInt (fs_day_of_week s)),
      (''global_30m_failure_rate'', json_opt JFloat (fs_global_30m s)),
      (''global_24h_failure_rate'', json_opt JFloat (fs_global_24h s)),
      (''payment_method_30m_failure_rate'', json_opt JFloat (fs_payment_method_30m s)),
      (''payment_method_24h_failure_rate'', json_opt JFloat (fs_payment_method_24h s)),
      (''bank_30m_failure_rate'', json_opt JFloat (fs_bank_30m s)),
      (''bank_24h_failure_rate'', json_opt JFloat (fs_bank_24h s)),
      (''wallet_30m_failure_rate'', json_opt JFloat (fs_wallet_30m s)),
      (''wallet_24h_failure_rate'', json_opt JFloat (fs_wallet_24h s)),
      (''currency_30m_failure_rate'', json_opt JFloat (fs_currency_30m s)),
      (''currency_24h_failure_rate'', json_opt JFloat (fs_currency_24h s)),
      (''insufficient_global_volume'', JBool (fs_insufficient_global_volume s)),
      (''is_in_active_degradation'', JBool (fs_is_in_active_degradation s)),
      (''degradation_severity'', json_opt JStr (fs_degradation_severity s)),
      (''rca_classification'', json_opt JStr (fs_rca_classification s)),
      (''rca_candidate_dimension'', json_opt JStr (fs_rca_candidate_dimension s)),
      (''rca_candidate_value'', json_opt JStr (fs_rca_candidate_value s)),
      (''rca_evidence_strength'', json_opt JStr (fs_rca_evidence_strength s)),
      (''rca_excess_failure_contribution'', json_opt JFloat (fs_rca_contribution s)),
      (''rca_candidate_rank'', json_opt JInt (fs_rca_candidate_rank s)),
      (''rca_candidate_matches_payment_segment'', json_opt JBool (fs_rca_matches_segment s))]"

definition THRESHOLDS :: "(string \<times> int) list" where
  "THRESHOLDS =
     [(''global'', 50), (''payment_method'', 20), (''bank'', 10), (''wallet'', 10), (''currency'', 20)]"

definition calculate_rate ::
  "('a event_db_scheme) \<Rightarrow> string \<Rightarrow> string \<Rightarrow> datetime \<Rightarrow> int \<Rightarrow> string \<Rightarrow> bool \<Rightarrow> pyfloat option" where
  "calculate_rate db col dimension_value t window_minutes threshold_key paypal =
     (case get_historical_failure_rate db col dimension_value t window_minutes paypal of (tot, failures) \<Rightarrow>
        if tot < the (map_of THRESHOLDS threshold_key) then None
        else Some (if 0 < tot then int_truediv failures tot else 0))"

definition matches_segment :: "payment_event \<Rightarrow> string \<Rightarrow> string \<Rightarrow> bool" where
  "matches_segment event sdim sval \<longleftrightarrow>
     sdim = ''BANK'' \<and> ev_bank event = Some sval \<or> sdim = ''WALLET'' \<and> ev_wallet event = Some sval \<or>
     sdim = ''PAYMENT_METHOD'' \<and> ev_payment_method event = Some sval \<or>
     sdim = ''CURRENCY'' \<and> ev_currency event = sval"

definition severity_value :: "severity \<Rightarrow> string" where
  "severity_value s = (case s of MODERATE \<Rightarrow> ''MODERATE'' | HIGH \<Rightarrow> ''HIGH'' | CRITICAL \<Rightarrow> ''CRITICAL'')"

definition timestamp_hour :: "datetime \<Rightarrow> int" where
  "timestamp_hour ts = ts div 3600000000 mod 24"

text \<open>\<open>weekday()\<close> counts from Monday; 1 January 1970 was a Thursday.\<close>

definition timestamp_weekday :: "datetime \<Rightarrow> int" where
  "timestamp_weekday ts = (ts div 86400000000 + 3) mod 7"

definition reconstruct_features ::
  "(uuid \<Rightarrow> string) \<Rightarrow> ('a rca_db_scheme) \<Rightarrow> string \<Rightarrow> datetime \<Rightarrow> feature_snapshot option" where
  "reconstruct_features uuid_str db payment_id t =
     (case get_payment_event_by_id db payment_id t of
        None \<Rightarrow> None
      | Some auth \<Rightarrow>
          let paypal = (paypal_order_id payment_id \<noteq> None);
              rate = (\<lambda>col v w k. if truthy v then calculate_rate db col (the v) t w k paypal else None);
              global_30m = calculate_rate db ''source_system'' (ev_source_system auth) t 30 ''global'' paypal;
              global_24h = calculate_rate db ''source_system'' (ev_source_system auth) t (24 * 60) ''global'' paypal;
              active = get_most_severe_active_episode uuid_str db auth t;
              rca = (case active of None \<Rightarrow> None | Some ep \<Rightarrow> get_rca_context db (hist_episode_id ep) t);
              classification = map_option (\<lambda>(r, _). re_classification r) rca;
              candidate = (case rca of Some (r, Some c) \<Rightarrow> Some c | _ \<Rightarrow> None)
          in Some
            \<lparr>fs_payment_method = ev_payment_method auth, fs_bank = ev_bank auth, fs_wallet = ev_wallet auth,
             fs_currency = ev_currency auth, fs_amount_minor_units = ev_amount_minor_units auth,
             fs_hour_of_day = timestamp_hour (ev_timestamp auth),
             fs_day_of_week = timestamp_weekday (ev_timestamp auth),
             fs_global_30m = global_30m, fs_global_24h = global_24h,
             fs_payment_method_30m = rate ''payment_method'' (ev_payment_method auth) 30 ''payment_method'',
             fs_payment_method_24h = rate ''payment_method'' (ev_payment_method auth) (24 * 60) ''payment_method'',
             fs_bank_30m = rate ''bank'' (ev_bank auth) 30 ''bank'',
             fs_bank_24h = rate ''bank'' (ev_bank auth) (24 * 60) ''bank'',
             fs_wallet_30m = rate ''wallet'' (ev_wallet auth) 30 ''wallet'',
             fs_wallet_24h = rate ''wallet'' (ev_wallet auth) (24 * 60) ''wallet'',
             fs_currency_30m = rate ''currency'' (Some (ev_currency auth)) 30 ''currency'',
             fs_currency_24h = rate ''currency'' (Some (ev_currency auth)) (24 * 60) ''currency'',
             fs_insufficient_global_volume = (global_30m = None \<and> global_24h = None),
             fs_is_in_active_degradation = (active \<noteq> None),
             fs_degradation_severity = map_option (\<lambda>ep. severity_value (hist_severity ep)) active,
             fs_rca_classification = map_option classification_value classification,
             fs_rca_candidate_dimension = map_option cc_dimension candidate,
             fs_rca_candidate_value = map_option cc_value candidate,
             fs_rca_evidence_strength = map_option (\<lambda>c. strength_value (cc_strength c)) candidate,
             fs_rca_contribution = map_option cc_contribution candidate,
             fs_rca_candidate_rank = map_option cc_rank candidate,
             fs_rca_matches_segment =
               (case candidate of None \<Rightarrow> None
                | Some c \<Rightarrow>
                    if classification = Some SEGMENT_SPECIFIC then Some (matches_segment auth (cc_dimension c) (cc_value c))
                    else if classification = Some SYSTEMIC then Some False else None)\<rparr>)"

section \<open>Models\<close>

text \<open>
  A model has a name, a version, a feature schema version and a prediction; the prediction of a fitted
  model may raise.
\<close>

record prediction_model =
  fm_name :: string
  fm_version :: string
  fm_schema :: string
  fm_predict :: "feature_snapshot \<Rightarrow> (exn, pyfloat) result"

definition baseline_rate :: "feature_snapshot \<Rightarrow> pyfloat option" where
  "baseline_rate fv = (case fs_global_30m fv of Some r \<Rightarrow> Some r | None \<Rightarrow> fs_global_24h fv)"

definition baseline_predict :: "feature_snapshot \<Rightarrow> pyfloat" where
  "baseline_predict fv =
     (let p0 = fl (5 / 100);
          p1 = (case baseline_rate fv of None \<Rightarrow> p0
                | Some r \<Rightarrow> f_add (f_mul (fl (1 / 2)) p0) (f_mul (fl (1 / 2)) r));
          p2 = (if fs_is_in_active_degradation fv
                then (if fs_degradation_severity fv = Some ''CRITICAL'' then f_add p1 (fl (30 / 100))
                      else if fs_degradation_severity fv = Some ''HIGH'' then f_add p1 (fl (15 / 100))
                      else if fs_degradation_severity fv = Some ''MODERATE'' then f_add p1 (fl (5 / 100)) else p1)
                else p1);
          p3 = (if fs_rca_matches_segment fv = Some True
                then (if fs_rca_evidence_strength fv = Some ''STRONG'' then f_add p2 (fl (2 / 10))
                      else if fs_rca_evidence_strength fv = Some ''MODERATE'' then f_add p2 (fl (1 / 10)) else p2)
                else p2)
      in clamp01 p3)"

definition DeterministicBaselineModel :: prediction_model where
  "DeterministicBaselineModel =
     \<lparr>fm_name = ''DeterministicBaselineModel'', fm_version = ''untrained-heuristic-v2'',
      fm_schema = ''v1.0.0'', fm_predict = (\<lambda>fv. Inr (baseline_predict fv))\<rparr>"

text \<open>
  The row of a logistic model: a categorical feature is encoded (0 when unknown), any other value goes
  through \<open>float\<close>, which refuses text that is no number (\<open>float_str\<close> reads it).
\<close>

definition logistic_cell ::
  "(string \<Rightarrow> pyfloat option) \<Rightarrow> (string \<times> (json \<times> int) list) list \<Rightarrow> json \<Rightarrow> string \<Rightarrow> (exn, pyfloat) result" where
  "logistic_cell float_str encoders fv feature =
     (let v = (case json_get fv feature of None \<Rightarrow> JNull | Some x \<Rightarrow> x) in
      case map_of encoders feature of
        Some enc \<Rightarrow> Inr (of_int (case map_of enc v of None \<Rightarrow> 0 | Some k \<Rightarrow> k))
      | None \<Rightarrow>
          (case v of
             JNull \<Rightarrow> Inr 0
           | JBool b \<Rightarrow> Inr (if b then 1 else 0)
           | JInt i \<Rightarrow> Inr (float_of_int i)
           | JFloat x \<Rightarrow> Inr x
           | JStr s \<Rightarrow> (case float_str s of None \<Rightarrow> Inl ValueError | Some x \<Rightarrow> Inr x)
           | _ \<Rightarrow> Inl TypeError))"

definition logistic_failure_probability ::
  "(string \<Rightarrow> pyfloat option) \<Rightarrow> (pyfloat list \<Rightarrow> pyfloat) \<Rightarrow> string list \<Rightarrow>
   (string \<times> (json \<times> int) list) list \<Rightarrow> json \<Rightarrow> (exn, pyfloat) result" where
  "logistic_failure_probability float_str predict_proba feature_names encoders fv =
     bind_result (fold_result (\<lambda>f row. bind_result (logistic_cell float_str encoders fv f) (\<lambda>x. Inr (row @ [x])))
        feature_names []) (\<lambda>row. Inr (predict_proba row))"

definition SyntheticLogisticRegressionModel ::
  "(string \<Rightarrow> pyfloat option) \<Rightarrow> (pyfloat list \<Rightarrow> pyfloat) \<Rightarrow> string list \<Rightarrow>
   (string \<times> (json \<times> int) list) list \<Rightarrow> prediction_model" where
  "SyntheticLogisticRegressionModel float_str predict_proba feature_names encoders =
     \<lparr>fm_name = ''SyntheticLogisticRegressionModel'', fm_version = ''synthetic-development-v1'',
      fm_schema = ''v1.0.0-synthetic'',
      fm_predict = (\<lambda>fv. logistic_failure_probability float_str predict_proba feature_names encoders (snapshot_dict fv))\<rparr>"

text \<open>\<open>provider-eval-[0-9a-f]\{12\}\<close>, matched in full.\<close>

definition provider_model_version :: "string \<Rightarrow> bool" where
  "provider_model_version v \<longleftrightarrow>
     prefix ''provider-eval-'' v \<and> length v = 26 \<and>
     list_all (\<lambda>c. c \<in> set ''0123456789abcdef'') (drop 14 v)"

definition ProviderLogisticRegressionModel ::
  "(string \<Rightarrow> pyfloat option) \<Rightarrow> (pyfloat list \<Rightarrow> pyfloat) \<Rightarrow> string list \<Rightarrow>
   (string \<times> (json \<times> int) list) list \<Rightarrow> string \<Rightarrow> (exn, prediction_model) result" where
  "ProviderLogisticRegressionModel float_str predict_proba feature_names encoders model_version =
     (if \<not> provider_model_version model_version then Inl ValueError
      else Inr \<lparr>fm_name = ''ProviderLogisticRegressionModel'', fm_version = model_version, fm_schema = ''v1.0.0'',
        fm_predict = (\<lambda>fv. logistic_failure_probability float_str predict_proba feature_names encoders (snapshot_dict fv))\<rparr>)"

subsection \<open>Loading a model\<close>

text \<open>
  \<open>artifact\<close> says what a path holds: nothing, an object of one of the model classes, or another object.
  \<open>default_path\<close> is the path of the synthetic artifact.
\<close>

datatype artifact = NoArtifact | SyntheticArtifact prediction_model | ModelArtifact prediction_model | OtherArtifact

definition load_synthetic_development_model ::
  "(string \<Rightarrow> artifact) \<Rightarrow> string \<Rightarrow> string option \<Rightarrow> (exn, prediction_model) result" where
  "load_synthetic_development_model artifact_at default_path artifact_path =
     (case artifact_at (if truthy artifact_path then the artifact_path else default_path) of
        NoArtifact \<Rightarrow> Inl FileNotFoundError
      | SyntheticArtifact m \<Rightarrow> Inr m
      | _ \<Rightarrow> Inl TypeError)"

definition load_production_model ::
  "(string \<Rightarrow> artifact) \<Rightarrow> string option \<Rightarrow> string option \<Rightarrow> (exn, prediction_model) result" where
  "load_production_model artifact_at stage5_model_path artifact_path =
     (let path = (if truthy artifact_path then artifact_path else stage5_model_path) in
      if \<not> truthy path then Inl ValueError
      else case artifact_at (the path) of
             NoArtifact \<Rightarrow> Inl FileNotFoundError
           | SyntheticArtifact m \<Rightarrow> Inr m
           | ModelArtifact m \<Rightarrow> Inr m
           | OtherArtifact \<Rightarrow> Inl TypeError)"

definition get_production_model ::
  "(string \<Rightarrow> artifact) \<Rightarrow> string option \<Rightarrow> string option \<Rightarrow> (exn, prediction_model) result" where
  "get_production_model artifact_at stage5_model_path artifact_path =
     load_production_model artifact_at stage5_model_path artifact_path"

definition get_development_model ::
  "(string \<Rightarrow> artifact) \<Rightarrow> string \<Rightarrow> string \<Rightarrow> string option \<Rightarrow> (exn, prediction_model) result" where
  "get_development_model artifact_at default_path mode artifact_path =
     (if mode = ''synthetic'' then load_synthetic_development_model artifact_at default_path artifact_path
      else if mode = ''deterministic'' then Inr DeterministicBaselineModel
      else Inl ValueError)"

section \<open>Predictions\<close>

datatype prediction_status = PREDICTED | INSUFFICIENT_DATA | NOT_ELIGIBLE

primrec prediction_status_value :: "prediction_status \<Rightarrow> string" where
  "prediction_status_value PREDICTED = ''PREDICTED''"
| "prediction_status_value INSUFFICIENT_DATA = ''INSUFFICIENT_DATA''"
| "prediction_status_value NOT_ELIGIBLE = ''NOT_ELIGIBLE''"

record failure_prediction =
  fp_prediction_id :: uuid
  fp_payment_attempt_id :: string
  fp_source_system :: string
  fp_version :: int
  fp_predicted_at :: datetime
  fp_horizon :: string
  fp_failure_probability :: "pyfloat option"
  fp_risk_band :: "string option"
  fp_status :: prediction_status
  fp_model_name :: string
  fp_model_version :: string
  fp_schema_version :: string
  fp_features :: json
  fp_fingerprint :: digest
  fp_created_at :: datetime

record prediction_db = attempts_db +
  db_predictions :: "failure_prediction list"

definition NAMESPACE_STAGE5 :: uuid where
  "NAMESPACE_STAGE5 = UuidLit ''c3d4e5f6-a7b8-9012-cdef-345678901234''"

definition make_prediction_id :: "string \<Rightarrow> int \<Rightarrow> uuid" where
  "make_prediction_id payment_attempt_id prediction_version =
     Uuid5 NAMESPACE_STAGE5 (versioned_name (chars payment_attempt_id) prediction_version)"

definition prediction_fingerprint ::
  "string \<Rightarrow> datetime \<Rightarrow> string \<Rightarrow> json \<Rightarrow> string \<Rightarrow> string \<Rightarrow> string \<Rightarrow> digest" where
  "prediction_fingerprint payment_attempt_id predicted_at prediction_horizon features
       model_name model_version feature_schema_version =
     sha256_json (JObj
       [(''payment_attempt_id'', JStr payment_attempt_id), (''predicted_at'', JTime predicted_at),
        (''prediction_horizon'', JStr prediction_horizon), (''feature_snapshot'', features),
        (''model_name'', JStr model_name), (''model_version'', JStr model_version),
        (''feature_schema_version'', JStr feature_schema_version)])"

section \<open>Repository\<close>

text \<open>
  The rows of an attempt; with a source system the query joins the registry and fails for an
  unknown provider.
\<close>

definition prediction_rows ::
  "('a prediction_db_scheme) \<Rightarrow> string \<Rightarrow> string option \<Rightarrow> (exn, failure_prediction list) result" where
  "prediction_rows db payment_attempt_id source_system =
     (case source_system of
        None \<Rightarrow> Inr (filter (\<lambda>p. fp_payment_attempt_id p = payment_attempt_id) (db_predictions db))
      | Some s \<Rightarrow>
          if s \<notin> set PIPELINE_PROVIDERS then Inl UnsupportedProviderError
          else Inr (filter (\<lambda>p. fp_payment_attempt_id p = payment_attempt_id \<and> fp_source_system p = s \<and>
                                joined_attempt db payment_attempt_id (fp_source_system p)) (db_predictions db)))"

definition get_max_prediction_version ::
  "('a prediction_db_scheme) \<Rightarrow> string \<Rightarrow> string option \<Rightarrow> (exn, int) result" where
  "get_max_prediction_version db payment_attempt_id source_system =
     bind_result (prediction_rows db payment_attempt_id source_system)
       (\<lambda>rows. Inr (max_default 0 (map fp_version rows)))"

definition get_latest_prediction ::
  "('a prediction_db_scheme) \<Rightarrow> string \<Rightarrow> string option \<Rightarrow> (exn, failure_prediction option) result" where
  "get_latest_prediction db payment_attempt_id source_system =
     bind_result (prediction_rows db payment_attempt_id source_system)
       (\<lambda>rows. Inr (latest_by fp_version rows))"

definition get_prediction_by_fingerprint ::
  "('a prediction_db_scheme) \<Rightarrow> digest \<Rightarrow> failure_prediction option" where
  "get_prediction_by_fingerprint db input_fingerprint =
     find (\<lambda>p. fp_fingerprint p = input_fingerprint) (db_predictions db)"

definition insert_prediction ::
  "failure_prediction \<Rightarrow> ('a prediction_db_scheme) \<Rightarrow> ('a prediction_db_scheme)" where
  "insert_prediction p db = db\<lparr>db_predictions := db_predictions db @ [p]\<rparr>"

text \<open>
  The insertion is refused when the id or the (attempt, provider, version) is taken, or the attempt is
  not registered under the provider.
\<close>

definition append_prediction ::
  "failure_prediction \<Rightarrow> ('a prediction_db_scheme) \<Rightarrow> (exn, 'a prediction_db_scheme) result" where
  "append_prediction p db =
     (if list_ex (\<lambda>q. fp_prediction_id q = fp_prediction_id p \<or>
            fp_payment_attempt_id q = fp_payment_attempt_id p \<and> fp_source_system q = fp_source_system p \<and>
            fp_version q = fp_version p) (db_predictions db) \<or>
         \<not> joined_attempt db (fp_payment_attempt_id p) (fp_source_system p)
      then Inl IntegrityError else Inr (insert_prediction p db))"

section \<open>Service\<close>

definition is_eligible_for_prediction ::
  "('a event_db_scheme) \<Rightarrow> string \<Rightarrow> datetime \<Rightarrow> string option \<Rightarrow> bool" where
  "is_eligible_for_prediction db payment_attempt_id t source_system =
     (if source_system = Some ''paypal''
      then (let order_id = (case paypal_order_id payment_attempt_id of
                              Some r \<Rightarrow> r | None \<Rightarrow> payment_attempt_id)
            in \<not> list_ex (\<lambda>e. paypal_terminal_events order_id e \<and> ev_ingested_at e < t \<and>
                               ev_source_system e = ''paypal'') (db_events db))
      else case source_system of
        Some s \<Rightarrow>
          \<not> list_ex (\<lambda>e. ev_payment_id e = payment_attempt_id \<and> is_terminal e \<and> ev_ingested_at e < t \<and>
                          ev_source_system e = s) (db_events db)
      | None \<Rightarrow>
          (case paypal_order_id payment_attempt_id of
             Some order_id \<Rightarrow>
               \<not> list_ex (\<lambda>e. paypal_terminal_events order_id e \<and> ev_ingested_at e < t) (db_events db)
           | None \<Rightarrow>
               \<not> list_ex (\<lambda>e. ev_payment_id e = payment_attempt_id \<and> is_terminal e \<and> ev_ingested_at e < t \<and>
                               event_visible e) (db_events db)))"

definition lookup_terminal_label ::
  "('a event_db_scheme) \<Rightarrow> string \<Rightarrow> datetime \<Rightarrow> int option \<Rightarrow> int option" where
  "lookup_terminal_label db payment_attempt_id t observation_window_minutes =
     (let rows = filter (\<lambda>e. ev_payment_id e = payment_attempt_id \<and> is_terminal e \<and> t \<le> ev_ingested_at e \<and>
                   event_visible e \<and>
                   (case observation_window_minutes of None \<Rightarrow> True
                    | Some w \<Rightarrow> ev_ingested_at e \<le> t + minutes w)) (db_events db)
      in case latest_by (\<lambda>e. - ev_ingested_at e) rows of
           None \<Rightarrow> None
         | Some e \<Rightarrow> Some (if ev_event_type e = ''payment.failed'' then 1 else 0))"

definition risk_band :: "pyfloat \<Rightarrow> string" where
  "risk_band p = (if fl (7 / 10) \<le> p then ''HIGH'' else if fl (3 / 10) \<le> p then ''ELEVATED'' else ''LOW'')"

definition orchestrate_prediction ::
  "(uuid \<Rightarrow> string) \<Rightarrow> prediction_model \<Rightarrow> datetime \<Rightarrow> attempt_ref \<Rightarrow> datetime \<Rightarrow> ('a prediction_db_scheme) \<Rightarrow>
   (exn, failure_prediction \<times> ('a prediction_db_scheme)) result" where
  "orchestrate_prediction uuid_str m now attempt t db =
     bind_result (require_attempt db attempt) (\<lambda>_.
     let pid = ar_payment_attempt_id attempt; source = ar_source_system attempt;
         eligible = is_eligible_for_prediction db pid t (Some source);
         snapshot = (if eligible then reconstruct_features uuid_str db pid t else None);
         status = (if \<not> eligible then NOT_ELIGIBLE
                   else case snapshot of None \<Rightarrow> INSUFFICIENT_DATA
                        | Some s \<Rightarrow> if fs_insufficient_global_volume s then INSUFFICIENT_DATA else PREDICTED);
         features = (case snapshot of None \<Rightarrow> JObj [] | Some s \<Rightarrow> snapshot_dict s);
         fingerprint = prediction_fingerprint pid t ''30m'' features (fm_name m) (fm_version m) (fm_schema m)
     in bind_result (get_latest_prediction db pid (Some source)) (\<lambda>prior.
        if map_option fp_fingerprint prior = Some fingerprint then Inr (the prior, db)
        else bind_result (if status = PREDICTED
                          then bind_result (fm_predict m (the snapshot)) (\<lambda>p. Inr (Some p)) else Inr None)
          (\<lambda>probability.
           bind_result (get_max_prediction_version db pid (Some source)) (\<lambda>max_version.
             let p = \<lparr>fp_prediction_id = make_prediction_id pid (max_version + 1),
                      fp_payment_attempt_id = pid, fp_source_system = source,
                      fp_version = max_version + 1, fp_predicted_at = t, fp_horizon = ''30m'',
                      fp_failure_probability = probability, fp_risk_band = map_option risk_band probability,
                      fp_status = status, fp_model_name = fm_name m, fp_model_version = fm_version m,
                      fp_schema_version = fm_schema m, fp_features = features, fp_fingerprint = fingerprint,
                      fp_created_at = now\<rparr>
             in bind_result (append_prediction p db) (\<lambda>db'. Inr (p, db'))))))"

section \<open>Queries see only the past\<close>

lemma latest_by_Some: "latest_by key rows = Some r \<Longrightarrow> r \<in> set rows \<and> (\<forall>q\<in>set rows. key q \<le> key r)"
  by (auto simp: latest_by_def list_all_iff dest!: find_SomeD)

lemma latest_by_None [simp]: "latest_by key rows = None \<longleftrightarrow> rows = []"
proof
  assume none: "latest_by key rows = None"
  show "rows = []"
  proof (rule ccontr)
    assume "rows \<noteq> []"
    then have "Max (key ` set rows) \<in> key ` set rows" by (intro Max_in) auto
    then obtain r where r: "r \<in> set rows" "key r = Max (key ` set rows)" by auto
    then have "\<forall>q\<in>set rows. key q \<le> key r" by auto
    with r(1) none show False by (auto simp: latest_by_def find_None_iff list_all_iff)
  qed
qed (simp add: latest_by_def)

lemma latest_by_snoc_greater:
  "(\<forall>q\<in>set rows. key q < key r) \<Longrightarrow> latest_by key (rows @ [r]) = Some r"
proof -
  assume less: "\<forall>q\<in>set rows. key q < key r"
  then have "find (\<lambda>x. list_all (\<lambda>q. key q \<le> key x) (rows @ [r])) rows = None"
    by (fastforce simp: find_None_iff)
  moreover have "list_all (\<lambda>q. key q \<le> key r) (rows @ [r])" using less by (auto simp: list_all_iff)
  ultimately show ?thesis by (simp add: latest_by_def find_append)
qed

lemma filter_filter_imp: "(\<And>x. x \<in> set xs \<Longrightarrow> P x \<Longrightarrow> Q x) \<Longrightarrow> filter P (filter Q xs) = filter P xs"
  by (induction xs) auto

lemma find_filter_imp: "(\<And>x. x \<in> set xs \<Longrightarrow> P x \<Longrightarrow> Q x) \<Longrightarrow> find P (filter Q xs) = find P xs"
  by (induction xs) auto

text \<open>
  What Stage 5 may know of an attempt at \<open>t\<close>: the events ingested by \<open>t\<close> of the attempt's own provider
  scope, the reconciliation runs evaluated by \<open>t\<close> and the RCA evaluations generated before \<open>t\<close>.
\<close>

definition in_scope :: "string \<Rightarrow> payment_event \<Rightarrow> bool" where
  "in_scope payment_id e \<longleftrightarrow>
     (if paypal_order_id payment_id \<noteq> None then ev_source_system e = PAYPAL_SOURCE_SYSTEM else event_visible e)"

definition known_at :: "string \<Rightarrow> datetime \<Rightarrow> ('a rca_db_scheme) \<Rightarrow> ('a rca_db_scheme)" where
  "known_at payment_id t db =
     db\<lparr>db_events := filter (\<lambda>e. ev_ingested_at e \<le> t \<and> in_scope payment_id e) (db_events db),
        db_history := filter (\<lambda>h. list_ex (\<lambda>q. hist_run_id q = hist_run_id h \<and> hist_evaluation_timestamp q \<le> t)
                         (db_history db)) (db_history db),
        db_evaluations := filter (\<lambda>r. re_generated_at r < t) (db_evaluations db)\<rparr>"

lemma known_at_simps [simp]:
  "db_events (known_at pid t db) = filter (\<lambda>e. ev_ingested_at e \<le> t \<and> in_scope pid e) (db_events db)"
  "db_history (known_at pid t db) = filter (\<lambda>h. list_ex (\<lambda>q. hist_run_id q = hist_run_id h \<and>
      hist_evaluation_timestamp q \<le> t) (db_history db)) (db_history db)"
  "db_evaluations (known_at pid t db) = filter (\<lambda>r. re_generated_at r < t) (db_evaluations db)"
  "db_candidates (known_at pid t db) = db_candidates db"
  by (simp_all add: known_at_def)

lemma known_event: "get_payment_event_by_id (known_at pid t db) pid t = get_payment_event_by_id db pid t"
  unfolding get_payment_event_by_id_def known_at_simps
  by (auto split: option.splits simp: in_scope_def paypal_trigger_events_def
      intro!: arg_cong[of _ _ "latest_by ev_ingested_at"] filter_cong)

lemma known_rate:
  "get_historical_failure_rate (known_at pid t db) col v t w (paypal_order_id pid \<noteq> None) =
   get_historical_failure_rate db col v t w (paypal_order_id pid \<noteq> None)"
proof -
  let ?P = "\<lambda>e. dimension_col col e = Some v \<and> ev_ingested_at e < t \<and> t - minutes w \<le> ev_timestamp e \<and>
      ev_timestamp e < t \<and> ev_event_type e \<in> set TERMINAL_EVENT_TYPES \<and>
      (if paypal_order_id pid \<noteq> None then ev_source_system e = PAYPAL_SOURCE_SYSTEM else event_visible e)"
  have "filter ?P (filter (\<lambda>e. ev_ingested_at e \<le> t \<and> in_scope pid e) (db_events db)) = filter ?P (db_events db)"
    by (rule filter_filter_imp) (auto simp: in_scope_def)
  then show ?thesis unfolding get_historical_failure_rate_def known_at_simps Let_def by (simp only:)
qed

lemma known_episode: "get_active_episode_context (known_at pid t db) d v t = get_active_episode_context db d v t"
proof -
  let ?seg = "\<lambda>h. str_upper (hist_dimension h) = str_upper d \<and> hist_value h = v"
  let ?known = "\<lambda>h. list_ex (\<lambda>q. hist_run_id q = hist_run_id h \<and> hist_evaluation_timestamp q \<le> t) (db_history db)"
  have past: "filter (\<lambda>h. ?seg h \<and> hist_evaluation_timestamp h \<le> t) (filter ?known (db_history db)) =
      filter (\<lambda>h. ?seg h \<and> hist_evaluation_timestamp h \<le> t) (db_history db)"
    by (rule filter_filter_imp) (auto simp: list_ex_iff)
  have active: "find (\<lambda>h. hist_run_id h = hist_run_id r \<and> ?seg h \<and> hist_status h = ACTIVE) (filter ?known (db_history db)) =
      find (\<lambda>h. hist_run_id h = hist_run_id r \<and> ?seg h \<and> hist_status h = ACTIVE) (db_history db)"
    if "r \<in> set (db_history db)" "hist_evaluation_timestamp r \<le> t" for r
    using that by (intro find_filter_imp) (auto simp: list_ex_iff)
  show ?thesis
  proof (cases "latest_by hist_evaluation_timestamp
      (filter (\<lambda>h. ?seg h \<and> hist_evaluation_timestamp h \<le> t) (db_history db))")
    case None
    show ?thesis unfolding get_active_episode_context_def known_at_simps Let_def past None option.case ..
  next
    case (Some r)
    then have "r \<in> set (db_history db)" "hist_evaluation_timestamp r \<le> t" by (auto dest: latest_by_Some)
    from active[OF this] show ?thesis
      unfolding get_active_episode_context_def known_at_simps Let_def past Some option.case by simp
  qed
qed

lemma known_rca: "get_rca_context (known_at pid t db) ep t = get_rca_context db ep t"
proof -
  have "filter (\<lambda>r. re_episode_id r = ep \<and> re_generated_at r < t) (filter (\<lambda>r. re_generated_at r < t) (db_evaluations db)) =
      filter (\<lambda>r. re_episode_id r = ep \<and> re_generated_at r < t) (db_evaluations db)"
    by (rule filter_filter_imp) simp
  then show ?thesis unfolding get_rca_context_def known_at_simps by (simp only:)
qed

lemma known_calculate_rate:
  "calculate_rate (known_at pid t db) col v t w k (paypal_order_id pid \<noteq> None) =
   calculate_rate db col v t w k (paypal_order_id pid \<noteq> None)"
  unfolding calculate_rate_def known_rate ..

lemma known_severe:
  "get_most_severe_active_episode us (known_at pid t db) e t = get_most_severe_active_episode us db e t"
  unfolding get_most_severe_active_episode_def known_episode ..



section \<open>Bounded models\<close>

text \<open>The contract Stage 6 relies on: \<open>predict\<close> returns a probability.\<close>

locale bounded_model =
  fixes m :: prediction_model
  assumes predict_unit: "fm_predict m fv = Inr p \<Longrightarrow> 0 \<le> p \<and> p \<le> 1"
begin

lemma orchestrate_cases:
  assumes "orchestrate_prediction us m now a t db = Inr (p, db')"
  shows "require_attempt db a \<noteq> Inl AttemptNotRegisteredError \<and> (db' = db \<or>
      append_prediction p db = Inr db' \<and> fp_payment_attempt_id p = ar_payment_attempt_id a \<and>
      fp_source_system p = ar_source_system a \<and> fp_risk_band p = map_option risk_band (fp_failure_probability p) \<and>
      (case fp_failure_probability p of
         None \<Rightarrow> fp_status p \<noteq> PREDICTED
       | Some q \<Rightarrow> 0 \<le> q \<and> q \<le> 1 \<and> fp_status p = PREDICTED \<and>
           is_eligible_for_prediction db (ar_payment_attempt_id a) t (Some (ar_source_system a)) \<and>
           (\<exists>s. reconstruct_features us db (ar_payment_attempt_id a) t = Some s \<and>
                \<not> fs_insufficient_global_volume s \<and> fm_predict m s = Inr q)))"
  using assms predict_unit
  by (auto simp: orchestrate_prediction_def Let_def bind_result_Inr split: if_splits option.splits)

end

interpretation baseline: bounded_model DeterministicBaselineModel
  by unfold_locales (auto simp: DeterministicBaselineModel_def baseline_predict_def Let_def)

text \<open>C14: A stored prediction of the baseline model is well-formed. Either the service returned the
  attempt's latest prediction unchanged, or it appended a row of this attempt and provider that carries a
  probability in \<open>[0, 1]\<close> and its risk band exactly when the status is PREDICTED, and then the attempt was
  eligible, its trigger event was known, and the global failure rate rested on enough volume.\<close>

theorem baseline_prediction_well_formed:
  "case orchestrate_prediction us DeterministicBaselineModel now a t db of
     Inl _ \<Rightarrow> True
   | Inr (p, db') \<Rightarrow> db' = db \<or>
       db_predictions db' = db_predictions db @ [p] \<and>
       fp_payment_attempt_id p = ar_payment_attempt_id a \<and> fp_source_system p = ar_source_system a \<and>
       fp_risk_band p = map_option risk_band (fp_failure_probability p) \<and>
       (case fp_failure_probability p of
          None \<Rightarrow> fp_status p \<noteq> PREDICTED
        | Some q \<Rightarrow> 0 \<le> q \<and> q \<le> 1 \<and> fp_status p = PREDICTED \<and>
            is_eligible_for_prediction db (ar_payment_attempt_id a) t (Some (ar_source_system a)) \<and>
            (\<exists>s. reconstruct_features us db (ar_payment_attempt_id a) t = Some s \<and>
                 \<not> fs_insufficient_global_volume s \<and> baseline_predict s = q))"
proof (cases "orchestrate_prediction us DeterministicBaselineModel now a t db")
  case (Inr pd)
  obtain p db' where pd: "pd = (p, db')" by (cases pd)
  from baseline.orchestrate_cases[OF Inr[unfolded pd]] Inr pd show ?thesis
    by (auto simp: append_prediction_def insert_prediction_def DeterministicBaselineModel_def
        split: if_splits option.splits)
qed simp

section \<open>Versions\<close>

interpretation prediction_log: attempt_log db_predictions fp_payment_attempt_id fp_version
    "\<lambda>db pid. case get_max_prediction_version db pid None of Inr n \<Rightarrow> n | Inl _ \<Rightarrow> 0" insert_prediction
    fp_source_system fp_prediction_id make_prediction_id joined_attempt registry_ok
  by unfold_locales
    (auto simp: insert_prediction_def get_max_prediction_version_def prediction_rows_def make_prediction_id_def
      versioned_name_inject joined_attempt_def registry_ok_def intro: registry_unique_provider)

lemma append_prediction_iff:
  "append_prediction p db = (if prediction_log.conflicts p db then Inl IntegrityError else Inr (insert_prediction p db))"
  by (simp add: append_prediction_def prediction_log.conflicts_def)

lemma get_max_registered:
  assumes "prediction_log.consistent db" "joined_attempt db pid s"
  shows "get_max_prediction_version db pid (Some s) = get_max_prediction_version db pid None"
proof -
  have "s \<in> set PIPELINE_PROVIDERS" using assms joined_provider by (auto simp: prediction_log.consistent_def)
  with prediction_log.provider_rows_all[OF assms] show ?thesis
    by (simp add: get_max_prediction_version_def prediction_rows_def)
qed

lemma get_max_None: "\<exists>n. get_max_prediction_version db pid None = Inr n"
  by (simp add: get_max_prediction_version_def prediction_rows_def)

lemma insert_prediction_simps [simp]:
  "db_predictions (insert_prediction p db) = db_predictions db @ [p]"
  "db_attempts (insert_prediction p db) = db_attempts db"
  "db_events (insert_prediction p db) = db_events db"
  "db_history (insert_prediction p db) = db_history db"
  "db_evaluations (insert_prediction p db) = db_evaluations db"
  "db_candidates (insert_prediction p db) = db_candidates db"
  by (simp_all add: insert_prediction_def)

text \<open>Inversion of a prediction run.\<close>

lemma orchestrate_Inr:
  assumes "orchestrate_prediction us m now a t db = Inr (p, db')"
  shows "\<exists>r prior. require_attempt db a = Inr r \<and>
     get_latest_prediction db (ar_payment_attempt_id a) (Some (ar_source_system a)) = Inr prior \<and>
     (db' = db \<and> prior = Some p \<or>
      (\<exists>n. get_max_prediction_version db (ar_payment_attempt_id a) (Some (ar_source_system a)) = Inr n \<and>
         fp_version p = n + 1 \<and> fp_payment_attempt_id p = ar_payment_attempt_id a \<and>
         fp_source_system p = ar_source_system a \<and>
         fp_prediction_id p = make_prediction_id (ar_payment_attempt_id a) (n + 1) \<and>
         append_prediction p db = Inr db'))"
  using assms by (auto simp: orchestrate_prediction_def Let_def bind_result_Inr split: if_splits option.splits)

lemma orchestrate_ok:
  assumes "prediction_log.consistent db" "orchestrate_prediction us m now a t db = Inr (p, db')"
  shows "prediction_log.consistent db'"
proof (cases "db' = db")
  case False
  with orchestrate_Inr[OF assms(2)] obtain r n where r: "require_attempt db a = Inr r"
    and p: "get_max_prediction_version db (ar_payment_attempt_id a) (Some (ar_source_system a)) = Inr n"
      "fp_version p = n + 1" "fp_payment_attempt_id p = ar_payment_attempt_id a"
      "fp_source_system p = ar_source_system a"
      "fp_prediction_id p = make_prediction_id (ar_payment_attempt_id a) (n + 1)"
      "append_prediction p db = Inr db'" by blast
  note joined = require_joined[OF r]
  have "get_max_prediction_version db (ar_payment_attempt_id a) None = Inr n"
    using p(1) get_max_registered[OF assms(1) joined] by simp
  with p joined assms(1) have "prediction_log.consistent (insert_prediction p db)"
    by (intro prediction_log.append_consistent) auto
  with p(6) show ?thesis by (auto simp: append_prediction_def split: if_splits)
qed (use assms(1) in simp)

lemma orchestrate_no_integrity_error:
  assumes "prediction_log.consistent db" "\<And>fv. fm_predict m fv \<noteq> Inl IntegrityError"
  shows "orchestrate_prediction us m now a t db \<noteq> Inl IntegrityError"
proof (cases "require_attempt db a")
  case (Inl e)
  then have "e \<noteq> IntegrityError" by (auto simp: require_attempt_def split: option.splits if_splits)
  with Inl show ?thesis by (simp add: orchestrate_prediction_def)
next
  case (Inr r)
  let ?pid = "ar_payment_attempt_id a" and ?s = "ar_source_system a"
  note joined = require_joined[OF Inr]
  have prov: "?s \<in> set PIPELINE_PROVIDERS"
    using assms(1) joined joined_provider by (auto simp: prediction_log.consistent_def)
  obtain n where n: "get_max_prediction_version db ?pid None = Inr n" using get_max_None by blast
  have "append_prediction p db \<noteq> Inl IntegrityError"
    if "fp_payment_attempt_id p = ?pid" "fp_source_system p = ?s" "fp_version p = n + 1"
      "fp_prediction_id p = make_prediction_id ?pid (n + 1)" for p
    using prediction_log.next_no_conflict[OF assms(1), of p] that joined n by (simp add: append_prediction_iff)
  with Inr assms(2) n get_max_registered[OF assms(1) joined] show ?thesis
    by (auto simp: orchestrate_prediction_def Let_def bind_result_Inl get_latest_prediction_def
        prediction_rows_def prov split: if_splits)
qed

text \<open>The requests of Stage 5: registering an attempt, or predicting for one with some model.\<close>

definition stage5_step ::
  "(uuid \<Rightarrow> string) \<Rightarrow> (datetime \<times> payment_event) + (prediction_model \<times> datetime \<times> attempt_ref \<times> datetime) \<Rightarrow>
   ('a prediction_db_scheme) \<Rightarrow> ('a prediction_db_scheme)" where
  "stage5_step us q db =
     (case q of
        Inl (now, e) \<Rightarrow> (case register_attempt now e db of Inl _ \<Rightarrow> db | Inr (_, db') \<Rightarrow> db')
      | Inr (m, now, a, t) \<Rightarrow> (case orchestrate_prediction us m now a t db of Inl _ \<Rightarrow> db | Inr (_, db') \<Rightarrow> db'))"

lemma register_frame: "register_attempt now e db = Inr (r, db') \<Longrightarrow>
   db_predictions db' = db_predictions db \<and> (joined_attempt db pid s \<longrightarrow> joined_attempt db' pid s)"
  by (auto simp: register_attempt_def bind_result_Inr Let_def insert_attempt_def joined_attempt_def split: if_splits)

lemma stage5_step_ok:
  assumes "prediction_log.consistent db"
  shows "prediction_log.consistent (stage5_step us q db)"
proof -
  have "prediction_log.consistent db'" if reg: "register_attempt now e db = Inr (r, db')" for now e r db'
    using prediction_log.consistent_frame[OF assms, of db'] register_frame[OF reg] register_attempt_ok[OF _ reg] assms
    by (auto simp: prediction_log.consistent_def)
  with assms show ?thesis by (auto simp: stage5_step_def orchestrate_ok split: sum.splits prod.splits)
qed

text \<open>The prediction table stays consistent under every sequence of registrations and predictions, with
  any models: versions of an attempt count 1, 2, 3, ... without gap, ids are derived from attempt and
  version, and every row's attempt is registered under the row's provider. In such a state no prediction
  fails on a database constraint.\<close>

lemma prediction_table_consistent:
  "let db1 = fold (stage5_step us) requests (db\<lparr>db_attempts := [], db_predictions := []\<rparr>)
   in prediction_log.consistent db1 \<and>
      orchestrate_prediction us DeterministicBaselineModel now a t db1 \<noteq> Inl IntegrityError"
proof -
  have "prediction_log.consistent d \<Longrightarrow> prediction_log.consistent (fold (stage5_step us) requests d)"
    for d :: "'a prediction_db_scheme"
    by (induction requests arbitrary: d) (simp_all add: stage5_step_ok)
  moreover have "prediction_log.consistent (db\<lparr>db_attempts := [], db_predictions := []\<rparr>)"
    by (intro prediction_log.consistent_empty) (simp_all add: registry_ok_def)
  ultimately have ok: "prediction_log.consistent (fold (stage5_step us) requests (db\<lparr>db_attempts := [], db_predictions := []\<rparr>))"
    by blast
  have "fm_predict DeterministicBaselineModel fv \<noteq> Inl IntegrityError" for fv
    by (simp add: DeterministicBaselineModel_def)
  from orchestrate_no_integrity_error[OF ok this] ok show ?thesis unfolding Let_def by blast
qed

text \<open>Predicting is idempotent. When a prediction is returned, asking again for the same attempt, instant
  and model at any later clock returns the same prediction and appends nothing.\<close>

lemma prediction_idempotent:
  "case orchestrate_prediction us m now a t db of
     Inl _ \<Rightarrow> True
   | Inr (p, db') \<Rightarrow> orchestrate_prediction us m now' a t db' = Inr (p, db')"
proof (cases "orchestrate_prediction us m now a t db")
  case (Inr pd)
  obtain p db' where pd: "pd = (p, db')" by (cases pd)
  note run = Inr[unfolded pd]
  let ?pid = "ar_payment_attempt_id a" and ?s = "ar_source_system a"
  let ?fp = "\<lambda>d. prediction_fingerprint ?pid t ''30m''
     (case (if is_eligible_for_prediction d ?pid t (Some ?s) then reconstruct_features us d ?pid t else None) of
        None \<Rightarrow> JObj [] | Some s \<Rightarrow> snapshot_dict s) (fm_name m) (fm_version m) (fm_schema m)"
  have fp: "fp_fingerprint p = ?fp db"
    using run by (auto simp: orchestrate_prediction_def Let_def bind_result_Inr split: if_splits option.splits)
  from orchestrate_Inr[OF run] obtain r prior where r: "require_attempt db a = Inr r"
    and prior: "get_latest_prediction db ?pid (Some ?s) = Inr prior"
    and step: "db' = db \<and> prior = Some p \<or>
      (\<exists>n. get_max_prediction_version db ?pid (Some ?s) = Inr n \<and> fp_version p = n + 1 \<and>
         fp_payment_attempt_id p = ?pid \<and> fp_source_system p = ?s \<and> append_prediction p db = Inr db')" by blast
  have again: "orchestrate_prediction us m now' a t db' = Inr (p, db')"
    if "require_attempt db' a = Inr r" "get_latest_prediction db' ?pid (Some ?s) = Inr (Some p)" "fp_fingerprint p = ?fp db'"
    using that by (simp add: orchestrate_prediction_def Let_def)
  from step show ?thesis
  proof
    assume "db' = db \<and> prior = Some p"
    with again r prior fp Inr pd show ?thesis by simp
  next
    assume "\<exists>n. get_max_prediction_version db ?pid (Some ?s) = Inr n \<and> fp_version p = n + 1 \<and>
         fp_payment_attempt_id p = ?pid \<and> fp_source_system p = ?s \<and> append_prediction p db = Inr db'"
    then obtain n rows where n: "prediction_rows db ?pid (Some ?s) = Inr rows" "n = max_default 0 (map fp_version rows)"
      "fp_version p = n + 1" "fp_payment_attempt_id p = ?pid" "fp_source_system p = ?s" "append_prediction p db = Inr db'"
      by (auto simp: get_max_prediction_version_def bind_result_Inr)
    from n(6) have db': "db' = insert_prediction p db" by (auto simp: append_prediction_def split: if_splits)
    have rows': "prediction_rows db' ?pid (Some ?s) = Inr (rows @ [p])"
      using n(1,4,5) require_joined[OF r] db'
      by (auto simp: prediction_rows_def joined_attempt_def split: if_splits)
    have "\<forall>q\<in>set rows. fp_version q < fp_version p"
      using max_default_upper[of _ "map fp_version rows" 0] n(2,3) by fastforce
    then have "get_latest_prediction db' ?pid (Some ?s) = Inr (Some p)"
      by (simp add: get_latest_prediction_def rows' latest_by_snoc_greater)
    moreover have "require_attempt db' a = Inr r"
      using r db' by (simp add: require_attempt_def lookup_attempt_def)
    moreover have "?fp db' = ?fp db"
      unfolding db' is_eligible_for_prediction_def reconstruct_features_def get_payment_event_by_id_def
        calculate_rate_def get_historical_failure_rate_def get_most_severe_active_episode_def
        get_active_episode_context_def get_rca_context_def insert_prediction_simps ..
    ultimately show ?thesis using again fp Inr pd by simp
  qed
qed simp


end
