(* ===== verification/Intervention.thy ===== *)
theory Intervention
  imports Prediction
begin

text \<open>
  Stage 6: the policy, the safety gates, the decision calculator, the decision service and its
  append-only table (\<open>core/intervention\<close>, \<open>core/domain/intervention_models.py\<close>,
  \<open>infrastructure/intervention_repository.py\<close>).
\<close>

section \<open>Routes and policy\<close>

datatype intervention_route_key =
    RETRY_SECONDARY_GATEWAY | PROMPT_PAYMENT_METHOD_SWITCH | DYNAMIC_RETRY_BACKOFF
  | DEGRADATION_CIRCUIT_BYPASS | FALLBACK_PAYMENT_LINK

primrec route_value :: "intervention_route_key \<Rightarrow> string" where
  "route_value RETRY_SECONDARY_GATEWAY = ''RETRY_SECONDARY_GATEWAY''"
| "route_value PROMPT_PAYMENT_METHOD_SWITCH = ''PROMPT_PAYMENT_METHOD_SWITCH''"
| "route_value DYNAMIC_RETRY_BACKOFF = ''DYNAMIC_RETRY_BACKOFF''"
| "route_value DEGRADATION_CIRCUIT_BYPASS = ''DEGRADATION_CIRCUIT_BYPASS''"
| "route_value FALLBACK_PAYMENT_LINK = ''FALLBACK_PAYMENT_LINK''"

lemma route_value_inject: "route_value k = route_value l \<longleftrightarrow> k = l"
  by (cases k; cases l) simp_all

text \<open>Routes are ordered by their value, the last component of the ranking key.\<close>

instantiation intervention_route_key :: linorder
begin

definition less_eq_intervention_route_key :: "intervention_route_key \<Rightarrow> intervention_route_key \<Rightarrow> bool" where
  "less_eq_intervention_route_key k l \<longleftrightarrow> route_value k \<le> route_value l"

definition less_intervention_route_key :: "intervention_route_key \<Rightarrow> intervention_route_key \<Rightarrow> bool" where
  "less_intervention_route_key k l \<longleftrightarrow> route_value k < route_value l"

instance
  by standard (auto simp: less_eq_intervention_route_key_def less_intervention_route_key_def route_value_inject less_le_not_le)

end

record route_policy =
  rt_route_key :: intervention_route_key
  rt_target_dimensions :: "string list"
  rt_recovery_rate :: decimal
  rt_cost_minor_units :: int
  rt_cooldown_seconds :: int
  rt_requires_diagnosis :: bool
  rt_requires_strong_rca :: bool
  rt_enabled :: bool

record intervention_policy =
  po_policy_id :: string
  po_policy_version :: string
  po_kill_switch :: bool
  po_act_threshold :: pyfloat
  po_monitor_threshold :: pyfloat
  po_min_utility :: decimal
  po_rate_limit :: int
  po_routes :: "(intervention_route_key \<times> route_policy) list"
  po_cost_currency :: string

definition get_default_policy :: intervention_policy where
  "get_default_policy =
     (let r = (\<lambda>k ds rate cost cd diag strong.
            (k, \<lparr>rt_route_key = k, rt_target_dimensions = ds, rt_recovery_rate = rate, rt_cost_minor_units = cost,
                 rt_cooldown_seconds = cd, rt_requires_diagnosis = diag, rt_requires_strong_rca = strong,
                 rt_enabled = True\<rparr>))
      in \<lparr>po_policy_id = ''default-recovery-v1'', po_policy_version = ''1.0.0'', po_kill_switch = False,
          po_act_threshold = fl (70 / 100), po_monitor_threshold = fl (35 / 100), po_min_utility = 50,
          po_rate_limit = 100,
          po_routes =
            [r RETRY_SECONDARY_GATEWAY [''BANK'', ''GLOBAL''] (55 / 100) 150 300 True False,
             r PROMPT_PAYMENT_METHOD_SWITCH [''PAYMENT_METHOD''] (65 / 100) 300 600 True True,
             r DYNAMIC_RETRY_BACKOFF [''GLOBAL'', ''BANK'', ''PAYMENT_METHOD''] (35 / 100) 50 180 False False,
             r DEGRADATION_CIRCUIT_BYPASS [''BANK'', ''PAYMENT_METHOD''] (75 / 100) 500 900 True True,
             r FALLBACK_PAYMENT_LINK [''GLOBAL''] (45 / 100) 200 1800 False False],
          po_cost_currency = ''INR''\<rparr>)"

section \<open>Decisions\<close>

datatype decision_type = NO_ACTION | MONITOR | ACT

datatype gate_verdict =
    PASSED | FAILED_KILL_SWITCH | FAILED_STAGE5_UNAVAILABLE | FAILED_STAGE5_INELIGIBLE
  | FAILED_TERMINAL_OUTCOME_INGESTED | FAILED_EPISODE_INVALIDATED | FAILED_UNRELIABLE_DIAGNOSIS
  | FAILED_GLOBAL_RATE_LIMIT | FAILED_ROUTE_COOLDOWN | FAILED_INVALID_AMOUNT
  | FAILED_NO_ELIGIBLE_ROUTES | FAILED_UNSUPPORTED_COST_CURRENCY

record intervention_decision =
  de_decision_id :: uuid
  de_payment_attempt_id :: string
  de_source_system :: string
  de_version :: int
  de_decided_at :: datetime
  de_type :: decision_type
  de_route :: "intervention_route_key option"
  de_failure_probability :: "pyfloat option"
  de_prediction_id :: "uuid option"
  de_diagnosis_confidence :: "string option"
  de_confidence :: pyfloat
  de_gate_verdict :: gate_verdict
  de_policy_id :: string
  de_policy_version :: string
  de_fingerprint :: digest
  de_audit :: json
  de_created_at :: datetime

record decision_db = prediction_db +
  db_decisions :: "intervention_decision list"

definition NAMESPACE_STAGE6 :: uuid where
  "NAMESPACE_STAGE6 = UuidLit ''e5f6a7b8-c9d0-1234-ef01-567890abcdef''"

definition make_decision_id :: "string \<Rightarrow> int \<Rightarrow> uuid" where
  "make_decision_id payment_attempt_id decision_version =
     Uuid5 NAMESPACE_STAGE6 (versioned_name (chars payment_attempt_id) decision_version)"

section \<open>Gates\<close>

record gate_result =
  ga_passed :: bool
  ga_verdict :: gate_verdict
  ga_details :: json

definition gate_pass :: "(string \<times> json) list \<Rightarrow> gate_result" where
  "gate_pass details = \<lparr>ga_passed = True, ga_verdict = PASSED, ga_details = JObj details\<rparr>"

definition gate_fail :: "gate_verdict \<Rightarrow> (string \<times> json) list \<Rightarrow> gate_result" where
  "gate_fail v details = \<lparr>ga_passed = False, ga_verdict = v, ga_details = JObj details\<rparr>"

lemma gate_simps [simp]:
  "ga_passed (gate_pass d)" "\<not> ga_passed (gate_fail v d)" "ga_verdict (gate_fail v d) = v"
  by (simp_all add: gate_pass_def gate_fail_def)

definition evaluate_kill_switch :: "intervention_policy \<Rightarrow> gate_result" where
  "evaluate_kill_switch policy =
     (if po_kill_switch policy then gate_fail FAILED_KILL_SWITCH [(''reason'', JStr ''Policy kill switch is active'')]
      else gate_pass [])"

definition evaluate_amount_and_currency :: "int \<Rightarrow> string \<Rightarrow> gate_result" where
  "evaluate_amount_and_currency amount currency =
     (if amount \<le> 0 then gate_fail FAILED_INVALID_AMOUNT
        [(''amount_minor_units'', JInt amount), (''reason'', JStr ''Amount must be strictly positive'')]
      else if currency = [] \<or> length currency \<noteq> 3 then gate_fail FAILED_INVALID_AMOUNT
        [(''currency'', JStr currency), (''reason'', JStr ''Invalid currency code'')]
      else gate_pass [])"

definition evaluate_policy_cost_currency :: "intervention_policy \<Rightarrow> string \<Rightarrow> gate_result" where
  "evaluate_policy_cost_currency policy currency =
     (if currency \<noteq> po_cost_currency policy
      then gate_fail FAILED_UNSUPPORTED_COST_CURRENCY
        [(''currency'', JStr currency), (''policy_cost_currency'', JStr (po_cost_currency policy)),
         (''reason'', JStr (''Policy route costs are defined in '' @ po_cost_currency policy @
            ''; none exist for '' @ currency))]
      else gate_pass [(''policy_cost_currency'', JStr (po_cost_currency policy))])"

definition evaluate_pre_terminal_invariance :: "bool \<Rightarrow> gate_result" where
  "evaluate_pre_terminal_invariance terminal_event_exists =
     (if terminal_event_exists
      then gate_fail FAILED_TERMINAL_OUTCOME_INGESTED
        [(''reason'', JStr ''Terminal payment outcome already ingested before decision time'')]
      else gate_pass [])"

definition evaluate_stage5_prediction_validity :: "failure_prediction option \<Rightarrow> gate_result" where
  "evaluate_stage5_prediction_validity prediction =
     (case prediction of
        None \<Rightarrow> gate_fail FAILED_STAGE5_UNAVAILABLE
          [(''reason'', JStr ''No Stage 5 prediction available as-of decision time'')]
      | Some p \<Rightarrow>
          if fp_status p \<noteq> PREDICTED then gate_fail FAILED_STAGE5_INELIGIBLE
            [(''prediction_status'', JStr (prediction_status_value (fp_status p))),
             (''reason'', JStr ''Stage 5 prediction status is not PREDICTED'')]
          else if fp_failure_probability p = None then gate_fail FAILED_STAGE5_INELIGIBLE
            [(''reason'', JStr ''Stage 5 failure_probability is null'')]
          else gate_pass [])"

text \<open>\<open>payload.get(key, False)\<close> used as a condition; an empty or absent payload is not looked at.\<close>

definition payload_flag :: "json \<Rightarrow> string \<Rightarrow> bool" where
  "payload_flag payload k = (case json_get payload k of None \<Rightarrow> False | Some v \<Rightarrow> json_true v)"

definition evaluate_episode_and_traffic_shift :: "string option \<Rightarrow> json option \<Rightarrow> gate_result" where
  "evaluate_episode_and_traffic_shift episode_status rca_audit_payload =
     (if episode_status = Some ''INVALIDATED''
      then gate_fail FAILED_EPISODE_INVALIDATED
        [(''episode_status'', json_opt JStr episode_status), (''reason'', JStr ''Degradation episode was invalidated'')]
      else case rca_audit_payload of
             Some payload \<Rightarrow>
               if json_true payload \<and>
                  (payload_flag payload ''traffic_mix_shift'' \<or> payload_flag payload ''unreliable_diagnosis'')
               then gate_fail FAILED_UNRELIABLE_DIAGNOSIS
                 [(''reason'', JStr ''Traffic mix shift or unreliable diagnosis flagged in RCA audit payload'')]
               else gate_pass []
           | None \<Rightarrow> gate_pass [])"

text \<open>The reason of an ineligible route is one constructor per early return.\<close>

datatype eligibility =
    Eligible | RouteDisabled | OnCooldown | NeedsDiagnosis | WeakEvidence | SegmentMismatch
  | DimensionUnsupported | NeedsGlobalRoute | NotApplicable | CostCurrencyUnsupported

definition evaluate_route_eligibility ::
  "route_policy \<Rightarrow> string option \<Rightarrow> string option \<Rightarrow> string option \<Rightarrow> bool \<Rightarrow> string option \<Rightarrow> string option \<Rightarrow> bool \<Rightarrow>
   eligibility" where
  "evaluate_route_eligibility route rca_classification rca_evidence_strength rca_candidate_dimension
       rca_candidate_matches payment_method bank is_on_cooldown =
     (let dims = rt_target_dimensions route in
      if \<not> rt_enabled route then RouteDisabled
      else if is_on_cooldown then OnCooldown
      else if rt_requires_diagnosis route \<and> rca_classification = Some ''UNKNOWN'' then NeedsDiagnosis
      else if rt_requires_strong_rca route \<and>
              str_upper (case rca_evidence_strength of None \<Rightarrow> [] | Some s \<Rightarrow> s) \<notin> {''STRONG'', ''MODERATE''}
      then WeakEvidence
      else if rt_requires_diagnosis route then
        (if rca_classification = Some ''SEGMENT_SPECIFIC'' then
           (if \<not> rca_candidate_matches then SegmentMismatch
            else if truthy rca_candidate_dimension \<and> the rca_candidate_dimension \<notin> set dims
            then DimensionUnsupported else Eligible)
         else if rca_classification = Some ''SYSTEMIC'' then
           (if ''GLOBAL'' \<notin> set dims then NeedsGlobalRoute else Eligible)
         else NotApplicable)
      else if ''GLOBAL'' \<in> set dims then Eligible
      else if ''BANK'' \<in> set dims \<and> truthy bank then Eligible
      else if ''PAYMENT_METHOD'' \<in> set dims \<and> truthy payment_method then Eligible
      else NotApplicable)"

section \<open>Calculator\<close>

text \<open>
  \<open>Decimal(str(round(p, 6)))\<close> is the six-digit decimal nearest to the float; the product is exact
  within the 28 digits of the decimal context.
\<close>

definition calculate_policy_utility :: "int \<Rightarrow> pyfloat \<Rightarrow> decimal \<Rightarrow> int \<Rightarrow> decimal \<times> decimal" where
  "calculate_policy_utility amount failure_probability recovery_rate cost =
     (let gross = dec_quantize 6 failure_probability * of_int amount * recovery_rate;
          expected_benefit = dec_quantize 0 gross
      in (expected_benefit, expected_benefit - of_int cost))"

definition calculate_route_alignment ::
  "route_policy \<Rightarrow> string option \<Rightarrow> string option \<Rightarrow> string option \<Rightarrow> string option \<Rightarrow> pyfloat" where
  "calculate_route_alignment route rca_candidate_dimension rca_candidate_value payment_method bank =
     (let dims = rt_target_dimensions route;
          same = (\<lambda>v. truthy v \<and> str_lower (the v) = str_lower (the rca_candidate_value));
          diagnosed = truthy rca_candidate_dimension \<and> truthy rca_candidate_value;
          up = str_upper (the rca_candidate_dimension)
      in if diagnosed \<and> up = ''BANK'' \<and> ''BANK'' \<in> set dims \<and> same bank then 1
         else if diagnosed \<and> up = ''PAYMENT_METHOD'' \<and> ''PAYMENT_METHOD'' \<in> set dims \<and> same payment_method then 1
         else if truthy payment_method \<and> ''PAYMENT_METHOD'' \<in> set dims then fl (80 / 100)
         else if truthy bank \<and> ''BANK'' \<in> set dims then fl (75 / 100)
         else if ''GLOBAL'' \<in> set dims then fl (70 / 100)
         else fl (50 / 100))"

definition calculate_act_confidence :: "pyfloat \<Rightarrow> pyfloat \<Rightarrow> string option \<Rightarrow> pyfloat \<Rightarrow> pyfloat" where
  "calculate_act_confidence failure_probability act_risk_threshold rca_evidence_strength route_alignment_score =
     (let c_pred = (if act_risk_threshold < 1
            then f_add (fl (1 / 2)) (f_mul (fl (1 / 2))
                   (clamp01 (f_div (f_sub failure_probability act_risk_threshold) (f_sub 1 act_risk_threshold))))
            else 1);
          c_rca = (if truthy rca_evidence_strength
            then (let ev = str_upper (the rca_evidence_strength) in
                  if ev = ''STRONG'' then 1 else if ev = ''MODERATE'' then fl (75 / 100)
                  else if ev = ''WEAK'' then fl (40 / 100) else fl (50 / 100))
            else fl (50 / 100));
          c_route = clamp01 route_alignment_score;
          confidence = f_add (f_add (f_mul (fl (40 / 100)) c_pred) (f_mul (fl (35 / 100)) c_rca))
                         (f_mul (fl (25 / 100)) c_route)
      in clamp01 (py_round 4 confidence))"

definition calculate_monitor_confidence :: "pyfloat \<Rightarrow> pyfloat \<Rightarrow> pyfloat \<Rightarrow> pyfloat" where
  "calculate_monitor_confidence failure_probability monitor_risk_threshold act_risk_threshold =
     (let span = f_sub act_risk_threshold monitor_risk_threshold in
      if span \<le> 0 then 1
      else let midpoint = f_add monitor_risk_threshold (f_div span 2);
               distance = \<bar>f_sub failure_probability midpoint\<bar>;
               max_distance = f_div span 2;
               ratio = (if 0 < max_distance then f_div distance max_distance else 0);
               confidence = f_sub 1 (f_mul (fl (30 / 100)) (min 1 ratio))
           in clamp01 (py_round 4 confidence))"

record candidate_route_score =
  cs_route_key :: intervention_route_key
  cs_eligibility :: eligibility
  cs_expected_benefit :: decimal
  cs_cost_minor_units :: int
  cs_utility :: decimal
  cs_alignment :: pyfloat
  cs_rank :: int

definition ranking_key :: "candidate_route_score \<Rightarrow> decimal \<times> int \<times> intervention_route_key" where
  "ranking_key c = (- cs_utility c, cs_cost_minor_units c, cs_route_key c)"

definition score_and_rank_candidates :: "candidate_route_score list \<Rightarrow> candidate_route_score list" where
  "score_and_rank_candidates candidates =
     map (\<lambda>(i, c). c\<lparr>cs_rank := int i\<rparr>) (enumerate 1 (sort_key ranking_key candidates))"

definition determine_verdict ::
  "candidate_route_score option \<Rightarrow> pyfloat \<Rightarrow> intervention_policy \<Rightarrow> string option \<Rightarrow>
   decision_type \<times> intervention_route_key option \<times> pyfloat \<times> gate_verdict" where
  "determine_verdict best_candidate prob policy rca_evidence_strength =
     (let monitor = (MONITOR, None,
            calculate_monitor_confidence prob (po_monitor_threshold policy) (po_act_threshold policy), PASSED);
          nothing = (NO_ACTION, None, clamp01 (py_round 4 (f_sub 1 prob)), PASSED)
      in case best_candidate of
           Some c \<Rightarrow>
             if po_min_utility policy \<le> cs_utility c then
               (if po_act_threshold policy \<le> prob
                then (ACT, Some (cs_route_key c),
                      calculate_act_confidence prob (po_act_threshold policy) rca_evidence_strength (cs_alignment c),
                      PASSED)
                else if po_monitor_threshold policy \<le> prob then monitor else nothing)
             else if po_monitor_threshold policy \<le> prob then monitor else nothing
         | None \<Rightarrow> if po_monitor_threshold policy \<le> prob then monitor else nothing)"

section \<open>Repository\<close>

definition decision_rows ::
  "('a decision_db_scheme) \<Rightarrow> string \<Rightarrow> string option \<Rightarrow> (exn, intervention_decision list) result" where
  "decision_rows db payment_attempt_id source_system =
     (case source_system of
        None \<Rightarrow> Inr (filter (\<lambda>d. de_payment_attempt_id d = payment_attempt_id) (db_decisions db))
      | Some s \<Rightarrow>
          if s \<notin> set PIPELINE_PROVIDERS then Inl UnsupportedProviderError
          else Inr (filter (\<lambda>d. de_payment_attempt_id d = payment_attempt_id \<and> de_source_system d = s \<and>
                                joined_attempt db payment_attempt_id (de_source_system d)) (db_decisions db)))"

definition get_max_decision_version ::
  "('a decision_db_scheme) \<Rightarrow> string \<Rightarrow> string option \<Rightarrow> (exn, int) result" where
  "get_max_decision_version db payment_attempt_id source_system =
     bind_result (decision_rows db payment_attempt_id source_system)
       (\<lambda>rows. Inr (max_default 0 (map de_version rows)))"

definition get_latest_decision ::
  "('a decision_db_scheme) \<Rightarrow> string \<Rightarrow> string option \<Rightarrow> (exn, intervention_decision option) result" where
  "get_latest_decision db payment_attempt_id source_system =
     bind_result (decision_rows db payment_attempt_id source_system)
       (\<lambda>rows. Inr (latest_by de_version rows))"

definition count_recent_act_decisions :: "('a decision_db_scheme) \<Rightarrow> datetime \<Rightarrow> int" where
  "count_recent_act_decisions db since =
     int (length (filter (\<lambda>d. de_type d = ACT \<and> since \<le> de_decided_at d) (db_decisions db)))"

definition has_recent_route_decision ::
  "('a decision_db_scheme) \<Rightarrow> string \<Rightarrow> intervention_route_key \<Rightarrow> datetime \<Rightarrow> string \<Rightarrow> bool" where
  "has_recent_route_decision db payment_attempt_id route since source_system =
     list_ex (\<lambda>d. de_payment_attempt_id d = payment_attempt_id \<and> de_route d = Some route \<and> de_type d = ACT \<and>
                  since \<le> de_decided_at d \<and> de_source_system d = source_system) (db_decisions db)"

definition check_terminal_event_exists ::
  "('a event_db_scheme) \<Rightarrow> string \<Rightarrow> datetime \<Rightarrow> string \<Rightarrow> (exn, bool) result" where
  "check_terminal_event_exists db payment_id t_decide source_system =
     bind_result (validate_provider (Some source_system)) (\<lambda>_.
       Inr (if source_system = ''paypal''
            then (let order_id = (case paypal_order_id payment_id of Some r \<Rightarrow> r | None \<Rightarrow> payment_id)
                  in list_ex (\<lambda>e. paypal_terminal_events order_id e \<and> ev_ingested_at e < t_decide \<and>
                                  ev_source_system e = ''paypal'') (db_events db))
            else list_ex (\<lambda>e. ev_payment_id e = payment_id \<and> is_terminal e \<and> ev_ingested_at e < t_decide \<and>
                              ev_source_system e = source_system) (db_events db)))"

definition get_stage5_prediction_as_of ::
  "('a prediction_db_scheme) \<Rightarrow> string \<Rightarrow> datetime \<Rightarrow> string \<Rightarrow> (exn, failure_prediction option) result" where
  "get_stage5_prediction_as_of db payment_attempt_id t_decide source_system =
     bind_result (prediction_rows db payment_attempt_id (Some source_system)) (\<lambda>rows.
       Inr (latest_by fp_version (filter (\<lambda>p. fp_predicted_at p \<le> t_decide) rows)))"

definition insert_decision :: "intervention_decision \<Rightarrow> ('a decision_db_scheme) \<Rightarrow> ('a decision_db_scheme)" where
  "insert_decision d db = db\<lparr>db_decisions := db_decisions db @ [d]\<rparr>"

definition append_decision ::
  "intervention_decision \<Rightarrow> ('a decision_db_scheme) \<Rightarrow> (exn, 'a decision_db_scheme) result" where
  "append_decision d db =
     (if list_ex (\<lambda>q. de_decision_id q = de_decision_id d \<or>
            de_payment_attempt_id q = de_payment_attempt_id d \<and> de_source_system q = de_source_system d \<and>
            de_version q = de_version d) (db_decisions db) \<or>
         \<not> joined_attempt db (de_payment_attempt_id d) (de_source_system d)
      then Inl IntegrityError else Inr (insert_decision d db))"

section \<open>Service\<close>

definition compute_decision_fingerprint ::
  "string \<Rightarrow> datetime \<Rightarrow> int \<Rightarrow> string \<Rightarrow> uuid option \<Rightarrow> pyfloat option \<Rightarrow> string \<Rightarrow> uuid option \<Rightarrow> string option \<Rightarrow>
   string option \<Rightarrow> string option \<Rightarrow> string option \<Rightarrow> string option \<Rightarrow> string \<Rightarrow> string \<Rightarrow> digest" where
  "compute_decision_fingerprint payment_attempt_id t_decide amount currency prediction_id failure_probability
       prediction_status episode_id episode_status rca_classification rca_candidate_dimension
       rca_candidate_value rca_evidence_strength policy_id policy_version =
     sha256_json (JObj
       [(''payment_attempt_id'', JStr payment_attempt_id), (''t_decide'', JTime t_decide),
        (''amount_minor_units'', JInt amount), (''currency'', JStr currency),
        (''stage5_prediction_id'', json_opt JUuid prediction_id),
        (''failure_probability'', json_opt JFloat failure_probability),
        (''prediction_status'', JStr prediction_status), (''episode_id'', json_opt JUuid episode_id),
        (''episode_status'', json_truthy episode_status),
        (''rca_classification'', json_truthy rca_classification),
        (''rca_candidate_dimension'', json_truthy rca_candidate_dimension),
        (''rca_candidate_value'', json_truthy rca_candidate_value),
        (''rca_evidence_strength'', json_truthy rca_evidence_strength),
        (''policy_id'', JStr policy_id), (''policy_version'', JStr policy_version)])"

text \<open>What the service reads before it decides.\<close>

record decision_context =
  dc_terminal_exists :: bool
  dc_prediction :: "failure_prediction option"
  dc_amount :: int
  dc_currency :: string
  dc_payment_method :: "string option"
  dc_bank :: "string option"
  dc_wallet :: "string option"
  dc_episode_id :: "uuid option"
  dc_episode_status :: "string option"
  dc_rca_classification :: "string option"
  dc_rca_payload :: "json option"
  dc_candidate_dimension :: "string option"
  dc_candidate_value :: "string option"
  dc_evidence_strength :: "string option"
  dc_candidate_matches :: bool

definition gather_context ::
  "(uuid \<Rightarrow> string) \<Rightarrow> ('a decision_db_scheme) \<Rightarrow> attempt_ref \<Rightarrow> datetime \<Rightarrow> (exn, decision_context) result" where
  "gather_context uuid_str db attempt t_decide =
     (let pid = ar_payment_attempt_id attempt; auth = get_payment_event_by_id db pid t_decide in
      bind_result (check_terminal_event_exists db pid t_decide (ar_source_system attempt)) (\<lambda>terminal_exists.
      bind_result (get_stage5_prediction_as_of db pid t_decide (ar_source_system attempt)) (\<lambda>pred.
        let active = (case auth of None \<Rightarrow> None | Some e \<Rightarrow> get_most_severe_active_episode uuid_str db e t_decide);
            rca = (case active of None \<Rightarrow> None | Some ep \<Rightarrow> get_rca_context db (hist_episode_id ep) t_decide);
            candidate = (case rca of Some (r, Some c) \<Rightarrow> Some c | _ \<Rightarrow> None)
        in Inr
          \<lparr>dc_terminal_exists = terminal_exists, dc_prediction = pred,
           dc_amount = (case auth of None \<Rightarrow> 0 | Some e \<Rightarrow> ev_amount_minor_units e),
           dc_currency = (case auth of None \<Rightarrow> [] | Some e \<Rightarrow> ev_currency e),
           dc_payment_method = Option.bind auth ev_payment_method,
           dc_bank = Option.bind auth ev_bank, dc_wallet = Option.bind auth ev_wallet,
           dc_episode_id = map_option hist_episode_id active,
           dc_episode_status = map_option (\<lambda>ep. status_value (hist_status ep)) active,
           dc_rca_classification = map_option (\<lambda>(r, _). classification_value (re_classification r)) rca,
           dc_rca_payload = map_option (\<lambda>(r, _). re_payload r) rca,
           dc_candidate_dimension = map_option cc_dimension candidate,
           dc_candidate_value = map_option cc_value candidate,
           dc_evidence_strength = map_option (\<lambda>c. strength_value (cc_strength c)) candidate,
           dc_candidate_matches =
             (case pred of None \<Rightarrow> False
              | Some p \<Rightarrow> json_true (fp_features p) \<and>
                  payload_flag (fp_features p) ''rca_candidate_matches_payment_segment'')\<rparr>)))"

definition context_fingerprint ::
  "intervention_policy \<Rightarrow> attempt_ref \<Rightarrow> datetime \<Rightarrow> decision_context \<Rightarrow> digest" where
  "context_fingerprint policy attempt t_decide c =
     compute_decision_fingerprint (ar_payment_attempt_id attempt) t_decide (dc_amount c) (dc_currency c)
       (map_option fp_prediction_id (dc_prediction c))
       (Option.bind (dc_prediction c) fp_failure_probability)
       (case dc_prediction c of None \<Rightarrow> ''MISSING'' | Some p \<Rightarrow> prediction_status_value (fp_status p))
       (dc_episode_id c) (dc_episode_status c) (dc_rca_classification c) (dc_candidate_dimension c)
       (dc_candidate_value c) (dc_evidence_strength c) (po_policy_id policy) (po_policy_version policy)"

text \<open>The gates in order; evaluation stops at the first that fails, and the audit keeps those evaluated.\<close>

definition safety_gates :: "intervention_policy \<Rightarrow> decision_context \<Rightarrow> (string \<times> gate_result) list" where
  "safety_gates policy c =
     [(''kill_switch'', evaluate_kill_switch policy),
      (''amount_and_currency'', evaluate_amount_and_currency (dc_amount c) (dc_currency c)),
      (''pre_terminal_invariance'', evaluate_pre_terminal_invariance (dc_terminal_exists c)),
      (''stage5_prediction'', evaluate_stage5_prediction_validity (dc_prediction c)),
      (''episode_and_traffic_shift'', evaluate_episode_and_traffic_shift (dc_episode_status c) (dc_rca_payload c))]"

definition gate_audit :: "string \<Rightarrow> gate_result \<Rightarrow> string \<times> json" where
  "gate_audit name g = (name, JObj [(''passed'', JBool (ga_passed g)), (''details'', ga_details g)])"

fun run_gates :: "(string \<times> gate_result) list \<Rightarrow> (string \<times> json) list \<times> gate_verdict option" where
  "run_gates [] = ([], None)"
| "run_gates ((name, g) # gs) =
     (if ga_passed g then (case run_gates gs of (audit, v) \<Rightarrow> (gate_audit name g # audit, v))
      else ([gate_audit name g], Some (ga_verdict g)))"

definition candidate_scores ::
  "intervention_policy \<Rightarrow> ('a decision_db_scheme) \<Rightarrow> attempt_ref \<Rightarrow> datetime \<Rightarrow> decision_context \<Rightarrow> pyfloat \<Rightarrow>
   candidate_route_score list" where
  "candidate_scores policy db attempt t_decide c failure_prob =
     map (\<lambda>(key, route).
       let eligibility =
             (if \<not> ga_passed (evaluate_policy_cost_currency policy (dc_currency c)) then CostCurrencyUnsupported
              else evaluate_route_eligibility route (dc_rca_classification c) (dc_evidence_strength c)
                     (dc_candidate_dimension c) (dc_candidate_matches c) (dc_payment_method c) (dc_bank c)
                     (has_recent_route_decision db (ar_payment_attempt_id attempt) key
                        (t_decide - seconds (rt_cooldown_seconds route)) (ar_source_system attempt)));
           (benefit, utility) =
             (if eligibility = Eligible
              then calculate_policy_utility (dc_amount c) failure_prob (rt_recovery_rate route) (rt_cost_minor_units route)
              else (0, 0));
           alignment =
             (if eligibility = Eligible
              then calculate_route_alignment route (dc_candidate_dimension c) (dc_candidate_value c)
                     (dc_payment_method c) (dc_bank c)
              else 0)
       in \<lparr>cs_route_key = key, cs_eligibility = eligibility, cs_expected_benefit = benefit,
           cs_cost_minor_units = rt_cost_minor_units route, cs_utility = utility,
           cs_alignment = alignment, cs_rank = 0\<rparr>) (po_routes policy)"

definition py_int :: "decimal \<Rightarrow> int" where
  "py_int x = (if x < 0 then \<lceil>x\<rceil> else \<lfloor>x\<rfloor>)"

definition candidate_audit :: "candidate_route_score \<Rightarrow> json" where
  "candidate_audit s = JObj
     [(''route_key'', JStr (route_value (cs_route_key s))), (''is_eligible'', JBool (cs_eligibility s = Eligible)),
      (''eligibility_reason'', JStr ''Eligible''),
      (''expected_recovery_benefit_minor_units'', JInt (py_int (cs_expected_benefit s))),
      (''policy_cost_minor_units'', JInt (cs_cost_minor_units s)),
      (''policy_utility_minor_units'', JInt (py_int (cs_utility s))),
      (''route_alignment_score'', JFloat (cs_alignment s)), (''rank'', JInt (cs_rank s))]"

definition no_action_audit :: "intervention_policy \<Rightarrow> (string \<times> json) list \<Rightarrow> json \<Rightarrow> json" where
  "no_action_audit policy gates extra = JObj
     [(''gates'', JObj gates), (''extra'', extra),
      (''policy'', JObj [(''policy_id'', JStr (po_policy_id policy)), (''policy_version'', JStr (po_policy_version policy)),
                        (''cost_currency'', JStr (po_cost_currency policy))])]"

definition decision_audit ::
  "intervention_policy \<Rightarrow> decision_context \<Rightarrow> pyfloat \<Rightarrow> (string \<times> json) list \<Rightarrow> json list \<Rightarrow> json" where
  "decision_audit policy c failure_prob gates candidates = JObj
     [(''payment_facts'', JObj
         [(''amount_minor_units'', JInt (dc_amount c)), (''currency'', JStr (dc_currency c)),
          (''payment_method'', json_opt JStr (dc_payment_method c)), (''bank'', json_opt JStr (dc_bank c)),
          (''wallet'', json_opt JStr (dc_wallet c))]),
      (''upstream_context'', JObj
         [(''stage5_prediction_id'', json_opt JUuid (map_option fp_prediction_id (dc_prediction c))),
          (''stage5_status'', json_opt (\<lambda>p. JStr (prediction_status_value (fp_status p))) (dc_prediction c)),
          (''failure_probability'', JFloat failure_prob), (''episode_id'', json_opt JUuid (dc_episode_id c)),
          (''episode_status'', json_opt JStr (dc_episode_status c)),
          (''rca_classification'', json_opt JStr (dc_rca_classification c)),
          (''rca_candidate_dimension'', json_opt JStr (dc_candidate_dimension c)),
          (''rca_candidate_value'', json_opt JStr (dc_candidate_value c)),
          (''rca_evidence_strength'', json_opt JStr (dc_evidence_strength c))]),
      (''gates'', JObj gates), (''candidates'', JArr candidates),
      (''policy'', JObj
         [(''policy_id'', JStr (po_policy_id policy)), (''policy_version'', JStr (po_policy_version policy)),
          (''act_risk_threshold'', JFloat (po_act_threshold policy)),
          (''monitor_risk_threshold'', JFloat (po_monitor_threshold policy)),
          (''min_policy_utility_threshold_minor_units'', JInt (py_int (po_min_utility policy))),
          (''cost_currency'', JStr (po_cost_currency policy)),
          (''global_rate_limit_per_minute'', JInt (po_rate_limit policy))])]"

text \<open>Both ways to persist a decision take the next version of the attempt.\<close>

definition persist_decision ::
  "intervention_policy \<Rightarrow> datetime \<Rightarrow> attempt_ref \<Rightarrow> datetime \<Rightarrow> decision_context \<Rightarrow> digest \<Rightarrow>
   decision_type \<times> intervention_route_key option \<times> pyfloat \<times> gate_verdict \<Rightarrow> json \<Rightarrow> ('a decision_db_scheme) \<Rightarrow>
   (exn, intervention_decision \<times> ('a decision_db_scheme)) result" where
  "persist_decision policy now attempt t_decide c fingerprint verdict audit db =
     (case verdict of (dtype, route, confidence, gate) \<Rightarrow>
      bind_result (get_max_decision_version db (ar_payment_attempt_id attempt) (Some (ar_source_system attempt)))
        (\<lambda>max_version.
          let d = \<lparr>de_decision_id = make_decision_id (ar_payment_attempt_id attempt) (max_version + 1),
                   de_payment_attempt_id = ar_payment_attempt_id attempt,
                   de_source_system = ar_source_system attempt, de_version = max_version + 1,
                   de_decided_at = t_decide, de_type = dtype, de_route = route,
                   de_failure_probability = Option.bind (dc_prediction c) fp_failure_probability,
                   de_prediction_id = map_option fp_prediction_id (dc_prediction c),
                   de_diagnosis_confidence = dc_evidence_strength c, de_confidence = confidence,
                   de_gate_verdict = gate, de_policy_id = po_policy_id policy,
                   de_policy_version = po_policy_version policy, de_fingerprint = fingerprint,
                   de_audit = audit, de_created_at = now\<rparr>
          in bind_result (append_decision d db) (\<lambda>db'. Inr (d, db'))))"

definition rate_limit_audit :: "bool \<Rightarrow> int \<Rightarrow> int \<Rightarrow> string \<times> json" where
  "rate_limit_audit passed recent limit =
     (''global_rate_limit'',
      JObj [(''passed'', JBool passed), (''recent_act_count'', JInt recent), (''limit'', JInt limit)])"

text \<open>An ACT is admitted while fewer than the limit were decided in the last minute.\<close>

definition admit_act ::
  "intervention_policy \<Rightarrow> datetime \<Rightarrow> ('a decision_db_scheme) \<Rightarrow>
   decision_type \<times> intervention_route_key option \<times> pyfloat \<times> gate_verdict \<Rightarrow>
   (decision_type \<times> intervention_route_key option \<times> pyfloat \<times> gate_verdict) \<times> (string \<times> json) list" where
  "admit_act policy t_decide db verdict =
     (if fst verdict = ACT then
        (let recent = count_recent_act_decisions db (t_decide - seconds 60) in
         if po_rate_limit policy \<le> recent
         then ((NO_ACTION, None, 1, FAILED_GLOBAL_RATE_LIMIT), [rate_limit_audit False recent (po_rate_limit policy)])
         else (verdict, [rate_limit_audit True recent (po_rate_limit policy)]))
      else (verdict, []))"

definition decide_in_context ::
  "intervention_policy \<Rightarrow> attempt_ref \<Rightarrow> datetime \<Rightarrow> decision_context \<Rightarrow> ('a decision_db_scheme) \<Rightarrow>
   (decision_type \<times> intervention_route_key option \<times> pyfloat \<times> gate_verdict) \<times> json" where
  "decide_in_context policy attempt t_decide c db =
     (case run_gates (safety_gates policy c) of
        (audit, Some gate) \<Rightarrow> ((NO_ACTION, None, 1, gate), no_action_audit policy audit (JObj []))
      | (audit, None) \<Rightarrow>
          let failure_prob = (case Option.bind (dc_prediction c) fp_failure_probability of None \<Rightarrow> 0 | Some p \<Rightarrow> p);
              g6 = evaluate_policy_cost_currency policy (dc_currency c);
              audit1 = audit @ [gate_audit ''policy_cost_currency'' g6];
              ranked = score_and_rank_candidates
                (filter (\<lambda>s. cs_eligibility s = Eligible) (candidate_scores policy db attempt t_decide c failure_prob));
              audit_candidates = map candidate_audit ranked
          in if ranked = [] \<and> po_act_threshold policy \<le> failure_prob
             then ((NO_ACTION, None, 1, if ga_passed g6 then FAILED_NO_ELIGIBLE_ROUTES else ga_verdict g6),
                   no_action_audit policy audit1 (JObj [(''candidates'', JArr audit_candidates)]))
             else let best = (case ranked of [] \<Rightarrow> None | s # _ \<Rightarrow> Some s);
                      (verdict, rate_audit) =
                        admit_act policy t_decide db
                          (determine_verdict best failure_prob policy (dc_evidence_strength c))
                  in (verdict, decision_audit policy c failure_prob (audit1 @ rate_audit) audit_candidates))"

definition decide ::
  "(uuid \<Rightarrow> string) \<Rightarrow> intervention_policy \<Rightarrow> datetime \<Rightarrow> attempt_ref \<Rightarrow> datetime \<Rightarrow> ('a decision_db_scheme) \<Rightarrow>
   (exn, intervention_decision \<times> ('a decision_db_scheme)) result" where
  "decide uuid_str policy now attempt t_decide db =
     bind_result (require_attempt db attempt) (\<lambda>_.
     bind_result (gather_context uuid_str db attempt t_decide) (\<lambda>c.
     let fingerprint = context_fingerprint policy attempt t_decide c in
     bind_result (get_latest_decision db (ar_payment_attempt_id attempt) (Some (ar_source_system attempt))) (\<lambda>latest.
       if map_option de_fingerprint latest = Some fingerprint then Inr (the latest, db)
       else case decide_in_context policy attempt t_decide c db of (verdict, audit) \<Rightarrow>
              persist_decision policy now attempt t_decide c fingerprint verdict audit db)))"


section \<open>Lemmas\<close>

lemma insert_decision_simps [simp]:
  "db_decisions (insert_decision d db) = db_decisions db @ [d]"
  "db_attempts (insert_decision d db) = db_attempts db"
  "db_predictions (insert_decision d db) = db_predictions db"
  "db_events (insert_decision d db) = db_events db"
  "db_history (insert_decision d db) = db_history db"
  "db_evaluations (insert_decision d db) = db_evaluations db"
  "db_candidates (insert_decision d db) = db_candidates db"
  by (simp_all add: insert_decision_def)

interpretation decision_log: attempt_log db_decisions de_payment_attempt_id de_version
    "\<lambda>db pid. case get_max_decision_version db pid None of Inr n \<Rightarrow> n | Inl _ \<Rightarrow> 0" insert_decision
    de_source_system de_decision_id make_decision_id joined_attempt registry_ok
  by unfold_locales
    (auto simp: get_max_decision_version_def decision_rows_def make_decision_id_def
      versioned_name_inject joined_attempt_def registry_ok_def intro: registry_unique_provider)

lemma append_decision_iff:
  "append_decision d db = (if decision_log.conflicts d db then Inl IntegrityError else Inr (insert_decision d db))"
  by (simp add: append_decision_def decision_log.conflicts_def)

lemma append_decision_Inr: "append_decision d db = Inr db' \<Longrightarrow> db' = insert_decision d db"
  by (auto simp: append_decision_iff split: if_splits)

text \<open>Inversion of a decision run: the latest decision is returned, or one is appended.\<close>

lemma decide_Inr:
  assumes "decide us policy now a t db = Inr (d, db')"
  obtains r c prior where "require_attempt db a = Inr r" "gather_context us db a t = Inr c"
    "get_latest_decision db (ar_payment_attempt_id a) (Some (ar_source_system a)) = Inr prior"
    "db' = db \<and> prior = Some d \<or>
     (\<exists>verdict audit n. decide_in_context policy a t c db = (verdict, audit) \<and>
        get_max_decision_version db (ar_payment_attempt_id a) (Some (ar_source_system a)) = Inr n \<and>
        db' = insert_decision d db \<and> de_version d = n + 1 \<and>
        de_payment_attempt_id d = ar_payment_attempt_id a \<and> de_source_system d = ar_source_system a \<and>
        de_decided_at d = t \<and> (de_type d, de_route d, de_confidence d, de_gate_verdict d) = verdict \<and>
        de_failure_probability d = Option.bind (dc_prediction c) fp_failure_probability \<and>
        de_fingerprint d = context_fingerprint policy a t c)"
    "de_fingerprint d = context_fingerprint policy a t c"
proof -
  from assms obtain r c prior where r: "require_attempt db a = Inr r" and c: "gather_context us db a t = Inr c"
    and prior: "get_latest_decision db (ar_payment_attempt_id a) (Some (ar_source_system a)) = Inr prior"
    and step: "(if map_option de_fingerprint prior = Some (context_fingerprint policy a t c) then Inr (the prior, db)
       else case decide_in_context policy a t c db of (verdict, audit) \<Rightarrow>
              persist_decision policy now a t c (context_fingerprint policy a t c) verdict audit db) = Inr (d, db')"
    by (auto simp: decide_def Let_def bind_result_Inr)
  show thesis
  proof (cases "map_option de_fingerprint prior = Some (context_fingerprint policy a t c)")
    case True
    with step have "db' = db \<and> prior = Some d" "de_fingerprint d = context_fingerprint policy a t c" by auto
    with that[OF r c prior] show thesis by blast
  next
    case False
    obtain verdict audit where v: "decide_in_context policy a t c db = (verdict, audit)" by fastforce
    from step False v have p: "persist_decision policy now a t c (context_fingerprint policy a t c) verdict audit db =
        Inr (d, db')" by (simp only: if_False prod.case)
    then obtain n where n: "get_max_decision_version db (ar_payment_attempt_id a) (Some (ar_source_system a)) = Inr n"
      "de_version d = n + 1" "de_payment_attempt_id d = ar_payment_attempt_id a"
      "de_source_system d = ar_source_system a" "de_decided_at d = t"
      "(de_type d, de_route d, de_confidence d, de_gate_verdict d) = verdict"
      "de_failure_probability d = Option.bind (dc_prediction c) fp_failure_probability"
      "de_fingerprint d = context_fingerprint policy a t c" "append_decision d db = Inr db'"
      by (auto simp: persist_decision_def bind_result_Inr Let_def split: prod.splits)
    with v append_decision_Inr[OF n(9)] that[OF r c prior] show thesis by blast
  qed
qed

lemma run_gates_None: "snd (run_gates gs) = None \<longleftrightarrow> list_all (\<lambda>(name, g). ga_passed g) gs"
  by (induction gs rule: run_gates.induct) (auto split: prod.splits)

lemma gates_passed:
  "snd (run_gates (safety_gates policy c)) = None \<longleftrightarrow>
     \<not> po_kill_switch policy \<and> 0 < dc_amount c \<and> length (dc_currency c) = 3 \<and> \<not> dc_terminal_exists c \<and>
     (\<exists>p q. dc_prediction c = Some p \<and> fp_status p = PREDICTED \<and> fp_failure_probability p = Some q) \<and>
     ga_passed (evaluate_episode_and_traffic_shift (dc_episode_status c) (dc_rca_payload c))"
  by (auto simp: run_gates_None safety_gates_def evaluate_kill_switch_def evaluate_amount_and_currency_def
      evaluate_pre_terminal_invariance_def evaluate_stage5_prediction_validity_def
      split: option.splits if_splits)

lemma determine_verdict_ACT:
  "determine_verdict best p policy ev = (ACT, route, conf, v) \<longleftrightarrow>
     (\<exists>s. best = Some s \<and> po_min_utility policy \<le> cs_utility s \<and> po_act_threshold policy \<le> p \<and>
          route = Some (cs_route_key s) \<and> v = PASSED \<and>
          conf = calculate_act_confidence p (po_act_threshold policy) ev (cs_alignment s))"
  by (auto simp: determine_verdict_def Let_def split: option.splits)

lemma determine_verdict_route:
  "determine_verdict best p policy ev = (ty, route, conf, v) \<Longrightarrow>
     (ty = ACT \<longleftrightarrow> route \<noteq> None) \<and> 0 \<le> conf \<and> conf \<le> 1"
  by (auto simp: determine_verdict_def Let_def calculate_act_confidence_def calculate_monitor_confidence_def
      split: option.splits if_splits)

lemma ranked_hd:
  assumes "score_and_rank_candidates cs = s # rest"
  shows "\<exists>c\<in>set cs. s = c\<lparr>cs_rank := 1\<rparr> \<and> (\<forall>c'\<in>set cs. ranking_key c \<le> ranking_key c')"
proof -
  obtain c rs where sorted: "sort_key ranking_key cs = c # rs"
    using assms by (cases "sort_key ranking_key cs") (auto simp: score_and_rank_candidates_def)
  then have "s = c\<lparr>cs_rank := 1\<rparr>" using assms by (simp add: score_and_rank_candidates_def)
  moreover have "c \<in> set cs" using sorted by (metis list.set_intros(1) set_sort)
  moreover have "\<forall>c'\<in>set cs. ranking_key c \<le> ranking_key c'"
  proof -
    have "sorted (map ranking_key (c # rs))" using sorted sorted_sort_key[of ranking_key cs] by simp
    then have "\<forall>c'\<in>set (c # rs). ranking_key c \<le> ranking_key c'" by auto
    with sorted show ?thesis by (metis set_sort)
  qed
  ultimately show ?thesis by blast
qed


text \<open>Scoring a route.\<close>

lemma candidate_scores_Eligible:
  assumes "s \<in> set (candidate_scores policy db a t c p)" "cs_eligibility s = Eligible"
  obtains route where "(cs_route_key s, route) \<in> set (po_routes policy)" "dc_currency c = po_cost_currency policy"
    "evaluate_route_eligibility route (dc_rca_classification c) (dc_evidence_strength c)
       (dc_candidate_dimension c) (dc_candidate_matches c) (dc_payment_method c) (dc_bank c) False = Eligible"
    "\<not> has_recent_route_decision db (ar_payment_attempt_id a) (cs_route_key s)
        (t - seconds (rt_cooldown_seconds route)) (ar_source_system a)"
    "(cs_expected_benefit s, cs_utility s) =
       calculate_policy_utility (dc_amount c) p (rt_recovery_rate route) (rt_cost_minor_units route)"
proof -
  from assms obtain key route where kr: "(key, route) \<in> set (po_routes policy)" "cs_route_key s = key"
    and e: "(if \<not> ga_passed (evaluate_policy_cost_currency policy (dc_currency c)) then CostCurrencyUnsupported
              else evaluate_route_eligibility route (dc_rca_classification c) (dc_evidence_strength c)
                     (dc_candidate_dimension c) (dc_candidate_matches c) (dc_payment_method c) (dc_bank c)
                     (has_recent_route_decision db (ar_payment_attempt_id a) key
                        (t - seconds (rt_cooldown_seconds route)) (ar_source_system a))) = Eligible"
    and u: "(cs_expected_benefit s, cs_utility s) =
       calculate_policy_utility (dc_amount c) p (rt_recovery_rate route) (rt_cost_minor_units route)"
    by (auto simp: candidate_scores_def Let_def split: prod.splits if_splits)
  from e have cur: "dc_currency c = po_cost_currency policy"
    by (auto simp: evaluate_policy_cost_currency_def split: if_splits)
  have no_cd: "\<not> has_recent_route_decision db (ar_payment_attempt_id a) key
      (t - seconds (rt_cooldown_seconds route)) (ar_source_system a)"
    using e by (auto simp: evaluate_route_eligibility_def Let_def split: if_splits)
  with e cur kr u that[of route] show thesis
    by (auto simp: evaluate_policy_cost_currency_def)
qed

lemma decide_ACT:
  assumes "decide_in_context policy a t c db = ((ACT, route, conf, v), audit)"
  obtains p q s where "\<not> po_kill_switch policy" "0 < dc_amount c" "\<not> dc_terminal_exists c"
    "dc_prediction c = Some p" "fp_status p = PREDICTED" "fp_failure_probability p = Some q"
    "po_act_threshold policy \<le> q" "route = Some (cs_route_key s)" "v = PASSED"
    "s \<in> set (candidate_scores policy db a t c q)" "cs_eligibility s = Eligible" "po_min_utility policy \<le> cs_utility s"
    "\<forall>s'\<in>set (candidate_scores policy db a t c q). cs_eligibility s' = Eligible \<longrightarrow> ranking_key s \<le> ranking_key s'"
    "count_recent_act_decisions db (t - seconds 60) < po_rate_limit policy"
proof -
  obtain gaudit gv where g: "run_gates (safety_gates policy c) = (gaudit, gv)" by fastforce
  with assms have "gv = None" by (auto simp: decide_in_context_def split: option.splits)
  with g have pass: "snd (run_gates (safety_gates policy c)) = None" by simp
  then obtain p q where pq: "dc_prediction c = Some p" "fp_status p = PREDICTED" "fp_failure_probability p = Some q"
    and safe: "\<not> po_kill_switch policy" "0 < dc_amount c" "\<not> dc_terminal_exists c"
    by (auto simp: gates_passed)
  define ranked where "ranked = score_and_rank_candidates
      (filter (\<lambda>s. cs_eligibility s = Eligible) (candidate_scores policy db a t c q))"
  define best where "best = (case ranked of [] \<Rightarrow> None | s # _ \<Rightarrow> Some s)"
  obtain ty0 route0 conf0 v0 where dv: "determine_verdict best q policy (dc_evidence_strength c) = (ty0, route0, conf0, v0)"
    by (metis prod_cases4)
  from assms g \<open>gv = None\<close> pq have adm: "fst (admit_act policy t db (ty0, route0, conf0, v0)) = (ACT, route, conf, v)"
    unfolding decide_in_context_def Let_def
    by (auto simp: dv simp flip: ranked_def best_def split: if_splits prod.splits)
  then have same: "ty0 = ACT" "route0 = route" "v0 = v"
    and room: "count_recent_act_decisions db (t - seconds 60) < po_rate_limit policy"
    by (auto simp: admit_act_def Let_def split: if_splits)
  from dv same obtain s where s: "best = Some s" "po_min_utility policy \<le> cs_utility s"
    "po_act_threshold policy \<le> q" "route = Some (cs_route_key s)" "v = PASSED"
    by (auto simp: determine_verdict_ACT)
  from s(1) obtain rest where "ranked = s # rest" by (auto simp: best_def split: list.splits)
  from ranked_hd[OF this[unfolded ranked_def]] obtain s0 where
    s0: "s0 \<in> set (candidate_scores policy db a t c q)" "cs_eligibility s0 = Eligible" "s = s0\<lparr>cs_rank := 1\<rparr>"
    "\<forall>s'\<in>set (candidate_scores policy db a t c q). cs_eligibility s' = Eligible \<longrightarrow> ranking_key s0 \<le> ranking_key s'"
    by auto
  with s pq safe room show thesis by (intro that[of p q s0]) auto
qed


lemma decide_in_context_wf:
  assumes "decide_in_context policy a t c db = ((ty, route, conf, v), audit)"
  shows "(ty = ACT \<longleftrightarrow> route \<noteq> None) \<and> 0 \<le> conf \<and> conf \<le> 1"
proof -
  have adm: "(ty = ACT \<longleftrightarrow> route \<noteq> None) \<and> 0 \<le> conf \<and> conf \<le> 1"
    if "admit_act policy t db (determine_verdict best q policy ev) = ((ty, route, conf, v), ra)" for best q ev ra
  proof -
    obtain ty0 route0 conf0 v0 where dv: "determine_verdict best q policy ev = (ty0, route0, conf0, v0)"
      by (metis prod_cases4)
    from determine_verdict_route[OF dv] that dv show ?thesis
      by (auto simp: admit_act_def Let_def split: if_splits)
  qed
  from assms show ?thesis
    unfolding decide_in_context_def Let_def
    by (auto split: prod.splits option.splits if_splits dest!: adm)
qed

lemma gather_context_reads:
  assumes "gather_context us db a t = Inr c"
  shows "check_terminal_event_exists db (ar_payment_attempt_id a) t (ar_source_system a) = Inr (dc_terminal_exists c) \<and>
    get_stage5_prediction_as_of db (ar_payment_attempt_id a) t (ar_source_system a) = Inr (dc_prediction c)"
  using assms by (auto simp: gather_context_def Let_def bind_result_Inr)

section \<open>Properties\<close>



text \<open>
  A step of Stage 6 in a running system: other stages change the database in any way that leaves the
  decisions alone, then a decision is asked for, at any clock and any decision time.
\<close>

definition stage6_step ::
  "(uuid \<Rightarrow> string) \<Rightarrow> intervention_policy \<Rightarrow>
   (('a decision_db_scheme) \<Rightarrow> ('a decision_db_scheme)) \<times> attempt_ref \<times> datetime \<times> datetime \<Rightarrow>
   ('a decision_db_scheme) \<Rightarrow> ('a decision_db_scheme)" where
  "stage6_step us policy q db =
     (case q of (others, a, now, t) \<Rightarrow>
        let db1 = (others db)\<lparr>db_decisions := db_decisions db\<rparr>
        in case decide us policy now a t db1 of Inl _ \<Rightarrow> db1 | Inr (_, db') \<Rightarrow> db')"

definition acts_in_minute :: "intervention_decision list \<Rightarrow> datetime \<Rightarrow> int" where
  "acts_in_minute ds w =
     int (length (filter (\<lambda>d. de_type d = ACT \<and> w \<le> de_decided_at d \<and> de_decided_at d \<le> w + seconds 60) ds))"

definition off_cooldown :: "intervention_policy \<Rightarrow> intervention_decision \<Rightarrow> intervention_decision \<Rightarrow> bool" where
  "off_cooldown policy earlier later \<longleftrightarrow>
     (if de_type later = ACT \<and> de_type earlier = ACT \<and> de_route earlier = de_route later \<and>
         de_payment_attempt_id earlier = de_payment_attempt_id later \<and> de_source_system earlier = de_source_system later
      then list_ex (\<lambda>(k, route). Some k = de_route later \<and>
             de_decided_at earlier < de_decided_at later - seconds (rt_cooldown_seconds route)) (po_routes policy)
      else True)"

definition act_limits :: "intervention_policy \<Rightarrow> intervention_decision list \<Rightarrow> bool" where
  "act_limits policy ds \<longleftrightarrow>
     (\<forall>w. acts_in_minute ds w \<le> max 0 (po_rate_limit policy)) \<and> sorted_wrt (off_cooldown policy) ds"

lemma act_limits_snoc:
  assumes "act_limits policy ds"
    and act: "de_type d = ACT \<Longrightarrow>
       int (length (filter (\<lambda>e. de_type e = ACT \<and> de_decided_at d - seconds 60 \<le> de_decided_at e) ds)) < po_rate_limit policy \<and>
       (\<exists>(k, route)\<in>set (po_routes policy). de_route d = Some k \<and>
          \<not> list_ex (\<lambda>e. de_payment_attempt_id e = de_payment_attempt_id d \<and> de_route e = Some k \<and> de_type e = ACT \<and>
               de_decided_at d - seconds (rt_cooldown_seconds route) \<le> de_decided_at e \<and>
               de_source_system e = de_source_system d) ds)"
  shows "act_limits policy (ds @ [d])"
proof -
  have rate: "acts_in_minute (ds @ [d]) w \<le> max 0 (po_rate_limit policy)" for w
  proof (cases "de_type d = ACT \<and> w \<le> de_decided_at d \<and> de_decided_at d \<le> w + seconds 60")
    case True
    let ?in = "\<lambda>e. de_type e = ACT \<and> w \<le> de_decided_at e \<and> de_decided_at e \<le> w + seconds 60"
    let ?recent = "\<lambda>e. de_type e = ACT \<and> de_decided_at d - seconds 60 \<le> de_decided_at e"
    have same: "filter ?in (filter ?recent ds) = filter ?in ds"
      by (rule filter_filter_imp) (use True in auto)
    have le: "length (filter ?in ds) \<le> length (filter ?recent ds)"
      using length_filter_le[of ?in "filter ?recent ds"] unfolding same .
    from True act have "int (length (filter ?recent ds)) < po_rate_limit policy" by blast
    with le True show ?thesis by (simp add: acts_in_minute_def)
  next
    case False
    then have "acts_in_minute (ds @ [d]) w = acts_in_minute ds w" by (auto simp: acts_in_minute_def)
    with assms(1) show ?thesis by (simp add: act_limits_def)
  qed
  have "off_cooldown policy e d" if e: "e \<in> set ds" for e
  proof (cases "de_type d = ACT \<and> de_type e = ACT \<and> de_route e = de_route d \<and>
      de_payment_attempt_id e = de_payment_attempt_id d \<and> de_source_system e = de_source_system d")
    case True
    with act obtain k route where "(k, route) \<in> set (po_routes policy)" "de_route d = Some k"
      "\<not> list_ex (\<lambda>e. de_payment_attempt_id e = de_payment_attempt_id d \<and> de_route e = Some k \<and> de_type e = ACT \<and>
               de_decided_at d - seconds (rt_cooldown_seconds route) \<le> de_decided_at e \<and>
               de_source_system e = de_source_system d) ds" by blast
    note found = this
    have "de_decided_at e < de_decided_at d - seconds (rt_cooldown_seconds route)"
    proof (rule ccontr)
      assume "\<not> de_decided_at e < de_decided_at d - seconds (rt_cooldown_seconds route)"
      with True e found(2) have "list_ex (\<lambda>e. de_payment_attempt_id e = de_payment_attempt_id d \<and> de_route e = Some k \<and>
          de_type e = ACT \<and> de_decided_at d - seconds (rt_cooldown_seconds route) \<le> de_decided_at e \<and>
          de_source_system e = de_source_system d) ds" unfolding list_ex_iff by (intro bexI[of _ e]) simp_all
      with found(3) show False ..
    qed
    with found(1,2) have "list_ex (\<lambda>(k, route). Some k = de_route d \<and>
        de_decided_at e < de_decided_at d - seconds (rt_cooldown_seconds route)) (po_routes policy)"
      unfolding list_ex_iff by (intro bexI[of _ "(k, route)"]) simp_all
    then show ?thesis by (simp add: off_cooldown_def)
  qed (auto simp: off_cooldown_def)
  with rate assms(1) show ?thesis by (auto simp: act_limits_def sorted_wrt_append)
qed

lemma decide_act_limits:
  assumes "act_limits policy (db_decisions db)" "decide us policy now a t db = Inr (d, db')"
  shows "act_limits policy (db_decisions db')"
  using assms(2)
proof (rule decide_Inr)
  fix r c prior
  assume step: "db' = db \<and> prior = Some d \<or>
     (\<exists>verdict audit n. decide_in_context policy a t c db = (verdict, audit) \<and>
        get_max_decision_version db (ar_payment_attempt_id a) (Some (ar_source_system a)) = Inr n \<and>
        db' = insert_decision d db \<and> de_version d = n + 1 \<and>
        de_payment_attempt_id d = ar_payment_attempt_id a \<and> de_source_system d = ar_source_system a \<and>
        de_decided_at d = t \<and> (de_type d, de_route d, de_confidence d, de_gate_verdict d) = verdict \<and>
        de_failure_probability d = Option.bind (dc_prediction c) fp_failure_probability \<and>
        de_fingerprint d = context_fingerprint policy a t c)"
  show ?thesis
  proof (cases "db' = db")
    case False
    with step obtain audit where
      v: "decide_in_context policy a t c db = ((de_type d, de_route d, de_confidence d, de_gate_verdict d), audit)"
      and d: "db' = insert_decision d db" "de_payment_attempt_id d = ar_payment_attempt_id a"
        "de_source_system d = ar_source_system a" "de_decided_at d = t" by auto
    have "act_limits policy (db_decisions db @ [d])"
    proof (rule act_limits_snoc[OF assms(1)])
      assume act: "de_type d = ACT"
      from v[unfolded act] show "int (length (filter (\<lambda>e. de_type e = ACT \<and> de_decided_at d - seconds 60 \<le> de_decided_at e)
          (db_decisions db))) < po_rate_limit policy \<and>
       (\<exists>(k, route)\<in>set (po_routes policy). de_route d = Some k \<and>
          \<not> list_ex (\<lambda>e. de_payment_attempt_id e = de_payment_attempt_id d \<and> de_route e = Some k \<and> de_type e = ACT \<and>
               de_decided_at d - seconds (rt_cooldown_seconds route) \<le> de_decided_at e \<and>
               de_source_system e = de_source_system d) (db_decisions db))"
      proof (rule decide_ACT)
        fix p q s
        assume s: "de_route d = Some (cs_route_key s)" "s \<in> set (candidate_scores policy db a t c q)"
          "cs_eligibility s = Eligible" "count_recent_act_decisions db (t - seconds 60) < po_rate_limit policy"
        from s(2,3) show ?thesis
        proof (rule candidate_scores_Eligible)
          fix route
          assume "(cs_route_key s, route) \<in> set (po_routes policy)"
            "\<not> has_recent_route_decision db (ar_payment_attempt_id a) (cs_route_key s)
              (t - seconds (rt_cooldown_seconds route)) (ar_source_system a)"
          with s(1,4) d show ?thesis
            by (auto simp: count_recent_act_decisions_def has_recent_route_decision_def intro!: bexI)
        qed
      qed
    qed
    with d show ?thesis by simp
  qed (use assms(1) in simp)
qed

text \<open>C16: Whatever requests arrive, in any order of decision times and with any changes of the other tables in
  between, Stage 6 never exceeds its limits: every minute holds at most \<open>global_rate_limit_per_minute\<close>
  ACT decisions over all attempts and providers, and two ACT decisions of the same attempt for the same route
  are more than the route's cooldown apart.\<close>

theorem act_limits_always:
  "act_limits policy (db_decisions (fold (stage6_step us policy) requests (db\<lparr>db_decisions := []\<rparr>)))"
proof -
  have "act_limits policy (db_decisions d) \<Longrightarrow> act_limits policy (db_decisions (fold (stage6_step us policy) requests d))"
    for d :: "'a decision_db_scheme"
  proof (induction requests arbitrary: d)
    case (Cons q requests)
    obtain others a now t where q: "q = (others, a, now, t)" by (metis prod_cases4)
    define db1 where "db1 = (others d)\<lparr>db_decisions := db_decisions d\<rparr>"
    have ok: "act_limits policy (db_decisions db1)" using Cons.prems by (simp add: db1_def)
    have "act_limits policy (db_decisions (stage6_step us policy q d))"
    proof (cases "decide us policy now a t db1")
      case (Inl e)
      with q ok show ?thesis by (simp add: stage6_step_def Let_def flip: db1_def)
    next
      case (Inr r)
      obtain d1 db' where "r = (d1, db')" by (cases r)
      with Inr q decide_act_limits[OF ok] show ?thesis by (simp add: stage6_step_def Let_def flip: db1_def)
    qed
    with Cons.IH show ?case by simp
  qed simp
  then show ?thesis by (simp add: act_limits_def acts_in_minute_def)
qed

text \<open>The traffic shift gate cannot fail in the running system. The episode Stage 6 looks at is always an
  active one, and neither audit payload that the RCA service writes carries a flag the gate looks for, so
  the gate passes on every payload of both kinds.\<close>

lemma traffic_shift_gate_never_fails:
  "(case gather_context us db a t of
      Inl _ \<Rightarrow> True
    | Inr c \<Rightarrow> dc_episode_status c = None \<or> dc_episode_status c = Some ''ACTIVE'') \<and>
   ga_passed (evaluate_episode_and_traffic_shift (Some ''ACTIVE'')
     (Some (build_audit_payload ws we hw ep n f b x y st suppl cls reason note fp))) \<and>
   ga_passed (evaluate_episode_and_traffic_shift (Some ''ACTIVE'')
     (Some (build_unknown_payload reason ws we ep st suppl fp)))"
proof -
  have ctx: "get_active_episode_context db d v t = Some h \<Longrightarrow> hist_status h = ACTIVE" for d v h
    by (auto simp: get_active_episode_context_def Let_def split: option.splits dest!: find_SomeD)
  have severe: "hist_status h = ACTIVE" if "get_most_severe_active_episode us db e t = Some h" for e h
  proof -
    have "List.map_filter (\<lambda>(d, v). get_active_episode_context db d v t) segs = hs \<Longrightarrow> h \<in> set hs \<Longrightarrow>
        hist_status h = ACTIVE" for segs hs
      apply (auto simp: List.map_filter_def)
      apply (rule ctx, assumption)
      done
    moreover have "ev_source_system e \<noteq> PAYPAL_SOURCE_SYSTEM"
      using that by (auto simp: get_most_severe_active_episode_def)
    moreover from calculation(2) that have "\<exists>segs. latest_by (episode_precedence us)
        (List.map_filter (\<lambda>(d, v). get_active_episode_context db d v t) segs) = Some h"
      unfolding get_most_severe_active_episode_def Let_def by (simp only: if_False) blast
    ultimately show ?thesis by (blast dest: latest_by_Some)
  qed
  have "dc_episode_status c = map_option (\<lambda>ep. status_value (hist_status ep))
      (case get_payment_event_by_id db (ar_payment_attempt_id a) t of None \<Rightarrow> None
       | Some e \<Rightarrow> get_most_severe_active_episode us db e t)" if "gather_context us db a t = Inr c" for c
    using that unfolding gather_context_def Let_def by (auto simp only: bind_result_Inr sum.inject decision_context.simps)
  then have "gather_context us db a t = Inr c \<Longrightarrow> dc_episode_status c = None \<or> dc_episode_status c = Some ''ACTIVE''" for c
    by (cases "case get_payment_event_by_id db (ar_payment_attempt_id a) t of None \<Rightarrow> None
       | Some e \<Rightarrow> get_most_severe_active_episode us db e t")
      (auto split: option.splits dest: severe)
  moreover have "json_get (build_audit_payload ws we hw ep n f b x y st suppl cls reason note fp) k = None \<and>
      json_get (build_unknown_payload reason ws we ep st suppl fp) k = None"
    if "k = ''traffic_mix_shift'' \<or> k = ''unreliable_diagnosis''" for k
    using that by (elim disjE; simp add: build_audit_payload_def build_unknown_payload_def)
  ultimately show ?thesis
    by (simp add: evaluate_episode_and_traffic_shift_def payload_flag_def split: sum.split)
qed


end
