(* ===== verification/Execution.thy ===== *)
theory Execution
  imports Intervention
begin

text \<open>
  Stage 7: commands, their state machine, the executor boundary and the simulator, the execution and
  observation services and their repository (\<open>core/execution\<close>, \<open>core/domain/execution_models.py\<close>,
  \<open>infrastructure/execution_repository.py\<close>), then every interleaving of workers.

  The executor is a parameter, a function of the command and the context; the simulator is one. Random
  attempt ids are arguments.
\<close>

section \<open>Commands\<close>

text \<open>\<open>FAILED\<close> is already a capture outcome.\<close>

datatype command_status = PENDING | EXECUTING | SUCCEEDED | COMMAND_FAILED | EXPIRED | NOT_NEEDED

datatype execution_result_status = SUCCESS | FAILURE | TIMEOUT

datatype payment_outcome = OUTCOME_CAPTURED | OUTCOME_FAILED | UNKNOWN_IN_FLIGHT

primrec execution_result_value :: "execution_result_status \<Rightarrow> string" where
  "execution_result_value SUCCESS = ''SUCCESS''"
| "execution_result_value FAILURE = ''FAILURE''"
| "execution_result_value TIMEOUT = ''TIMEOUT''"

record intervention_command =
  cm_command_id :: uuid
  cm_decision_id :: uuid
  cm_payment_attempt_id :: string
  cm_source_system :: string
  cm_decision_version :: int
  cm_route_key :: intervention_route_key
  cm_policy_id :: string
  cm_policy_version :: string
  cm_status :: command_status
  cm_status_reason :: "string option"
  cm_idempotency_key :: "tok list"
  cm_created_at :: datetime
  cm_expires_at :: datetime
  cm_updated_at :: datetime

record execution_attempt =
  xa_attempt_id :: uuid
  xa_command_id :: uuid
  xa_source_system :: string
  xa_attempt_number :: int
  xa_started_at :: datetime
  xa_completed_at :: datetime
  xa_duration_ms :: int
  xa_status :: execution_result_status
  xa_executor_name :: string
  xa_is_simulation :: bool
  xa_action_type :: string
  xa_response_code :: "string option"
  xa_response_payload :: json
  xa_error_message :: "string option"
  xa_created_at :: datetime

record outcome_observation =
  ob_observation_id :: uuid
  ob_command_id :: uuid
  ob_payment_attempt_id :: string
  ob_source_system :: string
  ob_version :: int
  ob_observed_at :: datetime
  ob_as_of :: datetime
  ob_outcome :: payment_outcome
  ob_terminal_event_id :: "uuid option"
  ob_terminal_event_type :: "string option"
  ob_terminal_event_timestamp :: "datetime option"
  ob_time_to_outcome_ms :: "int option"
  ob_audit :: json
  ob_created_at :: datetime

record execution_db = decision_db +
  db_commands :: "intervention_command list"
  db_exec_attempts :: "execution_attempt list"
  db_observations :: "outcome_observation list"

definition NAMESPACE_STAGE7_COMMAND :: uuid where
  "NAMESPACE_STAGE7_COMMAND = UuidLit ''f7a8b9c0-d1e2-3456-7890-abcdef123456''"

definition NAMESPACE_STAGE7_OBSERVATION :: uuid where
  "NAMESPACE_STAGE7_OBSERVATION = UuidLit ''a1b2c3d4-e5f6-7890-1234-567890abcdef''"

definition make_command_id :: "uuid \<Rightarrow> uuid" where
  "make_command_id decision_id = Uuid5 NAMESPACE_STAGE7_COMMAND (chars ''cmd:'' @ [UuidStr decision_id])"

definition make_observation_id :: "uuid \<Rightarrow> int \<Rightarrow> uuid" where
  "make_observation_id command_id observation_version =
     Uuid5 NAMESPACE_STAGE7_OBSERVATION
       (versioned_name (chars ''obs:'' @ [UuidStr command_id]) observation_version)"

section \<open>State machine\<close>

definition LEGAL_TRANSITIONS :: "command_status \<Rightarrow> command_status list" where
  "LEGAL_TRANSITIONS s =
     (case s of
        PENDING \<Rightarrow> [EXECUTING, NOT_NEEDED, EXPIRED]
      | EXECUTING \<Rightarrow> [SUCCEEDED, COMMAND_FAILED]
      | _ \<Rightarrow> [])"

definition can_transition :: "command_status \<Rightarrow> command_status \<Rightarrow> bool" where
  "can_transition current_status target_status \<longleftrightarrow> target_status \<in> set (LEGAL_TRANSITIONS current_status)"

definition validate_transition :: "command_status \<Rightarrow> command_status \<Rightarrow> (exn, unit) result" where
  "validate_transition current_status target_status =
     (if current_status = target_status then Inr ()
      else require_that (target_status \<in> set (LEGAL_TRANSITIONS current_status)) IllegalStateTransitionError)"

section \<open>Executors\<close>

record execution_result =
  xr_status :: execution_result_status
  xr_executor_name :: string
  xr_is_simulation :: bool
  xr_action_type :: string
  xr_response_code :: "string option"
  xr_response_payload :: json
  xr_error_message :: "string option"
  xr_duration_ms :: int

datatype simulator_mode = ALWAYS_SUCCEED | ALWAYS_FAIL | SIMULATE_TIMEOUT | ROUTE_SPECIFIC

primrec mode_value :: "simulator_mode \<Rightarrow> string" where
  "mode_value ALWAYS_SUCCEED = ''ALWAYS_SUCCEED''"
| "mode_value ALWAYS_FAIL = ''ALWAYS_FAIL''"
| "mode_value SIMULATE_TIMEOUT = ''SIMULATE_TIMEOUT''"
| "mode_value ROUTE_SPECIFIC = ''ROUTE_SPECIFIC''"

primrec ROUTE_ACTION_TYPE_MAP :: "intervention_route_key \<Rightarrow> string" where
  "ROUTE_ACTION_TYPE_MAP RETRY_SECONDARY_GATEWAY = ''GATEWAY_REROUTE''"
| "ROUTE_ACTION_TYPE_MAP PROMPT_PAYMENT_METHOD_SWITCH = ''METHOD_SWITCH_PROMPT''"
| "ROUTE_ACTION_TYPE_MAP DYNAMIC_RETRY_BACKOFF = ''BACKOFF_RETRY_SCHEDULE''"
| "ROUTE_ACTION_TYPE_MAP DEGRADATION_CIRCUIT_BYPASS = ''CIRCUIT_BYPASS''"
| "ROUTE_ACTION_TYPE_MAP FALLBACK_PAYMENT_LINK = ''PAYMENT_LINK_DISPATCH''"

definition simulated ::
  "execution_result_status \<Rightarrow> intervention_command \<Rightarrow> string \<Rightarrow> json \<Rightarrow> string option \<Rightarrow> int \<Rightarrow> execution_result" where
  "simulated status cmd code payload error_message duration_ms =
     \<lparr>xr_status = status, xr_executor_name = ''SIMULATOR_V1'', xr_is_simulation = True,
      xr_action_type = ROUTE_ACTION_TYPE_MAP (cm_route_key cmd), xr_response_code = Some code,
      xr_response_payload = payload, xr_error_message = error_message, xr_duration_ms = duration_ms\<rparr>"

definition build_success_result :: "simulator_mode \<Rightarrow> int \<Rightarrow> intervention_command \<Rightarrow> execution_result" where
  "build_success_result mode duration_ms cmd =
     simulated SUCCESS cmd ''SIMULATED_ACK''
       (JObj [(''simulator_mode'', JStr (mode_value mode)), (''command_id'', JUuid (cm_command_id cmd)),
              (''route_key'', JStr (route_value (cm_route_key cmd))), (''acknowledged'', JBool True)])
       None duration_ms"

definition simulator_execute ::
  "simulator_mode \<Rightarrow> int \<Rightarrow> (intervention_route_key \<times> execution_result_status) list \<Rightarrow>
   intervention_command \<Rightarrow> json \<Rightarrow> execution_result" where
  "simulator_execute mode duration_ms route_status_map cmd context_data =
     (let ids = [(''simulator_mode'', JStr (mode_value mode)), (''command_id'', JUuid (cm_command_id cmd)),
                 (''route_key'', JStr (route_value (cm_route_key cmd)))];
          route_only = JObj [(''route_key'', JStr (route_value (cm_route_key cmd)))]
      in case mode of
           SIMULATE_TIMEOUT \<Rightarrow>
             simulated TIMEOUT cmd ''SIMULATED_TIMEOUT'' (JObj (ids @ [(''timeout_ms'', JInt duration_ms)]))
               (Some ''Simulated executor transport timeout: no confirmed result from provider.'') duration_ms
         | ALWAYS_FAIL \<Rightarrow>
             simulated FAILURE cmd ''SIMULATED_PROVIDER_REJECTION''
               (JObj (ids @ [(''error_code'', JStr ''GATEWAY_SWITCH_UNAVAILABLE'')]))
               (Some ''Simulated provider rejected intervention route instruction.'') duration_ms
         | ROUTE_SPECIFIC \<Rightarrow>
             (case (case map_of route_status_map (cm_route_key cmd) of None \<Rightarrow> SUCCESS | Some s \<Rightarrow> s) of
                SUCCESS \<Rightarrow> build_success_result mode duration_ms cmd
              | TIMEOUT \<Rightarrow> simulated TIMEOUT cmd ''SIMULATED_TIMEOUT'' route_only
                  (Some ''Simulated route-specific timeout.'') duration_ms
              | FAILURE \<Rightarrow> simulated FAILURE cmd ''SIMULATED_ROUTE_FAILURE'' route_only
                  (Some ''Simulated route-specific execution failure.'') duration_ms)
         | ALWAYS_SUCCEED \<Rightarrow> build_success_result mode duration_ms cmd)"

section \<open>Repository\<close>

definition get_command_by_id :: "('a execution_db_scheme) \<Rightarrow> uuid \<Rightarrow> intervention_command option" where
  "get_command_by_id db command_id = find (\<lambda>c. cm_command_id c = command_id) (db_commands db)"

definition get_command_by_decision_id :: "('a execution_db_scheme) \<Rightarrow> uuid \<Rightarrow> intervention_command option" where
  "get_command_by_decision_id db decision_id = find (\<lambda>c. cm_decision_id c = decision_id) (db_commands db)"

definition get_command_by_attempt_and_version ::
  "('a execution_db_scheme) \<Rightarrow> string \<Rightarrow> int \<Rightarrow> string \<Rightarrow> (exn, intervention_command option) result" where
  "get_command_by_attempt_and_version db payment_attempt_id decision_version source_system =
     bind_result (validate_provider (Some source_system)) (\<lambda>_.
       Inr (find (\<lambda>c. cm_payment_attempt_id c = payment_attempt_id \<and> cm_decision_version c = decision_version \<and>
                      cm_source_system c = source_system \<and>
                      joined_attempt db payment_attempt_id (cm_source_system c)) (db_commands db)))"

text \<open>The constraints of \<open>intervention_commands\<close>.\<close>

definition insert_command ::
  "intervention_command \<Rightarrow> ('a execution_db_scheme) \<Rightarrow> (exn, 'a execution_db_scheme) result" where
  "insert_command cmd db =
     (if list_ex (\<lambda>c. cm_command_id c = cm_command_id cmd \<or> cm_decision_id c = cm_decision_id cmd \<or>
            cm_idempotency_key c = cm_idempotency_key cmd \<or>
            cm_payment_attempt_id c = cm_payment_attempt_id cmd \<and> cm_source_system c = cm_source_system cmd \<and>
            cm_decision_version c = cm_decision_version cmd) (db_commands db) \<or>
         \<not> joined_attempt db (cm_payment_attempt_id cmd) (cm_source_system cmd) \<or>
         \<not> list_ex (\<lambda>d. de_decision_id d = cm_decision_id cmd \<and> de_source_system d = cm_source_system cmd) (db_decisions db)
      then Inl IntegrityError
      else Inr (db\<lparr>db_commands := db_commands db @ [cmd]\<rparr>))"

definition set_status :: "command_status \<Rightarrow> string option \<Rightarrow> datetime \<Rightarrow> intervention_command \<Rightarrow> intervention_command" where
  "set_status target reason updated_at c =
     c\<lparr>cm_status := target, cm_status_reason := reason, cm_updated_at := updated_at\<rparr>"

text \<open>\<open>UPDATE ... WHERE command_id = :id AND command_status = :expected\<close>; the flag says whether one row matched.\<close>

definition update_command_status_atomic ::
  "uuid \<Rightarrow> command_status \<Rightarrow> command_status \<Rightarrow> string option \<Rightarrow> datetime \<Rightarrow> ('a execution_db_scheme) \<Rightarrow>
   bool \<times> ('a execution_db_scheme)" where
  "update_command_status_atomic command_id expected_status target_status reason updated_at db =
     (let hit = (\<lambda>c. cm_command_id c = command_id \<and> cm_status c = expected_status)
      in (length (filter hit (db_commands db)) = 1,
          db\<lparr>db_commands := map (\<lambda>c. if hit c then set_status target_status reason updated_at c else c) (db_commands db)\<rparr>))"

text \<open>The unguarded update; no service calls it.\<close>

definition set_command_status ::
  "uuid \<Rightarrow> command_status \<Rightarrow> string option \<Rightarrow> datetime \<Rightarrow> ('a execution_db_scheme) \<Rightarrow> ('a execution_db_scheme)" where
  "set_command_status command_id target_status reason updated_at db =
     db\<lparr>db_commands := map (\<lambda>c. if cm_command_id c = command_id then set_status target_status reason updated_at c else c)
         (db_commands db)\<rparr>"

definition get_max_attempt_number :: "('a execution_db_scheme) \<Rightarrow> uuid \<Rightarrow> int" where
  "get_max_attempt_number db command_id =
     max_default 0 (map xa_attempt_number (filter (\<lambda>x. xa_command_id x = command_id) (db_exec_attempts db)))"

text \<open>
  The number is unique per command and the command exists: the service inserts one attempt, numbered one
  past the largest, with a fresh id, so the constraints of the table hold.
\<close>

definition insert_execution_attempt ::
  "execution_attempt \<Rightarrow> ('a execution_db_scheme) \<Rightarrow> ('a execution_db_scheme)" where
  "insert_execution_attempt x db = db\<lparr>db_exec_attempts := db_exec_attempts db @ [x]\<rparr>"

definition get_execution_attempts ::
  "('a execution_db_scheme) \<Rightarrow> uuid \<Rightarrow> (exn, execution_attempt list) result" where
  "get_execution_attempts db command_id =
     (let rows = sort_key xa_attempt_number (filter (\<lambda>x. xa_command_id x = command_id) (db_exec_attempts db)) in
      case get_command_by_id db command_id of
        None \<Rightarrow> Inr rows
      | Some cmd \<Rightarrow>
          if list_all (\<lambda>x. xa_source_system x = cm_source_system cmd) rows then Inr rows
          else Inl AttemptProviderConflictError)"

text \<open>The terminal events of an attempt ingested by \<open>as_of\<close>, with or without an explicit provider.\<close>

definition terminal_condition :: "string \<Rightarrow> datetime \<Rightarrow> string option \<Rightarrow> payment_event \<Rightarrow> bool" where
  "terminal_condition payment_attempt_id as_of source_system e \<longleftrightarrow>
     ev_ingested_at e \<le> as_of \<and>
     (case source_system of
        Some s \<Rightarrow>
          if s = PAYPAL_SOURCE_SYSTEM
          then (case paypal_order_id payment_attempt_id of None \<Rightarrow> False | Some r \<Rightarrow> paypal_terminal_events r e)
          else ev_payment_id e = payment_attempt_id \<and> is_terminal e \<and> ev_source_system e = s
      | None \<Rightarrow>
          (case paypal_order_id payment_attempt_id of
             Some r \<Rightarrow> paypal_terminal_events r e
           | None \<Rightarrow> ev_payment_id e = payment_attempt_id \<and> is_terminal e \<and> event_visible e))"

definition provider_guard :: "string option \<Rightarrow> (exn, unit) result" where
  "provider_guard source_system =
     (case source_system of None \<Rightarrow> Inr () | Some s \<Rightarrow> bind_result (validate_provider (Some s)) (\<lambda>_. Inr ()))"

definition check_terminal_event_exists_before ::
  "('a event_db_scheme) \<Rightarrow> string \<Rightarrow> datetime \<Rightarrow> string option \<Rightarrow> (exn, bool) result" where
  "check_terminal_event_exists_before db payment_attempt_id as_of source_system =
     bind_result (provider_guard source_system) (\<lambda>_.
       Inr (list_ex (terminal_condition payment_attempt_id as_of source_system) (db_events db)))"

definition get_canonical_terminal_events ::
  "('a event_db_scheme) \<Rightarrow> string \<Rightarrow> datetime \<Rightarrow> string option \<Rightarrow> (exn, payment_event list) result" where
  "get_canonical_terminal_events db payment_attempt_id as_of source_system =
     bind_result (provider_guard source_system) (\<lambda>_.
       Inr (sort_key ev_ingested_at
              (filter (terminal_condition payment_attempt_id as_of source_system) (db_events db))))"

definition get_max_observation_version :: "('a execution_db_scheme) \<Rightarrow> uuid \<Rightarrow> int" where
  "get_max_observation_version db command_id =
     max_default 0 (map ob_version (filter (\<lambda>o'. ob_command_id o' = command_id) (db_observations db)))"

definition append_observation :: "outcome_observation \<Rightarrow> ('a execution_db_scheme) \<Rightarrow> ('a execution_db_scheme)" where
  "append_observation o' db = db\<lparr>db_observations := db_observations db @ [o']\<rparr>"

text \<open>The constraints of \<open>payment_outcome_observations\<close>: id, version and instant are unique per command.\<close>

definition insert_payment_outcome_observation ::
  "outcome_observation \<Rightarrow> ('a execution_db_scheme) \<Rightarrow> (exn, 'a execution_db_scheme) result" where
  "insert_payment_outcome_observation o' db =
     (if list_ex (\<lambda>q. ob_observation_id q = ob_observation_id o' \<or>
            ob_command_id q = ob_command_id o' \<and> (ob_version q = ob_version o' \<or> ob_as_of q = ob_as_of o'))
          (db_observations db) \<or>
         \<not> joined_attempt db (ob_payment_attempt_id o') (ob_source_system o') \<or>
         \<not> list_ex (\<lambda>c. cm_command_id c = ob_command_id o' \<and> cm_source_system c = ob_source_system o') (db_commands db)
      then Inl IntegrityError else Inr (append_observation o' db))"

definition get_latest_observation ::
  "('a execution_db_scheme) \<Rightarrow> uuid \<Rightarrow> (exn, outcome_observation option) result" where
  "get_latest_observation db command_id =
     (case latest_by ob_version (filter (\<lambda>o'. ob_command_id o' = command_id) (db_observations db)) of
        None \<Rightarrow> Inr None
      | Some o' \<Rightarrow>
          (case get_command_by_id db command_id of
             None \<Rightarrow> Inr (Some o')
           | Some cmd \<Rightarrow>
               if ob_source_system o' \<noteq> cm_source_system cmd then Inl AttemptProviderConflictError
               else Inr (Some o')))"

definition get_all_observations ::
  "('a execution_db_scheme) \<Rightarrow> uuid \<Rightarrow> (exn, outcome_observation list) result" where
  "get_all_observations db command_id =
     (let rows = sort_key ob_version (filter (\<lambda>o'. ob_command_id o' = command_id) (db_observations db)) in
      case get_command_by_id db command_id of
        None \<Rightarrow> Inr rows
      | Some cmd \<Rightarrow>
          if list_all (\<lambda>o'. ob_source_system o' = cm_source_system cmd) rows then Inr rows
          else Inl AttemptProviderConflictError)"

section \<open>Creating a command\<close>

definition create_command ::
  "intervention_decision \<Rightarrow> int \<Rightarrow> datetime \<Rightarrow> ('a execution_db_scheme) \<Rightarrow>
   (exn, intervention_command \<times> ('a execution_db_scheme)) result" where
  "create_command decision expires_in_seconds now db =
     bind_result (require_that (de_type decision = ACT) InvalidDecisionForExecutionError) (\<lambda>_.
     bind_result (require_that (de_route decision \<noteq> None) InvalidDecisionForExecutionError) (\<lambda>_.
     bind_result (require_that (de_gate_verdict decision = PASSED) InvalidDecisionForExecutionError) (\<lambda>_.
     bind_result (for_key (de_source_system decision) (de_payment_attempt_id decision)) (\<lambda>ref.
     bind_result (require_attempt db ref) (\<lambda>_.
     case get_command_by_decision_id db (de_decision_id decision) of
       Some existing \<Rightarrow>
         if cm_source_system existing \<noteq> de_source_system decision then Inl AttemptProviderConflictError
         else Inr (existing, db)
     | None \<Rightarrow>
         bind_result (get_command_by_attempt_and_version db (de_payment_attempt_id decision) (de_version decision)
             (de_source_system decision)) (\<lambda>existing_version.
           case existing_version of
             Some c \<Rightarrow> Inr (c, db)
           | None \<Rightarrow>
               let cmd = \<lparr>cm_command_id = make_command_id (de_decision_id decision),
                          cm_decision_id = de_decision_id decision,
                          cm_payment_attempt_id = de_payment_attempt_id decision,
                          cm_source_system = de_source_system decision,
                          cm_decision_version = de_version decision,
                          cm_route_key = the (de_route decision), cm_policy_id = de_policy_id decision,
                          cm_policy_version = de_policy_version decision, cm_status = PENDING,
                          cm_status_reason = None,
                          cm_idempotency_key = chars ''cmd_'' @ [UuidStr (de_decision_id decision)],
                          cm_created_at = now, cm_expires_at = now + seconds expires_in_seconds,
                          cm_updated_at = now\<rparr>
               in bind_result (insert_command cmd db) (\<lambda>db'. Inr (cmd, db'))))))))"

section \<open>Executing a command\<close>

definition new_attempt ::
  "uuid \<Rightarrow> datetime \<Rightarrow> int \<Rightarrow> intervention_command \<Rightarrow> execution_result \<Rightarrow> execution_attempt" where
  "new_attempt attempt_id claim_time attempt_number cmd r =
     (let attempt_end = claim_time + milliseconds (xr_duration_ms r) in
      \<lparr>xa_attempt_id = attempt_id, xa_command_id = cm_command_id cmd, xa_source_system = cm_source_system cmd,
       xa_attempt_number = attempt_number, xa_started_at = claim_time, xa_completed_at = attempt_end,
       xa_duration_ms = xr_duration_ms r, xa_status = xr_status r, xa_executor_name = xr_executor_name r,
       xa_is_simulation = xr_is_simulation r, xa_action_type = xr_action_type r,
       xa_response_code = xr_response_code r, xa_response_payload = xr_response_payload r,
       xa_error_message = xr_error_message r, xa_created_at = attempt_end\<rparr>)"

text \<open>The final status and its reason.\<close>

definition final_status :: "execution_result \<Rightarrow> command_status \<times> string option" where
  "final_status r =
     (if xr_status r = SUCCESS then (SUCCEEDED, None)
      else (COMMAND_FAILED,
            if xr_status r = TIMEOUT then Some ''EXECUTOR_TIMEOUT''
            else Some (if truthy (xr_error_message r) then the (xr_error_message r) else ''EXECUTOR_FAILURE'')))"

definition finalize ::
  "datetime \<Rightarrow> uuid \<Rightarrow> execution_result \<Rightarrow> ('a execution_db_scheme) \<Rightarrow> ('a execution_db_scheme)" where
  "finalize claim_time command_id r db =
     (case final_status r of (target, reason) \<Rightarrow>
        snd (update_command_status_atomic command_id EXECUTING target reason
               (claim_time + milliseconds (xr_duration_ms r)) db))"

definition refetch :: "('a execution_db_scheme) \<Rightarrow> uuid \<Rightarrow> intervention_command \<Rightarrow> intervention_command" where
  "refetch db command_id cmd = (case get_command_by_id db command_id of None \<Rightarrow> cmd | Some c \<Rightarrow> c)"

definition require_command_attempt ::
  "('a execution_db_scheme) \<Rightarrow> intervention_command \<Rightarrow> (exn, registered_attempt) result" where
  "require_command_attempt db cmd =
     bind_result (for_key (cm_source_system cmd) (cm_payment_attempt_id cmd)) (require_attempt db)"

text \<open>
  One undisturbed run, as the code has it. An exception rolls the transaction back; the barrier asks for
  terminal events without naming the provider.
\<close>

definition execute_command ::
  "(intervention_command \<Rightarrow> json \<Rightarrow> execution_result) \<Rightarrow> uuid \<Rightarrow> json \<Rightarrow> datetime \<Rightarrow> uuid \<Rightarrow>
   ('a execution_db_scheme) \<Rightarrow> (exn, intervention_command \<times> ('a execution_db_scheme)) result" where
  "execute_command executor attempt_id context_data claim_time command_id db =
     (case get_command_by_id db command_id of
        None \<Rightarrow> Inl CommandNotFoundError
      | Some cmd \<Rightarrow>
          bind_result (require_command_attempt db cmd) (\<lambda>_.
          if cm_status cmd \<noteq> PENDING then Inr (cmd, db)
          else if cm_expires_at cmd \<le> claim_time then
            bind_result (validate_transition (cm_status cmd) EXPIRED) (\<lambda>_.
              let db1 = snd (update_command_status_atomic command_id PENDING EXPIRED
                               (Some ''COMMAND_EXPIRED_BEFORE_DISPATCH'') claim_time db)
              in Inr (refetch db1 command_id cmd, db1))
          else bind_result (check_terminal_event_exists_before db (cm_payment_attempt_id cmd) claim_time None) (\<lambda>terminal_exists.
          if terminal_exists then
            bind_result (validate_transition (cm_status cmd) NOT_NEEDED) (\<lambda>_.
              let db1 = snd (update_command_status_atomic command_id PENDING NOT_NEEDED
                               (Some ''TERMINAL_OUTCOME_ALREADY_INGESTED'') claim_time db)
              in Inr (refetch db1 command_id cmd, db1))
          else
            bind_result (validate_transition (cm_status cmd) EXECUTING) (\<lambda>_.
            case update_command_status_atomic command_id PENDING EXECUTING None claim_time db of (claimed, db1) \<Rightarrow>
              if \<not> claimed then Inr (refetch db1 command_id cmd, db1)
              else case get_command_by_id db1 command_id of
                None \<Rightarrow> Inl AssertionError
              | Some cmd1 \<Rightarrow>
                  let r = executor cmd1 context_data;
                      db2 = insert_execution_attempt
                        (new_attempt attempt_id claim_time (get_max_attempt_number db1 command_id + 1) cmd1 r) db1;
                      db3 = finalize claim_time command_id r db2
                  in case get_command_by_id db3 command_id of
                       None \<Rightarrow> Inl AssertionError
                     | Some cmd2 \<Rightarrow> Inr (cmd2, db3)))))"

section \<open>Workers in any interleaving\<close>

text \<open>
  The same code with every statement that touches the database as one step. The claim is optimistic, so
  nothing is assumed of the advisory lock. A read is a read of the tables; rows cached by a session are not
  modelled.
\<close>

datatype worker_pc =
    Start
  | Fetched intervention_command
  | Clear intervention_command
  | Claimed
  | Dispatched intervention_command execution_result
  | Recorded execution_result
  | Refetch intervention_command
  | Final
  | Finished "(exn, intervention_command) result"

record worker =
  wk_command :: uuid
  wk_context :: json
  wk_claim_time :: datetime
  wk_attempt_id :: uuid
  wk_pc :: worker_pc

text \<open>The worker's next position, the database, and whether the step called the executor.\<close>

definition worker_step ::
  "(intervention_command \<Rightarrow> json \<Rightarrow> execution_result) \<Rightarrow> worker \<Rightarrow> ('a execution_db_scheme) \<Rightarrow>
   worker_pc \<times> ('a execution_db_scheme) \<times> bool" where
  "worker_step executor w db =
     (let i = wk_command w; t = wk_claim_time w in
      case wk_pc w of
        Start \<Rightarrow>
          (case get_command_by_id db i of
             None \<Rightarrow> (Finished (Inl CommandNotFoundError), db, False)
           | Some cmd \<Rightarrow>
               (case require_command_attempt db cmd of
                  Inl e \<Rightarrow> (Finished (Inl e), db, False)
                | Inr _ \<Rightarrow>
                    (if cm_status cmd \<noteq> PENDING then Finished (Inr cmd) else Fetched cmd, db, False)))
      | Fetched cmd \<Rightarrow>
          if cm_expires_at cmd \<le> t
          then (Refetch cmd, snd (update_command_status_atomic i PENDING EXPIRED
                  (Some ''COMMAND_EXPIRED_BEFORE_DISPATCH'') t db), False)
          else (case check_terminal_event_exists_before db (cm_payment_attempt_id cmd) t None of
                  Inl e \<Rightarrow> (Finished (Inl e), db, False)
                | Inr terminal_exists \<Rightarrow>
                    if terminal_exists
                    then (Refetch cmd, snd (update_command_status_atomic i PENDING NOT_NEEDED
                            (Some ''TERMINAL_OUTCOME_ALREADY_INGESTED'') t db), False)
                    else (Clear cmd, db, False))
      | Clear cmd \<Rightarrow>
          (case update_command_status_atomic i PENDING EXECUTING None t db of
             (claimed, db') \<Rightarrow> (if claimed then Claimed else Refetch cmd, db', False))
      | Claimed \<Rightarrow>
          (case get_command_by_id db i of
             None \<Rightarrow> (Finished (Inl AssertionError), db, False)
           | Some cmd \<Rightarrow> (Dispatched cmd (executor cmd (wk_context w)), db, True))
      | Dispatched cmd r \<Rightarrow>
          (Recorded r, insert_execution_attempt
             (new_attempt (wk_attempt_id w) t (get_max_attempt_number db i + 1) cmd r) db, False)
      | Recorded r \<Rightarrow> (Final, finalize t i r db, False)
      | Refetch cmd \<Rightarrow> (Finished (Inr (refetch db i cmd)), db, False)
      | Final \<Rightarrow>
          (case get_command_by_id db i of
             None \<Rightarrow> (Finished (Inl AssertionError), db, False)
           | Some cmd \<Rightarrow> (Finished (Inr cmd), db, False))
      | Finished res \<Rightarrow> (Finished res, db, False))"

text \<open>
  A system is the database, the workers and the commands handed to the executor, in order. Besides the
  workers' steps, commands are created, workers start, and the other stages change their tables.
\<close>

record system =
  sy_db :: execution_db
  sy_workers :: "worker list"
  sy_dispatched :: "uuid list"

inductive system_step :: "(intervention_command \<Rightarrow> json \<Rightarrow> execution_result) \<Rightarrow> system \<Rightarrow> system \<Rightarrow> bool"
  for executor where
  work: "k < length (sy_workers s) \<Longrightarrow>
    worker_step executor (sy_workers s ! k) (sy_db s) = (pc, db', called) \<Longrightarrow>
    system_step executor s
      \<lparr>sy_db = db', sy_workers = (sy_workers s)[k := (sy_workers s ! k)\<lparr>wk_pc := pc\<rparr>],
       sy_dispatched = sy_dispatched s @ (if called then [wk_command (sy_workers s ! k)] else [])\<rparr>"
| spawn: "wk_pc w = Start \<Longrightarrow> system_step executor s (s\<lparr>sy_workers := sy_workers s @ [w]\<rparr>)"
| create: "create_command d n now (sy_db s) = Inr (c, db') \<Longrightarrow> system_step executor s (s\<lparr>sy_db := db'\<rparr>)"
| others: "db_commands db' = db_commands (sy_db s) \<Longrightarrow> db_exec_attempts db' = db_exec_attempts (sy_db s) \<Longrightarrow>
    system_step executor s (s\<lparr>sy_db := db'\<rparr>)"

inductive_cases system_stepE: "system_step executor s s'"

inductive reachable :: "(intervention_command \<Rightarrow> json \<Rightarrow> execution_result) \<Rightarrow> system \<Rightarrow> bool" for executor where
  init: "db_commands db = [] \<Longrightarrow> db_exec_attempts db = [] \<Longrightarrow>
    reachable executor \<lparr>sy_db = db, sy_workers = [], sy_dispatched = []\<rparr>"
| step: "reachable executor s \<Longrightarrow> system_step executor s s' \<Longrightarrow> reachable executor s'"

section \<open>Lemmas\<close>

lemma set_status_simps [simp]:
  "cm_command_id (set_status st r t c) = cm_command_id c" "cm_status (set_status st r t c) = st"
  "cm_decision_id (set_status st r t c) = cm_decision_id c" "cm_source_system (set_status st r t c) = cm_source_system c"
  "cm_payment_attempt_id (set_status st r t c) = cm_payment_attempt_id c"
  by (simp_all add: set_status_def)

lemma find_map_id:
  assumes "\<And>x. key (f x) = key x"
  shows "find (\<lambda>x. key x = k) (map f xs) = map_option f (find (\<lambda>x. key x = k) xs)"
  by (induction xs) (auto simp: assms)

text \<open>An optimistic update on one command.\<close>

definition advance :: "command_status \<Rightarrow> command_status \<Rightarrow> string option \<Rightarrow> datetime \<Rightarrow> intervention_command \<Rightarrow> intervention_command" where
  "advance expected target reason t c = (if cm_status c = expected then set_status target reason t c else c)"

lemma get_after_update:
  "get_command_by_id (snd (update_command_status_atomic i expected target reason t db)) c =
     (if c = i then map_option (advance expected target reason t) (get_command_by_id db c)
      else get_command_by_id db c)"
proof -
  let ?f = "\<lambda>c. if cm_command_id c = i \<and> cm_status c = expected then set_status target reason t c else c"
  have "get_command_by_id (snd (update_command_status_atomic i expected target reason t db)) c =
      map_option ?f (get_command_by_id db c)"
    by (simp add: get_command_by_id_def update_command_status_atomic_def Let_def find_map_id)
  moreover have "get_command_by_id db c = Some x \<Longrightarrow> cm_command_id x = c" for x
    by (auto simp: get_command_by_id_def dest: find_SomeD)
  ultimately show ?thesis by (auto simp: advance_def option.map_ident cong: map_option_cong)
qed

lemma update_frame [simp]:
  "map cm_command_id (db_commands (snd (update_command_status_atomic i e g r t db))) = map cm_command_id (db_commands db)"
  "db_exec_attempts (snd (update_command_status_atomic i e g r t db)) = db_exec_attempts db"
  "db_events (snd (update_command_status_atomic i e g r t db)) = db_events db"
  "db_attempts (snd (update_command_status_atomic i e g r t db)) = db_attempts db"
  by (auto simp: update_command_status_atomic_def Let_def)

lemma filter_unique_key:
  "distinct (map key xs) \<Longrightarrow> filter (\<lambda>x. key x = k) xs = (case find (\<lambda>x. key x = k) xs of None \<Rightarrow> [] | Some x \<Rightarrow> [x])"
proof (induction xs)
  case (Cons a xs)
  from Cons.prems have "key a = k \<Longrightarrow> filter (\<lambda>x. key x = k) xs = []" by (auto simp: filter_empty_conv image_iff)
  with Cons.IH Cons.prems show ?case by (cases "key a = k") (simp_all del: filter_True)
qed simp

lemma claimed_iff:
  assumes "distinct (map cm_command_id (db_commands db))"
  shows "fst (update_command_status_atomic i expected target reason t db) \<longleftrightarrow>
     map_option cm_status (get_command_by_id db i) = Some expected"
proof -
  have "filter (\<lambda>c. cm_command_id c = i \<and> cm_status c = expected) (db_commands db) =
      filter (\<lambda>c. cm_status c = expected) (filter (\<lambda>c. cm_command_id c = i) (db_commands db))"
    by (auto intro!: filter_cong)
  with filter_unique_key[OF assms, of i] show ?thesis
    by (auto simp: update_command_status_atomic_def Let_def get_command_by_id_def split: option.splits)
qed

lemma insert_attempt_frame [simp]:
  "db_commands (insert_execution_attempt x db) = db_commands db"
  "db_exec_attempts (insert_execution_attempt x db) = db_exec_attempts db @ [x]"
  "get_command_by_id (insert_execution_attempt x db) c = get_command_by_id db c"
  by (simp_all add: insert_execution_attempt_def get_command_by_id_def)

lemma finalize_simps [simp]:
  "get_command_by_id (finalize t i r db) c =
     (if c = i then map_option (advance EXECUTING (fst (final_status r)) (snd (final_status r))
                      (t + milliseconds (xr_duration_ms r))) (get_command_by_id db c)
      else get_command_by_id db c)"
  "map cm_command_id (db_commands (finalize t i r db)) = map cm_command_id (db_commands db)"
  "db_exec_attempts (finalize t i r db) = db_exec_attempts db"
  by (simp_all add: finalize_def get_after_update split: prod.splits)

lemma new_attempt_simps [simp]: "xa_command_id (new_attempt a t n cmd r) = cm_command_id cmd"
  by (simp add: new_attempt_def Let_def)

section \<open>The execution invariant\<close>

text \<open>
  A worker that claimed its command holds it until it has written the result: position 0 before the
  dispatch, 1 after it, 2 when the attempt is recorded.
\<close>

fun hold_stage :: "worker_pc \<Rightarrow> nat option" where
  "hold_stage Claimed = Some 0"
| "hold_stage (Dispatched cmd r) = Some 1"
| "hold_stage (Recorded r) = Some 2"
| "hold_stage _ = None"

definition holders :: "worker list \<Rightarrow> uuid \<Rightarrow> nat list" where
  "holders ws c = concat (map (\<lambda>w. if wk_command w = c then (case hold_stage (wk_pc w) of None \<Rightarrow> [] | Some n \<Rightarrow> [n]) else []) ws)"

lemma holders_simps [simp]:
  "holders [] c = []"
  "holders (vs @ ws) c = holders vs c @ holders ws c"
  "holders (w # ws) c =
     (if wk_command w = c then (case hold_stage (wk_pc w) of None \<Rightarrow> [] | Some n \<Rightarrow> [n]) else []) @ holders ws c"
  by (simp_all add: holders_def)

definition command_count :: "('a execution_db_scheme) \<Rightarrow> uuid \<Rightarrow> nat" where
  "command_count db c = length (filter (\<lambda>x. xa_command_id x = c) (db_exec_attempts db))"

text \<open>
  Status of a command, stages of the workers that hold it, number of dispatches and number of recorded
  attempts: the combinations that occur.
\<close>

definition execution_states :: "(command_status option \<times> nat list \<times> nat \<times> nat) set" where
  "execution_states =
     {(None, [], 0, 0), (Some PENDING, [], 0, 0),
      (Some EXECUTING, [0], 0, 0), (Some EXECUTING, [1], 1, 0), (Some EXECUTING, [2], 1, 1),
      (Some SUCCEEDED, [], 1, 1), (Some COMMAND_FAILED, [], 1, 1),
      (Some EXPIRED, [], 0, 0), (Some NOT_NEEDED, [], 0, 0)}"

lemma execution_states_iff:
  "(None, hs, n, a) \<in> execution_states \<longleftrightarrow> hs = [] \<and> n = 0 \<and> a = 0"
  "(Some PENDING, hs, n, a) \<in> execution_states \<longleftrightarrow> hs = [] \<and> n = 0 \<and> a = 0"
  "(Some EXECUTING, hs, n, a) \<in> execution_states \<longleftrightarrow>
     hs = [0] \<and> n = 0 \<and> a = 0 \<or> hs = [1] \<and> n = 1 \<and> a = 0 \<or> hs = [2] \<and> n = 1 \<and> a = 1"
  "(Some SUCCEEDED, hs, n, a) \<in> execution_states \<longleftrightarrow> hs = [] \<and> n = 1 \<and> a = 1"
  "(Some COMMAND_FAILED, hs, n, a) \<in> execution_states \<longleftrightarrow> hs = [] \<and> n = 1 \<and> a = 1"
  "(Some EXPIRED, hs, n, a) \<in> execution_states \<longleftrightarrow> hs = [] \<and> n = 0 \<and> a = 0"
  "(Some NOT_NEEDED, hs, n, a) \<in> execution_states \<longleftrightarrow> hs = [] \<and> n = 0 \<and> a = 0"
  by (simp_all add: execution_states_def)

text \<open>A command that is held is executing.\<close>

lemma held_executing:
  assumes "(st, A @ m # B, n, a) \<in> execution_states"
  shows "st = Some EXECUTING \<and> A = [] \<and> B = [] \<and> (m = 0 \<and> n = 0 \<and> a = 0 \<or> m = 1 \<and> n = 1 \<and> a = 0 \<or> m = 2 \<and> n = 1 \<and> a = 1)"
proof (cases st)
  case (Some s)
  with assms show ?thesis by (cases s) (auto simp: execution_states_iff append_eq_Cons_conv)
qed (use assms in \<open>simp add: execution_states_iff\<close>)

definition execution_state :: "system \<Rightarrow> uuid \<Rightarrow> command_status option \<times> nat list \<times> nat \<times> nat" where
  "execution_state s c =
     (map_option cm_status (get_command_by_id (sy_db s) c), holders (sy_workers s) c,
      count_list (sy_dispatched s) c, command_count (sy_db s) c)"

definition worker_ok :: "worker \<Rightarrow> bool" where
  "worker_ok w \<longleftrightarrow> (case wk_pc w of Dispatched cmd r \<Rightarrow> cm_command_id cmd = wk_command w | _ \<Rightarrow> True)"

definition system_ok :: "system \<Rightarrow> bool" where
  "system_ok s \<longleftrightarrow>
     distinct (map cm_command_id (db_commands (sy_db s))) \<and> list_all worker_ok (sy_workers s) \<and>
     (\<forall>c. execution_state s c \<in> execution_states)"

lemma get_command_id: "get_command_by_id db i = Some c \<Longrightarrow> cm_command_id c = i"
  by (auto simp: get_command_by_id_def dest: find_SomeD)

text \<open>What a worker's step does to a command of its own and to others.\<close>

lemma worker_step_other:
  assumes "worker_step executor w db = (pc, db', called)" "worker_ok w" "c \<noteq> wk_command w"
  shows "get_command_by_id db' c = get_command_by_id db c \<and> command_count db' c = command_count db c"
  using assms
  by (auto simp: worker_step_def Let_def get_after_update command_count_def worker_ok_def prod.case_eq_if
      split: worker_pc.splits option.splits sum.splits if_splits)


lemma worker_step_ids:
  "worker_step executor w db = (pc, db', called) \<Longrightarrow>
     map cm_command_id (db_commands db') = map cm_command_id (db_commands db)"
  by (auto simp: worker_step_def Let_def prod.case_eq_if split: worker_pc.splits option.splits sum.splits if_splits)

lemma worker_step_ok:
  assumes "worker_step executor w db = (pc, db', called)"
  shows "worker_ok (w\<lparr>wk_pc := pc\<rparr>)"
  using assms get_command_id
  by (fastforce simp: worker_ok_def worker_step_def Let_def prod.case_eq_if
      split: worker_pc.splits option.splits sum.splits if_splits)

text \<open>The step of a worker moves the state of its own command within the allowed combinations.\<close>

lemma worker_step_state:
  assumes step: "worker_step executor w db = (pc, db', called)" and ok: "worker_ok w"
    and ids: "distinct (map cm_command_id (db_commands db))" and i: "i = wk_command w"
    and before: "(map_option cm_status (get_command_by_id db i),
       A @ (case hold_stage (wk_pc w) of None \<Rightarrow> [] | Some n \<Rightarrow> [n]) @ B, n, command_count db i) \<in> execution_states"
  shows "(map_option cm_status (get_command_by_id db' i),
       A @ (case hold_stage pc of None \<Rightarrow> [] | Some n \<Rightarrow> [n]) @ B, n + (if called then 1 else 0), command_count db' i)
       \<in> execution_states"
proof -
  have update: "(map_option cm_status (get_command_by_id (snd (update_command_status_atomic i PENDING target r t db)) i), A @ B, n,
      command_count (snd (update_command_status_atomic i PENDING target r t db)) i) \<in> execution_states"
    if "(map_option cm_status (get_command_by_id db i), A @ B, n, command_count db i) \<in> execution_states"
      "target \<in> {EXPIRED, NOT_NEEDED}" for target r t
    using that by (cases "get_command_by_id db i")
      (auto simp: get_after_update advance_def command_count_def execution_states_iff)
  show ?thesis
  proof (cases "wk_pc w")
    case Start
    with step i before show ?thesis
      by (auto simp: worker_step_def Let_def split: option.splits sum.splits if_splits)
  next
    case (Fetched cmd)
    with before have "(map_option cm_status (get_command_by_id db i), A @ B, n, command_count db i) \<in> execution_states"
      by simp
    with Fetched step i before update show ?thesis
      by (auto simp: worker_step_def Let_def split: sum.splits if_splits)
  next
    case (Clear cmd)
    let ?u = "update_command_status_atomic i PENDING EXECUTING None (wk_claim_time w) db"
    from Clear step i have u: "db' = snd ?u" "pc = (if fst ?u then Claimed else Refetch cmd)" "\<not> called"
      by (auto simp: worker_step_def Let_def prod.case_eq_if)
    show ?thesis
    proof (cases "get_command_by_id db i")
      case None
      with u Clear before claimed_iff[OF ids, of i PENDING EXECUTING None "wk_claim_time w"] show ?thesis
        by (simp add: get_after_update command_count_def)
    next
      case (Some x)
      with u Clear before claimed_iff[OF ids, of i PENDING EXECUTING None "wk_claim_time w"] show ?thesis
        by (cases "cm_status x = PENDING")
          (auto simp: get_after_update advance_def command_count_def execution_states_iff)
    qed
  next
    case Claimed
    with before have "map_option cm_status (get_command_by_id db i) = Some EXECUTING \<and> A = [] \<and> B = [] \<and> n = 0 \<and>
        command_count db i = 0" using held_executing[of _ A 0 B] by fastforce
    with Claimed step i show ?thesis
      by (auto simp: worker_step_def Let_def execution_states_iff)
  next
    case (Dispatched cmd r)
    with before have "map_option cm_status (get_command_by_id db i) = Some EXECUTING \<and> A = [] \<and> B = [] \<and> n = 1 \<and>
        command_count db i = 0" using held_executing[of _ A 1 B] by fastforce
    with Dispatched step i ok show ?thesis
      by (auto simp: worker_step_def Let_def execution_states_iff command_count_def worker_ok_def)
  next
    case (Recorded r)
    with before have "map_option cm_status (get_command_by_id db i) = Some EXECUTING \<and> A = [] \<and> B = [] \<and> n = 1 \<and>
        command_count db i = 1" using held_executing[of _ A 2 B] by fastforce
    with Recorded step i show ?thesis
      by (auto simp: worker_step_def Let_def execution_states_iff command_count_def advance_def final_status_def)
  next
    case (Refetch cmd)
    with step i before show ?thesis by (auto simp: worker_step_def Let_def)
  next
    case Final
    with step i before show ?thesis by (auto simp: worker_step_def Let_def split: option.splits)
  next
    case (Finished res)
    with step i before show ?thesis by (auto simp: worker_step_def Let_def)
  qed
qed


lemma create_command_cases:
  assumes "create_command d n now db = Inr (c, db')"
  shows "db' = db \<or>
     (db' = db\<lparr>db_commands := db_commands db @ [c]\<rparr> \<and> cm_status c = PENDING \<and>
      cm_command_id c \<notin> cm_command_id ` set (db_commands db))"
  using assms
  by (auto simp: create_command_def insert_command_def Let_def bind_result_def list_ex_iff
      split: sum.splits option.splits if_splits)

lemma execution_state_create:
  assumes "system_ok s" "db' = (sy_db s)\<lparr>db_commands := db_commands (sy_db s) @ [c]\<rparr>" "cm_status c = PENDING"
    "cm_command_id c \<notin> cm_command_id ` set (db_commands (sy_db s))"
  shows "system_ok (s\<lparr>sy_db := db'\<rparr>)"
proof -
  have none: "get_command_by_id (sy_db s) (cm_command_id c) = None"
    using assms(4) by (auto simp: get_command_by_id_def find_None_iff image_iff)
  have find_append: "find P (xs @ [y]) = (case find P xs of None \<Rightarrow> if P y then Some y else None | Some x \<Rightarrow> Some x)"
    for P and xs :: "intervention_command list" and y by (induction xs) auto
  have get: "get_command_by_id db' i =
      (if i = cm_command_id c then Some c else get_command_by_id (sy_db s) i)" for i
    using none by (auto simp: get_command_by_id_def assms(2) find_append split: option.splits)
  have attempts: "db_exec_attempts db' = db_exec_attempts (sy_db s)" by (simp add: assms(2))
  have "execution_state s (cm_command_id c) \<in> execution_states" using assms(1) by (simp add: system_ok_def)
  then have "execution_state (s\<lparr>sy_db := db'\<rparr>) (cm_command_id c) \<in> execution_states"
    by (simp add: execution_state_def none get assms(3) execution_states_iff command_count_def attempts)
  moreover have "execution_state (s\<lparr>sy_db := db'\<rparr>) i = execution_state s i" if "i \<noteq> cm_command_id c" for i
    using that by (simp add: execution_state_def get command_count_def attempts)
  ultimately have "execution_state (s\<lparr>sy_db := db'\<rparr>) i \<in> execution_states" for i
    using assms(1) by (cases "i = cm_command_id c") (simp_all add: system_ok_def)
  moreover have "distinct (map cm_command_id (db_commands db'))" "list_all worker_ok (sy_workers s)"
    using assms(1,4) by (simp_all add: system_ok_def assms(2))
  ultimately show ?thesis by (simp add: system_ok_def)
qed

lemma system_ok_work:
  assumes ok: "system_ok s" and k: "k < length (sy_workers s)" and w: "w = sy_workers s ! k"
    and step: "worker_step executor w (sy_db s) = (pc, db', called)"
  shows "system_ok \<lparr>sy_db = db', sy_workers = (sy_workers s)[k := w\<lparr>wk_pc := pc\<rparr>],
       sy_dispatched = sy_dispatched s @ (if called then [wk_command w] else [])\<rparr>" (is "system_ok ?s'")
proof -
  let ?A = "take k (sy_workers s)" and ?B = "drop (Suc k) (sy_workers s)"
  have before: "sy_workers s = ?A @ w # ?B" using k w by (simp add: id_take_nth_drop[symmetric])
  have after: "sy_workers ?s' = ?A @ w\<lparr>wk_pc := pc\<rparr> # ?B" using k by (simp add: upd_conv_take_nth_drop)
  have wok: "worker_ok w" and ids: "distinct (map cm_command_id (db_commands (sy_db s)))"
    using ok k w by (auto simp: system_ok_def list_all_length)
  have other: "execution_state ?s' c = execution_state s c" if "c \<noteq> wk_command w" for c
    using worker_step_other[OF step wok that] that
    by (subst (1 2) execution_state_def, subst after, subst before) simp
  have "execution_state s (wk_command w) \<in> execution_states" using ok by (simp add: system_ok_def)
  then have own: "execution_state ?s' (wk_command w) \<in> execution_states"
    using worker_step_state[OF step wok ids refl, of "holders ?A (wk_command w)" "holders ?B (wk_command w)"
        "count_list (sy_dispatched s) (wk_command w)"]
    unfolding execution_state_def by (subst (asm) before, subst after) (cases called, simp_all)
  have "list_all worker_ok (sy_workers s)" using ok by (simp add: system_ok_def)
  then have "list_all worker_ok (sy_workers ?s')"
    by (subst after, subst (asm) before) (use worker_step_ok[OF step] in simp)
  moreover have "distinct (map cm_command_id (db_commands (sy_db ?s')))"
    using worker_step_ids[OF step] ids by simp
  ultimately show ?thesis unfolding system_ok_def using own other ok
    by (metis system_ok_def)
qed

lemma system_ok_step:
  assumes "system_step executor s s'" "system_ok s"
  shows "system_ok s'"
  using assms(1)
proof (rule system_stepE, goal_cases)
  case (1 k pc db' called)
  then show ?case using system_ok_work[OF assms(2), of k _ executor pc db' called] by simp
next
  case (2 w)
  then show ?case using assms(2) by (simp add: system_ok_def execution_state_def worker_ok_def)
next
  case (3 d n now c db')
  with create_command_cases[of d n now "sy_db s" c db'] execution_state_create[OF assms(2), of db' c] assms(2)
  show ?case by auto
next
  case (4 db')
  then show ?case using assms(2)
    by (simp add: system_ok_def execution_state_def get_command_by_id_def command_count_def)
qed

lemma reachable_ok: "reachable executor s \<Longrightarrow> system_ok s"
proof (induction rule: reachable.induct)
  case (init db)
  then show ?case
    by (simp add: system_ok_def execution_state_def get_command_by_id_def command_count_def execution_states_iff)
next
  case (step s s')
  then show ?case using system_ok_step by blast
qed


text \<open>What a worker's step does to the commands: nothing, or one legal transition of its own.\<close>

lemma legal_transitions:
  "can_transition PENDING EXECUTING" "can_transition PENDING EXPIRED" "can_transition PENDING NOT_NEEDED"
  "can_transition EXECUTING (fst (final_status q))"
  by (simp_all add: can_transition_def LEGAL_TRANSITIONS_def final_status_def)

lemma worker_step_updates:
  assumes "worker_step executor w db = (pc, db', called)"
  shows "db_commands db' = db_commands db \<or>
     (\<exists>e g r t. can_transition e g \<and> db' = snd (update_command_status_atomic (wk_command w) e g r t db))"
proof (cases "wk_pc w")
  case (Recorded r)
  with assms have "db' = snd (update_command_status_atomic (wk_command w) EXECUTING (fst (final_status r))
      (snd (final_status r)) (wk_claim_time w + milliseconds (xr_duration_ms r)) db)"
    by (simp add: worker_step_def Let_def finalize_def prod.case_eq_if)
  then show ?thesis using legal_transitions(4) by blast
next
  case (Fetched cmd)
  with assms have "db' = db \<or> (\<exists>g r t. g \<in> {EXPIRED, NOT_NEEDED} \<and> db' = snd (update_command_status_atomic (wk_command w) PENDING g r t db))"
    by (auto simp: worker_step_def Let_def split: sum.splits if_splits)
  then show ?thesis using legal_transitions by blast
next
  case (Clear cmd)
  with assms have "db' = snd (update_command_status_atomic (wk_command w) PENDING EXECUTING None (wk_claim_time w) db)"
    by (auto simp: worker_step_def Let_def prod.case_eq_if)
  then show ?thesis using legal_transitions by blast
qed (use assms in \<open>auto simp: worker_step_def Let_def split: option.splits sum.splits if_splits\<close>)

lemma worker_step_commands:
  assumes "worker_step executor w db = (pc, db', called)"
  shows "get_command_by_id db' c = get_command_by_id db c \<or>
     (\<exists>e g r t. can_transition e g \<and> get_command_by_id db' c = map_option (advance e g r t) (get_command_by_id db c))"
  using worker_step_updates[OF assms]
proof (elim disjE exE conjE)
  assume "db_commands db' = db_commands db"
  then show ?thesis by (simp add: get_command_by_id_def)
next
  fix e g r t
  assume "can_transition e g" "db' = snd (update_command_status_atomic (wk_command w) e g r t db)"
  then show ?thesis by (cases "c = wk_command w") (auto simp: get_after_update)
qed

section \<open>Schedules\<close>

text \<open>A run along a schedule; an action that does not apply is skipped.\<close>

datatype action = Work nat | Spawn uuid json datetime uuid | Create intervention_decision int datetime

definition perform :: "(intervention_command \<Rightarrow> json \<Rightarrow> execution_result) \<Rightarrow> action \<Rightarrow> system \<Rightarrow> system" where
  "perform executor a s =
     (case a of
        Work k \<Rightarrow>
          if k < length (sy_workers s)
          then (case worker_step executor (sy_workers s ! k) (sy_db s) of
                  (pc, db', called) \<Rightarrow>
                    \<lparr>sy_db = db', sy_workers = (sy_workers s)[k := (sy_workers s ! k)\<lparr>wk_pc := pc\<rparr>],
                     sy_dispatched = sy_dispatched s @ (if called then [wk_command (sy_workers s ! k)] else [])\<rparr>)
          else s
      | Spawn i ctx t x \<Rightarrow>
          s\<lparr>sy_workers := sy_workers s @
            [\<lparr>wk_command = i, wk_context = ctx, wk_claim_time = t, wk_attempt_id = x, wk_pc = Start\<rparr>]\<rparr>
      | Create d n now \<Rightarrow>
          (case create_command d n now (sy_db s) of Inl e \<Rightarrow> s | Inr (c, db') \<Rightarrow> s\<lparr>sy_db := db'\<rparr>))"

lemma perform_step: "perform executor a s = s \<or> system_step executor s (perform executor a s)"
proof (cases a)
  case (Work k)
  obtain pc db' called where st: "worker_step executor (sy_workers s ! k) (sy_db s) = (pc, db', called)"
    by (metis prod_cases3)
  show ?thesis
    using system_step.work[OF _ st] by (simp add: perform_def Work st)
next
  case (Spawn i ctx t x)
  then show ?thesis by (simp add: perform_def system_step.spawn)
next
  case (Create d n now)
  then show ?thesis by (auto simp: perform_def system_step.create split: sum.splits)
qed

lemma run_reachable: "reachable executor s \<Longrightarrow> reachable executor (fold (perform executor) schedule s)"
proof (induction schedule arbitrary: s)
  case (Cons a schedule)
  have "reachable executor (perform executor a s)"
    using perform_step[of executor a s] Cons.prems by (metis reachable.step)
  with Cons.IH show ?case by simp
qed simp

section \<open>Theorems\<close>


text \<open>C18: Every step of the system refines the lifecycle of each command: the command is unchanged, or its
  status makes a legal transition of the state machine and only status, reason and update time differ; a
  new command is PENDING and no command disappears.\<close>
theorem system_step_refines_lifecycle:
  assumes "system_step executor s s'"
  shows "case get_command_by_id (sy_db s) c of
           None \<Rightarrow> (case get_command_by_id (sy_db s') c of None \<Rightarrow> True | Some y \<Rightarrow> cm_status y = PENDING)
         | Some x \<Rightarrow>
             (case get_command_by_id (sy_db s') c of None \<Rightarrow> False
              | Some y \<Rightarrow> y = x \<or>
                  can_transition (cm_status x) (cm_status y) \<and>
                  y = set_status (cm_status y) (cm_status_reason y) (cm_updated_at y) x)"
  using assms
proof (rule system_stepE, goal_cases)
  case (1 k pc db' called)
  from worker_step_commands[OF 1(3)] consider "get_command_by_id db' c = get_command_by_id (sy_db s) c"
    | e g r t where "can_transition e g"
      "get_command_by_id db' c = map_option (advance e g r t) (get_command_by_id (sy_db s) c)" by metis
  then show ?case using 1(1)
    by cases (auto simp: advance_def set_status_def split: option.splits)
next
  case (3 d n now c' db')
  have find_append: "find P (xs @ [y]) = (case find P xs of None \<Rightarrow> if P y then Some y else None | Some x \<Rightarrow> Some x)"
    for P and xs :: "intervention_command list" and y by (induction xs) auto
  from create_command_cases[OF 3(2)] 3(1) show ?case
    by (auto simp: get_command_by_id_def find_append split: option.splits if_splits)
qed (auto simp: get_command_by_id_def split: option.splits)


section \<open>Observing the outcome\<close>

text \<open>\<open>int((first_event.timestamp - cmd.created_at).total_seconds() * 1000)\<close>, floored at 0.\<close>

definition time_to_outcome :: "datetime \<Rightarrow> datetime \<Rightarrow> int" where
  "time_to_outcome created_at timestamp =
     max 0 (py_int (f_mul (int_truediv (timestamp - created_at) 1000000) 1000))"

definition observation_audit :: "payment_event list \<Rightarrow> json" where
  "observation_audit terminal_events =
     (case terminal_events of
        [] \<Rightarrow> JObj [(''terminal_event_count'', JInt 0), (''conflict_detected'', JBool False),
                   (''conflicting_events'', JArr [])]
      | e # _ \<Rightarrow>
          let has_conflict = length (remdups (map ev_event_type terminal_events)) > 1
          in JObj [(''terminal_event_count'', JInt (int (length terminal_events))),
               (''conflict_detected'', JBool has_conflict),
               (''conflicting_events'',
                 JArr (if has_conflict
                       then map (\<lambda>f. JObj [(''event_id'', JUuid (ev_event_id f)), (''event_type'', JStr (ev_event_type f)),
                                  (''timestamp'', JTime (ev_timestamp f)), (''ingested_at'', JTime (ev_ingested_at f))])
                              terminal_events
                       else [])),
               (''canonical_selected_event'',
                 JObj [(''event_id'', JUuid (ev_event_id e)), (''event_type'', JStr (ev_event_type e)),
                       (''ingested_at'', JTime (ev_ingested_at e))])])"

definition outcome_of :: "payment_event list \<Rightarrow> payment_outcome" where
  "outcome_of terminal_events =
     (case terminal_events of
        [] \<Rightarrow> UNKNOWN_IN_FLIGHT
      | e # _ \<Rightarrow> if ev_event_type e = ''payment.captured'' then OUTCOME_CAPTURED else OUTCOME_FAILED)"

definition new_observation ::
  "uuid \<Rightarrow> intervention_command \<Rightarrow> int \<Rightarrow> datetime \<Rightarrow> datetime \<Rightarrow> payment_event list \<Rightarrow> outcome_observation" where
  "new_observation command_id cmd version now as_of terminal_events =
     (let first_event = (case terminal_events of [] \<Rightarrow> None | e # _ \<Rightarrow> Some e) in
      \<lparr>ob_observation_id = make_observation_id command_id version, ob_command_id = command_id,
       ob_payment_attempt_id = cm_payment_attempt_id cmd, ob_source_system = cm_source_system cmd,
       ob_version = version, ob_observed_at = now, ob_as_of = as_of, ob_outcome = outcome_of terminal_events,
       ob_terminal_event_id = map_option ev_event_id first_event,
       ob_terminal_event_type = map_option ev_event_type first_event,
       ob_terminal_event_timestamp = map_option ev_timestamp first_event,
       ob_time_to_outcome_ms = map_option (\<lambda>e. time_to_outcome (cm_created_at cmd) (ev_timestamp e)) first_event,
       ob_audit = observation_audit terminal_events, ob_created_at = now\<rparr>)"

definition observe ::
  "datetime \<Rightarrow> datetime \<Rightarrow> uuid \<Rightarrow> ('a execution_db_scheme) \<Rightarrow>
   (exn, outcome_observation \<times> ('a execution_db_scheme)) result" where
  "observe as_of now command_id db =
     (case get_command_by_id db command_id of
        None \<Rightarrow> Inl CommandNotFoundError
      | Some cmd \<Rightarrow>
          bind_result (require_command_attempt db cmd) (\<lambda>_.
          bind_result (get_canonical_terminal_events db (cm_payment_attempt_id cmd) as_of (Some (cm_source_system cmd)))
            (\<lambda>terminal_events.
          let ob = new_observation command_id cmd (get_max_observation_version db command_id + 1) now as_of terminal_events
          in bind_result (insert_payment_outcome_observation ob db) (\<lambda>db'. Inr (ob, db')))))"

section \<open>Versions\<close>

interpretation attempt_numbers: version_log db_exec_attempts xa_command_id xa_attempt_number
    get_max_attempt_number insert_execution_attempt
  by unfold_locales (simp_all add: get_max_attempt_number_def)

interpretation observation_log: version_log db_observations ob_command_id ob_version
    get_max_observation_version append_observation
  by unfold_locales (simp_all add: get_max_observation_version_def append_observation_def)

lemma observe_Inr:
  assumes "observe as_of now i db = Inr (ob, db')"
  obtains cmd r where "get_command_by_id db i = Some cmd" "require_command_attempt db cmd = Inr r"
    "db' = append_observation ob db"
    "ob = new_observation i cmd (get_max_observation_version db i + 1) now as_of
       (sort_key ev_ingested_at (filter (terminal_condition (cm_payment_attempt_id cmd) as_of (Some (cm_source_system cmd)))
          (db_events db)))"
  using assms
  by (auto simp: observe_def get_canonical_terminal_events_def insert_payment_outcome_observation_def Let_def
      bind_result_Inr split: option.splits if_splits)

lemma new_observation_simps [simp]:
  "ob_command_id (new_observation i c v now t es) = i" "ob_version (new_observation i c v now t es) = v"
  "ob_as_of (new_observation i c v now t es) = t" "ob_outcome (new_observation i c v now t es) = outcome_of es"
  "ob_terminal_event_id (new_observation i c v now t es) = map_option ev_event_id (case es of [] \<Rightarrow> None | e # _ \<Rightarrow> Some e)"
  by (simp_all add: new_observation_def Let_def)

lemma terminal_condition_facts:
  "terminal_condition k as_of s e \<Longrightarrow> ev_ingested_at e \<le> as_of"
  "terminal_condition k as_of (Some src) e \<Longrightarrow> is_terminal e \<and> ev_source_system e = src"
  by (auto simp: terminal_condition_def paypal_terminal_events_def is_terminal_def split: if_splits option.splits)

lemma execution_frames [simp]:
  "require_command_attempt (append_observation ob db) c = require_command_attempt db c"
  "require_command_attempt (db\<lparr>db_events := es\<rparr>) c = require_command_attempt db c"
  "get_command_by_id (append_observation ob db) i = get_command_by_id db i"
  "get_command_by_id (db\<lparr>db_events := es\<rparr>) i = get_command_by_id db i"
  by (simp_all add: require_command_attempt_def get_command_by_id_def bind_result_def require_attempt_def
      lookup_attempt_def append_observation_def split: sum.splits)

lemma filter_ingested_terminal:
  "filter (terminal_condition k as_of s) (filter (\<lambda>e. ev_ingested_at e \<le> as_of) es) = filter (terminal_condition k as_of s) es"
  by (induction es) (auto dest: terminal_condition_facts)

lemma observe_future_frame:
  "observe as_of now i (db\<lparr>db_events := filter (\<lambda>e. ev_ingested_at e \<le> as_of) (db_events db)\<rparr>) =
     (case observe as_of now i db of Inl e \<Rightarrow> Inl e
      | Inr (ob, db') \<Rightarrow> Inr (ob, db'\<lparr>db_events := filter (\<lambda>e. ev_ingested_at e \<le> as_of) (db_events db)\<rparr>))"
  by (simp add: observe_def get_canonical_terminal_events_def filter_ingested_terminal get_max_observation_version_def
      insert_payment_outcome_observation_def append_observation_def joined_attempt_def Let_def bind_result_def
      del: filter_filter split: option.splits sum.splits)

lemma observe_again:
  assumes "observe as_of now i db = Inr (ob, db')"
  shows "observe as_of now' i db' = Inl IntegrityError"
proof -
  from assms obtain cmd r where c: "get_command_by_id db i = Some cmd" "require_command_attempt db cmd = Inr r"
    "db' = append_observation ob db" "ob_command_id ob = i" "ob_as_of ob = as_of"
    by (elim observe_Inr) auto
  have guard: "provider_guard (Some (cm_source_system cmd)) = Inr ()"
    using assms c(1,2) by (auto simp: observe_def get_canonical_terminal_events_def bind_result_Inr)
  have "ob \<in> set (db_observations db')" using c(3) by (simp add: append_observation_def)
  with c guard show ?thesis
    by (auto simp: observe_def get_canonical_terminal_events_def insert_payment_outcome_observation_def Let_def
        list_ex_iff)
qed

lemma observe_Inl:
  "observe as_of now i db = Inl e \<Longrightarrow>
     e \<in> {CommandNotFoundError, AttemptNotRegisteredError, AttemptProviderConflictError,
       UnsupportedProviderError, InvalidAttemptIdentityError, IntegrityError}"
  by (auto simp: observe_def get_canonical_terminal_events_def insert_payment_outcome_observation_def Let_def
      bind_result_def require_command_attempt_def require_attempt_def for_key_def new_attempt_ref_def
      provider_guard_def validate_provider_def require_that_def split: option.splits if_splits sum.splits)

text \<open>C20: An observation is factual: it selects, among the terminal events of the command's attempt and
  provider ingested by the chosen instant, one ingested first, and reports CAPTURED or FAILED as that event
  says, UNKNOWN_IN_FLIGHT exactly when there is none, with a time to outcome that is never negative; it
  continues the command's versions, later ingested events cannot change it, and observing again at the
  same instant is refused.\<close>
theorem observation_factual:
  "case observe as_of now i db of
     Inl e \<Rightarrow> e \<in> {CommandNotFoundError, AttemptNotRegisteredError, AttemptProviderConflictError,
                 UnsupportedProviderError, InvalidAttemptIdentityError, IntegrityError}
   | Inr (ob, db') \<Rightarrow>
       (case get_command_by_id db i of None \<Rightarrow> False
        | Some cmd \<Rightarrow>
            (case sort_key ev_ingested_at (filter (terminal_condition (cm_payment_attempt_id cmd) as_of
                      (Some (cm_source_system cmd))) (db_events db)) of
               [] \<Rightarrow> ob_outcome ob = UNKNOWN_IN_FLIGHT \<and> ob_terminal_event_id ob = None \<and> ob_time_to_outcome_ms ob = None
             | e # rest \<Rightarrow>
                 ev_ingested_at e \<le> as_of \<and> is_terminal e \<and> ev_source_system e = cm_source_system cmd \<and>
                 list_all (\<lambda>f. ev_ingested_at e \<le> ev_ingested_at f) rest \<and>
                 ob_outcome ob = (if ev_event_type e = ''payment.captured'' then OUTCOME_CAPTURED else OUTCOME_FAILED) \<and>
                 ob_terminal_event_id ob = Some (ev_event_id e) \<and>
                 (case ob_time_to_outcome_ms ob of None \<Rightarrow> False | Some ms \<Rightarrow> 0 \<le> ms))) \<and>
       db_observations db' = db_observations db @ [ob] \<and>
       ob_version ob = get_max_observation_version db i + 1 \<and>
       observe as_of now i (db\<lparr>db_events := filter (\<lambda>e. ev_ingested_at e \<le> as_of) (db_events db)\<rparr>) =
         Inr (ob, db'\<lparr>db_events := filter (\<lambda>e. ev_ingested_at e \<le> as_of) (db_events db)\<rparr>) \<and>
       observe as_of now' i db' = Inl IntegrityError"
proof (cases "observe as_of now i db")
  case (Inl e)
  then show ?thesis using observe_Inl by simp
next
  case (Inr p)
  then obtain ob db' where run: "observe as_of now i db = Inr (ob, db')" by (cases p) simp
  then obtain cmd r where c: "get_command_by_id db i = Some cmd" "db' = append_observation ob db"
    "ob = new_observation i cmd (get_max_observation_version db i + 1) now as_of
       (sort_key ev_ingested_at (filter (terminal_condition (cm_payment_attempt_id cmd) as_of (Some (cm_source_system cmd)))
          (db_events db)))" by (elim observe_Inr)
  let ?T = "sort_key ev_ingested_at (filter (terminal_condition (cm_payment_attempt_id cmd) as_of
      (Some (cm_source_system cmd))) (db_events db))"
  have facts: "e \<in> set ?T \<Longrightarrow> ev_ingested_at e \<le> as_of \<and> is_terminal e \<and> ev_source_system e = cm_source_system cmd" for e
    by (auto dest: terminal_condition_facts)
  have sorted: "sorted (map ev_ingested_at ?T)" by simp
  show ?thesis
  proof (cases ?T)
    case Nil
    then show ?thesis using c run observe_again[OF run] observe_future_frame[of as_of now i db]
      by (simp add: outcome_of_def new_observation_def append_observation_def)
  next
    case (Cons e rest)
    with facts[of e] sorted show ?thesis using c run observe_again[OF run] observe_future_frame[of as_of now i db]
      by (simp add: outcome_of_def new_observation_def append_observation_def list_all_iff time_to_outcome_def)
  qed
qed

section \<open>Examples\<close>

definition example_decision :: intervention_decision where
  "example_decision =
     \<lparr>de_decision_id = make_decision_id ''pay_1'' 1, de_payment_attempt_id = ''pay_1'',
      de_source_system = RAZORPAY_SOURCE_SYSTEM, de_version = 1, de_decided_at = 0, de_type = ACT,
      de_route = Some RETRY_SECONDARY_GATEWAY, de_failure_probability = Some 1, de_prediction_id = None,
      de_diagnosis_confidence = None, de_confidence = 1, de_gate_verdict = PASSED, de_policy_id = ''p'',
      de_policy_version = ''1'', de_fingerprint = sha256_json JNull, de_audit = JNull, de_created_at = 0\<rparr>"

definition example_db :: execution_db where
  "example_db =
     \<lparr>db_raw = [], db_events = [], db_snapshots = [], db_signals = [], db_episodes = [], db_history = [],
      db_evaluations = [], db_candidates = [],
      db_attempts = [\<lparr>at_payment_attempt_id = ''pay_1'', at_source_system = RAZORPAY_SOURCE_SYSTEM,
                      at_provider_reference = ''pay_1'', at_trigger_event_id = Uuid4 0, at_registered_at = 0\<rparr>],
      db_predictions = [], db_decisions = [example_decision],
      db_commands = [], db_exec_attempts = [], db_observations = []\<rparr>"

text \<open>Two workers race for the same command.\<close>

definition example_race :: "action list" where
  "example_race =
     (let i = make_command_id (make_decision_id ''pay_1'' 1)
      in [Create example_decision 300 0, Spawn i JNull 1 (Uuid4 1), Spawn i JNull 2 (Uuid4 2),
          Work 0, Work 1, Work 0, Work 1, Work 1, Work 0, Work 0, Work 1, Work 1, Work 1, Work 1])"

abbreviation example_system :: system where
  "example_system \<equiv> \<lparr>sy_db = example_db, sy_workers = [], sy_dispatched = []\<rparr>"

lemma example_race_result:
  "let s = fold (perform (simulator_execute ALWAYS_SUCCEED 10 [])) example_race example_system;
       i = make_command_id (make_decision_id ''pay_1'' 1)
   in execution_state s i = (Some SUCCEEDED, [], 1, 1) \<and>
      map (\<lambda>w. case wk_pc w of Finished (Inr c) \<Rightarrow> Some (cm_status c) | _ \<Rightarrow> None) (sy_workers s) =
        [Some EXECUTING, Some SUCCEEDED]"
  by code_simp


abbreviation example_executor :: "intervention_command \<Rightarrow> json \<Rightarrow> execution_result" where
  "example_executor \<equiv> simulator_execute ALWAYS_SUCCEED 10 []"

abbreviation example_command_id :: uuid where
  "example_command_id \<equiv> make_command_id (make_decision_id ''pay_1'' 1)"


theorem system_step_refines_lifecycle_witness:
  "let s = fold (perform example_executor) (take 7 example_race) example_system;
       s' = perform example_executor (Work 1) s
   in system_step example_executor s s' \<and>
      map_option cm_status (get_command_by_id (sy_db s) example_command_id) = Some PENDING \<and>
      map_option cm_status (get_command_by_id (sy_db s') example_command_id) = Some EXECUTING \<and>
      (case get_command_by_id (sy_db s) example_command_id of None \<Rightarrow> False
       | Some x \<Rightarrow> (case get_command_by_id (sy_db s') example_command_id of None \<Rightarrow> False
          | Some y \<Rightarrow> y = x \<or> can_transition (cm_status x) (cm_status y) \<and>
              y = set_status (cm_status y) (cm_status_reason y) (cm_updated_at y) x))"
proof -
  let ?s = "fold (perform example_executor) (take 7 example_race) example_system"
  let ?s' = "perform example_executor (Work 1) ?s"
  have st: "map_option cm_status (get_command_by_id (sy_db ?s) example_command_id) = Some PENDING \<and>
      map_option cm_status (get_command_by_id (sy_db ?s') example_command_id) = Some EXECUTING" by code_simp
  then have "?s' \<noteq> ?s" by (metis command_status.distinct(1) option.inject)
  with perform_step have step: "system_step example_executor ?s ?s'" by blast
  from st system_step_refines_lifecycle[OF step, of example_command_id] step show ?thesis
    unfolding Let_def by (cases "get_command_by_id (sy_db ?s) example_command_id") simp_all
qed



text \<open>
  The barrier asks for terminal events of the attempt key without its provider, the observation with it: a
  SYNTHETIC capture under the key of a Razorpay attempt ends the command as not needed, and the outcome is
  then observed as unknown.
\<close>

definition foreign_capture :: payment_event where
  "foreign_capture = (example_event ''payment.captured'' ''pay_1'' 0)\<lparr>ev_source_system := SYNTHETIC_SOURCE_SYSTEM,
     ev_ingested_at := 0\<rparr>"

lemma barrier_ignores_provider:
  "let db = (sy_db (perform example_executor (Create example_decision 300 0) example_system))\<lparr>db_events := [foreign_capture]\<rparr>
   in (case execute_command example_executor (Uuid4 1) JNull 1 example_command_id db of
         Inl e \<Rightarrow> False
       | Inr (c, db') \<Rightarrow> cm_status c = NOT_NEEDED \<and>
           (case observe 1 1 example_command_id db' of
              Inl e \<Rightarrow> False | Inr (ob, db'') \<Rightarrow> ob_outcome ob = UNKNOWN_IN_FLIGHT))"
  by code_simp

end
