(* ===== verification/Attribution.thy ===== *)
theory Attribution
  imports Execution
begin

text \<open>
  Stage 8: the counterfactual attribution of a payment to an intervention, its service and its append-only
  table (\<open>core/attribution\<close>, \<open>core/domain/attribution_models.py\<close>,
  \<open>infrastructure/attribution_repository.py\<close>).
\<close>

section \<open>Decimal rendering of a float\<close>

text \<open>
  \<open>Decimal(str(x))\<close>: \<open>str\<close> gives the shortest decimal that rounds back to the float, and the nearest of
  those. The argument \<open>n\<close> counts decimal places; 1100 places hold every binary64 value exactly.
\<close>

definition round_trip :: "nat \<Rightarrow> pyfloat \<Rightarrow> decimal option" where
  "round_trip n x =
     (let lo = of_int \<lfloor>x * 10 ^ n\<rfloor> / 10 ^ n; hi = of_int \<lceil>x * 10 ^ n\<rceil> / 10 ^ n;
          near = (if x - lo < hi - x then lo else if hi - x < x - lo then hi else dec_quantize n x);
          far = (if near = lo then hi else lo)
      in if fl near = x then Some near else if fl far = x then Some far else None)"

fun shortest_decimal :: "nat \<Rightarrow> nat \<Rightarrow> pyfloat \<Rightarrow> decimal" where
  "shortest_decimal 0 n x = x"
| "shortest_decimal (Suc fuel) n x =
     (case round_trip n x of Some d \<Rightarrow> d | None \<Rightarrow> shortest_decimal fuel (Suc n) x)"

definition decimal_of_str :: "pyfloat \<Rightarrow> decimal" where
  "decimal_of_str x = shortest_decimal 1100 0 x"

section \<open>Model\<close>

datatype attribution_status =
    ATTRIBUTED | UNATTRIBUTED_PAYMENT_FAILED | UNATTRIBUTED_EXECUTION_FAILED | UNATTRIBUTED_UNTREATED
  | UNRESOLVED_IN_FLIGHT | INDETERMINATE_INSUFFICIENT_EVIDENCE

datatype treatment_status = TREATED | EXECUTION_FAILED | UNTREATED

text \<open>\<open>UNKNOWN\<close> is also a classification.\<close>

datatype model_provenance = EMPIRICAL_PRODUCTION | SYNTHETIC_DEVELOPMENT | PROVENANCE_UNKNOWN

primrec provenance_value :: "model_provenance \<Rightarrow> string" where
  "provenance_value EMPIRICAL_PRODUCTION = ''EMPIRICAL_PRODUCTION''"
| "provenance_value SYNTHETIC_DEVELOPMENT = ''SYNTHETIC_DEVELOPMENT''"
| "provenance_value PROVENANCE_UNKNOWN = ''UNKNOWN''"

primrec outcome_value :: "payment_outcome \<Rightarrow> string" where
  "outcome_value OUTCOME_CAPTURED = ''CAPTURED''"
| "outcome_value OUTCOME_FAILED = ''FAILED''"
| "outcome_value UNKNOWN_IN_FLIGHT = ''UNKNOWN_IN_FLIGHT''"

record attribution_record =
  aa_attribution_id :: uuid
  aa_command_id :: uuid
  aa_payment_attempt_id :: string
  aa_source_system :: string
  aa_decision_id :: uuid
  aa_version :: int
  aa_attributed_at :: datetime
  aa_as_of :: datetime
  aa_status :: attribution_status
  aa_methodology_name :: string
  aa_methodology_version :: string
  aa_treatment :: treatment_status
  aa_outcome :: string
  aa_amount :: int
  aa_failure_probability :: "decimal option"
  aa_loss_exposure :: int
  aa_natural_success :: int
  aa_protected :: int
  aa_confidence :: decimal
  aa_is_synthetic :: bool
  aa_is_simulated :: bool
  aa_audit :: json
  aa_created_at :: datetime

record attribution_db = execution_db +
  db_attributions :: "attribution_record list"

text \<open>\<open>uuid.uuid5(uuid.NAMESPACE_DNS, "attribution.recovery.engine")\<close>\<close>

definition NAMESPACE_STAGE8_ATTRIBUTION :: uuid where
  "NAMESPACE_STAGE8_ATTRIBUTION =
     Uuid5 (UuidLit ''6ba7b810-9dad-11d1-80b4-00c04fd430c8'') (chars ''attribution.recovery.engine'')"

definition make_attribution_id :: "uuid \<Rightarrow> int \<Rightarrow> uuid" where
  "make_attribution_id command_id attribution_version =
     Uuid5 NAMESPACE_STAGE8_ATTRIBUTION (versioned_name (chars ''attr:'' @ [UuidStr command_id]) attribution_version)"

section \<open>Calculator\<close>

definition METHODOLOGY_NAME :: string where "METHODOLOGY_NAME = ''COUNTERFACTUAL_RISK_WEIGHTED_V1''"
definition METHODOLOGY_VERSION :: string where "METHODOLOGY_VERSION = ''1.0.0''"
definition CONFIDENCE_FLOOR :: decimal where "CONFIDENCE_FLOOR = 1 / 4"

primrec provenance_weight :: "model_provenance \<Rightarrow> decimal" where
  "provenance_weight EMPIRICAL_PRODUCTION = 1"
| "provenance_weight SYNTHETIC_DEVELOPMENT = 6 / 10"
| "provenance_weight PROVENANCE_UNKNOWN = 3 / 10"

definition diagnosis_weight :: "string \<Rightarrow> decimal" where
  "diagnosis_weight key =
     (if key = ''STRONG'' then 1 else if key = ''MODERATE'' then 85 / 100
      else if key = ''WEAK'' then 70 / 100 else 60 / 100)"

definition compute_timing_confidence :: "pyfloat option \<Rightarrow> decimal" where
  "compute_timing_confidence delta_seconds =
     (case delta_seconds of
        None \<Rightarrow> 60 / 100
      | Some d \<Rightarrow> if d \<le> 60 then 1 else if d \<le> 300 then 85 / 100 else 60 / 100)"

record calculation =
  ca_status :: attribution_status
  ca_loss_exposure :: int
  ca_natural_success :: int
  ca_protected :: int
  ca_confidence :: decimal
  ca_details :: json

text \<open>A result without money.\<close>

definition unattributed :: "attribution_status \<Rightarrow> decimal \<Rightarrow> (string \<times> json) list \<Rightarrow> calculation" where
  "unattributed status confidence details =
     \<lparr>ca_status = status, ca_loss_exposure = 0, ca_natural_success = 0, ca_protected = 0,
      ca_confidence = confidence, ca_details = JObj details\<rparr>"

text \<open>\<open>int(d.quantize(Decimal("1"), rounding=ROUND_HALF_EVEN))\<close>\<close>

definition whole_units :: "decimal \<Rightarrow> int" where
  "whole_units d = round_half_even d"

definition calculate_attribution ::
  "int \<Rightarrow> decimal option \<Rightarrow> treatment_status \<Rightarrow> string \<Rightarrow> model_provenance \<Rightarrow> string \<Rightarrow> string option \<Rightarrow>
   pyfloat option \<Rightarrow> calculation" where
  "calculate_attribution payment_amount p0 treatment observed_payment_outcome provenance prediction_status
     diagnosis_confidence timing_delta =
     (let normalized = str_upper observed_payment_outcome;
          is_captured = normalized \<in> {''CAPTURED'', ''PAYMENT.CAPTURED''};
          is_in_flight = normalized \<in> {''UNKNOWN_IN_FLIGHT'', ''IN_FLIGHT''};
          reason = (\<lambda>s. [(''reason'', JStr s)])
      in if is_in_flight then unattributed UNRESOLVED_IN_FLIGHT 0 (reason ''PAYMENT_STILL_IN_FLIGHT'')
         else if treatment = UNTREATED
         then unattributed UNATTRIBUTED_UNTREATED 0 (reason ''TRANSACTION_WAS_NOT_TREATED'')
         else if treatment = EXECUTION_FAILED
         then unattributed UNATTRIBUTED_EXECUTION_FAILED 0 (reason ''INTERVENTION_EXECUTION_FAILED_OR_TIMED_OUT'')
         else if \<not> is_captured
         then unattributed UNATTRIBUTED_PAYMENT_FAILED 0 (reason ''PAYMENT_TERMINAL_OUTCOME_WAS_NOT_CAPTURED'')
         else
           let c_provenance = provenance_weight provenance;
               c_status = (if str_upper prediction_status = ''PREDICTED'' then 1 else 0);
               c_prediction = dec_quantize 4 (c_provenance * c_status)
           in if p0 = None \<or> c_status = 0
              then unattributed INDETERMINATE_INSUFFICIENT_EVIDENCE 0 (reason ''MISSING_OR_INVALID_STAGE5_PREDICTION'')
              else
                let diag_key = str_upper (if truthy diagnosis_confidence then the diagnosis_confidence else ''NONE'');
                    c_diagnosis = diagnosis_weight diag_key;
                    c_timing = compute_timing_confidence timing_delta;
                    alpha = dec_quantize 4 (c_prediction * c_diagnosis * c_timing)
                in if alpha < CONFIDENCE_FLOOR
                   then unattributed INDETERMINATE_INSUFFICIENT_EVIDENCE alpha
                     [(''reason'', JStr ''ATTRIBUTION_CONFIDENCE_BELOW_FLOOR''), (''alpha_confidence'', JDec alpha),
                      (''confidence_floor'', JDec CONFIDENCE_FLOOR)]
                   else
                     let p0_dec = dec_quantize 4 (the p0);
                         loss_exposure = max 0 (min (whole_units (of_int payment_amount * p0_dec)) payment_amount);
                         natural_success = max 0 (payment_amount - loss_exposure);
                         protected_gmv = max 0 (min (min (whole_units (of_int payment_amount * p0_dec * alpha))
                                                      loss_exposure) payment_amount)
                     in \<lparr>ca_status = ATTRIBUTED, ca_loss_exposure = loss_exposure,
                         ca_natural_success = natural_success, ca_protected = protected_gmv,
                         ca_confidence = alpha,
                         ca_details = JObj
                           [(''c_provenance'', JDec c_provenance), (''c_status'', JDec c_status),
                            (''c_prediction'', JDec c_prediction), (''c_diagnosis'', JDec c_diagnosis),
                            (''c_timing'', JDec c_timing), (''alpha_confidence'', JDec alpha),
                            (''p0'', JDec p0_dec), (''timing_delta_seconds'', json_opt JFloat timing_delta)]\<rparr>)"

section \<open>Repository\<close>

text \<open>The provider checks of a row that was read: against its command, then the requested provider.\<close>

definition provider_checked ::
  "('a attribution_db_scheme) \<Rightarrow> uuid \<Rightarrow> string option \<Rightarrow> attribution_record \<Rightarrow> (exn, attribution_record) result" where
  "provider_checked db command_id source_system r =
     (if (case get_command_by_id db command_id of None \<Rightarrow> False | Some cmd \<Rightarrow> aa_source_system r \<noteq> cm_source_system cmd)
      then Inl AttemptProviderConflictError
      else if (case source_system of None \<Rightarrow> False | Some s \<Rightarrow> aa_source_system r \<noteq> s)
      then Inl AttemptProviderConflictError
      else Inr r)"

definition checked_option ::
  "('a attribution_db_scheme) \<Rightarrow> uuid \<Rightarrow> string option \<Rightarrow> attribution_record option \<Rightarrow>
   (exn, attribution_record option) result" where
  "checked_option db command_id source_system row =
     bind_result (provider_guard source_system) (\<lambda>_.
       case row of
         None \<Rightarrow> Inr None
       | Some r \<Rightarrow> bind_result (provider_checked db command_id source_system r) (\<lambda>r. Inr (Some r)))"

definition get_latest_attribution ::
  "('a attribution_db_scheme) \<Rightarrow> uuid \<Rightarrow> string option \<Rightarrow> (exn, attribution_record option) result" where
  "get_latest_attribution db command_id source_system =
     checked_option db command_id source_system
       (latest_by aa_version (filter (\<lambda>r. aa_command_id r = command_id) (db_attributions db)))"

definition get_attribution_by_as_of ::
  "('a attribution_db_scheme) \<Rightarrow> uuid \<Rightarrow> datetime \<Rightarrow> string option \<Rightarrow> (exn, attribution_record option) result" where
  "get_attribution_by_as_of db command_id as_of source_system =
     checked_option db command_id source_system
       (find (\<lambda>r. aa_command_id r = command_id \<and> aa_as_of r = as_of) (db_attributions db))"

definition get_all_attributions ::
  "('a attribution_db_scheme) \<Rightarrow> uuid \<Rightarrow> string option \<Rightarrow> (exn, attribution_record list) result" where
  "get_all_attributions db command_id source_system =
     bind_result (provider_guard source_system) (\<lambda>_.
       fold_result (\<lambda>r domains. bind_result (provider_checked db command_id source_system r) (\<lambda>r. Inr (domains @ [r])))
         (sort_key aa_version (filter (\<lambda>r. aa_command_id r = command_id) (db_attributions db))) [])"

definition insert_attribution :: "attribution_record \<Rightarrow> ('a attribution_db_scheme) \<Rightarrow> ('a attribution_db_scheme)" where
  "insert_attribution r db = db\<lparr>db_attributions := db_attributions db @ [r]\<rparr>"

text \<open>The constraints of \<open>counterfactual_attributions\<close>.\<close>

definition append_attribution ::
  "attribution_record \<Rightarrow> ('a attribution_db_scheme) \<Rightarrow> (exn, 'a attribution_db_scheme) result" where
  "append_attribution r db =
     (if list_ex (\<lambda>q. aa_attribution_id q = aa_attribution_id r \<or>
            aa_command_id q = aa_command_id r \<and> (aa_version q = aa_version r \<or> aa_as_of q = aa_as_of r))
          (db_attributions db) \<or>
         \<not> joined_attempt db (aa_payment_attempt_id r) (aa_source_system r) \<or>
         \<not> list_ex (\<lambda>c. cm_command_id c = aa_command_id r \<and> cm_source_system c = aa_source_system r) (db_commands db) \<or>
         \<not> list_ex (\<lambda>d. de_decision_id d = aa_decision_id r \<and> de_source_system d = aa_source_system r) (db_decisions db)
      then Inl IntegrityError else Inr (insert_attribution r db))"

definition get_latest_execution_attempt ::
  "('a execution_db_scheme) \<Rightarrow> uuid \<Rightarrow> datetime \<Rightarrow> execution_attempt option" where
  "get_latest_execution_attempt db command_id as_of =
     latest_by xa_attempt_number
       (filter (\<lambda>x. xa_command_id x = command_id \<and> xa_created_at x \<le> as_of) (db_exec_attempts db))"

definition get_latest_outcome_observation ::
  "('a execution_db_scheme) \<Rightarrow> uuid \<Rightarrow> datetime \<Rightarrow> outcome_observation option" where
  "get_latest_outcome_observation db command_id as_of =
     latest_by ob_version
       (filter (\<lambda>q. ob_command_id q = command_id \<and> ob_as_of q \<le> as_of) (db_observations db))"

definition get_decision :: "('a decision_db_scheme) \<Rightarrow> uuid \<Rightarrow> intervention_decision option" where
  "get_decision db decision_id = find (\<lambda>d. de_decision_id d = decision_id) (db_decisions db)"

definition get_prediction :: "('a prediction_db_scheme) \<Rightarrow> uuid \<Rightarrow> failure_prediction option" where
  "get_prediction db prediction_id = find (\<lambda>p. fp_prediction_id p = prediction_id) (db_predictions db)"

text \<open>The events that size an attempt.\<close>

definition sizing_condition :: "string \<Rightarrow> datetime \<Rightarrow> string option \<Rightarrow> payment_event \<Rightarrow> bool" where
  "sizing_condition payment_attempt_id as_of source_system e \<longleftrightarrow>
     ev_ingested_at e \<le> as_of \<and>
     (case source_system of
        Some s \<Rightarrow>
          if s = PAYPAL_SOURCE_SYSTEM
          then (case paypal_order_id payment_attempt_id of None \<Rightarrow> False | Some r \<Rightarrow> paypal_trigger_events r e)
          else ev_payment_id e = payment_attempt_id \<and> ev_event_type e = ''payment.authorized'' \<and> ev_source_system e = s
      | None \<Rightarrow>
          (case paypal_order_id payment_attempt_id of
             Some r \<Rightarrow> paypal_trigger_events r e
           | None \<Rightarrow> ev_payment_id e = payment_attempt_id \<and> ev_event_type e = ''payment.authorized'' \<and> event_visible e))"

definition get_canonical_payment_amount ::
  "('a event_db_scheme) \<Rightarrow> string \<Rightarrow> datetime \<Rightarrow> string option \<Rightarrow> (exn, int option) result" where
  "get_canonical_payment_amount db payment_attempt_id as_of source_system =
     bind_result (provider_guard source_system) (\<lambda>_.
       Inr (map_option ev_amount_minor_units
              (latest_by ev_ingested_at (filter (sizing_condition payment_attempt_id as_of source_system) (db_events db)))))"

section \<open>Service\<close>

definition DEVELOPMENT_MODEL_NAMES :: "string list" where
  "DEVELOPMENT_MODEL_NAMES = [''DeterministicBaselineModel'']"

definition VERIFIED_EMPIRICAL_MODELS :: "(string \<times> string) list" where
  "VERIFIED_EMPIRICAL_MODELS = []"

definition classify_model_provenance :: "string option \<Rightarrow> string option \<Rightarrow> model_provenance" where
  "classify_model_provenance model_name model_version =
     (let name = (if truthy model_name then the model_name else [])
      in if name \<in> set DEVELOPMENT_MODEL_NAMES \<or> sublist ''synthetic'' (str_lower name) then SYNTHETIC_DEVELOPMENT
         else if (case model_version of None \<Rightarrow> False | Some v \<Rightarrow> (name, v) \<in> set VERIFIED_EMPIRICAL_MODELS)
         then EMPIRICAL_PRODUCTION
         else PROVENANCE_UNKNOWN)"

definition treatment_of ::
  "intervention_decision \<Rightarrow> intervention_command \<Rightarrow> execution_attempt option \<Rightarrow> outcome_observation option \<Rightarrow>
   treatment_status" where
  "treatment_of decision command attempt observation =
     (if de_type decision \<noteq> ACT then UNTREATED
      else if cm_status command \<in> {NOT_NEEDED, EXPIRED, PENDING} then UNTREATED
      else case attempt of
        None \<Rightarrow> UNTREATED
      | Some x \<Rightarrow>
          if xa_status x \<noteq> SUCCESS then EXECUTION_FAILED
          else if (case Option.bind observation ob_terminal_event_timestamp of
                     None \<Rightarrow> False | Some t \<Rightarrow> t < xa_completed_at x) then UNTREATED
          else TREATED)"

definition timing_delta :: "execution_attempt option \<Rightarrow> outcome_observation option \<Rightarrow> pyfloat option" where
  "timing_delta attempt observation =
     (case (attempt, Option.bind observation ob_terminal_event_timestamp) of
        (Some x, Some t) \<Rightarrow> Some (int_truediv (t - xa_completed_at x) 1000000)
      | _ \<Rightarrow> None)"

text \<open>Everything the evaluation reads.\<close>

record attribution_evidence =
  ae_command :: intervention_command
  ae_attempt :: "execution_attempt option"
  ae_observation :: "outcome_observation option"
  ae_decision :: intervention_decision
  ae_prediction :: "failure_prediction option"

definition gather_evidence ::
  "('a execution_db_scheme) \<Rightarrow> uuid \<Rightarrow> datetime \<Rightarrow> (exn, attribution_evidence) result" where
  "gather_evidence db command_id as_of =
     (case get_command_by_id db command_id of
        None \<Rightarrow> Inl MissingUpstreamDataError
      | Some command \<Rightarrow>
          (case get_decision db (cm_decision_id command) of
             None \<Rightarrow> Inl MissingUpstreamDataError
           | Some decision \<Rightarrow>
               Inr \<lparr>ae_command = command, ae_attempt = get_latest_execution_attempt db command_id as_of,
                    ae_observation = get_latest_outcome_observation db command_id as_of,
                    ae_decision = decision,
                    ae_prediction = Option.bind (de_prediction_id decision) (get_prediction db)\<rparr>))"

text \<open>Every record has the command's provider, decision and observation its attempt.\<close>

definition evidence_consistent :: "attribution_evidence \<Rightarrow> bool" where
  "evidence_consistent ev =
     (let s = cm_source_system (ae_command ev); k = cm_payment_attempt_id (ae_command ev) in
      de_source_system (ae_decision ev) = s \<and>
      (case ae_prediction ev of None \<Rightarrow> True | Some p \<Rightarrow> fp_source_system p = s) \<and>
      (case ae_attempt ev of None \<Rightarrow> True | Some x \<Rightarrow> xa_source_system x = s) \<and>
      (case ae_observation ev of None \<Rightarrow> True | Some q \<Rightarrow> ob_source_system q = s) \<and>
      de_payment_attempt_id (ae_decision ev) = k \<and>
      (case ae_observation ev of None \<Rightarrow> True | Some q \<Rightarrow> ob_payment_attempt_id q = k))"

definition evidence_p0 :: "attribution_evidence \<Rightarrow> decimal option" where
  "evidence_p0 ev =
     Option.bind (ae_prediction ev) (\<lambda>p. map_option (\<lambda>x. dec_quantize 4 (decimal_of_str x)) (fp_failure_probability p))"

definition evidence_provenance :: "attribution_evidence \<Rightarrow> model_provenance" where
  "evidence_provenance ev =
     (case ae_prediction ev of
        None \<Rightarrow> PROVENANCE_UNKNOWN
      | Some p \<Rightarrow> classify_model_provenance (Some (fp_model_name p)) (Some (fp_model_version p)))"

definition evidence_outcome :: "attribution_evidence \<Rightarrow> string" where
  "evidence_outcome ev =
     (case ae_observation ev of None \<Rightarrow> ''UNKNOWN_IN_FLIGHT'' | Some q \<Rightarrow> outcome_value (ob_outcome q))"

definition evaluate_evidence :: "attribution_evidence \<Rightarrow> int \<Rightarrow> calculation" where
  "evaluate_evidence ev payment_amount =
     calculate_attribution payment_amount (evidence_p0 ev)
       (treatment_of (ae_decision ev) (ae_command ev) (ae_attempt ev) (ae_observation ev))
       (evidence_outcome ev) (evidence_provenance ev)
       (case ae_prediction ev of None \<Rightarrow> ''NOT_ELIGIBLE'' | Some p \<Rightarrow> prediction_status_value (fp_status p))
       (de_diagnosis_confidence (ae_decision ev)) (timing_delta (ae_attempt ev) (ae_observation ev))"

definition json_default :: "json \<Rightarrow> json \<Rightarrow> string \<Rightarrow> json" where
  "json_default d j k = (case json_get j k of None \<Rightarrow> d | Some v \<Rightarrow> v)"

definition attribution_audit :: "attribution_evidence \<Rightarrow> datetime \<Rightarrow> calculation \<Rightarrow> json" where
  "attribution_audit ev as_of calc =
     (let x = ae_attempt ev; q = ae_observation ev; d = ae_decision ev; c = ae_command ev;
          terminal = Option.bind q ob_terminal_event_timestamp
      in JObj
        [(''methodology_name'', JStr METHODOLOGY_NAME), (''methodology_version'', JStr METHODOLOGY_VERSION),
         (''stage5_model_id'', json_opt (\<lambda>p. JStr (fp_model_name p)) (ae_prediction ev)),
         (''stage5_model_provenance'', JStr (provenance_value (evidence_provenance ev))),
         (''counterfactual_risk_proxy_p0'', json_opt JDec (evidence_p0 ev)),
         (''treatment_evidence'', JObj
           [(''decision_id'', JUuid (de_decision_id d)), (''command_id'', JUuid (cm_command_id c)),
            (''attempt_id'', json_opt (\<lambda>x. JUuid (xa_attempt_id x)) x),
            (''route_key'', JStr (route_value (cm_route_key c))),
            (''execution_status'', json_opt (\<lambda>x. JStr (execution_result_value (xa_status x))) x),
            (''execution_completed_at'', json_opt (\<lambda>x. JTime (xa_completed_at x)) x)]),
         (''outcome_evidence'', JObj
           [(''observation_id'', json_opt (\<lambda>q. JUuid (ob_observation_id q)) q),
            (''terminal_event_id'', json_opt JUuid (Option.bind q ob_terminal_event_id)),
            (''terminal_event_type'', json_opt JStr (Option.bind q ob_terminal_event_type)),
            (''terminal_event_timestamp'', json_opt JTime terminal),
            (''conflict_detected'', case q of None \<Rightarrow> JBool False
               | Some q \<Rightarrow> json_default (JBool False) (ob_audit q) ''conflict_detected''),
            (''conflicting_events'', case q of None \<Rightarrow> JArr []
               | Some q \<Rightarrow> json_default (JArr []) (ob_audit q) ''conflicting_events'')]),
         (''evidence_score_components'', ca_details calc),
         (''timing_delta_seconds'', json_opt JFloat (timing_delta x q)),
         (''timestamps'', JObj
           [(''t_decided'', JTime (de_decided_at d)), (''t_command_created'', JTime (cm_created_at c)),
            (''t_execution_start'', json_opt (\<lambda>x. JTime (xa_started_at x)) x),
            (''t_execution_completed'', json_opt (\<lambda>x. JTime (xa_completed_at x)) x),
            (''t_terminal_event'', json_opt JTime terminal), (''as_of_timestamp'', JTime as_of)]),
         (''assumptions'', JArr
           [JStr ''Unconfoundedness given pre-treatment features'',
            JStr ''p0 is pre-intervention failure-risk estimate used as counterfactual risk proxy'',
            JStr ''Temporal precedence: execution completed before terminal outcome'',
            JStr ''Monotonicity: intervention does not cause failure of otherwise successful payment''])])"

definition new_attribution ::
  "attribution_evidence \<Rightarrow> int \<Rightarrow> datetime \<Rightarrow> datetime \<Rightarrow> int \<Rightarrow> attribution_record" where
  "new_attribution ev version now as_of payment_amount =
     (let calc = evaluate_evidence ev payment_amount; c = ae_command ev in
      \<lparr>aa_attribution_id = make_attribution_id (cm_command_id c) version, aa_command_id = cm_command_id c,
       aa_payment_attempt_id = cm_payment_attempt_id c, aa_source_system = cm_source_system c,
       aa_decision_id = de_decision_id (ae_decision ev), aa_version = version, aa_attributed_at = now,
       aa_as_of = as_of, aa_status = ca_status calc, aa_methodology_name = METHODOLOGY_NAME,
       aa_methodology_version = METHODOLOGY_VERSION,
       aa_treatment = treatment_of (ae_decision ev) c (ae_attempt ev) (ae_observation ev),
       aa_outcome = evidence_outcome ev, aa_amount = payment_amount, aa_failure_probability = evidence_p0 ev,
       aa_loss_exposure = ca_loss_exposure calc, aa_natural_success = ca_natural_success calc,
       aa_protected = ca_protected calc, aa_confidence = ca_confidence calc,
       aa_is_synthetic = (evidence_provenance ev \<noteq> EMPIRICAL_PRODUCTION),
       aa_is_simulated = (case ae_attempt ev of None \<Rightarrow> True | Some x \<Rightarrow> xa_is_simulation x),
       aa_audit = attribution_audit ev as_of calc, aa_created_at = now\<rparr>)"

definition attribute_payment_intervention ::
  "datetime \<Rightarrow> datetime \<Rightarrow> uuid \<Rightarrow> ('a attribution_db_scheme) \<Rightarrow>
   (exn, attribution_record \<times> ('a attribution_db_scheme)) result" where
  "attribute_payment_intervention as_of now command_id db =
     bind_result (get_attribution_by_as_of db command_id as_of None) (\<lambda>existing.
     case existing of
       Some r \<Rightarrow> Inr (r, db)
     | None \<Rightarrow>
         bind_result (get_latest_attribution db command_id None) (\<lambda>latest.
         let version = (case latest of None \<Rightarrow> 1 | Some r \<Rightarrow> aa_version r + 1) in
         bind_result (gather_evidence db command_id as_of) (\<lambda>ev.
         bind_result (require_command_attempt db (ae_command ev)) (\<lambda>_.
         bind_result (require_that (evidence_consistent ev) AttemptProviderConflictError) (\<lambda>_.
         bind_result (get_canonical_payment_amount db (cm_payment_attempt_id (ae_command ev))
                        (min (de_decided_at (ae_decision ev)) as_of) (Some (cm_source_system (ae_command ev))))
           (\<lambda>amount.
         let r = new_attribution ev version now as_of (case amount of None \<Rightarrow> 0 | Some a \<Rightarrow> a)
         in bind_result (append_attribution r db) (\<lambda>db'. Inr (r, db'))))))))"

section \<open>Bounds\<close>

lemma dec_quantize_unit: "0 \<le> x \<Longrightarrow> x \<le> 1 \<Longrightarrow> 0 \<le> dec_quantize n x \<and> dec_quantize n x \<le> 1"
proof -
  assume x: "0 \<le> x" "x \<le> 1"
  have "round_half_even (x * 10 ^ n) \<le> round_half_even (of_int (10 ^ n))"
    using x by (intro rhe_mono) (simp add: mult_left_le_one_le)
  then have "round_half_even (x * 10 ^ n) \<le> 10 ^ n" by (simp only: rhe_of_int)
  then have "(of_int (round_half_even (x * 10 ^ n)) :: rat) \<le> 10 ^ n"
    by (metis of_int_le_iff of_int_numeral of_int_power)
  with x show ?thesis by (simp add: dec_quantize_def rhe_nonneg)
qed

lemma weights_unit:
  "0 \<le> provenance_weight p \<and> provenance_weight p \<le> 1"
  "0 \<le> diagnosis_weight k \<and> diagnosis_weight k \<le> 1"
  "0 \<le> compute_timing_confidence d \<and> compute_timing_confidence d \<le> 1"
  by (cases p; simp) (auto simp: diagnosis_weight_def compute_timing_confidence_def split: option.splits)

lemma mult_unit: "0 \<le> a \<and> a \<le> 1 \<Longrightarrow> 0 \<le> b \<and> b \<le> 1 \<Longrightarrow> 0 \<le> a * b \<and> a * b \<le> (1::rat)"
  by (simp add: mult_le_one)

text \<open>The confidence that the calculator reaches when every gate is passed.\<close>

definition alpha_of :: "model_provenance \<Rightarrow> string option \<Rightarrow> pyfloat option \<Rightarrow> decimal" where
  "alpha_of provenance diagnosis delta =
     dec_quantize 4 (dec_quantize 4 (provenance_weight provenance) *
       diagnosis_weight (str_upper (if truthy diagnosis then the diagnosis else ''NONE'')) *
       compute_timing_confidence delta)"

lemma alpha_unit: "0 \<le> alpha_of p d t \<and> alpha_of p d t \<le> 1"
  unfolding alpha_of_def
  by (intro dec_quantize_unit conjunct1[OF mult_unit] conjunct2[OF mult_unit] mult_unit weights_unit)
    (simp_all add: weights_unit dec_quantize_unit)

definition attributable :: "decimal option \<Rightarrow> treatment_status \<Rightarrow> string \<Rightarrow> model_provenance \<Rightarrow> string \<Rightarrow>
    string option \<Rightarrow> pyfloat option \<Rightarrow> bool" where
  "attributable p0 tr outcome prov st diag delta \<longleftrightarrow>
     tr = TREATED \<and> str_upper outcome \<in> {''CAPTURED'', ''PAYMENT.CAPTURED''} \<and>
     str_upper st = ''PREDICTED'' \<and> p0 \<noteq> None \<and> CONFIDENCE_FLOOR \<le> alpha_of prov diag delta"

text \<open>The calculator on its two outcomes.\<close>

lemma captured_not_in_flight:
  "str_upper s \<in> {''CAPTURED'', ''PAYMENT.CAPTURED''} \<Longrightarrow> str_upper s \<notin> {''UNKNOWN_IN_FLIGHT'', ''IN_FLIGHT''}"
  by auto

lemma calculate_attributable:
  assumes "attributable p0 tr outcome prov st diag delta"
  shows "let r = calculate_attribution amt p0 tr outcome prov st diag delta; p = dec_quantize 4 (the p0)
     in ca_status r = ATTRIBUTED \<and> ca_confidence r = alpha_of prov diag delta \<and>
        ca_loss_exposure r = max 0 (min (round_half_even (of_int amt * p)) amt) \<and>
        ca_natural_success r = max 0 (amt - ca_loss_exposure r) \<and>
        ca_protected r = max 0 (min (min (round_half_even (of_int amt * p * alpha_of prov diag delta))
                                      (ca_loss_exposure r)) amt)"
proof -
  have g: "tr = TREATED" "str_upper outcome \<in> {''CAPTURED'', ''PAYMENT.CAPTURED''}"
    "str_upper st = ''PREDICTED''" "p0 \<noteq> None" "\<not> alpha_of prov diag delta < CONFIDENCE_FLOOR"
    using assms by (simp_all add: attributable_def)
  show ?thesis
    using captured_not_in_flight[OF g(2)] g
    unfolding calculate_attribution_def Let_def alpha_of_def whole_units_def
    by (simp only: simp_thms if_True if_False treatment_status.distinct mult_1_right zero_neq_one
        one_neq_zero calculation.simps refl)
qed

lemma calculate_unattributed:
  assumes "\<not> attributable p0 tr outcome prov st diag delta"
  shows "\<exists>s c d. s \<noteq> ATTRIBUTED \<and> c \<in> {0, alpha_of prov diag delta} \<and>
     calculate_attribution amt p0 tr outcome prov st diag delta = unattributed s c d"
proof -
  let ?flight = "str_upper outcome \<in> {''UNKNOWN_IN_FLIGHT'', ''IN_FLIGHT''}"
  let ?captured = "str_upper outcome \<in> {''CAPTURED'', ''PAYMENT.CAPTURED''}"
  consider (flight) ?flight | (untreated) "\<not> ?flight" "tr = UNTREATED"
    | (failed) "\<not> ?flight" "tr = EXECUTION_FAILED" | (lost) "\<not> ?flight" "tr = TREATED" "\<not> ?captured"
    | (unpredicted) "\<not> ?flight" "tr = TREATED" ?captured "p0 = None \<or> str_upper st \<noteq> ''PREDICTED''"
    | (weak) "\<not> ?flight" "tr = TREATED" ?captured "str_upper st = ''PREDICTED''" "p0 \<noteq> None"
        "alpha_of prov diag delta < CONFIDENCE_FLOOR"
    using assms unfolding attributable_def linorder_not_less[symmetric] by (cases tr) blast+
  then show ?thesis
  proof cases
    case weak
    then show ?thesis
      by (intro exI[of _ INDETERMINATE_INSUFFICIENT_EVIDENCE] exI[of _ "alpha_of prov diag delta"] exI conjI)
        (simp, simp, unfold calculate_attribution_def Let_def alpha_of_def,
          simp only: simp_thms if_True if_False treatment_status.distinct mult_1_right zero_neq_one one_neq_zero)
  next
    case unpredicted
    then show ?thesis
      by (intro exI[of _ INDETERMINATE_INSUFFICIENT_EVIDENCE] exI[of _ 0] exI conjI)
        (simp, simp, unfold calculate_attribution_def Let_def,
          auto simp only: simp_thms if_True if_False treatment_status.distinct)
  qed (unfold calculate_attribution_def Let_def,
      auto simp only: simp_thms if_True if_False treatment_status.distinct attribution_status.distinct insert_iff)
qed

lemma clamped_ints:
  fixes x y a l n p :: int
  assumes "l = max 0 (min x a)" "n = max 0 (a - l)" "p = max 0 (min (min y l) a)"
  shows "0 \<le> p \<and> p \<le> l \<and> l \<le> max 0 a \<and> 0 \<le> n \<and> l + n = max 0 a"
  using assms by linarith

lemma unclamped_ints:
  fixes x y a l p :: int
  assumes "l = max 0 (min x a)" "p = max 0 (min (min y l) a)" "0 \<le> y \<and> y \<le> x \<and> x \<le> a"
  shows "l = x \<and> p = y"
  using assms by linarith

text \<open>Money is bounded and attributed exactly when the gates are passed, whatever the inputs.\<close>

lemma calculation_bounds:
  "let r = calculate_attribution amt p0 tr outcome prov st diag delta
   in 0 \<le> ca_protected r \<and> ca_protected r \<le> ca_loss_exposure r \<and> ca_loss_exposure r \<le> max 0 amt \<and>
      0 \<le> ca_natural_success r \<and> 0 \<le> ca_confidence r \<and> ca_confidence r \<le> 1 \<and>
      ((ca_status r = ATTRIBUTED) = attributable p0 tr outcome prov st diag delta) \<and>
      ca_loss_exposure r + ca_natural_success r = (if ca_status r = ATTRIBUTED then max 0 amt else 0)"
proof -
  define r where "r = calculate_attribution amt p0 tr outcome prov st diag delta"
  show ?thesis
  proof (cases "attributable p0 tr outcome prov st diag delta")
    case True
    note calc = calculate_attributable[OF True, of amt, folded r_def, unfolded Let_def]
    from calc have s: "ca_status r = ATTRIBUTED" by (elim conjE)
    from calc have c: "ca_confidence r = alpha_of prov diag delta" by (elim conjE)
    from calc have l: "ca_loss_exposure r = max 0 (min (round_half_even (of_int amt * dec_quantize 4 (the p0))) amt)"
      by (elim conjE)
    from calc have n: "ca_natural_success r = max 0 (amt - ca_loss_exposure r)" by (elim conjE)
    from calc have "ca_protected r = max 0 (min (min (round_half_even
        (of_int amt * dec_quantize 4 (the p0) * alpha_of prov diag delta)) (ca_loss_exposure r)) amt)" by (elim conjE)
    note clamped_ints[OF l n this] s c
    with True alpha_unit show ?thesis unfolding Let_def r_def[symmetric] by simp
  next
    case False
    from calculate_unattributed[OF False, of amt, folded r_def] obtain s c d where
      "s \<noteq> ATTRIBUTED" "c \<in> {0, alpha_of prov diag delta}" "r = unattributed s c d" by blast
    then have "ca_status r \<noteq> ATTRIBUTED" "0 \<le> ca_confidence r \<and> ca_confidence r \<le> 1"
      "ca_loss_exposure r = 0" "ca_natural_success r = 0" "ca_protected r = 0"
      using alpha_unit[of prov diag delta] by (auto simp: unattributed_def)
    with False show ?thesis unfolding Let_def r_def[symmetric] by simp
  qed
qed


text \<open>C21: For a probability between 0 and 1 and an amount that is not negative the calculator's clamps never
  bind: the exposure is the half-even rounding of amount times probability and the protected GMV that of
  amount times probability times confidence, and both only grow with the probability.\<close>
theorem attribution_unclamped:
  assumes "0 \<le> amt" "0 \<le> p" "p \<le> q" "q \<le> 1" "attributable (Some p) tr outcome prov st diag delta"
  shows "let r = calculate_attribution amt (Some p) tr outcome prov st diag delta;
             r' = calculate_attribution amt (Some q) tr outcome prov st diag delta
         in ca_loss_exposure r = round_half_even (of_int amt * dec_quantize 4 p) \<and>
            ca_protected r = round_half_even (of_int amt * dec_quantize 4 p * ca_confidence r) \<and>
            ca_loss_exposure r \<le> ca_loss_exposure r' \<and> ca_protected r \<le> ca_protected r'"
proof -
  have q: "attributable (Some q) tr outcome prov st diag delta" using assms(5) by (simp add: attributable_def)
  let ?a = "alpha_of prov diag delta" and ?P = "dec_quantize 4 p" and ?Q = "dec_quantize 4 q"
  have PQ: "?P \<le> ?Q"
    using assms(3) by (simp add: dec_quantize_def divide_right_mono rhe_mono)
  have u: "0 \<le> ?P" "?P \<le> 1" "0 \<le> ?Q" "?Q \<le> 1" using assms dec_quantize_unit[of p 4] dec_quantize_unit[of q 4] by auto
  have rounded: "0 \<le> round_half_even (of_int amt * x * ?a) \<and>
      round_half_even (of_int amt * x * ?a) \<le> round_half_even (of_int amt * x) \<and>
      round_half_even (of_int amt * x) \<le> amt" if x: "0 \<le> x" "x \<le> 1" for x
  proof -
    have "of_int amt * x * ?a \<le> of_int amt * x" using x assms(1) alpha_unit by (simp add: mult_left_le)
    moreover have "of_int amt * x \<le> of_int amt" using x assms(1) by (simp add: mult_left_le)
    then have "round_half_even (of_int amt * x) \<le> amt" using rhe_mono[of "of_int amt * x" "of_int amt"] by simp
    ultimately show ?thesis using x assms(1) alpha_unit[of prov diag delta] by (simp add: rhe_mono rhe_nonneg)
  qed
  have "round_half_even (of_int amt * ?P) \<le> round_half_even (of_int amt * ?Q)"
    "round_half_even (of_int amt * ?P * ?a) \<le> round_half_even (of_int amt * ?Q * ?a)"
    using PQ assms(1) alpha_unit[of prov diag delta] by (intro rhe_mono mult_left_mono mult_right_mono; simp)+
  note grows = this
  define r where "r = calculate_attribution amt (Some p) tr outcome prov st diag delta"
  define r' where "r' = calculate_attribution amt (Some q) tr outcome prov st diag delta"
  note calc = calculate_attributable[OF assms(5), of amt, folded r_def, unfolded Let_def option.sel]
  note calc' = calculate_attributable[OF q, of amt, folded r'_def, unfolded Let_def option.sel]
  from calc have c: "ca_confidence r = ?a" by (elim conjE)
  from calc have l: "ca_loss_exposure r = max 0 (min (round_half_even (of_int amt * ?P)) amt)" by (elim conjE)
  from calc have "ca_protected r = max 0 (min (min (round_half_even (of_int amt * ?P * ?a)) (ca_loss_exposure r)) amt)"
    by (elim conjE)
  note r = unclamped_ints[OF l this rounded[OF u(1,2)]]
  from calc' have l': "ca_loss_exposure r' = max 0 (min (round_half_even (of_int amt * ?Q)) amt)" by (elim conjE)
  from calc' have "ca_protected r' = max 0 (min (min (round_half_even (of_int amt * ?Q * ?a)) (ca_loss_exposure r')) amt)"
    by (elim conjE)
  note r' = unclamped_ints[OF l' this rounded[OF u(3,4)]]
  show ?thesis unfolding Let_def r_def[symmetric] r'_def[symmetric] using c r r' grows by simp
qed

lemma example_attributable:
  "attributable (Some (1 / 2)) TREATED ''CAPTURED'' SYNTHETIC_DEVELOPMENT ''PREDICTED'' (Some ''STRONG'') (Some 10)"
  "alpha_of SYNTHETIC_DEVELOPMENT (Some ''STRONG'') (Some 10) = 6 / 10"
proof -
  have "str_upper ''CAPTURED'' = ''CAPTURED''" "str_upper ''PREDICTED'' = ''PREDICTED''" "str_upper ''STRONG'' = ''STRONG''"
    by code_simp+
  then show "alpha_of SYNTHETIC_DEVELOPMENT (Some ''STRONG'') (Some 10) = 6 / 10"
    "attributable (Some (1 / 2)) TREATED ''CAPTURED'' SYNTHETIC_DEVELOPMENT ''PREDICTED'' (Some ''STRONG'') (Some 10)"
    by (simp_all add: attributable_def alpha_of_def CONFIDENCE_FLOOR_def diagnosis_weight_def
        compute_timing_confidence_def dec_quantize_def round_half_even_def)
qed

theorem attribution_unclamped_witness:
  "let r = calculate_attribution 250000 (Some (1 / 2)) TREATED ''CAPTURED'' SYNTHETIC_DEVELOPMENT ''PREDICTED'' (Some ''STRONG'') (Some 10)
   in ca_loss_exposure r = 125000 \<and> ca_protected r = 75000"
  using attribution_unclamped[OF _ _ _ _ example_attributable(1), of 250000 "1 / 2"]
    calculate_attributable[OF example_attributable(1), of 250000]
  by (simp add: Let_def example_attributable(2) dec_quantize_def round_half_even_def)

section \<open>The table\<close>

interpretation attribution_log: version_log db_attributions aa_command_id aa_version
    "\<lambda>db i. max_default 0 (map aa_version (filter (\<lambda>r. aa_command_id r = i) (db_attributions db)))" insert_attribution
  by unfold_locales (simp_all add: insert_attribution_def)

text \<open>What every stored row satisfies.\<close>

definition attribution_row_ok :: "('a attribution_db_scheme) \<Rightarrow> attribution_record \<Rightarrow> bool" where
  "attribution_row_ok db r \<longleftrightarrow>
     aa_attribution_id r = make_attribution_id (aa_command_id r) (aa_version r) \<and>
     map_option cm_source_system (get_command_by_id db (aa_command_id r)) = Some (aa_source_system r) \<and>
     0 \<le> aa_protected r \<and> aa_protected r \<le> aa_loss_exposure r \<and> aa_loss_exposure r \<le> max 0 (aa_amount r) \<and>
     0 \<le> aa_confidence r \<and> aa_confidence r \<le> 1 \<and>
     (if aa_status r = ATTRIBUTED
      then aa_treatment r = TREATED \<and> aa_outcome r = ''CAPTURED'' \<and> aa_failure_probability r \<noteq> None \<and>
           aa_loss_exposure r + aa_natural_success r = max 0 (aa_amount r)
      else aa_loss_exposure r = 0 \<and> aa_natural_success r = 0)"

definition attributions_ok :: "('a attribution_db_scheme) \<Rightarrow> bool" where
  "attributions_ok db \<longleftrightarrow> attribution_log.contiguous db \<and>
     distinct (map (\<lambda>r. (aa_command_id r, aa_as_of r)) (db_attributions db)) \<and>
     list_all (attribution_row_ok db) (db_attributions db)"

lemma insert_attribution_simps [simp]:
  "db_attributions (insert_attribution r db) = db_attributions db @ [r]"
  "get_command_by_id (insert_attribution r db) i = get_command_by_id db i"
  "attribution_row_ok (insert_attribution r db) q = attribution_row_ok db q"
  by (simp_all add: insert_attribution_def get_command_by_id_def attribution_row_ok_def)

lemma captured_outcome:
  "str_upper (evidence_outcome ev) \<in> {''CAPTURED'', ''PAYMENT.CAPTURED''} \<Longrightarrow> evidence_outcome ev = ''CAPTURED''"
proof -
  have "str_upper ''UNKNOWN_IN_FLIGHT'' = ''UNKNOWN_IN_FLIGHT''" "str_upper ''FAILED'' = ''FAILED''" by code_simp+
  then show "str_upper (evidence_outcome ev) \<in> {''CAPTURED'', ''PAYMENT.CAPTURED''} \<Longrightarrow> evidence_outcome ev = ''CAPTURED''"
    by (auto simp: evidence_outcome_def split: option.splits) (case_tac "ob_outcome x2"; simp)+
qed

lemma new_attribution_simps [simp]:
  "aa_command_id (new_attribution ev v now t a) = cm_command_id (ae_command ev)"
  "aa_version (new_attribution ev v now t a) = v" "aa_as_of (new_attribution ev v now t a) = t"
  "aa_attribution_id (new_attribution ev v now t a) = make_attribution_id (cm_command_id (ae_command ev)) v"
  "aa_source_system (new_attribution ev v now t a) = cm_source_system (ae_command ev)"
  "aa_payment_attempt_id (new_attribution ev v now t a) = cm_payment_attempt_id (ae_command ev)"
  "aa_decision_id (new_attribution ev v now t a) = de_decision_id (ae_decision ev)"
  by (simp_all add: new_attribution_def Let_def)

lemma new_attribution_row_ok:
  assumes "get_command_by_id db i = Some (ae_command ev)"
  shows "attribution_row_ok db (new_attribution ev v now t a)"
proof -
  define c where "c = evaluate_evidence ev a"
  note b = calculation_bounds[of a "evidence_p0 ev" "treatment_of (ae_decision ev) (ae_command ev) (ae_attempt ev) (ae_observation ev)"
      "evidence_outcome ev" "evidence_provenance ev"
      "case ae_prediction ev of None \<Rightarrow> ''NOT_ELIGIBLE'' | Some p \<Rightarrow> prediction_status_value (fp_status p)"
      "de_diagnosis_confidence (ae_decision ev)" "timing_delta (ae_attempt ev) (ae_observation ev)",
      folded evaluate_evidence_def c_def, unfolded Let_def]
  have "cm_command_id (ae_command ev) = i" using assms by (rule get_command_id)
  note i = this
  have fields: "aa_status r = ca_status c" "aa_loss_exposure r = ca_loss_exposure c" "aa_natural_success r = ca_natural_success c"
    "aa_protected r = ca_protected c" "aa_confidence r = ca_confidence c" "aa_amount r = a"
    "aa_treatment r = treatment_of (ae_decision ev) (ae_command ev) (ae_attempt ev) (ae_observation ev)"
    "aa_outcome r = evidence_outcome ev" "aa_failure_probability r = evidence_p0 ev"
    if "r = new_attribution ev v now t a" for r
    using that by (simp_all add: new_attribution_def Let_def c_def)
  show ?thesis
  proof (cases "ca_status c = ATTRIBUTED")
    case True
    with b have gates: "attributable (evidence_p0 ev)
        (treatment_of (ae_decision ev) (ae_command ev) (ae_attempt ev) (ae_observation ev)) (evidence_outcome ev)
        (evidence_provenance ev) (case ae_prediction ev of None \<Rightarrow> ''NOT_ELIGIBLE'' | Some p \<Rightarrow> prediction_status_value (fp_status p))
        (de_diagnosis_confidence (ae_decision ev)) (timing_delta (ae_attempt ev) (ae_observation ev))" by blast
    then have "evidence_outcome ev = ''CAPTURED''" by (intro captured_outcome) (simp add: attributable_def)
    with gates True b assms i show ?thesis
      unfolding attribution_row_ok_def attributable_def by (simp add: fields)
  next
    case False
    with b have "ca_loss_exposure c + ca_natural_success c = 0" "0 \<le> ca_natural_success c" "0 \<le> ca_loss_exposure c" by auto
    then have "ca_loss_exposure c = 0 \<and> ca_natural_success c = 0" by linarith
    with False b assms i show ?thesis
      unfolding attribution_row_ok_def by (simp add: fields)
  qed
qed

lemma make_attribution_id_inject: "make_attribution_id i v = make_attribution_id j w \<longleftrightarrow> i = j \<and> v = w"
  by (auto simp: make_attribution_id_def versioned_name_inject chars_def)

text \<open>The version after the latest is one past the largest.\<close>

lemma latest_version:
  "(case latest_by aa_version (filter (\<lambda>r. aa_command_id r = i) (db_attributions db)) of None \<Rightarrow> 1 | Some r \<Rightarrow> aa_version r + 1) =
     max_default 0 (map aa_version (filter (\<lambda>r. aa_command_id r = i) (db_attributions db))) + 1"
proof (cases "latest_by aa_version (filter (\<lambda>r. aa_command_id r = i) (db_attributions db))")
  case None
  then have "filter (\<lambda>r. aa_command_id r = i) (db_attributions db) = []" by simp
  then show ?thesis unfolding None by (simp only: list.map max_default_Nil option.case)
next
  case (Some r)
  let ?vs = "map aa_version (filter (\<lambda>r. aa_command_id r = i) (db_attributions db))"
  from latest_by_Some[OF Some] have mem: "aa_version r \<in> set ?vs" and "\<forall>v\<in>set ?vs. v \<le> aa_version r" by auto
  moreover have "?vs \<noteq> []" using mem by (metis length_pos_if_in_set list.size(3) not_less0)
  then have "max_default 0 ?vs \<in> set ?vs" by (rule max_default_in)
  ultimately have "max_default 0 ?vs = aa_version r" by (meson antisym max_default_upper)
  with Some show ?thesis by simp
qed


text \<open>Inversion of a run: the stored row of that instant, or a new one.\<close>

lemma checked_option_Inr:
  "checked_option db i None row = Inr x \<Longrightarrow> x = row"
  by (auto simp: checked_option_def provider_guard_def provider_checked_def split: option.splits if_splits)

lemma gather_evidence_Inr:
  "gather_evidence db i t = Inr ev \<Longrightarrow> get_command_by_id db i = Some (ae_command ev) \<and> cm_command_id (ae_command ev) = i \<and>
     get_decision db (cm_decision_id (ae_command ev)) = Some (ae_decision ev)"
  by (auto simp: gather_evidence_def get_command_id split: option.splits)

lemma attribute_Inr:
  assumes "attribute_payment_intervention t now i db = Inr (r, db')"
  obtains (stored) "db' = db" "find (\<lambda>r. aa_command_id r = i \<and> aa_as_of r = t) (db_attributions db) = Some r"
  | (new) ev ref a where "find (\<lambda>r. aa_command_id r = i \<and> aa_as_of r = t) (db_attributions db) = None"
      "gather_evidence db i t = Inr ev" "require_command_attempt db (ae_command ev) = Inr ref"
      "evidence_consistent ev"
      "r = new_attribution ev (max_default 0 (map aa_version (filter (\<lambda>r. aa_command_id r = i) (db_attributions db))) + 1) now t a"
      "db' = insert_attribution r db"
proof -
  let ?row = "find (\<lambda>r. aa_command_id r = i \<and> aa_as_of r = t) (db_attributions db)"
  let ?latest = "latest_by aa_version (filter (\<lambda>r. aa_command_id r = i) (db_attributions db))"
  from assms obtain existing where e: "checked_option db i None ?row = Inr existing"
    unfolding attribute_payment_intervention_def get_attribution_by_as_of_def by (auto simp: bind_result_Inr)
  then have row: "existing = ?row" by (rule checked_option_Inr)
  show thesis
  proof (cases ?row)
    case (Some q)
    with assms e row have "q = r \<and> db' = db"
      by (simp add: attribute_payment_intervention_def get_attribution_by_as_of_def)
    with Some stored show thesis by simp
  next
    case None
    with assms e row obtain latest where l: "checked_option db i None ?latest = Inr latest"
      by (auto simp: attribute_payment_intervention_def get_attribution_by_as_of_def get_latest_attribution_def bind_result_Inr)
    then have "latest = ?latest" by (rule checked_option_Inr)
    with assms e row None l obtain ev ref amount where
      "gather_evidence db i t = Inr ev" "require_command_attempt db (ae_command ev) = Inr ref" "evidence_consistent ev"
      "append_attribution r db = Inr db'"
      "r = new_attribution ev (case ?latest of None \<Rightarrow> 1 | Some r \<Rightarrow> aa_version r + 1) now t (case amount of None \<Rightarrow> 0 | Some a \<Rightarrow> a)"
      by (auto simp: attribute_payment_intervention_def get_attribution_by_as_of_def get_latest_attribution_def
          bind_result_Inr Let_def)
    with None new[of ev ref "case amount of None \<Rightarrow> 0 | Some a \<Rightarrow> a"] show thesis
      by (simp add: latest_version append_attribution_def split: if_splits)
  qed
qed


lemma filter_one_none: "find P xs = None \<Longrightarrow> x \<in> set xs \<Longrightarrow> \<not> P x"
  by (auto simp: find_None_iff)

text \<open>A request keeps the table well-formed.\<close>

lemma attribute_preserves_ok:
  assumes ok: "attributions_ok db" and run: "attribute_payment_intervention t now i db = Inr (r, db')"
  shows "attributions_ok db'"
  using run
proof (cases rule: attribute_Inr)
  case stored
  then show ?thesis using ok by simp
next
  case (new ev ref a)
  from new have "aa_as_of r = t" by simp
  from new have c: "cm_command_id (ae_command ev) = i" "get_command_by_id db i = Some (ae_command ev)"
    using gather_evidence_Inr by blast+
  have row: "attribution_row_ok db r" unfolding new(5) by (rule new_attribution_row_ok[OF c(2)])
  have "attribution_log.contiguous db'"
    using ok new c by (simp add: attribution_log.append_contiguous attributions_ok_def)
  moreover have "(i, t) \<notin> (\<lambda>r. (aa_command_id r, aa_as_of r)) ` set (db_attributions db)"
    using filter_one_none[OF new(1)] by auto
  moreover have "(aa_command_id r, aa_as_of r) = (i, t)" using new(5) c by simp
  ultimately show ?thesis
    using ok row unfolding attributions_ok_def new(6) by (auto simp: list_all_iff)
qed

text \<open>A request on a well-formed table never violates a constraint.\<close>

lemma attribute_no_conflict:
  assumes ok: "attributions_ok db" and run: "attribute_payment_intervention t now i db = Inl e"
  shows "e \<in> {MissingUpstreamDataError, AttemptNotRegisteredError, AttemptProviderConflictError,
     UnsupportedProviderError, InvalidAttemptIdentityError}"
proof -
  have checked: "checked_option db i None row = Inl e' \<Longrightarrow> e' = AttemptProviderConflictError" for row e'
    by (auto simp: checked_option_def provider_guard_def provider_checked_def split: option.splits if_splits)
  have fresh: "append_attribution (new_attribution ev v now t a) db = Inr (insert_attribution (new_attribution ev v now t a) db)"
    if ev: "gather_evidence db i t = Inr ev" "require_command_attempt db (ae_command ev) = Inr ref" "evidence_consistent ev"
      and none: "find (\<lambda>r. aa_command_id r = i \<and> aa_as_of r = t) (db_attributions db) = None"
      and v: "v = max_default 0 (map aa_version (filter (\<lambda>r. aa_command_id r = i) (db_attributions db))) + 1"
    for ev ref v a
  proof -
    from gather_evidence_Inr[OF ev(1)] have c: "cm_command_id (ae_command ev) = i"
      "find (\<lambda>c. cm_command_id c = i) (db_commands db) = Some (ae_command ev)"
      "find (\<lambda>d. de_decision_id d = cm_decision_id (ae_command ev)) (db_decisions db) = Some (ae_decision ev)"
      by (auto simp: get_command_by_id_def get_decision_def)
    have "aa_attribution_id q \<noteq> make_attribution_id i v \<and> \<not> (aa_command_id q = i \<and> (aa_version q = v \<or> aa_as_of q = t))"
      if q: "q \<in> set (db_attributions db)" for q
    proof -
      have "aa_command_id q = i \<Longrightarrow> aa_version q < v"
        using q v max_default_upper[of "aa_version q" "map aa_version (filter (\<lambda>r. aa_command_id r = i) (db_attributions db))" 0]
        by auto
      moreover have "aa_attribution_id q = make_attribution_id (aa_command_id q) (aa_version q)"
        using ok q by (auto simp: attributions_ok_def list_all_iff attribution_row_ok_def)
      ultimately show ?thesis using filter_one_none[OF none q] by (auto simp: make_attribution_id_inject)
    qed
    moreover have "joined_attempt db (cm_payment_attempt_id (ae_command ev)) (cm_source_system (ae_command ev))"
      using ev(2) require_joined for_key_Inr by (fastforce simp: require_command_attempt_def bind_result_Inr)
    moreover have "ae_command ev \<in> set (db_commands db)" "ae_decision ev \<in> set (db_decisions db)"
      using c by (auto dest: find_SomeD)
    ultimately show ?thesis
      using c(1) ev(3) by (auto simp: append_attribution_def list_ex_iff evidence_consistent_def Let_def)
  qed
  let ?row = "find (\<lambda>r. aa_command_id r = i \<and> aa_as_of r = t) (db_attributions db)"
  let ?latest = "latest_by aa_version (filter (\<lambda>r. aa_command_id r = i) (db_attributions db))"
  show ?thesis
  proof (cases "checked_option db i None ?row")
    case (Inl e')
    with run checked[OF Inl] show ?thesis
      by (simp add: attribute_payment_intervention_def get_attribution_by_as_of_def)
  next
    case (Inr x)
    note row = this checked_option_Inr[OF this]
    with run have none: "?row = None"
      by (auto simp: attribute_payment_intervention_def get_attribution_by_as_of_def split: option.splits)
    show ?thesis
    proof (cases "checked_option db i None ?latest")
      case (Inl e')
      with run row none checked[OF Inl] show ?thesis
        by (simp add: attribute_payment_intervention_def get_attribution_by_as_of_def get_latest_attribution_def)
    next
      case (Inr y)
      note latest = this checked_option_Inr[OF this]
      have "require_command_attempt db c = Inl e' \<Longrightarrow> e' \<in> {AttemptNotRegisteredError, AttemptProviderConflictError,
          UnsupportedProviderError, InvalidAttemptIdentityError}" for c e'
        by (auto simp: require_command_attempt_def require_attempt_def for_key_def new_attempt_ref_def Let_def
            bind_result_Inl split: option.splits if_splits)
      moreover have "provider_guard (Some s) = Inl e' \<Longrightarrow> e' = UnsupportedProviderError" for s e'
        by (auto simp: provider_guard_def validate_provider_def bind_result_Inl require_that_def split: if_splits)
      moreover have "gather_evidence db i t = Inl e' \<Longrightarrow> e' = MissingUpstreamDataError" for e'
        by (auto simp: gather_evidence_def split: option.splits)
      ultimately show ?thesis
        using run row none latest fresh latest_version[of i db]
        by (auto simp: attribute_payment_intervention_def get_attribution_by_as_of_def get_latest_attribution_def
            get_canonical_payment_amount_def bind_result_Inl Let_def)
    qed
  qed
qed


text \<open>Asking again for the instant of a stored row returns it.\<close>

lemma attribute_again:
  assumes ok: "attributions_ok db" and run: "attribute_payment_intervention t now i db = Inr (r, db')"
  shows "attribute_payment_intervention t now' i db' = Inr (r, db')"
proof -
  let ?P = "\<lambda>r. aa_command_id r = i \<and> aa_as_of r = t"
  have stored: "find ?P (db_attributions db') = Some r"
    using run
  proof (cases rule: attribute_Inr)
    case stored
    then show ?thesis by simp
  next
    case (new ev ref a)
    then have "?P r" using gather_evidence_Inr by auto
    moreover have "find P xs = None \<Longrightarrow> P y \<Longrightarrow> find P (xs @ [y]) = Some y"
      for P and xs :: "attribution_record list" and y by (induction xs) (auto split: if_splits)
    ultimately show ?thesis using new by simp
  qed
  then have "r \<in> set (db_attributions db')" "aa_command_id r = i" by (auto dest: find_SomeD)
  with attribute_preserves_ok[OF ok run]
  have "map_option cm_source_system (get_command_by_id db' i) = Some (aa_source_system r)"
    by (auto simp: attributions_ok_def list_all_iff attribution_row_ok_def)
  then have "checked_option db' i None (Some r) = Inr (Some r)"
    by (auto simp: checked_option_def provider_guard_def provider_checked_def)
  with stored show ?thesis
    by (simp add: attribute_payment_intervention_def get_attribution_by_as_of_def)
qed

text \<open>A sequence of requests; one that raises is rolled back.\<close>

definition attribution_runs :: "(datetime \<times> datetime \<times> uuid) list \<Rightarrow> ('a attribution_db_scheme) \<Rightarrow> ('a attribution_db_scheme)" where
  "attribution_runs requests db =
     fold (\<lambda>(t, now, i) db. case attribute_payment_intervention t now i db of Inl e \<Rightarrow> db | Inr (r, db') \<Rightarrow> db') requests db"

lemma attribution_runs_ok: "attributions_ok db \<Longrightarrow> attributions_ok (attribution_runs requests db)"
proof (induction requests arbitrary: db)
  case (Cons q requests)
  obtain t now i where q: "q = (t, now, i)" by (cases q)
  have "attributions_ok (case attribute_payment_intervention t now i db of Inl e \<Rightarrow> db | Inr (r, db') \<Rightarrow> db')"
    using Cons.prems attribute_preserves_ok by (auto split: sum.splits)
  with Cons.IH show ?case by (simp add: attribution_runs_def q)
qed (simp add: attribution_runs_def)

text \<open>C22: Whatever sequence of attribution requests is served from an empty table, versions are contiguous per
  command and each instant is attributed once; every row has bounded money (protected at most the exposure,
  exposure plus natural success the amount when attributed and nothing otherwise) and attributes only
  treated, captured payments; the next request never violates a constraint, and repeated at the same instant
  it returns the stored row and changes nothing.\<close>
theorem attribution_table_consistent:
  "let db' = attribution_runs requests (db\<lparr>db_attributions := []\<rparr>)
   in attribution_log.contiguous db' \<and>
      distinct (map (\<lambda>r. (aa_command_id r, aa_as_of r)) (db_attributions db')) \<and>
      list_all (attribution_row_ok db') (db_attributions db') \<and>
      (case attribute_payment_intervention t now i db' of
         Inl e \<Rightarrow> e \<in> {MissingUpstreamDataError, AttemptNotRegisteredError, AttemptProviderConflictError,
                     UnsupportedProviderError, InvalidAttemptIdentityError}
       | Inr (r, db'') \<Rightarrow> attribute_payment_intervention t now' i db'' = Inr (r, db''))"
proof -
  have "attributions_ok (db\<lparr>db_attributions := []\<rparr>)"
    by (simp add: attributions_ok_def attribution_log.contiguous_def attribution_log.versions_of_def)
  then have ok: "attributions_ok (attribution_runs requests (db\<lparr>db_attributions := []\<rparr>))" by (rule attribution_runs_ok)
  then show ?thesis unfolding Let_def
    using attribute_again[OF ok, of t now i _ _ now'] attribute_no_conflict[OF ok, of t now i]
    by (auto simp: attributions_ok_def split: sum.splits)
qed

section \<open>Information barriers\<close>

text \<open>The facts known by an instant; commands, decisions and predictions are read without a cutoff.\<close>

definition known_by :: "datetime \<Rightarrow> ('a execution_db_scheme) \<Rightarrow> ('a execution_db_scheme)" where
  "known_by t db =
     db\<lparr>db_exec_attempts := filter (\<lambda>x. xa_created_at x \<le> t) (db_exec_attempts db),
       db_observations := filter (\<lambda>q. ob_as_of q \<le> t) (db_observations db),
       db_events := filter (\<lambda>e. ev_ingested_at e \<le> t) (db_events db)\<rparr>"

lemma known_by_frame [simp]:
  "get_command_by_id (known_by t db) i = get_command_by_id db i"
  "db_attributions (known_by t db) = db_attributions db"
  "get_decision (known_by t db) k = get_decision db k"
  "get_prediction (known_by t db) = get_prediction db"
  "require_command_attempt (known_by t db) c = require_command_attempt db c"
  "joined_attempt (known_by t db) = joined_attempt db"
  "db_commands (known_by t db) = db_commands db" "db_decisions (known_by t db) = db_decisions db"
  by (auto simp: known_by_def get_command_by_id_def get_decision_def get_prediction_def fun_eq_iff
      require_command_attempt_def require_attempt_def lookup_attempt_def bind_result_def joined_attempt_def
      split: sum.splits)

lemma known_by_reads [simp]:
  "get_latest_execution_attempt (known_by t db) i t = get_latest_execution_attempt db i t"
  "get_latest_outcome_observation (known_by t db) i t = get_latest_outcome_observation db i t"
  "t' \<le> t \<Longrightarrow> get_canonical_payment_amount (known_by t db) k t' s = get_canonical_payment_amount db k t' s"
proof -
  show "get_latest_execution_attempt (known_by t db) i t = get_latest_execution_attempt db i t"
    by (auto simp: get_latest_execution_attempt_def known_by_def intro!: arg_cong2[of _ _ _ _ latest_by] filter_cong)
  show "get_latest_outcome_observation (known_by t db) i t = get_latest_outcome_observation db i t"
    by (auto simp: get_latest_outcome_observation_def known_by_def intro!: arg_cong2[of _ _ _ _ latest_by] filter_cong)
  assume "t' \<le> t"
  then have "filter (sizing_condition k t' s) (filter (\<lambda>e. ev_ingested_at e \<le> t) es) = filter (sizing_condition k t' s) es" for es
    by (induction es) (auto simp: sizing_condition_def)
  then show "get_canonical_payment_amount (known_by t db) k t' s = get_canonical_payment_amount db k t' s"
    by (simp add: get_canonical_payment_amount_def known_by_def del: filter_filter)
qed

lemma insert_known_by: "insert_attribution r (known_by t db) = known_by t (insert_attribution r db)"
  by (simp add: insert_attribution_def known_by_def)


section \<open>Evidence and its order\<close>

text \<open>
  The observation used is the one with the highest version, not with the latest instant: a later observation
  of an earlier instant hides the captured outcome that was known at the instant of the attribution.
\<close>

lemma latest_observation_by_version:
  "let capture = example_event ''payment.captured'' ''pay_1'' 50;
       cmd = \<lparr>cm_command_id = example_command_id, cm_decision_id = make_decision_id ''pay_1'' 1,
              cm_payment_attempt_id = ''pay_1'', cm_source_system = RAZORPAY_SOURCE_SYSTEM, cm_decision_version = 1,
              cm_route_key = RETRY_SECONDARY_GATEWAY, cm_policy_id = ''p'', cm_policy_version = ''1'',
              cm_status = SUCCEEDED, cm_status_reason = None, cm_idempotency_key = [], cm_created_at = 0,
              cm_expires_at = 300, cm_updated_at = 0\<rparr>;
       db = example_db\<lparr>db_observations := [new_observation example_command_id cmd 1 200 100 [capture],
                                             new_observation example_command_id cmd 2 300 50 []]\<rparr>
   in map_option ob_outcome (get_latest_outcome_observation db example_command_id 100) = Some UNKNOWN_IN_FLIGHT"
  by code_simp

text \<open>
  The comment promises the authorization that Stage 6 sized the decision from. It is that one for a PayPal
  attempt and whenever the visible authorizations of the payment id share the command's provider; Stage 6
  does not filter by provider, so with a SYNTHETIC one of the same id the amounts differ.
\<close>

lemma amount_matches_decision:
  assumes "source \<in> set PIPELINE_PROVIDERS"
    and "if source = PAYPAL_SOURCE_SYSTEM then paypal_order_id k \<noteq> None
         else paypal_order_id k = None \<and>
           list_all (\<lambda>e. ev_payment_id e = k \<and> ev_event_type e = PIPELINE_TRIGGER_EVENT_TYPE \<and> event_visible e \<longrightarrow>
             ev_source_system e = source) (db_events db)"
  shows "get_canonical_payment_amount db k t (Some source) =
     Inr (map_option ev_amount_minor_units (get_payment_event_by_id db k t))"
proof -
  have guard: "provider_guard (Some source) = Inr ()"
    using assms(1) by (simp add: provider_guard_def validate_provider_def)
  have visible: "source \<noteq> PAYPAL_SOURCE_SYSTEM \<Longrightarrow> ev_source_system e = source \<Longrightarrow> event_visible e" for e
    by (simp add: event_visible_def NON_RAZORPAY_PIPELINE_SOURCES_def)
  show ?thesis
  proof (cases "source = PAYPAL_SOURCE_SYSTEM")
    case True
    with assms(2) obtain y where y: "paypal_order_id k = Some y" by auto
    with True have "sizing_condition k t (Some source) = (\<lambda>e. paypal_trigger_events y e \<and> ev_ingested_at e \<le> t)"
      by (auto simp: sizing_condition_def fun_eq_iff)
    with y guard show ?thesis by (simp add: get_canonical_payment_amount_def get_payment_event_by_id_def)
  next
    case False
    with assms(2) have "filter (sizing_condition k t (Some source)) (db_events db) =
        filter (\<lambda>e. ev_payment_id e = k \<and> ev_event_type e = PIPELINE_TRIGGER_EVENT_TYPE \<and> ev_ingested_at e \<le> t \<and>
          event_visible e) (db_events db)"
      by (intro filter_cong) (auto simp: sizing_condition_def list_all_iff PIPELINE_TRIGGER_EVENT_TYPE_def visible)
    with False assms(2) guard show ?thesis
      by (simp add: get_canonical_payment_amount_def get_payment_event_by_id_def)
  qed
qed

lemma amount_differs_from_decision:
  "let auth = example_event ''payment.authorized'' ''pay_1'' 0;
       db = example_db\<lparr>db_events := [auth, auth\<lparr>ev_source_system := SYNTHETIC_SOURCE_SYSTEM, ev_amount_minor_units := 7,
                                                ev_ingested_at := seconds 2\<rparr>]\<rparr>
   in get_canonical_payment_amount db ''pay_1'' (seconds 3) (Some RAZORPAY_SOURCE_SYSTEM) = Inr (Some 250000) \<and>
      map_option ev_amount_minor_units (get_payment_event_by_id db ''pay_1'' (seconds 3)) = Some 7"
  by code_simp

end
