(* ===== verification/Pipeline.thy ===== *)
theory Pipeline
  imports Attribution
begin

text \<open>
  The live pipeline (\<open>core/services/live_pipeline.py\<close>): Stages 2-8 for one ingested event, with its commit
  points, the rollback of an exception and the stage that is reported, and the invariants of all stages
  under any sequence of runs.
\<close>

section \<open>Model\<close>

datatype stage =
    STAGE_2_ANALYTICS | STAGE_3_DEGRADATION | STAGE_4_RCA | STAGE_5_REGISTRATION | STAGE_5_PREDICTION
  | STAGE_6_DECISION | STAGE_7_EXECUTION | STAGE_7_OBSERVATION_TERMINAL | STAGE_8_ATTRIBUTION_TERMINAL

text \<open>
  What a run takes from outside: the rendering of ids that orders rows, the wall clock at each stage and
  the random ids drawn.
\<close>

record pipeline_env =
  en_uuid_str :: "uuid \<Rightarrow> string"
  en_clock :: "stage \<Rightarrow> datetime"
  en_snapshot_ids :: "nat \<Rightarrow> uuid"
  en_signal_ids :: "nat \<Rightarrow> nat \<Rightarrow> uuid"
  en_run_ids :: "nat \<Rightarrow> uuid"
  en_attempt_id :: uuid

record pipeline_report =
  rp_payment_id :: string
  rp_attempt :: "string option"
  rp_prediction :: "failure_prediction option"
  rp_decision :: "intervention_decision option"
  rp_command :: "intervention_command option"
  rp_observation :: "outcome_observation option"
  rp_attribution :: "attribution_record option"

datatype pipeline_result = PipelineSuccess pipeline_report | PipelineFailed string stage exn

text \<open>The stage of an exception.\<close>

definition at_stage :: "stage \<Rightarrow> (exn, 'a) result \<Rightarrow> (stage \<times> exn, 'a) result" where
  "at_stage st r = (case r of Inl e \<Rightarrow> Inl (st, e) | Inr a \<Rightarrow> Inr a)"

section \<open>Stages 2-4\<close>

text \<open>The snapshots of the window, grouped by segment in the order of first occurrence.\<close>

definition segments_of_window :: "datetime \<Rightarrow> datetime \<Rightarrow> ('a analytics_db_scheme) \<Rightarrow> snapshot list list" where
  "segments_of_window window_start window_end db =
     (let snapshots = filter (\<lambda>s. window_start \<le> hs_window_start s \<and> hs_window_end s \<le> window_end) (db_snapshots db);
          segment = (\<lambda>s. (hs_dimension s, hs_value s));
          keys = rev (remdups (rev (map segment snapshots)))
      in map (\<lambda>k. filter (\<lambda>s. segment s = k) snapshots) keys)"

definition active_episodes :: "('a degradation_db_scheme) \<Rightarrow> degradation_episode list" where
  "active_episodes db = filter (\<lambda>ep. ep_status ep = ACTIVE) (db_episodes db)"

text \<open>
  An evaluation that is persisted commits the session; the state is the committed database and the current
  one.
\<close>

definition evaluate_active ::
  "datetime \<Rightarrow> degradation_episode \<Rightarrow> ('a rca_db_scheme) \<times> ('a rca_db_scheme) \<Rightarrow>
   (stage \<times> exn \<times> ('a rca_db_scheme), ('a rca_db_scheme) \<times> ('a rca_db_scheme)) result" where
  "evaluate_active now ep = (\<lambda>(committed, db).
     case evaluate_episode now ep db of
       Inl e \<Rightarrow> Inl (STAGE_4_RCA, e, committed)
     | Inr db' \<Rightarrow> Inr (if db_evaluations db' = db_evaluations db then committed else db', db'))"

text \<open>
  Stages 2-4 of an event. \<open>Inl\<close> carries the database that the rollback restores: Stage 2 commits its
  snapshots, a persisted evaluation everything before it, and the end of Stage 4 the rest.
\<close>

definition run_stages_3_and_4 ::
  "pipeline_env \<Rightarrow> payment_event \<Rightarrow> datetime \<Rightarrow> datetime \<Rightarrow> ('a rca_db_scheme) \<Rightarrow>
   (stage \<times> exn \<times> ('a rca_db_scheme), 'a rca_db_scheme) result" where
  "run_stages_3_and_4 env event window_start window_end db2 =
     (case fold_result
            (\<lambda>(k, seg). process_snapshots (en_signal_ids env k) (en_run_ids env k) seg (ev_timestamp event))
            (enumerate 0 (segments_of_window window_start window_end db2)) db2 of
        Inl e \<Rightarrow> Inl (STAGE_3_DEGRADATION, e, db2)
      | Inr db3 \<Rightarrow>
          bind_result (fold_result (evaluate_active (en_clock env STAGE_4_RCA)) (active_episodes db3) (db2, db3))
            (\<lambda>(committed, db4). Inr db4))"

definition run_stages_2_to_4 ::
  "pipeline_env \<Rightarrow> payment_event \<Rightarrow> ('a rca_db_scheme) \<Rightarrow>
   (stage \<times> exn \<times> ('a rca_db_scheme), 'a rca_db_scheme) result" where
  "run_stages_2_to_4 env event db =
     (let event_ts = ev_timestamp event;
          minute = dt_minute event_ts;
          window_start = dt_replace_minute event_ts ((minute div 5) * 5);
          window_end = window_start + minutes 5
      in run_stages_3_and_4 env event window_start window_end
           (calculate_and_save_window (en_snapshot_ids env) (en_clock env STAGE_2_ANALYTICS) window_start window_end db))"

section \<open>Stages 5-8\<close>

definition t_eval :: "payment_event \<Rightarrow> datetime" where
  "t_eval event = max (ev_timestamp event) (ev_ingested_at event)"

definition empty_report :: "payment_event \<Rightarrow> attempt_ref option \<Rightarrow> pipeline_report" where
  "empty_report event ref =
     \<lparr>rp_payment_id = ev_payment_id event, rp_attempt = map_option ar_payment_attempt_id ref,
      rp_prediction = None, rp_decision = None, rp_command = None, rp_observation = None, rp_attribution = None\<rparr>"

definition live_executor :: "intervention_command \<Rightarrow> json \<Rightarrow> execution_result" where
  "live_executor = simulator_execute ALWAYS_SUCCEED 15 []"

text \<open>A decision to act is executed at once; the report keeps the command as it was created.\<close>

definition run_action ::
  "pipeline_env \<Rightarrow> datetime \<Rightarrow> intervention_decision \<Rightarrow> pipeline_report \<Rightarrow> ('a attribution_db_scheme) \<Rightarrow>
   (stage \<times> exn, pipeline_report \<times> ('a attribution_db_scheme)) result" where
  "run_action env t decision rp db =
     (if de_type decision \<noteq> ACT then Inr (rp, db)
      else bind_result (at_stage STAGE_7_EXECUTION (create_command decision 300 t db)) (\<lambda>(command, db1).
           bind_result (at_stage STAGE_7_EXECUTION
               (execute_command live_executor (en_attempt_id env) (JObj []) t (cm_command_id command) db1))
             (\<lambda>(_, db2). Inr (rp\<lparr>rp_command := Some command\<rparr>, db2))))"

definition run_trigger ::
  "pipeline_env \<Rightarrow> payment_event \<Rightarrow> attempt_ref \<Rightarrow> ('a attribution_db_scheme) \<Rightarrow>
   (stage \<times> exn, pipeline_report \<times> ('a attribution_db_scheme)) result" where
  "run_trigger env event ref db =
     (case register_attempt (en_clock env STAGE_5_REGISTRATION) event db of
        Inl AttemptProviderConflictError \<Rightarrow> Inr (empty_report event None, db)
      | Inl e \<Rightarrow> Inl (STAGE_5_REGISTRATION, e)
      | Inr (_, db1) \<Rightarrow>
          bind_result (at_stage STAGE_5_PREDICTION
              (orchestrate_prediction (en_uuid_str env) DeterministicBaselineModel (en_clock env STAGE_5_PREDICTION)
                 ref (t_eval event) db1))
            (\<lambda>(prediction, db2).
              let rp = (empty_report event (Some ref))\<lparr>rp_prediction := Some prediction\<rparr>
              in if (case fp_failure_probability prediction of None \<Rightarrow> False | Some p \<Rightarrow> p > 1 / 2)
                 then bind_result (at_stage STAGE_6_DECISION
                          (decide (en_uuid_str env) get_default_policy (en_clock env STAGE_6_DECISION) ref (t_eval event) db2))
                        (\<lambda>(decision, db3). run_action env (t_eval event) decision (rp\<lparr>rp_decision := Some decision\<rparr>) db3)
                 else Inr (rp, db2)))"

text \<open>Every command of the attempt key is observed and attributed as of the terminal event.\<close>

definition observe_and_attribute ::
  "pipeline_env \<Rightarrow> payment_event \<Rightarrow> intervention_command \<Rightarrow> pipeline_report \<times> ('a attribution_db_scheme) \<Rightarrow>
   (stage \<times> exn, pipeline_report \<times> ('a attribution_db_scheme)) result" where
  "observe_and_attribute env event cmd = (\<lambda>(rp, db).
     let as_of_terminal = max (ev_ingested_at event) (cm_updated_at cmd)
     in bind_result (at_stage STAGE_7_OBSERVATION_TERMINAL
            (observe as_of_terminal (en_clock env STAGE_7_OBSERVATION_TERMINAL) (cm_command_id cmd) db))
          (\<lambda>(ob, db1).
        bind_result (at_stage STAGE_8_ATTRIBUTION_TERMINAL
            (attribute_payment_intervention as_of_terminal (en_clock env STAGE_8_ATTRIBUTION_TERMINAL) (cm_command_id cmd) db1))
          (\<lambda>(aa, db2). Inr (rp\<lparr>rp_observation := Some ob, rp_attribution := Some aa\<rparr>, db2))))"

definition run_terminal ::
  "pipeline_env \<Rightarrow> payment_event \<Rightarrow> attempt_ref \<Rightarrow> ('a attribution_db_scheme) \<Rightarrow>
   (stage \<times> exn, pipeline_report \<times> ('a attribution_db_scheme)) result" where
  "run_terminal env event ref db =
     fold_result (observe_and_attribute env event)
       (filter (\<lambda>c. cm_payment_attempt_id c = ar_payment_attempt_id ref) (db_commands db))
       (empty_report event (Some ref), db)"

definition run_stages_5_to_8 ::
  "pipeline_env \<Rightarrow> payment_event \<Rightarrow> pipeline_attempt option \<Rightarrow> ('a attribution_db_scheme) \<Rightarrow>
   (stage \<times> exn, pipeline_report \<times> ('a attribution_db_scheme)) result" where
  "run_stages_5_to_8 env event attempt db =
     (case attempt of
        None \<Rightarrow> Inr (empty_report event None, db)
      | Some a \<Rightarrow>
          (case pa_role a of
             TRIGGER \<Rightarrow> run_trigger env event (pa_ref a) db
           | TERMINAL \<Rightarrow> run_terminal env event (pa_ref a) db))"

section \<open>A run\<close>

definition finish_run ::
  "payment_event \<Rightarrow> ('a attribution_db_scheme) \<Rightarrow> (stage \<times> exn, pipeline_report \<times> ('a attribution_db_scheme)) result \<Rightarrow>
   pipeline_result \<times> ('a attribution_db_scheme)" where
  "finish_run event committed r =
     (case r of
        Inl (st, e) \<Rightarrow> (PipelineFailed (ev_payment_id event) st e, committed)
      | Inr (rp, db) \<Rightarrow> (PipelineSuccess rp, db))"

text \<open>Only the resolution of the attempt stands outside the \<open>try\<close> block.\<close>

definition run_live_pipeline ::
  "pipeline_env \<Rightarrow> payment_event \<Rightarrow> ('a attribution_db_scheme) \<Rightarrow>
   (exn, pipeline_result \<times> ('a attribution_db_scheme)) result" where
  "run_live_pipeline env event db =
     bind_result (resolve_pipeline_attempt event) (\<lambda>attempt.
       if ev_source_system event = PAYPAL_SOURCE_SYSTEM
       then Inr (finish_run event db (run_stages_5_to_8 env event attempt db))
       else case run_stages_2_to_4 env event db of
              Inl (st, e, committed) \<Rightarrow> Inr (PipelineFailed (ev_payment_id event) st e, committed)
            | Inr db4 \<Rightarrow> Inr (finish_run event db4 (run_stages_5_to_8 env event attempt db4)))"

section \<open>Frames\<close>

text \<open>The tables that Stages 2-4 leave alone.\<close>

definition records :: "('a attribution_db_scheme) \<Rightarrow>
    raw_record list \<times> payment_event list \<times> attempt_row list \<times> failure_prediction list \<times> intervention_decision list \<times>
    intervention_command list \<times> execution_attempt list \<times> outcome_observation list \<times> attribution_record list" where
  "records db = (db_raw db, db_events db, db_attempts db, db_predictions db, db_decisions db,
     db_commands db, db_exec_attempts db, db_observations db, db_attributions db)"

lemma fold_result_frame:
  assumes "\<And>x s s'. f x s = Inr s' \<Longrightarrow> g s' = g s" "fold_result f xs s = Inr s'"
  shows "g s' = g s"
  using assms(2)
proof (induction xs arbitrary: s)
  case (Cons x xs)
  then obtain t where "f x s = Inr t" "fold_result f xs t = Inr s'" by (auto simp: bind_result_Inr)
  with Cons.IH assms(1) show ?case by metis
qed simp

lemma fold_frame: "(\<And>x s. g (f x s) = g s) \<Longrightarrow> g (fold f xs s) = g s"
  by (induction xs arbitrary: s) simp_all

lemma records_stage2 [simp]: "records (calculate_and_save_window ids now ws we db) = records db"
  by (simp add: calculate_and_save_window_def Let_def upsert_snapshots_def records_def)

lemma records_stage3: "process_snapshots ids run_id seg t db = Inr db' \<Longrightarrow> records db' = records db"
proof -
  assume run: "process_snapshots ids run_id seg t db = Inr db'"
  have append: "append_evaluation ids d v t x s = Inr s' \<Longrightarrow> records s' = records s"
    for d v x and s s' :: "'a attribution_db_scheme"
    by (auto simp: append_evaluation_def bind_result_Inr Let_def append_signal_def records_def)
  have invalidate: "records (invalidate_stale run_id t ids x s) = records s" for ids x and s :: "'a attribution_db_scheme"
    by (simp add: invalidate_stale_def upsert_episode_def records_def)
  have upsert: "records (upsert_episode run_id t x s) = records s" for x and s :: "'a attribution_db_scheme"
    by (simp add: upsert_episode_def records_def)
  show ?thesis
  proof (cases seg)
    case (Cons s0 rest)
    with run obtain db1 eps where loop: "fold_result (append_evaluation ids (hs_dimension s0) (hs_value s0) t)
        (enumerate 0 (sort_key hs_window_start seg)) db = Inr db1"
      and db': "db' = fold (upsert_episode run_id t) eps (fold (invalidate_stale run_id t (map ep_episode_id eps))
        (get_episodes_for_segment db1 (hs_dimension s0) (hs_value s0)) db1)"
      by (auto simp: process_snapshots_def Let_def bind_result_Inr simp del: sort_key_simps)
    have "records db1 = records db" using fold_result_frame[where g = records, OF append loop] .
    then show ?thesis
      unfolding db' fold_frame[where g = records, OF upsert] fold_frame[where g = records, OF invalidate] .
  qed (use run in \<open>simp add: process_snapshots_def\<close>)
qed

lemma records_persist [simp]:
  "records (persist_unknown_with_fingerprint now ep ws we reason fp st su db) = records db"
  "records (persist_unknown now ep ws we reason n m ts db) = records db"
  "records (persist_classified now ep ws we n m hs b ex tot su fp rs db) = records db"
proof -
  have append: "records (append_rca_evaluation e db) = records db" "records (append_candidate_causes cs db) = records db"
    for e cs and db :: "'b attribution_db_scheme"
    by (simp_all add: append_rca_evaluation_def append_candidate_causes_def records_def)
  show unknown: "records (persist_unknown_with_fingerprint now ep ws we reason fp st su db) = records db"
    for ep ws we reason fp st su and db :: "'a attribution_db_scheme"
    unfolding persist_unknown_with_fingerprint_def Let_def by (rule append)
  show "records (persist_unknown now ep ws we reason n m ts db) = records db"
    by (simp add: persist_unknown_def unknown Let_def)
  show "records (persist_classified now ep ws we n m hs b ex tot su fp rs db) = records db"
    unfolding persist_classified_def Let_def by (simp only: append)
qed

lemma records_evaluate_in_window: "evaluate_in_window now ep ws we db = Inr db' \<Longrightarrow> records db' = records db"
  unfolding evaluate_in_window_def Let_def by (auto simp: bind_result_Inr split: if_split_asm)

lemma records_stage4: "evaluate_episode now ep db = Inr db' \<Longrightarrow> records db' = records db"
  by (auto simp: evaluate_episode_def bind_result_Inr dest: records_evaluate_in_window split: if_split_asm)

lemma records_evaluate_active:
  assumes "evaluate_active now ep s = r" "records (fst s) = g" "records (snd s) = g"
  shows "case r of Inl (st, e, c) \<Rightarrow> records c = g | Inr (c, d) \<Rightarrow> records c = g \<and> records d = g"
  using assms records_stage4[of now ep "snd s"]
  by (auto simp: evaluate_active_def prod.case_eq_if split: sum.splits)

lemma records_evaluate_all:
  fixes s :: "'a attribution_db_scheme \<times> 'a attribution_db_scheme"
  assumes "records (fst s) = g" "records (snd s) = g"
  shows "case fold_result (evaluate_active now) eps s of
      Inl (st, e, c) \<Rightarrow> records c = g | Inr (c, d) \<Rightarrow> records c = g \<and> records d = g"
  using assms
proof (induction eps arbitrary: s)
  case Nil
  then show ?case by (simp add: prod.case_eq_if)
next
  case (Cons ep eps)
  from records_evaluate_active[OF refl Cons.prems, of now ep] Cons.IH show ?case
    by (cases "evaluate_active now ep s") auto
qed

lemma records_stages_2_to_4:
  "case run_stages_2_to_4 env event db of
     Inl (st, e, committed) \<Rightarrow> records committed = records db
   | Inr db' \<Rightarrow> records db' = records db"
proof -
  have seg: "(case x of (k, seg) \<Rightarrow> process_snapshots (en_signal_ids env k) (en_run_ids env k) seg t) s = Inr s' \<Longrightarrow>
      records s' = records s" for x t and s s' :: "'a attribution_db_scheme"
    using records_stage3 by (cases x) auto
  have "case run_stages_3_and_4 env event ws we db2 of
      Inl (st, e, committed) \<Rightarrow> records committed = records db
    | Inr db' \<Rightarrow> records db' = records db" if db2: "records db2 = records db" for ws we and db2 :: "'a attribution_db_scheme"
  proof (cases "fold_result (\<lambda>(k, seg). process_snapshots (en_signal_ids env k) (en_run_ids env k) seg (ev_timestamp event))
            (enumerate 0 (segments_of_window ws we db2)) db2")
    case (Inl e)
    then show ?thesis using db2 by (simp add: run_stages_3_and_4_def)
  next
    case (Inr db3)
    from fold_result_frame[where g = records, OF seg this] have "records db3 = records db" using db2 by simp
    with records_evaluate_all[of "(db2, db3)" "records db" "en_clock env STAGE_4_RCA" "active_episodes db3"] Inr db2 show ?thesis
      by (auto simp: run_stages_3_and_4_def bind_result_def split: sum.splits)
  qed
  then show ?thesis unfolding run_stages_2_to_4_def Let_def
    using records_stage2 by blast
qed

section \<open>Invariants of all stages\<close>

text \<open>Between runs every command has reached a final status, with one recorded attempt exactly if it was dispatched.\<close>

definition settled_states :: "(command_status option \<times> nat) set" where
  "settled_states = {(None, 0), (Some SUCCEEDED, 1), (Some COMMAND_FAILED, 1), (Some EXPIRED, 0), (Some NOT_NEEDED, 0)}"

definition command_state :: "('a execution_db_scheme) \<Rightarrow> uuid \<Rightarrow> command_status option \<times> nat" where
  "command_state db i = (map_option cm_status (get_command_by_id db i), command_count db i)"

definition commands_settled :: "('a execution_db_scheme) \<Rightarrow> bool" where
  "commands_settled db \<longleftrightarrow>
     distinct (map cm_command_id (db_commands db)) \<and> (\<forall>i. command_state db i \<in> settled_states)"

definition settled_but :: "uuid \<Rightarrow> ('a execution_db_scheme) \<Rightarrow> bool" where
  "settled_but i db \<longleftrightarrow>
     distinct (map cm_command_id (db_commands db)) \<and>
     (\<forall>j. command_state db j \<in> settled_states \<or> j = i \<and> command_state db j = (Some PENDING, 0))"

definition pipeline_ok :: "('a attribution_db_scheme) \<Rightarrow> bool" where
  "pipeline_ok db \<longleftrightarrow>
     registry_ok db \<and> prediction_log.consistent db \<and> decision_log.consistent db \<and>
     observation_log.contiguous db \<and> attributions_ok db"

lemma find_snoc: "find P (xs @ [y]) = (case find P xs of None \<Rightarrow> if P y then Some y else None | Some x \<Rightarrow> Some x)"
  by (induction xs) auto

text \<open>Creating a command.\<close>

lemma create_settled:
  assumes "create_command d n now db = Inr (c, db')" "commands_settled db"
  shows "settled_but (cm_command_id c) db'"
proof (cases "db' = db")
  case True
  then show ?thesis using assms(2) by (simp add: commands_settled_def settled_but_def)
next
  case False
  with create_command_cases[OF assms(1)] have c: "db' = db\<lparr>db_commands := db_commands db @ [c]\<rparr>" "cm_status c = PENDING"
    "cm_command_id c \<notin> cm_command_id ` set (db_commands db)" by auto
  from c(3) have none: "get_command_by_id db (cm_command_id c) = None"
    by (auto simp: get_command_by_id_def find_None_iff image_iff)
  have state: "command_state db' j = (if j = cm_command_id c then (Some PENDING, command_count db j) else command_state db j)" for j
    using none c(2) by (auto simp: command_state_def get_command_by_id_def c(1) find_snoc command_count_def split: option.splits)
  have "command_state db (cm_command_id c) \<in> settled_states" using assms(2) by (simp add: commands_settled_def)
  with none have "command_count db (cm_command_id c) = 0" by (simp add: command_state_def settled_states_def)
  with state assms(2) c show ?thesis by (auto simp: commands_settled_def settled_but_def)
qed

text \<open>Inversion of an execution.\<close>

lemma execute_Inr:
  assumes "execute_command executor a ctx t i db = Inr (c, db')" "distinct (map cm_command_id (db_commands db))"
  obtains (final) cmd where "get_command_by_id db i = Some cmd" "cm_status cmd \<noteq> PENDING" "db' = db"
  | (stopped) cmd target reason where "get_command_by_id db i = Some cmd" "cm_status cmd = PENDING"
      "target \<in> {EXPIRED, NOT_NEEDED}" "db' = snd (update_command_status_atomic i PENDING target reason t db)"
  | (dispatched) cmd r x where "get_command_by_id db i = Some cmd" "cm_status cmd = PENDING" "xa_command_id x = i"
      "db' = finalize t i r (insert_execution_attempt x (snd (update_command_status_atomic i PENDING EXECUTING None t db)))"
proof -
  from assms(1) obtain cmd where cmd: "get_command_by_id db i = Some cmd"
    by (cases "get_command_by_id db i") (simp_all add: execute_command_def)
  then obtain ref where ref: "require_command_attempt db cmd = Inr ref"
    using assms(1) by (cases "require_command_attempt db cmd") (simp_all add: execute_command_def)
  show thesis
  proof (cases "cm_status cmd = PENDING")
    case False
    then have "db' = db" using assms(1) cmd ref by (simp add: execute_command_def)
    with final[OF cmd False] show thesis .
  next
    case True
    have claim: "fst (update_command_status_atomic i PENDING EXECUTING None t db)"
      using claimed_iff[OF assms(2)] cmd True by simp
    have re: "get_command_by_id (snd (update_command_status_atomic i PENDING EXECUTING None t db)) i =
        Some (set_status EXECUTING None t cmd)" using cmd True by (simp add: get_after_update advance_def)
    note run = assms(1)[unfolded execute_command_def cmd option.case ref bind_result_simps True, simplified]
    show thesis
    proof (cases "cm_expires_at cmd \<le> t")
      case True
      with run have "db' = snd (update_command_status_atomic i PENDING EXPIRED (Some ''COMMAND_EXPIRED_BEFORE_DISPATCH'') t db)"
        by (simp add: bind_result_Inr Let_def)
      with stopped[OF cmd \<open>cm_status cmd = PENDING\<close>] show thesis by blast
    next
      case False
      with run obtain b where b: "check_terminal_event_exists_before db (cm_payment_attempt_id cmd) t None = Inr b"
        by (auto simp: bind_result_Inr)
      note run = run[unfolded b bind_result_simps] False
      show thesis
      proof (cases b)
        case True
        with run have "db' = snd (update_command_status_atomic i PENDING NOT_NEEDED (Some ''TERMINAL_OUTCOME_ALREADY_INGESTED'') t db)"
          by (simp add: bind_result_Inr Let_def)
        with stopped[OF cmd \<open>cm_status cmd = PENDING\<close>] show thesis by blast
      next
        case False
        let ?u = "snd (update_command_status_atomic i PENDING EXECUTING None t db)"
        let ?r = "executor (set_status EXECUTING None t cmd) ctx"
        let ?x = "new_attempt a t (get_max_attempt_number ?u i + 1) (set_status EXECUTING None t cmd) ?r"
        from False run re claim have "db' = finalize t i ?r (insert_execution_attempt ?x ?u)"
          by (simp add: validate_transition_def LEGAL_TRANSITIONS_def Let_def prod.case_eq_if del: finalize_simps
              split: option.splits)
        moreover have "xa_command_id ?x = i" using get_command_id[OF cmd] by simp
        ultimately have "\<exists>r x. xa_command_id x = i \<and> db' = finalize t i r (insert_execution_attempt x ?u)" by blast
        with dispatched[OF cmd \<open>cm_status cmd = PENDING\<close>] show thesis by blast
      qed
    qed
  qed
qed

lemma execute_settled:
  assumes "execute_command executor a ctx t i db = Inr (c, db')" "settled_but i db"
  shows "commands_settled db'"
proof -
  from assms(2) have ids: "distinct (map cm_command_id (db_commands db))" by (simp add: settled_but_def)
  have i: "command_state db i \<in> settled_states \<or> command_state db i = (Some PENDING, 0)"
    and j: "\<And>j. j \<noteq> i \<Longrightarrow> command_state db j \<in> settled_states"
    using assms(2) by (auto simp: settled_but_def)
  show ?thesis
    using assms(1) ids
  proof (cases rule: execute_Inr)
    case (final cmd)
    then have "command_state db i \<in> settled_states" using i by (auto simp: command_state_def)
    with final ids j show ?thesis by (metis commands_settled_def)
  next
    case (stopped cmd target reason)
    then have "command_state db' i \<in> settled_states"
      using i by (auto simp: command_state_def get_after_update advance_def settled_states_def command_count_def)
    moreover have "command_state db' j = command_state db j" if "j \<noteq> i" for j
      using that stopped by (simp add: command_state_def get_after_update command_count_def)
    ultimately show ?thesis using stopped(4) ids j unfolding commands_settled_def by (metis update_frame(1))
  next
    case (dispatched cmd r x)
    then have "command_state db' i \<in> settled_states"
      using i by (auto simp: command_state_def get_after_update advance_def settled_states_def command_count_def
          final_status_def)
    moreover have "command_state db' j = command_state db j" if "j \<noteq> i" for j
      using that dispatched by (simp add: command_state_def get_after_update command_count_def)
    moreover have "map cm_command_id (db_commands db') = map cm_command_id (db_commands db)" using dispatched(4) by simp
    ultimately show ?thesis using ids j unfolding commands_settled_def by metis
  qed
qed

section \<open>Every stage keeps the invariants\<close>

lemma contiguous_frames:
  "db_observations db' = db_observations db \<Longrightarrow> observation_log.contiguous db' = observation_log.contiguous db"
  "db_attributions db'' = db_attributions d \<Longrightarrow> attribution_log.contiguous db'' = attribution_log.contiguous d"
  by (simp_all only: observation_log.contiguous_def observation_log.versions_of_def attribution_log.contiguous_def
      attribution_log.versions_of_def)

lemma row_ok_frame: "db_commands db' = db_commands db \<Longrightarrow> attribution_row_ok db' = attribution_row_ok db"
  by (simp add: attribution_row_ok_def get_command_by_id_def fun_eq_iff)

text \<open>The versioned tables rest on the registry; only rows are compared.\<close>

lemma pipeline_ok_frame:
  fixes db db' :: "'a attribution_db_scheme"
  assumes "pipeline_ok db" "registry_ok db'"
    and "\<And>p s. joined_attempt db p s \<Longrightarrow> joined_attempt db' p s"
    and "db_predictions db' = db_predictions db" "db_decisions db' = db_decisions db"
    and "db_observations db' = db_observations db" "db_attributions db' = db_attributions db"
    and "\<And>i s. map_option cm_source_system (get_command_by_id db i) = Some s \<Longrightarrow>
           map_option cm_source_system (get_command_by_id db' i) = Some s"
  shows "pipeline_ok db'"
proof -
  have "prediction_log.consistent db'" "decision_log.consistent db'"
    using assms prediction_log.consistent_frame[of db db'] decision_log.consistent_frame[of db db']
    by (auto simp: pipeline_ok_def)
  moreover have "observation_log.contiguous db'" "attribution_log.contiguous db'"
    using assms(1) contiguous_frames(1)[OF assms(6)] contiguous_frames(2)[OF assms(7)]
    by (simp_all add: pipeline_ok_def attributions_ok_def)
  moreover have "attribution_row_ok db r \<Longrightarrow> attribution_row_ok db' r" for r
    using assms(8) by (simp add: attribution_row_ok_def)
  ultimately show ?thesis using assms by (auto simp: pipeline_ok_def attributions_ok_def list_all_iff)
qed

lemma pipeline_ok_records:
  fixes db db' :: "'a attribution_db_scheme"
  assumes "records db' = records db"
  shows "pipeline_ok db \<Longrightarrow> pipeline_ok db'" "commands_settled db \<Longrightarrow> commands_settled db'"
proof -
  assume "pipeline_ok db"
  then show "pipeline_ok db'"
    by (rule pipeline_ok_frame)
      (use assms \<open>pipeline_ok db\<close> in \<open>auto simp: records_def pipeline_ok_def registry_ok_def joined_attempt_def get_command_by_id_def\<close>)
qed (use assms in \<open>simp add: records_def commands_settled_def command_state_def command_count_def get_command_by_id_def\<close>)

lemma ok_ingest:
  assumes "pipeline_ok db"
  shows "pipeline_ok (db\<lparr>db_events := db_events db @ es\<rparr>)"
  by (rule pipeline_ok_frame[OF assms])
    (use assms in \<open>auto simp: pipeline_ok_def registry_ok_def joined_attempt_def list_all_iff get_command_by_id_def\<close>)

lemma ok_register:
  assumes "pipeline_ok db" "register_attempt now e db = Inr (r, db')"
  shows "pipeline_ok db'" "db_commands db' = db_commands db" "db_exec_attempts db' = db_exec_attempts db"
proof -
  have frame: "db_predictions db' = db_predictions db" "db_decisions db' = db_decisions db"
    "db_observations db' = db_observations db" "db_attributions db' = db_attributions db"
    "db_commands db' = db_commands db" "db_exec_attempts db' = db_exec_attempts db"
    using assms(2) by (auto simp: register_attempt_def bind_result_Inr Let_def insert_attempt_def split: if_splits)
  then show "db_commands db' = db_commands db" "db_exec_attempts db' = db_exec_attempts db" by simp_all
  from assms(1) register_attempt_ok[OF _ assms(2)] have "registry_ok db'" by (simp add: pipeline_ok_def)
  then show "pipeline_ok db'"
    using assms register_frame[OF assms(2)] frame
    by (intro pipeline_ok_frame[OF assms(1)]) (auto simp: get_command_by_id_def)
qed

lemma orchestrate_db:
  "orchestrate_prediction us m now a t db = Inr (p, db') \<Longrightarrow> db' = db \<or> db' = insert_prediction p db"
  by (drule orchestrate_Inr) (auto simp: append_prediction_def split: if_splits)

lemma ok_orchestrate:
  assumes "pipeline_ok db" "orchestrate_prediction us m now a t db = Inr (p, db')"
  shows "pipeline_ok db'" "db_commands db' = db_commands db" "db_exec_attempts db' = db_exec_attempts db"
proof -
  have ok: "prediction_log.consistent db'" using orchestrate_ok[OF _ assms(2)] assms(1) by (simp add: pipeline_ok_def)
  have "db' = db \<or> db' = insert_prediction p db" using assms(2) by (rule orchestrate_db)
  then have frame: "db_attempts db' = db_attempts db" "db_events db' = db_events db" "db_decisions db' = db_decisions db"
    "db_observations db' = db_observations db" "db_attributions db' = db_attributions db"
    "db_commands db' = db_commands db" "db_exec_attempts db' = db_exec_attempts db"
    by (auto simp: insert_prediction_def)
  then show "db_commands db' = db_commands db" "db_exec_attempts db' = db_exec_attempts db" by simp_all
  have reg: "registry_ok db'" "joined_attempt db' = joined_attempt db"
    using ok frame by (auto simp: prediction_log.consistent_def joined_attempt_def fun_eq_iff)
  have "decision_log.consistent db'"
    using decision_log.consistent_frame[of db db'] assms(1) reg frame by (simp add: pipeline_ok_def)
  with ok reg frame assms(1) show "pipeline_ok db'"
    using contiguous_frames[of db' db] row_ok_frame[of db' db]
    by (simp add: pipeline_ok_def attributions_ok_def)
qed

text \<open>A decision run returns the latest decision or appends the next version.\<close>

lemma decide_shape:
  assumes "decide us policy now a t db = Inr (d, db')"
  shows "db' = db \<or>
    (\<exists>n. get_max_decision_version db (ar_payment_attempt_id a) (Some (ar_source_system a)) = Inr n \<and> de_version d = n + 1 \<and>
       de_payment_attempt_id d = ar_payment_attempt_id a \<and> de_source_system d = ar_source_system a \<and>
       de_decision_id d = make_decision_id (ar_payment_attempt_id a) (n + 1) \<and> db' = insert_decision d db)"
  using assms
  by (auto simp: decide_def bind_result_Inr Let_def persist_decision_def append_decision_iff prod.case_eq_if
      split: if_splits)

lemma decide_consistent:
  assumes ok: "decision_log.consistent db" and run: "decide us policy now a t db = Inr (d, db')"
  shows "decision_log.consistent db'"
proof (cases "db' = db")
  case False
  with decide_shape[OF run] obtain n where n:
    "get_max_decision_version db (ar_payment_attempt_id a) (Some (ar_source_system a)) = Inr n" "de_version d = n + 1"
    "de_payment_attempt_id d = ar_payment_attempt_id a" "de_source_system d = ar_source_system a"
    "de_decision_id d = make_decision_id (ar_payment_attempt_id a) (n + 1)" "db' = insert_decision d db" by blast
  from run obtain r where "require_attempt db a = Inr r" by (rule decide_Inr)
  then have joined: "joined_attempt db (ar_payment_attempt_id a) (ar_source_system a)" by (rule require_joined)
  have "ar_source_system a \<in> set PIPELINE_PROVIDERS"
    using ok joined joined_provider by (auto simp: decision_log.consistent_def)
  with n(1) decision_log.provider_rows_all[OF ok joined]
  have "get_max_decision_version db (ar_payment_attempt_id a) None = Inr n"
    by (simp add: get_max_decision_version_def decision_rows_def)
  with n joined ok show ?thesis by (auto intro!: decision_log.append_consistent)
qed (use ok in simp)

lemma ok_decide:
  assumes "pipeline_ok db" "decide us policy now a t db = Inr (d, db')"
  shows "pipeline_ok db'" "db_commands db' = db_commands db" "db_exec_attempts db' = db_exec_attempts db"
proof -
  have ok: "decision_log.consistent db'" using decide_consistent[OF _ assms(2)] assms(1) by (simp add: pipeline_ok_def)
  from decide_shape[OF assms(2)] have frame: "db_attempts db' = db_attempts db" "db_events db' = db_events db"
    "db_predictions db' = db_predictions db" "db_observations db' = db_observations db"
    "db_attributions db' = db_attributions db" "db_commands db' = db_commands db" "db_exec_attempts db' = db_exec_attempts db"
    by (auto simp: insert_decision_def)
  then show "db_commands db' = db_commands db" "db_exec_attempts db' = db_exec_attempts db" by simp_all
  have reg: "registry_ok db'" "joined_attempt db' = joined_attempt db"
    using ok frame by (auto simp: decision_log.consistent_def joined_attempt_def fun_eq_iff)
  have "prediction_log.consistent db'"
    using prediction_log.consistent_frame[of db db'] assms(1) reg frame by (simp add: pipeline_ok_def)
  with ok reg frame assms(1) show "pipeline_ok db'"
    using contiguous_frames[of db' db] row_ok_frame[of db' db]
    by (simp add: pipeline_ok_def attributions_ok_def)
qed

lemma joined_only_attempts: "db_attempts db' = db_attempts db \<Longrightarrow> joined_attempt db' = joined_attempt db"
  by (simp add: joined_attempt_def fun_eq_iff)

lemma registry_only: "db_attempts db' = db_attempts db \<Longrightarrow> db_events db' = db_events db \<Longrightarrow> registry_ok db' = registry_ok db"
  by (simp add: registry_ok_def)

lemma ok_create:
  assumes "pipeline_ok db" "create_command d n now db = Inr (c, db')"
  shows "pipeline_ok db'"
proof -
  have "db' = db \<or> db' = db\<lparr>db_commands := db_commands db @ [c]\<rparr>" using create_command_cases[OF assms(2)] by blast
  then show ?thesis
  proof
    assume db': "db' = db\<lparr>db_commands := db_commands db @ [c]\<rparr>"
    show ?thesis
      by (rule pipeline_ok_frame[OF assms(1)])
        (use assms(1) in \<open>auto simp: db' pipeline_ok_def joined_attempt_def registry_ok_def get_command_by_id_def find_snoc\<close>)
  qed (use assms(1) in simp)
qed

lemma update_other_tables [simp]:
  "db_predictions (snd (update_command_status_atomic i e g r t db)) = db_predictions db"
  "db_decisions (snd (update_command_status_atomic i e g r t db)) = db_decisions db"
  "db_observations (snd (update_command_status_atomic i e g r t db)) = db_observations db"
  "db_raw (snd (update_command_status_atomic i e g r t db)) = db_raw db"
  by (simp_all add: update_command_status_atomic_def Let_def)

lemma ok_execute:
  assumes ok: "pipeline_ok db" and run: "execute_command executor a ctx t i db = Inr (c, db')"
    and ids: "distinct (map cm_command_id (db_commands db))"
  shows "pipeline_ok db'"
proof -
  have source: "cm_source_system (advance e g r t c) = cm_source_system c" for e g r t c by (simp add: advance_def)
  have update: "pipeline_ok (snd (update_command_status_atomic i e g r t d))" if "pipeline_ok d"
    for e g r t and d :: "'a attribution_db_scheme"
  proof (rule pipeline_ok_frame[OF that])
    show "registry_ok (snd (update_command_status_atomic i e g r t d))"
      using that registry_only[of "snd (update_command_status_atomic i e g r t d)" d] by (simp add: pipeline_ok_def)
    show "db_attributions (snd (update_command_status_atomic i e g r t d)) = db_attributions d"
      by (simp add: update_command_status_atomic_def Let_def)
    show "joined_attempt d p s \<Longrightarrow> joined_attempt (snd (update_command_status_atomic i e g r t d)) p s" for p s
      by (simp add: joined_attempt_def)
    show "map_option cm_source_system (get_command_by_id d j) = Some s \<Longrightarrow>
        map_option cm_source_system (get_command_by_id (snd (update_command_status_atomic i e g r t d)) j) = Some s" for j s
      by (cases "get_command_by_id d j") (auto simp: get_after_update source)
  qed simp_all
  have insert: "pipeline_ok (insert_execution_attempt x d)" if "pipeline_ok d" for x and d :: "'a attribution_db_scheme"
    by (rule pipeline_ok_frame[OF that])
      (use that in \<open>auto simp: pipeline_ok_def insert_execution_attempt_def registry_ok_def joined_attempt_def get_command_by_id_def\<close>)
  from run ids show ?thesis
  proof (cases rule: execute_Inr)
    case (dispatched cmd r x)
    then show ?thesis unfolding finalize_def prod.case_eq_if using ok update insert by blast
  qed (use ok update in simp_all)
qed


lemma ok_observe:
  assumes ok: "pipeline_ok db" and run: "observe as_of now i db = Inr (ob, db')"
  shows "pipeline_ok db'" "db_commands db' = db_commands db" "db_exec_attempts db' = db_exec_attempts db"
proof -
  from run obtain es c where db': "db' = append_observation ob db"
    and ob: "ob = new_observation i c (get_max_observation_version db i + 1) now as_of es"
    by (elim observe_Inr) auto
  show frame: "db_commands db' = db_commands db" "db_exec_attempts db' = db_exec_attempts db"
    by (simp_all add: db' append_observation_def)
  have "observation_log.contiguous db'"
    unfolding db' using ok ob by (intro observation_log.append_contiguous) (simp_all add: pipeline_ok_def)
  moreover have "registry_ok db'" "attributions_ok db'"
    using ok row_ok_frame[OF frame(1)] contiguous_frames(2)[of db' db]
    by (simp_all add: pipeline_ok_def registry_ok_def attributions_ok_def) (simp_all add: db' append_observation_def)
  moreover have "prediction_log.consistent db'" "decision_log.consistent db'"
    using ok prediction_log.consistent_frame[of db db'] decision_log.consistent_frame[of db db'] \<open>registry_ok db'\<close>
    by (simp_all add: pipeline_ok_def db' append_observation_def joined_attempt_def)
  ultimately show "pipeline_ok db'" by (simp add: pipeline_ok_def)
qed

lemma ok_attribute:
  assumes ok: "pipeline_ok db" and run: "attribute_payment_intervention t now i db = Inr (r, db')"
  shows "pipeline_ok db'" "db_commands db' = db_commands db" "db_exec_attempts db' = db_exec_attempts db"
proof -
  from run have db': "db' = db \<or> db' = insert_attribution r db" by (cases rule: attribute_Inr) auto
  then show frame: "db_commands db' = db_commands db" "db_exec_attempts db' = db_exec_attempts db"
    by (auto simp: insert_attribution_def)
  have a: "attributions_ok db'" using ok run attribute_preserves_ok unfolding pipeline_ok_def by blast
  from db' have same: "db_attempts db' = db_attempts db" "db_events db' = db_events db" "db_predictions db' = db_predictions db"
    "db_decisions db' = db_decisions db" "db_observations db' = db_observations db"
    by (auto simp: insert_attribution_def)
  then have "registry_ok db'" "observation_log.contiguous db'" "joined_attempt db' = joined_attempt db"
    using ok contiguous_frames(1)[of db' db] registry_only[of db' db] joined_only_attempts[of db' db] by (simp_all add: pipeline_ok_def)
  moreover from this have "prediction_log.consistent db'" "decision_log.consistent db'"
    using ok same prediction_log.consistent_frame[of db db'] decision_log.consistent_frame[of db db']
    by (simp_all add: pipeline_ok_def)
  ultimately show "pipeline_ok db'" using a by (simp add: pipeline_ok_def)
qed

lemma settled_frame:
  assumes "db_commands db' = db_commands db" "db_exec_attempts db' = db_exec_attempts db"
  shows "commands_settled db' = commands_settled db"
  using assms by (simp add: commands_settled_def command_state_def command_count_def get_command_by_id_def)

section \<open>Append-only tables\<close>

definition only_appends :: "('a attribution_db_scheme) \<Rightarrow> ('a attribution_db_scheme) \<Rightarrow> bool" where
  "only_appends db db' \<longleftrightarrow>
     db_raw db' = db_raw db \<and> db_events db' = db_events db \<and> prefix (db_attempts db) (db_attempts db') \<and>
     prefix (db_predictions db) (db_predictions db') \<and> prefix (db_decisions db) (db_decisions db') \<and>
     prefix (map cm_command_id (db_commands db)) (map cm_command_id (db_commands db')) \<and>
     prefix (db_exec_attempts db) (db_exec_attempts db') \<and> prefix (db_observations db) (db_observations db') \<and>
     prefix (db_attributions db) (db_attributions db')"

lemma only_appends_refl [simp]: "only_appends db db"
  by (simp add: only_appends_def)

lemma only_appends_trans: "only_appends a b \<Longrightarrow> only_appends b c \<Longrightarrow> only_appends a c"
  unfolding only_appends_def using prefix_order.trans by (elim conjE, intro conjI) (simp | blast)+

lemma only_appends_records: "records db' = records db \<Longrightarrow> only_appends db db'"
  by (simp add: records_def only_appends_def)

lemma only_appends_ops:
  "register_attempt now e db = Inr (x, db') \<Longrightarrow> only_appends db db'"
  "orchestrate_prediction us m now a t db = Inr (p, db') \<Longrightarrow> only_appends db db'"
  "decide us policy now a t db = Inr (d, db') \<Longrightarrow> only_appends db db'"
  "create_command d' n now db = Inr (c, db') \<Longrightarrow> only_appends db db'"
  "observe as_of now i db = Inr (ob, db') \<Longrightarrow> only_appends db db'"
  "attribute_payment_intervention as_of now i db = Inr (r, db') \<Longrightarrow> only_appends db db'"
proof -
  show "register_attempt now e db = Inr (x, db') \<Longrightarrow> only_appends db db'"
    by (auto simp: register_attempt_def bind_result_Inr Let_def insert_attempt_def only_appends_def split: if_splits)
  show "orchestrate_prediction us m now a t db = Inr (p, db') \<Longrightarrow> only_appends db db'"
    by (drule orchestrate_db) (auto simp: insert_prediction_def only_appends_def)
  show "decide us policy now a t db = Inr (d, db') \<Longrightarrow> only_appends db db'"
    by (drule decide_shape) (auto simp: insert_decision_def only_appends_def)
  show "create_command d' n now db = Inr (c, db') \<Longrightarrow> only_appends db db'"
    by (drule create_command_cases) (auto simp: only_appends_def)
  show "observe as_of now i db = Inr (ob, db') \<Longrightarrow> only_appends db db'"
    by (elim observe_Inr) (simp add: append_observation_def only_appends_def)
  show "attribute_payment_intervention as_of now i db = Inr (r, db') \<Longrightarrow> only_appends db db'"
    by (cases rule: attribute_Inr) (assumption, auto simp: insert_attribution_def only_appends_def)
qed

lemma only_appends_execute:
  assumes "execute_command executor a ctx t i db = Inr (c, db')" "distinct (map cm_command_id (db_commands db))"
  shows "only_appends db db'"
proof -
  have update: "only_appends d (snd (update_command_status_atomic i e g r t d))" for e g r t and d :: "'a attribution_db_scheme"
    by (simp add: only_appends_def) (simp add: update_command_status_atomic_def Let_def)
  have insert: "only_appends d (insert_execution_attempt x d)" for x and d :: "'a attribution_db_scheme"
    by (simp add: only_appends_def insert_execution_attempt_def)
  from assms show ?thesis
  proof (cases rule: execute_Inr)
    case (dispatched cmd r x)
    then show ?thesis unfolding finalize_def prod.case_eq_if using update insert only_appends_trans by blast
  qed (use update in simp_all)
qed

section \<open>Runs\<close>

text \<open>What holds between runs.\<close>

definition settled_ok :: "('a attribution_db_scheme) \<Rightarrow> bool" where
  "settled_ok db \<longleftrightarrow> pipeline_ok db \<and> commands_settled db"

lemma settled_ids: "settled_ok db \<Longrightarrow> distinct (map cm_command_id (db_commands db))"
  by (simp add: settled_ok_def commands_settled_def)

lemma at_stage_Inr [simp]: "at_stage st (Inr a) = Inr a" "at_stage st r = Inr a \<longleftrightarrow> r = Inr a"
  by (simp_all add: at_stage_def split: sum.splits)

lemma run_action_Inr:
  assumes "run_action env t d rp db = Inr (rp', db')"
  obtains (idle) "de_type d \<noteq> ACT" "rp' = rp" "db' = db"
  | (act) c db1 c' where "de_type d = ACT" "create_command d 300 t db = Inr (c, db1)"
      "execute_command live_executor (en_attempt_id env) (JObj []) t (cm_command_id c) db1 = Inr (c', db')"
      "rp' = rp\<lparr>rp_command := Some c\<rparr>"
  using assms by (auto simp: run_action_def bind_result_Inr split: if_splits)

text \<open>A stage step: the invariants are kept and the tables only grow.\<close>

lemma run_action_ok:
  assumes run: "run_action env t d rp db = Inr (rp', db')" and ok: "settled_ok db"
  shows "settled_ok db' \<and> only_appends db db'"
  using run
proof (cases rule: run_action_Inr)
  case (act c db1 c')
  from ok have p: "pipeline_ok db" "commands_settled db" by (simp_all add: settled_ok_def)
  have p1: "pipeline_ok db1" using ok_create[OF p(1) act(2)] .
  have s1: "settled_but (cm_command_id c) db1" using create_settled[OF act(2) p(2)] .
  then have ids: "distinct (map cm_command_id (db_commands db1))" by (simp add: settled_but_def)
  have "pipeline_ok db'" using ok_execute[OF p1 act(3) ids] .
  moreover have "commands_settled db'" using execute_settled[OF act(3) s1] .
  moreover have "only_appends db db'" using only_appends_ops(4)[OF act(2)] only_appends_execute[OF act(3) ids] only_appends_trans by blast
  ultimately show ?thesis by (simp add: settled_ok_def)
qed (use ok in simp_all)

lemma keeps_settled:
  assumes "settled_ok db" "pipeline_ok db'" "db_commands db' = db_commands db" "db_exec_attempts db' = db_exec_attempts db"
  shows "settled_ok db'"
  using assms settled_frame[of db' db] by (simp add: settled_ok_def)

text \<open>Inversion of the handling of a trigger event.\<close>

lemma run_trigger_Inr:
  assumes "run_trigger env e ref db = Inr (rp, db')"
  obtains (refused) "rp = empty_report e None" "db' = db"
  | (predicted) x db1 p where "register_attempt (en_clock env STAGE_5_REGISTRATION) e db = Inr (x, db1)"
      "orchestrate_prediction (en_uuid_str env) DeterministicBaselineModel (en_clock env STAGE_5_PREDICTION) ref (t_eval e) db1
         = Inr (p, db')" "rp = (empty_report e (Some ref))\<lparr>rp_prediction := Some p\<rparr>"
  | (decided) x db1 p db2 q d db3 where "register_attempt (en_clock env STAGE_5_REGISTRATION) e db = Inr (x, db1)"
      "orchestrate_prediction (en_uuid_str env) DeterministicBaselineModel (en_clock env STAGE_5_PREDICTION) ref (t_eval e) db1
         = Inr (p, db2)" "fp_failure_probability p = Some q" "q > 1 / 2"
      "decide (en_uuid_str env) get_default_policy (en_clock env STAGE_6_DECISION) ref (t_eval e) db2 = Inr (d, db3)"
      "run_action env (t_eval e) d ((empty_report e (Some ref))\<lparr>rp_prediction := Some p, rp_decision := Some d\<rparr>) db3
         = Inr (rp, db')"
proof (cases "register_attempt (en_clock env STAGE_5_REGISTRATION) e db")
  case (Inl x)
  with assms refused show thesis by (cases x) (simp_all add: run_trigger_def)
next
  case (Inr y)
  obtain x db1 where y: "y = (x, db1)" by (cases y)
  note reg = Inr[unfolded y]
  from assms obtain p db2 where p: "orchestrate_prediction (en_uuid_str env) DeterministicBaselineModel
      (en_clock env STAGE_5_PREDICTION) ref (t_eval e) db1 = Inr (p, db2)"
    by (auto simp: run_trigger_def reg bind_result_Inr)
  show thesis
  proof (cases "case fp_failure_probability p of None \<Rightarrow> False | Some p \<Rightarrow> p > 1 / 2")
    case True
    then obtain q where q: "fp_failure_probability p = Some q" "q > 1 / 2" by (auto split: option.splits)
    with assms obtain d db3 where "decide (en_uuid_str env) get_default_policy (en_clock env STAGE_6_DECISION) ref (t_eval e) db2
        = Inr (d, db3)"
      "run_action env (t_eval e) d ((empty_report e (Some ref))\<lparr>rp_prediction := Some p, rp_decision := Some d\<rparr>) db3
        = Inr (rp, db')"
      by (auto simp: run_trigger_def reg p bind_result_Inr Let_def)
    with decided[OF reg p q] show thesis .
  next
    case False
    with assms predicted[OF reg] p show thesis by (auto simp: run_trigger_def reg Let_def)
  qed
qed

lemma stage5_ok:
  assumes "settled_ok db" "register_attempt now e db = Inr (x, db1)"
    "orchestrate_prediction us m now' ref t db1 = Inr (p, db2)"
  shows "settled_ok db2 \<and> only_appends db db2 \<and> db_commands db2 = db_commands db \<and> db_exec_attempts db2 = db_exec_attempts db"
proof -
  from assms(1) have ok: "pipeline_ok db" by (simp add: settled_ok_def)
  note r = ok_register[OF ok assms(2)]
  note o = ok_orchestrate[OF r(1) assms(3)]
  have "only_appends db db2" using only_appends_ops(1)[OF assms(2)] only_appends_ops(2)[OF assms(3)] only_appends_trans by blast
  with r o keeps_settled[OF assms(1) o(1)] show ?thesis by simp
qed

lemma run_trigger_ok:
  assumes run: "run_trigger env e ref db = Inr (rp, db')" and ok: "settled_ok db"
  shows "settled_ok db' \<and> only_appends db db'"
  using run
proof (cases rule: run_trigger_Inr)
  case (predicted x db1 p)
  with stage5_ok[OF ok] show ?thesis by blast
next
  case (decided x db1 p db2 q d db3)
  from stage5_ok[OF ok decided(1,2)] have s2: "settled_ok db2" "only_appends db db2" by blast+
  from s2(1) have p2: "pipeline_ok db2" by (simp add: settled_ok_def)
  note o = ok_decide[OF p2 decided(5)]
  have s3: "settled_ok db3" using keeps_settled[OF s2(1) o] .
  from run_action_ok[OF decided(6) s3] s2(2) only_appends_ops(3)[OF decided(5)] show ?thesis using only_appends_trans by blast
qed (use ok in simp_all)

lemma observe_and_attribute_ok:
  assumes run: "observe_and_attribute env e cmd (rp, db) = Inr (rp', db')" and ok: "settled_ok db"
  shows "settled_ok db' \<and> only_appends db db' \<and> db_commands db' = db_commands db \<and> db_exec_attempts db' = db_exec_attempts db \<and>
    rp_command rp' = rp_command rp"
proof -
  from run obtain as_of now now' i ob db1 r where o: "observe as_of now i db = Inr (ob, db1)"
    and a: "attribute_payment_intervention as_of now' i db1 = Inr (r, db')"
    and rp: "rp_command rp' = rp_command rp"
    by (auto simp: observe_and_attribute_def bind_result_Inr Let_def)
  from ok have p: "pipeline_ok db" by (simp add: settled_ok_def)
  note po = ok_observe[OF p o]
  note pa = ok_attribute[OF po(1) a]
  have "only_appends db db'" using only_appends_ops(5)[OF o] only_appends_ops(6)[OF a] only_appends_trans by blast
  with po pa keeps_settled[OF ok pa(1)] rp show ?thesis by simp
qed

lemma run_terminal_ok:
  assumes run: "run_terminal env e ref db = Inr (rp, db')" and ok: "settled_ok db"
  shows "settled_ok db' \<and> only_appends db db' \<and> db_commands db' = db_commands db \<and> db_exec_attempts db' = db_exec_attempts db \<and>
    rp_command rp = None"
proof -
  have loop: "fold_result (observe_and_attribute env e) cs (rp0, d) = Inr (rp1, d') \<Longrightarrow> settled_ok d \<Longrightarrow>
      settled_ok d' \<and> only_appends d d' \<and> db_commands d' = db_commands d \<and> db_exec_attempts d' = db_exec_attempts d \<and>
      rp_command rp1 = rp_command rp0" for cs rp0 rp1 and d d' :: "'a attribution_db_scheme"
  proof (induction cs arbitrary: rp0 d)
    case (Cons c cs)
    then obtain rp2 d2 where step: "observe_and_attribute env e c (rp0, d) = Inr (rp2, d2)"
      and rest: "fold_result (observe_and_attribute env e) cs (rp2, d2) = Inr (rp1, d')"
      by (auto simp: bind_result_Inr)
    note s = observe_and_attribute_ok[OF step Cons.prems(2)]
    from s Cons.IH[OF rest] show ?case using only_appends_trans by auto
  qed simp
  from loop[OF run[unfolded run_terminal_def] ok] show ?thesis by (simp add: empty_report_def)
qed

lemma run_stages_5_to_8_ok:
  "run_stages_5_to_8 env e a db = Inr (rp, db') \<Longrightarrow> settled_ok db \<Longrightarrow> settled_ok db' \<and> only_appends db db'"
  by (auto simp: run_stages_5_to_8_def dest: run_trigger_ok run_terminal_ok split: option.splits pipeline_role.splits)


text \<open>Any number of events are ingested, then one of them is run.\<close>

definition live_step :: "pipeline_env \<times> payment_event list \<times> payment_event \<Rightarrow> ('a attribution_db_scheme) \<Rightarrow> ('a attribution_db_scheme)" where
  "live_step = (\<lambda>(env, es, e) db.
     let db1 = db\<lparr>db_events := db_events db @ es\<rparr>
     in case run_live_pipeline env e db1 of Inl x \<Rightarrow> db1 | Inr (r, db') \<Rightarrow> db')"

definition live_runs :: "(pipeline_env \<times> payment_event list \<times> payment_event) list \<Rightarrow> ('a attribution_db_scheme) \<Rightarrow>
    ('a attribution_db_scheme)" where
  "live_runs steps db =
     fold live_step steps
       (db\<lparr>db_attempts := [], db_predictions := [], db_decisions := [], db_commands := [], db_exec_attempts := [],
          db_observations := [], db_attributions := []\<rparr>)"

text \<open>One run: it never raises, a failure leaves the tables of Stages 5-8 as they were.\<close>

lemma run_live_cases:
  assumes ok: "settled_ok db"
  obtains (failed) pid st x db' where "run_live_pipeline env e db = Inr (PipelineFailed pid st x, db')"
      "records db' = records db" "ev_source_system e = PAYPAL_SOURCE_SYSTEM \<Longrightarrow> db' = db"
  | (success) a rp db4 db' where "run_live_pipeline env e db = Inr (PipelineSuccess rp, db')"
      "records db4 = records db" "run_stages_5_to_8 env e a db4 = Inr (rp, db')"
      "ev_source_system e = PAYPAL_SOURCE_SYSTEM \<Longrightarrow> db4 = db"
proof -
  obtain a where a: "resolve_pipeline_attempt e = Inr a" using resolve_cases[of e] by auto
  have finish: thesis
    if run: "run_live_pipeline env e db = Inr (finish_run e d (run_stages_5_to_8 env e a d))" and same: "records d = records db"
      and paypal: "ev_source_system e = PAYPAL_SOURCE_SYSTEM \<Longrightarrow> d = db" for d
  proof (cases "run_stages_5_to_8 env e a d")
    case (Inl y)
    with run same paypal show thesis by (cases y) (auto simp: finish_run_def intro: failed)
  next
    case (Inr y)
    with run same paypal show thesis by (cases y) (auto simp: finish_run_def intro: success)
  qed
  show thesis
  proof (cases "ev_source_system e = PAYPAL_SOURCE_SYSTEM")
    case True
    with finish[of db] a show thesis by (simp add: run_live_pipeline_def)
  next
    case False
    with records_stages_2_to_4[where env = env and event = e and db = db] a finish failed[of "ev_payment_id e"] show thesis
      by (cases "run_stages_2_to_4 env e db") (auto simp: run_live_pipeline_def)
  qed
qed

lemma settled_ok_records:
  fixes db db' :: "'a attribution_db_scheme"
  shows "records db' = records db \<Longrightarrow> settled_ok db \<Longrightarrow> settled_ok db'"
  using pipeline_ok_records[of db' db] by (simp add: settled_ok_def)

lemma run_live_ok:
  assumes run: "run_live_pipeline env e db = Inr (r, db')" and ok: "settled_ok db"
  shows "settled_ok db'"
  using ok
proof (cases rule: run_live_cases[where env = env and e = e])
  case (failed pid st x d)
  with run settled_ok_records[OF failed(2) ok] show ?thesis by simp
next
  case (success a rp db4 d)
  with run run_stages_5_to_8_ok[OF success(3) settled_ok_records[OF success(2) ok]] show ?thesis by simp
qed

lemma live_step_ok:
  assumes "settled_ok db"
  shows "settled_ok (live_step q db)"
proof -
  obtain env es e where q: "q = (env, es, e)" by (cases q) auto
  have "settled_ok (db\<lparr>db_events := db_events db @ es\<rparr>)"
    using assms ok_ingest[of db es] settled_frame[of "db\<lparr>db_events := db_events db @ es\<rparr>" db] by (simp add: settled_ok_def)
  then show ?thesis using run_live_ok by (auto simp: live_step_def q Let_def split: sum.splits)
qed

lemma live_runs_ok: "settled_ok (live_runs steps db)"
proof -
  have "settled_ok d \<Longrightarrow> settled_ok (fold live_step steps d)" for d :: "'a attribution_db_scheme"
    by (induction steps arbitrary: d) (simp_all add: live_step_ok)
  moreover have "settled_ok (db\<lparr>db_attempts := [], db_predictions := [], db_decisions := [], db_commands := [],
      db_exec_attempts := [], db_observations := [], db_attributions := []\<rparr>)"
    by (auto simp: settled_ok_def pipeline_ok_def registry_ok_def commands_settled_def command_state_def command_count_def
        get_command_by_id_def settled_states_def attributions_ok_def attribution_log.contiguous_def
        attribution_log.versions_of_def observation_log.contiguous_def observation_log.versions_of_def
        intro!: prediction_log.consistent_empty decision_log.consistent_empty)
  ultimately show ?thesis unfolding live_runs_def by blast
qed

section \<open>Theorems\<close>


text \<open>C2: A run of the pipeline is atomic and append-only. It never raises; a failed run leaves the tables of
  Stages 5-8 and the ingested events as they were (and everything, for a PayPal event); a successful one only
  appends rows and never removes or reidentifies a command.\<close>
theorem pipeline_run_atomic:
  "let db = live_runs steps db0
   in case run_live_pipeline env e db of
        Inl x \<Rightarrow> False
      | Inr (PipelineFailed pid st x, db') \<Rightarrow>
          records db' = records db \<and> (if ev_source_system e = PAYPAL_SOURCE_SYSTEM then db' = db else True)
      | Inr (PipelineSuccess rp, db') \<Rightarrow> only_appends db db'"
proof -
  define db where "db = live_runs steps db0"
  have ok: "settled_ok db" unfolding db_def by (rule live_runs_ok)
  show ?thesis unfolding Let_def db_def[symmetric]
  proof (rule run_live_cases[OF ok, of env e])
    fix a rp db4 db'
    assume s: "run_live_pipeline env e db = Inr (PipelineSuccess rp, db')" "records db4 = records db"
      "run_stages_5_to_8 env e a db4 = Inr (rp, db')"
    from run_stages_5_to_8_ok[OF s(3) settled_ok_records[OF s(2) ok]] only_appends_records[OF s(2)] have "only_appends db db'"
      using only_appends_trans by blast
    with s(1) show "case run_live_pipeline env e db of
        Inl x \<Rightarrow> False
      | Inr (PipelineFailed pid st x, db') \<Rightarrow>
          records db' = records db \<and> (if ev_source_system e = PAYPAL_SOURCE_SYSTEM then db' = db else True)
      | Inr (PipelineSuccess rp, db') \<Rightarrow> only_appends db db'" by simp
  qed auto
qed

section \<open>What a dispatch rests on\<close>

lemma decided_stored:
  assumes "decide us policy now a t db = Inr (d, db')"
  shows "d \<in> set (db_decisions db')"
proof (cases "db' = db")
  case True
  from assms obtain prior where p: "get_latest_decision db (ar_payment_attempt_id a) (Some (ar_source_system a)) = Inr prior"
    and c: "db' = db \<and> prior = Some d \<or> db' = insert_decision d db" by (elim decide_Inr) blast
  from c True have "prior = Some d \<or> db = insert_decision d db" by auto
  then show ?thesis
  proof
    assume "prior = Some d"
    with p True show ?thesis
      by (auto simp: get_latest_decision_def decision_rows_def bind_result_Inr dest!: latest_by_Some split: if_splits)
  next
    assume "db = insert_decision d db"
    then have "db_decisions db = db_decisions db @ [d]" by (metis insert_decision_simps(1))
    then show ?thesis by simp
  qed
next
  case False
  with decide_shape[OF assms] show ?thesis by auto
qed

lemma execute_attempts:
  assumes "execute_command executor a ctx t i db = Inr (c, db')" "distinct (map cm_command_id (db_commands db))"
  shows "length (db_exec_attempts db') \<le> length (db_exec_attempts db) + 1 \<and> db_decisions db' = db_decisions db"
  using assms
proof (cases rule: execute_Inr)
  case (dispatched cmd r x)
  have "db_decisions (insert_execution_attempt x d) = db_decisions d" for d :: "'a execution_db_scheme"
    by (simp add: insert_execution_attempt_def)
  with dispatched show ?thesis by (simp add: finalize_def prod.case_eq_if del: finalize_simps)
qed simp_all

text \<open>The report of an action names a command that the settled database has finished.\<close>

definition dispatch_backed :: "pipeline_report \<Rightarrow> ('a attribution_db_scheme) \<Rightarrow> ('a attribution_db_scheme) \<Rightarrow> bool" where
  "dispatch_backed rp db db' \<longleftrightarrow>
     (case (rp_command rp, rp_prediction rp, rp_decision rp) of
        (None, _, _) \<Rightarrow> db_commands db' = db_commands db \<and> db_exec_attempts db' = db_exec_attempts db
      | (Some c, Some p, Some d) \<Rightarrow>
          (case fp_failure_probability p of None \<Rightarrow> False | Some q \<Rightarrow> q > 1 / 2) \<and>
          d \<in> set (db_decisions db') \<and> de_type d = ACT \<and> de_gate_verdict d = PASSED \<and> de_route d \<noteq> None \<and>
          map_option cm_status (get_command_by_id db' (cm_command_id c))
            \<in> {Some SUCCEEDED, Some COMMAND_FAILED, Some EXPIRED, Some NOT_NEEDED} \<and>
          length (db_exec_attempts db') \<le> length (db_exec_attempts db) + 1
      | _ \<Rightarrow> False)"

lemma created_stored: "create_command d n now db = Inr (c, db1) \<Longrightarrow> de_gate_verdict d = PASSED \<and> de_route d \<noteq> None"
  by (auto simp: create_command_def bind_result_Inr)

lemma executed_exists: "execute_command ex a ctx t i db = Inr (c, db') \<Longrightarrow> get_command_by_id db i \<noteq> None"
  by (auto simp: execute_command_def split: option.splits)

lemma run_trigger_backed:
  assumes run: "run_trigger env e ref db = Inr (rp, db')" and ok: "settled_ok db"
  shows "dispatch_backed rp db db'"
  using run
proof (cases rule: run_trigger_Inr)
  case refused
  then show ?thesis by (simp add: dispatch_backed_def empty_report_def)
next
  case (predicted x db1 p)
  with stage5_ok[OF ok predicted(1,2)] show ?thesis by (simp add: dispatch_backed_def empty_report_def)
next
  case (decided x db1 p db2 q d db3)
  from stage5_ok[OF ok decided(1,2)] have s2: "settled_ok db2" "db_commands db2 = db_commands db"
    "db_exec_attempts db2 = db_exec_attempts db" by blast+
  then have p2: "pipeline_ok db2" by (simp add: settled_ok_def)
  note o = ok_decide[OF p2 decided(5)]
  have s3: "settled_ok db3" using keeps_settled[OF s2(1) o] .
  from decided(6) show ?thesis
  proof (cases rule: run_action_Inr)
    case idle
    with o s2 show ?thesis by (simp add: dispatch_backed_def empty_report_def)
  next
    case (act c db4 c')
    from s3 have "commands_settled db3" by (simp add: settled_ok_def)
    then have ids: "distinct (map cm_command_id (db_commands db4))"
      using create_settled[OF act(2)] by (simp add: settled_but_def)
    have frame: "db_exec_attempts db4 = db_exec_attempts db3" "db_decisions db4 = db_decisions db3"
      using create_command_cases[OF act(2)] by auto
    have "settled_ok db'" using run_action_ok[OF decided(6) s3] by blast
    then have "command_state db' (cm_command_id c) \<in> settled_states" by (simp add: settled_ok_def commands_settled_def)
    moreover have "get_command_by_id db' (cm_command_id c) \<noteq> None"
    proof -
      from executed_exists[OF act(3)] obtain y where "get_command_by_id db4 (cm_command_id c) = Some y" by blast
      then have "y \<in> set (db_commands db4)" "cm_command_id y = cm_command_id c"
        by (auto simp: get_command_by_id_def dest: find_SomeD)
      then have "cm_command_id c \<in> set (map cm_command_id (db_commands db4))" by (metis image_eqI set_map)
      moreover have "only_appends db4 db'" using only_appends_execute[OF act(3) ids] .
      ultimately have "cm_command_id c \<in> set (map cm_command_id (db_commands db'))"
        unfolding only_appends_def using set_mono_prefix by blast
      then show ?thesis by (auto simp: get_command_by_id_def find_None_iff)
    qed
    ultimately have "map_option cm_status (get_command_by_id db' (cm_command_id c))
            \<in> {Some SUCCEEDED, Some COMMAND_FAILED, Some EXPIRED, Some NOT_NEEDED}"
      by (auto simp: command_state_def settled_states_def)
    with decided_stored[OF decided(5)] created_stored[OF act(2)] act(1,4) frame s2 o(3) decided(4)
      execute_attempts[OF act(3) ids] decided(3)
    show ?thesis by (simp add: dispatch_backed_def empty_report_def)
  qed
qed

text \<open>C3: Only decisions act. When a run reports no command, no command and no attempt changed; when it reports
  one, the stored prediction of the event exceeded one half, a stored decision to ACT passed its gates and
  chose a route, the command reached a final status in that same run, and at most one attempt was recorded.\<close>
theorem pipeline_dispatch_backed:
  "let db = live_runs steps db0
   in case run_live_pipeline env e db of
        Inr (PipelineSuccess rp, db') \<Rightarrow> dispatch_backed rp db db'
      | Inr (PipelineFailed pid st x, db') \<Rightarrow> db_exec_attempts db' = db_exec_attempts db
      | Inl x \<Rightarrow> False"
proof -
  define db where "db = live_runs steps db0"
  have ok: "settled_ok db" unfolding db_def by (rule live_runs_ok)
  show ?thesis unfolding Let_def db_def[symmetric]
    using ok
  proof (cases rule: run_live_cases[where env = env and e = e])
    case (failed pid st x db')
    then show "case run_live_pipeline env e db of
        Inr (PipelineSuccess rp, db') \<Rightarrow> dispatch_backed rp db db'
      | Inr (PipelineFailed pid st x, db') \<Rightarrow> db_exec_attempts db' = db_exec_attempts db
      | Inl x \<Rightarrow> False" by (simp add: records_def)
  next
    case (success a rp db4 db')
    have ok4: "settled_ok db4" using settled_ok_records[OF success(2) ok] .
    have "dispatch_backed rp db4 db'"
    proof (cases a)
      case None
      with success(3) show ?thesis by (auto simp: run_stages_5_to_8_def dispatch_backed_def empty_report_def)
    next
      case (Some pa)
      show ?thesis
      proof (cases "pa_role pa")
        case TRIGGER
        with Some success(3) show ?thesis by (intro run_trigger_backed[OF _ ok4]) (simp add: run_stages_5_to_8_def)
      next
        case TERMINAL
        with Some success(3) have "run_terminal env e (pa_ref pa) db4 = Inr (rp, db')" by (simp add: run_stages_5_to_8_def)
        from run_terminal_ok[OF this ok4] show ?thesis by (simp add: dispatch_backed_def)
      qed
    qed
    with success(1,2) show "case run_live_pipeline env e db of
        Inr (PipelineSuccess rp, db') \<Rightarrow> dispatch_backed rp db db'
      | Inr (PipelineFailed pid st x, db') \<Rightarrow> db_exec_attempts db' = db_exec_attempts db
      | Inl x \<Rightarrow> False"
      by (auto simp: records_def dispatch_backed_def split: option.splits)
  qed
qed

end
