(* ===== verification/Inspection.thy ===== *)
theory Inspection
  imports Guards Pipeline
begin

text \<open>
  The read-only inspection routes of the dashboard (\<open>api/inspection_routes.py\<close>) as functions of the database:
  which row versions they count, the money they report per currency, the recovery ledger, the payment list
  and the trace of one payment; and what they promise about the databases the pipeline produces.

  \<open>func.avg\<close> of a \<open>NUMERIC\<close> column is the parameter \<open>avg\<close> (PostgreSQL chooses the digits of the quotient), and
  \<open>uuid.UUID\<close> the parameter \<open>parse_uuid\<close>. Rows that tie in an \<open>ORDER BY\<close> keep the order of insertion.
\<close>

section \<open>Latest versions and joins\<close>

definition latest_ids :: "('r \<Rightarrow> uuid) \<Rightarrow> ('r \<Rightarrow> 'k) \<Rightarrow> ('r \<Rightarrow> int) \<Rightarrow> 'r list \<Rightarrow> uuid list" where
  "latest_ids ident grp version rows =
     map ident (filter (\<lambda>r. version r = max_default (version r) (map version (filter (\<lambda>q. grp q = grp r) rows))) rows)"

definition latest_attribution_ids :: "('a attribution_db_scheme) \<Rightarrow> uuid list" where
  "latest_attribution_ids db = latest_ids aa_attribution_id aa_command_id aa_version (db_attributions db)"

definition latest_observation_ids :: "('a execution_db_scheme) \<Rightarrow> uuid list" where
  "latest_observation_ids db = latest_ids ob_observation_id ob_command_id ob_version (db_observations db)"

definition latest_attempt_ids :: "('a execution_db_scheme) \<Rightarrow> uuid list" where
  "latest_attempt_ids db = latest_ids xa_attempt_id xa_command_id xa_attempt_number (db_exec_attempts db)"

definition latest_decision_ids :: "('a decision_db_scheme) \<Rightarrow> uuid list" where
  "latest_decision_ids db = latest_ids de_decision_id de_payment_attempt_id de_version (db_decisions db)"

text \<open>A \<open>LEFT OUTER JOIN\<close>: every row with each of its matches, or once with none.\<close>

definition left_join :: "('x \<Rightarrow> 'y \<Rightarrow> bool) \<Rightarrow> 'x list \<Rightarrow> 'y list \<Rightarrow> ('x \<times> 'y option) list" where
  "left_join on xs ys =
     concat (map (\<lambda>x. case filter (on x) ys of [] \<Rightarrow> [(x, None)] | ms \<Rightarrow> map (\<lambda>y. (x, Some y)) ms) xs)"

text \<open>An inner \<open>JOIN\<close>.\<close>

definition inner_join :: "('x \<Rightarrow> 'y \<Rightarrow> bool) \<Rightarrow> 'x list \<Rightarrow> 'y list \<Rightarrow> ('x \<times> 'y) list" where
  "inner_join on xs ys = concat (map (\<lambda>x. map (\<lambda>y. (x, y)) (filter (on x) ys)) xs)"

section \<open>Money per currency\<close>

definition sizing_rows :: "('a event_db_scheme) \<Rightarrow> (string \<times> string) list" where
  "sizing_rows db =
     map (\<lambda>e. (ev_payment_id e, ev_currency e))
       (filter (\<lambda>e. ev_event_type e = ''payment.authorized'' \<and> event_visible e) (db_events db)) @
     map (\<lambda>e. (PAYPAL_ATTEMPT_PREFIX @ ev_payment_id e, ev_currency e))
       (filter (\<lambda>e. ev_event_type e = PAYPAL_TRIGGER_EVENT_TYPE \<and> ev_source_system e = PAYPAL_SOURCE_SYSTEM) (db_events db))"

definition payment_currency :: "('a event_db_scheme) \<Rightarrow> string \<Rightarrow> string option" where
  "payment_currency db payment_id =
     (case remdups (map snd (filter (\<lambda>r. fst r = payment_id) (sizing_rows db))) of [c] \<Rightarrow> Some c | _ \<Rightarrow> None)"

record currency_group =
  cg_currency :: "string option"
  cg_amount :: int
  cg_positive :: nat
  cg_simulated :: nat
  cg_synthetic :: nat

text \<open>\<open>ORDER BY currency ASC NULLS LAST\<close>\<close>

definition currency_order :: "string option \<Rightarrow> bool \<times> string" where
  "currency_order c = (case c of None \<Rightarrow> (True, []) | Some s \<Rightarrow> (False, s))"

definition protected_gmv_by_currency :: "('a attribution_db_scheme) \<Rightarrow> attribution_record list \<Rightarrow> currency_group list" where
  "protected_gmv_by_currency db rows =
     (let latest = filter (\<lambda>a. aa_attribution_id a \<in> set (latest_attribution_ids db)) rows;
          currency = (\<lambda>a. payment_currency db (aa_payment_attempt_id a))
      in map (\<lambda>c. let g = filter (\<lambda>a. currency a = c) latest; positive = filter (\<lambda>a. 0 < aa_protected a) g
                  in \<lparr>cg_currency = c, cg_amount = sum_list (map aa_protected g), cg_positive = length positive,
                      cg_simulated = length (filter aa_is_simulated positive),
                      cg_synthetic = length (filter aa_is_synthetic positive)\<rparr>)
           (sort_key currency_order (remdups (map currency latest))))"

definition single_currency_amount :: "int list \<Rightarrow> int option" where
  "single_currency_amount amounts = (case amounts of [] \<Rightarrow> Some 0 | [a] \<Rightarrow> Some a | _ \<Rightarrow> None)"

text \<open>\<open>evaluation_audit_payload["upstream_context"]["episode_id"]\<close>\<close>

definition audit_episode :: "json \<Rightarrow> json option" where
  "audit_episode audit =
     (case json_get audit ''upstream_context'' of None \<Rightarrow> None | Some ctx \<Rightarrow> json_get ctx ''episode_id'')"

definition episode_decisions :: "uuid \<Rightarrow> ('a decision_db_scheme) \<Rightarrow> intervention_decision list" where
  "episode_decisions ep db = filter (\<lambda>d. audit_episode (de_audit d) = Some (JUuid ep)) (db_decisions db)"

record model_group =
  mg_name :: string
  mg_version :: string
  mg_provenance :: model_provenance
  mg_count :: nat

definition prediction_models :: "failure_prediction list \<Rightarrow> model_group list" where
  "prediction_models rows =
     map (\<lambda>(name, ver). \<lparr>mg_name = name, mg_version = ver,
            mg_provenance = classify_model_provenance (Some name) (Some ver),
            mg_count = length (filter (\<lambda>p. fp_model_name p = name \<and> fp_model_version p = ver) rows)\<rparr>)
       (sort_key (\<lambda>k. k) (remdups (map (\<lambda>p. (fp_model_name p, fp_model_version p)) rows)))"

section \<open>Summary\<close>

record execution_group =
  xg_executor_name :: string
  xg_is_simulation :: bool
  xg_succeeded :: nat

definition execution_provenance :: "('a execution_db_scheme) \<Rightarrow> execution_group list" where
  "execution_provenance db =
     (let rows = map fst (inner_join (\<lambda>x c. cm_command_id c = xa_command_id x)
            (filter (\<lambda>x. xa_attempt_id x \<in> set (latest_attempt_ids db)) (db_exec_attempts db))
            (filter (\<lambda>c. cm_status c = SUCCEEDED) (db_commands db)))
      in map (\<lambda>(name, sim). \<lparr>xg_executor_name = name, xg_is_simulation = sim,
                xg_succeeded = length (remdups (map xa_command_id
                  (filter (\<lambda>x. xa_executor_name x = name \<and> xa_is_simulation x = sim) rows)))\<rparr>)
           (sort_key fst (remdups (map (\<lambda>x. (xa_executor_name x, xa_is_simulation x)) rows))))"

record executive_summary =
  su_total_gmv :: "int option"
  su_total_gmv_by_currency :: "(string \<times> int) list"
  su_total_protected :: "int option"
  su_protected_by_currency :: "currency_group list"
  su_active_episodes :: nat
  su_successful_interventions :: nat
  su_simulated_interventions :: nat
  su_execution_provenance :: "execution_group list"
  su_prediction_models :: "model_group list"
  su_success_rate :: pyfloat
  su_total_auths :: nat
  su_total_captures :: nat

definition total_gmv_by_currency :: "('a event_db_scheme) \<Rightarrow> (string \<times> int) list" where
  "total_gmv_by_currency db =
     (let auths = filter (\<lambda>e. ev_event_type e = ''payment.authorized'' \<and> event_visible e) (db_events db)
      in map (\<lambda>c. (c, sum_list (map ev_amount_minor_units (filter (\<lambda>e. ev_currency e = c) auths))))
           (sort_key (\<lambda>c. c) (remdups (map ev_currency auths))))"

definition get_executive_summary :: "('a attribution_db_scheme) \<Rightarrow> executive_summary" where
  "get_executive_summary db =
     (let gmv = total_gmv_by_currency db; protected = protected_gmv_by_currency db (db_attributions db);
          executed = execution_provenance db;
          event_count = (\<lambda>ty. length (filter (\<lambda>e. ev_event_type e = ty \<and> event_visible e) (db_events db)));
          auths = event_count ''payment.authorized''; captures = event_count ''payment.captured''
      in \<lparr>su_total_gmv = single_currency_amount (map snd gmv), su_total_gmv_by_currency = gmv,
          su_total_protected = single_currency_amount (map cg_amount protected),
          su_protected_by_currency = protected,
          su_active_episodes = length (filter (\<lambda>ep. ep_status ep = ACTIVE) (db_episodes db)),
          su_successful_interventions = length (filter (\<lambda>c. cm_status c = SUCCEEDED) (db_commands db)),
          su_simulated_interventions = sum_list (map xg_succeeded (filter xg_is_simulation executed)),
          su_execution_provenance = executed, su_prediction_models = prediction_models (db_predictions db),
          su_success_rate = (if auths > 0 then int_truediv (int captures) (int auths) else 0),
          su_total_auths = auths, su_total_captures = captures\<rparr>)"

section \<open>Episodes and their analysis\<close>

text \<open>A bounded \<open>Query\<close> parameter: FastAPI answers 422 outside its range.\<close>

definition bounded_query :: "int \<Rightarrow> int \<Rightarrow> int \<Rightarrow> (response, nat) result" where
  "bounded_query lo hi n =
     (if lo \<le> n \<and> n \<le> hi then Inr (nat n) else Inl (http_exception 422 ''Unprocessable Entity''))"

definition descending :: "('r \<Rightarrow> int) \<Rightarrow> 'r list \<Rightarrow> 'r list" where
  "descending key rows = sort_key (\<lambda>r. - key r) rows"

definition get_episodes :: "int \<Rightarrow> ('a degradation_db_scheme) \<Rightarrow> (response, degradation_episode list) result" where
  "get_episodes limit db =
     bind_result (bounded_query 1 1000 limit) (\<lambda>n. Inr (take n (descending ep_started_at (db_episodes db))))"

record rca_view =
  rv_evaluation :: rca_evaluation
  rv_episode :: "degradation_episode option"
  rv_candidates :: "candidate_cause list"
  rv_predictions :: nat
  rv_peak_probability :: pyfloat
  rv_top_strength :: "evidence_strength option"
  rv_models :: "model_group list"
  rv_act :: nat
  rv_monitor :: nat
  rv_primary_route :: "intervention_route_key option"
  rv_decision_threshold :: pyfloat
  rv_protected :: "int option"
  rv_protected_by_currency :: "currency_group list"

text \<open>\<open>GROUP BY route ORDER BY count(*) DESC LIMIT 1\<close>\<close>

definition primary_route :: "intervention_decision list \<Rightarrow> intervention_route_key option" where
  "primary_route ds =
     (let routes = concat (map (\<lambda>d. case de_route d of None \<Rightarrow> [] | Some r \<Rightarrow> [r]) ds)
      in case descending (\<lambda>r. int (length (filter (\<lambda>q. q = r) routes))) (remdups routes) of
           [] \<Rightarrow> None | r # _ \<Rightarrow> Some r)"

definition get_rca_evaluation ::
  "(string \<Rightarrow> uuid option) \<Rightarrow> string \<Rightarrow> ('a attribution_db_scheme) \<Rightarrow> (response, rca_view) result" where
  "get_rca_evaluation parse_uuid episode_id db =
     (let not_found = Inl (http_exception 404 ''RCA evaluation not found'') in
      case parse_uuid episode_id of
        None \<Rightarrow> not_found
      | Some ep \<Rightarrow>
          (case latest_by re_version (filter (\<lambda>r. re_episode_id r = ep) (db_evaluations db)) of
             None \<Rightarrow> not_found
           | Some evaluation \<Rightarrow>
               let episode = find (\<lambda>e. ep_episode_id e = ep) (db_episodes db);
                   causes = sort_key cc_rank (filter (\<lambda>c. cc_evaluation_id c = re_evaluation_id evaluation) (db_candidates db));
                   ds = episode_decisions ep db;
                   predicted = map fst (inner_join (\<lambda>p d. de_prediction_id d = Some (fp_prediction_id p)) (db_predictions db) ds);
                   probabilities = concat (map (\<lambda>p. case fp_failure_probability p of None \<Rightarrow> [] | Some q \<Rightarrow> [q]) predicted);
                   protected = protected_gmv_by_currency db
                     (map fst (inner_join (\<lambda>a d. aa_decision_id a = de_decision_id d) (db_attributions db) ds))
               in Inr \<lparr>rv_evaluation = evaluation, rv_episode = episode, rv_candidates = causes,
                       rv_predictions = length predicted, rv_peak_probability = max_default 0 probabilities,
                       rv_top_strength = (case causes of [] \<Rightarrow> None | c # _ \<Rightarrow> Some (cc_strength c)),
                       rv_models = prediction_models predicted,
                       rv_act = length (filter (\<lambda>d. de_type d = ACT) ds),
                       rv_monitor = length (filter (\<lambda>d. de_type d = MONITOR) ds),
                       rv_primary_route = primary_route ds,
                       rv_decision_threshold = po_act_threshold get_default_policy,
                       rv_protected = single_currency_amount (map cg_amount protected),
                       rv_protected_by_currency = protected\<rparr>))"

section \<open>Attributions\<close>

text \<open>A row with its currency; the counterfactual outcome shown, and the components of the confidence.\<close>

definition shown_counterfactual :: "attribution_record \<Rightarrow> attribution_status option" where
  "shown_counterfactual a = (if aa_status a = ATTRIBUTED then None else Some (aa_status a))"

definition evidence_component :: "attribution_record \<Rightarrow> string \<Rightarrow> json option" where
  "evidence_component a name =
     (case json_get (aa_audit a) ''evidence_score_components'' of None \<Rightarrow> None | Some ev \<Rightarrow> json_get ev name)"

definition get_recent_attributions ::
  "int \<Rightarrow> bool \<Rightarrow> ('a attribution_db_scheme) \<Rightarrow> (response, (attribution_record \<times> string option) list) result" where
  "get_recent_attributions limit include_history db =
     bind_result (bounded_query 1 500 limit) (\<lambda>n.
       Inr (map (\<lambda>a. (a, payment_currency db (aa_payment_attempt_id a)))
         (take n (descending aa_created_at
           (filter (\<lambda>a. include_history \<or> aa_attribution_id a \<in> set (latest_attribution_ids db)) (db_attributions db))))))"

section \<open>The recovery workspace\<close>

record recovery_summary =
  rs_dispatched :: nat
  rs_simulated :: nat
  rs_act :: nat
  rs_monitor :: nat
  rs_captures :: nat
  rs_failures :: nat
  rs_protected :: "int option"
  rs_protected_by_currency :: "currency_group list"
  rs_attributions :: nat
  rs_avg_confidence :: pyfloat
  rs_rescued :: nat
  rs_rescued_confidence :: pyfloat

definition float_or_zero :: "decimal option \<Rightarrow> pyfloat" where
  "float_or_zero d = (case d of None \<Rightarrow> 0 | Some x \<Rightarrow> fl x)"

definition recovery_summary_of :: "(decimal list \<Rightarrow> decimal option) \<Rightarrow> ('a attribution_db_scheme) \<Rightarrow> recovery_summary" where
  "recovery_summary_of avg db =
     (let observed = filter (\<lambda>q. ob_observation_id q \<in> set (latest_observation_ids db)) (db_observations db);
          attributed = filter (\<lambda>a. aa_attribution_id a \<in> set (latest_attribution_ids db)) (db_attributions db);
          rescued = filter (\<lambda>a. 0 < aa_protected a) attributed;
          protected = protected_gmv_by_currency db (db_attributions db)
      in \<lparr>rs_dispatched = length (db_commands db),
          rs_simulated = length (filter (\<lambda>x. xa_attempt_id x \<in> set (latest_attempt_ids db) \<and> xa_is_simulation x) (db_exec_attempts db)),
          rs_act = length (filter (\<lambda>d. de_type d = ACT) (db_decisions db)),
          rs_monitor = length (filter (\<lambda>d. de_type d = MONITOR) (db_decisions db)),
          rs_captures = length (filter (\<lambda>q. ob_outcome q = OUTCOME_CAPTURED) observed),
          rs_failures = length (filter (\<lambda>q. ob_outcome q = OUTCOME_FAILED) observed),
          rs_protected = single_currency_amount (map cg_amount protected), rs_protected_by_currency = protected,
          rs_attributions = length attributed, rs_avg_confidence = float_or_zero (avg (map aa_confidence attributed)),
          rs_rescued = length rescued, rs_rescued_confidence = float_or_zero (avg (map aa_confidence rescued))\<rparr>)"

record ledger_row =
  le_decision :: intervention_decision
  le_episode :: "json option"
  le_command :: "intervention_command option"
  le_observation :: "outcome_observation option"
  le_attribution :: "attribution_record option"
  le_attempt :: "execution_attempt option"
  le_currency :: "string option"
  le_protected :: int
  le_attribution_status :: string

definition new_ledger_row ::
  "('a event_db_scheme) \<Rightarrow>
   (((intervention_decision \<times> intervention_command option) \<times> outcome_observation option) \<times> attribution_record option)
     \<times> execution_attempt option \<Rightarrow> ledger_row" where
  "new_ledger_row db = (\<lambda>((((d, c), q), a), x).
     \<lparr>le_decision = d, le_episode = audit_episode (de_audit d), le_command = c, le_observation = q, le_attribution = a,
      le_attempt = x, le_currency = payment_currency db (de_payment_attempt_id d),
      le_protected = (case a of None \<Rightarrow> 0 | Some a \<Rightarrow> aa_protected a),
      le_attribution_status =
        (case a of
           None \<Rightarrow> ''NOT_ATTRIBUTABLE''
         | Some a \<Rightarrow> if 0 < aa_protected a then ''ATTRIBUTED'' else ''NOT_ATTRIBUTED'')\<rparr>)"

definition decision_type_value :: "decision_type \<Rightarrow> string" where
  "decision_type_value t = (case t of NO_ACTION \<Rightarrow> ''NO_ACTION'' | MONITOR \<Rightarrow> ''MONITOR'' | ACT \<Rightarrow> ''ACT'')"

definition ledger_decisions :: "string option \<Rightarrow> ('a decision_db_scheme) \<Rightarrow> intervention_decision list" where
  "ledger_decisions decision_type db =
     filter (\<lambda>d. truthy decision_type \<longrightarrow> decision_type_value (de_type d) = str_upper (the decision_type)) (db_decisions db)"

definition ledger_rows :: "string option \<Rightarrow> ('a attribution_db_scheme) \<Rightarrow> ledger_row list" where
  "ledger_rows decision_type db =
     (let commands = left_join (\<lambda>d c. cm_decision_id c = de_decision_id d) (ledger_decisions decision_type db) (db_commands db);
          observations = left_join (\<lambda>(d, c) q. map_option cm_command_id c = Some (ob_command_id q) \<and>
                           ob_observation_id q \<in> set (latest_observation_ids db)) commands (db_observations db);
          attributions = left_join (\<lambda>((d, c), q) a. aa_decision_id a = de_decision_id d \<and>
                           aa_attribution_id a \<in> set (latest_attribution_ids db)) observations (db_attributions db);
          attempts = left_join (\<lambda>(((d, c), q), a) x. map_option cm_command_id c = Some (xa_command_id x) \<and>
                           xa_attempt_id x \<in> set (latest_attempt_ids db)) attributions (db_exec_attempts db)
      in descending (\<lambda>r. de_decided_at (le_decision r)) (map (new_ledger_row db) attempts))"

record recovery_view =
  rw_summary :: recovery_summary
  rw_ledger :: "ledger_row list"
  rw_total_count :: nat

definition get_recovery_workspace ::
  "(decimal list \<Rightarrow> decimal option) \<Rightarrow> string option \<Rightarrow> int \<Rightarrow> int \<Rightarrow> ('a attribution_db_scheme) \<Rightarrow>
   (response, recovery_view) result" where
  "get_recovery_workspace avg decision_type limit offset db =
     bind_result (bounded_query 1 200 limit) (\<lambda>n.
     bind_result (require_that (0 \<le> offset) (http_exception 422 ''Unprocessable Entity'')) (\<lambda>_.
     Inr \<lparr>rw_summary = recovery_summary_of avg db,
          rw_ledger = take n (drop (nat offset) (ledger_rows decision_type db)),
          rw_total_count = length (ledger_decisions decision_type db)\<rparr>))"

section \<open>The list of payments\<close>

text \<open>The first visible event of each payment, and the greatest terminal status.\<close>

definition canonical_event_ids :: "('a event_db_scheme) \<Rightarrow> uuid list" where
  "canonical_event_ids db =
     (let visible = filter event_visible (db_events db)
      in map (\<lambda>p. ev_event_id (hd (sort_key ev_timestamp (filter (\<lambda>e. ev_payment_id e = p) visible))))
           (remdups (map ev_payment_id visible)))"

definition terminal_status :: "('a event_db_scheme) \<Rightarrow> string \<Rightarrow> string option" where
  "terminal_status db payment_id =
     (case map ev_payment_status (filter (\<lambda>e. ev_payment_id e = payment_id \<and> is_terminal e \<and> event_visible e) (db_events db)) of
        [] \<Rightarrow> None | s # ss \<Rightarrow> Some (fold max ss s))"

text \<open>\<open>ILIKE\<close>: \<open>%\<close> matches any characters, \<open>_\<close> one, a backslash quotes the next.\<close>

fun like :: "string \<Rightarrow> string \<Rightarrow> bool" where
  "like [] s = (s = [])"
| "like (p # ps) s =
     (if p = CHR ''%'' then like ps s \<or> (case s of [] \<Rightarrow> False | c # cs \<Rightarrow> like (p # ps) cs)
      else if p = CHR 0x5C then
        (case (ps, s) of (q # qs, c # cs) \<Rightarrow> q = c \<and> like qs cs | _ \<Rightarrow> False)
      else (case s of [] \<Rightarrow> False | c # cs \<Rightarrow> (p = CHR ''_'' \<or> p = c) \<and> like ps cs))"

definition ilike :: "string \<Rightarrow> string \<Rightarrow> bool" where
  "ilike pattern s = like (str_lower pattern) (str_lower s)"

record payment_item =
  pi_event :: payment_event
  pi_status :: string
  pi_decision :: "intervention_decision option"
  pi_attributed :: bool
  pi_attribution :: "attribution_record option"
  pi_protected :: int

type_synonym payment_row = "(payment_event \<times> intervention_decision option) \<times> attribution_record option"

definition payment_rows :: "('a attribution_db_scheme) \<Rightarrow> payment_row list" where
  "payment_rows db =
     (let canonical = filter (\<lambda>e. ev_event_id e \<in> set (canonical_event_ids db)) (db_events db);
          decided = left_join (\<lambda>e d. de_payment_attempt_id d = ev_payment_id e \<and> de_decision_id d \<in> set (latest_decision_ids db))
                      canonical (db_decisions db)
      in left_join (\<lambda>(e, d) a. map_option de_decision_id d = Some (aa_decision_id a) \<and>
                      aa_attribution_id a \<in> set (latest_attribution_ids db)) decided (db_attributions db))"

definition final_status :: "('a event_db_scheme) \<Rightarrow> payment_event \<Rightarrow> string" where
  "final_status db e = (case terminal_status db (ev_payment_id e) of None \<Rightarrow> ev_payment_status e | Some s \<Rightarrow> s)"

text \<open>The optional \<open>WHERE\<close> conditions: search, kind, and status.\<close>

definition payment_selected ::
  "string option \<Rightarrow> string option \<Rightarrow> string option \<Rightarrow> ('a attribution_db_scheme) \<Rightarrow> payment_row \<Rightarrow> bool" where
  "payment_selected search filter_type status db = (\<lambda>((e, d), a).
     (if truthy search then ilike (''%'' @ strip (the search) @ ''%'') (ev_payment_id e) else True) \<and>
     (if truthy filter_type
      then (if str_upper (the filter_type) = ''INTERVENED'' then d \<noteq> None
            else if str_upper (the filter_type) = ''ATTRIBUTED'' then map_option aa_status a = Some ATTRIBUTED
            else True)
      else True) \<and>
     (if truthy status then final_status db e = str_lower (the status) else True))"

definition new_payment_item :: "('a event_db_scheme) \<Rightarrow> payment_row \<Rightarrow> payment_item" where
  "new_payment_item db = (\<lambda>((e, d), a).
     let final = (case terminal_status db (ev_payment_id e) of
                    None \<Rightarrow> ev_payment_status e
                  | Some s \<Rightarrow> if s = [] then ev_payment_status e else s);
         attributed = (map_option aa_status a = Some ATTRIBUTED)
     in \<lparr>pi_event = e, pi_status = final, pi_decision = d, pi_attributed = attributed,
         pi_attribution = (if attributed then a else None),
         pi_protected = (case a of None \<Rightarrow> 0 | Some a \<Rightarrow> if attributed then aa_protected a else 0)\<rparr>)"

record payments_view =
  pv_items :: "payment_item list"
  pv_total_count :: nat

definition get_payments_list ::
  "int \<Rightarrow> int \<Rightarrow> string option \<Rightarrow> string option \<Rightarrow> string option \<Rightarrow> ('a attribution_db_scheme) \<Rightarrow>
   (response, payments_view) result" where
  "get_payments_list limit offset search filter_type status db =
     bind_result (bounded_query 1 200 limit) (\<lambda>n.
     bind_result (require_that (0 \<le> offset) (http_exception 422 ''Unprocessable Entity'')) (\<lambda>_.
     let rows = filter (payment_selected search filter_type status db) (payment_rows db)
     in Inr \<lparr>pv_items = map (new_payment_item db)
                 (take n (drop (nat offset) (descending (\<lambda>((e, d), a). ev_timestamp e) rows))),
             pv_total_count = length rows\<rparr>))"

section \<open>The trace of a payment\<close>

record timeline =
  tl_payment_id :: string
  tl_first :: payment_event
  tl_terminal_status :: string
  tl_events :: "payment_event list"
  tl_prediction :: "failure_prediction option"
  tl_decision :: "intervention_decision option"
  tl_command :: "intervention_command option"
  tl_execution :: "execution_attempt option"
  tl_observation :: "outcome_observation option"
  tl_attribution :: "attribution_record option"
  tl_protected :: int

definition get_payment_timeline :: "string \<Rightarrow> ('a attribution_db_scheme) \<Rightarrow> (response, timeline) result" where
  "get_payment_timeline payment_id db =
     (let pid = strip payment_id;
          events = sort_key ev_timestamp (filter (\<lambda>e. ev_payment_id e = pid \<and> event_visible e) (db_events db));
          prediction = latest_by fp_version (filter (\<lambda>p. fp_payment_attempt_id p = pid) (db_predictions db));
          decision = latest_by de_version (filter (\<lambda>d. de_payment_attempt_id d = pid) (db_decisions db));
          command = Option.bind decision (\<lambda>d. find (\<lambda>c. cm_decision_id c = de_decision_id d) (db_commands db));
          execution = latest_by xa_attempt_number (filter (\<lambda>x. map_option cm_command_id command = Some (xa_command_id x)) (db_exec_attempts db));
          observation = latest_by ob_version (filter (\<lambda>q. map_option cm_command_id command = Some (ob_command_id q)) (db_observations db));
          attribution = latest_by aa_version (filter (\<lambda>a. map_option cm_command_id command = Some (aa_command_id a)) (db_attributions db))
      in case events of
           [] \<Rightarrow> Inl (http_exception 404 (''Payment '' @ payment_id @ '' not found''))
         | first # rest \<Rightarrow>
             Inr \<lparr>tl_payment_id = ev_payment_id first, tl_first = first, tl_terminal_status = ev_payment_status (last events),
                  tl_events = events, tl_prediction = prediction, tl_decision = decision, tl_command = command,
                  tl_execution = execution, tl_observation = observation, tl_attribution = attribution,
                  tl_protected = (case attribution of None \<Rightarrow> 0
                                  | Some a \<Rightarrow> if aa_status a = ATTRIBUTED then aa_protected a else 0)\<rparr>)"

section \<open>Sums over groups\<close>

lemma sum_over_keys:
  fixes f :: "'x \<Rightarrow> 'k"
  assumes "distinct ks" "f ` set xs \<subseteq> set ks"
  shows "sum_list (map (\<lambda>k. sum_list (map g (filter (\<lambda>x. f x = k) xs))) ks) = (sum_list (map g xs) :: int)"
  using assms(2)
proof (induction xs)
  case Nil
  then show ?case by (induction ks) simp_all
next
  case (Cons x xs)
  have one: "sum_list (map (\<lambda>k. if f x = k then g x + h k else h k) ks) = g x + sum_list (map h ks)"
    if "distinct ks" "f x \<in> set ks" for ks and h :: "'k \<Rightarrow> int"
    using that
  proof (induction ks)
    case (Cons k ks)
    show ?case
    proof (cases "f x = k")
      case True
      then have "k \<notin> set ks" using Cons.prems(1) by simp
      then have "map (\<lambda>k. if f x = k then g x + h k else h k) ks = map h ks" using True by auto
      from arg_cong[where f = sum_list, OF this] True show ?thesis by simp
    qed (use Cons in simp)
  qed simp
  have "sum_list (map (\<lambda>k. sum_list (map g (filter (\<lambda>y. f y = k) (x # xs)))) ks) =
      sum_list (map (\<lambda>k. if f x = k then g x + sum_list (map g (filter (\<lambda>y. f y = k) xs))
        else sum_list (map g (filter (\<lambda>y. f y = k) xs))) ks)"
    by (intro arg_cong[where f = sum_list] map_cong) simp_all
  also have "\<dots> = g x + sum_list (map (\<lambda>k. sum_list (map g (filter (\<lambda>y. f y = k) xs))) ks)"
    using assms(1) Cons.prems by (intro one) simp_all
  finally show ?case using Cons by simp
qed

section \<open>The latest row of a group\<close>

lemma contiguous_latest:
  assumes "map v rs = map int [1..<Suc (length rs)]"
  shows "latest_by v rs = (if rs = [] then None else Some (last rs))"
    and "filter (\<lambda>r. v r = max_default (v r) (map v rs)) rs = (case latest_by v rs of None \<Rightarrow> [] | Some r \<Rightarrow> [r])"
proof -
  show latest: "latest_by v rs = (if rs = [] then None else Some (last rs))"
  proof (cases rs rule: rev_cases)
    case (snoc ys y)
    with assms have ys: "map v ys = map int [1..<Suc (length ys)]" and y: "v y = int (Suc (length ys))" by simp_all
    have "\<forall>q\<in>set ys. v q < v y"
    proof
      fix q assume "q \<in> set ys"
      then have "v q \<in> set (map v ys)" by simp
      with y show "v q < v y" unfolding ys by auto
    qed
    with snoc show ?thesis by (simp add: latest_by_snoc_greater)
  qed (simp add: latest_by_def)
  show "filter (\<lambda>r. v r = max_default (v r) (map v rs)) rs = (case latest_by v rs of None \<Rightarrow> [] | Some r \<Rightarrow> [r])"
  proof (cases rs rule: rev_cases)
    case (snoc ys y)
    with assms have ys: "map v ys = map int [1..<Suc (length ys)]" and y: "v y = int (Suc (length ys))" by simp_all
    have less: "v q < v y" if "q \<in> set ys" for q
    proof -
      from that have "v q \<in> set (map v ys)" by simp
      with y show ?thesis unfolding ys by auto
    qed
    have "max_default d (map v ys) \<le> v y" if "ys \<noteq> []" for d
      using max_default_in[of "map v ys" d] that less by fastforce
    then have "max_default d (map v rs) = v y" for d by (simp add: snoc max_default_snoc max_absorb1)
    moreover have "filter (\<lambda>r. v r = v y) ys = []" using less by (force simp: filter_empty_conv)
    ultimately show ?thesis unfolding latest by (simp add: snoc)
  qed (simp add: latest_by_def)
qed

text \<open>When ids determine group and version, the ids of the latest rows select exactly one row per group.\<close>

lemma latest_ids_select:
  fixes grp :: "'r \<Rightarrow> 'k"
  assumes ids: "\<And>a b. a \<in> set rows \<Longrightarrow> b \<in> set rows \<Longrightarrow> ident a = ident b \<Longrightarrow> grp a = grp b \<and> version a = version b"
    and versions: "map version (filter (\<lambda>r. grp r = k) rows) = map int [1..<Suc (length (filter (\<lambda>r. grp r = k) rows))]"
  shows "filter (\<lambda>r. grp r = k \<and> ident r \<in> set (latest_ids ident grp version rows)) rows =
    (case latest_by version (filter (\<lambda>r. grp r = k) rows) of None \<Rightarrow> [] | Some r \<Rightarrow> [r])"
proof -
  let ?top = "\<lambda>r. version r = max_default (version r) (map version (filter (\<lambda>q. grp q = grp r) rows))"
  have "ident r \<in> set (latest_ids ident grp version rows) \<longleftrightarrow> ?top r" if r: "r \<in> set rows" for r
  proof
    assume "ident r \<in> set (latest_ids ident grp version rows)"
    then obtain q where q: "q \<in> set rows" "ident r = ident q" "?top q" by (auto simp: latest_ids_def)
    from ids[OF r q(1,2)] q(3) show "?top r" by simp
  qed (use r in \<open>auto simp: latest_ids_def\<close>)
  then have "filter (\<lambda>r. grp r = k \<and> ident r \<in> set (latest_ids ident grp version rows)) rows =
      filter (\<lambda>r. grp r = k \<and> ?top r) rows" by (intro filter_cong) auto
  also have "\<dots> = filter (\<lambda>r. version r = max_default (version r) (map version (filter (\<lambda>q. grp q = k) rows)))
      (filter (\<lambda>r. grp r = k) rows)"
    by (auto simp: filter_filter intro!: filter_cong)
  also have "\<dots> = (case latest_by version (filter (\<lambda>r. grp r = k) rows) of None \<Rightarrow> [] | Some r \<Rightarrow> [r])"
    by (rule contiguous_latest(2)[OF versions])
  finally show ?thesis .
qed

text \<open>The latest attribution of a command, if any.\<close>

definition latest_attribution :: "('a attribution_db_scheme) \<Rightarrow> uuid \<Rightarrow> attribution_record option" where
  "latest_attribution db i = latest_by aa_version (filter (\<lambda>a. aa_command_id a = i) (db_attributions db))"

lemma latest_attributions_of:
  assumes "attributions_ok db"
  shows "filter (\<lambda>a. aa_command_id a = i \<and> aa_attribution_id a \<in> set (latest_attribution_ids db)) (db_attributions db) =
    (case latest_attribution db i of None \<Rightarrow> [] | Some a \<Rightarrow> [a])"
  unfolding latest_attribution_def latest_attribution_ids_def
proof (rule latest_ids_select)
  fix a b assume ab: "a \<in> set (db_attributions db)" "b \<in> set (db_attributions db)" "aa_attribution_id a = aa_attribution_id b"
  from ab(1,2) assms have "aa_attribution_id a = make_attribution_id (aa_command_id a) (aa_version a)"
    "aa_attribution_id b = make_attribution_id (aa_command_id b) (aa_version b)"
    by (auto simp: attributions_ok_def list_all_iff attribution_row_ok_def)
  with ab(3) show "aa_command_id a = aa_command_id b \<and> aa_version a = aa_version b"
    by (simp add: make_attribution_id_inject)
next
  from assms have "attribution_log.versions_of db i = map int [1..<Suc (length (attribution_log.versions_of db i))]"
    unfolding attributions_ok_def attribution_log.contiguous_def by blast
  then show "map aa_version (filter (\<lambda>a. aa_command_id a = i) (db_attributions db)) =
      map int [1..<Suc (length (filter (\<lambda>a. aa_command_id a = i) (db_attributions db)))]"
    by (simp add: attribution_log.versions_of_def)
qed

definition protected_of :: "('a attribution_db_scheme) \<Rightarrow> uuid \<Rightarrow> int" where
  "protected_of db i = (case latest_attribution db i of None \<Rightarrow> 0 | Some a \<Rightarrow> aa_protected a)"

lemma protected_total:
  assumes "settled_ok db"
  shows "sum_list (map aa_protected (filter (\<lambda>a. aa_attribution_id a \<in> set (latest_attribution_ids db)) (db_attributions db))) =
    sum_list (map (protected_of db) (map cm_command_id (db_commands db)))"
proof -
  let ?latest = "filter (\<lambda>a. aa_attribution_id a \<in> set (latest_attribution_ids db)) (db_attributions db)"
  from assms have ok: "attributions_ok db" and ids: "distinct (map cm_command_id (db_commands db))"
    by (simp_all add: settled_ok_def pipeline_ok_def commands_settled_def)
  have "aa_command_id a \<in> set (map cm_command_id (db_commands db))" if "a \<in> set (db_attributions db)" for a
  proof -
    from that ok have "get_command_by_id db (aa_command_id a) \<noteq> None"
      by (auto simp: attributions_ok_def list_all_iff attribution_row_ok_def)
    then show ?thesis by (force simp: get_command_by_id_def dest!: find_SomeD)
  qed
  then have "aa_command_id ` set ?latest \<subseteq> set (map cm_command_id (db_commands db))" by auto
  from sum_over_keys[OF ids this, of aa_protected, symmetric]
  have "sum_list (map aa_protected ?latest) =
      sum_list (map (\<lambda>i. sum_list (map aa_protected (filter (\<lambda>a. aa_command_id a = i) ?latest))) (map cm_command_id (db_commands db)))" .
  moreover have "sum_list (map aa_protected (filter (\<lambda>a. aa_command_id a = i) ?latest)) = protected_of db i" for i
    using latest_attributions_of[OF ok, of i] by (simp add: protected_of_def conj_commute split: option.split)
  ultimately show ?thesis by simp
qed

section \<open>Links between the tables\<close>

text \<open>One command per decision, attributions name the decision of their command, observations carry their derived id.\<close>

definition links_ok :: "('a attribution_db_scheme) \<Rightarrow> bool" where
  "links_ok db \<longleftrightarrow>
     distinct (map cm_decision_id (db_commands db)) \<and>
     (\<forall>a\<in>set (db_attributions db). map_option cm_decision_id (get_command_by_id db (aa_command_id a)) = Some (aa_decision_id a)) \<and>
     (\<forall>q\<in>set (db_observations db). ob_observation_id q = make_observation_id (ob_command_id q) (ob_version q))"

lemma links_frame:
  "db_commands db' = db_commands db \<Longrightarrow> db_attributions db' = db_attributions db \<Longrightarrow> db_observations db' = db_observations db \<Longrightarrow>
   links_ok db \<Longrightarrow> links_ok db'"
  by (simp add: links_ok_def get_command_by_id_def)

lemma links_create:
  assumes "create_command d n now db = Inr (c, db')" "links_ok db"
  shows "links_ok db'"
proof -
  from assms(1) have "db' = db \<or> (db' = db\<lparr>db_commands := db_commands db @ [c]\<rparr> \<and>
      cm_command_id c \<notin> cm_command_id ` set (db_commands db) \<and> cm_decision_id c \<notin> cm_decision_id ` set (db_commands db))"
    by (auto simp: create_command_def insert_command_def Let_def bind_result_def list_ex_iff
        split: sum.splits option.splits if_splits)
  moreover have "get_command_by_id (db\<lparr>db_commands := db_commands db @ [c]\<rparr>) i = Some x"
    if "get_command_by_id db i = Some x" for i x
    using that by (simp add: get_command_by_id_def find_append)
  ultimately show ?thesis using assms(2) by (fastforce simp: links_ok_def)
qed

lemma links_commands:
  assumes "map (\<lambda>c. (cm_command_id c, cm_decision_id c)) (db_commands db') = map (\<lambda>c. (cm_command_id c, cm_decision_id c)) (db_commands db)"
    and "db_attributions db' = db_attributions db" "db_observations db' = db_observations db" "links_ok db"
  shows "links_ok db'"
proof -
  have find: "map_option cm_decision_id (find (\<lambda>c. cm_command_id c = i) cs) = map_of (map (\<lambda>c. (cm_command_id c, cm_decision_id c)) cs) i"
    for i cs by (induction cs) auto
  have "map cm_decision_id (db_commands db') = map cm_decision_id (db_commands db)"
    using arg_cong[OF assms(1), of "map snd"] by (simp add: comp_def)
  with assms show ?thesis by (simp add: links_ok_def get_command_by_id_def find)
qed

lemma update_links [simp]:
  "map (\<lambda>c. (cm_command_id c, cm_decision_id c)) (db_commands (snd (update_command_status_atomic i e g r t db))) =
   map (\<lambda>c. (cm_command_id c, cm_decision_id c)) (db_commands db)"
  by (simp add: update_command_status_atomic_def Let_def set_status_def)

lemma links_execute:
  assumes "execute_command x a ctx t i db = Inr (c, db')" "distinct (map cm_command_id (db_commands db))" "links_ok db"
  shows "links_ok db'"
  using assms(1,2)
proof (cases rule: execute_Inr)
  case (dispatched cmd r y)
  then show ?thesis
    by (intro links_commands[OF _ _ _ assms(3)])
      (simp_all add: finalize_def insert_execution_attempt_def prod.case_eq_if update_command_status_atomic_def Let_def)
next
  case (stopped cmd target reason)
  then show ?thesis
    by (intro links_commands[OF _ _ _ assms(3)]) (simp_all add: update_command_status_atomic_def Let_def)
qed (use assms(3) in simp)

lemma links_attribute:
  assumes "attribute_payment_intervention t now i db = Inr (r, db')" "links_ok db"
  shows "links_ok db'"
  using assms(1)
proof (cases rule: attribute_Inr)
  case (new ev ref a)
  from gather_evidence_Inr[OF new(2)] have "get_command_by_id db i = Some (ae_command ev)" "cm_command_id (ae_command ev) = i"
    "de_decision_id (ae_decision ev) = cm_decision_id (ae_command ev)" by (auto simp: get_decision_def dest: find_SomeD)
  with new(5,6) assms(2) show ?thesis
    by (auto simp: links_ok_def insert_attribution_def get_command_by_id_def)
qed (use assms(2) in simp)

lemma links_observe:
  assumes "observe as_of now i db = Inr (ob, db')" "links_ok db"
  shows "links_ok db'"
proof -
  from assms(1) obtain c v es where "db' = append_observation ob db" "ob = new_observation i c v now as_of es"
    by (elim observe_Inr) blast
  with assms(2) show ?thesis
    by (auto simp: links_ok_def append_observation_def new_observation_def get_command_by_id_def Let_def)
qed

lemma links_trigger:
  assumes "run_trigger env e ref db = Inr (rp, db')" "settled_ok db" "links_ok db"
  shows "links_ok db'"
proof -
  have early: "links_ok db2" if "register_attempt now e db = Inr (x, db1)" "orchestrate_prediction us m now' ref t db1 = Inr (p, db2)"
    for now x db1 us m now' t p db2
    using that(1) orchestrate_db[OF that(2)] assms(3)
    by (auto simp: register_attempt_def bind_result_Inr Let_def insert_attempt_def insert_prediction_def split: if_splits
        elim!: links_frame[rotated 3])
  from assms(1) show ?thesis
  proof (cases rule: run_trigger_Inr)
    case refused
    with assms(3) show ?thesis by simp
  next
    case (predicted x db1 p)
    then show ?thesis using early by blast
  next
    case (decided x db1 p db2 q d db3)
    have "settled_ok db2" using stage5_ok[OF assms(2) decided(1,2)] by blast
    moreover from this have "pipeline_ok db2" by (simp add: settled_ok_def)
    ultimately have s3: "settled_ok db3" using keeps_settled ok_decide[OF _ decided(5)] by blast
    have l3: "links_ok db3"
      using decide_shape[OF decided(5)] early[OF decided(1,2)]
      by (auto simp: insert_decision_def elim!: links_frame[rotated 3])
    from decided(6) show ?thesis
    proof (cases rule: run_action_Inr)
      case (act c db4 c')
      from s3 have "commands_settled db3" by (simp add: settled_ok_def)
      then have "distinct (map cm_command_id (db_commands db4))"
        using create_settled[OF act(2)] by (simp add: settled_but_def)
      with links_execute[OF act(3)] links_create[OF act(2) l3] show ?thesis by blast
    qed (use l3 in simp)
  qed
qed

lemma links_terminal: "run_terminal env e ref db = Inr (rp, db') \<Longrightarrow> links_ok db \<Longrightarrow> links_ok db'"
proof -
  have "fold_result (observe_and_attribute env e) cs (rp0, d) = Inr (rp1, d') \<Longrightarrow> links_ok d \<Longrightarrow> links_ok d'"
    for cs rp0 rp1 and d d' :: "'a attribution_db_scheme"
    by (induction cs arbitrary: rp0 d)
      (auto simp: bind_result_Inr observe_and_attribute_def Let_def dest: links_observe links_attribute)
  then show "run_terminal env e ref db = Inr (rp, db') \<Longrightarrow> links_ok db \<Longrightarrow> links_ok db'" unfolding run_terminal_def by blast
qed

lemma links_records: "records db' = records db \<Longrightarrow> links_ok db \<Longrightarrow> links_ok db'"
  by (rule links_frame[where db = db]) (simp_all add: records_def)

lemma links_step:
  assumes "settled_ok db" "links_ok db"
  shows "links_ok (live_step q db)"
proof -
  obtain env es e where q: "q = (env, es, e)" by (cases q) auto
  let ?db = "db\<lparr>db_events := db_events db @ es\<rparr>"
  have ok: "settled_ok ?db"
    using assms(1) ok_ingest[of db es] settled_frame[of ?db db] by (simp add: settled_ok_def)
  have links: "links_ok ?db" using assms(2) by (simp add: links_ok_def get_command_by_id_def)
  show ?thesis
    using ok
  proof (cases rule: run_live_cases[where env = env and e = e])
    case (failed pid st x db')
    then show ?thesis using links_records[OF failed(2) links] by (simp add: live_step_def q)
  next
    case (success a rp db4 db')
    have "settled_ok db4" "links_ok db4" using settled_ok_records[OF success(2) ok] links_records[OF success(2) links] .
    then have "links_ok db'"
      using success(3) by (auto simp: run_stages_5_to_8_def split: option.splits pipeline_role.splits dest: links_trigger links_terminal)
    with success(1) show ?thesis by (simp add: live_step_def q)
  qed
qed

lemma live_runs_links: "settled_ok (live_runs steps db) \<and> links_ok (live_runs steps db)"
proof -
  have "settled_ok d \<Longrightarrow> links_ok d \<Longrightarrow> links_ok (fold live_step steps d)" for d :: "'a attribution_db_scheme"
    by (induction steps arbitrary: d) (simp_all add: live_step_ok links_step)
  moreover have "settled_ok (live_runs [] db)" by (rule live_runs_ok)
  moreover have "links_ok (live_runs [] db)" by (simp add: live_runs_def links_ok_def)
  ultimately show ?thesis using live_runs_ok[of steps db] by (simp add: live_runs_def)
qed

lemma sort_key_map: "sort_key k (map f xs) = map f (sort_key (\<lambda>x. k (f x)) xs)"
proof -
  have "insort_key k (f x) (map f ys) = map f (insort_key (\<lambda>x. k (f x)) x ys)" for x ys by (induction ys) simp_all
  then show ?thesis by (induction xs) simp_all
qed

section \<open>One row per decision\<close>

lemma left_join_functional:
  assumes "\<And>x. x \<in> set xs \<Longrightarrow> filter (on x) ys = (case g x of None \<Rightarrow> [] | Some y \<Rightarrow> [y])"
  shows "left_join on xs ys = map (\<lambda>x. (x, g x)) xs"
proof -
  have "map (\<lambda>x. case filter (on x) ys of [] \<Rightarrow> [(x, None)] | ms \<Rightarrow> map (\<lambda>y. (x, Some y)) ms) xs = map (\<lambda>x. [(x, g x)]) xs"
    using assms by (intro map_cong) (auto split: option.splits)
  then show ?thesis unfolding left_join_def by (simp only: concat_map_singleton)
qed

text \<open>What the timeline looks up for a decision: its command, and the latest rows of that command.\<close>

definition command_of :: "('a execution_db_scheme) \<Rightarrow> uuid \<Rightarrow> intervention_command option" where
  "command_of db d = find (\<lambda>c. cm_decision_id c = d) (db_commands db)"

definition latest_of :: "('r \<Rightarrow> uuid) \<Rightarrow> ('r \<Rightarrow> int) \<Rightarrow> 'r list \<Rightarrow> intervention_command option \<Rightarrow> 'r option" where
  "latest_of command version rows c =
     Option.bind c (\<lambda>c. latest_by version (filter (\<lambda>r. command r = cm_command_id c) rows))"

definition ledger_row_of :: "('a attribution_db_scheme) \<Rightarrow> intervention_decision \<Rightarrow> ledger_row" where
  "ledger_row_of db d =
     (let c = command_of db (de_decision_id d)
      in new_ledger_row db
          ((((d, c), latest_of ob_command_id ob_version (db_observations db) c),
            latest_of aa_command_id aa_version (db_attributions db) c),
           latest_of xa_command_id xa_attempt_number (db_exec_attempts db) c))"

lemma latest_observations_of:
  assumes "settled_ok db" "links_ok db"
  shows "filter (\<lambda>q. ob_command_id q = i \<and> ob_observation_id q \<in> set (latest_observation_ids db)) (db_observations db) =
    (case latest_by ob_version (filter (\<lambda>q. ob_command_id q = i) (db_observations db)) of None \<Rightarrow> [] | Some q \<Rightarrow> [q])"
  unfolding latest_observation_ids_def
proof (rule latest_ids_select)
  fix a b assume ab: "a \<in> set (db_observations db)" "b \<in> set (db_observations db)" "ob_observation_id a = ob_observation_id b"
  from ab(1,2) assms(2) have "ob_observation_id a = make_observation_id (ob_command_id a) (ob_version a)"
    "ob_observation_id b = make_observation_id (ob_command_id b) (ob_version b)" by (auto simp: links_ok_def)
  with ab(3) show "ob_command_id a = ob_command_id b \<and> ob_version a = ob_version b"
    by (auto simp: make_observation_id_def versioned_name_inject chars_def)
next
  from assms(1) have "observation_log.versions_of db i = map int [1..<Suc (length (observation_log.versions_of db i))]"
    unfolding settled_ok_def pipeline_ok_def observation_log.contiguous_def by blast
  then show "map ob_version (filter (\<lambda>q. ob_command_id q = i) (db_observations db)) =
      map int [1..<Suc (length (filter (\<lambda>q. ob_command_id q = i) (db_observations db)))]"
    by (simp add: observation_log.versions_of_def)
qed


lemma latest_attempts_of:
  assumes "settled_ok db"
  shows "filter (\<lambda>x. xa_command_id x = i \<and> xa_attempt_id x \<in> set (latest_attempt_ids db)) (db_exec_attempts db) =
    (case latest_by xa_attempt_number (filter (\<lambda>x. xa_command_id x = i) (db_exec_attempts db)) of None \<Rightarrow> [] | Some x \<Rightarrow> [x])"
proof -
  have few: "length (filter (\<lambda>x. xa_command_id x = j) (db_exec_attempts db)) \<le> 1" for j
    using assms by (auto simp: settled_ok_def commands_settled_def command_state_def settled_states_def command_count_def
        dest: spec[of _ j])
  have one: "filter (\<lambda>q. xa_command_id q = xa_command_id x) (db_exec_attempts db) = [x]" if "x \<in> set (db_exec_attempts db)" for x
  proof -
    have "x \<in> set (filter (\<lambda>q. xa_command_id q = xa_command_id x) (db_exec_attempts db))" using that by simp
    with few[of "xa_command_id x"] show ?thesis
      by (cases "filter (\<lambda>q. xa_command_id q = xa_command_id x) (db_exec_attempts db)") auto
  qed
  have "xa_attempt_id x \<in> set (latest_attempt_ids db)" if "x \<in> set (db_exec_attempts db)" for x
    using that one[OF that] by (auto simp: latest_attempt_ids_def latest_ids_def max_default_def)
  then have "filter (\<lambda>x. xa_command_id x = i \<and> xa_attempt_id x \<in> set (latest_attempt_ids db)) (db_exec_attempts db) =
      filter (\<lambda>x. xa_command_id x = i) (db_exec_attempts db)" by (intro filter_cong) auto
  with few[of i] show ?thesis
    by (cases "filter (\<lambda>x. xa_command_id x = i) (db_exec_attempts db)") (auto simp: latest_by_def)
qed

lemma attributions_of_decision:
  assumes "settled_ok db" "links_ok db"
  shows "filter (\<lambda>a. aa_decision_id a = d \<and> aa_attribution_id a \<in> set (latest_attribution_ids db)) (db_attributions db) =
    (case latest_of aa_command_id aa_version (db_attributions db) (command_of db d) of None \<Rightarrow> [] | Some a \<Rightarrow> [a])"
proof -
  from assms(1) have ids: "distinct (map cm_command_id (db_commands db))" by (rule settled_ids)
  from assms(2) have ds: "distinct (map cm_decision_id (db_commands db))" by (simp add: links_ok_def)
  have link: "\<exists>c\<in>set (db_commands db). cm_command_id c = aa_command_id a \<and> cm_decision_id c = aa_decision_id a"
    if "a \<in> set (db_attributions db)" for a
    using that assms(2) by (auto simp: links_ok_def get_command_by_id_def dest!: find_SomeD)
  show ?thesis
  proof (cases "command_of db d")
    case None
    then have "aa_decision_id a \<noteq> d" if "a \<in> set (db_attributions db)" for a
      using link[OF that] by (auto simp: command_of_def find_None_iff)
    with None show ?thesis by (auto simp: latest_of_def filter_empty_conv)
  next
    case (Some c)
    then have c: "c \<in> set (db_commands db)" "cm_decision_id c = d" by (auto simp: command_of_def dest: find_SomeD)
    have "aa_decision_id a = d \<longleftrightarrow> aa_command_id a = cm_command_id c" if "a \<in> set (db_attributions db)" for a
    proof -
      from link[OF that] obtain c' where c': "c' \<in> set (db_commands db)" "cm_command_id c' = aa_command_id a"
        "cm_decision_id c' = aa_decision_id a" by blast
      have "cm_command_id c' = cm_command_id c \<Longrightarrow> c' = c" "cm_decision_id c' = cm_decision_id c \<Longrightarrow> c' = c"
        using ids ds c(1) c'(1) by (auto simp: distinct_map dest: inj_onD)
      with c(2) c'(2,3) show ?thesis by metis
    qed
    then have "filter (\<lambda>a. aa_decision_id a = d \<and> aa_attribution_id a \<in> set (latest_attribution_ids db)) (db_attributions db) =
        filter (\<lambda>a. aa_command_id a = cm_command_id c \<and> aa_attribution_id a \<in> set (latest_attribution_ids db)) (db_attributions db)"
      by (intro filter_cong) auto
    with Some assms(1) show ?thesis
      by (simp add: latest_attributions_of settled_ok_def pipeline_ok_def latest_of_def latest_attribution_def)
  qed
qed

lemma optional_key:
  assumes "\<And>i. filter (\<lambda>y. key y = i \<and> P y) ys = (case f i of None \<Rightarrow> [] | Some y \<Rightarrow> [y])"
  shows "filter (\<lambda>y. map_option k c = Some (key y) \<and> P y) ys = (case Option.bind c (\<lambda>c. f (k c)) of None \<Rightarrow> [] | Some y \<Rightarrow> [y])"
proof (cases c)
  case (Some x)
  have "filter (\<lambda>y. k x = key y \<and> P y) ys = filter (\<lambda>y. key y = k x \<and> P y) ys" by (intro filter_cong) auto
  with Some assms[of "k x"] show ?thesis by simp
qed simp

text \<open>The four outer joins find exactly what the per-decision lookups find.\<close>

lemma ledger_rows_of:
  assumes "settled_ok db" "links_ok db"
  shows "ledger_rows decision_type db = map (ledger_row_of db) (descending de_decided_at (ledger_decisions decision_type db))"
proof -
  let ?ds = "ledger_decisions decision_type db"
  let ?c = "\<lambda>d. command_of db (de_decision_id d)"
  let ?q = "\<lambda>c. latest_of ob_command_id ob_version (db_observations db) c"
  let ?a = "\<lambda>c. latest_of aa_command_id aa_version (db_attributions db) c"
  let ?x = "\<lambda>c. latest_of xa_command_id xa_attempt_number (db_exec_attempts db) c"
  from assms(2) have ds: "distinct (map cm_decision_id (db_commands db))" by (simp add: links_ok_def)
  have commands: "left_join (\<lambda>d c. cm_decision_id c = de_decision_id d) ?ds (db_commands db) = map (\<lambda>d. (d, ?c d)) ?ds"
    by (intro left_join_functional) (simp add: filter_unique_key[OF ds] command_of_def)
  have observations: "left_join (\<lambda>(d, c) q. map_option cm_command_id c = Some (ob_command_id q) \<and>
      ob_observation_id q \<in> set (latest_observation_ids db)) (map (\<lambda>d. (d, ?c d)) ?ds) (db_observations db) =
      map (\<lambda>d. ((d, ?c d), ?q (?c d))) ?ds"
    by (subst left_join_functional[where g = "\<lambda>(d, c). ?q c"])
      (auto simp: latest_of_def simp del: map_option_eq_Some intro!: optional_key latest_observations_of assms)
  have attributions: "left_join (\<lambda>((d, c), q) a. aa_decision_id a = de_decision_id d \<and>
      aa_attribution_id a \<in> set (latest_attribution_ids db)) (map (\<lambda>d. ((d, ?c d), ?q (?c d))) ?ds) (db_attributions db) =
      map (\<lambda>d. (((d, ?c d), ?q (?c d)), ?a (?c d))) ?ds"
    by (subst left_join_functional[where g = "\<lambda>((d, c), q). ?a c"]) (auto simp: attributions_of_decision[OF assms])
  have attempts: "left_join (\<lambda>(((d, c), q), a) x. map_option cm_command_id c = Some (xa_command_id x) \<and>
      xa_attempt_id x \<in> set (latest_attempt_ids db)) (map (\<lambda>d. (((d, ?c d), ?q (?c d)), ?a (?c d))) ?ds) (db_exec_attempts db) =
      map (\<lambda>d. ((((d, ?c d), ?q (?c d)), ?a (?c d)), ?x (?c d))) ?ds"
    by (subst left_join_functional[where g = "\<lambda>(((d, c), q), a). ?x c"])
      (auto simp: latest_of_def simp del: map_option_eq_Some intro!: optional_key latest_attempts_of assms)
  have "ledger_rows decision_type db = descending (\<lambda>r. de_decided_at (le_decision r)) (map (ledger_row_of db) ?ds)"
    unfolding ledger_rows_def Let_def commands observations attributions attempts
    by (simp add: ledger_row_of_def[abs_def] Let_def comp_def)
  also have "\<dots> = map (ledger_row_of db) (descending de_decided_at ?ds)"
    by (simp add: descending_def sort_key_map ledger_row_of_def new_ledger_row_def Let_def)
  finally show ?thesis .
qed


text \<open>C29: The recovery ledger has one row per decision. In every database that any sequence of ingested events and
  pipeline runs produces, the four outer joins and the latest-version filters of the ledger query return, for
  each decision once and newest first, the row of its own command with that command's latest observation,
  latest attribution and attempt: a command observed, attributed or executed again stays one row, and no row
  is lost to the joins.\<close>

theorem recovery_ledger_one_row_per_decision:
  "let db = live_runs steps db0; rows = ledger_rows decision_type db
   in rows = map (ledger_row_of db) (descending de_decided_at (ledger_decisions decision_type db)) \<and>
      length rows = length (ledger_decisions decision_type db)"
  using live_runs_links[of steps db0] ledger_rows_of[of "live_runs steps db0" decision_type]
  by (simp add: Let_def descending_def)

text \<open>C28: The protected money shown per currency is exactly the money of the latest attributions. In every database that
  any sequence of ingested events and pipeline runs produces, the groups of the summary carry different
  currencies, their amounts are non-negative and add up to the sum over all commands of the amount their
  latest attribution protects (superseded versions are not counted), and the legacy scalar total is that sum
  when there is at most one group and absent otherwise.\<close>

theorem protected_gmv_exact:
  "let db = live_runs steps db0; groups = protected_gmv_by_currency db (db_attributions db);
       total = sum_list (map (protected_of db) (map cm_command_id (db_commands db)))
   in distinct (map cg_currency groups) \<and> list_all (\<lambda>g. 0 \<le> cg_amount g) groups \<and>
      sum_list (map cg_amount groups) = total \<and>
      single_currency_amount (map cg_amount groups) = (if length groups \<le> 1 then Some total else None)"
proof -
  define db where "db = live_runs steps db0"
  have ok: "settled_ok db" using live_runs_ok[of steps db0] by (simp add: db_def)
  let ?latest = "filter (\<lambda>a. aa_attribution_id a \<in> set (latest_attribution_ids db)) (db_attributions db)"
  let ?currency = "\<lambda>a. payment_currency db (aa_payment_attempt_id a)"
  let ?keys = "sort_key currency_order (remdups (map ?currency ?latest))"
  define groups where "groups = protected_gmv_by_currency db (db_attributions db)"
  have amounts: "map cg_amount groups = map (\<lambda>c. sum_list (map aa_protected (filter (\<lambda>a. ?currency a = c) ?latest))) ?keys"
    and keys: "map cg_currency groups = ?keys"
    by (simp_all add: groups_def protected_gmv_by_currency_def Let_def comp_def)
  have "sum_list (map cg_amount groups) = sum_list (map aa_protected ?latest)"
    unfolding amounts by (rule sum_over_keys) auto
  then have total: "sum_list (map cg_amount groups) = sum_list (map (protected_of db) (map cm_command_id (db_commands db)))"
    using protected_total[OF ok] by simp
  have pos: "0 \<le> aa_protected a" if "a \<in> set (db_attributions db)" for a
    using ok that by (auto simp: settled_ok_def pipeline_ok_def attributions_ok_def list_all_iff attribution_row_ok_def)
  have "\<forall>x\<in>set (map cg_amount groups). 0 \<le> x" unfolding amounts by (auto intro!: sum_list_nonneg pos)
  then have "list_all (\<lambda>g. 0 \<le> cg_amount g) groups" by (auto simp: list_all_iff)
  moreover have "distinct (map cg_currency groups)" unfolding keys by simp
  moreover have "single_currency_amount (map cg_amount groups) = (if length groups \<le> 1 then Some (sum_list (map cg_amount groups)) else None)"
    by (auto simp: single_currency_amount_def split: list.split)
  ultimately show ?thesis using total by (simp add: db_def groups_def Let_def)
qed

section \<open>One row per payment\<close>

definition first_event :: "('a event_db_scheme) \<Rightarrow> string \<Rightarrow> payment_event" where
  "first_event db p = hd (sort_key ev_timestamp (filter (\<lambda>e. ev_payment_id e = p) (filter event_visible (db_events db))))"

lemma sort_key_hd:
  assumes "x \<in> set xs"
  shows "hd (sort_key k xs) \<in> set xs \<and> k (hd (sort_key k xs)) \<le> (k x :: 'k::linorder)"
proof -
  obtain y ys where y: "sort_key k xs = y # ys" using assms by (cases "sort_key k xs") (auto dest: arg_cong[of _ _ set])
  have "sorted (map k (y # ys))" unfolding y[symmetric] by simp
  moreover have "set (y # ys) = set xs" unfolding y[symmetric] by simp
  ultimately show ?thesis using assms unfolding y by auto
qed

lemma first_event:
  assumes "e \<in> set (db_events db)" "event_visible e"
  shows "first_event db (ev_payment_id e) \<in> set (db_events db)" "event_visible (first_event db (ev_payment_id e))"
    "ev_payment_id (first_event db (ev_payment_id e)) = ev_payment_id e"
    "ev_timestamp (first_event db (ev_payment_id e)) \<le> ev_timestamp e"
  using sort_key_hd[of e "filter (\<lambda>q. ev_payment_id q = ev_payment_id e) (filter event_visible (db_events db))" ev_timestamp] assms
  by (simp_all add: first_event_def)

definition canonical_events :: "('a event_db_scheme) \<Rightarrow> payment_event list" where
  "canonical_events db = filter (\<lambda>e. ev_event_id e \<in> set (canonical_event_ids db)) (db_events db)"

lemma canonical_events_iff:
  assumes "distinct (map ev_event_id (db_events db))"
  shows "e \<in> set (canonical_events db) \<longleftrightarrow> e \<in> set (db_events db) \<and> event_visible e \<and> e = first_event db (ev_payment_id e)"
proof
  assume e: "e \<in> set (canonical_events db)"
  then obtain q where q: "q \<in> set (db_events db)" "event_visible q" "ev_event_id e = ev_event_id (first_event db (ev_payment_id q))"
    by (auto simp: canonical_events_def canonical_event_ids_def first_event_def Let_def)
  note f = first_event[OF q(1,2)]
  from e have "e \<in> set (db_events db)" by (simp add: canonical_events_def)
  with q(3) f(1) assms have "e = first_event db (ev_payment_id q)" by (auto simp: distinct_map dest: inj_onD)
  with f \<open>e \<in> set (db_events db)\<close> show "e \<in> set (db_events db) \<and> event_visible e \<and> e = first_event db (ev_payment_id e)" by simp
next
  assume "e \<in> set (db_events db) \<and> event_visible e \<and> e = first_event db (ev_payment_id e)"
  then show "e \<in> set (canonical_events db)"
    by (auto simp: canonical_events_def canonical_event_ids_def first_event_def Let_def intro!: image_eqI[of _ _ "ev_payment_id e"])
qed

lemma canonical_events_distinct:
  assumes "distinct (map ev_event_id (db_events db))"
  shows "distinct (map ev_payment_id (canonical_events db))"
proof -
  have "inj_on ev_payment_id (set (canonical_events db))"
    by (rule inj_onI) (metis canonical_events_iff[OF assms])
  moreover have "distinct (canonical_events db)" using assms by (simp add: canonical_events_def distinct_map)
  ultimately show ?thesis by (simp add: distinct_map)
qed

lemma canonical_events_payments:
  assumes "distinct (map ev_event_id (db_events db))"
  shows "set (map ev_payment_id (canonical_events db)) = set (map ev_payment_id (filter event_visible (db_events db)))"
proof -
  have "ev_payment_id e \<in> set (map ev_payment_id (canonical_events db))" if e: "e \<in> set (db_events db)" "event_visible e" for e
  proof -
    note f = first_event[OF e]
    then have "first_event db (ev_payment_id e) \<in> set (canonical_events db)" by (simp add: canonical_events_iff[OF assms])
    from imageI[OF this, of ev_payment_id] f(3) show ?thesis by simp
  qed
  then show ?thesis by (auto simp: canonical_events_iff[OF assms])
qed

definition latest_decision_of :: "('a decision_db_scheme) \<Rightarrow> string \<Rightarrow> intervention_decision option" where
  "latest_decision_of db p = latest_by de_version (filter (\<lambda>d. de_payment_attempt_id d = p) (db_decisions db))"

lemma latest_decisions_of:
  assumes "settled_ok db"
  shows "filter (\<lambda>d. de_payment_attempt_id d = p \<and> de_decision_id d \<in> set (latest_decision_ids db)) (db_decisions db) =
    (case latest_decision_of db p of None \<Rightarrow> [] | Some d \<Rightarrow> [d])"
  unfolding latest_decision_ids_def latest_decision_of_def
proof (rule latest_ids_select)
  from assms have ok: "decision_log.consistent db" by (simp add: settled_ok_def pipeline_ok_def)
  fix a b assume "a \<in> set (db_decisions db)" "b \<in> set (db_decisions db)" "de_decision_id a = de_decision_id b"
  with ok show "de_payment_attempt_id a = de_payment_attempt_id b \<and> de_version a = de_version b"
    by (auto simp: decision_log.consistent_def list_all_iff decision_log.make_id_inject)
next
  from assms have "decision_log.versions_of db p = map int [1..<Suc (length (decision_log.versions_of db p))]"
    unfolding settled_ok_def pipeline_ok_def decision_log.consistent_def decision_log.contiguous_def by blast
  then show "map de_version (filter (\<lambda>d. de_payment_attempt_id d = p) (db_decisions db)) =
      map int [1..<Suc (length (filter (\<lambda>d. de_payment_attempt_id d = p) (db_decisions db)))]"
    by (simp add: decision_log.versions_of_def)
qed

definition payment_row_of :: "('a attribution_db_scheme) \<Rightarrow> payment_event \<Rightarrow> payment_row" where
  "payment_row_of db e =
     (let d = latest_decision_of db (ev_payment_id e)
      in ((e, d), latest_of aa_command_id aa_version (db_attributions db)
                    (Option.bind d (\<lambda>d. command_of db (de_decision_id d)))))"

lemma payment_rows_of:
  assumes "settled_ok db" "links_ok db"
  shows "payment_rows db = map (payment_row_of db) (canonical_events db)"
proof -
  let ?d = "\<lambda>e. latest_decision_of db (ev_payment_id e)"
  have decided: "left_join (\<lambda>e d. de_payment_attempt_id d = ev_payment_id e \<and> de_decision_id d \<in> set (latest_decision_ids db))
      (canonical_events db) (db_decisions db) = map (\<lambda>e. (e, ?d e)) (canonical_events db)"
    by (intro left_join_functional) (simp add: latest_decisions_of[OF assms(1)])
  have attributed: "left_join (\<lambda>(e, d) a. map_option de_decision_id d = Some (aa_decision_id a) \<and>
      aa_attribution_id a \<in> set (latest_attribution_ids db)) (map (\<lambda>e. (e, ?d e)) (canonical_events db)) (db_attributions db) =
      map (\<lambda>e. ((e, ?d e), Option.bind (?d e) (\<lambda>d. latest_of aa_command_id aa_version (db_attributions db)
        (command_of db (de_decision_id d))))) (canonical_events db)"
    by (subst left_join_functional[where g = "\<lambda>(e, d). Option.bind d (\<lambda>d. latest_of aa_command_id aa_version
        (db_attributions db) (command_of db (de_decision_id d)))"])
      (auto simp del: map_option_eq_Some intro!: optional_key attributions_of_decision assms)
  show ?thesis
    unfolding payment_rows_def Let_def canonical_events_def[symmetric] decided attributed
    by (auto simp: payment_row_of_def Let_def latest_of_def split: option.split)
qed

text \<open>The payment list has one row per payment. When the stored event ids are distinct (the primary key), in every
  database that any sequence of ingested events and pipeline runs produces, the rows of the payment query
  belong to pairwise different payments, they are all the payments with a visible event, each row shows an
  event of its payment that is not later than any other, with the payment's latest decision and the latest
  attribution of that decision's command.\<close>

lemma payments_one_row_per_payment:
  assumes "distinct (map ev_event_id (db_events (live_runs steps db0)))"
  shows "let db = live_runs steps db0; rows = payment_rows db; shown = map (\<lambda>((e, d), a). e) rows;
             visible = filter event_visible (db_events db)
    in distinct (map ev_payment_id shown) \<and> set (map ev_payment_id shown) = set (map ev_payment_id visible) \<and>
       list_all (\<lambda>e. list_all (\<lambda>q. ev_timestamp e \<le> ev_timestamp q)
         (filter (\<lambda>q. ev_payment_id q = ev_payment_id e) visible)) shown \<and>
       rows = map (payment_row_of db) shown"
proof -
  define db where "db = live_runs steps db0"
  have d: "distinct (map ev_event_id (db_events db))" using assms by (simp add: db_def)
  have rows: "payment_rows db = map (payment_row_of db) (canonical_events db)"
    using live_runs_links[of steps db0] by (intro payment_rows_of) (simp_all add: db_def)
  have shown: "map (\<lambda>((e, d), a). e) (payment_rows db) = canonical_events db"
    unfolding rows by (simp add: comp_def payment_row_of_def Let_def)
  have "ev_timestamp e \<le> ev_timestamp q" if "e \<in> set (canonical_events db)" "q \<in> set (db_events db)" "event_visible q"
    "ev_payment_id q = ev_payment_id e" for e q
    using first_event(4)[OF that(2,3)] that(1,4) by (metis canonical_events_iff[OF d])
  then have "list_all (\<lambda>e. list_all (\<lambda>q. ev_timestamp e \<le> ev_timestamp q)
      (filter (\<lambda>q. ev_payment_id q = ev_payment_id e) (filter event_visible (db_events db)))) (canonical_events db)"
    by (auto simp: list_all_iff)
  with canonical_events_distinct[OF d] canonical_events_payments[OF d] rows show ?thesis
    unfolding Let_def db_def[symmetric] shown by simp
qed

definition example_payments_db :: attribution_db where
  "example_payments_db =
     \<lparr>db_raw = [],
      db_events = [example_event ''payment.captured'' ''pay_1'' 90, example_event ''payment.authorized'' ''pay_1'' 10,
                   example_event ''payment.authorized'' ''pay_2'' 50],
      db_snapshots = [], db_signals = [], db_episodes = [], db_history = [], db_evaluations = [], db_candidates = [],
      db_attempts = [], db_predictions = [], db_decisions = [], db_commands = [], db_exec_attempts = [],
      db_observations = [], db_attributions = []\<rparr>"

text \<open>Two payments, the first with two events: the list shows the earlier one.\<close>

lemma example_payments:
  "distinct (map ev_event_id (db_events (live_runs [] example_payments_db)))"
  "map (\<lambda>((e, d), a). (ev_payment_id e, ev_timestamp e)) (payment_rows (live_runs [] example_payments_db)) =
     [(''pay_1'', 10), (''pay_2'', 50)]"
  by code_simp+

lemma payments_one_row_per_payment_witness:
  "let db = live_runs [] example_payments_db; shown = map (\<lambda>((e, d), a). e) (payment_rows db)
   in map ev_payment_id shown = [''pay_1'', ''pay_2''] \<and> distinct (map ev_payment_id shown)"
  using payments_one_row_per_payment[OF example_payments(1)] arg_cong[OF example_payments(2), of "map fst"]
  by (simp add: Let_def case_prod_beta comp_def)

text \<open>
  A payment that failed and was captured later is listed by the greater of the two words, not by the last event,
  which is what its timeline shows.
\<close>

lemma payments_list_status_by_name:
  "let failed = (example_event ''payment.failed'' ''pay_1'' 50)\<lparr>ev_payment_status := ''failed''\<rparr>;
       captured = (example_event ''payment.captured'' ''pay_1'' 90)\<lparr>ev_payment_status := ''captured''\<rparr>;
       db = example_payments_db\<lparr>db_events := [failed, captured]\<rparr>
   in map_sum (\<lambda>r. r) pv_items (get_payments_list 50 0 None None None db) =
        Inr [new_payment_item db ((failed, None), None)] \<and>
      pi_status (new_payment_item db ((failed, None), None)) = ''failed'' \<and>
      map_sum (\<lambda>r. r) tl_terminal_status (get_payment_timeline ''pay_1'' db) = Inr ''captured''"
  by code_simp

section \<open>The list and the trace agree\<close>

lemma latest_of_optional:
  "latest_by version (filter (\<lambda>r. map_option cm_command_id c = Some (key r)) rows) = latest_of key version rows c"
  by (cases c) (simp_all add: latest_of_def eq_commute[of _ "key _"])

definition trace_agrees :: "('a attribution_db_scheme) \<Rightarrow> payment_row \<Rightarrow> bool" where
  "trace_agrees db = (\<lambda>((e, d), a).
     case get_payment_timeline (ev_payment_id e) db of
       Inl x \<Rightarrow> False
     | Inr t \<Rightarrow> tl_payment_id t = ev_payment_id e \<and> tl_first t = e \<and> tl_decision t = d \<and> tl_attribution t = a)"

definition unpadded :: "payment_row \<Rightarrow> bool" where
  "unpadded = (\<lambda>((e, d), a). strip (ev_payment_id e) = ev_payment_id e)"


lemma example_unpadded: "length (filter unpadded (payment_rows (live_runs [] example_payments_db))) = 2"
proof -
  have "strip ''pay_1'' = ''pay_1''" "strip ''pay_2'' = ''pay_2''" by code_simp+
  then have "length (filter (\<lambda>(p, t). strip p = p) [(''pay_1'', 10 :: datetime), (''pay_2'', 50)]) = 2" by simp
  then show ?thesis
    unfolding example_payments(2)[symmetric] by (simp add: filter_map comp_def unpadded_def case_prod_unfold)
qed


end
