(* ===== verification/Training.thy ===== *)
theory Training
  imports Prediction PaypalClient
begin

text \<open>
  The Stage 5 training and validation pipeline (\<open>core/ml/training.py\<close>): extraction of a labelled dataset,
  the contamination guard and the single-snapshot rule of provider evaluation, the encoding of the features,
  the chronological split and the construction of the trained model.

  A database session shared with other tasks is the record \<open>session_env\<close>: which transaction is active, and
  which database a query reads, at each instant; an operation takes the instant it starts at and every check
  and every query happens at an instant of its own, so anything may happen between two of them. The queries
  of one feature reconstruction read at one instant. scikit-learn is the record \<open>sklearn\<close>, \<open>hexdigest\<close> prints
  a digest, \<open>float_str\<close> is \<open>float\<close> on text.
\<close>

section \<open>Generated events\<close>

definition LEGACY_LIVE_CONTEXT_PAYMENT_PREFIX :: string where
  "LEGACY_LIVE_CONTEXT_PAYMENT_PREFIX = ''pay_live_ctx_''"

definition is_hex_digit :: "char \<Rightarrow> bool" where
  "is_hex_digit c \<longleftrightarrow> c \<in> set ''0123456789abcdef''"

definition is_legacy_live_context_event :: "string option \<Rightarrow> string option \<Rightarrow> string option \<Rightarrow> bool" where
  "is_legacy_live_context_event payment_id order_id source_event_id =
     (let p = (case payment_id of None \<Rightarrow> [] | Some s \<Rightarrow> s);
          token = drop (length LEGACY_LIVE_CONTEXT_PAYMENT_PREFIX) p
      in if \<not> (prefix LEGACY_LIVE_CONTEXT_PAYMENT_PREFIX p \<and> length token = 12 \<and> list_all is_hex_digit token) then False
         else order_id = Some (''order_live_ctx_'' @ token) \<and>
              source_event_id \<in> {Some (''evt_live_auth_'' @ token), Some (''evt_live_term_'' @ token)})"

definition legacy_event :: "payment_event \<Rightarrow> bool" where
  "legacy_event e = is_legacy_live_context_event (Some (ev_payment_id e)) (ev_order_id e) (Some (ev_source_event_id e))"

datatype training_population = SYNTHETIC_DEVELOPMENT_DATA | PROVIDER_EVALUATION

definition population_value :: "training_population \<Rightarrow> string" where
  "population_value p = (case p of SYNTHETIC_DEVELOPMENT_DATA \<Rightarrow> ''SYNTHETIC_DEVELOPMENT'' | PROVIDER_EVALUATION \<Rightarrow> ''PROVIDER_EVALUATION'')"

definition LABEL_HORIZON :: int where "LABEL_HORIZON = minutes 30"
definition CONTAMINATION_LOOKBACK :: int where "CONTAMINATION_LOOKBACK = weeks HISTORICAL_WEEKS_BACK + minutes (24 * 60)"

section \<open>Datasets\<close>

record dataset =
  ds_X :: "json list"
  ds_y :: "int list"
  ds_times :: "datetime list"

definition compute_dataset_fingerprint :: "dataset \<Rightarrow> (exn, digest) result" where
  "compute_dataset_fingerprint ds =
     (if \<not> (length (ds_X ds) = length (ds_y ds) \<and> length (ds_y ds) = length (ds_times ds)) then Inl ValueError
      else Inr (sha256_json (JArr (map (\<lambda>(row, label, t).
             JObj [(''features'', row), (''label'', JInt label), (''time'', JTime t)])
             (zip (ds_X ds) (zip (ds_y ds) (ds_times ds)))))))"

section \<open>The session\<close>

record 'db session_env =
  se_transaction :: "nat \<Rightarrow> nat option"
  se_view :: "nat \<Rightarrow> 'db"
  se_level :: "nat option \<Rightarrow> string"

record validator =
  vd_population :: training_population
  vd_checked :: "((datetime \<times> datetime) \<times> digest) option"

definition new_validator :: "training_population \<Rightarrow> validator" where
  "new_validator population = \<lparr>vd_population = population, vd_checked = None\<rparr>"

definition SNAPSHOT_ISOLATION_LEVELS :: "string list" where
  "SNAPSHOT_ISOLATION_LEVELS = [''repeatable read'', ''serializable'']"

text \<open>\<open>_snapshot_is_current\<close> and \<open>_require_provider_snapshot\<close>; \<open>snapshot\<close> is \<open>_snapshot_transaction\<close>.\<close>

definition snapshot_is_current :: "'db session_env \<Rightarrow> nat option \<Rightarrow> nat \<Rightarrow> bool" where
  "snapshot_is_current env snapshot k \<longleftrightarrow> snapshot \<noteq> None \<and> se_transaction env k = snapshot"

definition require_provider_snapshot ::
  "'db session_env \<Rightarrow> training_population \<Rightarrow> nat option \<Rightarrow> nat \<Rightarrow> (exn, unit) result" where
  "require_provider_snapshot env population snapshot k =
     require_that (population = PROVIDER_EVALUATION \<longrightarrow> snapshot_is_current env snapshot k) EvaluationIsolationError"

definition begin_provider_snapshot :: "'db session_env \<Rightarrow> nat \<Rightarrow> (exn, nat option \<times> nat) result" where
  "begin_provider_snapshot env k =
     bind_result (require_that (se_transaction env k = None) EvaluationIsolationError) (\<lambda>_.
     bind_result (require_that (str_lower (strip (se_level env (se_transaction env (k + 2)))) \<in> set SNAPSHOT_ISOLATION_LEVELS)
       EvaluationIsolationError) (\<lambda>_.
     bind_result (require_that (se_transaction env (k + 3) \<noteq> None) EvaluationIsolationError) (\<lambda>_.
     Inr (se_transaction env (k + 3), k + 4))))"

section \<open>Queries\<close>

definition authorized_events :: "(uuid \<Rightarrow> string) \<Rightarrow> training_population \<Rightarrow> ('a event_db_scheme) \<Rightarrow> payment_event list" where
  "authorized_events uuid_str population db =
     (let rows = filter (\<lambda>e. ev_event_type e = ''payment.authorized'' \<and> event_visible e) (db_events db)
      in if population = PROVIDER_EVALUATION
         then filter (\<lambda>e. \<not> legacy_event e)
                (sort_key (\<lambda>e. (ev_ingested_at e, uuid_str (ev_event_id e)))
                  (filter (\<lambda>e. ev_source_system e = RAZORPAY_SOURCE_SYSTEM) rows))
         else sort_key ev_ingested_at rows)"

definition get_authorized_events ::
  "('a event_db_scheme) session_env \<Rightarrow> (uuid \<Rightarrow> string) \<Rightarrow> training_population \<Rightarrow> nat option \<Rightarrow> nat \<Rightarrow>
   (exn, payment_event list \<times> nat) result" where
  "get_authorized_events env uuid_str population snapshot k =
     bind_result (require_provider_snapshot env population snapshot k) (\<lambda>_.
     Inr (authorized_events uuid_str population (se_view env (k + 1)), k + 2))"

definition in_window :: "datetime \<times> datetime \<Rightarrow> payment_event \<Rightarrow> bool" where
  "in_window = (\<lambda>(a, b) e. a \<le> ev_timestamp e \<and> ev_timestamp e \<le> b \<or> a \<le> ev_ingested_at e \<and> ev_ingested_at e \<le> b)"

definition non_provider_count :: "datetime \<times> datetime \<Rightarrow> ('a event_db_scheme) \<Rightarrow> nat" where
  "non_provider_count window db =
     length (filter (\<lambda>e. in_window window e \<and> ev_source_system e \<notin> set (RAZORPAY_SOURCE_SYSTEM # NON_RAZORPAY_PIPELINE_SOURCES))
       (db_events db))"

definition legacy_count :: "datetime \<times> datetime \<Rightarrow> ('a event_db_scheme) \<Rightarrow> nat" where
  "legacy_count window db =
     length (filter legacy_event (filter (\<lambda>e. in_window window e \<and> ev_source_system e = RAZORPAY_SOURCE_SYSTEM \<and>
       prefix LEGACY_LIVE_CONTEXT_PAYMENT_PREFIX (ev_payment_id e)) (db_events db)))"

definition assert_evaluation_window_uncontaminated ::
  "('a event_db_scheme) session_env \<Rightarrow> training_population \<Rightarrow> nat option \<Rightarrow> datetime \<times> datetime \<Rightarrow> nat \<Rightarrow> (exn, nat) result" where
  "assert_evaluation_window_uncontaminated env population snapshot window k =
     bind_result (require_provider_snapshot env population snapshot k) (\<lambda>_.
     bind_result (require_that (non_provider_count window (se_view env (k + 1)) = 0 \<and> legacy_count window (se_view env (k + 2)) = 0)
       EvaluationDataContaminationError) (\<lambda>_. Inr (k + 3)))"

definition terminal_label ::
  "(uuid \<Rightarrow> string) \<Rightarrow> training_population \<Rightarrow> ('a event_db_scheme) \<Rightarrow> string \<Rightarrow> datetime \<Rightarrow> int" where
  "terminal_label uuid_str population db payment_id auth_ingested_at =
     (let rows = filter (\<lambda>e. ev_payment_id e = payment_id \<and> is_terminal e \<and> auth_ingested_at < ev_ingested_at e \<and>
                   ev_ingested_at e \<le> auth_ingested_at + minutes 30 \<and> event_visible e) (db_events db);
          ordered = (if population = PROVIDER_EVALUATION
                     then sort_key (\<lambda>e. (ev_ingested_at e, uuid_str (ev_event_id e)))
                            (filter (\<lambda>e. ev_source_system e = RAZORPAY_SOURCE_SYSTEM) rows)
                     else sort_key ev_ingested_at rows)
      in case ordered of [] \<Rightarrow> - 1 | e # _ \<Rightarrow> if ev_event_type e = ''payment.failed'' then 1 else 0)"

definition get_terminal_label ::
  "('a event_db_scheme) session_env \<Rightarrow> (uuid \<Rightarrow> string) \<Rightarrow> training_population \<Rightarrow> nat option \<Rightarrow> string \<Rightarrow> datetime \<Rightarrow> nat \<Rightarrow>
   (exn, int \<times> nat) result" where
  "get_terminal_label env uuid_str population snapshot payment_id auth_ingested_at k =
     bind_result (require_provider_snapshot env population snapshot k) (\<lambda>_.
     Inr (terminal_label uuid_str population (se_view env (k + 1)) payment_id auth_ingested_at, k + 2))"

section \<open>Extraction\<close>

definition add_sample :: "json \<Rightarrow> int \<Rightarrow> datetime \<Rightarrow> dataset \<Rightarrow> dataset" where
  "add_sample row label t ds = \<lparr>ds_X = ds_X ds @ [row], ds_y = ds_y ds @ [label], ds_times = ds_times ds @ [t]\<rparr>"

definition empty_dataset :: dataset where "empty_dataset = \<lparr>ds_X = [], ds_y = [], ds_times = []\<rparr>"

definition label_one ::
  "('a rca_db_scheme) session_env \<Rightarrow> (uuid \<Rightarrow> string) \<Rightarrow> training_population \<Rightarrow> nat option \<Rightarrow> payment_event \<Rightarrow>
   dataset \<times> nat \<Rightarrow> (exn, dataset \<times> nat) result" where
  "label_one env uuid_str population snapshot auth_evt = (\<lambda>(ds, k).
     let t = ev_ingested_at auth_evt; payment_id = ev_payment_id auth_evt in
     bind_result (get_terminal_label env uuid_str population snapshot payment_id t k) (\<lambda>(label, k).
     if label = - 1 then Inr (ds, k)
     else (case reconstruct_features uuid_str (se_view env k) payment_id t of
             None \<Rightarrow> Inr (ds, k + 1)
           | Some features \<Rightarrow> Inr (add_sample (snapshot_dict features) label t ds, k + 1))))"

definition label_and_reconstruct ::
  "('a rca_db_scheme) session_env \<Rightarrow> (uuid \<Rightarrow> string) \<Rightarrow> training_population \<Rightarrow> nat option \<Rightarrow> payment_event list \<Rightarrow> nat \<Rightarrow>
   (exn, dataset \<times> nat) result" where
  "label_and_reconstruct env uuid_str population snapshot auth_events k =
     fold_result (label_one env uuid_str population snapshot) auth_events (empty_dataset, k)"

text \<open>\<open>max(times)\<close> and \<open>min(times)\<close> of a list that is not empty\<close>

definition latest_time :: "datetime list \<Rightarrow> datetime" where
  "latest_time ts = fold max (tl ts) (hd ts)"

definition earliest_time :: "datetime list \<Rightarrow> datetime" where
  "earliest_time ts = fold min (tl ts) (hd ts)"

definition extraction_window :: "payment_event list \<Rightarrow> (datetime \<times> datetime) option" where
  "extraction_window auth_events =
     (let sample_times = map ev_ingested_at auth_events
      in if auth_events = [] then None
         else Some (earliest_time sample_times - CONTAMINATION_LOOKBACK, latest_time sample_times + LABEL_HORIZON))"

definition extract_provider_dataset ::
  "('a rca_db_scheme) session_env \<Rightarrow> (uuid \<Rightarrow> string) \<Rightarrow> nat \<Rightarrow> (exn, (datetime \<times> datetime) option \<times> dataset) result" where
  "extract_provider_dataset env uuid_str k =
     bind_result (begin_provider_snapshot env k) (\<lambda>(snapshot, k).
     bind_result (get_authorized_events env uuid_str PROVIDER_EVALUATION snapshot k) (\<lambda>(auth_events, k).
     let window = extraction_window auth_events in
     bind_result (case window of None \<Rightarrow> Inr k
                  | Some w \<Rightarrow> assert_evaluation_window_uncontaminated env PROVIDER_EVALUATION snapshot w k) (\<lambda>k.
     bind_result (label_and_reconstruct env uuid_str PROVIDER_EVALUATION snapshot auth_events k) (\<lambda>(ds, k).
     bind_result (require_that (snapshot_is_current env snapshot k) EvaluationIsolationError) (\<lambda>_.
     Inr (window, ds))))))"

definition extract_dataset ::
  "(uuid \<Rightarrow> string) \<Rightarrow> ('a rca_db_scheme) session_env \<Rightarrow> nat \<Rightarrow> validator \<Rightarrow> (exn, dataset) result \<times> validator" where
  "extract_dataset uuid_str env k v =
     (if vd_population v \<noteq> PROVIDER_EVALUATION then
        (bind_result (get_authorized_events env uuid_str (vd_population v) None k) (\<lambda>(auth_events, k).
         bind_result (label_and_reconstruct env uuid_str (vd_population v) None auth_events k) (\<lambda>(ds, k). Inr ds)), v)
      else
        let v = v\<lparr>vd_checked := None\<rparr> in
        (case extract_provider_dataset env uuid_str k of
           Inl e \<Rightarrow> (Inl e, v)
         | Inr (None, ds) \<Rightarrow> (Inr ds, v)
         | Inr (Some window, ds) \<Rightarrow>
             (case compute_dataset_fingerprint ds of
                Inl e \<Rightarrow> (Inl e, v)
              | Inr fingerprint \<Rightarrow> (Inr ds, v\<lparr>vd_checked := Some (window, fingerprint)\<rparr>))))"

section \<open>Encoding\<close>

definition numeric_features :: "string list" where
  "numeric_features =
     [''amount_minor_units'', ''hour_of_day'', ''day_of_week'', ''global_30m_failure_rate'', ''payment_method_30m_failure_rate'']"

definition categorical_features :: "string list" where
  "categorical_features = [''payment_method'', ''currency'', ''bank'', ''wallet'', ''degradation_severity'']"

text \<open>\<open>row.get(f)\<close>\<close>

definition row_get :: "json \<Rightarrow> string \<Rightarrow> json" where
  "row_get row f = (case json_get row f of None \<Rightarrow> JNull | Some x \<Rightarrow> x)"

definition add_code :: "json \<Rightarrow> (json \<times> int) list \<Rightarrow> (json \<times> int) list" where
  "add_code v codes = (if v \<in> fst ` set codes then codes else codes @ [(v, int (length codes))])"

definition build_encoders :: "json list \<Rightarrow> (string \<times> (json \<times> int) list) list" where
  "build_encoders X_raw = map (\<lambda>cat. (cat, fold (\<lambda>row. add_code (row_get row cat)) X_raw [])) categorical_features"

definition processed_cell ::
  "(string \<Rightarrow> pyfloat option) \<Rightarrow> (string \<times> (json \<times> int) list) list \<Rightarrow> json \<Rightarrow> string \<Rightarrow> (exn, pyfloat) result" where
  "processed_cell float_str encoders row f =
     (if f \<in> set categorical_features
      then Inr (of_int (case map_of (the (map_of encoders f)) (row_get row f) of None \<Rightarrow> 0 | Some k \<Rightarrow> k))
      else (case row_get row f of
              JNull \<Rightarrow> Inr 0
            | JBool b \<Rightarrow> Inr (if b then 1 else 0)
            | JInt i \<Rightarrow> Inr (float_of_int i)
            | JFloat x \<Rightarrow> Inr x
            | JStr s \<Rightarrow> (case float_str s of None \<Rightarrow> Inl ValueError | Some x \<Rightarrow> Inr x)
            | _ \<Rightarrow> Inl TypeError))"

definition feature_names :: "string list" where "feature_names = numeric_features @ categorical_features"

definition preprocess_features ::
  "(string \<Rightarrow> pyfloat option) \<Rightarrow> json list \<Rightarrow>
   (exn, pyfloat list list \<times> string list \<times> (string \<times> (json \<times> int) list) list) result" where
  "preprocess_features float_str X_raw =
     (let encoders = build_encoders X_raw in
      bind_result (fold_result (\<lambda>row rows.
          bind_result (fold_result (\<lambda>f cells. bind_result (processed_cell float_str encoders row f) (\<lambda>x. Inr (cells @ [x])))
            feature_names []) (\<lambda>cells. Inr (rows @ [cells]))) X_raw []) (\<lambda>rows.
      Inr (rows, feature_names, encoders)))"

section \<open>Training\<close>

text \<open>\<open>PredefinedCalibrationSplit.split\<close>\<close>

definition predefined_calibration_split :: "nat \<Rightarrow> (nat list \<times> nat list) list" where
  "predefined_calibration_split n = [([0..<n], [0..<n])]"

text \<open>
  scikit-learn: fitting and calibrating an estimator, the probabilities of a matrix and of one row, and the
  three scores (precision-recall area, ROC area, Brier), \<open>None\<close> when one of them raises \<open>ValueError\<close>.
\<close>

record 'm sklearn =
  sk_fit :: "pyfloat list list \<Rightarrow> int list \<Rightarrow> (exn, 'm) result"
  sk_calibrate :: "(nat \<Rightarrow> (nat list \<times> nat list) list) \<Rightarrow> 'm \<Rightarrow> pyfloat list list \<Rightarrow> int list \<Rightarrow> (exn, 'm) result"
  sk_probabilities :: "'m \<Rightarrow> pyfloat list list \<Rightarrow> (exn, pyfloat list) result"
  sk_probability :: "'m \<Rightarrow> pyfloat list \<Rightarrow> pyfloat"
  sk_scores :: "int list \<Rightarrow> pyfloat list \<Rightarrow> (pyfloat \<times> pyfloat \<times> pyfloat) option"

record training_metadata =
  tm_population :: string
  tm_sample_window :: "datetime \<times> datetime"
  tm_sample_count :: nat
  tm_metrics :: "pyfloat \<times> pyfloat \<times> pyfloat"
  tm_metrics_computed :: bool
  tm_contamination_window :: "datetime \<times> datetime"
  tm_lookback_seconds :: int
  tm_label_horizon_seconds :: int
  tm_fingerprint :: digest

definition require_checked_dataset :: "validator \<Rightarrow> dataset \<Rightarrow> (exn, (datetime \<times> datetime) \<times> digest) result" where
  "require_checked_dataset v ds =
     (case vd_checked v of
        None \<Rightarrow> Inl RuntimeError
      | Some (window, checked) \<Rightarrow>
          if ds_times ds = [] then Inl RuntimeError
          else bind_result (compute_dataset_fingerprint ds) (\<lambda>fingerprint.
                 if fingerprint \<noteq> checked then Inl RuntimeError else Inr (window, fingerprint)))"

definition train_end :: "nat \<Rightarrow> nat" where
  "train_end n = nat \<lfloor>f_mul (float_of_int (int n)) (fl (6 / 10))\<rfloor>"

definition val_end :: "nat \<Rightarrow> nat" where
  "val_end n = nat \<lfloor>f_mul (float_of_int (int n)) (fl (8 / 10))\<rfloor>"

definition split_at :: "nat \<Rightarrow> 'x list \<Rightarrow> 'x list \<times> 'x list \<times> 'x list" where
  "split_at n xs = (take (train_end n) xs, drop (train_end n) (take (val_end n) xs), drop (val_end n) xs)"

text \<open>The two assertions on the sample times\<close>

definition in_order :: "datetime list \<Rightarrow> datetime list \<Rightarrow> bool" where
  "in_order xs ys \<longleftrightarrow> (if xs \<noteq> [] \<and> ys \<noteq> [] then latest_time xs \<le> earliest_time ys else True)"

definition assert_chronological :: "nat \<Rightarrow> datetime list \<Rightarrow> (exn, unit) result" where
  "assert_chronological n ts =
     (let (train, val, test) = split_at n ts
      in bind_result (require_that (in_order train val) AssertionError) (\<lambda>_. require_that (in_order val test) AssertionError))"

definition new_model ::
  "(digest \<Rightarrow> string) \<Rightarrow> (string \<Rightarrow> pyfloat option) \<Rightarrow> (pyfloat list \<Rightarrow> pyfloat) \<Rightarrow> string list \<Rightarrow>
   (string \<times> (json \<times> int) list) list \<Rightarrow> digest option \<Rightarrow> (exn, prediction_model) result" where
  "new_model hexdigest float_str probability names encoders fingerprint =
     (case fingerprint of
        None \<Rightarrow> Inr (SyntheticLogisticRegressionModel float_str probability names encoders)
      | Some d \<Rightarrow> ProviderLogisticRegressionModel float_str probability names encoders
                    (''provider-eval-'' @ take 12 (hexdigest d)))"

definition run_pipeline ::
  "(digest \<Rightarrow> string) \<Rightarrow> (string \<Rightarrow> pyfloat option) \<Rightarrow> 'm sklearn \<Rightarrow> validator \<Rightarrow> dataset \<Rightarrow>
   (exn, prediction_model \<times> (pyfloat \<times> pyfloat \<times> pyfloat) \<times> training_metadata option) result" where
  "run_pipeline hexdigest float_str sk v ds =
     bind_result (if vd_population v = PROVIDER_EVALUATION then map_sum (\<lambda>e. e) Some (require_checked_dataset v ds) else Inr None)
       (\<lambda>checked.
     let n = length (ds_X ds) in
     bind_result (preprocess_features float_str (ds_X ds)) (\<lambda>(X, names, encoders).
     let (X_train, X_val, X_test) = split_at n X; (y_train, y_val, y_test) = split_at n (ds_y ds) in
     bind_result (assert_chronological n (ds_times ds)) (\<lambda>_.
     bind_result (sk_fit sk X_train y_train) (\<lambda>base_model.
     bind_result (if 2 \<le> length (remdups y_val) then sk_calibrate sk predefined_calibration_split base_model X_val y_val
                  else Inr base_model) (\<lambda>eval_model.
     bind_result (sk_probabilities sk eval_model X_test) (\<lambda>probs.
     let scores = sk_scores sk y_test probs;
         metrics = (case scores of None \<Rightarrow> (0, 1 / 2, 0) | Some m \<Rightarrow> m)
     in bind_result (new_model hexdigest float_str (sk_probability sk eval_model) names encoders (map_option snd checked))
          (\<lambda>model. Inr (model, metrics, map_option (\<lambda>(window, fingerprint).
             \<lparr>tm_population = population_value (vd_population v),
              tm_sample_window = (earliest_time (ds_times ds), latest_time (ds_times ds)),
              tm_sample_count = n, tm_metrics = metrics, tm_metrics_computed = (scores \<noteq> None),
              tm_contamination_window = window, tm_lookback_seconds = CONTAMINATION_LOOKBACK div seconds 1,
              tm_label_horizon_seconds = LABEL_HORIZON div seconds 1, tm_fingerprint = fingerprint\<rparr>) checked))))))))"

section \<open>What an extraction reads\<close>

definition snapshot_samples :: "(uuid \<Rightarrow> string) \<Rightarrow> training_population \<Rightarrow> ('a rca_db_scheme) \<Rightarrow> payment_event list \<Rightarrow> payment_event list" where
  "snapshot_samples uuid_str population db es =
     filter (\<lambda>e. terminal_label uuid_str population db (ev_payment_id e) (ev_ingested_at e) \<noteq> - 1 \<and>
       reconstruct_features uuid_str db (ev_payment_id e) (ev_ingested_at e) \<noteq> None) es"

definition dataset_of :: "(uuid \<Rightarrow> string) \<Rightarrow> training_population \<Rightarrow> ('a rca_db_scheme) \<Rightarrow> payment_event list \<Rightarrow> dataset" where
  "dataset_of uuid_str population db es =
     (let samples = snapshot_samples uuid_str population db es
      in \<lparr>ds_X = map (\<lambda>e. snapshot_dict (the (reconstruct_features uuid_str db (ev_payment_id e) (ev_ingested_at e)))) samples,
          ds_y = map (\<lambda>e. terminal_label uuid_str population db (ev_payment_id e) (ev_ingested_at e)) samples,
          ds_times = map ev_ingested_at samples\<rparr>)"

text \<open>The dataset of one database: the labelled and reconstructed authorized events.\<close>

definition snapshot_dataset :: "(uuid \<Rightarrow> string) \<Rightarrow> training_population \<Rightarrow> ('a rca_db_scheme) \<Rightarrow> dataset" where
  "snapshot_dataset uuid_str population db = dataset_of uuid_str population db (authorized_events uuid_str population db)"

definition append_dataset :: "dataset \<Rightarrow> dataset \<Rightarrow> dataset" where
  "append_dataset a b = \<lparr>ds_X = ds_X a @ ds_X b, ds_y = ds_y a @ ds_y b, ds_times = ds_times a @ ds_times b\<rparr>"

lemma append_dataset_empty [simp]: "append_dataset empty_dataset b = b" "append_dataset a (dataset_of u p db []) = a"
  by (simp_all add: append_dataset_def empty_dataset_def dataset_of_def snapshot_samples_def Let_def)

lemma label_one_Inr:
  assumes "label_one env uuid_str population snapshot e (ds, k) = Inr (ds', k')"
  shows "k < k'"
    and "(\<forall>j. k \<le> j \<and> j < k' \<longrightarrow> se_view env j = db) \<Longrightarrow> ds' = append_dataset ds (dataset_of uuid_str population db [e])"
proof -
  let ?t = "ev_ingested_at e" and ?p = "ev_payment_id e"
  let ?l = "terminal_label uuid_str population (se_view env (k + 1)) ?p ?t"
  have run: "(if ?l = - 1 then ds' = ds \<and> k' = k + 2
      else case reconstruct_features uuid_str (se_view env (k + 2)) ?p ?t of
             None \<Rightarrow> ds' = ds \<and> k' = k + 3
           | Some f \<Rightarrow> ds' = add_sample (snapshot_dict f) ?l ?t ds \<and> k' = k + 3)"
    using assms by (auto simp: label_one_def get_terminal_label_def bind_result_Inr Let_def split: if_splits option.splits)
  then show "k < k'" by (auto split: if_splits option.splits)
  show "ds' = append_dataset ds (dataset_of uuid_str population db [e])" if views: "\<forall>j. k \<le> j \<and> j < k' \<longrightarrow> se_view env j = db"
  proof (cases "?l = - 1")
    case True
    with run have "k' = k + 2" "ds' = ds" by simp_all
    with True views show ?thesis
      by (simp add: append_dataset_def dataset_of_def snapshot_samples_def Let_def)
  next
    case False
    with run have "k' = k + 3" by (auto split: option.splits)
    with views have "se_view env (k + 1) = db" "se_view env (k + 2) = db" by simp_all
    with run False show ?thesis
      by (auto simp: append_dataset_def dataset_of_def snapshot_samples_def add_sample_def Let_def split: option.splits)
  qed
qed

lemma append_dataset_Cons:
  "append_dataset (append_dataset ds (dataset_of u p db [e])) (dataset_of u p db es) = append_dataset ds (dataset_of u p db (e # es))"
  by (simp add: append_dataset_def dataset_of_def snapshot_samples_def Let_def)

lemma label_fold_Inr:
  assumes "fold_result (label_one env uuid_str population snapshot) es (ds, k) = Inr (ds', k')"
  shows "k \<le> k' \<and> ((\<forall>j. k \<le> j \<and> j < k' \<longrightarrow> se_view env j = db) \<longrightarrow> ds' = append_dataset ds (dataset_of uuid_str population db es))"
  using assms
proof (induction es arbitrary: ds k)
  case (Cons e es)
  then obtain ds1 k1 where one: "label_one env uuid_str population snapshot e (ds, k) = Inr (ds1, k1)"
    and rest: "fold_result (label_one env uuid_str population snapshot) es (ds1, k1) = Inr (ds', k')"
    by (auto simp: bind_result_Inr)
  note less = label_one_Inr(1)[OF one] and ih = Cons.IH[OF rest]
  then show ?case using label_one_Inr(2)[OF one, of db] append_dataset_Cons[of ds uuid_str population db e es] by auto
qed simp

section \<open>Provider evaluation reads one snapshot\<close>

text \<open>
  What the database and SQLAlchemy document: a transaction that has ended does not come back, and at
  REPEATABLE READ or above its queries all read one snapshot. No other task uses the session between
  reading the isolation level and the transaction.
\<close>

definition isolated :: "'db session_env \<Rightarrow> bool" where
  "isolated env \<longleftrightarrow>
     (\<forall>i j l. se_transaction env i \<noteq> None \<and> se_transaction env j = se_transaction env i \<and> i \<le> l \<and> l \<le> j \<longrightarrow>
        se_transaction env l = se_transaction env i) \<and>
     (\<forall>i j. se_transaction env i \<noteq> None \<and> se_transaction env j = se_transaction env i \<and>
        str_lower (strip (se_level env (se_transaction env i))) \<in> set SNAPSHOT_ISOLATION_LEVELS \<longrightarrow> se_view env j = se_view env i)"

definition undisturbed :: "'db session_env \<Rightarrow> nat \<Rightarrow> bool" where
  "undisturbed env k \<longleftrightarrow> se_transaction env (k + 2) = se_transaction env (k + 3)"

definition genuine :: "payment_event \<Rightarrow> bool" where
  "genuine e \<longleftrightarrow> ev_source_system e = RAZORPAY_SOURCE_SYSTEM \<and> \<not> legacy_event e \<or> ev_source_system e \<in> set NON_RAZORPAY_PIPELINE_SOURCES"

definition uncontaminated :: "('a event_db_scheme) \<Rightarrow> datetime \<times> datetime \<Rightarrow> bool" where
  "uncontaminated db window = list_all genuine (filter (in_window window) (db_events db))"

lemma legacy_prefix: "legacy_event e \<Longrightarrow> prefix LEGACY_LIVE_CONTEXT_PAYMENT_PREFIX (ev_payment_id e)"
  by (simp add: legacy_event_def is_legacy_live_context_event_def Let_def split: if_splits)

text \<open>The guard: the SQL prefix filter loses no legacy event.\<close>

lemma counts_zero:
  "non_provider_count window db = 0 \<and> legacy_count window db = 0 \<longleftrightarrow> uncontaminated db window"
proof -
  have "non_provider_count window db = 0 \<and> legacy_count window db = 0 \<longleftrightarrow>
      (\<forall>e\<in>set (db_events db). in_window window e \<longrightarrow>
        ev_source_system e \<in> set (RAZORPAY_SOURCE_SYSTEM # NON_RAZORPAY_PIPELINE_SOURCES) \<and>
        \<not> (ev_source_system e = RAZORPAY_SOURCE_SYSTEM \<and> legacy_event e))"
    using legacy_prefix by (auto simp: non_provider_count_def legacy_count_def filter_empty_conv)
  also have "\<dots> \<longleftrightarrow> uncontaminated db window"
  proof -
    have "RAZORPAY_SOURCE_SYSTEM \<notin> set NON_RAZORPAY_PIPELINE_SOURCES" by code_simp
    then show ?thesis by (auto simp: uncontaminated_def genuine_def list_all_iff)
  qed
  finally show ?thesis .
qed

lemma begin_Inr:
  assumes "begin_provider_snapshot env k = Inr (snapshot, k')"
  shows "k' = k + 4" "snapshot = se_transaction env (k + 3)" "snapshot \<noteq> None"
    "str_lower (strip (se_level env (se_transaction env (k + 2)))) \<in> set SNAPSHOT_ISOLATION_LEVELS"
  using assms by (auto simp: begin_provider_snapshot_def bind_result_Inr)

lemma extract_provider_Inr:
  assumes "isolated env" "undisturbed env k" "extract_provider_dataset env uuid_str k = Inr (window, ds)"
  shows "ds = snapshot_dataset uuid_str PROVIDER_EVALUATION (se_view env (k + 5))"
    and "window = extraction_window (authorized_events uuid_str PROVIDER_EVALUATION (se_view env (k + 5)))"
    and "case window of None \<Rightarrow> True | Some w \<Rightarrow> uncontaminated (se_view env (k + 5)) w"
proof -
  let ?db = "se_view env (k + 5)"
  let ?es = "authorized_events uuid_str PROVIDER_EVALUATION ?db"
  from assms(3) obtain snapshot k0 k1 k2 where begun: "begin_provider_snapshot env k = Inr (snapshot, k0)"
    and window: "window = extraction_window (authorized_events uuid_str PROVIDER_EVALUATION (se_view env (k0 + 1)))"
    and guard: "(case window of None \<Rightarrow> Inr (k0 + 2)
      | Some w \<Rightarrow> assert_evaluation_window_uncontaminated env PROVIDER_EVALUATION snapshot w (k0 + 2)) = Inr k1"
    and labels: "label_and_reconstruct env uuid_str PROVIDER_EVALUATION snapshot
      (authorized_events uuid_str PROVIDER_EVALUATION (se_view env (k0 + 1))) k1 = Inr (ds, k2)"
    and current: "snapshot_is_current env snapshot k2"
    by (auto simp: extract_provider_dataset_def get_authorized_events_def bind_result_Inr Let_def simp del: add_2_eq_Suc add_2_eq_Suc')
  note b = begin_Inr[OF begun]
  from b(1) have k0: "k0 = k + 4" .
  from guard have k1: "k0 + 2 \<le> k1"
    by (auto simp: assert_evaluation_window_uncontaminated_def bind_result_Inr split: option.splits)
  have k2: "k1 \<le> k2" using label_fold_Inr labels unfolding label_and_reconstruct_def by blast
  have start: "se_transaction env (k + 3) = snapshot" and stop: "se_transaction env k2 = snapshot"
    using b(2) current by (simp_all add: snapshot_is_current_def)
  have tx: "se_transaction env j = snapshot" if "k + 3 \<le> j" "j \<le> k2" for j
    using assms(1) start stop that b(3) unfolding isolated_def by metis
  have level: "str_lower (strip (se_level env snapshot)) \<in> set SNAPSHOT_ISOLATION_LEVELS"
    using b(2,4) assms(2) by (simp add: undisturbed_def)
  have "se_transaction env (k + 5) = snapshot" using k0 k1 k2 by (intro tx) simp_all
  then have view: "se_view env j = ?db" if "k + 3 \<le> j" "j \<le> k2" for j
    using assms(1) level tx[OF that] b(3) unfolding isolated_def by metis
  have views: "\<forall>j. k1 \<le> j \<and> j < k2 \<longrightarrow> se_view env j = ?db" using k0 k1 by (auto intro!: view)
  show "window = extraction_window ?es" using window k0 by (simp add: add.commute)
  show "ds = snapshot_dataset uuid_str PROVIDER_EVALUATION ?db"
    using label_fold_Inr[OF labels[unfolded label_and_reconstruct_def], of ?db] views k0
    by (simp add: snapshot_dataset_def eval_nat_numeral)
  show "case window of None \<Rightarrow> True | Some w \<Rightarrow> uncontaminated ?db w"
  proof (cases window)
    case (Some w)
    with guard have "non_provider_count w (se_view env (k0 + 3)) = 0" "legacy_count w (se_view env (k0 + 4)) = 0" "k1 = k0 + 5"
      by (auto simp: assert_evaluation_window_uncontaminated_def bind_result_Inr eval_nat_numeral)
    moreover have "se_view env (k0 + 3) = ?db" "se_view env (k0 + 4) = ?db" using k0 k2 \<open>k1 = k0 + 5\<close> by (auto intro!: view)
    ultimately show ?thesis using Some counts_zero[of w ?db] by simp
  qed simp
qed

section \<open>The fingerprint\<close>

text \<open>Equal up to the order of the keys inside a sample.\<close>

definition same_dataset :: "dataset \<Rightarrow> dataset \<Rightarrow> bool" where
  "same_dataset a b \<longleftrightarrow>
     map sort_keys (ds_X a) = map sort_keys (ds_X b) \<and> ds_y a = ds_y b \<and> ds_times a = ds_times b"

lemma sample_sorted:
  "sort_keys (JObj [(''features'', a), (''label'', JInt l), (''time'', JTime t)]) =
     JObj [(''features'', sort_keys a), (''label'', JInt l), (''time'', JTime t)]"
  by (simp add: insort_key_left_comm)

lemma fingerprint_inject:
  assumes "compute_dataset_fingerprint a = Inr d" "compute_dataset_fingerprint b = Inr d"
  shows "same_dataset a b"
proof -
  let ?s = "\<lambda>(row, label, t). JObj [(''features'', sort_keys row), (''label'', JInt label), (''time'', JTime t)]"
  let ?zip = "\<lambda>ds. zip (ds_X ds) (zip (ds_y ds) (ds_times ds))"
  from assms have len: "length (ds_X a) = length (ds_y a)" "length (ds_y a) = length (ds_times a)"
    "length (ds_X b) = length (ds_y b)" "length (ds_y b) = length (ds_times b)"
    by (auto simp: compute_dataset_fingerprint_def split: if_splits)
  have digest: "compute_dataset_fingerprint ds = Inr d \<Longrightarrow> d = Sha256 (JArr (map ?s (?zip ds)))" for ds
    by (auto simp: compute_dataset_fingerprint_def sha256_json_def comp_def case_prod_beta' sample_sorted simp del: sort_keys.simps(2)
        split: if_splits)
  have zips: "map ?s (?zip a) = map ?s (?zip b)" using digest[OF assms(1)] digest[OF assms(2)] by simp
  let ?enc = "\<lambda>(r, l, t). JObj [(''features'', r), (''label'', JInt l), (''time'', JTime t)]"
  let ?dec = "\<lambda>(r, l, t). (sort_keys r, l, t)"
  have "map ?s zs = map ?enc (map ?dec zs)" for zs by (simp add: case_prod_beta')
  with zips have "map ?enc (map ?dec (?zip a)) = map ?enc (map ?dec (?zip b))" by simp
  moreover have "inj ?enc" by (auto simp: inj_on_def)
  ultimately have "map ?dec (?zip a) = map ?dec (?zip b)" by (simp only: inj_map_eq_map)
  then have eq: "zip (map sort_keys (ds_X a)) (zip (ds_y a) (ds_times a)) = zip (map sort_keys (ds_X b)) (zip (ds_y b) (ds_times b))"
    by (simp add: zip_map1 case_prod_beta')
  have unzip: "ds_X' = map fst z \<and> ds_y' = map (fst \<circ> snd) z \<and> ds_t' = map (snd \<circ> snd) z"
    if "z = zip ds_X' (zip ds_y' ds_t')" "length ds_X' = length ds_y'" "length ds_y' = length ds_t'"
    for z and ds_X' :: "json list" and ds_y' :: "int list" and ds_t' :: "datetime list"
    using that by (simp flip: map_map)
  show ?thesis unfolding same_dataset_def
    using unzip[OF refl, of "map sort_keys (ds_X a)" "ds_y a" "ds_times a"]
      unzip[OF refl, of "map sort_keys (ds_X b)" "ds_y b" "ds_times b"] len eq by simp
qed

section \<open>Sample times\<close>

lemma latest_time_max: "x \<in> set xs \<Longrightarrow> x \<le> latest_time xs"
  by (cases xs) (auto simp: latest_time_def fold_max_ge fold_max_upper)

lemma fold_min_lower: "fold min xs (y :: datetime) \<le> y" "x \<in> set xs \<Longrightarrow> fold min xs y \<le> x"
proof -
  have "fold min xs y \<le> y \<and> (\<forall>x\<in>set xs. fold min xs y \<le> x)" for y :: datetime
  proof (induction xs arbitrary: y)
    case (Cons x xs)
    from Cons.IH[of "min x y"] show ?case by auto
  qed simp
  then show "fold min xs y \<le> y" "x \<in> set xs \<Longrightarrow> fold min xs y \<le> x" by auto
qed

lemma earliest_time_min: "x \<in> set xs \<Longrightarrow> earliest_time xs \<le> x"
  by (cases xs) (auto simp: earliest_time_def fold_min_lower)

definition genuine_around :: "('a event_db_scheme) \<Rightarrow> datetime \<Rightarrow> bool" where
  "genuine_around db t = uncontaminated db (t - CONTAMINATION_LOOKBACK, t + LABEL_HORIZON)"

lemma samples_subset: "set (ds_times (dataset_of u p db es)) \<subseteq> ev_ingested_at ` set es"
  by (auto simp: dataset_of_def snapshot_samples_def Let_def)

lemma window_genuine:
  assumes "extraction_window es = Some w" "uncontaminated db w" "t \<in> set (ds_times (dataset_of u p db es))"
  shows "genuine_around db t"
proof -
  from assms(3) have t: "t \<in> set (map ev_ingested_at es)" using samples_subset by fastforce
  from assms(1) have w: "w = (earliest_time (map ev_ingested_at es) - CONTAMINATION_LOOKBACK, latest_time (map ev_ingested_at es) + LABEL_HORIZON)"
    by (simp add: extraction_window_def Let_def split: if_splits)
  have "in_window w e" if "in_window (t - CONTAMINATION_LOOKBACK, t + LABEL_HORIZON) e" for e
    using that latest_time_max[OF t] earliest_time_min[OF t] unfolding w by (auto simp: in_window_def)
  with assms(2) show ?thesis by (auto simp: genuine_around_def uncontaminated_def list_all_iff)
qed

section \<open>What a provider model was trained on\<close>

text \<open>The checked extraction of a validator is one of its extractions, from one clean snapshot.\<close>

definition extracted_from ::
  "(uuid \<Rightarrow> string) \<Rightarrow> ((datetime \<times> datetime) \<times> digest) option \<Rightarrow> ('a rca_db_scheme) session_env \<times> nat \<Rightarrow> bool" where
  "extracted_from uuid_str checked = (\<lambda>(env, k).
     let db = se_view env (k + 5); real = snapshot_dataset uuid_str PROVIDER_EVALUATION db
     in compute_dataset_fingerprint real = map_sum (\<lambda>e. e) snd (the (map_option Inr checked)) \<and>
        list_all (genuine_around db) (ds_times real))"

lemma extract_population [simp]: "vd_population (snd (extract_dataset uuid_str env k v)) = vd_population v"
  by (auto simp: extract_dataset_def Let_def split: sum.splits option.splits)

lemma extract_checked:
  assumes "isolated env" "undisturbed env k" "vd_population v = PROVIDER_EVALUATION"
    and "vd_checked (snd (extract_dataset uuid_str env k v)) = Some c"
  shows "extracted_from uuid_str (Some c) (env, k)"
proof -
  from assms(3,4) obtain w d ds where c: "c = (w, d)" and run: "extract_provider_dataset env uuid_str k = Inr (Some w, ds)"
    and fp: "compute_dataset_fingerprint ds = Inr d"
    by (auto simp: extract_dataset_def Let_def split: sum.splits option.splits prod.splits)
  note x = extract_provider_Inr[OF assms(1,2) run]
  from x(2) have w: "extraction_window (authorized_events uuid_str PROVIDER_EVALUATION (se_view env (k + 5))) = Some w" by simp
  have "list_all (genuine_around (se_view env (k + 5))) (ds_times ds)"
    using x(3) window_genuine[OF w] unfolding x(1) snapshot_dataset_def by (auto simp: list_all_iff)
  with fp x(1) c show ?thesis by (simp add: extracted_from_def Let_def)
qed

definition run_extractions ::
  "(uuid \<Rightarrow> string) \<Rightarrow> (('a rca_db_scheme) session_env \<times> nat) list \<Rightarrow> validator \<Rightarrow> validator" where
  "run_extractions uuid_str history v = fold (\<lambda>(env, k) v. snd (extract_dataset uuid_str env k v)) history v"

lemma run_extractions_checked:
  assumes "list_all (\<lambda>(env, k). isolated env \<and> undisturbed env k) history" "vd_population v = PROVIDER_EVALUATION"
    and "vd_checked v = None"
  shows "vd_population (run_extractions uuid_str history v) = PROVIDER_EVALUATION \<and>
    (case vd_checked (run_extractions uuid_str history v) of None \<Rightarrow> True
     | Some c \<Rightarrow> list_ex (extracted_from uuid_str (Some c)) history)"
  using assms(1)
proof (induction history rule: rev_induct)
  case (snoc q history)
  obtain env k where q: "q = (env, k)" by (cases q)
  let ?v = "run_extractions uuid_str history v"
  have pop: "vd_population ?v = PROVIDER_EVALUATION" using snoc by simp
  have step: "run_extractions uuid_str (history @ [q]) v = snd (extract_dataset uuid_str env k ?v)"
    by (simp add: run_extractions_def q)
  from snoc.prems have "isolated env" "undisturbed env k" by (simp_all add: q)
  with extract_checked[OF _ _ pop, of env k uuid_str] pop show ?case unfolding step by (auto simp: q split: option.split)
qed (use assms in \<open>simp add: run_extractions_def\<close>)

lemma run_pipeline_checked:
  assumes "run_pipeline hexdigest float_str sk v ds = Inr (trained, metrics, metadata)" "vd_population v = PROVIDER_EVALUATION"
  obtains w d where "vd_checked v = Some (w, d)" "compute_dataset_fingerprint ds = Inr d" "ds_times ds \<noteq> []"
    "fm_name trained = ''ProviderLogisticRegressionModel''" "fm_version trained = ''provider-eval-'' @ take 12 (hexdigest d)"
    "map_option tm_fingerprint metadata = Some d"
proof -
  from assms have checked: "\<exists>w d. require_checked_dataset v ds = Inr (w, d) \<and> map_option tm_fingerprint metadata = Some d \<and>
      (\<exists>p names enc. ProviderLogisticRegressionModel float_str p names enc (''provider-eval-'' @ take 12 (hexdigest d)) = Inr trained)"
    apply (cases "require_checked_dataset v ds")
    apply (simp add: run_pipeline_def)
    apply (clarsimp simp: run_pipeline_def bind_result_Inr new_model_def Let_def case_prod_beta' simp del: char_of_eq_iff)
    apply blast
    done
  then obtain w d p names enc where r: "require_checked_dataset v ds = Inr (w, d)" "map_option tm_fingerprint metadata = Some d"
    "ProviderLogisticRegressionModel float_str p names enc (''provider-eval-'' @ take 12 (hexdigest d)) = Inr trained" by blast
  have "vd_checked v = Some (w, d)" "compute_dataset_fingerprint ds = Inr d" "ds_times ds \<noteq> []"
    using r(1) by (auto simp: require_checked_dataset_def bind_result_Inr split: option.splits if_splits)
  moreover have "fm_name trained = ''ProviderLogisticRegressionModel''" "fm_version trained = ''provider-eval-'' @ take 12 (hexdigest d)"
    using r(3) by (auto simp: ProviderLogisticRegressionModel_def split: if_splits)
  ultimately show thesis using that r(2) by blast
qed

text \<open>C31: A provider model is trained on genuine data only, read from one database snapshot. Whatever extractions a
  validator has run before, with other tasks writing to the database and even ending its transaction in
  between, a provider-evaluation training run that returns a model was given (up to the order of keys inside
  the samples) the dataset of one database state that one of those extractions saw, with at least one sample;
  in that state no synthetic and no legacy generated event lies in the window from four weeks and a day before
  any sample to half an hour after it; and the model carries the provider name, a version and a fingerprint
  derived from exactly this dataset.\<close>

theorem provider_model_from_clean_snapshot:
  assumes "list_all (\<lambda>(env, k). isolated env \<and> undisturbed env k) history"
  shows "let v = run_extractions uuid_str history (new_validator PROVIDER_EVALUATION)
    in case run_pipeline hexdigest float_str sk v ds of
         Inl e \<Rightarrow> True
       | Inr (trained, metrics, metadata) \<Rightarrow>
           ds_times ds \<noteq> [] \<and>
           list_ex (\<lambda>(env, k).
             let db = se_view env (k + 5)
             in same_dataset ds (snapshot_dataset uuid_str PROVIDER_EVALUATION db) \<and>
                list_all (genuine_around db) (ds_times ds)) history \<and>
           fm_name trained = ''ProviderLogisticRegressionModel'' \<and>
           map_option (\<lambda>m. Inr (tm_fingerprint m)) metadata = Some (compute_dataset_fingerprint ds) \<and>
           map_option (\<lambda>m. ''provider-eval-'' @ take 12 (hexdigest (tm_fingerprint m))) metadata = Some (fm_version trained)"
proof -
  let ?v = "run_extractions uuid_str history (new_validator PROVIDER_EVALUATION)"
  have v: "vd_population ?v = PROVIDER_EVALUATION" "case vd_checked ?v of None \<Rightarrow> True
      | Some c \<Rightarrow> list_ex (extracted_from uuid_str (Some c)) history"
    using run_extractions_checked[OF assms, of "new_validator PROVIDER_EVALUATION"] by (simp_all add: new_validator_def)
  have "list_ex (\<lambda>(env, k). same_dataset ds (snapshot_dataset uuid_str PROVIDER_EVALUATION (se_view env (k + 5))) \<and>
      list_all (genuine_around (se_view env (k + 5))) (ds_times ds)) history"
    if checked: "vd_checked ?v = Some (w, d)" and fp: "compute_dataset_fingerprint ds = Inr d" for w d
  proof -
    from v(2) checked obtain env k where mem: "(env, k) \<in> set history" and from_: "extracted_from uuid_str (Some (w, d)) (env, k)"
      by (auto simp: list_ex_iff)
    let ?real = "snapshot_dataset uuid_str PROVIDER_EVALUATION (se_view env (k + 5))"
    from from_ have "compute_dataset_fingerprint ?real = Inr d" "list_all (genuine_around (se_view env (k + 5))) (ds_times ?real)"
      by (simp_all add: extracted_from_def Let_def)
    with fingerprint_inject[OF fp] mem show ?thesis by (force simp: list_ex_iff same_dataset_def)
  qed
  note clean = this
  show ?thesis
  proof (cases "run_pipeline hexdigest float_str sk ?v ds")
    case (Inr r)
    obtain trained metrics metadata where r: "r = (trained, metrics, metadata)" by (cases r)
    from run_pipeline_checked[OF Inr[unfolded r] v(1)] obtain w d where c: "vd_checked ?v = Some (w, d)"
      "compute_dataset_fingerprint ds = Inr d" "ds_times ds \<noteq> []" "fm_name trained = ''ProviderLogisticRegressionModel''"
      "fm_version trained = ''provider-eval-'' @ take 12 (hexdigest d)" "map_option tm_fingerprint metadata = Some d" by metis
    from c(6) obtain m where "metadata = Some m" "tm_fingerprint m = d" by (cases metadata) auto
    with Inr c clean[OF c(1,2)] show ?thesis unfolding Let_def by (simp add: r)
  qed (simp add: Let_def)
qed

text \<open>A session of its own whose only transaction starts after the first check, over a fixed database.\<close>

definition quiet_session :: "'db \<Rightarrow> 'db session_env" where
  "quiet_session db =
     \<lparr>se_transaction = (\<lambda>k. if k = 0 then None else Some 7), se_view = (\<lambda>k. db), se_level = (\<lambda>t. ''repeatable read'')\<rparr>"

lemma quiet_session_isolated: "isolated (quiet_session db)" "undisturbed (quiet_session db) 0"
  by (auto simp: isolated_def undisturbed_def quiet_session_def)

lemma label_fold_quiet:
  assumes "population = PROVIDER_EVALUATION \<Longrightarrow> snapshot = Some 7" "0 < k"
  shows "\<exists>k'. k \<le> k' \<and> fold_result (label_one (quiet_session db) uuid_str population snapshot) es (ds, k) =
    Inr (append_dataset ds (dataset_of uuid_str population db es), k')"
  using assms(2)
proof (induction es arbitrary: ds k)
  case (Cons e es)
  have "\<exists>ds1 k1. label_one (quiet_session db) uuid_str population snapshot e (ds, k) = Inr (ds1, k1)"
    using assms(1) Cons.prems
    by (auto simp: label_one_def get_terminal_label_def require_provider_snapshot_def snapshot_is_current_def quiet_session_def
        require_that_def Let_def split: option.split)
  then obtain ds1 k1 where one: "label_one (quiet_session db) uuid_str population snapshot e (ds, k) = Inr (ds1, k1)" by blast
  from label_one_Inr(1)[OF one] label_one_Inr(2)[OF one, of db]
  have k1: "k < k1" and ds1: "ds1 = append_dataset ds (dataset_of uuid_str population db [e])" by (simp_all add: quiet_session_def)
  then have "0 < k1" by simp
  from Cons.IH[OF this, of ds1] one k1 show ?case
    by (auto simp: ds1 append_dataset_Cons intro: less_imp_le order_trans)
qed simp

text \<open>Extraction in a session that nobody else uses is exactly the dataset of the database. A provider-evaluation
  extraction there succeeds unless the window around its samples holds a synthetic or legacy generated event,
  which is the only way it is refused; it returns the labelled and reconstructed authorized events of that
  database, and it records a checked window exactly when there are authorized events, so that an empty
  extraction never licenses training.\<close>

lemma extract_dataset_quiet:
  "extract_dataset uuid_str (quiet_session db) 0 (new_validator PROVIDER_EVALUATION) =
     (let events = authorized_events uuid_str PROVIDER_EVALUATION db;
          ds = snapshot_dataset uuid_str PROVIDER_EVALUATION db;
          v = new_validator PROVIDER_EVALUATION
      in case extraction_window events of
           None \<Rightarrow> (Inr empty_dataset, v)
         | Some w \<Rightarrow>
             if uncontaminated db w
             then (Inr ds, case compute_dataset_fingerprint ds of Inl e \<Rightarrow> v | Inr d \<Rightarrow> v\<lparr>vd_checked := Some (w, d)\<rparr>)
             else (Inl EvaluationDataContaminationError, v))"
proof -
  let ?env = "quiet_session db"
  let ?es = "authorized_events uuid_str PROVIDER_EVALUATION db"
  let ?ds = "snapshot_dataset uuid_str PROVIDER_EVALUATION db"
  have begun: "begin_provider_snapshot ?env 0 = Inr (Some 7, 4)"
  proof -
    have "str_lower (strip ''repeatable read'') \<in> set SNAPSHOT_ISOLATION_LEVELS" by code_simp
    then show ?thesis by (simp add: begin_provider_snapshot_def quiet_session_def)
  qed
  have events: "get_authorized_events ?env uuid_str PROVIDER_EVALUATION (Some 7) 4 = Inr (?es, 6)"
    by (simp add: get_authorized_events_def require_provider_snapshot_def snapshot_is_current_def quiet_session_def)
  have guard: "assert_evaluation_window_uncontaminated ?env PROVIDER_EVALUATION (Some 7) w 6 =
      (if uncontaminated db w then Inr 9 else Inl EvaluationDataContaminationError)" for w
    using counts_zero[of w db]
    by (simp add: assert_evaluation_window_uncontaminated_def require_provider_snapshot_def snapshot_is_current_def
        quiet_session_def require_that_def)
  have labels: "\<exists>k'. 0 < k' \<and> label_and_reconstruct ?env uuid_str PROVIDER_EVALUATION (Some 7) ?es k = Inr (?ds, k')" if "0 < k" for k
    using label_fold_quiet[of PROVIDER_EVALUATION "Some 7" k db uuid_str ?es empty_dataset] that
    by (auto simp: label_and_reconstruct_def snapshot_dataset_def)
  have current: "snapshot_is_current ?env (Some 7) k" if "0 < k" for k
    using that by (simp add: snapshot_is_current_def quiet_session_def)
  have run: "extract_provider_dataset ?env uuid_str 0 =
      (case extraction_window ?es of
         None \<Rightarrow> Inr (None, ?ds)
       | Some w \<Rightarrow> if uncontaminated db w then Inr (Some w, ?ds) else Inl EvaluationDataContaminationError)"
    using labels[of 6] labels[of 9] current
    by (auto simp: extract_provider_dataset_def begun events guard Let_def split: option.split)
  have empty: "extraction_window ?es = None \<Longrightarrow> ?ds = empty_dataset"
    by (auto simp: extraction_window_def Let_def snapshot_dataset_def dataset_of_def snapshot_samples_def empty_dataset_def
        split: if_splits)
  have "compute_dataset_fingerprint ?ds = Inr d \<or> compute_dataset_fingerprint ?ds = Inl e \<Longrightarrow> \<exists>d. compute_dataset_fingerprint ?ds = Inr d" for d e
    by (simp add: compute_dataset_fingerprint_def snapshot_dataset_def dataset_of_def Let_def)
  then obtain d where "compute_dataset_fingerprint ?ds = Inr d"
    by (cases "compute_dataset_fingerprint ?ds") blast+
  then show ?thesis
    using empty by (auto simp: extract_dataset_def run new_validator_def Let_def split: option.split)
qed

definition example_training_db :: rca_db where
  "example_training_db =
     \<lparr>db_raw = [],
      db_events = [example_event ''payment.authorized'' ''pay_1'' 0, example_event ''payment.failed'' ''pay_1'' (minutes 5),
                   example_event ''payment.authorized'' ''pay_2'' (minutes 1)],
      db_snapshots = [], db_signals = [], db_episodes = [], db_history = [], db_evaluations = [], db_candidates = []\<rparr>"

definition example_training_history :: "(rca_db session_env \<times> nat) list" where
  "example_training_history = [(quiet_session example_training_db, 0)]"

section \<open>The chronological split\<close>

lemma fl_close: "0 \<le> x \<Longrightarrow> 99 / 100 * x \<le> fl x \<and> fl x \<le> 101 / 100 * x"
proof -
  assume x: "0 \<le> x"
  have "x / 2 ^ 53 \<le> x / 100" using x by (intro divide_left_mono) simp_all
  with fl_error[of x] x have "\<bar>fl x - x\<bar> \<le> x / 100" by simp
  then have "fl x - x \<le> x / 100" "- (fl x - x) \<le> x / 100" by (simp_all only: abs_le_iff)
  then show ?thesis by simp
qed

lemma end_close:
  assumes "0 \<le> q"
  shows "97 / 100 * (of_nat n * q) \<le> f_mul (float_of_int (int n)) (fl q) \<and> f_mul (float_of_int (int n)) (fl q) \<le> 104 / 100 * (of_nat n * q)"
proof -
  let ?a = "float_of_int (int n)" and ?b = "fl q"
  have a: "99 / 100 * of_nat n \<le> ?a" "?a \<le> 101 / 100 * of_nat n"
    using fl_close[of "of_nat n"] by (simp_all add: float_of_int_def)
  have b: "99 / 100 * q \<le> ?b" "?b \<le> 101 / 100 * q" using fl_close[OF assms] by simp_all
  have pos: "0 \<le> ?a" "0 \<le> ?b" using assms by (simp_all add: float_of_int_def fl_nonneg)
  have "(99 / 100 * of_nat n) * (99 / 100 * q) \<le> ?a * ?b" using a b assms pos by (intro mult_mono) simp_all
  moreover have "?a * ?b \<le> (101 / 100 * of_nat n) * (101 / 100 * q)" using a b assms pos by (intro mult_mono) simp_all
  moreover have "99 / 100 * (?a * ?b) \<le> fl (?a * ?b)" "fl (?a * ?b) \<le> 101 / 100 * (?a * ?b)"
    using fl_close[of "?a * ?b"] pos by simp_all
  moreover have "0 \<le> of_nat n * q" using assms by simp
  ultimately show ?thesis unfolding f_mul_def by (simp add: algebra_simps)
qed

lemma split_bounds:
  "train_end n \<le> val_end n" "val_end (Suc n) < Suc n" "0 < train_end (n + 2)"
proof -
  have "fl (6 / 10) \<le> fl (8 / 10)" by (intro fl_mono) simp
  moreover have "0 \<le> float_of_int (int n)" by (simp add: float_of_int_def fl_nonneg)
  ultimately show "train_end n \<le> val_end n"
    unfolding train_end_def val_end_def f_mul_def by (intro nat_mono floor_mono fl_mono mult_left_mono) simp_all
  have "f_mul (float_of_int (int (Suc n))) (fl (8 / 10)) \<le> 104 / 100 * (of_nat (Suc n) * (8 / 10))"
    using end_close[of "8 / 10" "Suc n"] by simp
  also have "\<dots> < of_nat (Suc n)" by simp
  finally have "\<lfloor>f_mul (float_of_int (int (Suc n))) (fl (8 / 10))\<rfloor> < int (Suc n)" by (simp add: floor_less_iff)
  then show "val_end (Suc n) < Suc n" unfolding val_end_def by linarith
  have "1 \<le> 97 / 100 * (of_nat (n + 2) * (6 / 10) :: rat)" by simp
  also have "\<dots> \<le> f_mul (float_of_int (int (n + 2))) (fl (6 / 10))" using end_close[of "6 / 10" "n + 2"] by simp
  finally have "1 \<le> \<lfloor>f_mul (float_of_int (int (n + 2))) (fl (6 / 10))\<rfloor>" by (simp add: le_floor_iff)
  then show "0 < train_end (n + 2)" unfolding train_end_def by linarith
qed

lemma latest_time_in: "xs \<noteq> [] \<Longrightarrow> latest_time xs \<in> set xs"
proof -
  have "fold max ys (y :: datetime) \<in> set (y # ys)" for y ys by (induction ys arbitrary: y) (auto simp: max_def)
  then show "xs \<noteq> [] \<Longrightarrow> latest_time xs \<in> set xs" by (cases xs) (auto simp: latest_time_def)
qed

lemma earliest_time_in: "xs \<noteq> [] \<Longrightarrow> earliest_time xs \<in> set xs"
proof -
  have "fold min ys (y :: datetime) \<in> set (y # ys)" for y ys by (induction ys arbitrary: y) (auto simp: min_def)
  then show "xs \<noteq> [] \<Longrightarrow> earliest_time xs \<in> set xs" by (cases xs) (auto simp: earliest_time_def)
qed

lemma split_parts: "fst (split_at n xs) @ fst (snd (split_at n xs)) @ snd (snd (split_at n xs)) = xs"
proof -
  have "take (train_end n) (take (val_end n) xs) = take (train_end n) xs" using split_bounds(1)[of n] by (simp add: min_def)
  then show ?thesis by (metis append.assoc append_take_drop_id fst_conv snd_conv split_at_def)
qed

lemma sorted_in_order: "sorted (xs @ ys) \<Longrightarrow> in_order xs ys"
  by (auto simp: in_order_def sorted_append latest_time_in earliest_time_in)

lemma sorted_chronological:
  assumes "sorted ts"
  shows "assert_chronological n ts = Inr ()"
proof -
  obtain a b c where s: "split_at n ts = (a, b, c)" by (cases "split_at n ts")
  with split_parts[of n ts] assms have "sorted (a @ b @ c)" by simp
  then have "in_order a b" "in_order b c" by (auto intro!: sorted_in_order simp: sorted_append)
  with s show ?thesis by (simp add: assert_chronological_def)
qed

text \<open>Whatever the queries read, the samples come in the order of the authorized events.\<close>

definition labels_ok :: "dataset \<Rightarrow> bool" where
  "labels_ok ds \<longleftrightarrow> length (ds_X ds) = length (ds_times ds) \<and> length (ds_y ds) = length (ds_times ds) \<and> set (ds_y ds) \<subseteq> {0, 1}"

lemma label_one_shape:
  assumes "label_one env uuid_str population snapshot e (ds, k) = Inr (ds', k')"
  shows "ds' = ds \<or> (\<exists>f l. l \<in> {0, 1} \<and> ds' = add_sample (snapshot_dict f) l (ev_ingested_at e) ds)"
proof -
  let ?l = "terminal_label uuid_str population (se_view env (k + 1)) (ev_payment_id e) (ev_ingested_at e)"
  have "?l \<in> {- 1, 0, 1}" by (auto simp: terminal_label_def Let_def split: list.split)
  moreover have "ds' = ds \<or> ?l \<noteq> - 1 \<and> (\<exists>f. ds' = add_sample (snapshot_dict f) ?l (ev_ingested_at e) ds)"
    using assms by (auto simp: label_one_def get_terminal_label_def bind_result_Inr Let_def split: if_splits option.splits)
  ultimately show ?thesis by blast
qed

lemma label_fold_times:
  assumes "fold_result (label_one env uuid_str population snapshot) es (ds, k) = Inr (ds', k')" "labels_ok ds"
  shows "labels_ok ds' \<and> (\<exists>ss. subseq ss es \<and> ds_times ds' = ds_times ds @ map ev_ingested_at ss) \<and>
    (\<exists>fs. ds_X ds' = ds_X ds @ map snapshot_dict fs)"
  using assms
proof (induction es arbitrary: ds k)
  case (Cons e es)
  then obtain ds1 k1 where one: "label_one env uuid_str population snapshot e (ds, k) = Inr (ds1, k1)"
    and rest: "fold_result (label_one env uuid_str population snapshot) es (ds1, k1) = Inr (ds', k')"
    by (auto simp: bind_result_Inr)
  from label_one_shape[OF one] consider "ds1 = ds"
    | f l where "l \<in> {0, 1}" "ds1 = add_sample (snapshot_dict f) l (ev_ingested_at e) ds" by blast
  then show ?case
  proof cases
    case 1
    with Cons.IH[OF rest] Cons.prems(2) show ?thesis by (auto intro: list_emb_Cons)
  next
    case 2
    with Cons.prems(2) have "labels_ok ds1" by (auto simp: labels_ok_def add_sample_def)
    from Cons.IH[OF rest this] obtain ss fs where "labels_ok ds'" "subseq ss es"
      "ds_times ds' = ds_times ds1 @ map ev_ingested_at ss" "ds_X ds' = ds_X ds1 @ map snapshot_dict fs" by blast
    then have "subseq (e # ss) (e # es)" "ds_times ds' = ds_times ds @ map ev_ingested_at (e # ss)"
      "ds_X ds' = ds_X ds @ map snapshot_dict (f # fs)" "labels_ok ds'"
      using 2 by (simp_all add: add_sample_def)
    then show ?thesis by blast
  qed
qed auto

lemma sorted_by_first: "sorted (map (\<lambda>e. (f e :: int, g e :: string)) xs) \<Longrightarrow> sorted (map f xs)"
  by (induction xs) (auto simp: less_eq_prod_def)

lemma authorized_sorted: "sorted (map ev_ingested_at (authorized_events uuid_str population db))"
proof (cases "population = PROVIDER_EVALUATION")
  case True
  have "sorted (map (\<lambda>e. (ev_ingested_at e, uuid_str (ev_event_id e))) (filter P (sort_key (\<lambda>e. (ev_ingested_at e, uuid_str (ev_event_id e))) xs)))"
    for P xs by (rule sorted_filter) simp
  from sorted_by_first[OF this] show ?thesis using True by (simp add: authorized_events_def Let_def)
qed (simp add: authorized_events_def Let_def)

lemma sorted_subseq: "subseq xs ys \<Longrightarrow> sorted ys \<Longrightarrow> sorted (xs :: int list)"
proof (induction rule: list_emb.induct)
  case (list_emb_Cons2 x y xs ys)
  then have "set xs \<subseteq> set ys" by (metis set_nths_subset subseq_conv_nths)
  with list_emb_Cons2 show ?case by auto
qed auto

lemma labelled_shape:
  assumes "label_and_reconstruct env uuid_str population snapshot (authorized_events uuid_str population db) k = Inr (ds, k')"
  shows "labels_ok ds" "sorted (ds_times ds)" "\<exists>fs. ds_X ds = map snapshot_dict fs"
proof -
  have "labels_ok empty_dataset" by (simp add: labels_ok_def empty_dataset_def)
  from label_fold_times[OF assms[unfolded label_and_reconstruct_def] this]
  obtain ss fs where s: "labels_ok ds" "subseq ss (authorized_events uuid_str population db)"
    "ds_times ds = map ev_ingested_at ss" "ds_X ds = map snapshot_dict fs" by (auto simp: empty_dataset_def)
  then show "labels_ok ds" "\<exists>fs. ds_X ds = map snapshot_dict fs" by blast+
  have "subseq (map ev_ingested_at ss) (map ev_ingested_at (authorized_events uuid_str population db))" using s(2) by (rule subseq_map)
  then show "sorted (ds_times ds)" unfolding s(3) using authorized_sorted by (rule sorted_subseq)
qed

lemma extract_shape:
  fixes env :: "('a rca_db_scheme) session_env"
  assumes "fst (extract_dataset uuid_str env k v) = Inr ds"
  shows "labels_ok ds" "sorted (ds_times ds)" "\<exists>fs. ds_X ds = map snapshot_dict fs"
proof -
  obtain pop snapshot k1 k2 and db :: "'a rca_db_scheme" where "label_and_reconstruct env uuid_str pop snapshot (authorized_events uuid_str pop db) k1 = Inr (ds, k2)"
  proof (cases "vd_population v = PROVIDER_EVALUATION")
    case True
    with assms obtain w where "extract_provider_dataset env uuid_str k = Inr (w, ds)"
      by (auto simp: extract_dataset_def Let_def split: sum.splits option.splits prod.splits)
    then show thesis by (auto simp: extract_provider_dataset_def get_authorized_events_def bind_result_Inr Let_def intro: that)
  next
    case False
    with assms show thesis by (auto simp: extract_dataset_def get_authorized_events_def bind_result_Inr intro: that)
  qed
  from labelled_shape[OF this] show "labels_ok ds" "sorted (ds_times ds)" "\<exists>fs. ds_X ds = map snapshot_dict fs" .
qed

text \<open>C32: The split is chronological, complete and never empty at its end. Whatever the database and other tasks do, an
  extraction that returns has as many labels (each 0 or 1) and times as samples, its times are in order, and
  on its times the two assertions of the training pipeline never fire: the train, validation and test parts
  put together are the whole dataset and no part holds a time later than a following one. For every number
  of samples, although the cut points are truncated floating-point products, train ends no later than
  validation, the test part of a dataset that is not empty is not empty, and two samples or more give a
  train part that is not empty.\<close>

theorem training_split_chronological:
  "(case fst (extract_dataset uuid_str env k v) of
      Inl e \<Rightarrow> True
    | Inr ds \<Rightarrow>
        labels_ok ds \<and> sorted (ds_times ds) \<and> assert_chronological (length (ds_X ds)) (ds_times ds) = Inr () \<and>
        (let (train, val, test) = split_at (length (ds_X ds)) (ds_times ds)
         in train @ val @ test = ds_times ds \<and> in_order train test \<and>
            (if 1 \<le> length (ds_X ds) then test \<noteq> [] else True) \<and> (if 2 \<le> length (ds_X ds) then train \<noteq> [] else True))) \<and>
   train_end n \<le> val_end n \<and> val_end (Suc n) < Suc n \<and> 0 < train_end (n + 2)"
proof (cases "fst (extract_dataset uuid_str env k v)")
  case (Inr ds)
  let ?n = "length (ds_X ds)"
  note shape = extract_shape[OF Inr]
  obtain a b c where s: "split_at ?n (ds_times ds) = (a, b, c)" by (cases "split_at ?n (ds_times ds)")
  with split_parts[of ?n "ds_times ds"] have parts: "a @ b @ c = ds_times ds" by simp
  with shape(2) have "sorted (a @ b @ c)" by simp
  then have "in_order a c" by (auto intro!: sorted_in_order simp: sorted_append)
  moreover have len: "length (ds_times ds) = ?n" using shape(1) by (simp add: labels_ok_def)
  have "c \<noteq> []" if "1 \<le> ?n"
  proof -
    from that obtain m where "?n = Suc m" by (cases ?n) auto
    with split_bounds(2)[of m] s len show ?thesis by (auto simp: split_at_def)
  qed
  moreover have "a \<noteq> []" if "2 \<le> ?n"
  proof -
    from that obtain m where "?n = m + 2" by (metis add.commute le_Suc_ex)
    with split_bounds(3)[of m] s len show ?thesis by (auto simp: split_at_def)
  qed
  ultimately show ?thesis using Inr shape sorted_chronological s parts split_bounds by simp
qed (use split_bounds in simp)

section \<open>Encoding\<close>

lemma collect_Inr:
  "fold_result (\<lambda>x acc. bind_result (g x) (\<lambda>y. Inr (acc @ [y]))) xs acc = Inr r \<longleftrightarrow>
   (\<exists>ys. list_all2 (\<lambda>x y. g x = Inr y) xs ys \<and> r = acc @ ys)"
proof (induction xs arbitrary: acc)
  case (Cons x xs)
  then show ?case by (cases "g x") (auto simp: list_all2_Cons1)
qed auto

lemma collect_Inl: "fold_result (\<lambda>x acc. bind_result (g x) (\<lambda>y. Inr (acc @ [y]))) xs acc = Inl e \<Longrightarrow> \<exists>x\<in>set xs. g x = Inl e"
proof (induction xs arbitrary: acc)
  case (Cons x xs)
  then show ?case by (cases "g x") auto
qed simp

lemma map_of_encoders:
  "map_of (build_encoders X) f =
     (if f \<in> set categorical_features then Some (fold (\<lambda>row. add_code (row_get row f)) X []) else None)"
proof -
  have "map_of (map (\<lambda>c. (c, g c)) cs) f = (if f \<in> set cs then Some (g f) else None)" for g :: "string \<Rightarrow> (json \<times> int) list" and cs
    by (induction cs) auto
  then show ?thesis by (simp add: build_encoders_def)
qed

lemma cell_parity: "processed_cell float_str (build_encoders X) row f = logistic_cell float_str (build_encoders X) row f"
  by (simp add: processed_cell_def logistic_cell_def map_of_encoders row_get_def Let_def)

lemma row_parity:
  "logistic_failure_probability float_str p feature_names (build_encoders X) row =
     bind_result (fold_result (\<lambda>f cells. bind_result (processed_cell float_str (build_encoders X) row f) (\<lambda>x. Inr (cells @ [x])))
       feature_names []) (\<lambda>cells. Inr (p cells))"
  by (simp add: logistic_failure_probability_def cell_parity)

definition codes_ok :: "json list \<Rightarrow> (json \<times> int) list \<Rightarrow> bool" where
  "codes_ok vs codes \<longleftrightarrow>
     distinct (map fst codes) \<and> set (map fst codes) = set vs \<and> map snd codes = map int [0..<length codes]"

lemma encoder_codes: "codes_ok (map h X) (fold (\<lambda>row. add_code (h row)) X [])"
proof -
  have add: "codes_ok (vs @ [v]) (add_code v codes)" if "codes_ok vs codes" for v vs codes
    using that by (auto simp: codes_ok_def add_code_def)
  have "codes_ok vs codes \<Longrightarrow> codes_ok (vs @ map h X) (fold (\<lambda>row. add_code (h row)) X codes)" for vs codes
  proof (induction X arbitrary: vs codes)
    case (Cons x X)
    from Cons.IH[OF add[OF Cons.prems, of "h x"]] show ?case by simp
  qed simp
  from this[of "[]" "[]"] show ?thesis by (simp add: codes_ok_def)
qed

text \<open>C33: A trained model is served the rows it was trained on. When the features of a dataset are encoded, each row of
  the training matrix is exactly the row the prediction model built from the returned feature names and
  encoders hands to the classifier for the same sample, whatever the classifier is; each encoder gives the
  values of its feature in the dataset, and only those, different codes 0, 1, 2 and so on, so no training value
  falls back to the code of unknown values. When encoding refuses the dataset, serving refuses one of its
  samples with the same error.\<close>

theorem served_row_is_trained_row:
  "case preprocess_features float_str X_raw of
     Inl e \<Rightarrow> list_ex (\<lambda>row. logistic_failure_probability float_str p feature_names (build_encoders X_raw) row = Inl e) X_raw
   | Inr (X, names, encoders) \<Rightarrow>
       list_all2 (\<lambda>row cells. logistic_failure_probability float_str p names encoders row = Inr (p cells)) X_raw X \<and>
       list_all (\<lambda>(cat, codes). codes_ok (map (\<lambda>row. row_get row cat) X_raw) codes) encoders"
proof -
  let ?row = "\<lambda>row. fold_result (\<lambda>f cells. bind_result (processed_cell float_str (build_encoders X_raw) row f) (\<lambda>x. Inr (cells @ [x]))) feature_names []"
  have codes: "list_all (\<lambda>(cat, codes). codes_ok (map (\<lambda>row. row_get row cat) X_raw) codes) (build_encoders X_raw)"
    by (auto simp: build_encoders_def list_all_iff intro: encoder_codes)
  show ?thesis
  proof (cases "fold_result (\<lambda>row rows. bind_result (?row row) (\<lambda>cells. Inr (rows @ [cells]))) X_raw []")
    case (Inl e)
    from collect_Inl[OF this] obtain row where "row \<in> set X_raw" "?row row = Inl e" by blast
    then have "list_ex (\<lambda>row. logistic_failure_probability float_str p feature_names (build_encoders X_raw) row = Inl e) X_raw"
      unfolding list_ex_iff by (intro bexI[of _ row]) (simp_all add: row_parity)
    with Inl show ?thesis by (simp add: preprocess_features_def Let_def)
  next
    case (Inr X)
    then have "list_all2 (\<lambda>row cells. ?row row = Inr cells) X_raw X" by (simp add: collect_Inr)
    then have "list_all2 (\<lambda>row cells. logistic_failure_probability float_str p feature_names (build_encoders X_raw) row = Inr (p cells)) X_raw X"
      by (rule list_all2_mono) (simp add: row_parity)
    with Inr codes show ?thesis by (simp add: preprocess_features_def Let_def)
  qed
qed

section \<open>Training on an extracted dataset\<close>

lemma numeric_snapshot:
  "row_get (snapshot_dict s) ''amount_minor_units'' = JInt (fs_amount_minor_units s)"
  "row_get (snapshot_dict s) ''hour_of_day'' = JInt (fs_hour_of_day s)"
  "row_get (snapshot_dict s) ''day_of_week'' = JInt (fs_day_of_week s)"
  "row_get (snapshot_dict s) ''global_30m_failure_rate'' = json_opt JFloat (fs_global_30m s)"
  "row_get (snapshot_dict s) ''payment_method_30m_failure_rate'' = json_opt JFloat (fs_payment_method_30m s)"
  by (simp_all add: row_get_def snapshot_dict_def)

text \<open>A reconstructed sample has no text among its numeric features, so encoding it never fails.\<close>

lemma snapshot_cell: "\<exists>x. processed_cell float_str encoders (snapshot_dict s) f = Inr x" if "f \<in> set feature_names"
proof (cases "f \<in> set categorical_features")
  case False
  with that have "f \<in> set numeric_features" by (simp add: feature_names_def)
  then have "\<exists>v. row_get (snapshot_dict s) f \<in> {JInt v} \<or> row_get (snapshot_dict s) f \<in> range (json_opt JFloat)"
    by (auto simp: numeric_features_def numeric_snapshot)
  with False show ?thesis by (auto simp: processed_cell_def json_opt_def split: option.splits)
qed (simp add: processed_cell_def)

lemma collect_total: "(\<And>x. x \<in> set xs \<Longrightarrow> \<exists>y. g x = Inr y) \<Longrightarrow>
    \<exists>r. fold_result (\<lambda>x acc. bind_result (g x) (\<lambda>y. Inr (acc @ [y]))) xs acc = Inr r"
  by (cases "fold_result (\<lambda>x acc. bind_result (g x) (\<lambda>y. Inr (acc @ [y]))) xs acc") (force dest: collect_Inl)+

lemma preprocess_snapshots: "\<exists>X. preprocess_features float_str (map snapshot_dict fs) = Inr (X, feature_names, build_encoders (map snapshot_dict fs))"
proof -
  let ?e = "build_encoders (map snapshot_dict fs)"
  have rows: "\<exists>cells. fold_result (\<lambda>f cells. bind_result (processed_cell float_str ?e row f) (\<lambda>x. Inr (cells @ [x]))) feature_names [] = Inr cells"
    if "row \<in> set (map snapshot_dict fs)" for row
    using that snapshot_cell by (intro collect_total) auto
  have "\<exists>X. fold_result (\<lambda>row rows. bind_result (fold_result (\<lambda>f cells. bind_result (processed_cell float_str ?e row f) (\<lambda>x. Inr (cells @ [x])))
       feature_names []) (\<lambda>cells. Inr (rows @ [cells]))) (map snapshot_dict fs) [] = Inr X"
    by (rule collect_total) (rule rows)
  then obtain X where "fold_result (\<lambda>row rows. bind_result (fold_result (\<lambda>f cells. bind_result (processed_cell float_str ?e row f)
      (\<lambda>x. Inr (cells @ [x]))) feature_names []) (\<lambda>cells. Inr (rows @ [cells]))) (map snapshot_dict fs) [] = Inr X" ..
  then have "preprocess_features float_str (map snapshot_dict fs) = Inr (X, feature_names, ?e)"
    unfolding preprocess_features_def Let_def by (simp only: bind_result_simps)
  then show ?thesis ..
qed

text \<open>A classifier that always fits, to run the pipeline on the example.\<close>

definition example_sklearn :: "unit sklearn" where
  "example_sklearn =
     \<lparr>sk_fit = (\<lambda>X y. Inr ()), sk_calibrate = (\<lambda>split m X y. Inr ()), sk_probabilities = (\<lambda>m X. Inr (map (\<lambda>row. 1 / 2) X)),
      sk_probability = (\<lambda>m row. 1 / 2), sk_scores = (\<lambda>y probs. None)\<rparr>"

definition example_hexdigest :: "digest \<Rightarrow> string" where
  "example_hexdigest d = ''0123456789abcdef''"

lemma example_training_clean:
  "list_all genuine (db_events example_training_db)"
  "example_event ''payment.authorized'' ''pay_1'' 0 \<in> set (authorized_events (\<lambda>u. []) PROVIDER_EVALUATION example_training_db)"
  "terminal_label (\<lambda>u. []) PROVIDER_EVALUATION example_training_db ''pay_1'' (seconds 1) = 1"
  "get_payment_event_by_id example_training_db ''pay_1'' (seconds 1) \<noteq> None"
  by code_simp+

text \<open>The example is extracted, and training on the extraction returns a model.\<close>

lemma example_training_runs:
  "case run_pipeline example_hexdigest (\<lambda>s. None) example_sklearn
     (run_extractions (\<lambda>u. []) example_training_history (new_validator PROVIDER_EVALUATION))
     (snapshot_dataset (\<lambda>u. []) PROVIDER_EVALUATION example_training_db) of Inl e \<Rightarrow> False | Inr r \<Rightarrow> True"
proof -
  let ?db = example_training_db
  let ?es = "authorized_events (\<lambda>u. []) PROVIDER_EVALUATION ?db"
  let ?ds = "snapshot_dataset (\<lambda>u. []) PROVIDER_EVALUATION ?db"
  let ?x = "extract_dataset (\<lambda>u. []) (quiet_session ?db) 0 (new_validator PROVIDER_EVALUATION)"
  have "example_event ''payment.authorized'' ''pay_1'' 0 \<in> set (snapshot_samples (\<lambda>u. []) PROVIDER_EVALUATION ?db ?es)"
    using example_training_clean
    by (simp add: snapshot_samples_def reconstruct_features_def Let_def example_event_def split: option.split)
  then have samples: "ds_times ?ds \<noteq> []" by (auto simp: snapshot_dataset_def dataset_of_def Let_def)
  have "?es \<noteq> []" using example_training_clean(2) by auto
  then obtain w where w: "extraction_window ?es = Some w" by (simp add: extraction_window_def Let_def)
  have "uncontaminated ?db w" using example_training_clean(1) by (auto simp: uncontaminated_def list_all_iff)
  moreover obtain d where d: "compute_dataset_fingerprint ?ds = Inr d"
    by (simp add: compute_dataset_fingerprint_def snapshot_dataset_def dataset_of_def Let_def)
  ultimately have x: "?x = (Inr ?ds, (new_validator PROVIDER_EVALUATION)\<lparr>vd_checked := Some (w, d)\<rparr>)"
    using w by (simp add: extract_dataset_quiet Let_def)
  from x have "fst ?x = Inr ?ds" by simp
  note shape = extract_shape[OF this]
  from shape(3) obtain fs where fs: "ds_X ?ds = map snapshot_dict fs" ..
  from preprocess_snapshots[of "\<lambda>s. None" fs] obtain X where X: "preprocess_features (\<lambda>s. None) (ds_X ?ds) =
      Inr (X, feature_names, build_encoders (map snapshot_dict fs))" unfolding fs by blast
  have version: "provider_model_version (''provider-eval-'' @ take 12 (example_hexdigest d))"
    unfolding example_hexdigest_def by code_simp
  have checked: "require_checked_dataset ((new_validator PROVIDER_EVALUATION)\<lparr>vd_checked := Some (w, d)\<rparr>) ?ds = Inr (w, d)"
    using samples d by (simp add: require_checked_dataset_def)
  show ?thesis
    using x sorted_chronological[OF shape(2)] version
    by (simp add: run_extractions_def example_training_history_def run_pipeline_def checked X new_validator_def[symmetric]
        new_model_def ProviderLogisticRegressionModel_def example_sklearn_def Let_def split: prod.split)
qed

theorem provider_model_from_clean_snapshot_witness:
  "case run_pipeline example_hexdigest (\<lambda>s. None) example_sklearn
     (run_extractions (\<lambda>u. []) example_training_history (new_validator PROVIDER_EVALUATION))
     (snapshot_dataset (\<lambda>u. []) PROVIDER_EVALUATION example_training_db) of
     Inl e \<Rightarrow> False | Inr (trained, metrics, metadata) \<Rightarrow> fm_name trained = ''ProviderLogisticRegressionModel''"
  using provider_model_from_clean_snapshot[where history = example_training_history and uuid_str = "\<lambda>u. []"
      and hexdigest = example_hexdigest and float_str = "\<lambda>s. None" and sk = example_sklearn
      and ds = "snapshot_dataset (\<lambda>u. []) PROVIDER_EVALUATION example_training_db"]
    example_training_runs quiet_session_isolated[of example_training_db]
  by (simp add: example_training_history_def Let_def split: sum.splits prod.splits)

end
