(* ===== verification/ProviderMigration.thy ===== *)
theory ProviderMigration
  imports Attempts
begin

text \<open>
  The two revisions that give every Stage 5-8 row its payment provider
  (\<open>migrations/versions/9d2e4f6a8b1c_stage5_8_provider_identity_expand.py\<close> and
  \<open>e2d3c4b5a6f7_stage5_8_provider_identity_contract.py\<close>): their preflight checks, the resolution of every
  attempt key to its trigger event, the registry, the backfill, the constraints, and the downgrades.

  A table is the list of its rows with the columns the revisions read or write; a preflight check is its code
  with whether its query returns a row. \<open>uuid_str\<close> orders event ids as PostgreSQL orders UUIDs. The text of the
  diagnostics is not modelled.
\<close>

section \<open>Tables\<close>

record keyed_row =
  kr_id :: uuid
  kr_key :: string
  kr_created_at :: datetime
  kr_source :: "string option"

record prediction_row = keyed_row +
  mp_version :: int
  mp_predicted_at :: datetime

record decision_row = keyed_row +
  md_version :: int
  md_prediction_id :: "uuid option"
  md_decided_at :: datetime

record command_row = keyed_row +
  mc_decision_id :: uuid
  mc_decision_version :: int

record observation_row = keyed_row +
  mo_command_id :: uuid
  mo_terminal_event_id :: "uuid option"

record attribution_row = keyed_row +
  ma_command_id :: uuid
  ma_decision_id :: uuid

record execution_row =
  mx_id :: uuid
  mx_command_id :: uuid
  mx_source :: "string option"

record stage_tables =
  st_events :: "payment_event list"
  st_predictions :: "prediction_row list"
  st_decisions :: "decision_row list"
  st_commands :: "command_row list"
  st_executions :: "execution_row list"
  st_observations :: "observation_row list"
  st_attributions :: "attribution_row list"
  st_registry :: "attempt_row list"

datatype migration_error = PreflightFailed string | ConstraintViolation string

text \<open>\<open>p3_require_none\<close> for each check in turn: the first one with an offending row aborts.\<close>

definition require_none :: "(string \<times> bool) list \<Rightarrow> (migration_error, unit) result" where
  "require_none checks = (case find snd checks of None \<Rightarrow> Inr () | Some (code, _) \<Rightarrow> Inl (PreflightFailed code))"

definition create_constraints :: "(string \<times> bool) list \<Rightarrow> (migration_error, unit) result" where
  "create_constraints violated = (case find snd violated of None \<Rightarrow> Inr () | Some (name, _) \<Rightarrow> Inl (ConstraintViolation name))"

section \<open>Resolution of the attempt keys\<close>

definition key_references :: "stage_tables \<Rightarrow> (string \<times> datetime) list" where
  "key_references db =
     map (\<lambda>r. (kr_key r, kr_created_at r)) (st_predictions db) @ map (\<lambda>r. (kr_key r, kr_created_at r)) (st_decisions db) @
     map (\<lambda>r. (kr_key r, kr_created_at r)) (st_commands db) @ map (\<lambda>r. (kr_key r, kr_created_at r)) (st_observations db) @
     map (\<lambda>r. (kr_key r, kr_created_at r)) (st_attributions db)"

definition attempt_keys :: "stage_tables \<Rightarrow> string list" where
  "attempt_keys db = remdups (map fst (key_references db))"

definition minimum :: "datetime list \<Rightarrow> datetime" where
  "minimum xs = fold min (tl xs) (hd xs)"

definition first_created_at :: "stage_tables \<Rightarrow> string \<Rightarrow> datetime" where
  "first_created_at db k = minimum (map snd (filter (\<lambda>r. fst r = k) (key_references db)))"

definition in_table :: "string \<Rightarrow> ('r keyed_row_scheme) list \<Rightarrow> bool" where
  "in_table k rows \<longleftrightarrow> list_ex (\<lambda>r. kr_key r = k) rows"

definition paypal_namespace :: "string \<Rightarrow> bool" where
  "paypal_namespace k \<longleftrightarrow> take 13 k = ''paypal-order:''"

definition key_reference :: "string \<Rightarrow> string" where
  "key_reference k = (if paypal_namespace k then drop 13 k else k)"

definition candidates :: "stage_tables \<Rightarrow> string \<Rightarrow> payment_event list" where
  "candidates db k =
     filter (\<lambda>e. ev_payment_id e = key_reference k \<and>
       (paypal_namespace k \<and> ev_source_system e = ''paypal'' \<and> ev_event_type e = ''order.approved'' \<or>
        \<not> paypal_namespace k \<and> ev_source_system e \<noteq> ''paypal'' \<and> ev_event_type e = ''payment.authorized'')) (st_events db)"

definition SUPPORTED_SOURCES :: "string list" where
  "SUPPORTED_SOURCES = [''razorpay'', ''synthetic'', ''paypal'']"

definition trigger_of :: "(uuid \<Rightarrow> string) \<Rightarrow> stage_tables \<Rightarrow> string \<Rightarrow> payment_event" where
  "trigger_of uuid_str db k = hd (sort_key (\<lambda>e. (ev_ingested_at e, uuid_str (ev_event_id e))) (candidates db k))"

definition resolved :: "(uuid \<Rightarrow> string) \<Rightarrow> stage_tables \<Rightarrow> (string \<times> payment_event) list" where
  "resolved uuid_str db = map (\<lambda>k. (k, trigger_of uuid_str db k)) (filter (\<lambda>k. candidates db k \<noteq> []) (attempt_keys db))"

section \<open>Preflight checks of the expand revision\<close>

definition with_id :: "uuid \<Rightarrow> ('r keyed_row_scheme) list \<Rightarrow> ('r keyed_row_scheme) list" where
  "with_id i rows = filter (\<lambda>r. kr_id r = i) rows"

definition preflight_before_resolution :: "stage_tables \<Rightarrow> (string \<times> bool) list" where
  "preflight_before_resolution db =
    (let keys = attempt_keys db; commands = st_commands db; decisions = st_decisions db; predictions = st_predictions db in
     [(''PF-01'', list_ex (\<lambda>k. list_ex (\<lambda>e. ev_source_system e \<notin> set SUPPORTED_SOURCES) (candidates db k)) keys),
      (''PF-02'', list_ex (\<lambda>k. k = [] \<or> paypal_namespace k \<and> \<not> is_paypal_identifier (key_reference k)) keys),
      (''PF-03'', list_ex (\<lambda>e. ev_source_system e \<noteq> ''paypal'' \<and> take 13 (ev_payment_id e) = ''paypal-order:'') (st_events db)),
      (''PF-04'', list_ex (\<lambda>k. candidates db k = []) keys),
      (''PF-05'', list_ex (\<lambda>k. 1 < length (remdups (map ev_source_system (candidates db k)))) keys),
      (''PF-06'', list_ex (\<lambda>k. (in_table k (st_observations db) \<or> in_table k (st_attributions db)) \<and> \<not> in_table k commands) keys),
      (''PF-07'', list_ex (\<lambda>d. case md_prediction_id d of None \<Rightarrow> False | Some i \<Rightarrow> with_id i predictions = []) decisions),
      (''PF-08'', list_ex (\<lambda>d. case md_prediction_id d of None \<Rightarrow> False
                       | Some i \<Rightarrow> list_ex (\<lambda>p. kr_key p \<noteq> kr_key d) (with_id i predictions)) decisions),
      (''PF-09'', list_ex (\<lambda>c. with_id (mc_decision_id c) decisions = []) commands),
      (''PF-10'', list_ex (\<lambda>c. list_ex (\<lambda>d. kr_key d \<noteq> kr_key c \<or> md_version d \<noteq> mc_decision_version c)
                       (with_id (mc_decision_id c) decisions)) commands),
      (''PF-11'', list_ex (\<lambda>x. with_id (mx_command_id x) commands = []) (st_executions db)),
      (''PF-12'', list_ex (\<lambda>q. with_id (mo_command_id q) commands = [] \<or>
                       list_ex (\<lambda>c. kr_key c \<noteq> kr_key q) (with_id (mo_command_id q) commands)) (st_observations db)),
      (''PF-13'', list_ex (\<lambda>a. with_id (ma_command_id a) commands = [] \<or>
                       list_ex (\<lambda>c. mc_decision_id c \<noteq> ma_decision_id a \<or> kr_key c \<noteq> kr_key a) (with_id (ma_command_id a) commands))
                       (st_attributions db)),
      (''PF-14'', list_ex (\<lambda>a. with_id (ma_decision_id a) decisions = [] \<or>
                       list_ex (\<lambda>d. kr_key d \<noteq> kr_key a) (with_id (ma_decision_id a) decisions)) (st_attributions db))])"

text \<open>Whether the terminal event of an observation is wrong for the resolved attempt.\<close>

definition wrong_terminal_event :: "stage_tables \<Rightarrow> uuid \<Rightarrow> payment_event \<Rightarrow> bool" where
  "wrong_terminal_event db i r \<longleftrightarrow>
     (case filter (\<lambda>e. ev_event_id e = i) (st_events db) of
        [] \<Rightarrow> True
      | es \<Rightarrow> list_ex (\<lambda>e. ev_source_system e \<noteq> ev_source_system r \<or>
                 ev_event_type e \<notin> {''payment.captured'', ''payment.failed''} \<or>
                 (if ev_source_system r = ''paypal'' then ev_order_id e \<noteq> Some (ev_payment_id r)
                  else ev_payment_id e \<noteq> ev_payment_id r)) es)"

definition preflight_after_resolution :: "(uuid \<Rightarrow> string) \<Rightarrow> stage_tables \<Rightarrow> (string \<times> bool) list" where
  "preflight_after_resolution uuid_str db =
    (let rs = resolved uuid_str db in
     [(''PF-15'', list_ex (\<lambda>q. case mo_terminal_event_id q of None \<Rightarrow> False
                       | Some i \<Rightarrow> list_ex (\<lambda>(k, r). k = kr_key q \<and> wrong_terminal_event db i r) rs) (st_observations db)),
      (''PF-16'', \<not> distinct (map (\<lambda>(k, r). (ev_source_system r, ev_payment_id r)) rs)),
      (''PF-17'', list_ex (\<lambda>(k, r). (ev_source_system r = ''paypal'') \<noteq> paypal_namespace k \<or> ev_payment_id r \<noteq> key_reference k \<or>
                       ev_source_system r \<notin> set SUPPORTED_SOURCES) rs)])"

text \<open>PT-01, a warning: the keys whose trigger was ingested after their first prediction or decision.\<close>

definition suspicious_trigger_timing :: "(uuid \<Rightarrow> string) \<Rightarrow> stage_tables \<Rightarrow> string list" where
  "suspicious_trigger_timing uuid_str db =
     sort_key (\<lambda>k. k) (map fst (filter (\<lambda>(k, r).
       let logical = map mp_predicted_at (filter (\<lambda>p. kr_key p = k) (st_predictions db)) @
                     map md_decided_at (filter (\<lambda>d. kr_key d = k) (st_decisions db))
       in logical \<noteq> [] \<and> minimum logical < ev_ingested_at r) (resolved uuid_str db)))"

section \<open>Expand\<close>

definition new_registry_row :: "stage_tables \<Rightarrow> string \<times> payment_event \<Rightarrow> attempt_row" where
  "new_registry_row db = (\<lambda>(k, r).
     \<lparr>at_payment_attempt_id = k, at_source_system = ev_source_system r, at_provider_reference = ev_payment_id r,
      at_trigger_event_id = ev_event_id r, at_registered_at = first_created_at db k\<rparr>)"

definition namespace_check :: "attempt_row \<Rightarrow> bool" where
  "namespace_check r \<longleftrightarrow>
     (if at_source_system r = ''paypal''
      then is_paypal_identifier (at_provider_reference r) \<and> at_payment_attempt_id r = ''paypal-order:'' @ at_provider_reference r
      else at_provider_reference r \<noteq> [] \<and> at_payment_attempt_id r = at_provider_reference r \<and>
           take 13 (at_payment_attempt_id r) \<noteq> ''paypal-order:'')"

text \<open>The constraints of the new table and the unique constraint it refers to, with whether the rows violate them.\<close>

definition registry_violations :: "payment_event list \<Rightarrow> attempt_row list \<Rightarrow> (string \<times> bool) list" where
  "registry_violations events rows =
     [(''uq_payment_event_provider'', \<not> distinct (map (\<lambda>e. (ev_event_id e, ev_source_system e)) events)),
      (''payment_attempts_pkey'', \<not> distinct (map at_payment_attempt_id rows)),
      (''uq_payment_attempt_provider'', \<not> distinct (map (\<lambda>r. (at_payment_attempt_id r, at_source_system r)) rows)),
      (''uq_payment_attempt_reference'', \<not> distinct (map (\<lambda>r. (at_source_system r, at_provider_reference r)) rows)),
      (''ck_payment_attempt_source_system'', list_ex (\<lambda>r. at_source_system r \<notin> set SUPPORTED_SOURCES) rows),
      (''ck_payment_attempt_namespace'', list_ex (\<lambda>r. \<not> namespace_check r) rows),
      (''fk_payment_attempt_trigger'', list_ex (\<lambda>r. \<not> list_ex (\<lambda>e. ev_event_id e = at_trigger_event_id r \<and>
          ev_source_system e = at_source_system r) events) rows)]"

definition provider_of :: "attempt_row list \<Rightarrow> string \<Rightarrow> string option" where
  "provider_of registry k = map_option at_source_system (find (\<lambda>r. at_payment_attempt_id r = k) registry)"

text \<open>\<open>add_column(nullable)\<close> followed by the \<open>UPDATE\<close> from the registry.\<close>

definition backfill :: "attempt_row list \<Rightarrow> ('r keyed_row_scheme) list \<Rightarrow> ('r keyed_row_scheme) list" where
  "backfill registry rows = map (\<lambda>r. r\<lparr>kr_source := provider_of registry (kr_key r)\<rparr>) rows"

definition backfill_executions :: "command_row list \<Rightarrow> execution_row list \<Rightarrow> execution_row list" where
  "backfill_executions commands rows =
     map (\<lambda>x. x\<lparr>mx_source := Option.bind (find (\<lambda>c. kr_id c = mx_command_id x) commands) kr_source\<rparr>) rows"

definition backfill_all :: "stage_tables \<Rightarrow> stage_tables" where
  "backfill_all db =
     (let reg = st_registry db; commands = backfill reg (st_commands db)
      in db\<lparr>st_predictions := backfill reg (st_predictions db), st_decisions := backfill reg (st_decisions db),
            st_commands := commands, st_observations := backfill reg (st_observations db),
            st_attributions := backfill reg (st_attributions db),
            st_executions := backfill_executions commands (st_executions db)\<rparr>)"

definition missing_sources :: "stage_tables \<Rightarrow> (string \<times> bool) list" where
  "missing_sources db =
     [(''PF-19'', list_ex (\<lambda>r. kr_source r = None) (st_predictions db)), (''PF-19'', list_ex (\<lambda>r. kr_source r = None) (st_decisions db)),
      (''PF-19'', list_ex (\<lambda>r. kr_source r = None) (st_commands db)), (''PF-19'', list_ex (\<lambda>r. kr_source r = None) (st_observations db)),
      (''PF-19'', list_ex (\<lambda>r. kr_source r = None) (st_attributions db)), (''PF-19'', list_ex (\<lambda>r. mx_source r = None) (st_executions db))]"

definition expand_upgrade :: "(uuid \<Rightarrow> string) \<Rightarrow> stage_tables \<Rightarrow> (migration_error, stage_tables) result" where
  "expand_upgrade uuid_str db =
     bind_result (require_none (preflight_before_resolution db)) (\<lambda>_.
     bind_result (require_none (preflight_after_resolution uuid_str db)) (\<lambda>_.
     let registry = map (new_registry_row db) (resolved uuid_str db); db1 = db\<lparr>st_registry := registry\<rparr> in
     bind_result (create_constraints (registry_violations (st_events db) registry)) (\<lambda>_.
     bind_result (require_none [(''PF-18'', list_ex (\<lambda>k. \<not> list_ex (\<lambda>r. at_payment_attempt_id r = k) registry) (attempt_keys db))]) (\<lambda>_.
     let db2 = backfill_all db1 in
     bind_result (require_none (missing_sources db2)) (\<lambda>_. Inr db2)))))"

text \<open>The downgrade drops the columns and the registry.\<close>

definition expand_downgrade :: "stage_tables \<Rightarrow> stage_tables" where
  "expand_downgrade db =
     db\<lparr>st_predictions := map (\<lambda>r. r\<lparr>kr_source := None\<rparr>) (st_predictions db), st_decisions := map (\<lambda>r. r\<lparr>kr_source := None\<rparr>) (st_decisions db),
        st_commands := map (\<lambda>r. r\<lparr>kr_source := None\<rparr>) (st_commands db), st_observations := map (\<lambda>r. r\<lparr>kr_source := None\<rparr>) (st_observations db),
        st_attributions := map (\<lambda>r. r\<lparr>kr_source := None\<rparr>) (st_attributions db),
        st_executions := map (\<lambda>x. x\<lparr>mx_source := None\<rparr>) (st_executions db), st_registry := []\<rparr>"

section \<open>Contract\<close>

definition unregistered :: "attempt_row list \<Rightarrow> ('r keyed_row_scheme) list \<Rightarrow> bool" where
  "unregistered registry rows \<longleftrightarrow>
     list_ex (\<lambda>r. \<not> list_ex (\<lambda>a. at_payment_attempt_id a = kr_key r \<and> Some (at_source_system a) = kr_source r) registry) rows"

text \<open>\<open>x <> y\<close> is not true when either side is \<open>NULL\<close>.\<close>

definition sql_differs :: "string option \<Rightarrow> string option \<Rightarrow> bool" where
  "sql_differs x y \<longleftrightarrow> x \<noteq> None \<and> y \<noteq> None \<and> x \<noteq> y"

definition contract_preflight :: "stage_tables \<Rightarrow> (string \<times> bool) list" where
  "contract_preflight db =
    (let reg = st_registry db; commands = st_commands db; decisions = st_decisions db in
     [(''PF-B01'', list_ex (\<lambda>r. kr_source r = None) (st_predictions db)), (''PF-B02'', list_ex (\<lambda>r. kr_source r = None) decisions),
      (''PF-B03'', list_ex (\<lambda>r. kr_source r = None) commands), (''PF-B04'', list_ex (\<lambda>x. mx_source x = None) (st_executions db)),
      (''PF-B05'', list_ex (\<lambda>r. kr_source r = None) (st_observations db)), (''PF-B06'', list_ex (\<lambda>r. kr_source r = None) (st_attributions db)),
      (''PF-B07'', unregistered reg (st_predictions db)), (''PF-B08'', unregistered reg decisions), (''PF-B09'', unregistered reg commands),
      (''PF-B10'', unregistered reg (st_observations db)), (''PF-B11'', unregistered reg (st_attributions db)),
      (''PF-B12'', list_ex (\<lambda>c. list_ex (\<lambda>d. sql_differs (kr_source c) (kr_source d)) (with_id (mc_decision_id c) decisions)) commands),
      (''PF-B13'', list_ex (\<lambda>x. list_ex (\<lambda>c. sql_differs (mx_source x) (kr_source c)) (with_id (mx_command_id x) commands)) (st_executions db)),
      (''PF-B14'', list_ex (\<lambda>q. list_ex (\<lambda>c. sql_differs (kr_source q) (kr_source c)) (with_id (mo_command_id q) commands)) (st_observations db)),
      (''PF-B15'', list_ex (\<lambda>a. list_ex (\<lambda>c. sql_differs (kr_source a) (kr_source c)) (with_id (ma_command_id a) commands)) (st_attributions db)),
      (''PF-B16'', list_ex (\<lambda>a. list_ex (\<lambda>d. sql_differs (kr_source a) (kr_source d)) (with_id (ma_decision_id a) decisions)) (st_attributions db)),
      (''PF-B17'', \<not> distinct (map (\<lambda>p. (kr_key p, kr_source p, mp_version p)) (st_predictions db))),
      (''PF-B18'', \<not> distinct (map (\<lambda>d. (kr_key d, kr_source d, md_version d)) decisions)),
      (''PF-B19'', \<not> distinct (map (\<lambda>c. (kr_key c, kr_source c, mc_decision_version c)) commands))])"

definition refers :: "(uuid \<times> string option) list \<Rightarrow> (uuid \<times> string option) list \<Rightarrow> bool" where
  "refers links targets \<longleftrightarrow> set links \<subseteq> set targets"

definition id_sources :: "('r keyed_row_scheme) list \<Rightarrow> (uuid \<times> string option) list" where
  "id_sources rows = map (\<lambda>r. (kr_id r, kr_source r)) rows"

definition contract_constraints :: "stage_tables \<Rightarrow> (string \<times> bool) list" where
  "contract_constraints db =
    (let reg = st_registry db; predictions = st_predictions db; commands = st_commands db; decisions = st_decisions db in
     [(''source_system NOT NULL'', list_ex snd (take 6 (contract_preflight db))),
      (''uq_failure_prediction_version'', \<not> distinct (map (\<lambda>p. (kr_key p, kr_source p, mp_version p)) predictions)),
      (''uq_intervention_decision_version'', \<not> distinct (map (\<lambda>d. (kr_key d, kr_source d, md_version d)) decisions)),
      (''uq_cmd_attempt_version'', \<not> distinct (map (\<lambda>c. (kr_key c, kr_source c, mc_decision_version c)) commands)),
      (''uq_failure_prediction_provider'', \<not> distinct (id_sources predictions)),
      (''uq_intervention_decision_provider'', \<not> distinct (id_sources decisions)),
      (''uq_cmd_provider'', \<not> distinct (id_sources commands)),
      (''fk_failure_predictions_payment_attempt'', unregistered reg predictions),
      (''fk_intervention_decisions_payment_attempt'', unregistered reg decisions),
      (''fk_intervention_commands_payment_attempt'', unregistered reg commands),
      (''fk_payment_outcome_observations_payment_attempt'', unregistered reg (st_observations db)),
      (''fk_counterfactual_attributions_payment_attempt'', unregistered reg (st_attributions db)),
      (''fk_attribution_command'', \<not> refers (map (\<lambda>a. (ma_command_id a, kr_source a)) (st_attributions db)) (id_sources commands)),
      (''fk_attribution_decision'', \<not> refers (map (\<lambda>a. (ma_decision_id a, kr_source a)) (st_attributions db)) (id_sources decisions)),
      (''fk_command_decision'', \<not> refers (map (\<lambda>c. (mc_decision_id c, kr_source c)) commands) (id_sources decisions)),
      (''fk_exec_attempt_command'', \<not> refers (map (\<lambda>x. (mx_command_id x, mx_source x)) (st_executions db)) (id_sources commands)),
      (''fk_observation_command'', \<not> refers (map (\<lambda>q. (mo_command_id q, kr_source q)) (st_observations db)) (id_sources commands))])"

definition contract_upgrade :: "stage_tables \<Rightarrow> (migration_error, stage_tables) result" where
  "contract_upgrade db =
     bind_result (require_none (contract_preflight db)) (\<lambda>_.
     bind_result (create_constraints (contract_constraints db)) (\<lambda>_. Inr db))"

section \<open>What the expand revision leaves\<close>

lemma find_snd: "list_all (\<lambda>c. \<not> snd c) checks \<longleftrightarrow> find snd checks = None"
  by (induction checks) auto

lemma require_none_Inr [simp]: "require_none checks = Inr u \<longleftrightarrow> list_all (\<lambda>c. \<not> snd c) checks"
  using find_snd[of checks] by (auto simp: require_none_def split: option.splits)

lemma create_constraints_Inr [simp]: "create_constraints checks = Inr u \<longleftrightarrow> list_all (\<lambda>c. \<not> snd c) checks"
  using find_snd[of checks] by (auto simp: create_constraints_def split: option.splits)

text \<open>The primary keys and unique constraints of the schema before the revisions.\<close>

definition old_schema :: "stage_tables \<Rightarrow> bool" where
  "old_schema db \<longleftrightarrow>
     distinct (map ev_event_id (st_events db)) \<and> distinct (map kr_id (st_predictions db)) \<and>
     distinct (map kr_id (st_decisions db)) \<and> distinct (map kr_id (st_commands db)) \<and>
     distinct (map (\<lambda>p. (kr_key p, mp_version p)) (st_predictions db)) \<and>
     distinct (map (\<lambda>d. (kr_key d, md_version d)) (st_decisions db)) \<and>
     distinct (map (\<lambda>c. (kr_key c, mc_decision_version c)) (st_commands db))"

lemma paypal_namespace_prefix: "paypal_namespace k \<longleftrightarrow> prefix PAYPAL_ATTEMPT_PREFIX k"
proof -
  have "prefix p k \<longleftrightarrow> take (length p) k = p" for p by (metis append_eq_conv_conj prefix_def)
  from this[of "''paypal-order:''"] show ?thesis by (simp add: paypal_namespace_def PAYPAL_ATTEMPT_PREFIX_def eval_nat_numeral)
qed

lemma trigger_in:
  assumes "candidates db k \<noteq> []"
  shows "trigger_of uuid_str db k \<in> set (candidates db k)"
proof -
  have "hd (sort_key f (candidates db k)) \<in> set (sort_key f (candidates db k))" for f :: "payment_event \<Rightarrow> int \<times> string"
    using assms by (intro hd_in_set) (metis length_0_conv length_sort)
  then show ?thesis by (simp add: trigger_of_def)
qed

lemma in_attempt_keys:
  "k \<in> set (attempt_keys db) \<longleftrightarrow>
     k \<in> kr_key ` set (st_predictions db) \<or> k \<in> kr_key ` set (st_decisions db) \<or> k \<in> kr_key ` set (st_commands db) \<or>
     k \<in> kr_key ` set (st_observations db) \<or> k \<in> kr_key ` set (st_attributions db)"
  by (auto simp: attempt_keys_def key_references_def image_iff)

text \<open>When the checks pass: the source of a key, and the new registry.\<close>

definition preflighted :: "(uuid \<Rightarrow> string) \<Rightarrow> stage_tables \<Rightarrow> bool" where
  "preflighted uuid_str db \<longleftrightarrow>
     list_all (\<lambda>c. \<not> snd c) (preflight_before_resolution db) \<and> list_all (\<lambda>c. \<not> snd c) (preflight_after_resolution uuid_str db)"

definition source_of :: "(uuid \<Rightarrow> string) \<Rightarrow> stage_tables \<Rightarrow> string \<Rightarrow> string" where
  "source_of uuid_str db k = ev_source_system (trigger_of uuid_str db k)"

definition new_registry :: "(uuid \<Rightarrow> string) \<Rightarrow> stage_tables \<Rightarrow> attempt_row list" where
  "new_registry uuid_str db = map (new_registry_row db) (resolved uuid_str db)"

lemma passed_before: "preflighted u db \<Longrightarrow> (c, True) \<notin> set (preflight_before_resolution db)"
  and passed_after: "preflighted u db \<Longrightarrow> (c, True) \<notin> set (preflight_after_resolution u db)"
  by (auto simp: preflighted_def list_all_iff)

lemma keys_resolved: "preflighted u db \<Longrightarrow> k \<in> set (attempt_keys db) \<Longrightarrow> candidates db k \<noteq> []"
  by (auto simp: preflighted_def preflight_before_resolution_def Let_def list_ex_iff)

lemma resolved_all:
  assumes "preflighted uuid_str db"
  shows "resolved uuid_str db = map (\<lambda>k. (k, trigger_of uuid_str db k)) (attempt_keys db)"
proof -
  have "filter (\<lambda>k. candidates db k \<noteq> []) (attempt_keys db) = attempt_keys db"
    using keys_resolved[OF assms] by (intro filter_True) auto
  then show ?thesis by (simp add: resolved_def)
qed

lemma trigger:
  assumes ok: "preflighted uuid_str db" and k: "k \<in> set (attempt_keys db)"
  shows "trigger_of uuid_str db k \<in> set (st_events db)" "ev_payment_id (trigger_of uuid_str db k) = key_reference k"
    "source_of uuid_str db k \<in> set SUPPORTED_SOURCES" "source_of uuid_str db k = ''paypal'' \<longleftrightarrow> paypal_namespace k"
proof -
  from trigger_in[OF keys_resolved[OF ok k], of uuid_str]
  show "trigger_of uuid_str db k \<in> set (st_events db)" "ev_payment_id (trigger_of uuid_str db k) = key_reference k"
    "source_of uuid_str db k = ''paypal'' \<longleftrightarrow> paypal_namespace k" by (auto simp: candidates_def source_of_def)
  show "source_of uuid_str db k \<in> set SUPPORTED_SOURCES"
    using trigger_in[OF keys_resolved[OF ok k], of uuid_str] assms
    by (auto simp: preflighted_def preflight_before_resolution_def Let_def list_ex_iff source_of_def)
qed

lemma key_format: "preflighted u db \<Longrightarrow> k \<in> set (attempt_keys db) \<Longrightarrow> k \<noteq> [] \<and> (paypal_namespace k \<longrightarrow> is_paypal_identifier (key_reference k))"
  by (auto simp: preflighted_def preflight_before_resolution_def Let_def list_ex_iff)

lemma registry_keys: "preflighted uuid_str db \<Longrightarrow> map at_payment_attempt_id (new_registry uuid_str db) = attempt_keys db"
  by (simp add: new_registry_def resolved_all new_registry_row_def comp_def)

lemma provider_registry:
  assumes "preflighted uuid_str db"
  shows "provider_of (new_registry uuid_str db) k = (if k \<in> set (attempt_keys db) then Some (source_of uuid_str db k) else None)"
proof -
  have "map_option at_source_system (find (\<lambda>r. at_payment_attempt_id r = k) (map (\<lambda>k. new_registry_row db (k, trigger_of uuid_str db k)) ks)) =
      (if k \<in> set ks then Some (source_of uuid_str db k) else None)" for ks
    by (induction ks) (auto simp: new_registry_row_def source_of_def)
  then show ?thesis by (simp add: provider_of_def new_registry_def resolved_all[OF assms] comp_def)
qed

text \<open>No constraint of the new table can fail once the checks have passed.\<close>

lemma registry_constraints_hold:
  assumes ok: "preflighted uuid_str db" and schema: "old_schema db"
  shows "list_all (\<lambda>c. \<not> snd c) (registry_violations (st_events db) (new_registry uuid_str db))"
proof -
  let ?reg = "new_registry uuid_str db"
  have rows: "\<exists>k. k \<in> set (attempt_keys db) \<and> r = new_registry_row db (k, trigger_of uuid_str db k)" if "r \<in> set ?reg" for r
    using that by (auto simp: new_registry_def resolved_all[OF ok])
  have keys: "distinct (map at_payment_attempt_id ?reg)" unfolding registry_keys[OF ok] by (simp add: attempt_keys_def)
  then have "distinct (map (\<lambda>r. (at_payment_attempt_id r, at_source_system r)) ?reg)"
    by (auto simp: distinct_map inj_on_def)
  moreover have "distinct (map (\<lambda>r. (at_source_system r, at_provider_reference r)) ?reg)"
    using ok by (simp add: preflighted_def preflight_after_resolution_def new_registry_def Let_def comp_def new_registry_row_def case_prod_beta')
  moreover have "distinct (map (\<lambda>e. (ev_event_id e, ev_source_system e)) (st_events db))"
    using schema by (auto simp: old_schema_def distinct_map inj_on_def)
  ultimately have unique: "distinct (map (\<lambda>r. (at_payment_attempt_id r, at_source_system r)) ?reg)"
    "distinct (map (\<lambda>r. (at_source_system r, at_provider_reference r)) ?reg)"
    "distinct (map (\<lambda>e. (ev_event_id e, ev_source_system e)) (st_events db))" by blast+
  have supported: "at_source_system r \<in> set SUPPORTED_SOURCES" if "r \<in> set ?reg" for r
    using rows[OF that] trigger(3)[OF ok] by (auto simp: new_registry_row_def source_of_def)
  have namespace: "namespace_check r" if "r \<in> set ?reg" for r
  proof -
    from rows[OF that] obtain k where k: "k \<in> set (attempt_keys db)" "r = new_registry_row db (k, trigger_of uuid_str db k)" by blast
    have "paypal_namespace k \<Longrightarrow> ''paypal-order:'' @ drop 13 k = k"
      by (metis append_take_drop_id paypal_namespace_def)
    with trigger[OF ok k(1)] key_format[OF ok k(1)] show ?thesis
      by (cases "paypal_namespace k")
        (simp_all add: k(2) namespace_check_def new_registry_row_def source_of_def key_reference_def paypal_namespace_def)
  qed
  have triggers: "list_ex (\<lambda>e. ev_event_id e = at_trigger_event_id r \<and> ev_source_system e = at_source_system r) (st_events db)"
    if "r \<in> set ?reg" for r
  proof -
    from rows[OF that] obtain k where k: "k \<in> set (attempt_keys db)" "r = new_registry_row db (k, trigger_of uuid_str db k)" by blast
    then show ?thesis unfolding list_ex_iff by (intro bexI[OF _ trigger(1)[OF ok k(1)]]) (simp add: new_registry_row_def)
  qed
  have "\<not> list_ex (\<lambda>r. at_source_system r \<notin> set SUPPORTED_SOURCES) ?reg" "\<not> list_ex (\<lambda>r. \<not> namespace_check r) ?reg"
    using supported namespace by (auto simp: list_ex_iff)
  moreover have "\<not> list_ex (\<lambda>r. \<not> list_ex (\<lambda>e. ev_event_id e = at_trigger_event_id r \<and> ev_source_system e = at_source_system r)
      (st_events db)) ?reg"
    using triggers by (subst list_ex_iff) blast
  ultimately show ?thesis using keys unique by (simp only: registry_violations_def list.pred_inject snd_conv not_not) simp
qed

section \<open>The backfill\<close>

lemma backfill_member:
  "r \<in> set (backfill reg rows) \<longleftrightarrow> (\<exists>q\<in>set rows. r = q\<lparr>kr_source := provider_of reg (kr_key q)\<rparr>)"
  by (auto simp: backfill_def)

lemma backfill_source: "r \<in> set (backfill reg rows) \<Longrightarrow> kr_source r = provider_of reg (kr_key r)"
  by (auto simp: backfill_member)

lemma with_id_backfill: "with_id i (backfill reg rows) = backfill reg (with_id i rows)"
  by (simp add: with_id_def backfill_def filter_map comp_def)

lemma backfill_Nil [simp]: "backfill reg rows = [] \<longleftrightarrow> rows = []"
  by (simp add: backfill_def)

lemma backfill_columns [simp]:
  "map kr_id (backfill reg rows) = map kr_id rows" "map kr_key (backfill reg rows) = map kr_key rows"
  by (simp_all add: backfill_def comp_def)

lemma find_backfill:
  "find (\<lambda>c. kr_id c = i) (backfill reg rows) = map_option (\<lambda>q. q\<lparr>kr_source := provider_of reg (kr_key q)\<rparr>) (find (\<lambda>c. kr_id c = i) rows)"
  unfolding backfill_def by (induction rows) auto

lemma with_id_find: "distinct (map kr_id rows) \<Longrightarrow> with_id i rows = (case find (\<lambda>r. kr_id r = i) rows of None \<Rightarrow> [] | Some r \<Rightarrow> [r])"
proof (induction rows)
  case (Cons a rows)
  have "with_id (kr_id a) rows = []" using Cons.prems by (auto simp: with_id_def filter_empty_conv image_iff)
  with Cons show ?case by (auto simp: with_id_def)
qed (simp add: with_id_def)

definition expanded :: "(uuid \<Rightarrow> string) \<Rightarrow> stage_tables \<Rightarrow> stage_tables" where
  "expanded uuid_str db = backfill_all (db\<lparr>st_registry := new_registry uuid_str db\<rparr>)"

lemma expanded_tables:
  "st_events (expanded u db) = st_events db" "st_registry (expanded u db) = new_registry u db"
  "st_predictions (expanded u db) = backfill (new_registry u db) (st_predictions db)"
  "st_decisions (expanded u db) = backfill (new_registry u db) (st_decisions db)"
  "st_commands (expanded u db) = backfill (new_registry u db) (st_commands db)"
  "st_observations (expanded u db) = backfill (new_registry u db) (st_observations db)"
  "st_attributions (expanded u db) = backfill (new_registry u db) (st_attributions db)"
  "st_executions (expanded u db) = backfill_executions (backfill (new_registry u db) (st_commands db)) (st_executions db)"
  by (simp_all add: expanded_def backfill_all_def Let_def)

lemma provider_Some:
  assumes "preflighted u db" "k \<in> set (attempt_keys db)"
  shows "provider_of (new_registry u db) k = Some (source_of u db k)"
  using assms by (simp add: provider_registry)

lemma rows_sourced:
  assumes "preflighted u db" "kr_key ` set rows \<subseteq> set (attempt_keys db)" "r \<in> set (backfill (new_registry u db) rows)"
  shows "kr_source r = Some (source_of u db (kr_key r))"
  using assms provider_Some[OF assms(1)] by (auto simp: backfill_member)

lemma tables_keys:
  "kr_key ` set (st_predictions db) \<subseteq> set (attempt_keys db)" "kr_key ` set (st_decisions db) \<subseteq> set (attempt_keys db)"
  "kr_key ` set (st_commands db) \<subseteq> set (attempt_keys db)" "kr_key ` set (st_observations db) \<subseteq> set (attempt_keys db)"
  "kr_key ` set (st_attributions db) \<subseteq> set (attempt_keys db)"
  by (auto simp: in_attempt_keys)

lemma preflight_links:
  assumes "preflighted u db"
  shows "c \<in> set (st_commands db) \<Longrightarrow> with_id (mc_decision_id c) (st_decisions db) \<noteq> []"
    and "c \<in> set (st_commands db) \<Longrightarrow> d \<in> set (with_id (mc_decision_id c) (st_decisions db)) \<Longrightarrow> kr_key d = kr_key c"
    and "x \<in> set (st_executions db) \<Longrightarrow> with_id (mx_command_id x) (st_commands db) \<noteq> []"
    and "q \<in> set (st_observations db) \<Longrightarrow> with_id (mo_command_id q) (st_commands db) \<noteq> []"
    and "q \<in> set (st_observations db) \<Longrightarrow> c \<in> set (with_id (mo_command_id q) (st_commands db)) \<Longrightarrow> kr_key c = kr_key q"
    and "a \<in> set (st_attributions db) \<Longrightarrow> with_id (ma_command_id a) (st_commands db) \<noteq> []"
    and "a \<in> set (st_attributions db) \<Longrightarrow> c \<in> set (with_id (ma_command_id a) (st_commands db)) \<Longrightarrow> kr_key c = kr_key a"
    and "a \<in> set (st_attributions db) \<Longrightarrow> with_id (ma_decision_id a) (st_decisions db) \<noteq> []"
    and "a \<in> set (st_attributions db) \<Longrightarrow> d \<in> set (with_id (ma_decision_id a) (st_decisions db)) \<Longrightarrow> kr_key d = kr_key a"
  using assms unfolding preflighted_def preflight_before_resolution_def Let_def list.pred_inject snd_conv list_ex_iff by blast+

lemma execution_source:
  assumes "preflighted u db" "old_schema db" "x \<in> set (st_executions (expanded u db))"
  shows "\<exists>c\<in>set (st_commands (expanded u db)). kr_id c = mx_command_id x \<and> mx_source x = kr_source c \<and>
      with_id (mx_command_id x) (st_commands (expanded u db)) = [c]"
proof -
  let ?commands = "st_commands (expanded u db)"
  from assms(3) obtain y where y: "y \<in> set (st_executions db)" "mx_command_id x = mx_command_id y"
    "mx_source x = Option.bind (find (\<lambda>c. kr_id c = mx_command_id y) ?commands) kr_source"
    by (auto simp: expanded_tables backfill_executions_def)
  have "distinct (map kr_id ?commands)" using assms(2) by (simp add: expanded_tables old_schema_def)
  note one = with_id_find[OF this, of "mx_command_id y"]
  have "with_id (mx_command_id y) ?commands \<noteq> []"
    using preflight_links(3)[OF assms(1) y(1)] by (simp add: expanded_tables with_id_backfill)
  with one obtain c where "find (\<lambda>c. kr_id c = mx_command_id y) ?commands = Some c" by (auto split: option.splits)
  with one y(2,3) show ?thesis by (auto dest: find_SomeD)
qed

lemma none_missing:
  assumes "preflighted u db" "kr_key ` set rows \<subseteq> set (attempt_keys db)"
  shows "\<not> list_ex (\<lambda>r. kr_source r = None) (backfill (new_registry u db) rows)"
  using rows_sourced[OF assms] by (auto simp: list_ex_iff)

text \<open>Nothing fails once the preflight has passed.\<close>

lemma expand_total:
  assumes "preflighted u db" "old_schema db"
  shows "expand_upgrade u db = Inr (expanded u db)"
proof -
  have keys: "\<not> list_ex (\<lambda>k. \<not> list_ex (\<lambda>r. at_payment_attempt_id r = k) (new_registry u db)) (attempt_keys db)"
    using registry_keys[OF assms(1), symmetric] by (auto simp: list_ex_iff)
  have "\<not> list_ex (\<lambda>x. mx_source x = None) (st_executions (expanded u db))"
    using execution_source[OF assms] rows_sourced[OF assms(1) tables_keys(3)] by (fastforce simp: list_ex_iff expanded_tables)
  then have "list_all (\<lambda>c. \<not> snd c) (missing_sources (expanded u db))"
    by (simp add: missing_sources_def expanded_tables none_missing[OF assms(1)] tables_keys)
  with assms keys registry_constraints_hold[OF assms] show ?thesis
    unfolding preflighted_def
    by (simp add: expand_upgrade_def new_registry_def[symmetric] expanded_def[symmetric] Let_def result_simps)
qed

section \<open>The contract revision after the expand revision\<close>

lemma registered_rows:
  assumes "preflighted u db" "kr_key ` set rows \<subseteq> set (attempt_keys db)"
  shows "\<not> unregistered (new_registry u db) (backfill (new_registry u db) rows)"
proof -
  have "list_ex (\<lambda>a. at_payment_attempt_id a = kr_key r \<and> Some (at_source_system a) = kr_source r) (new_registry u db)"
    if r: "r \<in> set (backfill (new_registry u db) rows)" for r
  proof -
    have "kr_source r \<noteq> None" using rows_sourced[OF assms r] by simp
    with backfill_source[OF r] obtain a where a: "find (\<lambda>a. at_payment_attempt_id a = kr_key r) (new_registry u db) = Some a"
      "kr_source r = Some (at_source_system a)" by (auto simp: provider_of_def)
    from find_SomeD[OF a(1)] a(2) show ?thesis by (auto simp: list_ex_iff)
  qed
  then show ?thesis by (auto simp: unregistered_def list_ex_iff)
qed

lemma same_key_source:
  "r \<in> set (backfill reg rows) \<Longrightarrow> q \<in> set (backfill reg rows') \<Longrightarrow> kr_key r = kr_key q \<Longrightarrow> kr_source r = kr_source q"
  by (simp add: backfill_source)

lemma differs_None [simp]: "\<not> sql_differs x x"
  by (simp add: sql_differs_def)

text \<open>A link whose target exists with the same key refers to the target with the same source.\<close>

lemma linked:
  assumes "\<And>q. q \<in> set rows \<Longrightarrow> with_id (f q) targets \<noteq> []"
    and "\<And>q t. q \<in> set rows \<Longrightarrow> t \<in> set (with_id (f q) targets) \<Longrightarrow> kr_key t = kr_key q"
    and "\<And>q s. f (q\<lparr>kr_source := s\<rparr>) = f q"
  shows "refers (map (\<lambda>r. (f r, kr_source r)) (backfill reg rows)) (id_sources (backfill reg targets))"
    and "\<not> list_ex (\<lambda>r. list_ex (\<lambda>t. sql_differs (kr_source r) (kr_source t)) (with_id (f r) (backfill reg targets))) (backfill reg rows)"
proof -
  have same: "kr_source t = kr_source r" if "r \<in> set (backfill reg rows)" "t \<in> set (with_id (f r) (backfill reg targets))" for r t
  proof -
    from that(1) obtain q where q: "q \<in> set rows" "f r = f q" "kr_key r = kr_key q" by (auto simp: backfill_member assms(3))
    with that(2) assms(2)[OF q(1)] have "kr_key t = kr_key r" by (auto simp: with_id_backfill backfill_member)
    moreover have "t \<in> set (backfill reg (with_id (f r) targets))" using that(2) by (simp add: with_id_backfill)
    ultimately show ?thesis using same_key_source that(1) by metis
  qed
  show "refers (map (\<lambda>r. (f r, kr_source r)) (backfill reg rows)) (id_sources (backfill reg targets))"
  proof -
    have "(f r, kr_source r) \<in> set (id_sources (backfill reg targets))" if r: "r \<in> set (backfill reg rows)" for r
    proof -
      from r obtain q where "q \<in> set rows" "f r = f q" by (auto simp: backfill_member assms(3))
      with assms(1) have "with_id (f r) (backfill reg targets) \<noteq> []" by (simp add: with_id_backfill)
      then obtain t where t: "t \<in> set (with_id (f r) (backfill reg targets))" by (cases "with_id (f r) (backfill reg targets)") auto
      from same[OF r t] t show ?thesis by (auto simp: id_sources_def with_id_def intro!: image_eqI[of _ _ t])
    qed
    then show ?thesis by (auto simp: refers_def)
  qed
  show "\<not> list_ex (\<lambda>r. list_ex (\<lambda>t. sql_differs (kr_source r) (kr_source t)) (with_id (f r) (backfill reg targets))) (backfill reg rows)"
    using same by (auto simp: list_ex_iff)
qed

lemma distinct_coarser: "distinct (map f xs) \<Longrightarrow> (\<And>x y. g x = g y \<Longrightarrow> f x = f y) \<Longrightarrow> distinct (map g xs)"
  unfolding distinct_map inj_on_def by blast

lemma backfill_distinct:
  assumes "distinct (map f rows)" "\<And>q s. f (q\<lparr>kr_source := s\<rparr>) = f q" "\<And>x y. g x = g y \<Longrightarrow> f x = f y"
  shows "distinct (map g (backfill reg rows))"
proof -
  have "map f (backfill reg rows) = map f rows" by (simp add: backfill_def comp_def assms(2))
  with assms(1) have "distinct (map f (backfill reg rows))" by simp
  then show ?thesis by (rule distinct_coarser) (rule assms(3))
qed

lemma distinct_ids: "distinct (map kr_id rows) \<Longrightarrow> distinct (id_sources (backfill reg rows))"
  using backfill_distinct[of kr_id rows "\<lambda>r. (kr_id r, kr_source r)" reg] by (simp add: id_sources_def)

lemma execution_links:
  assumes "preflighted u db" "old_schema db"
  shows "refers (map (\<lambda>x. (mx_command_id x, mx_source x)) (st_executions (expanded u db))) (id_sources (st_commands (expanded u db)))"
    and "\<not> list_ex (\<lambda>x. list_ex (\<lambda>c. sql_differs (mx_source x) (kr_source c)) (with_id (mx_command_id x) (st_commands (expanded u db))))
      (st_executions (expanded u db))"
    and "\<not> list_ex (\<lambda>x. mx_source x = None) (st_executions (expanded u db))"
proof -
  show "refers (map (\<lambda>x. (mx_command_id x, mx_source x)) (st_executions (expanded u db))) (id_sources (st_commands (expanded u db)))"
    unfolding refers_def using execution_source[OF assms] by (force simp: id_sources_def)
  show "\<not> list_ex (\<lambda>x. list_ex (\<lambda>c. sql_differs (mx_source x) (kr_source c)) (with_id (mx_command_id x) (st_commands (expanded u db))))
      (st_executions (expanded u db))"
    using execution_source[OF assms] by (fastforce simp: list_ex_iff)
  show "\<not> list_ex (\<lambda>x. mx_source x = None) (st_executions (expanded u db))"
    using execution_source[OF assms] rows_sourced[OF assms(1) tables_keys(3)] by (fastforce simp: list_ex_iff expanded_tables)
qed

lemma contract_after_expand:
  assumes "preflighted u db" "old_schema db"
  shows "contract_upgrade (expanded u db) = Inr (expanded u db)"
proof -
  let ?reg = "new_registry u db"
  note links = preflight_links[OF assms(1)]
  note command_decision = linked[of "st_commands db" mc_decision_id "st_decisions db" ?reg, OF links(1,2)]
  note observation_command = linked[of "st_observations db" mo_command_id "st_commands db" ?reg, OF links(4,5)]
  note attribution_command = linked[of "st_attributions db" ma_command_id "st_commands db" ?reg, OF links(6,7)]
  note attribution_decision = linked[of "st_attributions db" ma_decision_id "st_decisions db" ?reg, OF links(8,9)]
  note schema = assms(2)[unfolded old_schema_def]
  have versions: "distinct (map (\<lambda>p. (kr_key p, kr_source p, mp_version p)) (backfill ?reg (st_predictions db)))"
    "distinct (map (\<lambda>d. (kr_key d, kr_source d, md_version d)) (backfill ?reg (st_decisions db)))"
    "distinct (map (\<lambda>c. (kr_key c, kr_source c, mc_decision_version c)) (backfill ?reg (st_commands db)))"
    by (rule backfill_distinct[where f = "\<lambda>p. (kr_key p, mp_version p)"], use schema in simp_all)
      (rule backfill_distinct[where f = "\<lambda>d. (kr_key d, md_version d)"], use schema in simp_all,
       rule backfill_distinct[where f = "\<lambda>c. (kr_key c, mc_decision_version c)"], use schema in simp_all)
  have pre: "list_all (\<lambda>c. \<not> snd c) (contract_preflight (expanded u db))"
    using execution_links[OF assms]
    by (simp add: contract_preflight_def Let_def expanded_tables none_missing[OF assms(1)] registered_rows[OF assms(1)] tables_keys
        command_decision observation_command attribution_command attribution_decision versions schema)
  have "\<not> list_ex snd (take 6 (contract_preflight (expanded u db)))"
    using pre by (auto simp: list_all_iff list_ex_iff dest: in_set_takeD)
  then have "list_all (\<lambda>c. \<not> snd c) (contract_constraints (expanded u db))"
    using execution_links[OF assms]
    by (simp add: contract_constraints_def Let_def expanded_tables registered_rows[OF assms(1)] tables_keys
        command_decision observation_command attribution_command attribution_decision versions schema distinct_ids)
  with pre show ?thesis by (simp add: contract_upgrade_def bind_result_Inr)
qed

section \<open>The migration as a whole\<close>

text \<open>The migration's frozen copies of the rules agree with the application's.\<close>

lemma namespace_check_for_key:
  assumes "namespace_check r" "at_source_system r \<in> set SUPPORTED_SOURCES"
  shows "for_key (at_source_system r) (at_payment_attempt_id r) =
     Inr \<lparr>ar_source_system = at_source_system r, ar_payment_attempt_id = at_payment_attempt_id r,
          ar_provider_reference = at_provider_reference r\<rparr>"
proof -
  have sources: "set SUPPORTED_SOURCES = set PIPELINE_PROVIDERS" by (auto simp: SUPPORTED_SOURCES_def source_defs)
  show ?thesis
  proof (cases "at_source_system r = ''paypal''")
    case True
    with assms(1) have ref: "is_paypal_identifier (at_provider_reference r)"
      "at_payment_attempt_id r = paypal_attempt_id (at_provider_reference r)"
      by (simp_all add: namespace_check_def paypal_attempt_id_def PAYPAL_ATTEMPT_PREFIX_def)
    then have "at_provider_reference r \<noteq> []" by auto
    then have "paypal_order_id (at_payment_attempt_id r) = Some (at_provider_reference r)"
      by (simp add: ref(2) paypal_order_id_attempt)
    with True ref assms(2) sources show ?thesis
      by (simp add: for_key_def new_attempt_ref_def attempt_ref_valid_def ar_is_paypal_def PAYPAL_SOURCE_SYSTEM_def Let_def)
  next
    case False
    with assms(1) have ref: "at_provider_reference r \<noteq> []" "at_payment_attempt_id r = at_provider_reference r"
      "\<not> prefix PAYPAL_ATTEMPT_PREFIX (at_provider_reference r)"
      by (auto simp: namespace_check_def paypal_namespace_prefix[symmetric] paypal_namespace_def)
    with False assms(2) sources show ?thesis
      by (simp add: for_key_def new_attempt_ref_def attempt_ref_valid_def ar_is_paypal_def PAYPAL_SOURCE_SYSTEM_def Let_def)
  qed
qed

definition sourced :: "(uuid \<Rightarrow> string) \<Rightarrow> stage_tables \<Rightarrow> ('r keyed_row_scheme) list \<Rightarrow> bool" where
  "sourced uuid_str db rows = list_all (\<lambda>r. kr_source r = Some (source_of uuid_str db (kr_key r))) rows"

text \<open>Every row carries the provider of its key's trigger, an execution attempt that of its command.\<close>

definition all_sourced :: "(uuid \<Rightarrow> string) \<Rightarrow> stage_tables \<Rightarrow> stage_tables \<Rightarrow> bool" where
  "all_sourced uuid_str db db' \<longleftrightarrow>
     sourced uuid_str db (st_predictions db') \<and> sourced uuid_str db (st_decisions db') \<and> sourced uuid_str db (st_commands db') \<and>
     sourced uuid_str db (st_observations db') \<and> sourced uuid_str db (st_attributions db') \<and>
     list_all (\<lambda>x. list_ex (\<lambda>c. kr_id c = mx_command_id x \<and> mx_source x = kr_source c) (st_commands db')) (st_executions db')"

lemma rows_all_sourced:
  "preflighted u db \<Longrightarrow> kr_key ` set rows \<subseteq> set (attempt_keys db) \<Longrightarrow> sourced u db (backfill (new_registry u db) rows)"
  using rows_sourced by (fastforce simp: sourced_def list_all_iff)

lemma expanded_all_sourced:
  assumes "preflighted u db" "old_schema db"
  shows "all_sourced u db (expanded u db)"
proof -
  have "list_all (\<lambda>x. list_ex (\<lambda>c. kr_id c = mx_command_id x \<and> mx_source x = kr_source c) (st_commands (expanded u db)))
      (st_executions (expanded u db))"
    using execution_source[OF assms] by (fastforce simp: list_all_iff list_ex_iff)
  then show ?thesis
    unfolding all_sourced_def by (simp add: expanded_tables rows_all_sourced[OF assms(1)] tables_keys)
qed

lemma expanded_registry:
  assumes "preflighted u db" "old_schema db"
  shows "list_all (\<lambda>r. for_key (at_source_system r) (at_payment_attempt_id r) =
     Inr \<lparr>ar_source_system = at_source_system r, ar_payment_attempt_id = at_payment_attempt_id r,
          ar_provider_reference = at_provider_reference r\<rparr>) (st_registry (expanded u db))"
proof -
  have "list_all (\<lambda>c. \<not> snd c) (registry_violations (st_events db) (new_registry u db))" by (rule registry_constraints_hold[OF assms])
  then have "\<not> list_ex (\<lambda>r. at_source_system r \<notin> set SUPPORTED_SOURCES) (new_registry u db)"
    "\<not> list_ex (\<lambda>r. \<not> namespace_check r) (new_registry u db)"
    by (simp_all only: registry_violations_def list.pred_inject snd_conv simp_thms)
  then show ?thesis by (auto simp: list_all_iff list_ex_iff expanded_tables intro: namespace_check_for_key)
qed

lemma downgrade_backfill: "map (\<lambda>r. r\<lparr>kr_source := None\<rparr>) (backfill reg rows) = map (\<lambda>r. r\<lparr>kr_source := None\<rparr>) rows"
  by (simp add: backfill_def comp_def)

lemma downgrade_expanded: "expand_downgrade (expanded u db) = expand_downgrade db"
  by (simp add: expand_downgrade_def expanded_def backfill_all_def Let_def downgrade_backfill backfill_executions_def comp_def)

text \<open>C35: The provider-identity migration is all or nothing, and its two revisions fit. On a database with the primary
  keys and version constraints of the old schema, the expand revision either refuses with the code of a
  preflight check that has an offending row, never with a constraint of the new schema and never in a check
  after the tables have been changed, or it succeeds exactly when all those checks pass. Then every row of the
  five keyed tables carries the provider of its key's earliest trigger event and every execution attempt that
  of its command; every registry row is an identity the application accepts for its provider; the contract
  revision's nineteen checks and all its constraints hold at once; events are untouched and the downgrade gives
  back every row as it was.\<close>

theorem provider_migration_sound:
  assumes "old_schema db"
  shows "case expand_upgrade uuid_str db of
      Inl err \<Rightarrow> list_ex (\<lambda>(code, offending). offending \<and> err = PreflightFailed code)
                   (preflight_before_resolution db @ preflight_after_resolution uuid_str db)
    | Inr db' \<Rightarrow>
        list_all (\<lambda>(code, offending). \<not> offending) (preflight_before_resolution db @ preflight_after_resolution uuid_str db) \<and>
        all_sourced uuid_str db db' \<and>
        list_all (\<lambda>r. for_key (at_source_system r) (at_payment_attempt_id r) =
          Inr \<lparr>ar_source_system = at_source_system r, ar_payment_attempt_id = at_payment_attempt_id r,
               ar_provider_reference = at_provider_reference r\<rparr>) (st_registry db') \<and>
        contract_upgrade db' = Inr db' \<and> st_events db' = st_events db \<and> expand_downgrade db' = expand_downgrade db"
proof (cases "preflighted uuid_str db")
  case True
  then have "list_all (\<lambda>(code, offending). \<not> offending) (preflight_before_resolution db @ preflight_after_resolution uuid_str db)"
    by (simp add: preflighted_def case_prod_beta')
  then show ?thesis
    using expand_total[OF True assms] expanded_all_sourced[OF True assms] expanded_registry[OF True assms]
      contract_after_expand[OF True assms] downgrade_expanded by (simp add: expanded_tables(1))
next
  case False
  have refused: "\<exists>c. (c, True) \<in> set checks \<and> require_none checks = Inl (PreflightFailed c)" if "\<not> list_all (\<lambda>c. \<not> snd c) checks" for checks
  proof -
    from that find_snd[of checks] obtain c b where c: "find snd checks = Some (c, b)" by (cases "find snd checks") auto
    from find_SomeD[OF c] c show ?thesis by (auto simp: require_none_def)
  qed
  show ?thesis
  proof (cases "list_all (\<lambda>c. \<not> snd c) (preflight_before_resolution db)")
    case True
    with False have "\<not> list_all (\<lambda>c. \<not> snd c) (preflight_after_resolution uuid_str db)" by (simp add: preflighted_def)
    from refused[OF this] True obtain c where "(c, True) \<in> set (preflight_after_resolution uuid_str db)"
      "expand_upgrade uuid_str db = Inl (PreflightFailed c)"
      by (auto simp: expand_upgrade_def bind_result_Inl)
    then show ?thesis by (auto simp: list_ex_iff)
  next
    case False
    from refused[OF this] obtain c where "(c, True) \<in> set (preflight_before_resolution db)"
      "expand_upgrade uuid_str db = Inl (PreflightFailed c)"
      by (auto simp: expand_upgrade_def)
    then show ?thesis by (auto simp: list_ex_iff)
  qed
qed

definition example_tables :: stage_tables where
  "example_tables =
     \<lparr>st_events = [example_event ''payment.authorized'' ''pay_1'' 10],
      st_predictions = [\<lparr>kr_id = Uuid4 1, kr_key = ''pay_1'', kr_created_at = 20, kr_source = None, mp_version = 1, mp_predicted_at = 20\<rparr>],
      st_decisions = [\<lparr>kr_id = Uuid4 2, kr_key = ''pay_1'', kr_created_at = 30, kr_source = None, md_version = 1,
                       md_prediction_id = Some (Uuid4 1), md_decided_at = 30\<rparr>],
      st_commands = [\<lparr>kr_id = Uuid4 3, kr_key = ''pay_1'', kr_created_at = 40, kr_source = None, mc_decision_id = Uuid4 2, mc_decision_version = 1\<rparr>],
      st_executions = [\<lparr>mx_id = Uuid4 4, mx_command_id = Uuid4 3, mx_source = None\<rparr>],
      st_observations = [], st_attributions = [], st_registry = []\<rparr>"

lemma example_tables:
  "old_schema example_tables"
  "case expand_upgrade (\<lambda>u. []) example_tables of Inl e \<Rightarrow> False | Inr db' \<Rightarrow> map mx_source (st_executions db') = [Some ''razorpay'']"
  "expand_upgrade (\<lambda>u. []) (example_tables\<lparr>st_events := []\<rparr>) = Inl (PreflightFailed ''PF-04'')"
  by code_simp+

theorem provider_migration_sound_witness:
  "case expand_upgrade (\<lambda>u. []) example_tables of
     Inl e \<Rightarrow> False
   | Inr db' \<Rightarrow> map mx_source (st_executions db') = [Some ''razorpay''] \<and> contract_upgrade db' = Inr db'"
  using provider_migration_sound[OF example_tables(1), of "\<lambda>u. []"] example_tables(2) by (simp split: sum.splits)

end
