(* ===== verification/LiveContext.thy ===== *)
theory LiveContext
  imports Pipeline Ingestion
begin

text \<open>
  The generator of a live recovery context (\<open>scripts/generate_live_context.py\<close>): the windows around the
  current time, the historical baselines it seeds, the synthetic traffic of three windows, the canonical
  Stages 2 to 4 it runs on that traffic, the check of their results and the operator's summary.

  What \<open>random\<close>, \<open>uuid4\<close> and the wall clock return is the record \<open>context_env\<close>; \<open>draws_ok\<close> states what the
  library documents about them. Rows are taken to fit the width of their columns; log lines are not modelled.
\<close>

section \<open>Windows\<close>

type_synonym window = "datetime \<times> datetime"

definition compute_tumbling_windows :: "datetime \<Rightarrow> datetime \<times> datetime \<times> window list" where
  "compute_tumbling_windows now =
     (let minute = dt_minute now;
          w0_start_minute = (minute div 5) * 5;
          w0_start = dt_replace_minute now w0_start_minute;
          w0_end = w0_start + minutes 5;
          w_minus_1 = (w0_start - minutes 5, w0_start);
          w_minus_2 = (w0_start - minutes 10, w0_start - minutes 5);
          w_minus_3 = (w0_start - minutes 15, w0_start - minutes 10)
      in (w0_start, w0_end, [w_minus_3, w_minus_2, w_minus_1]))"

text \<open>
  \<open>timedelta(seconds=x)\<close> for \<open>0 \<le> x\<close>: whole seconds exactly, the fraction in microseconds rounded half to
  even.
\<close>

definition timedelta_seconds :: "pyfloat \<Rightarrow> int" where
  "timedelta_seconds x =
     seconds \<lfloor>x\<rfloor> + round_half_even (f_mul 1000000 (x - of_int \<lfloor>x\<rfloor>))"

section \<open>What a run draws\<close>

record live_draw =
  ld_jitter :: pyfloat
  ld_gap :: pyfloat
  ld_clamp :: pyfloat
  ld_token :: string
  ld_amount :: int
  ld_auth_id :: uuid
  ld_term_id :: uuid

text \<open>
  \<open>ce_shuffle w\<close> is the order in which the shuffle leaves the outcomes of window \<open>w\<close>, \<open>ce_draw w i\<close> what is
  drawn for transaction \<open>i\<close> of it; the other ids are indexed by the loops that draw them.
\<close>

record context_env =
  ce_now :: datetime
  ce_clock :: "nat \<Rightarrow> datetime"
  ce_baseline_ids :: "nat \<Rightarrow> uuid"
  ce_shuffle :: "nat \<Rightarrow> bool list \<Rightarrow> bool list"
  ce_draw :: "nat \<Rightarrow> nat \<Rightarrow> live_draw"
  ce_snapshot_ids :: "nat \<Rightarrow> nat \<Rightarrow> uuid"
  ce_signal_ids :: "nat \<Rightarrow> nat \<Rightarrow> nat \<Rightarrow> uuid"
  ce_run_ids :: "nat \<Rightarrow> nat \<Rightarrow> uuid"

section \<open>Historical baselines\<close>

definition baseline_row :: "uuid \<Rightarrow> datetime \<Rightarrow> window \<Rightarrow> string \<times> string \<Rightarrow> snapshot" where
  "baseline_row new_id now w segment =
     \<lparr>hs_snapshot_id = new_id,
      hs_window_start = fst w - weeks 1, hs_window_end = snd w - weeks 1,
      hs_dimension = fst segment, hs_value = snd segment,
      hs_transaction_count = 200, hs_successful_count = 170, hs_failed_count = 30,
      hs_success_rate = Some (fl (85 / 100)), hs_failure_rate = Some (fl (15 / 100)),
      hs_total_gmv = 5000000, hs_successful_gmv = 4250000, hs_failed_gmv = 750000,
      hs_baseline_success_rate = Some (fl (85 / 100)), hs_insufficient_volume = False,
      hs_calculated_at = now\<rparr>"

text \<open>On conflict the GMV columns keep their stored values.\<close>

definition merge_baseline :: "snapshot \<Rightarrow> snapshot \<Rightarrow> snapshot" where
  "merge_baseline old new =
     old\<lparr>hs_transaction_count := hs_transaction_count new, hs_successful_count := hs_successful_count new,
         hs_failed_count := hs_failed_count new, hs_success_rate := hs_success_rate new,
         hs_failure_rate := hs_failure_rate new, hs_baseline_success_rate := hs_baseline_success_rate new,
         hs_insufficient_volume := hs_insufficient_volume new, hs_calculated_at := hs_calculated_at new\<rparr>"

fun put_baseline :: "snapshot \<Rightarrow> snapshot list \<Rightarrow> snapshot list" where
  "put_baseline s [] = [s]"
| "put_baseline s (r # rs) =
     (if snapshot_identity r = snapshot_identity s then merge_baseline r s # rs else r # put_baseline s rs)"

definition baseline_rows :: "(nat \<Rightarrow> uuid) \<Rightarrow> window list \<Rightarrow> string \<Rightarrow> datetime \<Rightarrow> snapshot list" where
  "baseline_rows ids windows pm now =
     map (\<lambda>(n, w, segment). baseline_row (ids n) now w segment)
       (enumerate 0 (concat (map (\<lambda>w. [(w, ''GLOBAL'', ''ALL''), (w, ''payment_method'', pm)]) windows)))"

definition seed_historical_baselines ::
  "(nat \<Rightarrow> uuid) \<Rightarrow> window list \<Rightarrow> string \<Rightarrow> datetime \<Rightarrow> ('a analytics_db_scheme) \<Rightarrow> int \<times> ('a analytics_db_scheme)" where
  "seed_historical_baselines ids windows pm now db =
     (let rows = baseline_rows ids windows pm now
      in (int (length rows), db\<lparr>db_snapshots := fold put_baseline rows (db_snapshots db)\<rparr>))"

section \<open>Synthetic traffic\<close>

definition GENERATED_SOURCE_SYSTEM :: string where "GENERATED_SOURCE_SYSTEM = ''synthetic''"

definition auth_time :: "window \<Rightarrow> nat \<Rightarrow> live_draw \<Rightarrow> datetime" where
  "auth_time w i d =
     fst w + timedelta_seconds (f_add (f_mul (of_nat i) (fl (44 / 10))) (ld_jitter d))"

definition term_time :: "window \<Rightarrow> nat \<Rightarrow> live_draw \<Rightarrow> datetime" where
  "term_time w i d =
     (let t = auth_time w i d + timedelta_seconds (ld_gap d)
      in if snd w \<le> t then snd w - timedelta_seconds (ld_clamp d) else t)"

definition generated_payload :: "string \<Rightarrow> string \<Rightarrow> string \<Rightarrow> live_draw \<Rightarrow> string \<Rightarrow> json" where
  "generated_payload etype pm ccy d status =
     JObj [(''event'', JStr etype),
       (''payload'', JObj [(''payment'', JObj [(''entity'', JObj
          [(''id'', JStr (''pay_live_ctx_'' @ ld_token d)), (''order_id'', JStr (''order_live_ctx_'' @ ld_token d)),
           (''amount'', JInt (ld_amount d)), (''currency'', JStr ccy), (''method'', JStr pm),
           (''status'', JStr status)])])])]"

definition generated_raw :: "string \<Rightarrow> datetime \<Rightarrow> json \<Rightarrow> raw_record" where
  "generated_raw event_id t payload =
     \<lparr>raw_source_system = GENERATED_SOURCE_SYSTEM, raw_source_event_id = event_id, raw_received_at = t,
      raw_payload = payload, raw_payload_hash = generate_deterministic_hash payload\<rparr>"

definition auth_event :: "string \<Rightarrow> string \<Rightarrow> window \<Rightarrow> nat \<Rightarrow> live_draw \<Rightarrow> payment_event" where
  "auth_event pm ccy w i d =
     \<lparr>ev_event_id = ld_auth_id d, ev_source_system = GENERATED_SOURCE_SYSTEM,
      ev_source_event_id = ''evt_live_auth_'' @ ld_token d, ev_payment_id = ''pay_live_ctx_'' @ ld_token d,
      ev_order_id = Some (''order_live_ctx_'' @ ld_token d), ev_timestamp = auth_time w i d,
      ev_event_type = ''payment.authorized'', ev_currency = ccy, ev_amount_minor_units = ld_amount d,
      ev_payment_status = ''authorized'', ev_payment_method = Some pm, ev_bank = None, ev_wallet = None,
      ev_error_code = None, ev_error_description = None, ev_error_source = None, ev_error_step = None,
      ev_error_reason = None, ev_ingested_at = auth_time w i d\<rparr>"

definition term_type :: "bool \<Rightarrow> string" where
  "term_type is_fail = (if is_fail then ''payment.failed'' else ''payment.captured'')"

definition term_status :: "bool \<Rightarrow> string" where
  "term_status is_fail = (if is_fail then ''failed'' else ''captured'')"

definition term_event :: "string \<Rightarrow> string \<Rightarrow> window \<Rightarrow> nat \<Rightarrow> live_draw \<Rightarrow> bool \<Rightarrow> payment_event" where
  "term_event pm ccy w i d is_fail =
     (let error = (\<lambda>s. if is_fail then Some s else None)
      in (auth_event pm ccy w i d)
           \<lparr>ev_event_id := ld_term_id d, ev_source_event_id := ''evt_live_term_'' @ ld_token d,
            ev_timestamp := term_time w i d, ev_event_type := term_type is_fail,
            ev_payment_status := term_status is_fail,
            ev_error_code := error ''BAD_REQUEST_ERROR'',
            ev_error_description := error ''Payment failed on issuer side'',
            ev_error_source := error ''gateway'', ev_error_step := error ''payment_authorization'',
            ev_error_reason := error ''payment_failed'', ev_ingested_at := term_time w i d\<rparr>)"

text \<open>A transaction: its window, its position, what was drawn for it and whether it fails.\<close>

type_synonym live_tx = "window \<times> nat \<times> live_draw \<times> bool"

definition outcomes_of_window :: "context_env \<Rightarrow> nat \<Rightarrow> bool list" where
  "outcomes_of_window env w_idx = ce_shuffle env w_idx (replicate 48 True @ replicate 12 False)"

definition window_txs :: "context_env \<Rightarrow> nat \<times> window \<Rightarrow> live_tx list" where
  "window_txs env = (\<lambda>(w_idx, w).
     map (\<lambda>(i, is_fail). (w, i, ce_draw env w_idx i, is_fail)) (enumerate 0 (outcomes_of_window env w_idx)))"

definition live_txs :: "context_env \<Rightarrow> window list \<Rightarrow> live_tx list" where
  "live_txs env windows = concat (map (window_txs env) (enumerate 0 windows))"

definition tx_raws :: "string \<Rightarrow> string \<Rightarrow> live_tx \<Rightarrow> raw_record list" where
  "tx_raws pm ccy = (\<lambda>(w, i, d, is_fail).
     [generated_raw (''evt_live_auth_'' @ ld_token d) (auth_time w i d)
        (generated_payload ''payment.authorized'' pm ccy d ''authorized''),
      generated_raw (''evt_live_term_'' @ ld_token d) (term_time w i d)
        (generated_payload (term_type is_fail) pm ccy d (term_status is_fail))])"

definition tx_events :: "string \<Rightarrow> string \<Rightarrow> live_tx \<Rightarrow> payment_event list" where
  "tx_events pm ccy = (\<lambda>(w, i, d, is_fail). [auth_event pm ccy w i d, term_event pm ccy w i d is_fail])"

text \<open>The commit inserts every row or, when an identity is taken, none.\<close>

definition seed_upstream_synthetic_traffic ::
  "context_env \<Rightarrow> window list \<Rightarrow> string \<Rightarrow> string \<Rightarrow> ('a event_db_scheme) \<Rightarrow> (exn, int \<times> ('a event_db_scheme)) result" where
  "seed_upstream_synthetic_traffic env windows pm ccy db =
     (let txs = live_txs env windows;
          raws = db_raw db @ concat (map (tx_raws pm ccy) txs);
          events = db_events db @ concat (map (tx_events pm ccy) txs)
      in if distinct (map raw_identity raws) \<and> distinct (map event_identity events) \<and> distinct (map ev_event_id events)
         then Inr (int (length txs), db\<lparr>db_raw := raws, db_events := events\<rparr>)
         else Inl IntegrityError)"

section \<open>Stages 2 to 4\<close>

record stage2_result =
  s2_window_index :: int
  s2_window_start :: datetime
  s2_window_end :: datetime
  s2_transaction_count :: int
  s2_failed_count :: int
  s2_failure_rate :: pyfloat
  s2_baseline_success_rate :: "pyfloat option"
  s2_insufficient_volume :: bool

text \<open>
  An exception carries the database that the last commit left. The log line of a window formats the failure
  rate, which raises \<open>TypeError\<close> on \<open>None\<close>.
\<close>

definition stage2_window ::
  "context_env \<Rightarrow> nat \<times> window \<Rightarrow> stage2_result list \<times> ('a analytics_db_scheme) \<Rightarrow>
   (exn \<times> ('a analytics_db_scheme), stage2_result list \<times> ('a analytics_db_scheme)) result" where
  "stage2_window env = (\<lambda>(w_idx, w) (results, db).
     let db' = calculate_and_save_window (ce_snapshot_ids env w_idx) (ce_clock env w_idx) (fst w) (snd w) db
     in case find (\<lambda>s. snapshot_identity s = (fst w, snd w, ''GLOBAL'', ''ALL'')) (db_snapshots db') of
          None \<Rightarrow> Inl (RuntimeError, db')
        | Some snap \<Rightarrow>
            (case hs_failure_rate snap of
               None \<Rightarrow> Inl (TypeError, db')
             | Some rate \<Rightarrow>
                 Inr (results @
                   [\<lparr>s2_window_index = int w_idx - 3, s2_window_start = fst w, s2_window_end = snd w,
                     s2_transaction_count = hs_transaction_count snap, s2_failed_count = hs_failed_count snap,
                     s2_failure_rate = rate, s2_baseline_success_rate = hs_baseline_success_rate snap,
                     s2_insufficient_volume = hs_insufficient_volume snap\<rparr>], db')))"

definition run_stage2_analytics ::
  "context_env \<Rightarrow> window list \<Rightarrow> ('a analytics_db_scheme) \<Rightarrow>
   (exn \<times> ('a analytics_db_scheme), stage2_result list \<times> ('a analytics_db_scheme)) result" where
  "run_stage2_analytics env windows db = fold_result (stage2_window env) (enumerate 0 windows) ([], db)"

text \<open>The snapshots of a window are grouped by segment as in the live pipeline, then committed.\<close>

definition stage3_window ::
  "context_env \<Rightarrow> nat \<times> window \<Rightarrow> ('a degradation_db_scheme) \<Rightarrow>
   (exn \<times> ('a degradation_db_scheme), 'a degradation_db_scheme) result" where
  "stage3_window env = (\<lambda>(w_idx, w) db.
     case fold_result (\<lambda>(k, seg). process_snapshots (ce_signal_ids env w_idx k) (ce_run_ids env w_idx k) seg (snd w))
            (enumerate 0 (segments_of_window (fst w) (snd w) db)) db of
       Inl e \<Rightarrow> Inl (e, db)
     | Inr db' \<Rightarrow> Inr db')"

definition run_stage3_degradation ::
  "context_env \<Rightarrow> window list \<Rightarrow> ('a degradation_db_scheme) \<Rightarrow>
   (exn \<times> ('a degradation_db_scheme), degradation_episode list \<times> ('a degradation_db_scheme)) result" where
  "run_stage3_degradation env windows db =
     bind_result (fold_result (stage3_window env) (enumerate 0 windows) db)
       (\<lambda>db'. Inr (active_episodes db', db'))"

record verified_rca =
  vr_episode_id :: uuid
  vr_classification :: rca_classification
  vr_candidate_dimension :: string
  vr_candidate_value :: string
  vr_evidence_strength :: evidence_strength
  vr_contribution :: pyfloat
  vr_rank :: int

text \<open>The first active episode whose latest evaluation has the payment method as its rank-1 candidate.\<close>

definition verify_episode :: "string \<Rightarrow> ('a rca_db_scheme) \<Rightarrow> degradation_episode \<Rightarrow> verified_rca option" where
  "verify_episode target_pm db ep =
     (case latest_by re_version (filter (\<lambda>r. re_episode_id r = ep_episode_id ep) (db_evaluations db)) of
        None \<Rightarrow> None
      | Some rca_eval \<Rightarrow>
          (case find (\<lambda>c. cc_evaluation_id c = re_evaluation_id rca_eval \<and> cc_rank c = 1) (db_candidates db) of
             None \<Rightarrow> None
           | Some cand \<Rightarrow>
               if cc_dimension cand = ''PAYMENT_METHOD'' \<and> cc_value cand = target_pm
               then Some \<lparr>vr_episode_id = ep_episode_id ep, vr_classification = re_classification rca_eval,
                      vr_candidate_dimension = cc_dimension cand, vr_candidate_value = cc_value cand,
                      vr_evidence_strength = cc_strength cand, vr_contribution = cc_contribution cand,
                      vr_rank = cc_rank cand\<rparr>
               else None))"

definition run_stage4_rca ::
  "context_env \<Rightarrow> degradation_episode list \<Rightarrow> string \<Rightarrow> ('a rca_db_scheme) \<Rightarrow>
   (exn \<times> ('a rca_db_scheme), verified_rca \<times> ('a rca_db_scheme)) result" where
  "run_stage4_rca env eps target_pm db =
     (case fold_result (evaluate_active (ce_clock env 3)) eps (db, db) of
        Inl (st, e, committed) \<Rightarrow> Inl (e, committed)
      | Inr (committed, db') \<Rightarrow>
          (case List.map_filter (verify_episode target_pm db') eps of
             [] \<Rightarrow> Inl (RuntimeError, db')
           | v # _ \<Rightarrow> Inr (v, db')))"

definition check_lookback_terminal_volume :: "('a event_db_scheme) \<Rightarrow> datetime \<Rightarrow> int" where
  "check_lookback_terminal_volume db now =
     (let t_30m_ago = now - minutes 30
      in int (length (filter (\<lambda>e. ev_source_system e = GENERATED_SOURCE_SYSTEM \<and>
           ev_event_type e \<in> {''payment.captured'', ''payment.failed''} \<and>
           t_30m_ago \<le> ev_timestamp e \<and> ev_timestamp e \<le> now) (db_events db))))"

section \<open>The run\<close>

text \<open>What the operator is told. \<open>int(x)\<close> truncates.\<close>

record context_summary =
  cs_windows :: "stage2_result list"
  cs_episode_id :: uuid
  cs_severity :: severity
  cs_rca :: verified_rca
  cs_volume :: int
  cs_minutes_left :: int

definition int_of_float :: "pyfloat \<Rightarrow> int" where
  "int_of_float x = (if x < 0 then \<lceil>x\<rceil> else \<lfloor>x\<rfloor>)"

definition expiry_minutes :: "window list \<Rightarrow> datetime \<Rightarrow> int" where
  "expiry_minutes windows now =
     (let expiry_estimate = fst (windows ! 1) + minutes 30
      in max 1 (int_of_float (f_div (int_truediv (expiry_estimate - now) 1000000) 60)))"

definition critical_episode :: "degradation_episode list \<Rightarrow> degradation_episode" where
  "critical_episode eps = (case find (\<lambda>ep. ep_severity ep = CRITICAL) eps of None \<Rightarrow> hd eps | Some ep \<Rightarrow> ep)"

text \<open>
  The summary formats the baseline of every window, which raises \<open>TypeError\<close> on \<open>None\<close>; everything is
  committed by then.
\<close>

definition main_async ::
  "context_env \<Rightarrow> string \<Rightarrow> string \<Rightarrow> ('a rca_db_scheme) \<Rightarrow>
   (exn \<times> ('a rca_db_scheme), context_summary \<times> ('a rca_db_scheme)) result" where
  "main_async env pm ccy db =
     (let now = ce_now env; windows = snd (snd (compute_tumbling_windows now));
          db0 = snd (seed_historical_baselines (ce_baseline_ids env) windows pm now db)
      in case seed_upstream_synthetic_traffic env windows pm ccy db0 of
           Inl e \<Rightarrow> Inl (e, db0)
         | Inr (total_tx, db1) \<Rightarrow>
             bind_result (run_stage2_analytics env windows db1) (\<lambda>(s2_results, db2).
             bind_result (run_stage3_degradation env windows db2) (\<lambda>(eps, db3).
             if eps = [] then Inl (RuntimeError, db3)
             else bind_result (run_stage4_rca env eps pm db3) (\<lambda>(rca_result, db4).
               let critical_ep = critical_episode eps
               in if list_ex (\<lambda>res. s2_baseline_success_rate res = None) s2_results then Inl (TypeError, db4)
                  else Inr (\<lparr>cs_windows = s2_results, cs_episode_id = ep_episode_id critical_ep,
                      cs_severity = ep_severity critical_ep, cs_rca = rca_result,
                      cs_volume = check_lookback_terminal_volume db4 now,
                      cs_minutes_left = expiry_minutes windows now\<rparr>, db4)))))"

section \<open>Windows agree with Stage 2\<close>

definition w0_of :: "datetime \<Rightarrow> datetime" where
  "w0_of now = fst (get_window_boundaries now)"

definition windows_of :: "datetime \<Rightarrow> window list" where
  "windows_of now = snd (snd (compute_tumbling_windows now))"

lemma compute_tumbling_windows_eq:
  "compute_tumbling_windows now = (w0_of now, w0_of now + minutes 5, windows_of now)"
  by (simp add: compute_tumbling_windows_def windows_of_def w0_of_def get_window_boundaries_def Let_def)

lemma windows_of_eq:
  "windows_of now = map (\<lambda>k. (w0_of now - minutes (5 * k), w0_of now - minutes (5 * k) + minutes 5)) [3, 2, 1]"
  by (simp add: windows_of_def compute_tumbling_windows_def w0_of_def get_window_boundaries_def Let_def minutes_def)

lemma w0_aligned: "w0_of now mod minutes 5 = 0" "w0_of now \<le> now" "now < w0_of now + minutes 5"
  using get_window_boundaries_tiles[of now] by (simp_all add: w0_of_def)

lemma boundaries_aligned:
  assumes "s mod minutes 5 = 0"
  shows "(s, s + minutes 5) = get_window_boundaries t \<longleftrightarrow> s \<le> t \<and> t < s + minutes 5"
proof
  assume "(s, s + minutes 5) = get_window_boundaries t"
  then show "s \<le> t \<and> t < s + minutes 5" using get_window_boundaries_tiles[of t] by (metis fst_conv snd_conv)
next
  assume "s \<le> t \<and> t < s + minutes 5"
  moreover obtain q where "s = minutes 5 * q" using assms by (auto simp: mod_eq_0_iff_dvd)
  ultimately have "t div minutes 5 = q"
    by (intro int_div_pos_eq[where r = "t - s"]) (simp_all add: minutes_def)
  then have "t - t mod minutes 5 = s" using \<open>s = minutes 5 * q\<close> by (simp add: minus_mod_eq_mult_div)
  then show "(s, s + minutes 5) = get_window_boundaries t" by (simp add: get_window_boundaries_eq)
qed

text \<open>The generator's windows are those of Stage 2: the current window is the one Stage 2 computes for the
  current time, each of the three completed windows consists of exactly the instants that Stage 2 assigns to
  it, and they follow each other without a gap up to the current window.\<close>

lemma live_windows_are_tumbling:
  "case compute_tumbling_windows now of (w0_start, w0_end, windows) \<Rightarrow>
     (w0_start, w0_end) = get_window_boundaries now \<and>
     list_all (\<lambda>w. \<forall>t. (w = get_window_boundaries t) = (fst w \<le> t \<and> t < snd w)) windows \<and>
     map fst windows @ [w0_start] = fst (hd windows) # map snd windows"
proof -
  have "list_all (\<lambda>w. \<forall>t. (w = get_window_boundaries t) = (fst w \<le> t \<and> t < snd w)) (windows_of now)"
    unfolding list_all_iff
  proof (intro ballI allI)
    fix w t assume "w \<in> set (windows_of now)"
    then obtain k where w: "w = (w0_of now - minutes (5 * k), w0_of now - minutes (5 * k) + minutes 5)"
      by (auto simp only: windows_of_eq set_map)
    have "(w0_of now - minutes (5 * k)) mod minutes 5 = 0"
      using w0_aligned(1)[of now] by (simp add: mod_eq_0_iff_dvd minutes_def)
    from boundaries_aligned[OF this, of t] show "(w = get_window_boundaries t) = (fst w \<le> t \<and> t < snd w)" by (simp add: w)
  qed
  moreover have "(w0_of now, w0_of now + minutes 5) = get_window_boundaries now"
    using get_window_boundaries_tiles[of now] by (simp add: w0_of_def prod_eq_iff)
  ultimately show ?thesis
    unfolding compute_tumbling_windows_eq by (simp add: windows_of_eq) (simp add: minutes_def)
qed

section \<open>Times of a transaction\<close>

text \<open>
  What \<open>random.uniform(a, b)\<close> and \<open>random.randint(a, b)\<close> document about their results.
\<close>

definition draw_ok :: "live_draw \<Rightarrow> bool" where
  "draw_ok d \<longleftrightarrow>
     fl (1 / 10) \<le> ld_jitter d \<and> ld_jitter d \<le> fl (12 / 10) \<and> 5 \<le> ld_gap d \<and> ld_gap d \<le> 15 \<and>
     fl (5 / 10) \<le> ld_clamp d \<and> ld_clamp d \<le> 2 \<and> 1000 \<le> ld_amount d \<and> ld_amount d \<le> 50000"

lemma timedelta_seconds_bounds:
  "seconds \<lfloor>x\<rfloor> \<le> timedelta_seconds x" "timedelta_seconds x \<le> seconds (\<lfloor>x\<rfloor> + 1)"
proof -
  let ?f = "x - of_int \<lfloor>x\<rfloor>"
  have "0 \<le> ?f" "?f \<le> 1" by linarith+
  then have f: "0 \<le> 1000000 * ?f" "1000000 * ?f \<le> 1000000"
    using mult_left_mono[of ?f 1 1000000] by simp_all
  have "fl 1000000 = 1000000" using fl_of_int[of 1000000] by simp
  then have m: "0 \<le> f_mul 1000000 ?f" "f_mul 1000000 ?f \<le> 1000000"
    using f fl_nonneg[OF f(1)] fl_mono[OF f(2)] by (simp_all add: f_mul_def)
  have "round_half_even (f_mul 1000000 ?f) \<le> 1000000"
    using rhe_mono[OF m(2)] rhe_of_int[of 1000000] by simp
  moreover have "0 \<le> round_half_even (f_mul 1000000 ?f)" using m(1) by (rule rhe_nonneg)
  ultimately show "seconds \<lfloor>x\<rfloor> \<le> timedelta_seconds x" "timedelta_seconds x \<le> seconds (\<lfloor>x\<rfloor> + 1)"
    by (simp_all add: timedelta_seconds_def seconds_def)
qed

lemma timedelta_seconds_between:
  assumes "of_int a \<le> x" "x \<le> of_int b"
  shows "seconds a \<le> timedelta_seconds x" "timedelta_seconds x \<le> seconds (b + 1)"
proof -
  have "a \<le> \<lfloor>x\<rfloor>" "\<lfloor>x\<rfloor> \<le> b" using assms by (simp_all add: le_floor_iff floor_le_iff)
  then have "seconds a \<le> seconds \<lfloor>x\<rfloor>" "seconds (\<lfloor>x\<rfloor> + 1) \<le> seconds (b + 1)" by (simp_all add: seconds_def)
  with timedelta_seconds_bounds[of x] show "seconds a \<le> timedelta_seconds x" "timedelta_seconds x \<le> seconds (b + 1)"
    by linarith+
qed

text \<open>An authorization is at most 263 s into its window, so its outcome needs no clamping.\<close>

lemma auth_offset:
  assumes "draw_ok d" "i < 60"
  shows "0 \<le> timedelta_seconds (f_add (f_mul (of_nat i) (fl (44 / 10))) (ld_jitter d))"
    and "timedelta_seconds (f_add (f_mul (of_nat i) (fl (44 / 10))) (ld_jitter d)) \<le> seconds 263"
proof -
  have "fl (141 / 32) = 141 / 32" by code_simp
  then have s: "fl (44 / 10) \<le> 141 / 32" "0 \<le> fl (44 / 10)"
    using fl_le_float[of "44 / 10" "141 / 32"] by (simp_all add: fl_nonneg)
  have i: "(of_nat i :: rat) \<le> 59" "0 \<le> (of_nat i :: rat)" using assms(2) by simp_all
  have "of_nat i * fl (44 / 10) \<le> 59 * (141 / 32)" using i s by (intro mult_mono) simp_all
  then have "of_nat i * fl (44 / 10) \<le> 260" by simp
  moreover have big: "fl 260 = 260" "fl 262 = 262" using fl_of_int[of 260] fl_of_int[of 262] by simp_all
  ultimately have m: "f_mul (of_nat i) (fl (44 / 10)) \<le> 260" "0 \<le> f_mul (of_nat i) (fl (44 / 10))"
    using i s by (simp_all add: f_mul_def fl_le_float fl_nonneg)
  have "fl (12 / 10) \<le> 2" "0 \<le> fl (1 / 10)" using fl_le_float[of "12 / 10" 2] fl_of_int[of 2] by (simp_all add: fl_nonneg)
  then have j: "0 \<le> ld_jitter d" "ld_jitter d \<le> 2" using assms(1) by (auto simp: draw_ok_def)
  have "0 \<le> f_add (f_mul (of_nat i) (fl (44 / 10))) (ld_jitter d)"
    "f_add (f_mul (of_nat i) (fl (44 / 10))) (ld_jitter d) \<le> 262"
    using m j big by (simp_all add: f_add_def fl_nonneg fl_le_float)
  from timedelta_seconds_between[of 0 _ 262] this
  show "0 \<le> timedelta_seconds (f_add (f_mul (of_nat i) (fl (44 / 10))) (ld_jitter d))"
    and "timedelta_seconds (f_add (f_mul (of_nat i) (fl (44 / 10))) (ld_jitter d)) \<le> seconds 263"
    by (simp_all add: seconds_def)
qed

lemma tx_times:
  assumes "draw_ok d" "i < 60" "snd w = fst w + minutes 5"
  shows "fst w \<le> auth_time w i d" "auth_time w i d + seconds 5 \<le> term_time w i d"
    "term_time w i d \<le> auth_time w i d + seconds 16" "term_time w i d < snd w"
proof -
  note a = auth_offset[OF assms(1,2)]
  have g: "seconds 5 \<le> timedelta_seconds (ld_gap d)" "timedelta_seconds (ld_gap d) \<le> seconds 16"
    using timedelta_seconds_between[of 5 "ld_gap d" 15] assms(1) by (simp_all add: draw_ok_def)
  have t: "term_time w i d = auth_time w i d + timedelta_seconds (ld_gap d)"
    using a g assms(3) by (simp add: term_time_def auth_time_def Let_def duration_defs)
  show "fst w \<le> auth_time w i d" "auth_time w i d + seconds 5 \<le> term_time w i d"
    "term_time w i d \<le> auth_time w i d + seconds 16" "term_time w i d < snd w"
    using a g assms(3) by (simp_all add: t) (simp_all add: auth_time_def duration_defs)
qed

section \<open>The traffic\<close>

definition draws_ok :: "context_env \<Rightarrow> bool" where
  "draws_ok env \<longleftrightarrow>
     (\<forall>w i. draw_ok (ce_draw env w i)) \<and> (\<forall>w xs. mset (ce_shuffle env w xs) = mset xs) \<and>
     (\<forall>w. inj (ce_snapshot_ids env w))"

definition generated_events :: "context_env \<Rightarrow> string \<Rightarrow> string \<Rightarrow> window list \<Rightarrow> payment_event list" where
  "generated_events env pm ccy windows = concat (map (tx_events pm ccy) (live_txs env windows))"

definition events_of_window :: "context_env \<Rightarrow> string \<Rightarrow> string \<Rightarrow> nat \<times> window \<Rightarrow> payment_event list" where
  "events_of_window env pm ccy kw = concat (map (tx_events pm ccy) (window_txs env kw))"

lemma concat_map_concat: "concat (map f (concat xss)) = concat (map (\<lambda>xs. concat (map f xs)) xss)"
  by (induction xss) simp_all

lemma generated_events_windows:
  "generated_events env pm ccy windows = concat (map (events_of_window env pm ccy) (enumerate 0 windows))"
  unfolding generated_events_def live_txs_def concat_map_concat map_map
  by (intro arg_cong[where f = concat] map_cong refl) (simp add: events_of_window_def)

lemma outcomes_mset:
  "draws_ok env \<Longrightarrow> mset (outcomes_of_window env k) = mset (replicate 48 True @ replicate 12 False)"
  by (simp add: outcomes_of_window_def draws_ok_def)

lemma outcomes_counts:
  assumes "draws_ok env"
  shows "length (outcomes_of_window env k) = 60" "length (filter id (outcomes_of_window env k)) = 48"
proof -
  from mset_eq_length[OF outcomes_mset[OF assms, of k]] show "length (outcomes_of_window env k) = 60"
    by (simp only: length_append length_replicate)
  have "filter_mset id (mset (outcomes_of_window env k)) = filter_mset id (mset (replicate 48 True @ replicate 12 False))"
    using outcomes_mset[OF assms] by simp
  then have "mset (filter id (outcomes_of_window env k)) = mset (filter id (replicate 48 True @ replicate 12 False))"
    by (simp only: mset_filter)
  then have "length (filter id (outcomes_of_window env k)) = length (filter id (replicate 48 True @ replicate 12 False))"
    by (rule mset_eq_length)
  then show "length (filter id (outcomes_of_window env k)) = 48" by (simp add: filter_replicate)
qed

lemma window_txs_mem:
  assumes "draws_ok env" "(w', i, d, is_fail) \<in> set (window_txs env (k, w))"
  shows "w' = w" "i < 60" "draw_ok d"
  using assms outcomes_counts(1)[OF assms(1), of k] by (auto simp: window_txs_def draws_ok_def in_set_enumerate_eq)

text \<open>Every event of a window lies in it, each outcome 5 to 16 seconds after its authorization.\<close>

lemma tx_events_in_window:
  assumes "draws_ok env" "snd w = fst w + minutes 5" "e \<in> set (events_of_window env pm ccy (k, w))"
  shows "in_window (fst w) (snd w) e"
proof -
  from assms(3) obtain i d is_fail w' where tx: "(w', i, d, is_fail) \<in> set (window_txs env (k, w))"
    and e: "e \<in> set (tx_events pm ccy (w', i, d, is_fail))" by (auto simp: events_of_window_def)
  note m = window_txs_mem[OF assms(1) tx]
  from tx_times[OF m(3,2) assms(2)] e show ?thesis
    unfolding m(1) by (auto simp: tx_events_def in_window_def auth_event_def term_event_def Let_def seconds_def)
qed

lemma counts_of_txs:
  "num_of failed (concat (map (tx_events pm ccy) txs)) = int (length (filter (\<lambda>(w, i, d, f). f) txs))"
  "num_of is_terminal (concat (map (tx_events pm ccy) txs)) = int (length txs)"
  by (induction txs)
    (auto simp: tx_events_def auth_event_def term_event_def failed_def is_terminal_def TERMINAL_EVENT_TYPES_def term_type_def
      Let_def)

lemma filter_enumerate_snd: "length (filter (\<lambda>(i, x). P x) (enumerate n xs)) = length (filter P xs)"
  by (induction xs arbitrary: n) auto

lemma window_counts:
  assumes "draws_ok env"
  shows "num_of failed (events_of_window env pm ccy kw) = 48"
    and "num_of is_terminal (events_of_window env pm ccy kw) = 60"
proof -
  obtain k w where kw: "kw = (k, w)" by (cases kw)
  have "length (filter (\<lambda>(w, i, d, f). f) (window_txs env kw)) = length (filter id (outcomes_of_window env k))"
    using filter_enumerate_snd[of id 0 "outcomes_of_window env k"]
    by (simp add: kw window_txs_def filter_map comp_def case_prod_unfold)
  then show "num_of failed (events_of_window env pm ccy kw) = 48"
    by (simp add: events_of_window_def counts_of_txs outcomes_counts(2)[OF assms])
  have "length (window_txs env kw) = 60" by (simp add: kw window_txs_def outcomes_counts(1)[OF assms])
  then show "num_of is_terminal (events_of_window env pm ccy kw) = 60"
    by (simp add: events_of_window_def counts_of_txs)
qed

lemma enumerate_mem: "(j, b) \<in> set (enumerate m xs) \<Longrightarrow> b \<in> set xs"
  by (auto simp only: enumerate_eq_zip dest: set_zip_rightD)

text \<open>Disjoint windows keep their events apart.\<close>

lemma filter_window:
  assumes ok: "draws_ok env" and len: "\<And>v. v \<in> set windows \<Longrightarrow> snd v = fst v + minutes 5"
    and apart: "sorted_wrt (\<lambda>v w. snd v \<le> fst w) windows" and kw: "(k, w) \<in> set (enumerate n windows)"
  shows "filter (in_window (fst w) (snd w)) (concat (map (events_of_window env pm ccy) (enumerate n windows))) =
    events_of_window env pm ccy (k, w)"
  using len apart kw
proof (induction windows arbitrary: n)
  case (Cons v windows)
  have all: "filter (in_window (fst v) (snd v)) (events_of_window env pm ccy (n, v)) = events_of_window env pm ccy (n, v)"
    using tx_events_in_window[OF ok Cons.prems(1)] by (intro filter_True) auto
  have other: "filter (in_window (fst a) (snd a)) (events_of_window env pm ccy (j, b)) = []"
    if "snd b = fst b + minutes 5" "snd a \<le> fst b \<or> snd b \<le> fst a" for a b j
    using tx_events_in_window[OF ok that(1)] that(2) by (fastforce intro!: filter_False simp: in_window_def)
  show ?case
  proof (cases "(k, w) = (n, v)")
    case True
    have "filter (in_window (fst v) (snd v)) (concat (map (events_of_window env pm ccy) (enumerate (Suc n) windows))) = []"
      unfolding filter_concat map_map concat_eq_Nil_conv
    proof
      fix es assume "es \<in> set (map (filter (in_window (fst v) (snd v)) \<circ> events_of_window env pm ccy) (enumerate (Suc n) windows))"
      then obtain j b where "(j, b) \<in> set (enumerate (Suc n) windows)"
        "es = filter (in_window (fst v) (snd v)) (events_of_window env pm ccy (j, b))"
        by (auto simp del: in_set_enumerate_eq)
      moreover from this(1) have "b \<in> set windows" by (rule enumerate_mem)
      ultimately have "b \<in> set windows"
        "es = filter (in_window (fst v) (snd v)) (events_of_window env pm ccy (j, b))" by blast+
      with Cons.prems(1,2) other[of b v j] show "es = []" by auto
    qed
    with True all show ?thesis by simp
  next
    case False
    then have mem: "(k, w) \<in> set (enumerate (Suc n) windows)" using Cons.prems(3) by auto
    then have "w \<in> set windows" by (rule enumerate_mem)
    then have "filter (in_window (fst w) (snd w)) (events_of_window env pm ccy (n, v)) = []"
      using Cons.prems(1,2) by (intro other) auto
    with Cons.IH[OF _ _ mem] Cons.prems show ?thesis by simp
  qed
qed simp

lemma windows_of_apart:
  "v \<in> set (windows_of now) \<Longrightarrow> snd v = fst v + minutes 5"
  "sorted_wrt (\<lambda>v w. snd v \<le> fst w) (windows_of now)"
  by (auto simp: windows_of_eq minutes_def)

section \<open>Stage 2 on the generated traffic\<close>

text \<open>Adding rows with fresh identities appends them.\<close>

lemma put_fresh:
  "snapshot_identity s \<notin> snapshot_identity ` set rows \<Longrightarrow> upsert_row s rows = rows @ [s]"
  "snapshot_identity s \<notin> snapshot_identity ` set rows \<Longrightarrow> put_baseline s rows = rows @ [s]"
  by (induction rows) auto

lemma fold_put_fresh:
  assumes "\<And>s rows. snapshot_identity s \<notin> snapshot_identity ` set rows \<Longrightarrow> put s rows = rows @ [s]"
    and "distinct (map snapshot_identity ss)" "snapshot_identity ` set ss \<inter> snapshot_identity ` set rows = {}"
  shows "fold put ss rows = rows @ ss"
  using assms(2,3)
proof (induction ss arbitrary: rows)
  case (Cons s ss)
  then have "put s rows = rows @ [s]" by (intro assms(1)) auto
  with Cons show ?case by auto
qed simp

interpretation baseline_table: keyed_table lookup_snapshot snapshot_identity put_baseline merge_baseline
proof
  show "lookup_snapshot (put_baseline r s) k = (if k = snapshot_identity r
      then Some (case lookup_snapshot s k of None \<Rightarrow> r | Some old \<Rightarrow> merge_baseline old r) else lookup_snapshot s k)" for r s k
    by (induction r s rule: put_baseline.induct) (auto simp: lookup_snapshot_def merge_baseline_def snapshot_identity_def)
qed (simp_all add: merge_baseline_def)

text \<open>Nothing is stored yet for the windows and for their counterparts of the four preceding weeks.\<close>

definition starts_in :: "window \<Rightarrow> int \<Rightarrow> snapshot \<Rightarrow> bool" where
  "starts_in w k s \<longleftrightarrow> fst w - weeks k \<le> hs_window_start s \<and> hs_window_start s < snd w - weeks k"

definition quiet :: "window list \<Rightarrow> ('a analytics_db_scheme) \<Rightarrow> bool" where
  "quiet windows db \<longleftrightarrow>
     list_all (\<lambda>w. list_all (\<lambda>e. \<not> (event_visible e \<and> in_window (fst w) (snd w) e)) (db_events db) \<and>
       list_all (\<lambda>s. \<not> list_ex (\<lambda>k. starts_in w k s) [0, 1, 2, 3, 4]) (db_snapshots db)) windows \<and>
     list_all (\<lambda>s. hs_window_start s < hs_window_end s) (db_snapshots db)"

lemma quiet_start:
  "quiet windows db \<Longrightarrow> w \<in> set windows \<Longrightarrow> s \<in> set (db_snapshots db) \<Longrightarrow> k \<in> {0, 1, 2, 3, 4} \<Longrightarrow> \<not> starts_in w k s"
  by (auto simp: quiet_def list_all_iff)

lemma baseline_row_simps [simp]:
  "hs_window_start (baseline_row i now w seg) = fst w - weeks 1" "hs_window_end (baseline_row i now w seg) = snd w - weeks 1"
  "hs_dimension (baseline_row i now w seg) = fst seg" "hs_value (baseline_row i now w seg) = snd seg"
  "hs_success_rate (baseline_row i now w seg) = Some (fl (85 / 100))"
  by (simp_all add: baseline_row_def)

definition w_of :: "datetime \<Rightarrow> int \<Rightarrow> window" where
  "w_of now k = (w0_of now - minutes (5 * k), w0_of now - minutes (5 * k) + minutes 5)"

lemma windows_of_w: "windows_of now = [w_of now 3, w_of now 2, w_of now 1]"
  by (simp add: windows_of_eq w_of_def)

lemma baseline_rows_eq:
  "baseline_rows ids (windows_of now) pm t =
     [baseline_row (ids 0) t (w_of now 3) (''GLOBAL'', ''ALL''), baseline_row (ids 1) t (w_of now 3) (''payment_method'', pm),
      baseline_row (ids 2) t (w_of now 2) (''GLOBAL'', ''ALL''), baseline_row (ids 3) t (w_of now 2) (''payment_method'', pm),
      baseline_row (ids 4) t (w_of now 1) (''GLOBAL'', ''ALL''), baseline_row (ids 5) t (w_of now 1) (''payment_method'', pm)]"
  by (simp add: baseline_rows_def windows_of_w enumerate_eq_zip eval_nat_numeral)

lemma seed_baselines_quiet:
  assumes "quiet (windows_of now) db"
  shows "snd (seed_historical_baselines ids (windows_of now) pm t db) =
    db\<lparr>db_snapshots := db_snapshots db @ baseline_rows ids (windows_of now) pm t\<rparr>"
proof -
  have "fold put_baseline (baseline_rows ids (windows_of now) pm t) (db_snapshots db) =
      db_snapshots db @ baseline_rows ids (windows_of now) pm t"
  proof (rule fold_put_fresh[OF put_fresh(2)])
    show "distinct (map snapshot_identity (baseline_rows ids (windows_of now) pm t))"
      by (simp add: baseline_rows_eq snapshot_identity_def w_of_def minutes_def)
    have "hs_window_start s \<noteq> fst w - weeks 1" if "s \<in> set (db_snapshots db)" "w \<in> set (windows_of now)" for s w
      using assms that windows_of_apart(1)[OF that(2)] by (force simp: quiet_def list_all_iff starts_in_def minutes_def)
    moreover have "\<exists>w\<in>set (windows_of now). hs_window_start r = fst w - weeks 1" if "r \<in> set (baseline_rows ids (windows_of now) pm t)" for r
      using that unfolding baseline_rows_eq unfolding windows_of_w by auto
    ultimately show "snapshot_identity ` set (baseline_rows ids (windows_of now) pm t) \<inter> snapshot_identity ` set (db_snapshots db) = {}"
      unfolding snapshot_identity_def by fastforce
  qed
  then show ?thesis by (simp add: seed_historical_baselines_def Let_def)
qed

text \<open>The database that Stage 2 finds.\<close>

definition seeded :: "context_env \<Rightarrow> string \<Rightarrow> string \<Rightarrow> ('a analytics_db_scheme) \<Rightarrow> ('a analytics_db_scheme) \<Rightarrow> bool" where
  "seeded env pm ccy db db1 \<longleftrightarrow>
     db_events db1 = db_events db @ generated_events env pm ccy (windows_of (ce_now env)) \<and>
     db_snapshots db1 = db_snapshots db @ baseline_rows (ce_baseline_ids env) (windows_of (ce_now env)) pm (ce_now env)"

lemma hist_start:
  assumes "j \<in> {1, 2, 3}" "k \<in> {1, 2, 3}"
  shows "fst (w_of n j) - weeks 1 \<in> {fst (w_of n k) - weeks 1, fst (w_of n k) - weeks 2, fst (w_of n k) - weeks 3,
      fst (w_of n k) - weeks 4} \<longleftrightarrow> j = k"
  using assms unfolding w_of_def duration_defs fst_conv by (elim insertE emptyE; simp)

lemma historical_seeded:
  assumes q: "quiet (windows_of (ce_now env)) db" and s: "seeded env pm ccy db db1" and w: "w \<in> set (windows_of (ce_now env))"
  shows "\<exists>i. get_historical_snapshots db1 (fst w) ''GLOBAL'' ''ALL'' 4 = [baseline_row i (ce_now env) w (''GLOBAL'', ''ALL'')]"
proof -
  define P where "P m \<longleftrightarrow> hs_window_start m \<in> set (map (\<lambda>i. fst w - weeks (int i)) [1..<4 + 1]) \<and>
      hs_dimension m = ''GLOBAL'' \<and> hs_value m = ''ALL''" for m  :: snapshot
  have "[1..<4 + 1] = [1, 2, 3, 4 :: nat]" by code_simp
  then have P: "P m \<longleftrightarrow> hs_window_start m \<in> {fst w - weeks 1, fst w - weeks 2, fst w - weeks 3, fst w - weeks 4} \<and>
      hs_dimension m = ''GLOBAL'' \<and> hs_value m = ''ALL''" for m by (simp only: P_def) simp
  have "hs_window_start s \<noteq> fst w - weeks k" if "s \<in> set (db_snapshots db)" "k \<in> {0, 1, 2, 3, 4}" for s k
    using quiet_start[OF q w that] windows_of_apart(1)[OF w] by (auto simp: starts_in_def minutes_def)
  then have none: "filter P (db_snapshots db) = []" unfolding filter_empty_conv P by blast
  obtain k where k: "w = w_of (ce_now env) k" "k \<in> {1, 2, 3}" using w by (auto simp: windows_of_w)
  have row: "P (baseline_row i t (w_of (ce_now env) j) seg) \<longleftrightarrow> j = k \<and> seg = (''GLOBAL'', ''ALL'')"
    if "j \<in> {1, 2, 3}" for i t j seg
    unfolding P baseline_row_simps k(1) hist_start[OF that k(2)] by (simp add: prod_eq_iff)
  have "\<exists>i. filter P (baseline_rows (ce_baseline_ids env) (windows_of (ce_now env)) pm (ce_now env)) =
      [baseline_row i (ce_now env) w (''GLOBAL'', ''ALL'')]"
    using k(2) by (auto simp: baseline_rows_eq row k(1))
  with none s show ?thesis
    by (auto simp: get_historical_snapshots_def seeded_def P_def[abs_def] simp del: upt_Suc)
qed

lemma events_seeded:
  assumes ok: "draws_ok env" and q: "quiet (windows_of (ce_now env)) db" and s: "seeded env pm ccy db db1"
    and w: "(k, w) \<in> set (enumerate 0 (windows_of (ce_now env)))"
  shows "get_events_in_window db1 (fst w) (snd w) = events_of_window env pm ccy (k, w)"
proof -
  have mem: "w \<in> set (windows_of (ce_now env))" using w by (rule enumerate_mem)
  have visible: "event_visible e" if "e \<in> set (events_of_window env pm ccy (k, w))" for e
    using that by (auto simp: events_of_window_def tx_events_def auth_event_def term_event_def Let_def event_visible_def
        GENERATED_SOURCE_SYSTEM_def source_defs)
  have split: "filter (\<lambda>e. fst w \<le> ev_timestamp e \<and> ev_timestamp e < snd w \<and> event_visible e) es =
      filter event_visible (filter (in_window (fst w) (snd w)) es)" for es
    by (simp add: in_window_def conj_ac)
  have "filter event_visible (filter (in_window (fst w) (snd w)) (db_events db)) = []"
    using q mem by (auto simp: quiet_def list_all_iff filter_empty_conv)
  moreover have "filter (in_window (fst w) (snd w)) (generated_events env pm ccy (windows_of (ce_now env))) =
      events_of_window env pm ccy (k, w)"
    unfolding generated_events_windows by (rule filter_window[OF ok _ windows_of_apart(2) w]) (rule windows_of_apart(1))
  then have "filter event_visible (filter (in_window (fst w) (snd w)) (generated_events env pm ccy (windows_of (ce_now env)))) =
      events_of_window env pm ccy (k, w)"
    using visible by (simp add: filter_True)
  ultimately show ?thesis using s by (simp add: get_events_in_window_def split seeded_def)
qed

text \<open>The snapshots Stage 2 stores for a window.\<close>

definition stored_for :: "context_env \<Rightarrow> ('a analytics_db_scheme) \<Rightarrow> nat \<times> window \<Rightarrow> snapshot list" where
  "stored_for env db1 = (\<lambda>(k, w). window_snapshots (ce_snapshot_ids env k) (ce_clock env k) (fst w) (snd w) db1)"

definition global_snapshot :: "window \<Rightarrow> snapshot \<Rightarrow> bool" where
  "global_snapshot w s \<longleftrightarrow>
     snapshot_identity s = (fst w, snd w, ''GLOBAL'', ''ALL'') \<and> hs_transaction_count s = 60 \<and>
     hs_failed_count s = 48 \<and> hs_success_rate s = Some (int_truediv 12 60) \<and>
     hs_failure_rate s = Some (int_truediv 48 60) \<and> hs_baseline_success_rate s = Some (fl (85 / 100)) \<and>
     \<not> hs_insufficient_volume s"

lemma calculate_baseline_single: "hs_success_rate s = Some r \<Longrightarrow> calculate_baseline [s] = Some r"
  by (simp add: calculate_baseline_def List.map_filter_simps median_def Let_def)

lemma global_in_calculate:
  assumes "events \<noteq> []" "filter (in_window ws we) events = events"
  shows "\<exists>s\<in>set (calculate_health_metrics_for_window ids now events ws we th).
    hs_dimension s = ''GLOBAL'' \<and> hs_value s = ''ALL'' \<and> (\<exists>i. s = segment_snapshot i now th ws we ''GLOBAL'' ''ALL'' events)"
proof -
  have all: "filter (\<lambda>e. in_window ws we e \<and> get_segment_value e ''GLOBAL'' = ''ALL'') events = events"
    using assms(2) by (simp add: get_segment_value_def)
  then have "map_of (segments_of ''GLOBAL'' ws we events) ''ALL'' = Some events"
    using segments_of_lookup[OF assms(1), of "''GLOBAL''" ws we "''ALL''"] assms(1) by (simp add: Let_def)
  then have "''ALL'' \<in> set (map fst (segments_of ''GLOBAL'' ws we events))" by (force dest: map_of_SomeD)
  then have "(''GLOBAL'', ''ALL'') \<in> set (map (\<lambda>s. (hs_dimension s, hs_value s)) (calculate_health_metrics_for_window ids now events ws we th))"
    unfolding calculate_identity_map by (auto simp: DIMENSIONS_def)
  then obtain s where s: "s \<in> set (calculate_health_metrics_for_window ids now events ws we th)"
    "hs_dimension s = ''GLOBAL''" "hs_value s = ''ALL''" by auto
  from s(1) obtain i where "s = segment_snapshot i now th ws we (hs_dimension s) (hs_value s)
    (filter (\<lambda>e. in_window ws we e \<and> get_segment_value e (hs_dimension s) = hs_value s) events)" by (rule calculate_exact)
  then have "s = segment_snapshot i now th ws we ''GLOBAL'' ''ALL'' events" unfolding s(2,3) all .
  with s show ?thesis by blast
qed

lemma stored_global:
  assumes ok: "draws_ok env" and q: "quiet (windows_of (ce_now env)) db" and s: "seeded env pm ccy db db1"
    and w: "(k, w) \<in> set (enumerate 0 (windows_of (ce_now env)))"
  shows "\<exists>s\<in>set (stored_for env db1 (k, w)). global_snapshot w s"
proof -
  let ?es = "events_of_window env pm ccy (k, w)"
  have mem: "w \<in> set (windows_of (ce_now env))" using w by (rule enumerate_mem)
  note counts = window_counts[OF ok, of pm ccy "(k, w)"]
  have "?es \<noteq> []" using counts by auto
  moreover have "filter (in_window (fst w) (snd w)) ?es = ?es"
    using tx_events_in_window[OF ok windows_of_apart(1)[OF mem]] by (intro filter_True) auto
  ultimately obtain r i where r: "r \<in> set (calculate_health_metrics_for_window (ce_snapshot_ids env k) (ce_clock env k) ?es (fst w)
      (snd w) MIN_TRANSACTION_THRESHOLD)"
    "r = segment_snapshot i (ce_clock env k) MIN_TRANSACTION_THRESHOLD (fst w) (snd w) ''GLOBAL'' ''ALL'' ?es"
    using global_in_calculate by blast
  from historical_seeded[OF q s mem] obtain j where
    hist: "calculate_baseline (get_historical_snapshots db1 (fst w) ''GLOBAL'' ''ALL'' 4) = Some (fl (85 / 100))"
    by (auto simp: calculate_baseline_single)
  let ?s = "r\<lparr>hs_baseline_success_rate := Some (fl (85 / 100))\<rparr>"
  have id: "hs_dimension r = ''GLOBAL''" "hs_value r = ''ALL''" by (simp_all add: r(2))
  have "?s \<in> set (stored_for env db1 (k, w))"
    unfolding stored_for_def window_snapshots_def prod.case events_seeded[OF ok q s w]
    using r(1) id hist by force
  moreover have captured: "num_of captured ?es = 12" using counts num_of_terminal[of ?es] by simp
  have "snapshot_wf r" by (simp add: r(2) segment_snapshot_wf)
  then have "global_snapshot w ?s"
    using counts captured by (simp add: global_snapshot_def snapshot_identity_def r(2) snapshot_wf_def MIN_TRANSACTION_THRESHOLD_def)
  ultimately show ?thesis by blast
qed

lemma stored_rows:
  assumes "s \<in> set (stored_for env db1 (k, w))"
  shows "hs_window_start s = fst w" "hs_window_end s = snd w" "hs_dimension s \<in> set DIMENSIONS"
    "hs_insufficient_volume s \<or> hs_success_rate s \<noteq> None"
proof -
  from assms obtain r b where r: "r \<in> set (calculate_health_metrics_for_window (ce_snapshot_ids env k) (ce_clock env k)
      (get_events_in_window db1 (fst w) (snd w)) (fst w) (snd w) MIN_TRANSACTION_THRESHOLD)"
    and s: "s = r\<lparr>hs_baseline_success_rate := b\<rparr>"
    by (auto simp: stored_for_def window_snapshots_def)
  from r obtain i d v es where d: "d \<in> set DIMENSIONS" "r = segment_snapshot i (ce_clock env k) MIN_TRANSACTION_THRESHOLD
      (fst w) (snd w) d v es" by (rule in_calculate)
  have "snapshot_wf r" by (simp add: d(2) segment_snapshot_wf)
  then show "hs_insufficient_volume s \<or> hs_success_rate s \<noteq> None"
    unfolding s by (auto simp: snapshot_wf_def d(2) MIN_TRANSACTION_THRESHOLD_def split: if_splits)
  show "hs_window_start s = fst w" "hs_window_end s = snd w" "hs_dimension s \<in> set DIMENSIONS"
    using d by (simp_all add: s)
qed

lemma stored_distinct: "distinct (map snapshot_identity (stored_for env db1 kw))"
  by (simp add: stored_for_def case_prod_unfold window_snapshots_distinct)

lemma window_snapshots_extra:
  assumes "\<And>r. r \<in> set extra \<Longrightarrow> hs_window_start r \<notin> {ws - weeks 1, ws - weeks 2, ws - weeks 3, ws - weeks 4}"
  shows "window_snapshots ids now ws we (db\<lparr>db_snapshots := db_snapshots db @ extra\<rparr>) = window_snapshots ids now ws we db"
proof -
  have "[1..<4 + 1] = [1, 2, 3, 4 :: nat]" by code_simp
  then have starts: "set (map (\<lambda>i. ws - weeks (int i)) [1..<4 + 1]) = {ws - weeks 1, ws - weeks 2, ws - weeks 3, ws - weeks 4}"
    by (simp only:) simp
  have "filter (\<lambda>m. hs_window_start m \<in> set (map (\<lambda>i. ws - weeks (int i)) [1..<4 + 1]) \<and> hs_dimension m = d \<and> hs_value m = v) extra = []"
    for d v unfolding starts filter_empty_conv using assms by blast
  then have "get_historical_snapshots (db\<lparr>db_snapshots := db_snapshots db @ extra\<rparr>) ws d v 4 = get_historical_snapshots db ws d v 4"
    for d v by (simp add: get_historical_snapshots_def del: upt_Suc)
  then show ?thesis by (simp add: window_snapshots_def get_events_in_window_def)
qed

definition stage2_expected :: "nat \<times> window \<Rightarrow> stage2_result" where
  "stage2_expected = (\<lambda>(k, w).
     \<lparr>s2_window_index = int k - 3, s2_window_start = fst w, s2_window_end = snd w, s2_transaction_count = 60,
      s2_failed_count = 48, s2_failure_rate = int_truediv 48 60, s2_baseline_success_rate = Some (fl (85 / 100)),
      s2_insufficient_volume = False\<rparr>)"

lemma baseline_rows_start:
  "r \<in> set (baseline_rows ids (windows_of now) pm t) \<Longrightarrow> \<exists>w\<in>set (windows_of now). hs_window_start r = fst w - weeks 1"
  unfolding baseline_rows_eq unfolding windows_of_w by auto

lemma window_order:
  assumes "v \<in> set (windows_of now)" "w \<in> set (windows_of now)"
  shows "\<bar>fst v - fst w\<bar> \<le> minutes 10"
  using assms unfolding windows_of_w set_simps w_of_def minutes_def by (elim insertE emptyE; simp)

text \<open>Two windows of the run: distinct starts, and no start of one is a historical start of the other.\<close>

lemma window_starts:
  assumes "v \<in> set (windows_of now)" "w \<in> set (windows_of now)"
  shows "fst v \<notin> {fst w - weeks 1, fst w - weeks 2, fst w - weeks 3, fst w - weeks 4}"
    and "fst w \<le> fst v \<Longrightarrow> snd v \<le> snd w \<Longrightarrow> v = w"
  using window_order[OF assms] window_order[OF assms(2,1)] windows_of_apart(1)[OF assms(1)] windows_of_apart(1)[OF assms(2)]
  by (auto simp: duration_defs prod_eq_iff)

lemma seeded_starts:
  assumes q: "quiet (windows_of (ce_now env)) db" and s: "seeded env pm ccy db db1" and w: "w \<in> set (windows_of (ce_now env))"
    and r: "r \<in> set (db_snapshots db1)"
  shows "\<not> (fst w \<le> hs_window_start r \<and> hs_window_start r < snd w)"
proof -
  from s r consider "r \<in> set (db_snapshots db)"
    | "r \<in> set (baseline_rows (ce_baseline_ids env) (windows_of (ce_now env)) pm (ce_now env))" by (auto simp: seeded_def)
  then show ?thesis
  proof cases
    case 1
    then show ?thesis using quiet_start[OF q w 1, of 0] by (simp add: starts_in_def weeks_def)
  next
    case 2
    then obtain v where v: "v \<in> set (windows_of (ce_now env))" "hs_window_start r = fst v - weeks 1"
      using baseline_rows_start by blast
    show ?thesis using window_order[OF v(1) w] v(2) windows_of_apart(1)[OF w] unfolding duration_defs by linarith
  qed
qed

lemma stage2_step:
  assumes ok: "draws_ok env" and q: "quiet (windows_of (ce_now env)) db" and s: "seeded env pm ccy db db1"
    and w: "(k, w) \<in> set (enumerate 0 (windows_of (ce_now env)))"
    and X: "\<And>r. r \<in> set X \<Longrightarrow> \<exists>v\<in>set (windows_of (ce_now env)). v \<noteq> w \<and> hs_window_start r = fst v"
  shows "stage2_window env (k, w) (res, db1\<lparr>db_snapshots := db_snapshots db1 @ X\<rparr>) =
    Inr (res @ [stage2_expected (k, w)], db1\<lparr>db_snapshots := db_snapshots db1 @ X @ stored_for env db1 (k, w)\<rparr>)"
proof -
  let ?W = "stored_for env db1 (k, w)" and ?db = "db1\<lparr>db_snapshots := db_snapshots db1 @ X\<rparr>"
  have mem: "w \<in> set (windows_of (ce_now env))" using w by (rule enumerate_mem)
  have len: "snd w = fst w + minutes 5" by (rule windows_of_apart(1)[OF mem])
  have inj: "inj (ce_snapshot_ids env k)" using ok by (simp add: draws_ok_def)
  have same: "window_snapshots (ce_snapshot_ids env k) (ce_clock env k) (fst w) (snd w) ?db = ?W"
    unfolding stored_for_def prod.case
  proof (rule window_snapshots_extra)
    fix r assume "r \<in> set X"
    then obtain v where v: "v \<in> set (windows_of (ce_now env))" "hs_window_start r = fst v" using X by blast
    show "hs_window_start r \<notin> {fst w - weeks 1, fst w - weeks 2, fst w - weeks 3, fst w - weeks 4}"
      unfolding v(2) by (rule window_starts(1)[OF v(1) mem])
  qed
  have other: "hs_window_start r \<noteq> fst w" if "r \<in> set (db_snapshots db1 @ X)" for r
  proof -
    from that consider "r \<in> set (db_snapshots db1)" | "r \<in> set X" by auto
    then show ?thesis
    proof cases
      case 1
      show ?thesis using seeded_starts[OF q s mem 1] len by (auto simp: minutes_def)
    next
      case 2
      then obtain v where v: "v \<in> set (windows_of (ce_now env))" "v \<noteq> w" "hs_window_start r = fst v" using X by blast
      show ?thesis using window_starts(2)[OF v(1) mem] windows_of_apart(1)[OF v(1)] len v(2,3) by auto
    qed
  qed
  then have fresh: "snapshot_identity r \<noteq> (fst w, e, d, v)" if "r \<in> set (db_snapshots db1 @ X)" for r e d v
    using that by (auto simp: snapshot_identity_def)
  have "snapshot_identity ` set ?W \<inter> snapshot_identity ` set (db_snapshots db1 @ X) = {}"
  proof -
    have "snapshot_identity a \<noteq> snapshot_identity b" if "a \<in> set ?W" "b \<in> set (db_snapshots db1 @ X)" for a b
      using stored_rows(1)[OF that(1)] other[OF that(2)] by (auto simp: snapshot_identity_def)
    then show ?thesis by blast
  qed
  then have "fold upsert_row ?W (db_snapshots db1 @ X) = (db_snapshots db1 @ X) @ ?W"
    by (intro fold_put_fresh[OF put_fresh(1) stored_distinct])
  then have save: "calculate_and_save_window (ce_snapshot_ids env k) (ce_clock env k) (fst w) (snd w) ?db =
      db1\<lparr>db_snapshots := db_snapshots db1 @ X @ ?W\<rparr>"
    unfolding calculate_and_save_window_eq[OF inj] same by simp
  from stored_global[OF ok q s w] obtain g where g: "g \<in> set ?W" "global_snapshot w g" by blast
  have "find (\<lambda>r. snapshot_identity r = (fst w, snd w, ''GLOBAL'', ''ALL'')) (db_snapshots db1 @ X @ ?W) =
      find (\<lambda>r. snapshot_identity r = (fst w, snd w, ''GLOBAL'', ''ALL'')) ?W"
  proof -
    have "find (\<lambda>r. snapshot_identity r = (fst w, snd w, ''GLOBAL'', ''ALL'')) (db_snapshots db1 @ X) = None"
      using fresh unfolding find_None_iff by blast
    then show ?thesis unfolding append_assoc[symmetric] by (simp only: find_append option.case)
  qed
  also have "\<dots> = Some g" using g by (simp add: find_by_key[OF stored_distinct] global_snapshot_def)
  finally show ?thesis
    using g(2) by (simp add: stage2_window_def save Let_def stage2_expected_def global_snapshot_def)
qed

definition stage2_db :: "context_env \<Rightarrow> ('a analytics_db_scheme) \<Rightarrow> ('a analytics_db_scheme)" where
  "stage2_db env db1 =
     db1\<lparr>db_snapshots := db_snapshots db1 @ concat (map (stored_for env db1) (enumerate 0 (windows_of (ce_now env))))\<rparr>"

lemma run_stage2_seeded:
  assumes ok: "draws_ok env" and q: "quiet (windows_of (ce_now env)) db" and s: "seeded env pm ccy db db1"
  shows "run_stage2_analytics env (windows_of (ce_now env)) db1 =
    Inr (map stage2_expected (enumerate 0 (windows_of (ce_now env))), stage2_db env db1)"
proof -
  let ?n = "ce_now env"
  have enum: "enumerate 0 (windows_of ?n) = [(0, w_of ?n 3), (1, w_of ?n 2), (2, w_of ?n 1)]"
    by (simp add: windows_of_w)
  have start: "\<And>r k v. r \<in> set (stored_for env db1 (k, v)) \<Longrightarrow> hs_window_start r = fst v" by (rule stored_rows(1))
  have ne: "w_of ?n 3 \<noteq> w_of ?n 2" "w_of ?n 3 \<noteq> w_of ?n 1" "w_of ?n 2 \<noteq> w_of ?n 1" by (simp_all add: w_of_def minutes_def)
  note step = stage2_step[OF ok q s]
  have mem: "(0, w_of ?n 3) \<in> set (enumerate 0 (windows_of ?n))" "(1, w_of ?n 2) \<in> set (enumerate 0 (windows_of ?n))"
    "(2, w_of ?n 1) \<in> set (enumerate 0 (windows_of ?n))" unfolding enum by simp_all
  have 0: "stage2_window env (0, w_of ?n 3) ([], db1) = Inr ([stage2_expected (0, w_of ?n 3)],
      db1\<lparr>db_snapshots := db_snapshots db1 @ stored_for env db1 (0, w_of ?n 3)\<rparr>)"
    using step[OF mem(1), of "[]" "[]"] by simp
  have 1: "stage2_window env (1, w_of ?n 2) ([stage2_expected (0, w_of ?n 3)],
      db1\<lparr>db_snapshots := db_snapshots db1 @ stored_for env db1 (0, w_of ?n 3)\<rparr>) =
      Inr ([stage2_expected (0, w_of ?n 3), stage2_expected (1, w_of ?n 2)],
        db1\<lparr>db_snapshots := db_snapshots db1 @ stored_for env db1 (0, w_of ?n 3) @ stored_for env db1 (1, w_of ?n 2)\<rparr>)"
    using step[OF mem(2), of "stored_for env db1 (0, w_of ?n 3)"] start ne by (simp add: windows_of_w)
  have 2: "stage2_window env (2, w_of ?n 1) ([stage2_expected (0, w_of ?n 3), stage2_expected (1, w_of ?n 2)],
      db1\<lparr>db_snapshots := db_snapshots db1 @ stored_for env db1 (0, w_of ?n 3) @ stored_for env db1 (1, w_of ?n 2)\<rparr>) =
      Inr ([stage2_expected (0, w_of ?n 3), stage2_expected (1, w_of ?n 2), stage2_expected (2, w_of ?n 1)],
        db1\<lparr>db_snapshots := db_snapshots db1 @ (stored_for env db1 (0, w_of ?n 3) @ stored_for env db1 (1, w_of ?n 2)) @
          stored_for env db1 (2, w_of ?n 1)\<rparr>)"
    using step[OF mem(3), of "stored_for env db1 (0, w_of ?n 3) @ stored_for env db1 (1, w_of ?n 2)"] start ne
    by (fastforce simp: windows_of_w)
  show ?thesis unfolding run_stage2_analytics_def stage2_db_def enum by (simp add: 0 1[simplified] 2[simplified])
qed

section \<open>Stage 3: one segment leaves the others alone\<close>

definition episode_row_ok :: "degradation_episode \<Rightarrow> bool" where
  "episode_row_ok e \<longleftrightarrow>
     ep_dimension e \<in> set DIMENSIONS \<and> ep_episode_id e = make_episode_id (ep_dimension e) (ep_value e) (ep_started_at e)"

definition episodes_ok :: "('a degradation_db_scheme) \<Rightarrow> bool" where
  "episodes_ok db \<longleftrightarrow> distinct (map ep_episode_id (db_episodes db)) \<and> list_all episode_row_ok (db_episodes db)"

text \<open>No dimension name contains a colon, so an episode id determines the segment and the start.\<close>

lemma append_first_sep: "c \<notin> set a \<Longrightarrow> c \<notin> set b \<Longrightarrow> a @ c # s = b @ c # t \<Longrightarrow> a = b \<and> s = t"
proof (induction a arbitrary: b)
  case Nil
  then show ?case by (cases b) auto
next
  case (Cons x a)
  then show ?case by (cases b) auto
qed

lemma make_episode_id_inject:
  assumes "d \<in> set DIMENSIONS" "d' \<in> set DIMENSIONS" "make_episode_id d v t = make_episode_id d' v' t'"
  shows "d = d' \<and> v = v' \<and> t = t'"
proof -
  have colon: "Ch CHR '':'' \<notin> set (chars x)" if "x \<in> set DIMENSIONS" for x
    using that by (auto simp: DIMENSIONS_def chars_def)
  have "chars d @ Ch CHR '':'' # (chars v @ [Ch CHR '':'', Iso t]) = chars d' @ Ch CHR '':'' # (chars v' @ [Ch CHR '':'', Iso t'])"
    using assms(3) unfolding make_episode_id_def uuid.inject by blast
  then have "chars d = chars d' \<and> chars v @ [Ch CHR '':'', Iso t] = chars v' @ [Ch CHR '':'', Iso t']"
    by (rule append_first_sep[OF colon[OF assms(1)] colon[OF assms(2)]])
  then show ?thesis by simp
qed

definition in_segment :: "string \<times> string \<Rightarrow> degradation_episode \<Rightarrow> bool" where
  "in_segment sv e \<longleftrightarrow> ep_dimension e = fst sv \<and> ep_value e = snd sv"

lemma same_segment:
  assumes "episode_row_ok a" "episode_row_ok b" "ep_episode_id a = ep_episode_id b"
  shows "ep_dimension a = ep_dimension b" "ep_value a = ep_value b" "ep_started_at a = ep_started_at b"
  using make_episode_id_inject[of "ep_dimension a" "ep_dimension b" "ep_value a" "ep_started_at a" "ep_value b" "ep_started_at b"]
    assms by (auto simp: episode_row_ok_def)

lemma merge_episode_simps [simp]:
  "ep_episode_id (merge_episode r e) = ep_episode_id r" "ep_dimension (merge_episode r e) = ep_dimension r"
  "ep_value (merge_episode r e) = ep_value r" "ep_started_at (merge_episode r e) = ep_started_at r"
  by (simp_all add: merge_episode_def)

lemma put_episode_ids:
  "map ep_episode_id (put_episode e rows) =
     (if ep_episode_id e \<in> set (map ep_episode_id rows) then map ep_episode_id rows else map ep_episode_id rows @ [ep_episode_id e])"
  by (induction rows) auto

lemma put_episode_rows_ok: "list_all episode_row_ok rows \<Longrightarrow> episode_row_ok e \<Longrightarrow> list_all episode_row_ok (put_episode e rows)"
  by (induction rows) (auto simp: episode_row_ok_def)

lemma put_episode_other:
  assumes "list_all episode_row_ok rows" "episode_row_ok e" "\<not> in_segment sv e"
  shows "filter (in_segment sv) (put_episode e rows) = filter (in_segment sv) rows"
  using assms
proof (induction rows)
  case (Cons r rows)
  then show ?case using same_segment[of r e] by (auto simp: in_segment_def)
qed simp

text \<open>What an operation on segment \<open>sv\<close> leaves as it was.\<close>

definition keeps_others :: "string \<times> string \<Rightarrow> ('a degradation_db_scheme) \<Rightarrow> ('a degradation_db_scheme) \<Rightarrow> bool" where
  "keeps_others sv db db' \<longleftrightarrow>
     (episodes_ok db \<longrightarrow>
        episodes_ok db' \<and> db_snapshots db' = db_snapshots db \<and>
        (\<forall>d v. (d, v) \<noteq> sv \<longrightarrow>
           filter (for_segment d v) (db_signals db') = filter (for_segment d v) (db_signals db) \<and>
           filter (in_segment (d, v)) (db_episodes db') = filter (in_segment (d, v)) (db_episodes db)))"

lemma keeps_others_refl: "keeps_others sv db db"
  by (simp add: keeps_others_def)

lemma keeps_others_trans: "keeps_others sv a b \<Longrightarrow> keeps_others sv b c \<Longrightarrow> keeps_others sv a c"
  by (auto simp: keeps_others_def)

lemma keeps_upsert:
  assumes "episode_row_ok e" "in_segment sv e"
  shows "keeps_others sv db (upsert_episode run_id ts e db)"
  using assms put_episode_rows_ok[of "db_episodes db" e] put_episode_other[of "db_episodes db" e]
  by (auto simp: keeps_others_def upsert_episode_def episodes_ok_def put_episode_ids get_latest_signals_for_segment_def
      in_segment_def prod_eq_iff)

lemma keeps_fold:
  assumes "\<And>x db. x \<in> set xs \<Longrightarrow> keeps_others sv db (f x db)"
  shows "keeps_others sv db (fold f xs db)"
  using assms
proof (induction xs arbitrary: db)
  case (Cons x xs)
  then have "keeps_others sv db (f x db)" "keeps_others sv (f x db) (fold f xs (f x db))" by auto
  then show ?case unfolding fold.simps comp_def by (rule keeps_others_trans)
qed (simp add: keeps_others_refl)

text \<open>A run on one snapshot whose rate is known.\<close>

definition rate_known :: "snapshot \<Rightarrow> bool" where
  "rate_known s \<longleftrightarrow> hs_insufficient_volume s \<or> hs_success_rate s \<noteq> None"

lemma evaluate_rate_known:
  assumes "rate_known s"
  obtains sig where "evaluate_snapshot i s n t = Inr sig" "sig_dimension sig = hs_dimension s" "sig_value sig = hs_value s"
    "sig_window_start sig = hs_window_start s"
proof -
  have "\<exists>sig. evaluate_snapshot i s n t = Inr sig"
    using assms by (cases "hs_baseline_success_rate s"; cases "hs_success_rate s")
      (auto simp: rate_known_def evaluate_snapshot_def Let_def)
  then obtain sig where "evaluate_snapshot i s n t = Inr sig" by blast
  moreover from this have "sig_dimension sig = hs_dimension s" "sig_value sig = hs_value s" "sig_window_start sig = hs_window_start s"
    by (auto simp: evaluate_snapshot_def bind_result_Inr split: option.splits)
  ultimately show thesis by (rule that)
qed

lemma process_one:
  assumes "rate_known s"
  obtains sig eps where
    "evaluate_snapshot (ids 0) s (get_max_evaluation_version db (hs_dimension s, hs_value s, hs_window_start s) + 1) t = Inr sig"
    "reconcile_timeline (get_latest_signals_for_segment (append_signal sig db) (hs_dimension s) (hs_value s)) = Inr eps"
    "list_all (episode_of (hs_dimension s) (hs_value s)
       (get_latest_signals_for_segment (append_signal sig db) (hs_dimension s) (hs_value s))) eps"
    "process_snapshots ids run_id [s] t db = Inr (fold (upsert_episode run_id t) eps
       (fold (invalidate_stale run_id t (map ep_episode_id eps))
          (get_episodes_for_segment (append_signal sig db) (hs_dimension s) (hs_value s)) (append_signal sig db)))"
proof -
  obtain sig where sig: "evaluate_snapshot (ids 0) s
      (get_max_evaluation_version db (hs_dimension s, hs_value s, hs_window_start s) + 1) t = Inr sig"
    using evaluate_rate_known[OF assms] by metis
  obtain eps where eps: "reconcile_timeline (get_latest_signals_for_segment (append_signal sig db) (hs_dimension s) (hs_value s)) = Inr eps"
    "list_all (episode_of (hs_dimension s) (hs_value s)
       (get_latest_signals_for_segment (append_signal sig db) (hs_dimension s) (hs_value s))) eps"
    using latest_signals_replay by blast
  have "process_snapshots ids run_id [s] t db = Inr (fold (upsert_episode run_id t) eps
       (fold (invalidate_stale run_id t (map ep_episode_id eps))
          (get_episodes_for_segment (append_signal sig db) (hs_dimension s) (hs_value s)) (append_signal sig db)))"
    using sig eps(1) by (simp add: process_snapshots_def append_evaluation_def Let_def)
  with sig eps show thesis by (rule that)
qed

lemma keeps_append:
  assumes "sig_dimension sig = fst sv" "sig_value sig = snd sv"
  shows "keeps_others sv db (append_signal sig db)"
  using assms by (auto simp: keeps_others_def append_signal_def episodes_ok_def get_latest_signals_for_segment_def for_segment_def
      prod_eq_iff)

lemma process_one_keeps:
  assumes "rate_known s" "hs_dimension s \<in> set DIMENSIONS" "episodes_ok db"
  shows "\<exists>db'. process_snapshots ids run_id [s] t db = Inr db' \<and> keeps_others (hs_dimension s, hs_value s) db db'"
proof -
  let ?sv = "(hs_dimension s, hs_value s)"
  obtain sig eps where p: "evaluate_snapshot (ids 0) s (get_max_evaluation_version db (hs_dimension s, hs_value s, hs_window_start s) + 1) t = Inr sig"
    "list_all (episode_of (hs_dimension s) (hs_value s)
       (get_latest_signals_for_segment (append_signal sig db) (hs_dimension s) (hs_value s))) eps"
    "process_snapshots ids run_id [s] t db = Inr (fold (upsert_episode run_id t) eps
       (fold (invalidate_stale run_id t (map ep_episode_id eps))
          (get_episodes_for_segment (append_signal sig db) (hs_dimension s) (hs_value s)) (append_signal sig db)))"
    using process_one[OF assms(1)] by metis
  have sig: "sig_dimension sig = hs_dimension s" "sig_value sig = hs_value s"
    using evaluate_rate_known[OF assms(1)] p(1) by (metis sum.inject(2))+
  have a: "keeps_others ?sv db (append_signal sig db)" by (rule keeps_append) (simp_all add: sig)
  have stored: "episode_row_ok e" if "e \<in> set (get_episodes_for_segment (append_signal sig db) (hs_dimension s) (hs_value s))" for e
    using that assms(3) by (auto simp: get_episodes_for_segment_def append_signal_def episodes_ok_def list_all_iff)
  have i: "keeps_others ?sv d (fold (invalidate_stale run_id t (map ep_episode_id eps))
      (get_episodes_for_segment (append_signal sig db) (hs_dimension s) (hs_value s)) d)" for d :: "'a degradation_db_scheme"
  proof (rule keeps_fold)
    fix e and d :: "'a degradation_db_scheme"
    assume e: "e \<in> set (get_episodes_for_segment (append_signal sig db) (hs_dimension s) (hs_value s))"
    then have "episode_row_ok (e\<lparr>ep_status := INVALIDATED\<rparr>)" "in_segment ?sv (e\<lparr>ep_status := INVALIDATED\<rparr>)"
      using stored[OF e] by (auto simp: episode_row_ok_def in_segment_def get_episodes_for_segment_def)
    then show "keeps_others ?sv d (invalidate_stale run_id t (map ep_episode_id eps) e d)"
      by (simp add: invalidate_stale_def keeps_upsert keeps_others_refl)
  qed
  have u: "keeps_others ?sv d (fold (upsert_episode run_id t) eps d)" for d :: "'a degradation_db_scheme"
  proof (rule keeps_fold)
    fix e and d :: "'a degradation_db_scheme" assume "e \<in> set eps"
    with p(2) have "episode_of (hs_dimension s) (hs_value s)
       (get_latest_signals_for_segment (append_signal sig db) (hs_dimension s) (hs_value s)) e" by (simp add: list_all_iff)
    then have "episode_row_ok e" "in_segment ?sv e"
      using assms(2) by (auto simp: episode_row_ok_def in_segment_def episode_of_def Let_def)
    then show "keeps_others ?sv d (upsert_episode run_id t e d)" by (rule keeps_upsert)
  qed
  from p(3) keeps_others_trans[OF keeps_others_trans[OF a i] u] show ?thesis by blast
qed

text \<open>A loop over snapshots of other segments.\<close>

lemma process_loop_keeps:
  assumes "\<And>k s. (k, s) \<in> set xs \<Longrightarrow> rate_known s \<and> hs_dimension s \<in> set DIMENSIONS \<and> (hs_dimension s, hs_value s) \<noteq> (d, v)"
    and "episodes_ok db"
  shows "\<exists>db'. fold_result (\<lambda>(k, seg). process_snapshots (ids k) (run_ids k) seg t) (map (\<lambda>(k, s). (k, [s])) xs) db = Inr db' \<and>
    episodes_ok db' \<and> db_snapshots db' = db_snapshots db \<and>
    filter (for_segment d v) (db_signals db') = filter (for_segment d v) (db_signals db) \<and>
    filter (in_segment (d, v)) (db_episodes db') = filter (in_segment (d, v)) (db_episodes db)"
  using assms
proof (induction xs arbitrary: db)
  case (Cons x xs)
  obtain k s where x: "x = (k, s)" by (cases x)
  have s: "rate_known s" "hs_dimension s \<in> set DIMENSIONS" "(hs_dimension s, hs_value s) \<noteq> (d, v)" using Cons.prems(1)[of k s] x by auto
  from process_one_keeps[OF s(1,2) Cons.prems(2), of "ids k" "run_ids k" t] obtain db1 where
    db1: "process_snapshots (ids k) (run_ids k) [s] t db = Inr db1" "keeps_others (hs_dimension s, hs_value s) db db1" by blast
  with s(3) Cons.prems(2) have f: "episodes_ok db1" "db_snapshots db1 = db_snapshots db"
    "filter (for_segment d v) (db_signals db1) = filter (for_segment d v) (db_signals db)"
    "filter (in_segment (d, v)) (db_episodes db1) = filter (in_segment (d, v)) (db_episodes db)" by (auto simp: keeps_others_def)
  from Cons.IH[OF _ f(1)] Cons.prems(1) obtain db' where
    "fold_result (\<lambda>(k, seg). process_snapshots (ids k) (run_ids k) seg t) (map (\<lambda>(k, s). (k, [s])) xs) db1 = Inr db' \<and>
    episodes_ok db' \<and> db_snapshots db' = db_snapshots db1 \<and>
    filter (for_segment d v) (db_signals db') = filter (for_segment d v) (db_signals db1) \<and>
    filter (in_segment (d, v)) (db_episodes db') = filter (in_segment (d, v)) (db_episodes db1)" by auto
  with db1(1) f show ?case by (simp add: x)
qed simp

section \<open>Three critical windows\<close>

definition critical_bad :: "degradation_signal \<Rightarrow> bool" where
  "critical_bad s \<longleftrightarrow> sig_type s = BAD \<and> signal_severity s = CRITICAL"

lemma fl_64ths: "\<bar>m\<bar> \<le> 2 ^ 53 \<Longrightarrow> fl (of_int m / 64) = of_int m / 64"
proof -
  assume "\<bar>m\<bar> \<le> 2 ^ 53"
  moreover have "(2::rat) powi (- 6) = 1 / 64" by (simp add: power_int_def power_divide)
  ultimately show ?thesis using fl_scaled_int[of m "- 6"] by (simp only: mult.right_neutral times_divide_eq_right)
qed

lemma fl_64ths_bounds:
  assumes "\<bar>m\<bar> \<le> 2 ^ 53"
  shows "of_int m / 64 \<le> x \<Longrightarrow> of_int m / 64 \<le> fl x" "x \<le> of_int m / 64 \<Longrightarrow> fl x \<le> of_int m / 64"
  using fl_mono[of "of_int m / 64" x] fl_mono[of x "of_int m / 64"] fl_64ths[OF assms] by simp_all

lemma degradation_drop:
  fixes a defines "a \<equiv> f_sub (fl (85 / 100)) (int_truediv 12 60)"
  shows "\<not> fl (85 / 100) < MIN_BASELINE_RATE_FOR_RELATIVE_TEST" "MIN_ABSOLUTE_RATE_DROP \<le> a"
    "MIN_RELATIVE_RATE_DROP \<le> f_div a (fl (85 / 100))" "0 < fl (85 / 100)" "SEVERITY_CRITICAL_ABSOLUTE_DROP \<le> a"
proof -
  have b: "54 / 64 \<le> fl (85 / 100)" "fl (85 / 100) \<le> 1"
    using fl_64ths_bounds(1)[of 54 "85 / 100"] fl_le_one[of "85 / 100"] by simp_all
  have c: "fl (12 / 60) \<le> 13 / 64" using fl_64ths_bounds(2)[of 13 "12 / 60"] by simp
  then have "41 / 64 \<le> fl (85 / 100) - fl (12 / 60)" using b by simp
  then have a: "41 / 64 \<le> a" using fl_64ths_bounds(1)[of 41 "fl (85 / 100) - fl (12 / 60)"] by (simp add: a_def f_sub_def int_truediv_def)
  have "41 / 64 * fl (85 / 100) \<le> 41 / 64" using b(2) by simp
  then have "41 / 64 \<le> a / fl (85 / 100)" using a b(1) by (simp add: le_divide_eq)
  then have d: "41 / 64 \<le> f_div a (fl (85 / 100))" using fl_64ths_bounds(1)[of 41] by (simp add: f_div_def)
  have "fl (5 / 100) \<le> 8 / 64" "fl (10 / 100) \<le> 8 / 64" "fl (30 / 100) \<le> 20 / 64"
    using fl_64ths_bounds(2)[of 8 "5 / 100"] fl_64ths_bounds(2)[of 8 "10 / 100"] fl_64ths_bounds(2)[of 20 "30 / 100"] by simp_all
  then show "\<not> fl (85 / 100) < MIN_BASELINE_RATE_FOR_RELATIVE_TEST" "MIN_ABSOLUTE_RATE_DROP \<le> a"
    "MIN_RELATIVE_RATE_DROP \<le> f_div a (fl (85 / 100))" "0 < fl (85 / 100)" "SEVERITY_CRITICAL_ABSOLUTE_DROP \<le> a"
    using a b d unfolding MIN_BASELINE_RATE_FOR_RELATIVE_TEST_def MIN_ABSOLUTE_RATE_DROP_def MIN_RELATIVE_RATE_DROP_def
      SEVERITY_CRITICAL_ABSOLUTE_DROP_def by linarith+
qed

lemma global_signal:
  assumes "global_snapshot w s" "evaluate_snapshot i s n t = Inr sig"
  shows "critical_bad sig"
proof -
  let ?a = "f_sub (fl (85 / 100)) (int_truediv 12 60)"
  note n = degradation_drop
  from assms n(1-4) have "sig_type sig = BAD" "sig_absolute_drop sig = Some ?a" "sig_relative_drop sig \<noteq> None"
    by (auto simp: global_snapshot_def evaluate_snapshot_def Let_def)
  with n(5) show ?thesis by (auto simp: critical_bad_def signal_severity_def evaluate_severity_def)
qed

lemma escalate_critical [simp]: "escalate_severity s CRITICAL = CRITICAL"
  by (cases s) (simp_all add: escalate_severity_def)

definition worsening :: "nat \<Rightarrow> machine \<Rightarrow> bool" where
  "worsening k m \<longleftrightarrow>
     (m_state m = BAD_PENDING \<and> int k \<le> m_persistence m \<and> k < 3) \<or>
     (m_state m = DEGRADED \<and> (\<exists>ep. m_episode m = Some ep \<and> ep_severity ep = CRITICAL))"

lemma worsening_step:
  assumes inv: "machine_inv sdim sval hist m" and k: "k = 0 \<or> worsening k m" and s: "critical_bad s"
    and step: "machine_step sdim sval s m = Inr m'"
  shows "worsening (Suc k) m'"
proof -
  have bad: "sig_type s = BAD" "signal_severity s = CRITICAL" using s by (simp_all add: critical_bad_def)
  show ?thesis
  proof (cases "m_state m")
    case HEALTHY
    with k step bad show ?thesis by (auto simp: machine_step_def worsening_def)
  next
    case BAD_PENDING
    with inv have "0 \<le> m_persistence m" by (auto simp: machine_inv_def pending_inv_def)
    with BAD_PENDING k step bad show ?thesis
      by (auto simp: machine_step_def worsening_def Let_def open_episode_def REQUIRED_CONSECUTIVE_WINDOWS_def bind_result_Inr
          split: if_splits option.splits)
  next
    case DEGRADED
    with step bad show ?thesis
      by (auto simp: machine_step_def worsening_def with_episode_def worsen_episode_def bind_result_Inr split: option.splits)
  next
    case RECOVERY_PENDING
    with step bad show ?thesis
      by (auto simp: machine_step_def worsening_def with_episode_def worsen_episode_def bind_result_Inr split: option.splits)
  qed
qed

lemma reconcile_critical:
  assumes sorted: "sorted_wrt (<) (map sig_window_start (hist @ [a, b, c]))"
    and crit: "critical_bad a" "critical_bad b" "critical_bad c"
    and run: "reconcile_timeline (hist @ [a, b, c]) = Inr eps"
  shows "\<exists>ep\<in>set eps. ep_status ep = ACTIVE \<and> ep_severity ep = CRITICAL"
proof -
  let ?d = "sig_dimension (hd (hist @ [a, b, c]))" and ?v = "sig_value (hd (hist @ [a, b, c]))"
  have run': "bind_result (fold_result (machine_step ?d ?v) (hist @ [a, b, c]) machine_init) (\<lambda>m. Inr (machine_result m)) = Inr eps"
    using run by (cases hist) (simp_all add: reconcile_timeline_def)
  have "sorted_wrt (<) (map sig_window_start hist)" using sorted by (simp add: sorted_wrt_append)
  from replays_sorted[OF this] obtain m where
    m: "fold_result (machine_step ?d ?v) hist machine_init = Inr m" "replays ?d ?v hist m" by blast
  with run' obtain m1 m2 m3 where steps: "machine_step ?d ?v a m = Inr m1" "machine_step ?d ?v b m1 = Inr m2"
    "machine_step ?d ?v c m2 = Inr m3" and eps: "eps = machine_result m3"
    by (auto simp: fold_result_append bind_result_Inr simp del: append_assoc)
  have later: "list_all (\<lambda>r. sig_window_start r < sig_window_start a) hist"
    "list_all (\<lambda>r. sig_window_start r < sig_window_start b) (hist @ [a])"
    "list_all (\<lambda>r. sig_window_start r < sig_window_start c) ((hist @ [a]) @ [b])"
    using sorted by (auto simp: sorted_wrt_append list_all_iff)
  note r1 = replays_step[OF m(2) later(1) steps(1)]
  note r2 = replays_step[OF r1 later(2) steps(2)]
  note r3 = replays_step[OF r2 later(3) steps(3)]
  note inv = replays_inv[THEN conjunct2]
  have "worsening 1 m1" using worsening_step[OF inv[OF m(2)] _ crit(1) steps(1), of 0] by simp
  then have "worsening 2 m2" using worsening_step[OF inv[OF r1] _ crit(2) steps(2), of 1] by (simp add: numeral_2_eq_2)
  then have "worsening 3 m3" using worsening_step[OF inv[OF r2] _ crit(3) steps(3), of 2] by (simp add: numeral_3_eq_3 numeral_2_eq_2)
  then obtain ep where ep: "m_state m3 = DEGRADED" "m_episode m3 = Some ep" "ep_severity ep = CRITICAL"
    by (auto simp: worsening_def)
  with inv[OF r3] have "ep_status ep = ACTIVE" by (auto simp: machine_inv_def open_inv_def episode_of_def Let_def)
  with ep show ?thesis by (auto simp: eps machine_result_def)
qed

lemma sort_key_snoc:
  assumes "\<And>y. y \<in> set ys \<Longrightarrow> f y < (f x :: 'b::linorder)"
  shows "sort_key f (ys @ [x]) = sort_key f ys @ [x]"
proof (rule properties_for_sort_key)
  show "filter (\<lambda>z. f k = f z) (sort_key f ys @ [x]) = filter (\<lambda>z. f k = f z) (ys @ [x])" if "k \<in> set (sort_key f ys @ [x])" for k
    by (simp add: eq_commute[of "f k"] sort_key_stable)
  show "sorted (map f (sort_key f ys @ [x]))" using assms by (auto simp: sorted_append less_imp_le)
qed simp

lemma distinct_on_snoc:
  "(\<And>y. y \<in> set ys \<Longrightarrow> f y \<noteq> f x) \<Longrightarrow> distinct_on f (ys @ [x]) = distinct_on f ys @ [x]"
proof (induction f ys rule: distinct_on.induct)
  case (2 f y ys)
  have "f z \<noteq> f x" if "z \<in> set (dropWhile (\<lambda>u. f u = f y) ys)" for z
    using 2(2) that set_dropWhileD by fastforce
  note IH = 2(1)[OF this]
  show ?case
  proof (cases "dropWhile (\<lambda>u. f u = f y) ys = []")
    case True
    then have "\<forall>u\<in>set ys. f u = f y" by (simp add: dropWhile_eq_Nil_conv)
    moreover have "distinct_on f (dropWhile (\<lambda>u. f u = f y) ys) = []" unfolding True by simp
    ultimately show ?thesis using 2(2)[of y] by (auto simp: dropWhile_append)
  next
    case False
    then have "\<not> (\<forall>u\<in>set ys. f u = f y)" by (simp add: dropWhile_eq_Nil_conv)
    with IH show ?thesis by (auto simp: dropWhile_append)
  qed
qed simp

lemma latest_append:
  assumes "sig_dimension sig = d" "sig_value sig = v"
    "\<And>s. s \<in> set (db_signals db) \<Longrightarrow> for_segment d v s \<Longrightarrow> sig_window_start s < sig_window_start sig"
  shows "get_latest_signals_for_segment (append_signal sig db) d v = get_latest_signals_for_segment db d v @ [sig]"
proof -
  let ?key = "\<lambda>s. (sig_window_start s, - sig_version s)" and ?ys = "filter (for_segment d v) (db_signals db)"
  have less: "y \<in> set ?ys \<Longrightarrow> ?key y < ?key sig" for y using assms(3) by (auto simp: less_prod_def)
  have "filter (for_segment d v) (db_signals (append_signal sig db)) = ?ys @ [sig]"
    using assms(1,2) by (simp add: append_signal_def for_segment_def)
  then show ?thesis
    unfolding get_latest_signals_for_segment_def by (simp only: sort_key_snoc[of ?ys ?key sig, OF less]) (rule distinct_on_snoc, use assms(3) in fastforce)
qed

section \<open>Stage 3 on the generated traffic\<close>

text \<open>The snapshots of a window of the run, one segment each.\<close>

lemma rev_remdups_rev: "distinct xs \<Longrightarrow> rev (remdups (rev xs)) = xs"
  by (simp add: distinct_remdups_id)

lemma filter_key_single: "distinct (map f xs) \<Longrightarrow> map (\<lambda>k. filter (\<lambda>s. f s = k) xs) (map f xs) = map (\<lambda>s. [s]) xs"
proof (induction xs)
  case (Cons x xs)
  have "f s \<noteq> f x" if "s \<in> set xs" for s
    using Cons.prems imageI[OF that, of f] by auto
  then have "filter (\<lambda>s. f s = f x) xs = []" by (simp add: filter_empty_conv)
  moreover have "map (\<lambda>k. filter (\<lambda>s. f s = k) (x # xs)) (map f xs) = map (\<lambda>k. filter (\<lambda>s. f s = k) xs) (map f xs)"
    using Cons.prems by auto
  ultimately show ?case using Cons by simp
qed simp

lemma seeded_forward:
  assumes "quiet (windows_of (ce_now env)) db" "seeded env pm ccy db db1" "r \<in> set (db_snapshots db1)"
  shows "hs_window_start r < hs_window_end r"
proof -
  have "hs_window_start r < hs_window_end r" if "r \<in> set (baseline_rows (ce_baseline_ids env) (windows_of (ce_now env)) pm (ce_now env))"
    using that unfolding baseline_rows_eq by (auto simp: w_of_def minutes_def)
  with assms show ?thesis by (auto simp: quiet_def seeded_def list_all_iff)
qed

lemma segments_of_run:
  assumes q: "quiet (windows_of (ce_now env)) db" and s: "seeded env pm ccy db db1"
    and w: "(k, w) \<in> set (enumerate 0 (windows_of (ce_now env)))" and same: "db_snapshots d = db_snapshots (stage2_db env db1)"
  shows "segments_of_window (fst w) (snd w) d = map (\<lambda>s. [s]) (stored_for env db1 (k, w))"
proof -
  let ?n = "ce_now env"
  let ?P = "\<lambda>s. fst w \<le> hs_window_start s \<and> hs_window_end s \<le> snd w"
  have mem: "w \<in> set (windows_of ?n)" using w by (rule enumerate_mem)
  have old: "filter ?P (db_snapshots db1) = []"
  proof -
    have "\<not> ?P r" if "r \<in> set (db_snapshots db1)" for r
      using seeded_starts[OF q s mem that] seeded_forward[OF q s that] by auto
    then show ?thesis by (simp add: filter_empty_conv)
  qed
  have each: "filter ?P (stored_for env db1 (j, v)) = (if v = w then stored_for env db1 (j, v) else [])"
    if "v \<in> set (windows_of ?n)" for j v
    using stored_rows(1,2)[of _ env db1 j v] window_starts(2)[OF that mem]
    by (auto intro!: filter_True filter_False)
  have enum: "enumerate 0 (windows_of ?n) = [(0, w_of ?n 3), (1, w_of ?n 2), (2, w_of ?n 1)]" by (simp add: windows_of_w)
  have ne: "w_of ?n 3 \<noteq> w_of ?n 2" "w_of ?n 3 \<noteq> w_of ?n 1" "w_of ?n 2 \<noteq> w_of ?n 1" by (simp_all add: w_of_def minutes_def)
  have "filter ?P (db_snapshots d) = stored_for env db1 (k, w)"
    using w ne unfolding same stage2_db_def enum by (auto simp: old each windows_of_w)
  moreover have "distinct (map (\<lambda>s. (hs_dimension s, hs_value s)) (stored_for env db1 (k, w)))"
    using stored_distinct[of env db1 "(k, w)"] stored_rows(1,2)[of _ env db1 k w]
    by (auto simp: distinct_map inj_on_def snapshot_identity_def)
  ultimately show ?thesis
    by (simp only: segments_of_window_def Let_def rev_remdups_rev filter_key_single)
qed

text \<open>The state between the windows of Stage 3: the signals of the global segment, the last \<open>n\<close> of them critical.\<close>

definition reflects :: "degradation_signal list \<Rightarrow> ('a degradation_db_scheme) \<Rightarrow> bool" where
  "reflects sigs db \<longleftrightarrow>
     (\<exists>eps. reconcile_timeline sigs = Inr eps \<and>
        list_all (\<lambda>e. list_ex (\<lambda>r. ep_status r = ep_status e \<and> ep_severity r = ep_severity e)
          (filter (in_segment (''GLOBAL'', ''ALL'')) (db_episodes db))) eps)"

abbreviation global_signals :: "('a degradation_db_scheme) \<Rightarrow> degradation_signal list" where
  "global_signals db \<equiv> get_latest_signals_for_segment db ''GLOBAL'' ''ALL''"

lemma process_global:
  assumes g: "global_snapshot w s" and ok: "episodes_ok db"
    and earlier: "\<And>x. x \<in> set (db_signals db) \<Longrightarrow> for_segment ''GLOBAL'' ''ALL'' x \<Longrightarrow> sig_window_start x < fst w"
  shows "\<exists>db' sig. process_snapshots ids run_id [s] t db = Inr db' \<and> episodes_ok db' \<and> db_snapshots db' = db_snapshots db \<and>
    db_signals db' = db_signals db @ [sig] \<and>
    global_signals db' = global_signals db @ [sig] \<and> critical_bad sig \<and> sig_window_start sig = fst w \<and>
    reflects (global_signals db') db'"
proof -
  have id: "hs_dimension s = ''GLOBAL''" "hs_value s = ''ALL''" "hs_window_start s = fst w" "rate_known s"
    using g by (auto simp: global_snapshot_def snapshot_identity_def rate_known_def)
  obtain sig eps where p: "evaluate_snapshot (ids 0) s (get_max_evaluation_version db (hs_dimension s, hs_value s, hs_window_start s) + 1) t = Inr sig"
    "reconcile_timeline (get_latest_signals_for_segment (append_signal sig db) (hs_dimension s) (hs_value s)) = Inr eps"
    "list_all (episode_of (hs_dimension s) (hs_value s)
       (get_latest_signals_for_segment (append_signal sig db) (hs_dimension s) (hs_value s))) eps"
    "process_snapshots ids run_id [s] t db = Inr (fold (upsert_episode run_id t) eps
       (fold (invalidate_stale run_id t (map ep_episode_id eps))
          (get_episodes_for_segment (append_signal sig db) (hs_dimension s) (hs_value s)) (append_signal sig db)))"
    using process_one[OF id(4)] by metis
  let ?db' = "fold (upsert_episode run_id t) eps (fold (invalidate_stale run_id t (map ep_episode_id eps))
          (get_episodes_for_segment (append_signal sig db) (hs_dimension s) (hs_value s)) (append_signal sig db))"
  have sig: "sig_dimension sig = ''GLOBAL''" "sig_value sig = ''ALL''" "sig_window_start sig = fst w"
    using evaluate_rate_known[OF id(4)] p(1) id by (metis sum.inject(2))+
  have sigs: "db_signals ?db' = db_signals db @ [sig]" by (simp add: append_signal_def)
  have latest: "global_signals ?db' = global_signals (append_signal sig db)"
    by (simp add: get_latest_signals_for_segment_def append_signal_def)
  also have "\<dots> = global_signals db @ [sig]" by (rule latest_append[OF sig(1,2)]) (use earlier sig(3) in auto)
  finally have "global_signals ?db' = global_signals db @ [sig]" .
  moreover from process_one_keeps[OF id(4) _ ok, of ids run_id t] p(4) id have keep: "episodes_ok ?db'" "db_snapshots ?db' = db_snapshots db"
    using ok by (auto simp: keeps_others_def DIMENSIONS_def)
  moreover have "reflects (global_signals ?db') ?db'"
  proof -
    have rec: "reconcile_timeline (global_signals ?db') = Inr eps" using p(2) latest id by simp
    have dist: "distinct (map ep_episode_id (db_episodes db))" using ok by (simp add: episodes_ok_def)
    have found: "list_all (\<lambda>e. case lookup_episode ?db' (ep_episode_id e) of None \<Rightarrow> False | Some r \<Rightarrow> merge_episode r e = r) eps"
      using process_snapshots_reconciles[OF dist, where ids = ids and run_id = run_id and snapshots = "[s]" and ts = t] p(4) rec id by (simp add: Let_def)
    have "list_ex (\<lambda>r. ep_status r = ep_status e \<and> ep_severity r = ep_severity e)
        (filter (in_segment (''GLOBAL'', ''ALL'')) (db_episodes ?db'))" if e: "e \<in> set eps" for e
    proof -
      obtain r where r: "lookup_episode ?db' (ep_episode_id e) = Some r" "merge_episode r e = r"
        using found e by (auto simp: list_all_iff split: option.splits)
      then have mem: "r \<in> set (db_episodes ?db')" "ep_episode_id r = ep_episode_id e"
        using find_SomeD unfolding lookup_episode_def by fastforce+
      then have rok: "episode_row_ok r" using keep(1) by (auto simp: episodes_ok_def list_all_iff)
      have "episode_of ''GLOBAL'' ''ALL'' (global_signals (append_signal sig db)) e" using p(3) e id by (simp add: list_all_iff)
      then have eok: "episode_row_ok e" "in_segment (''GLOBAL'', ''ALL'') e"
        by (auto simp: episode_row_ok_def in_segment_def episode_of_def Let_def DIMENSIONS_def)
      have "in_segment (''GLOBAL'', ''ALL'') r" using same_segment[OF rok eok(1) mem(2)] eok(2) by (simp add: in_segment_def)
      moreover have "ep_status r = ep_status e" "ep_severity r = ep_severity e"
        using arg_cong[OF r(2), of ep_status] arg_cong[OF r(2), of ep_severity] by (simp_all add: merge_episode_def)
      ultimately show ?thesis using mem(1) by (auto simp: list_ex_iff)
    qed
    with rec show ?thesis by (auto simp: reflects_def list_all_iff)
  qed
  ultimately show ?thesis using p(4) global_signal[OF g p(1)] sigs sig(3) by blast
qed

lemma enumerate_map_single: "enumerate n (map (\<lambda>r. [r]) xs) = map (\<lambda>(j, r). (j, [r])) (enumerate n xs)"
  by (induction xs arbitrary: n) simp_all

lemma stage3_step:
  assumes ok: "draws_ok env" and q: "quiet (windows_of (ce_now env)) db" and s: "seeded env pm ccy db db1"
    and w: "(k, w) \<in> set (enumerate 0 (windows_of (ce_now env)))"
    and d: "episodes_ok d" "db_snapshots d = db_snapshots (stage2_db env db1)"
    and earlier: "\<And>x. x \<in> set (filter (for_segment ''GLOBAL'' ''ALL'') (db_signals d)) \<Longrightarrow> sig_window_start x < fst w"
  shows "\<exists>d' sig. stage3_window env (k, w) d = Inr d' \<and> episodes_ok d' \<and> db_snapshots d' = db_snapshots (stage2_db env db1) \<and>
    filter (for_segment ''GLOBAL'' ''ALL'') (db_signals d') = filter (for_segment ''GLOBAL'' ''ALL'') (db_signals d) @ [sig] \<and>
    global_signals d' = global_signals d @ [sig] \<and> critical_bad sig \<and> sig_window_start sig = fst w \<and>
    reflects (global_signals d') d'"
proof -
  let ?G = "for_segment ''GLOBAL'' ''ALL''" and ?E = "in_segment (''GLOBAL'', ''ALL'')"
  let ?rows = "stored_for env db1 (k, w)"
  let ?run = "\<lambda>(j, seg). process_snapshots (ce_signal_ids env k j) (ce_run_ids env k j) seg (snd w)"
  from stored_global[OF ok q s w] obtain g where g: "g \<in> set ?rows" "global_snapshot w g" by blast
  then obtain xs ys where rows: "?rows = xs @ g # ys" by (meson split_list)
  have gid: "(hs_dimension g, hs_value g) = (''GLOBAL'', ''ALL'')" using g(2) by (simp add: global_snapshot_def snapshot_identity_def)
  have other: "rate_known r \<and> hs_dimension r \<in> set DIMENSIONS \<and> (hs_dimension r, hs_value r) \<noteq> (''GLOBAL'', ''ALL'')"
    if "r \<in> set xs \<union> set ys" for r
  proof -
    have r: "r \<in> set ?rows" using that rows by auto
    have "distinct (map snapshot_identity (xs @ g # ys))" using stored_distinct[of env db1 "(k, w)"] by (simp only: rows)
    with that have "snapshot_identity r \<noteq> snapshot_identity g" by (auto simp: image_iff)
    then have "(hs_dimension r, hs_value r) \<noteq> (hs_dimension g, hs_value g)"
      using stored_rows(1,2)[OF r] stored_rows(1,2)[OF g(1)] by (auto simp: snapshot_identity_def)
    with stored_rows(3,4)[OF r] gid show ?thesis by (auto simp: rate_known_def)
  qed
  have enum: "enumerate 0 (map (\<lambda>r. [r]) ?rows) =
      map (\<lambda>(j, r). (j, [r])) (enumerate 0 xs) @ (length xs, [g]) # map (\<lambda>(j, r). (j, [r])) (enumerate (Suc (length xs)) ys)"
    unfolding rows by (simp add: enumerate_append_eq enumerate_map_single)
  obtain d1 where d1: "fold_result ?run (map (\<lambda>(j, r). (j, [r])) (enumerate 0 xs)) d = Inr d1" "episodes_ok d1"
    "db_snapshots d1 = db_snapshots d" "filter ?G (db_signals d1) = filter ?G (db_signals d)"
    "filter ?E (db_episodes d1) = filter ?E (db_episodes d)"
    using process_loop_keeps[where xs = "enumerate 0 xs", OF _ d(1), of "''GLOBAL''" "''ALL''" "ce_signal_ids env k" "ce_run_ids env k" "snd w"]
      other enumerate_mem by fastforce
  have "\<And>x. x \<in> set (db_signals d1) \<Longrightarrow> ?G x \<Longrightarrow> sig_window_start x < fst w"
    using earlier unfolding d1(4)[symmetric] by simp
  from process_global[OF g(2) d1(2) this, of "ce_signal_ids env k (length xs)" "ce_run_ids env k (length xs)" "snd w"]
  obtain d2 sig where d2: "process_snapshots (ce_signal_ids env k (length xs)) (ce_run_ids env k (length xs)) [g] (snd w) d1 = Inr d2"
    "episodes_ok d2" "db_snapshots d2 = db_snapshots d1" "db_signals d2 = db_signals d1 @ [sig]"
    "global_signals d2 = global_signals d1 @ [sig]" "critical_bad sig" "sig_window_start sig = fst w" "reflects (global_signals d2) d2"
    by metis
  obtain d3 where d3: "fold_result ?run (map (\<lambda>(j, r). (j, [r])) (enumerate (Suc (length xs)) ys)) d2 = Inr d3" "episodes_ok d3"
    "db_snapshots d3 = db_snapshots d2" "filter ?G (db_signals d3) = filter ?G (db_signals d2)"
    "filter ?E (db_episodes d3) = filter ?E (db_episodes d2)"
    using process_loop_keeps[where xs = "enumerate (Suc (length xs)) ys", OF _ d2(2), of "''GLOBAL''" "''ALL''" "ce_signal_ids env k" "ce_run_ids env k" "snd w"]
      other enumerate_mem by fastforce
  have run: "stage3_window env (k, w) d = Inr d3"
    unfolding stage3_window_def prod.case segments_of_run[OF q s w d(2)] enum fold_result_append d1(1)
    by (simp add: d2(1) d3(1))
  have glob: "global_signals d1 = global_signals d" "global_signals d3 = global_signals d2"
    using d1(4) d3(4) by (simp_all add: get_latest_signals_for_segment_def)
  have "?G sig"
  proof (rule ccontr)
    assume "\<not> ?G sig"
    then have "global_signals d2 = global_signals d1" using d2(4) by (simp add: get_latest_signals_for_segment_def)
    with d2(5) show False by simp
  qed
  then have "filter ?G (db_signals d3) = filter ?G (db_signals d) @ [sig]" using d1(4) d2(4) d3(4) by simp
  moreover have "reflects (global_signals d3) d3" using d2(8) glob(2) d3(5) by (simp add: reflects_def)
  moreover have "global_signals d3 = global_signals d @ [sig]" using d2(5) glob by simp
  moreover have "db_snapshots d3 = db_snapshots (stage2_db env db1)" using d(2) d1(3) d2(3) d3(3) by simp
  ultimately show ?thesis using run d2(6,7) d3(2) by blast
qed

definition critical_global :: "degradation_episode \<Rightarrow> bool" where
  "critical_global ep \<longleftrightarrow> ep_dimension ep = ''GLOBAL'' \<and> ep_value ep = ''ALL'' \<and> ep_severity ep = CRITICAL"

lemma run_stage3_seeded:
  assumes ok: "draws_ok env" and q: "quiet (windows_of (ce_now env)) db" and s: "seeded env pm ccy db db1"
    and d: "episodes_ok d" "db_snapshots d = db_snapshots (stage2_db env db1)"
    and earlier: "list_all (\<lambda>x. for_segment ''GLOBAL'' ''ALL'' x \<longrightarrow> sig_window_start x < fst (hd (windows_of (ce_now env)))) (db_signals d)"
  shows "\<exists>d'. run_stage3_degradation env (windows_of (ce_now env)) d = Inr (active_episodes d', d') \<and>
    list_ex critical_global (active_episodes d')"
proof -
  let ?n = "ce_now env" and ?G = "for_segment ''GLOBAL'' ''ALL''"
  have enum: "enumerate 0 (windows_of ?n) = [(0, w_of ?n 3), (1, w_of ?n 2), (2, w_of ?n 1)]" by (simp add: windows_of_w)
  have mem: "(0, w_of ?n 3) \<in> set (enumerate 0 (windows_of ?n))" "(1, w_of ?n 2) \<in> set (enumerate 0 (windows_of ?n))"
    "(2, w_of ?n 1) \<in> set (enumerate 0 (windows_of ?n))" unfolding enum by simp_all
  have lt: "fst (w_of ?n 3) < fst (w_of ?n 2)" "fst (w_of ?n 2) < fst (w_of ?n 1)" by (simp_all add: w_of_def minutes_def)
  have e1: "x \<in> set (filter ?G (db_signals d)) \<Longrightarrow> sig_window_start x < fst (w_of ?n 3)" for x
    using earlier by (auto simp: list_all_iff windows_of_w)
  note step = stage3_step[OF ok q s]
  from step[OF mem(1) d e1] obtain d1 a where d1: "stage3_window env (0, w_of ?n 3) d = Inr d1" "episodes_ok d1"
    "db_snapshots d1 = db_snapshots (stage2_db env db1)" "filter ?G (db_signals d1) = filter ?G (db_signals d) @ [a]"
    "global_signals d1 = global_signals d @ [a]" "critical_bad a" "sig_window_start a = fst (w_of ?n 3)" by metis
  have e2: "x \<in> set (filter ?G (db_signals d1)) \<Longrightarrow> sig_window_start x < fst (w_of ?n 2)" for x
    using e1[of x] lt d1(7) unfolding d1(4) by auto
  from step[OF mem(2) d1(2,3) e2] obtain d2 b where d2: "stage3_window env (1, w_of ?n 2) d1 = Inr d2" "episodes_ok d2"
    "db_snapshots d2 = db_snapshots (stage2_db env db1)" "filter ?G (db_signals d2) = filter ?G (db_signals d1) @ [b]"
    "global_signals d2 = global_signals d1 @ [b]" "critical_bad b" "sig_window_start b = fst (w_of ?n 2)" by metis
  have e3: "x \<in> set (filter ?G (db_signals d2)) \<Longrightarrow> sig_window_start x < fst (w_of ?n 1)" for x
    using e2[of x] lt d2(7) unfolding d2(4) by auto
  from step[OF mem(3) d2(2,3) e3] obtain d3 c where d3: "stage3_window env (2, w_of ?n 1) d2 = Inr d3"
    "global_signals d3 = global_signals d2 @ [c]" "critical_bad c" "reflects (global_signals d3) d3" by metis
  have three: "global_signals d3 = global_signals d @ [a, b, c]" using d1(5) d2(5) d3(2) by simp
  from d3(4) obtain eps where eps: "reconcile_timeline (global_signals d @ [a, b, c]) = Inr eps"
    "list_all (\<lambda>e. list_ex (\<lambda>r. ep_status r = ep_status e \<and> ep_severity r = ep_severity e)
      (filter (in_segment (''GLOBAL'', ''ALL'')) (db_episodes d3))) eps" unfolding three by (auto simp: reflects_def)
  have "sorted_wrt (<) (map sig_window_start (global_signals d @ [a, b, c]))"
    using latest_signals_sorted[of d3 "''GLOBAL''" "''ALL''"] by (simp only: three)
  from reconcile_critical[OF this d1(6) d2(6) d3(3) eps(1)] obtain ep where
    "ep \<in> set eps" "ep_status ep = ACTIVE" "ep_severity ep = CRITICAL" by blast
  with eps(2) obtain r where "r \<in> set (db_episodes d3)" "in_segment (''GLOBAL'', ''ALL'') r" "ep_status r = ACTIVE" "ep_severity r = CRITICAL"
    by (auto simp: list_all_iff list_ex_iff)
  then have "list_ex critical_global (active_episodes d3)"
    by (auto simp: active_episodes_def list_ex_iff critical_global_def in_segment_def)
  moreover have "run_stage3_degradation env (windows_of ?n) d = Inr (active_episodes d3, d3)"
    unfolding run_stage3_degradation_def enum by (simp add: d1(1) d2(1)[simplified] d3(1)[simplified])
  ultimately show ?thesis by blast
qed

section \<open>Stage 4 and the summary\<close>

lemma episodes_persist [simp]:
  "db_episodes (persist_unknown_with_fingerprint now ep ws we reason fp st su db) = db_episodes db"
  "db_episodes (persist_unknown now ep ws we reason n m ts db) = db_episodes db"
  "db_episodes (persist_classified now ep ws we n m hs b ex tot su fp rs db) = db_episodes db"
proof -
  have append: "db_episodes (append_rca_evaluation e db) = db_episodes db" "db_episodes (append_candidate_causes cs db) = db_episodes db"
    for e cs and db :: "'b rca_db_scheme"
    by (simp_all add: append_rca_evaluation_def append_candidate_causes_def)
  show unknown: "db_episodes (persist_unknown_with_fingerprint now ep ws we reason fp st su db) = db_episodes db"
    for ep ws we reason fp st su and db :: "'a rca_db_scheme"
    unfolding persist_unknown_with_fingerprint_def Let_def by (rule append)
  show "db_episodes (persist_unknown now ep ws we reason n m ts db) = db_episodes db"
    by (simp add: persist_unknown_def unknown Let_def)
  show "db_episodes (persist_classified now ep ws we n m hs b ex tot su fp rs db) = db_episodes db"
    unfolding persist_classified_def Let_def by (simp only: append)
qed

lemma events_persist [simp]:
  "db_events (persist_unknown_with_fingerprint now ep ws we reason fp st su db) = db_events db"
  "db_events (persist_unknown now ep ws we reason n m ts db) = db_events db"
  "db_events (persist_classified now ep ws we n m hs b ex tot su fp rs db) = db_events db"
  by (simp_all add: persist_unknown_with_fingerprint_def persist_unknown_def persist_classified_def Let_def)

lemma stage4_keeps:
  assumes "evaluate_episode now ep db = Inr db'"
  shows "db_episodes db' = db_episodes db \<and> db_events db' = db_events db"
proof -
  have "evaluate_in_window now ep ws we db = Inr db' \<Longrightarrow> db_episodes db' = db_episodes db \<and> db_events db' = db_events db" for ws we
    unfolding evaluate_in_window_def Let_def by (auto simp: bind_result_Inr split: if_split_asm)
  with assms show ?thesis by (auto simp: evaluate_episode_def bind_result_Inr split: if_split_asm)
qed

lemma evaluate_active_keeps:
  assumes "P (db_episodes (fst s)) (db_events (fst s))" "P (db_episodes (snd s)) (db_events (snd s))"
  shows "case fold_result (evaluate_active now) eps s of
      Inl (st, e, c) \<Rightarrow> P (db_episodes c) (db_events c)
    | Inr (c, d) \<Rightarrow> P (db_episodes d) (db_events d)"
  using assms
proof (induction eps arbitrary: s)
  case Nil
  then show ?case by (simp add: prod.case_eq_if)
next
  case (Cons ep eps)
  obtain c d where s: "s = (c, d)" by (cases s)
  show ?case
  proof (cases "evaluate_episode now ep d")
    case (Inl e)
    then show ?thesis using Cons.prems by (simp add: s evaluate_active_def)
  next
    case (Inr d')
    with stage4_keeps[OF Inr] Cons.prems
      Cons.IH[of "(if db_evaluations d' = db_evaluations d then c else d', d')"]
    show ?thesis by (simp add: s evaluate_active_def)
  qed
qed

text \<open>The 180 generated outcomes lie in the half hour before the run.\<close>

lemma window_recent:
  assumes "w \<in> set (windows_of now)" "in_window (fst w) (snd w) e"
  shows "now - minutes 30 \<le> ev_timestamp e" "ev_timestamp e \<le> now"
proof -
  have "w0_of now - minutes 15 \<le> fst w" "snd w \<le> w0_of now"
    using assms(1) by (auto simp: windows_of_eq minutes_def)
  with assms(2) w0_aligned(2,3)[of now] show "now - minutes 30 \<le> ev_timestamp e" "ev_timestamp e \<le> now"
    by (auto simp: in_window_def minutes_def)
qed

lemma generated_count:
  assumes ok: "draws_ok env"
  shows "num_of is_terminal (generated_events env pm ccy (windows_of now)) = 180"
  by (simp add: generated_events_windows windows_of_w window_counts(2)[OF ok])

lemma volume_seeded:
  assumes ok: "draws_ok env" and ev: "db_events db' = evs @ generated_events env pm ccy (windows_of now)"
  shows "180 \<le> check_lookback_terminal_volume db' now"
proof -
  let ?g = "generated_events env pm ccy (windows_of now)"
  let ?P = "\<lambda>e. ev_source_system e = GENERATED_SOURCE_SYSTEM \<and> ev_event_type e \<in> {''payment.captured'', ''payment.failed''} \<and>
           now - minutes 30 \<le> ev_timestamp e \<and> ev_timestamp e \<le> now"
  have "?P e \<longleftrightarrow> is_terminal e" if "e \<in> set ?g" for e
  proof -
    from that obtain k w where w: "(k, w) \<in> set (enumerate 0 (windows_of now))" and e: "e \<in> set (events_of_window env pm ccy (k, w))"
      unfolding generated_events_windows by fastforce
    have mem: "w \<in> set (windows_of now)" using w by (rule enumerate_mem)
    have "in_window (fst w) (snd w) e" by (rule tx_events_in_window[OF ok windows_of_apart(1)[OF mem] e])
    note recent = window_recent[OF mem this]
    have "ev_source_system e = GENERATED_SOURCE_SYSTEM"
      using e by (auto simp: events_of_window_def tx_events_def auth_event_def term_event_def Let_def)
    with recent show ?thesis by (simp add: is_terminal_def TERMINAL_EVENT_TYPES_def)
  qed
  then have "filter ?P ?g = filter is_terminal ?g" by (rule filter_cong[OF refl])
  then have "length (filter ?P ?g) = 180" using generated_count[OF ok, of pm ccy now] by (simp add: num_of_def)
  then show ?thesis by (simp add: check_lookback_terminal_volume_def ev)
qed

lemma expiry_minutes_bounds: "15 \<le> expiry_minutes (windows_of now) now \<and> expiry_minutes (windows_of now) now \<le> 20"
proof -
  let ?d = "fst (windows_of now ! 1) + minutes 30 - now"
  have "?d = w0_of now + minutes 20 - now" by (simp add: windows_of_w w_of_def minutes_def)
  then have d: "900000000 \<le> ?d" "?d \<le> 1200000000" using w0_aligned(2,3)[of now] by (simp_all add: minutes_def)
  then have "900 \<le> (of_int ?d :: rat) / 1000000" "(of_int ?d :: rat) / 1000000 \<le> 1200"
    by (simp_all add: le_divide_eq divide_le_eq)
  then have a: "900 \<le> int_truediv ?d 1000000" "int_truediv ?d 1000000 \<le> 1200"
    using fl_ge_float[of 900] fl_le_float[of _ 1200] fl_of_int[of 900] fl_of_int[of 1200] by (simp_all add: int_truediv_def)
  then have "15 \<le> int_truediv ?d 1000000 / 60" "int_truediv ?d 1000000 / 60 \<le> 20" by simp_all
  then have "15 \<le> f_div (int_truediv ?d 1000000) 60" "f_div (int_truediv ?d 1000000) 60 \<le> 20"
    using fl_ge_float[of 15] fl_le_float[of _ 20] fl_of_int[of 15] fl_of_int[of 20] by (simp_all add: f_div_def)
  moreover from this have "15 \<le> \<lfloor>f_div (int_truediv ?d 1000000) 60\<rfloor>" "\<lfloor>f_div (int_truediv ?d 1000000) 60\<rfloor> \<le> 20"
    by (simp_all add: le_floor_iff floor_le_iff)
  ultimately show ?thesis by (simp add: expiry_minutes_def Let_def int_of_float_def)
qed

section \<open>The context is ready\<close>

text \<open>Neither the generated identities nor the stored ones repeat.\<close>

definition traffic_fresh :: "context_env \<Rightarrow> string \<Rightarrow> string \<Rightarrow> ('a event_db_scheme) \<Rightarrow> bool" where
  "traffic_fresh env pm ccy db \<longleftrightarrow>
     (let txs = live_txs env (windows_of (ce_now env));
          raws = db_raw db @ concat (map (tx_raws pm ccy) txs);
          events = db_events db @ concat (map (tx_events pm ccy) txs)
      in distinct (map raw_identity raws) \<and> distinct (map event_identity events) \<and> distinct (map ev_event_id events))"

text \<open>The global segment has no signal of the three windows or later.\<close>

definition no_later_signal :: "datetime \<Rightarrow> ('a degradation_db_scheme) \<Rightarrow> bool" where
  "no_later_signal now db \<longleftrightarrow>
     list_all (\<lambda>x. for_segment ''GLOBAL'' ''ALL'' x \<longrightarrow> sig_window_start x < fst (hd (windows_of now))) (db_signals db)"

lemma seed_traffic_cases:
  "seed_upstream_synthetic_traffic env (windows_of (ce_now env)) pm ccy db =
     (if traffic_fresh env pm ccy db
      then Inr (int (length (live_txs env (windows_of (ce_now env)))),
        db\<lparr>db_raw := db_raw db @ concat (map (tx_raws pm ccy) (live_txs env (windows_of (ce_now env)))),
          db_events := db_events db @ generated_events env pm ccy (windows_of (ce_now env))\<rparr>)
      else Inl IntegrityError)"
  by (simp add: seed_upstream_synthetic_traffic_def traffic_fresh_def generated_events_def Let_def)

lemma critical_episode_severity:
  "list_ex critical_global eps \<Longrightarrow> ep_severity (critical_episode eps) = CRITICAL"
  by (auto simp: critical_episode_def list_ex_iff critical_global_def find_None_iff dest: find_SomeD split: option.splits)

lemma process_snapshots_events:
  assumes "process_snapshots ids run_id seg t d = Inr d'"
  shows "db_events d' = db_events d"
proof -
  have append: "append_evaluation ids sd sv t x s = Inr s' \<Longrightarrow> db_events s' = db_events s" for sd sv x and s s' :: "'a degradation_db_scheme"
    by (auto simp: append_evaluation_Inr append_signal_def)
  have upsert: "db_events (upsert_episode run_id t e s) = db_events s" for e and s :: "'a degradation_db_scheme"
    by (simp add: upsert_episode_def)
  then have invalidate: "db_events (invalidate_stale run_id t vs e s) = db_events s" for vs e and s :: "'a degradation_db_scheme"
    by (simp add: invalidate_stale_def)
  show ?thesis
  proof (cases seg)
    case (Cons s0 rest)
    with assms obtain d1 eps where loop: "fold_result (append_evaluation ids (hs_dimension s0) (hs_value s0) t)
        (enumerate 0 (sort_key hs_window_start seg)) d = Inr d1"
      and d': "d' = fold (upsert_episode run_id t) eps (fold (invalidate_stale run_id t (map ep_episode_id eps))
        (get_episodes_for_segment d1 (hs_dimension s0) (hs_value s0)) d1)"
      by (auto simp: process_snapshots_def Let_def bind_result_Inr simp del: sort_key_simps)
    have "db_events d1 = db_events d" using fold_result_frame[where g = db_events, OF append loop] .
    then show ?thesis
      unfolding d' fold_frame[where g = db_events, OF upsert] fold_frame[where g = db_events, OF invalidate] .
  qed (use assms in \<open>simp add: process_snapshots_def\<close>)
qed

lemma stage2_db_events: "db_events (stage2_db env db1) = db_events db1"
  by (simp add: stage2_db_def)

lemma stage3_events:
  assumes "run_stage3_degradation env windows d = Inr (eps, d')"
  shows "db_events d' = db_events d"
proof -
  have seg: "(case x of (k, seg) \<Rightarrow> process_snapshots (ids k) (run_ids k) seg t) s = Inr s' \<Longrightarrow> db_events s' = db_events s"
    for ids run_ids x t and s s' :: "'a degradation_db_scheme"
    by (cases x) (auto dest: process_snapshots_events)
  have "stage3_window env kw s = Inr s' \<Longrightarrow> db_events s' = db_events s" for kw and s s' :: "'a degradation_db_scheme"
    using fold_result_frame[where g = db_events, OF seg]
    by (auto simp: stage3_window_def split: prod.splits sum.splits)
  from fold_result_frame[where g = db_events, OF this] assms show ?thesis
    by (auto simp: run_stage3_degradation_def bind_result_Inr)
qed

text \<open>C36: The generator delivers the context it promises. Started on a database that holds nothing yet for its three
  windows and their counterparts of the four preceding weeks, whatever the history of the global segment before
  them and whatever the random draws within their documented ranges: unless a generated identity collides, Stages 2
  and 3 succeed and leave an ACTIVE episode of severity CRITICAL on the global segment, even when Stage 4 then
  refuses the context. When the run succeeds, the summary shows a CRITICAL episode, exactly 60 transactions with 48
  failures and the seeded baseline in every window, at least 180 outcomes in the lookback, and 15 to 20 minutes
  left.\<close>

theorem live_context_ready:
  fixes db :: "('a rca_db_scheme)"
  assumes "draws_ok env" "quiet (windows_of (ce_now env)) db" "episodes_ok db" "no_later_signal (ce_now env) db"
  shows "case main_async env pm ccy db of
      Inl (e, db') \<Rightarrow>
        if traffic_fresh env pm ccy db then list_ex critical_global (active_episodes db')
        else e = IntegrityError \<and> db_events db' = db_events db
    | Inr (summary, db') \<Rightarrow>
        list_ex critical_global (active_episodes db') \<and> cs_severity summary = CRITICAL \<and>
        cs_windows summary = map stage2_expected (enumerate 0 (windows_of (ce_now env))) \<and>
        180 \<le> cs_volume summary \<and> 15 \<le> cs_minutes_left summary \<and> cs_minutes_left summary \<le> 20"
proof -
  let ?n = "ce_now env" and ?W = "windows_of (ce_now env)"
  define db0 where "db0 = db\<lparr>db_snapshots := db_snapshots db @ baseline_rows (ce_baseline_ids env) ?W pm ?n\<rparr>"
  define db1 where "db1 = db0\<lparr>db_raw := db_raw db0 @ concat (map (tx_raws pm ccy) (live_txs env ?W)),
      db_events := db_events db0 @ generated_events env pm ccy ?W\<rparr>"
  have base: "snd (seed_historical_baselines (ce_baseline_ids env) ?W pm ?n db) = db0"
    using assms(2) unfolding db0_def by (rule seed_baselines_quiet)
  have "traffic_fresh env pm ccy db0 = traffic_fresh env pm ccy db" by (simp add: traffic_fresh_def db0_def)
  then have traffic: "seed_upstream_synthetic_traffic env ?W pm ccy db0 =
      (if traffic_fresh env pm ccy db then Inr (int (length (live_txs env ?W)), db1) else Inl IntegrityError)"
    unfolding seed_traffic_cases db1_def by simp
  note main = main_async_def[of env pm ccy db, unfolded Let_def windows_of_def[symmetric] base traffic]
  show ?thesis
  proof (cases "traffic_fresh env pm ccy db")
    case False
    then show ?thesis by (simp add: main db0_def)
  next
    case True
    have seeded: "seeded env pm ccy db db1" by (simp add: seeded_def db1_def db0_def)
    note stage2 = run_stage2_seeded[OF assms(1,2) seeded]
    have d: "episodes_ok (stage2_db env db1)" using assms(3) by (simp add: episodes_ok_def stage2_db_def db1_def db0_def)
    have "list_all (\<lambda>x. for_segment ''GLOBAL'' ''ALL'' x \<longrightarrow> sig_window_start x < fst (hd ?W)) (db_signals (stage2_db env db1))"
      using assms(4) by (simp add: no_later_signal_def stage2_db_def db1_def db0_def)
    from run_stage3_seeded[OF assms(1,2) seeded d refl this] obtain db3 where
      stage3: "run_stage3_degradation env ?W (stage2_db env db1) = Inr (active_episodes db3, db3)"
      and crit: "list_ex critical_global (active_episodes db3)" by blast
    have ev3: "db_events db3 = db_events db1" by (rule stage3_events[OF stage3, unfolded stage2_db_events])
    have some: "active_episodes db3 \<noteq> []" using crit by auto
    have base_ok: "\<not> list_ex (\<lambda>res. s2_baseline_success_rate res = None) (map stage2_expected (enumerate 0 ?W))"
      by (auto simp: list_ex_iff stage2_expected_def)
    define P where "P eps evs \<longleftrightarrow> list_ex critical_global (filter (\<lambda>ep. ep_status ep = ACTIVE) eps) \<and> evs = db_events db1"
      for eps evs
    have P3: "P (db_episodes db3) (db_events db3)" using crit ev3 by (simp add: P_def active_episodes_def)
    have four: "case run_stage4_rca env (active_episodes db3) pm db3 of
        Inl (e, c) \<Rightarrow> P (db_episodes c) (db_events c) | Inr (v, c) \<Rightarrow> P (db_episodes c) (db_events c)"
      using evaluate_active_keeps[of P "(db3, db3)" "ce_clock env 3" "active_episodes db3"] P3
      by (auto simp: run_stage4_rca_def split: sum.splits list.splits prod.splits)
    show ?thesis
    proof (cases "run_stage4_rca env (active_episodes db3) pm db3")
      case (Inl x)
      obtain e c where x: "x = (e, c)" by (cases x)
      have "P (db_episodes c) (db_events c)" using four by (simp add: Inl x)
      then have "list_ex critical_global (active_episodes c)" by (simp add: P_def active_episodes_def)
      then show ?thesis using True some by (simp add: main stage2 stage3 Inl x)
    next
      case (Inr x)
      obtain v c where x: "x = (v, c)" by (cases x)
      have c: "P (db_episodes c) (db_events c)" using four by (simp add: Inr x)
      have "180 \<le> check_lookback_terminal_volume c ?n"
        by (rule volume_seeded[OF assms(1), where evs = "db_events db" and pm = pm and ccy = ccy]) (use c in \<open>simp add: P_def db1_def db0_def\<close>)
      moreover have "list_ex critical_global (active_episodes c)" using c by (simp add: P_def active_episodes_def)
      ultimately show ?thesis using True some base_ok crit expiry_minutes_bounds[of ?n]
        by (simp add: main stage2 stage3 Inr x critical_episode_severity)
    qed
  qed
qed

section \<open>What the traffic is counted in\<close>

text \<open>C37: Whose failure rates the generated traffic enters. Appended to any database, it leaves the rate of the
  source system of a Razorpay payment untouched for every instant and lookback, but the rates of its payment method
  and of its currency in the half hour before the run grow by exactly 180 outcomes and 144 failures.\<close>

theorem generated_traffic_scope:
  assumes "draws_ok env"
  shows "let db' = db\<lparr>db_events := db_events db @ generated_events env pm ccy (windows_of now)\<rparr>;
             more = (\<lambda>(n, m). (n + 180, m + 144))
    in get_historical_failure_rate db' ''source_system'' RAZORPAY_SOURCE_SYSTEM t lookback False =
         get_historical_failure_rate db ''source_system'' RAZORPAY_SOURCE_SYSTEM t lookback False \<and>
       get_historical_failure_rate db' ''payment_method'' pm now 30 False =
         more (get_historical_failure_rate db ''payment_method'' pm now 30 False) \<and>
       get_historical_failure_rate db' ''currency'' ccy now 30 False =
         more (get_historical_failure_rate db ''currency'' ccy now 30 False)"
proof -
  let ?g = "generated_events env pm ccy (windows_of now)"
  have gen: "ev_source_system e = GENERATED_SOURCE_SYSTEM" "ev_payment_method e = Some pm" "ev_currency e = ccy"
    "ev_ingested_at e = ev_timestamp e" "event_visible e" "now - minutes 30 \<le> ev_timestamp e" "ev_timestamp e < now"
    if "e \<in> set ?g" for e
  proof -
    from that obtain k w where w: "(k, w) \<in> set (enumerate 0 (windows_of now))" and e: "e \<in> set (events_of_window env pm ccy (k, w))"
      unfolding generated_events_windows by fastforce
    have mem: "w \<in> set (windows_of now)" using w by (rule enumerate_mem)
    have inw: "in_window (fst w) (snd w) e" by (rule tx_events_in_window[OF assms windows_of_apart(1)[OF mem] e])
    show "now - minutes 30 \<le> ev_timestamp e" by (rule window_recent(1)[OF mem inw])
    have "snd w \<le> w0_of now" using mem by (auto simp: windows_of_eq minutes_def)
    with inw w0_aligned(2)[of now] show "ev_timestamp e < now" by (simp add: in_window_def)
    show src: "ev_source_system e = GENERATED_SOURCE_SYSTEM" "ev_payment_method e = Some pm" "ev_currency e = ccy"
      "ev_ingested_at e = ev_timestamp e"
      using e by (auto simp: events_of_window_def tx_events_def auth_event_def term_event_def Let_def)
    show "event_visible e" by (simp add: event_visible_def src(1) GENERATED_SOURCE_SYSTEM_def source_defs)
  qed
  have failures: "num_of failed ?g = 144"
    by (simp add: generated_events_windows windows_of_w window_counts(1)[OF assms])
  have "filter (\<lambda>e. ev_event_type e = ''payment.failed'') (filter is_terminal es) = filter failed es" for es
    by (induction es) (auto simp: is_terminal_iff failed_def)
  then have count: "length (filter is_terminal ?g) = 180" "length (filter (\<lambda>e. ev_event_type e = ''payment.failed'') (filter is_terminal ?g)) = 144"
    using generated_count[OF assms, of pm ccy now] failures by (simp_all add: num_of_def del: filter_filter)
  have "filter (\<lambda>e. dimension_col ''source_system'' e = Some RAZORPAY_SOURCE_SYSTEM \<and> P e) ?g = []" for P
    using gen(1) by (auto simp: filter_empty_conv dimension_col_def GENERATED_SOURCE_SYSTEM_def source_defs)
  moreover have "filter (\<lambda>e. dimension_col ''payment_method'' e = Some pm \<and> ev_ingested_at e < now \<and>
      now - minutes 30 \<le> ev_timestamp e \<and> ev_timestamp e < now \<and> ev_event_type e \<in> set TERMINAL_EVENT_TYPES \<and> event_visible e) ?g =
      filter is_terminal ?g"
    using gen by (intro filter_cong refl) (auto simp: dimension_col_def ev_field_def is_terminal_def)
  moreover have "filter (\<lambda>e. dimension_col ''currency'' e = Some ccy \<and> ev_ingested_at e < now \<and>
      now - minutes 30 \<le> ev_timestamp e \<and> ev_timestamp e < now \<and> ev_event_type e \<in> set TERMINAL_EVENT_TYPES \<and> event_visible e) ?g =
      filter is_terminal ?g"
    using gen by (intro filter_cong refl) (auto simp: dimension_col_def ev_field_def is_terminal_def)
  ultimately show ?thesis
    by (simp add: get_historical_failure_rate_def Let_def count del: filter_filter)
qed

text \<open>Every run of the generator adds its rows again.\<close>

lemma seeding_adds_every_time:
  assumes "draws_ok env"
  shows "case seed_upstream_synthetic_traffic env (windows_of (ce_now env)) pm ccy db of
      Inl e \<Rightarrow> e = IntegrityError
    | Inr (n, db') \<Rightarrow> n = 180 \<and> length (db_events db') = length (db_events db) + 360 \<and> length (db_raw db') = length (db_raw db) + 360"
proof -
  have w: "length (window_txs env kw) = 60" for kw by (simp add: window_txs_def outcomes_counts(1)[OF assms] split: prod.split)
  have n: "length (live_txs env (windows_of now)) = 180" for now
    by (simp add: live_txs_def windows_of_w w)
  have "length (concat (map (tx_events pm ccy) txs)) = 2 * length txs" "length (concat (map (tx_raws pm ccy) txs)) = 2 * length txs" for txs
    by (induction txs) (auto simp: tx_events_def tx_raws_def)
  with n show ?thesis by (simp add: seed_traffic_cases generated_events_def)
qed

section \<open>Concrete instances\<close>

definition example_draw :: "nat \<Rightarrow> nat \<Rightarrow> live_draw" where
  "example_draw w i =
     \<lparr>ld_jitter = 1, ld_gap = 10, ld_clamp = 1, ld_token = show_nat (60 * w + i), ld_amount = 2500,
      ld_auth_id = Uuid4 (120 * w + 2 * i), ld_term_id = Uuid4 (120 * w + 2 * i + 1)\<rparr>"

definition example_context :: context_env where
  "example_context =
     \<lparr>ce_now = minutes 12345, ce_clock = (\<lambda>n. minutes 12345), ce_baseline_ids = Uuid4, ce_shuffle = (\<lambda>w xs. xs),
      ce_draw = example_draw, ce_snapshot_ids = (\<lambda>w n. Uuid5 (Uuid4 w) [UuidStr (Uuid4 n)]),
      ce_signal_ids = (\<lambda>w k n. Uuid4 n), ce_run_ids = (\<lambda>w k. Uuid4 k)\<rparr>"

definition example_live_db :: rca_db where
  "example_live_db =
     \<lparr>db_raw = [], db_events = [], db_snapshots = [], db_signals = [], db_episodes = [], db_history = [],
      db_evaluations = [], db_candidates = []\<rparr>"

lemma example_draws_ok: "draws_ok example_context"
proof -
  have "fl (1 / 10) \<le> 1" "1 \<le> fl (12 / 10)" "fl (5 / 10) \<le> 1"
    using fl_le_one[of "1 / 10"] fl_le_one[of "5 / 10"] fl_ge_float[of 1 "12 / 10"] by simp_all
  then show ?thesis by (auto simp: draws_ok_def draw_ok_def example_context_def example_draw_def inj_def)
qed

lemma fresh_identities:
  assumes "distinct (map (\<lambda>(w, i, d, f). ld_token d) txs)"
  shows "distinct (map event_identity (concat (map (tx_events pm ccy) txs)))"
    and "distinct (map raw_identity (concat (map (tx_raws pm ccy) txs)))"
proof -
  have ids: "map event_identity (concat (map (tx_events pm ccy) txs)) =
      concat (map (\<lambda>t. [(GENERATED_SOURCE_SYSTEM, ''evt_live_auth_'' @ t), (GENERATED_SOURCE_SYSTEM, ''evt_live_term_'' @ t)])
        (map (\<lambda>(w, i, d, f). ld_token d) txs))"
    by (induction txs) (auto simp: tx_events_def event_identity_def auth_event_def term_event_def Let_def)
  have raws: "map raw_identity (concat (map (tx_raws pm ccy) txs)) = map event_identity (concat (map (tx_events pm ccy) txs))"
    by (induction txs) (auto simp: tx_events_def tx_raws_def event_identity_def raw_identity_def generated_raw_def auth_event_def
        term_event_def Let_def)
  have "distinct ts \<Longrightarrow> distinct (concat (map (\<lambda>t. [(g, ''evt_live_auth_'' @ t), (g, ''evt_live_term_'' @ t)]) ts))" for g :: string and ts
    by (induction ts) auto
  from this[OF assms] ids raws show "distinct (map event_identity (concat (map (tx_events pm ccy) txs)))"
    "distinct (map raw_identity (concat (map (tx_raws pm ccy) txs)))" by (simp_all only:)
qed

lemma example_fresh: "traffic_fresh example_context ''card'' ''INR'' example_live_db"
proof -
  let ?txs = "live_txs example_context (windows_of (ce_now example_context))"
  have window: "map (\<lambda>(w, i, d, f). h d) (window_txs example_context (k, v)) = map (\<lambda>i. h (example_draw k i)) [0..<60]" for h :: "live_draw \<Rightarrow> 'b" and k v
  proof -
    have "map (\<lambda>(w, i, d, f). h d) (window_txs example_context (k, v)) =
        map (\<lambda>i. h (example_draw k i)) (map fst (enumerate 0 (outcomes_of_window example_context k)))"
      by (simp add: window_txs_def example_context_def comp_def case_prod_unfold del: map_fst_enumerate)
    then show ?thesis by (simp only: map_fst_enumerate outcomes_counts(1)[OF example_draws_ok] add_0)
  qed
  have "map (\<lambda>(w, i, d, f). ld_token d) ?txs = map show_nat ([0..<60] @ map (\<lambda>i. 60 + i) [0..<60] @ map (\<lambda>i. 120 + i) [0..<60])"
    by (simp add: live_txs_def windows_of_w window) (simp add: example_draw_def)
  moreover have "distinct ([0..<60] @ map (\<lambda>i. 60 + i) [0..<60] @ map (\<lambda>i. 120 + i) [0..<60::nat])"
    by (auto simp: distinct_map inj_on_def)
  ultimately have "distinct (map (\<lambda>(w, i, d, f). ld_token d) ?txs)"
    by (simp only: distinct_map) (simp add: inj_on_def show_nat_inject)
  note ids = fresh_identities[OF this, of "''card''" "''INR''"]
  have events: "map ev_event_id (concat (map (tx_events ''card'' ''INR'') txs)) =
      concat (map (\<lambda>d. [ld_auth_id d, ld_term_id d]) (map (\<lambda>(w, i, d, f). d) txs))" for txs
    by (induction txs) (auto simp: tx_events_def auth_event_def term_event_def Let_def)
  have draws: "map (\<lambda>(w, i, d, f). d) ?txs = map (example_draw 0) [0..<60] @ map (example_draw 1) [0..<60] @ map (example_draw 2) [0..<60]"
    using window[of "\<lambda>d. d"] by (simp add: live_txs_def windows_of_w numeral_2_eq_2 del: upt_Suc upt_rec_numeral)
  have each: "concat (map (\<lambda>d. [ld_auth_id d, ld_term_id d]) (map (example_draw k) [0..<n])) = map Uuid4 [a..<b]"
    if "a = 120 * k" "b = 120 * k + 2 * n" for a b k n
    unfolding that by (induction n) (simp_all add: example_draw_def)
  have e: "concat (map (\<lambda>d. [ld_auth_id d, ld_term_id d]) (map (example_draw 0) [0..<60])) = map Uuid4 [0..<120]"
    "concat (map (\<lambda>d. [ld_auth_id d, ld_term_id d]) (map (example_draw 1) [0..<60])) = map Uuid4 [120..<240]"
    "concat (map (\<lambda>d. [ld_auth_id d, ld_term_id d]) (map (example_draw 2) [0..<60])) = map Uuid4 [240..<360]"
    by (rule each; simp)+
  have "map ev_event_id (concat (map (tx_events ''card'' ''INR'') ?txs)) = map Uuid4 ([0..<120] @ [120..<240] @ [240..<360])"
    unfolding events draws map_append concat_append
    by (simp only: e)
  moreover have "distinct ([0..<120] @ [120..<240] @ [240..<360::nat])"
    by (simp only: distinct_append distinct_upt set_upt set_append) auto
  ultimately have "distinct (map ev_event_id (concat (map (tx_events ''card'' ''INR'') ?txs)))"
    by (simp only: distinct_map) (simp add: inj_on_def)
  with ids show ?thesis by (simp add: traffic_fresh_def example_live_db_def)
qed

theorem live_context_ready_witness:
  "case main_async example_context ''card'' ''INR'' example_live_db of
     Inl (e, db') \<Rightarrow> list_ex critical_global (active_episodes db')
   | Inr (summary, db') \<Rightarrow> list_ex critical_global (active_episodes db') \<and> cs_severity summary = CRITICAL"
proof -
  have "quiet (windows_of (ce_now example_context)) example_live_db" "episodes_ok example_live_db"
    "no_later_signal (ce_now example_context) example_live_db"
    by (simp_all add: quiet_def episodes_ok_def no_later_signal_def example_live_db_def list_all_iff)
  from live_context_ready[OF example_draws_ok this, of "''card''" "''INR''"] example_fresh show ?thesis
    by (auto split: sum.splits)
qed

theorem generated_traffic_scope_witness:
  "get_historical_failure_rate (example_live_db\<lparr>db_events := generated_events example_context ''card'' ''INR'' (windows_of 0)\<rparr>)
     ''payment_method'' ''card'' 0 30 False = (180, 144)"
  using generated_traffic_scope[OF example_draws_ok, of example_live_db "''card''" "''INR''" 0 0 0]
  by (simp add: Let_def) (simp add: example_live_db_def get_historical_failure_rate_def Let_def)?

end
