(* ===== verification/Demo.thy ===== *)
theory Demo
  imports LiveContext Guards
begin

text \<open>
  The end-to-end demonstration (\<open>scripts/demo_orchestrator.py\<close>): the traffic and the baselines it seeds,
  Stages 2 to 8 over 24 windows with their commit points, the summary, and the command line with the guards
  of \<open>--reset\<close>; and the generator of a synthetic history (\<open>scripts/generate_synthetic_history.py\<close>).

  What \<open>random\<close>, \<open>uuid4\<close> and the clock return is the record \<open>demo_env\<close>; what the server answers is
  \<open>demo_server\<close>. Rows are taken to fit the width of their columns; log lines are not modelled.
\<close>

section \<open>Synthetic traffic\<close>

text \<open>\<open>random.randint(lo, hi)\<close> for the raw draw \<open>r\<close>: any integer of the closed range, and no other.\<close>

definition randint :: "int \<Rightarrow> int \<Rightarrow> nat \<Rightarrow> int" where
  "randint lo hi r = lo + int r mod (hi - lo + 1)"

record demo_draw =
  dd_step :: nat
  dd_token :: string
  dd_amount :: nat
  dd_chance :: pyfloat
  dd_auth_token :: string
  dd_auth_id :: uuid
  dd_offset :: nat
  dd_term_token :: string
  dd_term_id :: uuid

definition is_incident_window :: "datetime \<Rightarrow> datetime \<Rightarrow> bool" where
  "is_incident_window start_time t \<longleftrightarrow> start_time + minutes 30 \<le> t \<and> t \<le> start_time + minutes 60"

definition demo_is_fail :: "datetime \<Rightarrow> datetime \<Rightarrow> demo_draw \<Rightarrow> bool" where
  "demo_is_fail start_time t d \<longleftrightarrow>
     dd_chance d < (if is_incident_window start_time t then fl (80 / 100) else fl (15 / 100))"

definition demo_payment_id :: "demo_draw \<Rightarrow> string" where
  "demo_payment_id d = ''pay_demo_'' @ dd_token d"

definition demo_payload :: "string \<Rightarrow> string \<Rightarrow> json" where
  "demo_payload etype payment_id =
     JObj [(''event'', JStr etype),
       (''payload'', JObj [(''payment'', JObj [(''entity'', JObj [(''id'', JStr payment_id)])])])]"

definition demo_auth_event :: "datetime \<Rightarrow> demo_draw \<Rightarrow> payment_event" where
  "demo_auth_event t d =
     \<lparr>ev_event_id = dd_auth_id d, ev_source_system = ''synthetic'',
      ev_source_event_id = ''evt_auth_'' @ dd_auth_token d, ev_payment_id = demo_payment_id d,
      ev_order_id = None, ev_timestamp = t, ev_event_type = ''payment.authorized'', ev_currency = ''INR'',
      ev_amount_minor_units = randint 1000 50000 (dd_amount d), ev_payment_status = ''authorized'',
      ev_payment_method = Some ''UPI'', ev_bank = Some ''HDFC'', ev_wallet = None, ev_error_code = None,
      ev_error_description = None, ev_error_source = None, ev_error_step = None, ev_error_reason = None,
      ev_ingested_at = t\<rparr>"

definition term_event_time :: "datetime \<Rightarrow> demo_draw \<Rightarrow> datetime" where
  "term_event_time t d = t + seconds (randint 5 30 (dd_offset d))"

definition demo_term_event :: "datetime \<Rightarrow> datetime \<Rightarrow> demo_draw \<Rightarrow> payment_event" where
  "demo_term_event start_time t d =
     (let is_fail = demo_is_fail start_time t d
      in (demo_auth_event t d)
           \<lparr>ev_event_id := dd_term_id d, ev_source_event_id := ''evt_term_'' @ dd_term_token d,
            ev_timestamp := term_event_time t d, ev_event_type := term_type is_fail,
            ev_payment_status := term_status is_fail, ev_ingested_at := term_event_time t d\<rparr>)"

definition demo_events_of :: "datetime \<Rightarrow> datetime \<times> demo_draw \<Rightarrow> payment_event list" where
  "demo_events_of start_time = (\<lambda>(t, d). [demo_auth_event t d, demo_term_event start_time t d])"

definition demo_raw :: "payment_event \<Rightarrow> raw_record" where
  "demo_raw e =
     (let payload = demo_payload (ev_event_type e) (ev_payment_id e)
      in \<lparr>raw_source_system = ''synthetic'', raw_source_event_id = ev_source_event_id e,
          raw_received_at = ev_timestamp e, raw_payload = payload,
          raw_payload_hash = generate_deterministic_hash payload\<rparr>)"

text \<open>The loop: the instants of the authorizations with what was drawn for each.\<close>

lemma randint_bounds: "lo \<le> hi \<Longrightarrow> lo \<le> randint lo hi r \<and> randint lo hi r \<le> hi"
  using pos_mod_bound[of "hi - lo + 1" "int r"] pos_mod_sign[of "hi - lo + 1" "int r"] by (simp add: randint_def)

function demo_transactions :: "(nat \<Rightarrow> demo_draw) \<Rightarrow> datetime \<Rightarrow> nat \<Rightarrow> datetime \<Rightarrow> (datetime \<times> demo_draw) list" where
  "demo_transactions draw end_time n current_time =
     (if end_time \<le> current_time then []
      else let t = current_time + seconds (randint 1 3 (dd_step (draw n)))
           in if end_time \<le> t then [] else (t, draw n) # demo_transactions draw end_time (Suc n) t)"
  by pat_completeness auto
termination
proof (relation "measure (\<lambda>(draw, e, n, t). nat (e - t))")
  show "\<not> e \<le> c \<Longrightarrow> t = c + seconds (randint 1 3 (dd_step (draw n))) \<Longrightarrow> \<not> e \<le> t \<Longrightarrow>
      ((draw, e, Suc n, t), draw, e, n, c) \<in> measure (\<lambda>(draw, e, n, t). nat (e - t))"
    for draw :: "nat \<Rightarrow> demo_draw" and e c t n
    using randint_bounds[of 1 3 "dd_step (draw n)"] by (simp add: seconds_def)
qed simp

declare demo_transactions.simps [simp del]

text \<open>What a transaction inserts: all of the rows or, when an identity is taken, none.\<close>

definition insert_rows ::
  "raw_record list \<Rightarrow> payment_event list \<Rightarrow> ('a event_db_scheme) \<Rightarrow> (exn, 'a event_db_scheme) result" where
  "insert_rows raws events db =
     (let all_raws = db_raw db @ raws; all_events = db_events db @ events
      in if distinct (map raw_identity all_raws) \<and> distinct (map event_identity all_events) \<and>
            distinct (map ev_event_id all_events)
         then Inr (db\<lparr>db_raw := all_raws, db_events := all_events\<rparr>) else Inl IntegrityError)"

text \<open>The rows are flushed in batches within one transaction.\<close>

definition seed_stage1_events ::
  "(nat \<Rightarrow> demo_draw) \<Rightarrow> datetime \<Rightarrow> datetime \<Rightarrow> ('a event_db_scheme) \<Rightarrow> (exn, int \<times> ('a event_db_scheme)) result" where
  "seed_stage1_events draw start_time end_time db =
     (let batch = concat (map (demo_events_of start_time) (demo_transactions draw end_time 0 start_time))
      in bind_result (insert_rows (map demo_raw batch) batch db) (\<lambda>db'. Inr (int (length batch), db')))"

section \<open>Historical snapshots\<close>

text \<open>The tumbling windows of a \<open>while\<close> loop.\<close>

function windows_from :: "datetime \<Rightarrow> datetime \<Rightarrow> window list" where
  "windows_from current end_time =
     (if end_time \<le> current then [] else (current, current + minutes 5) # windows_from (current + minutes 5) end_time)"
  by pat_completeness auto
termination by (relation "measure (\<lambda>(t, e). nat (e - t))") (simp_all add: minutes_def)

declare windows_from.simps [simp del]

definition demo_baseline_row :: "uuid \<Rightarrow> datetime \<Rightarrow> window \<Rightarrow> string \<times> string \<Rightarrow> snapshot" where
  "demo_baseline_row new_id now w segment =
     \<lparr>hs_snapshot_id = new_id, hs_window_start = fst w, hs_window_end = snd w,
      hs_dimension = fst segment, hs_value = snd segment,
      hs_transaction_count = 200, hs_successful_count = 170, hs_failed_count = 30,
      hs_success_rate = Some (fl (85 / 100)), hs_failure_rate = Some (fl (15 / 100)),
      hs_total_gmv = 5000000, hs_successful_gmv = 4250000, hs_failed_gmv = 750000,
      hs_baseline_success_rate = Some (fl (85 / 100)), hs_insufficient_volume = False,
      hs_calculated_at = now\<rparr>"

definition demo_baseline_rows :: "(nat \<Rightarrow> uuid) \<Rightarrow> (nat \<Rightarrow> datetime) \<Rightarrow> datetime \<Rightarrow> datetime \<Rightarrow> snapshot list" where
  "demo_baseline_rows ids clock start_time end_time =
     map (\<lambda>(n, w, segment). demo_baseline_row (ids n) (clock n) w segment)
       (enumerate 0 (concat (map
          (\<lambda>w. [(w, ''bank'', ''HDFC''), (w, ''payment_method'', ''UPI''), (w, ''GLOBAL'', ''ALL'')])
          (windows_from (start_time - weeks 1) (end_time - weeks 1)))))"

definition seed_historical_snapshots ::
  "(nat \<Rightarrow> uuid) \<Rightarrow> (nat \<Rightarrow> datetime) \<Rightarrow> datetime \<Rightarrow> datetime \<Rightarrow> ('a analytics_db_scheme) \<Rightarrow>
   (exn, int \<times> ('a analytics_db_scheme)) result" where
  "seed_historical_snapshots ids clock start_time end_time db =
     (let rows = demo_baseline_rows ids clock start_time end_time;
          snapshots = db_snapshots db @ rows
      in if distinct (map snapshot_identity snapshots) \<and> distinct (map hs_snapshot_id snapshots)
         then Inr (int (length rows), db\<lparr>db_snapshots := snapshots\<rparr>)
         else Inl IntegrityError)"

section \<open>The stages\<close>

text \<open>Ids and clocks are indexed by the window and, from Stage 5 on, by the authorization within it.\<close>

record demo_env =
  dm_uuid_str :: "uuid \<Rightarrow> string"
  dm_draw :: "nat \<Rightarrow> demo_draw"
  dm_baseline_ids :: "nat \<Rightarrow> uuid"
  dm_baseline_clock :: "nat \<Rightarrow> datetime"
  dm_snapshot_ids :: "nat \<Rightarrow> nat \<Rightarrow> uuid"
  dm_signal_ids :: "nat \<Rightarrow> nat \<Rightarrow> uuid"
  dm_run_ids :: "nat \<Rightarrow> uuid"
  dm_clock :: "nat \<Rightarrow> stage \<Rightarrow> datetime"
  dm_event_clock :: "nat \<Rightarrow> nat \<Rightarrow> stage \<Rightarrow> datetime"
  dm_attempt_ids :: "nat \<Rightarrow> nat \<Rightarrow> uuid"

text \<open>
  Every snapshot of the window goes into one call of Stage 3. Stage 2 commits its snapshots, Stage 4 each
  evaluation; an exception carries the database that the last commit left.
\<close>

definition demo_snapshots :: "window \<Rightarrow> ('a analytics_db_scheme) \<Rightarrow> snapshot list" where
  "demo_snapshots w db = filter (\<lambda>s. fst w \<le> hs_window_start s \<and> hs_window_end s \<le> snd w) (db_snapshots db)"

definition demo_stages_2_to_4 ::
  "demo_env \<Rightarrow> nat \<Rightarrow> window \<Rightarrow> ('a rca_db_scheme) \<Rightarrow> (exn \<times> ('a rca_db_scheme), 'a rca_db_scheme) result" where
  "demo_stages_2_to_4 env k w db =
     (let db2 = calculate_and_save_window (dm_snapshot_ids env k) (dm_clock env k STAGE_2_ANALYTICS) (fst w) (snd w) db
      in case process_snapshots (dm_signal_ids env k) (dm_run_ids env k) (demo_snapshots w db2) (snd w) db2 of
           Inl e \<Rightarrow> Inl (e, db2)
         | Inr db3 \<Rightarrow>
             (case fold_result (evaluate_active (dm_clock env k STAGE_4_RCA)) (active_episodes db3) (db2, db3) of
                Inl (st, e, committed) \<Rightarrow> Inl (e, committed)
              | Inr (committed, db4) \<Rightarrow> Inr db4))"

definition demo_act ::
  "demo_env \<Rightarrow> nat \<Rightarrow> nat \<Rightarrow> datetime \<Rightarrow> intervention_decision \<Rightarrow> ('a attribution_db_scheme) \<Rightarrow>
   (exn, 'a attribution_db_scheme) result" where
  "demo_act env k n ts decision db =
     (if de_type decision \<noteq> ACT then Inr db
      else let clock = dm_event_clock env k n; t_obs = ts + seconds 45
           in bind_result (create_command decision 300 ts db) (\<lambda>(cmd, db1).
              bind_result (execute_command live_executor (dm_attempt_ids env k n) (JObj []) (ts + seconds 1)
                  (cm_command_id cmd) db1) (\<lambda>(_, db2).
              bind_result (observe t_obs (clock STAGE_7_OBSERVATION_TERMINAL) (cm_command_id cmd) db2) (\<lambda>(_, db3).
              bind_result (attribute_payment_intervention t_obs (clock STAGE_8_ATTRIBUTION_TERMINAL) (cm_command_id cmd) db3)
                (\<lambda>(_, db4). Inr db4)))))"

definition demo_payment ::
  "demo_env \<Rightarrow> nat \<Rightarrow> nat \<times> payment_event \<Rightarrow> ('a attribution_db_scheme) \<Rightarrow> (exn, 'a attribution_db_scheme) result" where
  "demo_payment env k = (\<lambda>(n, auth) db.
     let clock = dm_event_clock env k n; ts = ev_timestamp auth
     in bind_result (register_attempt (clock STAGE_5_REGISTRATION) auth db) (\<lambda>(a, db1).
        bind_result (orchestrate_prediction (dm_uuid_str env) DeterministicBaselineModel (clock STAGE_5_PREDICTION)
            (ra_ref a) ts db1) (\<lambda>(pred, db2).
        if (case fp_failure_probability pred of None \<Rightarrow> False | Some p \<Rightarrow> p > 1 / 2)
        then bind_result (decide (dm_uuid_str env) get_default_policy (clock STAGE_6_DECISION) (ra_ref a) ts db2)
               (\<lambda>(decision, db3). demo_act env k n ts decision db3)
        else Inr db2)))"

definition demo_auths :: "window \<Rightarrow> ('a event_db_scheme) \<Rightarrow> payment_event list" where
  "demo_auths w db =
     filter (\<lambda>e. ev_event_type e = ''payment.authorized'' \<and> fst w \<le> ev_timestamp e \<and> ev_timestamp e < snd w) (db_events db)"

text \<open>Two commits: after Stage 4 and after the last authorization.\<close>

definition demo_window ::
  "demo_env \<Rightarrow> nat \<times> window \<Rightarrow> ('a attribution_db_scheme) \<Rightarrow>
   (exn \<times> ('a attribution_db_scheme), 'a attribution_db_scheme) result" where
  "demo_window env = (\<lambda>(k, w) db.
     bind_result (demo_stages_2_to_4 env k w db) (\<lambda>db4.
       case fold_result (demo_payment env k) (enumerate 0 (demo_auths w db4)) db4 of
         Inl e \<Rightarrow> Inl (e, db4)
       | Inr db8 \<Rightarrow> Inr db8))"

text \<open>\<open>datetime(2026, 9, 2, 10, 0, tzinfo=timezone.utc)\<close>\<close>

definition demo_start_time :: datetime where
  "demo_start_time = seconds (86400 * epoch_day 2026 9 2 + 3600 * 10)"

definition demo_end_time :: datetime where
  "demo_end_time = demo_start_time + minutes 120"

definition seed_demo ::
  "demo_env \<Rightarrow> ('a analytics_db_scheme) \<Rightarrow> (exn, 'a analytics_db_scheme) result" where
  "seed_demo env db =
     bind_result (seed_stage1_events (dm_draw env) demo_start_time demo_end_time db) (\<lambda>(_, db1).
     bind_result (seed_historical_snapshots (dm_baseline_ids env) (dm_baseline_clock env) demo_start_time demo_end_time db1)
       (\<lambda>(_, db2). Inr db2))"

definition run_demo_pipeline ::
  "demo_env \<Rightarrow> ('a attribution_db_scheme) \<Rightarrow> (exn \<times> ('a attribution_db_scheme), 'a attribution_db_scheme) result" where
  "run_demo_pipeline env db =
     (case seed_demo env db of
        Inl e \<Rightarrow> Inl (e, db)
      | Inr db1 \<Rightarrow> fold_result (demo_window env) (enumerate 0 (windows_from demo_start_time demo_end_time)) db1)"

section \<open>The summary\<close>

record demo_summary =
  sm_total_gmv :: int
  sm_captured_gmv :: int
  sm_failed_gmv :: int
  sm_episodes :: int
  sm_rca_evaluations :: int
  sm_predictions :: int
  sm_peak_probability :: pyfloat
  sm_act_decisions :: int
  sm_executed_commands :: int
  sm_captured_observations :: int
  sm_attributed :: int
  sm_protected_gmv :: int

definition gmv_of_type :: "string \<Rightarrow> ('a event_db_scheme) \<Rightarrow> int" where
  "gmv_of_type etype db = sum_list (map ev_amount_minor_units (filter (\<lambda>e. ev_event_type e = etype) (db_events db)))"

definition print_executive_summary :: "('a attribution_db_scheme) \<Rightarrow> demo_summary" where
  "print_executive_summary db =
     \<lparr>sm_total_gmv = gmv_of_type ''payment.authorized'' db,
      sm_captured_gmv = gmv_of_type ''payment.captured'' db,
      sm_failed_gmv = gmv_of_type ''payment.failed'' db,
      sm_episodes = int (length (db_episodes db)),
      sm_rca_evaluations = int (length (db_evaluations db)),
      sm_predictions = int (length (db_predictions db)),
      sm_peak_probability =
        (case List.map_filter fp_failure_probability (db_predictions db) of [] \<Rightarrow> 0 | p # ps \<Rightarrow> fold max ps p),
      sm_act_decisions = int (length (filter (\<lambda>d. de_type d = ACT) (db_decisions db))),
      sm_executed_commands = int (length (filter (\<lambda>c. cm_status c = SUCCEEDED) (db_commands db))),
      sm_captured_observations = int (length (filter (\<lambda>ob. ob_outcome ob = OUTCOME_CAPTURED) (db_observations db))),
      sm_attributed = int (length (filter (\<lambda>a. aa_status a = ATTRIBUTED) (db_attributions db))),
      sm_protected_gmv = sum_list (map aa_protected (db_attributions db))\<rparr>"

section \<open>The command line\<close>

record demo_args =
  da_reset :: bool
  da_no_reset :: bool

record demo_server =
  ds_reachable :: bool
  ds_schema_present :: bool
  ds_current_database :: string

text \<open>\<open>payment_id LIKE 'pay_demo_%'\<close>, in which an underscore stands for any character.\<close>

fun like_demo :: "string \<Rightarrow> string \<Rightarrow> bool" where
  "like_demo [] s = (s = [])"
| "like_demo (p # ps) s =
     (if p = CHR ''%'' then like_demo ps s \<or> (case s of [] \<Rightarrow> False | _ # s' \<Rightarrow> like_demo (p # ps) s')
      else case s of [] \<Rightarrow> False | c # s' \<Rightarrow> (p = CHR ''_'' \<or> p = c) \<and> like_demo ps s')"

definition demo_data_present :: "('a event_db_scheme) \<Rightarrow> bool" where
  "demo_data_present db = list_ex (\<lambda>e. like_demo ''pay_demo_%'' (ev_payment_id e)) (db_events db)"

text \<open>\<open>TRUNCATE\<close> of every table of the models.\<close>

definition truncate_all :: "('a attribution_db_scheme) \<Rightarrow> ('a attribution_db_scheme)" where
  "truncate_all db =
     db\<lparr>db_raw := [], db_events := [], db_snapshots := [], db_signals := [], db_episodes := [], db_history := [],
        db_evaluations := [], db_candidates := [], db_attempts := [], db_predictions := [], db_decisions := [],
        db_commands := [], db_exec_attempts := [], db_observations := [], db_attributions := []\<rparr>"

definition reset_database ::
  "url_parser \<Rightarrow> demo_server \<Rightarrow> string \<Rightarrow> ('a attribution_db_scheme) \<Rightarrow> (exn, 'a attribution_db_scheme) result" where
  "reset_database make_url server database_url db =
     bind_result (validate_demo_reset_database_url make_url database_url) (\<lambda>expected.
     bind_result (assert_connected_database (ds_current_database server) expected) (\<lambda>_. Inr (truncate_all db)))"

text \<open>
  The exit status, the summary if it is printed and the database. An exception that nothing catches ends
  the interpreter with status 1, \<open>argparse\<close> refuses contradictory options with status 2.
\<close>

definition run_and_report ::
  "demo_env \<Rightarrow> ('a attribution_db_scheme) \<Rightarrow> int \<times> demo_summary option \<times> ('a attribution_db_scheme)" where
  "run_and_report env db =
     (case run_demo_pipeline env db of
        Inl (e, committed) \<Rightarrow> (1, None, committed)
      | Inr db' \<Rightarrow> (0, Some (print_executive_summary db'), db'))"

definition validate_demo_urls :: "demo_args \<Rightarrow> environ \<Rightarrow> url_parser \<Rightarrow> (exn, string) result" where
  "validate_demo_urls args environ make_url =
     bind_result (require_env_database_url environ ''DATABASE_URL'') (\<lambda>database_url.
     bind_result (if da_reset args then bind_result (validate_demo_reset_database_url make_url database_url) (\<lambda>_. Inr ())
                  else Inr ()) (\<lambda>_. Inr database_url))"

definition demo_main ::
  "demo_args \<Rightarrow> environ \<Rightarrow> url_parser \<Rightarrow> demo_server \<Rightarrow> demo_env \<Rightarrow> ('a attribution_db_scheme) \<Rightarrow>
   int \<times> demo_summary option \<times> ('a attribution_db_scheme)" where
  "demo_main args environ make_url server env db =
     (if da_reset args \<and> da_no_reset args then (2, None, db)
      else case validate_demo_urls args environ make_url of
             Inl e \<Rightarrow> (2, None, db)
           | Inr database_url \<Rightarrow>
               if make_url database_url = None then (1, None, db)
               else if \<not> ds_reachable server then (1, None, db)
               else if \<not> ds_schema_present server then (1, None, db)
               else if da_reset args
               then (case reset_database make_url server database_url db of
                       Inl e \<Rightarrow> (2, None, db)
                     | Inr db' \<Rightarrow> run_and_report env db')
               else if demo_data_present db then (1, None, db)
               else run_and_report env db)"

section \<open>The synthetic history\<close>

text \<open>
  \<open>scripts/generate_synthetic_history.py\<close>: payment lifecycles at random times of each day, committed whenever
  2,000 rows have gathered. \<open>random.choice\<close> is an element of the list.
\<close>

record history_draw =
  hy_offset :: nat
  hy_lag :: nat
  hy_token :: string
  hy_method :: nat
  hy_amount :: nat
  hy_auth_token :: string
  hy_auth_id :: uuid
  hy_term_offset :: nat
  hy_term_lag :: nat
  hy_chance :: pyfloat
  hy_term_token :: string
  hy_term_id :: uuid

definition random_choice :: "'x list \<Rightarrow> nat \<Rightarrow> 'x" where
  "random_choice xs r = xs ! (r mod length xs)"

definition history_auth :: "datetime \<Rightarrow> history_draw \<Rightarrow> payment_event" where
  "history_auth current_day_start d =
     (let event_time = current_day_start + seconds (randint 0 86399 (hy_offset d));
          ingested_at = event_time + seconds (randint 1 5 (hy_lag d))
      in \<lparr>ev_event_id = hy_auth_id d, ev_source_system = ''synthetic'',
          ev_source_event_id = ''evt_syn_auth_'' @ hy_auth_token d, ev_payment_id = ''pay_syn_'' @ hy_token d,
          ev_order_id = None, ev_timestamp = event_time, ev_event_type = ''payment.authorized'',
          ev_currency = ''INR'', ev_amount_minor_units = randint 1000 50000 (hy_amount d),
          ev_payment_status = ''authorized'',
          ev_payment_method = Some (random_choice [''UPI'', ''card'', ''netbanking'', ''wallet''] (hy_method d)),
          ev_bank = None, ev_wallet = None, ev_error_code = None, ev_error_description = None,
          ev_error_source = None, ev_error_step = None, ev_error_reason = None, ev_ingested_at = ingested_at\<rparr>)"

definition history_term :: "datetime \<Rightarrow> history_draw \<Rightarrow> payment_event" where
  "history_term current_day_start d =
     (let auth = history_auth current_day_start d;
          term_event_time = ev_timestamp auth + seconds (randint 10 1800 (hy_term_offset d));
          term_ingested_at = term_event_time + seconds (randint 1 5 (hy_term_lag d));
          is_fail = hy_chance d < fl (2 / 10)
      in auth\<lparr>ev_event_id := hy_term_id d, ev_source_event_id := ''evt_syn_term_'' @ hy_term_token d,
              ev_timestamp := term_event_time, ev_event_type := term_type is_fail,
              ev_payment_status := term_status is_fail, ev_ingested_at := term_ingested_at\<rparr>)"

definition history_raw :: "payment_event \<Rightarrow> raw_record" where
  "history_raw e = (demo_raw e)\<lparr>raw_received_at := ev_ingested_at e\<rparr>"

text \<open>Every event stands for two rows of the batch.\<close>

definition history_step ::
  "datetime \<times> history_draw \<Rightarrow> payment_event list \<times> ('a event_db_scheme) \<Rightarrow>
   (exn \<times> ('a event_db_scheme), payment_event list \<times> ('a event_db_scheme)) result" where
  "history_step = (\<lambda>(current_day_start, d) (batch, db).
     let batch' = batch @ [history_auth current_day_start d, history_term current_day_start d]
     in if 2000 \<le> 2 * length batch'
        then (case insert_rows (map history_raw batch') batch' db of Inl e \<Rightarrow> Inl (e, db) | Inr db' \<Rightarrow> Inr ([], db'))
        else Inr (batch', db))"

definition history_end :: datetime where
  "history_end = seconds (86400 * epoch_day 2026 9 2)"

definition history_lifecycles :: "(nat \<Rightarrow> nat \<Rightarrow> history_draw) \<Rightarrow> nat \<Rightarrow> nat \<Rightarrow> (datetime \<times> history_draw) list" where
  "history_lifecycles draw num_days events_per_day =
     (let start_date = history_end - seconds (86400 * int num_days)
      in concat (map (\<lambda>day. map (\<lambda>i. (start_date + seconds (86400 * int day), draw day i)) [0..<events_per_day])
           [0..<num_days]))"

definition generate_dataset ::
  "(nat \<Rightarrow> nat \<Rightarrow> history_draw) \<Rightarrow> nat \<Rightarrow> nat \<Rightarrow> ('a event_db_scheme) \<Rightarrow>
   (exn \<times> ('a event_db_scheme), 'a event_db_scheme) result" where
  "generate_dataset draw num_days events_per_day db =
     bind_result (fold_result history_step (history_lifecycles draw num_days events_per_day) ([], db)) (\<lambda>(batch, db').
       if batch \<noteq> []
       then (case insert_rows (map history_raw batch) batch db' of Inl e \<Rightarrow> Inl (e, db') | Inr db'' \<Rightarrow> Inr db'')
       else Inr db')"

section \<open>The seeded traffic\<close>

text \<open>Successive authorizations are one to three seconds apart and lie inside the timeline.\<close>

definition spaced :: "datetime \<Rightarrow> datetime list \<Rightarrow> bool" where
  "spaced t0 ts \<longleftrightarrow> list_all2 (\<lambda>a b. a + seconds 1 \<le> b \<and> b \<le> a + seconds 3) (butlast (t0 # ts)) ts"

lemma spaced_simps [simp]:
  "spaced t0 []"
  "spaced t0 (t # ts) \<longleftrightarrow> t0 + seconds 1 \<le> t \<and> t \<le> t0 + seconds 3 \<and> spaced t ts"
  by (simp_all add: spaced_def)

lemma demo_transactions_spaced:
  "spaced c (map fst (demo_transactions draw e n c)) \<and>
   list_all (\<lambda>x. c < fst x \<and> fst x < e) (demo_transactions draw e n c) \<and>
   (c < e \<longrightarrow> c + seconds (int (length (demo_transactions draw e n c))) < e \<and>
      e \<le> c + seconds (3 * int (length (demo_transactions draw e n c)) + 3))"
proof (induction draw e n c rule: demo_transactions.induct)
  case (1 draw e n c)
  define t where "t = c + seconds (randint 1 3 (dd_step (draw n)))"
  have t: "c + seconds 1 \<le> t" "t \<le> c + seconds 3"
    using randint_bounds[of 1 3 "dd_step (draw n)"] by (simp_all add: t_def seconds_def)
  show ?case
  proof (cases "e \<le> c \<or> e \<le> t")
    case True
    then have "demo_transactions draw e n c = []" by (auto simp: demo_transactions.simps[of draw e n c] t_def Let_def)
    with True t show ?thesis by (auto simp: seconds_def)
  next
    case False
    then have step: "demo_transactions draw e n c = (t, draw n) # demo_transactions draw e (Suc n) t"
      by (simp add: demo_transactions.simps[of draw e n c] t_def Let_def)
    from False 1[OF _ t_def] have "spaced t (map fst (demo_transactions draw e (Suc n) t))"
      "list_all (\<lambda>x. t < fst x \<and> fst x < e) (demo_transactions draw e (Suc n) t)"
      "t + seconds (int (length (demo_transactions draw e (Suc n) t))) < e"
      "e \<le> t + seconds (3 * int (length (demo_transactions draw e (Suc n) t)) + 3)" by simp_all
    with False t show ?thesis unfolding step by (auto simp: seconds_def list_all_iff)
  qed
qed

lemma demo_transactions_count:
  "2399 \<le> length (demo_transactions draw (s + minutes 120) 0 s) \<and> length (demo_transactions draw (s + minutes 120) 0 s) \<le> 7199"
  using demo_transactions_spaced[of s draw "s + minutes 120" 0] by (simp add: duration_defs)

lemma length_demo_events: "length (concat (map (demo_events_of s) txs)) = 2 * length txs"
  by (induction txs) (auto simp: demo_events_of_def)

text \<open>One authorization and its outcome.\<close>

definition demo_pair_ok :: "datetime \<Rightarrow> datetime \<times> demo_draw \<Rightarrow> bool" where
  "demo_pair_ok s = (\<lambda>(t, d). case demo_events_of s (t, d) of
     [auth, outcome] \<Rightarrow>
       ev_event_type auth = PIPELINE_TRIGGER_EVENT_TYPE \<and> is_terminal outcome \<and>
       ev_payment_id outcome = ev_payment_id auth \<and> ev_amount_minor_units outcome = ev_amount_minor_units auth \<and>
       1000 \<le> ev_amount_minor_units auth \<and> ev_amount_minor_units auth \<le> 50000 \<and>
       ev_timestamp auth = t \<and> t + seconds 5 \<le> ev_timestamp outcome \<and> ev_timestamp outcome \<le> t + seconds 30 \<and>
       (ev_event_type outcome = ''payment.failed'') =
         (dd_chance d < (if s + minutes 30 \<le> t \<and> t \<le> s + minutes 60 then fl (80 / 100) else fl (15 / 100)))
   | _ \<Rightarrow> False)"

lemma demo_pair_holds: "demo_pair_ok s x"
  using randint_bounds[of 1000 50000 "dd_amount (snd x)"] randint_bounds[of 5 30 "dd_offset (snd x)"]
  by (cases x) (auto simp: demo_pair_ok_def demo_events_of_def demo_auth_event_def demo_term_event_def Let_def
      term_event_time_def term_type_def demo_is_fail_def is_incident_window_def is_terminal_def
      PIPELINE_TRIGGER_EVENT_TYPE_def TERMINAL_EVENT_TYPES_def seconds_def)

lemma demo_traffic_bounds:
  "case seed_stage1_events draw s (s + minutes 120) db of
     Inl e \<Rightarrow> e = IntegrityError
   | Inr (n, db') \<Rightarrow>
       (let txs = demo_transactions draw (s + minutes 120) 0 s
        in db_events db' = db_events db @ concat (map (demo_events_of s) txs) \<and>
           spaced s (map fst txs) \<and> list_all (\<lambda>x. fst x < s + minutes 120 \<and> demo_pair_ok s x) txs \<and>
           4798 \<le> n \<and> n \<le> 14398)"
  using demo_transactions_spaced[of s draw "s + minutes 120" 0] demo_transactions_count[of draw s] demo_pair_holds[of s]
  by (auto simp: seed_stage1_events_def insert_rows_def Let_def length_demo_events list_all_iff)

section \<open>The stages keep the tables\<close>

lemma records_demo_stages:
  "case demo_stages_2_to_4 env k w db of
     Inl (e, committed) \<Rightarrow> records committed = records db
   | Inr db' \<Rightarrow> records db' = records db"
proof -
  define db2 where "db2 = calculate_and_save_window (dm_snapshot_ids env k) (dm_clock env k STAGE_2_ANALYTICS) (fst w) (snd w) db"
  have r2: "records db2 = records db" by (simp add: db2_def)
  note unf = demo_stages_2_to_4_def[of env k w db, folded db2_def, unfolded Let_def]
  show ?thesis
  proof (cases "process_snapshots (dm_signal_ids env k) (dm_run_ids env k) (demo_snapshots w db2) (snd w) db2")
    case (Inl e)
    with r2 show ?thesis by (simp add: unf)
  next
    case (Inr db3)
    from records_stage3[OF this] r2 have "records db3 = records db" by simp
    with records_evaluate_all[of "(db2, db3)" "records db" "dm_clock env k STAGE_4_RCA" "active_episodes db3"] Inr r2
    show ?thesis by (auto simp: unf split: sum.splits)
  qed
qed

lemma demo_act_ok:
  assumes run: "demo_act env k n ts d db = Inr db'" and ok: "settled_ok db"
  shows "settled_ok db' \<and> only_appends db db'"
proof (cases "de_type d = ACT")
  case True
  with run obtain c db1 c' db2 ob db3 r where create: "create_command d 300 ts db = Inr (c, db1)"
    and execute: "execute_command live_executor (dm_attempt_ids env k n) (JObj []) (ts + seconds 1) (cm_command_id c) db1 = Inr (c', db2)"
    and observe: "observe (ts + seconds 45) (dm_event_clock env k n STAGE_7_OBSERVATION_TERMINAL) (cm_command_id c) db2 = Inr (ob, db3)"
    and attribute: "attribute_payment_intervention (ts + seconds 45) (dm_event_clock env k n STAGE_8_ATTRIBUTION_TERMINAL)
      (cm_command_id c) db3 = Inr (r, db')"
    by (auto simp: demo_act_def bind_result_Inr Let_def)
  from ok have p: "pipeline_ok db" "commands_settled db" by (simp_all add: settled_ok_def)
  have s1: "settled_but (cm_command_id c) db1" using create_settled[OF create p(2)] .
  then have ids: "distinct (map cm_command_id (db_commands db1))" by (simp add: settled_but_def)
  have "pipeline_ok db2" using ok_execute[OF ok_create[OF p(1) create] execute ids] .
  with execute_settled[OF execute s1] have s2: "settled_ok db2" by (simp add: settled_ok_def)
  then have p2: "pipeline_ok db2" by (simp add: settled_ok_def)
  note s3 = keeps_settled[OF s2 ok_observe[OF p2 observe]]
  then have p3: "pipeline_ok db3" by (simp add: settled_ok_def)
  have "settled_ok db'" using keeps_settled[OF s3 ok_attribute[OF p3 attribute]] .
  moreover have "only_appends db db'"
    using only_appends_ops(4)[OF create] only_appends_execute[OF execute ids] only_appends_ops(5)[OF observe]
      only_appends_ops(6)[OF attribute] only_appends_trans by blast
  ultimately show ?thesis by simp
qed (use run ok in \<open>simp add: demo_act_def\<close>)

lemma demo_payment_ok:
  assumes run: "demo_payment env k (n, auth) db = Inr db'" and ok: "settled_ok db"
  shows "settled_ok db' \<and> only_appends db db'"
proof -
  from run obtain a db1 p db2 where
    reg: "register_attempt (dm_event_clock env k n STAGE_5_REGISTRATION) auth db = Inr (a, db1)"
    and pred: "orchestrate_prediction (dm_uuid_str env) DeterministicBaselineModel (dm_event_clock env k n STAGE_5_PREDICTION)
      (ra_ref a) (ev_timestamp auth) db1 = Inr (p, db2)"
    and rest: "db' = db2 \<or> (\<exists>d db3. decide (dm_uuid_str env) get_default_policy (dm_event_clock env k n STAGE_6_DECISION)
        (ra_ref a) (ev_timestamp auth) db2 = Inr (d, db3) \<and> demo_act env k n (ev_timestamp auth) d db3 = Inr db')"
    by (auto simp: demo_payment_def bind_result_Inr Let_def split: if_split_asm)
  note s = stage5_ok[OF ok reg pred]
  from rest show ?thesis
  proof
    assume "\<exists>d db3. decide (dm_uuid_str env) get_default_policy (dm_event_clock env k n STAGE_6_DECISION)
        (ra_ref a) (ev_timestamp auth) db2 = Inr (d, db3) \<and> demo_act env k n (ev_timestamp auth) d db3 = Inr db'"
    then obtain d db3 where decide: "decide (dm_uuid_str env) get_default_policy (dm_event_clock env k n STAGE_6_DECISION)
        (ra_ref a) (ev_timestamp auth) db2 = Inr (d, db3)" and act: "demo_act env k n (ev_timestamp auth) d db3 = Inr db'" by blast
    from s have p2: "pipeline_ok db2" "settled_ok db2" by (simp_all add: settled_ok_def)
    from demo_act_ok[OF act keeps_settled[OF p2(2) ok_decide[OF p2(1) decide]]] s only_appends_ops(3)[OF decide]
    show ?thesis using only_appends_trans by blast
  qed (use s in simp)
qed

lemma fold_result_kept:
  assumes "\<And>x s s'. f x s = Inr s' \<Longrightarrow> P s \<Longrightarrow> P s'" "fold_result f xs s = Inr s'" "P s"
  shows "P s'"
  using assms(2,3)
proof (induction xs arbitrary: s)
  case (Cons x xs)
  then obtain t where "f x s = Inr t" "fold_result f xs t = Inr s'" by (auto simp: bind_result_Inr)
  with Cons.IH assms(1) Cons.prems(2) show ?case by blast
qed simp

lemma demo_window_ok:
  assumes "settled_ok db"
  shows "case demo_window env x db of
     Inl (e, committed) \<Rightarrow> settled_ok committed \<and> only_appends db committed
   | Inr db' \<Rightarrow> settled_ok db' \<and> only_appends db db'"
proof -
  obtain k w where x: "x = (k, w)" by (cases x)
  note stages = records_demo_stages[where env = env and k = k and w = w and db = db]
  show ?thesis
  proof (cases "demo_stages_2_to_4 env k w db")
    case (Inl y)
    with stages assms show ?thesis
      by (cases y) (auto simp: x demo_window_def intro: settled_ok_records only_appends_records)
  next
    case (Inr db4)
    with stages have r: "records db4 = records db" by simp
    have s: "settled_ok db4" "only_appends db db4" using settled_ok_records[OF r assms] only_appends_records[OF r] .
    have step: "demo_payment env k y d = Inr d' \<Longrightarrow> settled_ok d \<and> only_appends db d \<Longrightarrow> settled_ok d' \<and> only_appends db d'"
      for y and d d' :: "'a attribution_db_scheme"
      using demo_payment_ok only_appends_trans by (cases y) blast
    show ?thesis
    proof (cases "fold_result (demo_payment env k) (enumerate 0 (demo_auths w db4)) db4")
      case (Inl e)
      with Inr s show ?thesis by (simp add: x demo_window_def)
    next
      case (Inr db8)
      with fold_result_kept[of "demo_payment env k" "\<lambda>d. settled_ok d \<and> only_appends db d", OF step Inr] s \<open>demo_stages_2_to_4 env k w db = Inr db4\<close>
      show ?thesis by (simp add: x demo_window_def)
    qed
  qed
qed

lemma demo_windows_ok:
  assumes "settled_ok db"
  shows "case fold_result (demo_window env) xs db of
     Inl (e, committed) \<Rightarrow> settled_ok committed \<and> only_appends db committed
   | Inr db' \<Rightarrow> settled_ok db' \<and> only_appends db db'"
  using assms
proof (induction xs arbitrary: db)
  case (Cons x xs)
  note w = demo_window_ok[OF Cons.prems, where env = env and x = x]
  show ?case
  proof (cases "demo_window env x db")
    case (Inl y)
    with w show ?thesis by (cases y) simp
  next
    case (Inr db1)
    with w have s: "settled_ok db1" "only_appends db db1" by simp_all
    from Cons.IH[OF s(1)] s(2) Inr show ?thesis by (auto split: sum.splits intro: only_appends_trans)
  qed
qed simp

section \<open>A run\<close>

definition demo_batch :: "demo_env \<Rightarrow> payment_event list" where
  "demo_batch env =
     concat (map (demo_events_of demo_start_time) (demo_transactions (dm_draw env) demo_end_time 0 demo_start_time))"

lemma seed_demo_Inr:
  fixes db :: "'a attribution_db_scheme"
  assumes "seed_demo env db = Inr db1"
  obtains rs ss where "db1 = db\<lparr>db_raw := db_raw db @ rs, db_events := db_events db @ demo_batch env, db_snapshots := ss\<rparr>"
  using assms that
  by (auto simp: seed_demo_def bind_result_Inr seed_stage1_events_def insert_rows_def seed_historical_snapshots_def Let_def demo_batch_def
      split: if_split_asm)

text \<open>Every table only grows.\<close>

definition tables_grow :: "('a attribution_db_scheme) \<Rightarrow> ('a attribution_db_scheme) \<Rightarrow> bool" where
  "tables_grow db db' \<longleftrightarrow>
     prefix (db_raw db) (db_raw db') \<and> prefix (db_events db) (db_events db') \<and> prefix (db_attempts db) (db_attempts db') \<and>
     prefix (db_predictions db) (db_predictions db') \<and> prefix (db_decisions db) (db_decisions db') \<and>
     prefix (map cm_command_id (db_commands db)) (map cm_command_id (db_commands db')) \<and>
     prefix (db_exec_attempts db) (db_exec_attempts db') \<and> prefix (db_observations db) (db_observations db') \<and>
     prefix (db_attributions db) (db_attributions db')"

lemma tables_grow_refl [simp]: "tables_grow db db"
  by (simp add: tables_grow_def)

lemma seed_demo_ok:
  fixes db :: "'a attribution_db_scheme"
  assumes seed: "seed_demo env db = Inr db1" and ok: "settled_ok db"
  shows "settled_ok db1" "db_events db1 = db_events db @ demo_batch env"
    "only_appends db1 db' \<Longrightarrow> tables_grow db db'"
proof -
  from seed_demo_Inr[OF seed] obtain rs ss where
    db1: "db1 = db\<lparr>db_raw := db_raw db @ rs, db_events := db_events db @ demo_batch env, db_snapshots := ss\<rparr>" by blast
  show "db_events db1 = db_events db @ demo_batch env" by (simp add: db1)
  from ok have p: "pipeline_ok db" by (simp add: settled_ok_def)
  have "pipeline_ok db1"
    by (rule pipeline_ok_frame[OF p])
      (use p in \<open>auto simp: db1 pipeline_ok_def registry_ok_def joined_attempt_def list_all_iff get_command_by_id_def\<close>)
  moreover have "commands_settled db1 = commands_settled db" by (rule settled_frame) (simp_all add: db1)
  ultimately show "settled_ok db1" using ok by (simp add: settled_ok_def)
  show "only_appends db1 db' \<Longrightarrow> tables_grow db db'"
    by (auto simp: only_appends_def tables_grow_def db1 dest: append_prefixD)
qed

lemma like_demo_prefix: "like_demo ''pay_demo_%'' (''pay_demo_'' @ s)"
proof -
  have "like_demo ''%'' s" for s by (induction s) simp_all
  then show ?thesis by simp
qed

lemma demo_batch_payments: "e \<in> set (demo_batch env) \<Longrightarrow> like_demo ''pay_demo_%'' (ev_payment_id e)"
proof -
  assume "e \<in> set (demo_batch env)"
  then obtain t d where "e \<in> set (demo_events_of demo_start_time (t, d))" by (auto simp: demo_batch_def)
  then have "ev_payment_id e = ''pay_demo_'' @ dd_token d"
    by (auto simp: demo_events_of_def demo_auth_event_def demo_term_event_def Let_def demo_payment_id_def)
  then show ?thesis using like_demo_prefix by metis
qed

lemma demo_batch_present: "list_ex (\<lambda>e. like_demo ''pay_demo_%'' (ev_payment_id e)) (demo_batch env)"
proof -
  have "0 < length (demo_batch env)"
    using demo_transactions_count[of "dm_draw env" demo_start_time]
    unfolding demo_batch_def length_demo_events demo_end_time_def by linarith
  then have "hd (demo_batch env) \<in> set (demo_batch env)" by simp
  with demo_batch_payments show ?thesis unfolding list_ex_iff by blast
qed

text \<open>However a run ends, it is one of these.\<close>

lemma run_and_report_cases:
  fixes db :: "'a attribution_db_scheme"
  assumes ok: "settled_ok db" and run: "run_and_report env db = (status, out, db')"
  shows "settled_ok db' \<and> tables_grow db db' \<and> (db' = db \<or> db_events db' = db_events db @ demo_batch env) \<and>
    (status = 0 \<longrightarrow> db_events db' = db_events db @ demo_batch env) \<and> (status = 0 \<or> status = 1 \<and> out = None)"
proof (cases "seed_demo env db")
  case (Inl e)
  with run ok show ?thesis by (auto simp: run_and_report_def run_demo_pipeline_def)
next
  case (Inr db1)
  note s = seed_demo_ok[OF Inr ok]
  let ?ws = "enumerate 0 (windows_from demo_start_time demo_end_time)"
  note w = demo_windows_ok[OF s(1), where env = env and xs = ?ws]
  have same: "only_appends db1 d \<Longrightarrow> db_events d = db_events db @ demo_batch env" for d :: "'a attribution_db_scheme"
    using s(2) by (simp add: only_appends_def)
  show ?thesis
  proof (cases "fold_result (demo_window env) ?ws db1")
    case (Inl y)
    with w run Inr s(3) same show ?thesis by (cases y) (auto simp: run_and_report_def run_demo_pipeline_def)
  next
    case (Inr d)
    with w run \<open>seed_demo env db = Inr db1\<close> s(3) same show ?thesis by (auto simp: run_and_report_def run_demo_pipeline_def)
  qed
qed

lemma settled_truncated: "settled_ok (truncate_all db)"
proof -
  have "records (truncate_all db) = records (live_runs [] (db\<lparr>db_raw := [], db_events := []\<rparr>))"
    by (simp add: records_def truncate_all_def live_runs_def)
  moreover have "settled_ok (live_runs [] (db\<lparr>db_raw := [], db_events := []\<rparr>))" by (rule live_runs_ok)
  ultimately show ?thesis by (auto intro: settled_ok_records)
qed

section \<open>Theorems\<close>

text \<open>
  What the documentation allows to be reset: the URL names an allowed database and the server confirms that
  it is connected to that one.
\<close>

definition reset_allowed :: "environ \<Rightarrow> url_parser \<Rightarrow> demo_server \<Rightarrow> bool" where
  "reset_allowed environ make_url server \<longleftrightarrow>
     (case environ ''DATABASE_URL'' of
        None \<Rightarrow> False
      | Some url \<Rightarrow>
          (case make_url url of
             None \<Rightarrow> False
           | Some u \<Rightarrow>
               du_database u = Some (ds_current_database server) \<and>
               ds_current_database server \<in> {''payment_recovery'', ''payment_recovery_demo''}))"

lemma reset_database_Inr:
  assumes "reset_database make_url server url db = Inr db'" "environ ''DATABASE_URL'' = Some url"
  shows "db' = truncate_all db \<and> reset_allowed environ make_url server"
  using assms
  by (auto simp: reset_database_def bind_result_Inr validate_demo_reset_database_url_def parse_url_def assert_connected_database_def
      require_that_def reset_allowed_def DEMO_RESET_ALLOWED_DATABASES_def str_or_def split: option.splits if_splits)

lemma validate_demo_urls_Inr:
  "validate_demo_urls args environ make_url = Inr url \<Longrightarrow>
     environ ''DATABASE_URL'' = Some url \<and> (\<not> da_reset args' \<longrightarrow> validate_demo_urls args' environ make_url = Inr url)"
  by (cases "environ ''DATABASE_URL''")
    (auto simp: validate_demo_urls_def require_env_database_url_def bind_result_Inr split: if_splits sum.splits)

text \<open>What a run of the command line leaves.\<close>

definition demo_ends ::
  "demo_args \<Rightarrow> environ \<Rightarrow> url_parser \<Rightarrow> demo_server \<Rightarrow> ('a attribution_db_scheme) \<Rightarrow>
   int \<Rightarrow> demo_summary option \<Rightarrow> ('a attribution_db_scheme) \<Rightarrow> bool" where
  "demo_ends args environ make_url server db status out db' \<longleftrightarrow>
     settled_ok db' \<and>
     (if \<not> da_reset args then tables_grow db db'
      else if reset_allowed environ make_url server
      then db' = db \<or> list_all (\<lambda>e. like_demo ''pay_demo_%'' (ev_payment_id e)) (db_events db')
      else db' = db) \<and>
     (if status = 0
      then \<forall>b env'. demo_main \<lparr>da_reset = False, da_no_reset = b\<rparr> environ make_url server env' db' = (1, None, db')
      else if status = 1 then out = None
      else status = 2 \<and> out = None \<and> db' = db)"

lemma demo_ends_untouched:
  "settled_ok db \<Longrightarrow> status \<in> {1, 2} \<Longrightarrow> demo_ends args environ make_url server db status None db"
  by (auto simp: demo_ends_def)

lemma present_after: "db_events db' = db_events db @ demo_batch env \<Longrightarrow> demo_data_present db'"
  using demo_batch_present by (simp add: demo_data_present_def)

lemma demo_main_ends:
  fixes db :: "'a attribution_db_scheme"
  assumes ok: "settled_ok db" and run: "demo_main args environ make_url server env db = (status, out, db')"
  shows "demo_ends args environ make_url server db status out db'"
proof -
  note touched = demo_ends_untouched[OF ok, of _ args environ make_url server]
  show ?thesis
  proof (cases "da_reset args \<and> da_no_reset args")
    case True
    with run touched show ?thesis by (simp add: demo_main_def)
  next
    case options: False
    show ?thesis
    proof (cases "validate_demo_urls args environ make_url")
      case (Inl e)
      with run options touched show ?thesis by (simp add: demo_main_def)
    next
      case (Inr url)
      note url = validate_demo_urls_Inr[OF Inr]
      show ?thesis
      proof (cases "make_url url = None \<or> \<not> ds_reachable server \<or> \<not> ds_schema_present server")
        case True
        with run options Inr touched show ?thesis by (auto simp: demo_main_def split: if_split_asm)
      next
        case False
        have again: "demo_main \<lparr>da_reset = False, da_no_reset = b\<rparr> environ make_url server env' d = (1, None, d)"
          if "demo_data_present d" for b env' and d :: "'a attribution_db_scheme"
          using that False url[of "\<lparr>da_reset = False, da_no_reset = b\<rparr>"] by (simp add: demo_main_def)
        have finish: "demo_ends args environ make_url server db status out db'"
          if "settled_ok d" "run_and_report env d = (status, out, db')"
            "da_reset args \<and> d = truncate_all db \<and> reset_allowed environ make_url server \<or> \<not> da_reset args \<and> d = db" for d
        proof -
          note c = run_and_report_cases[OF that(1,2)]
          have "list_all (\<lambda>e. like_demo ''pay_demo_%'' (ev_payment_id e)) (demo_batch env)"
            by (simp add: list_all_iff demo_batch_payments del: like_demo.simps)
          moreover have "db_events d = [] \<Longrightarrow> db_events db' = [] \<or> db_events db' = demo_batch env" using c by auto
          moreover have "status = 0 \<Longrightarrow> demo_data_present db'" using c present_after by blast
          ultimately show ?thesis using c that(3) again
            by (auto simp: demo_ends_def truncate_all_def simp del: like_demo.simps)
        qed
        show ?thesis
        proof (cases "da_reset args")
          case reset: True
          show ?thesis
          proof (cases "reset_database make_url server url db")
            case (Inl e)
            with run options \<open>validate_demo_urls args environ make_url = Inr url\<close> False reset touched show ?thesis
              by (auto simp: demo_main_def)
          next
            case (Inr d)
            with reset_database_Inr[OF Inr] url have d: "d = truncate_all db" "reset_allowed environ make_url server" by blast+
            from Inr run options \<open>validate_demo_urls args environ make_url = Inr url\<close> False reset
            have "run_and_report env d = (status, out, db')" by (auto simp: demo_main_def)
            with finish d settled_truncated reset show ?thesis by blast
          qed
        next
          case fresh: False
          show ?thesis
          proof (cases "demo_data_present db")
            case True
            with run options Inr False fresh touched show ?thesis by (auto simp: demo_main_def)
          next
            case absent: False
            with run options Inr False fresh have "run_and_report env db = (status, out, db')" by (auto simp: demo_main_def)
            with finish[OF ok] fresh show ?thesis by blast
          qed
        qed
      qed
    qed
  qed
qed


section \<open>The history in the database\<close>

definition history_events :: "(datetime \<times> history_draw) list \<Rightarrow> payment_event list" where
  "history_events xs = concat (map (\<lambda>(s, d). [history_auth s d, history_term s d]) xs)"

lemma insert_rows_events: "insert_rows rs es db = Inr db' \<Longrightarrow> db_events db' = db_events db @ es"
  by (auto simp: insert_rows_def Let_def split: if_split_asm)

lemma insert_rows_error: "insert_rows rs es db = Inl e \<Longrightarrow> e = IntegrityError"
  by (auto simp: insert_rows_def Let_def split: if_split_asm)

text \<open>Batches of 500 lifecycles are committed in order; what follows the last full one waits for the end.\<close>

lemma history_loop:
  assumes "db_events db = old @ rows" "1000 dvd length rows" "length batch < 1000" "even (length batch)"
  shows "case fold_result history_step xs (batch, db) of
      Inl (e, c) \<Rightarrow> e = IntegrityError \<and>
        (\<exists>n. db_events c = old @ take n (rows @ batch @ history_events xs) \<and> 1000 dvd n)
    | Inr (batch', db') \<Rightarrow>
        (\<exists>rows'. db_events db' = old @ rows' \<and> 1000 dvd length rows' \<and>
           rows' @ batch' = rows @ batch @ history_events xs)"
  using assms
proof (induction xs arbitrary: rows batch db)
  case Nil
  then show ?case by (auto simp: history_events_def)
next
  case (Cons x xs)
  obtain s d where x: "x = (s, d)" by (cases x)
  define batch' where "batch' = batch @ [history_auth s d, history_term s d]"
  have rest: "rows @ batch @ history_events (x # xs) = rows @ batch' @ history_events xs"
    by (simp add: history_events_def x batch'_def)
  show ?case
  proof (cases "2000 \<le> 2 * length batch'")
    case False
    then have "history_step x (batch, db) = Inr (batch', db)" by (simp add: history_step_def x batch'_def Let_def)
    moreover have "length batch' < 1000" "even (length batch')" using False Cons.prems(4) by (auto simp: batch'_def)
    ultimately show ?thesis using Cons.IH[OF Cons.prems(1,2), of batch'] unfolding rest by simp
  next
    case full: True
    have "even (length batch')" "length batch' < 1002" using Cons.prems(3,4) by (auto simp: batch'_def)
    with full have l: "length batch' = 1000" by presburger
    have step: "history_step x (batch, db) =
        (case insert_rows (map history_raw batch') batch' db of Inl e \<Rightarrow> Inl (e, db) | Inr db' \<Rightarrow> Inr ([], db'))"
      using full by (simp add: history_step_def x batch'_def Let_def)
    show ?thesis
    proof (cases "insert_rows (map history_raw batch') batch' db")
      case (Inl e)
      have "db_events db = old @ take (length rows) (rows @ batch' @ history_events xs)" using Cons.prems(1) by simp
      with Cons.prems(2) have "\<exists>n. db_events db = old @ take n (rows @ batch' @ history_events xs) \<and> 1000 dvd n" by blast
      with Inl insert_rows_error[OF Inl] show ?thesis unfolding rest by (simp add: step del: take_append append_assoc)
    next
      case (Inr db1)
      have "db_events db1 = old @ (rows @ batch')" using insert_rows_events[OF Inr] Cons.prems(1) by simp
      from Cons.IH[OF this, of "[]", unfolded append_assoc append_Nil] Inr l Cons.prems(2) show ?thesis unfolding rest by (simp add: step)
    qed
  qed
qed

text \<open>Either the whole history is stored, or a whole number of batches of 1,000 events, in order.\<close>

lemma generate_dataset_batches:
  "case generate_dataset draw num_days events_per_day db of
     Inl (e, c) \<Rightarrow> e = IntegrityError \<and>
       (\<exists>n. db_events c = db_events db @ take n (history_events (history_lifecycles draw num_days events_per_day)) \<and> 1000 dvd n)
   | Inr db' \<Rightarrow> db_events db' = db_events db @ history_events (history_lifecycles draw num_days events_per_day)"
proof -
  define xs where "xs = history_lifecycles draw num_days events_per_day"
  note loop = history_loop[of db "db_events db" "[]" "[]" xs, simplified]
  show ?thesis
  proof (cases "fold_result history_step xs ([], db)")
    case (Inl y)
    with loop show ?thesis by (cases y) (simp add: generate_dataset_def xs_def)
  next
    case (Inr y)
    obtain batch db1 where y: "y = (batch, db1)" by (cases y)
    from loop Inr y obtain rows where r: "db_events db1 = db_events db @ rows" "1000 dvd length rows"
      "rows @ batch = history_events xs" by auto
    have cut: "take (length rows) (history_events xs) = rows" unfolding r(3)[symmetric] by simp
    show ?thesis
    proof (cases "batch = []")
      case True
      with r Inr y show ?thesis by (simp add: generate_dataset_def xs_def)
    next
      case False
      show ?thesis
      proof (cases "insert_rows (map history_raw batch) batch db1")
        case (Inl e)
        have "db_events db1 = db_events db @ take (length rows) (history_events xs)" using r(1) cut by simp
        with Inl insert_rows_error[OF Inl] Inr y False r(2) show ?thesis by (auto simp: generate_dataset_def xs_def)
      next
        case (Inr db2)
        with insert_rows_events[OF Inr] \<open>fold_result history_step xs ([], db) = Inr y\<close> y False r show ?thesis
          by (simp add: generate_dataset_def xs_def)
      qed
    qed
  qed
qed

text \<open>An outcome is known after its authorization, at most half an hour and five seconds later.\<close>

lemma history_lifecycle_ordered:
  "ev_ingested_at (history_auth s d) < ev_ingested_at (history_term s d) \<and>
   ev_ingested_at (history_term s d) \<le> ev_timestamp (history_auth s d) + seconds 1805 \<and>
   s \<le> ev_timestamp (history_auth s d) \<and> ev_timestamp (history_auth s d) < s + seconds 86400"
  using randint_bounds[of 1 5 "hy_lag d"] randint_bounds[of 10 1800 "hy_term_offset d"]
    randint_bounds[of 1 5 "hy_term_lag d"] randint_bounds[of 0 86399 "hy_offset d"]
  by (simp add: history_auth_def history_term_def Let_def seconds_def)

end
