(* ===== verification/Ddl.thy ===== *)
theory Ddl
  imports Prelude
begin

text \<open>
  Relational schemas and the DDL operations that the Alembic revisions under \<open>migrations/versions/\<close> use
  (\<open>op.create_table\<close>, \<open>op.add_column\<close>, \<open>op.create_foreign_key\<close> and so on), with the refusals PostgreSQL documents
  for them as errors, and the well-formedness every operation keeps: the names of relations are unique, constraints
  and indexes speak of existing columns, the columns of a primary key are not nullable, and each foreign key has
  the types of, and points at, a unique key of an existing table. Rows are not part of a schema; what a revision
  does to rows is in \<open>ProviderMigration\<close>.
\<close>

section \<open>Schemas\<close>

datatype sql_type =
  SqlUUID | SqlString nat | SqlInteger | SqlFloat | SqlNumeric nat nat | SqlBoolean | SqlDateTime | SqlJSON

record column =
  co_name :: string
  co_type :: sql_type
  co_nullable :: bool

datatype table_constraint =
  PrimaryKeyConstraint "string list"
| UniqueConstraint "string list" string
| CheckConstraint string string
| ForeignKeyConstraint "string list" string "string list" string

record table_def =
  td_name :: string
  td_columns :: "column list"
  td_constraints :: "table_constraint list"

record index_def =
  xd_name :: string
  xd_table :: string
  xd_columns :: "string list"

record db_schema =
  sc_tables :: "table_def list"
  sc_indexes :: "index_def list"

definition empty_schema :: db_schema where
  "empty_schema = \<lparr>sc_tables = [], sc_indexes = []\<rparr>"

text \<open>PostgreSQL names an unnamed primary key after its table.\<close>

fun constraint_name :: "string \<Rightarrow> table_constraint \<Rightarrow> string" where
  "constraint_name t (PrimaryKeyConstraint cs) = t @ ''_pkey''"
| "constraint_name t (UniqueConstraint cs n) = n"
| "constraint_name t (CheckConstraint e n) = n"
| "constraint_name t (ForeignKeyConstraint cs r rs n) = n"

fun key_columns :: "table_constraint \<Rightarrow> string list option" where
  "key_columns (PrimaryKeyConstraint cs) = Some cs"
| "key_columns (UniqueConstraint cs n) = Some cs"
| "key_columns (CheckConstraint e n) = None"
| "key_columns (ForeignKeyConstraint cs r rs n) = None"

definition is_key :: "table_constraint \<Rightarrow> bool" where
  "is_key c \<longleftrightarrow> key_columns c \<noteq> None"

definition column_names :: "table_def \<Rightarrow> string list" where
  "column_names d = map co_name (td_columns d)"

definition type_of_column :: "table_def \<Rightarrow> string \<Rightarrow> sql_type option" where
  "type_of_column d = map_of (map (\<lambda>k. (co_name k, co_type k)) (td_columns d))"

definition required_columns :: "table_def \<Rightarrow> string list" where
  "required_columns d = map co_name (filter (\<lambda>k. \<not> co_nullable k) (td_columns d))"

definition table_names :: "db_schema \<Rightarrow> string list" where
  "table_names s = map td_name (sc_tables s)"

text \<open>The table of a name; for a name without one, a table without columns and constraints.\<close>

fun table_named :: "string \<Rightarrow> table_def list \<Rightarrow> table_def" where
  "table_named t [] = \<lparr>td_name = t, td_columns = [], td_constraints = []\<rparr>"
| "table_named t (d # ds) = (if td_name d = t then d else table_named t ds)"

definition the_table :: "string \<Rightarrow> db_schema \<Rightarrow> table_def" where
  "the_table t s = table_named t (sc_tables s)"

definition constraint_names :: "table_def \<Rightarrow> string list" where
  "constraint_names d = map (constraint_name (td_name d)) (td_constraints d)"

text \<open>A primary key or unique constraint is an index, which shares its name space with the tables.\<close>

definition key_names :: "table_def \<Rightarrow> string list" where
  "key_names d = map (constraint_name (td_name d)) (filter is_key (td_constraints d))"

fun table_relations :: "table_def list \<Rightarrow> string list" where
  "table_relations [] = []"
| "table_relations (d # ds) = td_name d # key_names d @ table_relations ds"

definition relation_names :: "db_schema \<Rightarrow> string list" where
  "relation_names s = map xd_name (sc_indexes s) @ table_relations (sc_tables s)"

text \<open>The columns of the primary key and of the unique constraints.\<close>

definition keys_of :: "table_def \<Rightarrow> string list list" where
  "keys_of d = List.map_filter key_columns (td_constraints d)"

fun included :: "string list \<Rightarrow> string list \<Rightarrow> bool" where
  "included [] ys = True"
| "included (x # xs) ys = (x \<in> set ys \<and> included xs ys)"

fun absent :: "string list \<Rightarrow> string list \<Rightarrow> bool" where
  "absent [] ys = True"
| "absent (x # xs) ys = (x \<notin> set ys \<and> absent xs ys)"

fun among_keys :: "string list \<Rightarrow> string list list \<Rightarrow> bool" where
  "among_keys rs [] = False"
| "among_keys rs (k # ks) = (included rs k \<and> included k rs \<or> among_keys rs ks)"

fun valid_constraint :: "db_schema \<Rightarrow> table_def \<Rightarrow> table_constraint \<Rightarrow> bool" where
  "valid_constraint s d (PrimaryKeyConstraint cs) = included cs (required_columns d)"
| "valid_constraint s d (UniqueConstraint cs n) = included cs (column_names d)"
| "valid_constraint s d (CheckConstraint e n) = True"
| "valid_constraint s d (ForeignKeyConstraint cs r rs n) =
     (included cs (column_names d) \<and> among_keys rs (keys_of (the_table r s)) \<and>
      map (type_of_column d) cs = map (type_of_column (the_table r s)) rs)"

definition valid_index :: "db_schema \<Rightarrow> index_def \<Rightarrow> bool" where
  "valid_index s x \<longleftrightarrow> xd_table x \<in> set (table_names s) \<and> included (xd_columns x) (column_names (the_table (xd_table x) s))"

definition wf_table :: "db_schema \<Rightarrow> table_def \<Rightarrow> bool" where
  "wf_table s d \<longleftrightarrow>
     distinct (column_names d) \<and> distinct (constraint_names d) \<and> list_all (valid_constraint s d) (td_constraints d)"

definition wf_schema :: "db_schema \<Rightarrow> bool" where
  "wf_schema s \<longleftrightarrow>
     distinct (relation_names s) \<and> list_all (wf_table s) (sc_tables s) \<and> list_all (valid_index s) (sc_indexes s)"

section \<open>Operations\<close>

datatype ddl =
  CreateTable string "column list" "table_constraint list"
| DropTable string
| AddColumn string column
| DropColumn string string
| CreateIndex string string "string list"
| DropIndex string string bool
| CreateConstraint string table_constraint
| DropConstraint string string
| AlterNullable string string bool

datatype ddl_error =
  DuplicateRelation | DuplicateColumn | DuplicateConstraint | UndefinedTable | UndefinedColumn
| UndefinedConstraint | UndefinedIndex | InvalidDefinition | DependentObjects

text \<open>The words of an SQL expression; a check constraint mentions the columns among them.\<close>

definition word_char :: "char \<Rightarrow> bool" where
  "word_char c \<longleftrightarrow> (let n = (of_char c :: nat) in 48 \<le> n \<and> n \<le> 57 \<or> 65 \<le> n \<and> n \<le> 90 \<or> 97 \<le> n \<and> n \<le> 122 \<or> n = 95)"

fun sql_words :: "string \<Rightarrow> string \<Rightarrow> string list" where
  "sql_words w [] = [w]"
| "sql_words w (c # cs) = (if word_char c then sql_words (w @ [c]) cs else w # sql_words [] cs)"

fun mentions :: "string \<Rightarrow> table_constraint \<Rightarrow> bool" where
  "mentions x (PrimaryKeyConstraint cs) = (x \<in> set cs)"
| "mentions x (UniqueConstraint cs n) = (x \<in> set cs)"
| "mentions x (CheckConstraint e n) = (x \<in> set (sql_words [] e))"
| "mentions x (ForeignKeyConstraint cs r rs n) = (x \<in> set cs)"

text \<open>Whether a foreign key refers to the table, with all of these columns, or with the column.\<close>

fun refers_to_table :: "string \<Rightarrow> table_constraint \<Rightarrow> bool" where
  "refers_to_table t (ForeignKeyConstraint cs r rs n) = (r = t)"
| "refers_to_table t (PrimaryKeyConstraint cs) = False"
| "refers_to_table t (UniqueConstraint cs n) = False"
| "refers_to_table t (CheckConstraint e n) = False"

fun refers_to_key :: "string \<Rightarrow> string list \<Rightarrow> table_constraint \<Rightarrow> bool" where
  "refers_to_key t ks (ForeignKeyConstraint cs r rs n) = (r = t \<and> included rs ks \<and> included ks rs)"
| "refers_to_key t ks (PrimaryKeyConstraint cs) = False"
| "refers_to_key t ks (UniqueConstraint cs n) = False"
| "refers_to_key t ks (CheckConstraint e n) = False"

fun refers_to_column :: "string \<Rightarrow> string \<Rightarrow> table_constraint \<Rightarrow> bool" where
  "refers_to_column t x (ForeignKeyConstraint cs r rs n) = (r = t \<and> x \<in> set rs)"
| "refers_to_column t x (PrimaryKeyConstraint cs) = False"
| "refers_to_column t x (UniqueConstraint cs n) = False"
| "refers_to_column t x (CheckConstraint e n) = False"

fun on_table :: "string \<Rightarrow> (table_def \<Rightarrow> table_def) \<Rightarrow> table_def list \<Rightarrow> table_def list" where
  "on_table t f [] = []"
| "on_table t f (d # ds) = (if td_name d = t then f d # ds else d # on_table t f ds)"

definition with_column :: "column \<Rightarrow> table_def \<Rightarrow> table_def" where
  "with_column k d = d\<lparr>td_columns := td_columns d @ [k]\<rparr>"

definition without_column :: "string \<Rightarrow> table_def \<Rightarrow> table_def" where
  "without_column x d =
     d\<lparr>td_columns := filter (\<lambda>k. co_name k \<noteq> x) (td_columns d),
       td_constraints := filter (\<lambda>c. \<not> mentions x c) (td_constraints d)\<rparr>"

definition with_nullable :: "string \<Rightarrow> bool \<Rightarrow> table_def \<Rightarrow> table_def" where
  "with_nullable x b d =
     d\<lparr>td_columns := map (\<lambda>k. if co_name k = x then k\<lparr>co_nullable := b\<rparr> else k) (td_columns d)\<rparr>"

definition with_constraint :: "table_constraint \<Rightarrow> table_def \<Rightarrow> table_def" where
  "with_constraint c d = d\<lparr>td_constraints := td_constraints d @ [c]\<rparr>"

definition without_constraint :: "string \<Rightarrow> table_def \<Rightarrow> table_def" where
  "without_constraint n d = d\<lparr>td_constraints := filter (\<lambda>c. constraint_name (td_name d) c \<noteq> n) (td_constraints d)\<rparr>"

fun in_primary_key :: "string \<Rightarrow> table_constraint \<Rightarrow> bool" where
  "in_primary_key x (PrimaryKeyConstraint cs) = (x \<in> set cs)"
| "in_primary_key x (UniqueConstraint cs n) = False"
| "in_primary_key x (CheckConstraint e n) = False"
| "in_primary_key x (ForeignKeyConstraint cs r rs n) = False"

definition keys_named :: "string \<Rightarrow> table_def \<Rightarrow> string list list" where
  "keys_named n d = List.map_filter key_columns (filter (\<lambda>c. constraint_name (td_name d) c = n) (td_constraints d))"

text \<open>Whether a foreign key needs the table, its column, or a key of it, when that is to go.\<close>

fun table_needed :: "string \<Rightarrow> table_def list \<Rightarrow> bool" where
  "table_needed t [] = False"
| "table_needed t (d # ds) = (td_name d \<noteq> t \<and> list_ex (refers_to_table t) (td_constraints d) \<or> table_needed t ds)"

fun column_needed :: "string \<Rightarrow> string \<Rightarrow> table_def list \<Rightarrow> bool" where
  "column_needed t x [] = False"
| "column_needed t x (d # ds) =
     (list_ex (refers_to_column t x) (if td_name d = t then filter (\<lambda>c. \<not> mentions x c) (td_constraints d) else td_constraints d) \<or>
      column_needed t x ds)"

fun key_needed :: "string \<Rightarrow> string list list \<Rightarrow> table_def list \<Rightarrow> bool" where
  "key_needed t kss [] = False"
| "key_needed t kss (d # ds) = (list_ex (\<lambda>ks. list_ex (refers_to_key t ks) (td_constraints d)) kss \<or> key_needed t kss ds)"

definition check_that :: "bool \<Rightarrow> ddl_error \<Rightarrow> ddl_error list" where
  "check_that b e = (if b then [] else [e])"

text \<open>
  What is wrong with an operation, in the order the checks are made. Dropping a table, a column or a key is refused
  (there is no \<open>CASCADE\<close>) while a foreign key that would remain depends on it.
\<close>

fun refusals :: "ddl \<Rightarrow> db_schema \<Rightarrow> ddl_error list" where
  "refusals (CreateTable t cols cons) s =
     (let d = \<lparr>td_name = t, td_columns = cols, td_constraints = cons\<rparr>
      in check_that (distinct (t # key_names d)) DuplicateRelation @
         check_that (absent (t # key_names d) (relation_names s)) DuplicateRelation @
         check_that (distinct (column_names d)) DuplicateColumn @
         check_that (distinct (constraint_names d)) DuplicateConstraint @
         check_that (list_all (valid_constraint (s\<lparr>sc_tables := sc_tables s @ [d]\<rparr>) d) cons) InvalidDefinition)"
| "refusals (DropTable t) s =
     check_that (t \<in> set (table_names s)) UndefinedTable @
     check_that (\<not> table_needed t (sc_tables s)) DependentObjects"
| "refusals (AddColumn t k) s =
     check_that (t \<in> set (table_names s)) UndefinedTable @
     check_that (co_name k \<notin> set (column_names (the_table t s))) DuplicateColumn"
| "refusals (DropColumn t x) s =
     check_that (t \<in> set (table_names s)) UndefinedTable @
     check_that (x \<in> set (column_names (the_table t s))) UndefinedColumn @
     check_that (\<not> column_needed t x (sc_tables s)) DependentObjects"
| "refusals (CreateIndex n t cs) s =
     check_that (n \<notin> set (relation_names s)) DuplicateRelation @
     check_that (t \<in> set (table_names s)) UndefinedTable @
     check_that (included cs (column_names (the_table t s))) UndefinedColumn"
| "refusals (DropIndex n t if_exists) s =
     check_that (if_exists \<or> n \<in> set (map xd_name (sc_indexes s))) UndefinedIndex"
| "refusals (CreateConstraint t c) s =
     check_that (t \<in> set (table_names s)) UndefinedTable @
     check_that (constraint_name t c \<notin> set (constraint_names (the_table t s))) DuplicateConstraint @
     check_that (\<not> is_key c \<or> constraint_name t c \<notin> set (relation_names s)) DuplicateRelation @
     check_that (valid_constraint s (the_table t s) c) InvalidDefinition"
| "refusals (DropConstraint t n) s =
     check_that (t \<in> set (table_names s)) UndefinedTable @
     check_that (n \<in> set (constraint_names (the_table t s))) UndefinedConstraint @
     check_that (\<not> key_needed t (keys_named n (the_table t s)) (sc_tables s)) DependentObjects"
| "refusals (AlterNullable t x b) s =
     check_that (t \<in> set (table_names s)) UndefinedTable @
     check_that (x \<in> set (column_names (the_table t s))) UndefinedColumn @
     check_that (\<not> (b \<and> list_ex (in_primary_key x) (td_constraints (the_table t s)))) InvalidDefinition"

text \<open>
  What an operation that is not refused does. Dropping a table drops its indexes, dropping a column the constraints
  and indexes of its table that mention it.
\<close>

fun perform :: "ddl \<Rightarrow> db_schema \<Rightarrow> db_schema" where
  "perform (CreateTable t cols cons) s =
     \<lparr>sc_tables = sc_tables s @ [\<lparr>td_name = t, td_columns = cols, td_constraints = cons\<rparr>], sc_indexes = sc_indexes s\<rparr>"
| "perform (DropTable t) s =
     \<lparr>sc_tables = filter (\<lambda>d. td_name d \<noteq> t) (sc_tables s), sc_indexes = filter (\<lambda>x. xd_table x \<noteq> t) (sc_indexes s)\<rparr>"
| "perform (AddColumn t k) s =
     \<lparr>sc_tables = on_table t (with_column k) (sc_tables s), sc_indexes = sc_indexes s\<rparr>"
| "perform (DropColumn t x) s =
     \<lparr>sc_tables = on_table t (without_column x) (sc_tables s),
      sc_indexes = filter (\<lambda>i. \<not> (xd_table i = t \<and> x \<in> set (xd_columns i))) (sc_indexes s)\<rparr>"
| "perform (CreateIndex n t cs) s =
     \<lparr>sc_tables = sc_tables s, sc_indexes = sc_indexes s @ [\<lparr>xd_name = n, xd_table = t, xd_columns = cs\<rparr>]\<rparr>"
| "perform (DropIndex n t if_exists) s =
     \<lparr>sc_tables = sc_tables s, sc_indexes = filter (\<lambda>i. xd_name i \<noteq> n) (sc_indexes s)\<rparr>"
| "perform (CreateConstraint t c) s =
     \<lparr>sc_tables = on_table t (with_constraint c) (sc_tables s), sc_indexes = sc_indexes s\<rparr>"
| "perform (DropConstraint t n) s =
     \<lparr>sc_tables = on_table t (without_constraint n) (sc_tables s), sc_indexes = sc_indexes s\<rparr>"
| "perform (AlterNullable t x b) s =
     \<lparr>sc_tables = on_table t (with_nullable x b) (sc_tables s), sc_indexes = sc_indexes s\<rparr>"

definition apply_ddl :: "ddl \<Rightarrow> db_schema \<Rightarrow> (ddl_error, db_schema) result" where
  "apply_ddl op s = (case refusals op s of [] \<Rightarrow> Inr (perform op s) | e # es \<Rightarrow> Inl e)"

definition run_ddl :: "ddl list \<Rightarrow> db_schema \<Rightarrow> (ddl_error, db_schema) result" where
  "run_ddl ops s = fold_result apply_ddl ops s"

section \<open>Lists of names\<close>

lemma included_iff: "included xs ys \<longleftrightarrow> set xs \<subseteq> set ys"
  by (induction xs) auto

lemma absent_iff: "absent xs ys \<longleftrightarrow> set xs \<inter> set ys = {}"
  by (induction xs) auto

lemma among_keys_iff: "among_keys rs ks \<longleftrightarrow> (\<exists>k\<in>set ks. set k = set rs)"
  by (induction ks) (auto simp: included_iff)

lemma keys_of_iff: "k \<in> set (keys_of d) \<longleftrightarrow> (\<exists>c\<in>set (td_constraints d). key_columns c = Some k)"
  by (force simp: keys_of_def List.map_filter_def)

lemma check_that_Nil [simp]: "check_that b e = [] \<longleftrightarrow> b"
  by (simp add: check_that_def)

section \<open>Tables by name\<close>

lemma table_relations_append [simp]: "table_relations (xs @ ys) = table_relations xs @ table_relations ys"
  by (induction xs) simp_all

lemma table_relations_names: "set (map td_name ds) \<subseteq> set (table_relations ds)"
  by (induction ds) auto

lemma distinct_table_names: "distinct (table_relations ds) \<Longrightarrow> distinct (map td_name ds)"
  using table_relations_names by (induction ds) fastforce+

lemma table_named_append:
  "table_named r (xs @ ys) = (if r \<in> set (map td_name xs) then table_named r xs else table_named r ys)"
  by (induction xs) auto

lemma table_named_missing: "r \<notin> set (map td_name ds) \<Longrightarrow> table_named r ds = \<lparr>td_name = r, td_columns = [], td_constraints = []\<rparr>"
  by (induction ds) auto

lemma table_named_in: "r \<in> set (map td_name ds) \<Longrightarrow> table_named r ds \<in> set ds \<and> td_name (table_named r ds) = r"
  by (induction ds) auto

lemma table_named_filter: "r \<noteq> t \<Longrightarrow> table_named r (filter (\<lambda>d. td_name d \<noteq> t) ds) = table_named r ds"
  by (induction ds) auto

lemma on_table_split:
  assumes "t \<in> set (map td_name ds)"
  obtains xs ys where "ds = xs @ table_named t ds # ys" "t \<notin> set (map td_name xs)"
    "\<And>f. on_table t f ds = xs @ f (table_named t ds) # ys"
proof -
  have "\<exists>xs ys. ds = xs @ table_named t ds # ys \<and> t \<notin> set (map td_name xs) \<and>
      (\<forall>f. on_table t f ds = xs @ f (table_named t ds) # ys)"
    using assms
  proof (induction ds)
    case (Cons d ds)
    show ?case
    proof (cases "td_name d = t")
      case True
      then show ?thesis by (intro exI[of _ "[]"] exI[of _ ds]) auto
    next
      case False
      with Cons obtain xs ys where "ds = xs @ table_named t ds # ys" "t \<notin> set (map td_name xs)"
        "\<forall>f. on_table t f ds = xs @ f (table_named t ds) # ys" by auto
      with False show ?thesis by (intro exI[of _ "d # xs"] exI[of _ ys]) auto
    qed
  qed simp
  then show ?thesis using that by blast
qed

lemma table_named_on_table:
  assumes "\<And>d. td_name (f d) = td_name d" "t \<in> set (map td_name ds)"
  shows "table_named r (on_table t f ds) = (if r = t then f (table_named t ds) else table_named r ds)"
  using assms(2) by (induction ds) (auto simp: assms(1))

lemma table_names_on_table: "(\<And>d. td_name (f d) = td_name d) \<Longrightarrow> map td_name (on_table t f ds) = map td_name ds"
  by (induction ds) auto

section \<open>Every operation keeps schemas well-formed\<close>

text \<open>A foreign key points at a table that exists: a missing table has no keys.\<close>

lemma foreign_key_target: "among_keys rs (keys_of (the_table r s)) \<Longrightarrow> r \<in> set (table_names s)"
  by (rule ccontr) (auto simp: the_table_def table_names_def table_named_missing among_keys_iff keys_of_iff)

lemma valid_constraint_frame:
  assumes "valid_constraint s d c"
    and "\<And>x. x \<in> set (column_names d) \<Longrightarrow> mentions x c \<Longrightarrow> x \<in> set (column_names d') \<and> type_of_column d' x = type_of_column d x"
    and "\<And>x. x \<in> set (required_columns d) \<Longrightarrow> in_primary_key x c \<Longrightarrow> x \<in> set (required_columns d')"
    and "\<And>cs r rs n. c = ForeignKeyConstraint cs r rs n \<Longrightarrow> among_keys rs (keys_of (the_table r s)) \<Longrightarrow>
       among_keys rs (keys_of (the_table r s')) \<and> (\<forall>x\<in>set rs. type_of_column (the_table r s') x = type_of_column (the_table r s) x)"
  shows "valid_constraint s' d' c"
proof (cases c)
  case (ForeignKeyConstraint cs r rs n)
  with assms(1) have sub: "set cs \<subseteq> set (column_names d)" and keys: "among_keys rs (keys_of (the_table r s))"
    and types: "map (type_of_column d) cs = map (type_of_column (the_table r s)) rs" by (simp_all add: included_iff)
  from assms(4)[OF ForeignKeyConstraint keys] have keys': "among_keys rs (keys_of (the_table r s'))"
    and rs: "map (type_of_column (the_table r s')) rs = map (type_of_column (the_table r s)) rs" by auto
  have "set cs \<subseteq> set (column_names d')" "map (type_of_column d') cs = map (type_of_column d) cs"
    using assms(2) sub by (auto simp: ForeignKeyConstraint)
  with types rs keys' show ?thesis by (simp add: ForeignKeyConstraint included_iff)
qed (use assms in \<open>auto simp: included_iff\<close>)

lemma wf_schemaD:
  assumes "wf_schema s"
  shows "distinct (relation_names s)" "\<And>d. d \<in> set (sc_tables s) \<Longrightarrow> wf_table s d"
    "\<And>i. i \<in> set (sc_indexes s) \<Longrightarrow> valid_index s i" "distinct (table_names s)"
  using assms distinct_table_names by (auto simp: wf_schema_def list_all_iff relation_names_def table_names_def)

lemma the_table_mem: "t \<in> set (table_names s) \<Longrightarrow> the_table t s \<in> set (sc_tables s) \<and> td_name (the_table t s) = t"
  unfolding the_table_def table_names_def by (rule table_named_in)

lemma distinct_replace:
  "distinct (a @ xs @ t # k @ ys) \<Longrightarrow> distinct a' \<Longrightarrow> set a' \<subseteq> set a \<Longrightarrow> distinct k' \<Longrightarrow>
   set k' \<inter> (set a \<union> set xs \<union> {t} \<union> set ys) = {} \<Longrightarrow> distinct (a' @ xs @ t # k' @ ys)"
  unfolding distinct_append distinct.simps list.set set_append by blast

lemma the_table_on_table:
  "(\<And>d. td_name (f d) = td_name d) \<Longrightarrow> t \<in> set (table_names s) \<Longrightarrow>
   the_table r \<lparr>sc_tables = on_table t f (sc_tables s), sc_indexes = idx\<rparr> = (if r = t then f (the_table t s) else the_table r s)"
  by (simp add: the_table_def table_names_def table_named_on_table)

lemma relation_names_on_table:
  assumes "distinct (relation_names s)" "t \<in> set (table_names s)" "\<And>d. td_name (f d) = td_name d"
    and "set idx \<subseteq> set (sc_indexes s)" "distinct (map xd_name idx)" "distinct (key_names (f (the_table t s)))"
    and "set (key_names (f (the_table t s))) \<inter> (set (relation_names s) - set (key_names (the_table t s))) = {}"
  shows "distinct (relation_names \<lparr>sc_tables = on_table t f (sc_tables s), sc_indexes = idx\<rparr>)"
proof -
  obtain xs ys where ds: "sc_tables s = xs @ the_table t s # ys" "on_table t f (sc_tables s) = xs @ f (the_table t s) # ys"
    using on_table_split[of t "sc_tables s"] assms(2) unfolding the_table_def table_names_def by metis
  have old: "distinct (map xd_name (sc_indexes s) @ table_relations xs @ td_name (the_table t s) # key_names (the_table t s) @ table_relations ys)"
    using assms(1) unfolding relation_names_def ds(1) by simp
  then have "set (map xd_name (sc_indexes s)) \<union> set (table_relations xs) \<union> {td_name (the_table t s)} \<union> set (table_relations ys)
      \<subseteq> set (relation_names s) - set (key_names (the_table t s))"
    unfolding relation_names_def ds(1) by auto
  with assms(7) have "set (key_names (f (the_table t s))) \<inter>
      (set (map xd_name (sc_indexes s)) \<union> set (table_relations xs) \<union> {td_name (the_table t s)} \<union> set (table_relations ys)) = {}"
    by blast
  moreover have "set (map xd_name idx) \<subseteq> set (map xd_name (sc_indexes s))" using assms(4) by auto
  ultimately have "distinct (map xd_name idx @ table_relations xs @ td_name (the_table t s) # key_names (f (the_table t s)) @ table_relations ys)"
    by (intro distinct_replace[OF old assms(5) _ assms(6)])
  then show ?thesis by (simp only: relation_names_def ds(2) assms(3) db_schema.simps table_relations.simps table_relations_append append_assoc append_Cons)
qed

lemma wf_on_table:
  assumes wf: "wf_schema s" and t: "t \<in> set (table_names s)" and f: "\<And>d. td_name (f d) = td_name d"
    and idx: "set idx \<subseteq> set (sc_indexes s)" "distinct (map xd_name idx)"
    and keys: "distinct (key_names (f (the_table t s)))"
      "set (key_names (f (the_table t s))) \<inter> (set (relation_names s) - set (key_names (the_table t s))) = {}"
    and cols: "distinct (column_names (f (the_table t s)))" and names: "distinct (constraint_names (f (the_table t s)))"
    and own: "\<And>c. c \<in> set (td_constraints (f (the_table t s))) \<Longrightarrow> valid_constraint s (the_table t s) c"
      "\<And>c x. c \<in> set (td_constraints (f (the_table t s))) \<Longrightarrow> x \<in> set (column_names (the_table t s)) \<Longrightarrow> mentions x c \<Longrightarrow>
         x \<in> set (column_names (f (the_table t s))) \<and> type_of_column (f (the_table t s)) x = type_of_column (the_table t s) x"
      "\<And>c x. c \<in> set (td_constraints (f (the_table t s))) \<Longrightarrow> x \<in> set (required_columns (the_table t s)) \<Longrightarrow>
         in_primary_key x c \<Longrightarrow> x \<in> set (required_columns (f (the_table t s)))"
    and targets: "\<And>d cs rs n. d \<in> set (sc_tables s) \<and> td_name d \<noteq> t \<or> d = f (the_table t s) \<Longrightarrow>
      ForeignKeyConstraint cs t rs n \<in> set (td_constraints d) \<Longrightarrow> among_keys rs (keys_of (the_table t s)) \<Longrightarrow>
      among_keys rs (keys_of (f (the_table t s))) \<and> (\<forall>x\<in>set rs. type_of_column (f (the_table t s)) x = type_of_column (the_table t s) x)"
    and indexes: "\<And>i. i \<in> set idx \<Longrightarrow> xd_table i = t \<Longrightarrow> included (xd_columns i) (column_names (f (the_table t s)))"
  shows "wf_schema \<lparr>sc_tables = on_table t f (sc_tables s), sc_indexes = idx\<rparr>" (is "wf_schema ?s")
  unfolding wf_schema_def
proof (intro conjI)
  note table = the_table_on_table[of f t s, OF f t]
  show "distinct (relation_names ?s)"
    by (rule relation_names_on_table[OF wf_schemaD(1)[OF wf] t f idx keys])
  obtain xs ys where ds: "sc_tables s = xs @ the_table t s # ys" "on_table t f (sc_tables s) = xs @ f (the_table t s) # ys"
    using on_table_split[of t "sc_tables s"] t unfolding the_table_def table_names_def by metis
  have others: "td_name d \<noteq> t" if "d \<in> set (xs @ ys)" for d
    using that wf_schemaD(4)[OF wf] the_table_mem[OF t] unfolding table_names_def ds(1) by auto
  have "wf_table ?s d" if "d \<in> set (xs @ ys)" for d
  proof -
    have d: "d \<in> set (sc_tables s)" using that by (auto simp: ds(1))
    have "valid_constraint ?s d c" if "c \<in> set (td_constraints d)" for c
    proof (rule valid_constraint_frame[of s d])
      show "valid_constraint s d c" using wf_schemaD(2)[OF wf d] that by (simp add: wf_table_def list_all_iff)
      fix cs r rs n assume "c = ForeignKeyConstraint cs r rs n" "among_keys rs (keys_of (the_table r s))"
      with targets[of d] d others[OF \<open>d \<in> set (xs @ ys)\<close>] that
      show "among_keys rs (keys_of (the_table r ?s)) \<and> (\<forall>x\<in>set rs. type_of_column (the_table r ?s) x = type_of_column (the_table r s) x)"
        by (auto simp: table)
    qed auto
    then show ?thesis using wf_schemaD(2)[OF wf d] by (simp add: wf_table_def list_all_iff)
  qed
  moreover have "valid_constraint ?s (f (the_table t s)) c" if "c \<in> set (td_constraints (f (the_table t s)))" for c
  proof (rule valid_constraint_frame[OF own(1)[OF that]])
    fix cs r rs n assume "c = ForeignKeyConstraint cs r rs n" "among_keys rs (keys_of (the_table r s))"
    with targets[of "f (the_table t s)"] that
    show "among_keys rs (keys_of (the_table r ?s)) \<and> (\<forall>x\<in>set rs. type_of_column (the_table r ?s) x = type_of_column (the_table r s) x)"
      by (auto simp: table)
  qed (use own(2,3)[OF that] in auto)
  then have "wf_table ?s (f (the_table t s))" using cols names by (simp add: wf_table_def list_all_iff)
  ultimately show "list_all (wf_table ?s) (sc_tables ?s)" by (auto simp: ds(2) list_all_iff)
  have "valid_index ?s i" if "i \<in> set idx" for i
    using wf_schemaD(3)[OF wf, of i] idx(1) that indexes[OF that] table_names_on_table[of f t "sc_tables s", OF f]
    by (auto simp: valid_index_def table table_names_def)
  then show "list_all (valid_index ?s) (sc_indexes ?s)" by (simp add: list_all_iff)
qed


lemma keys_exist:
  assumes "wf_schema s" "t \<in> set (table_names s)" "k \<in> set (keys_of (the_table t s))"
  shows "set k \<subseteq> set (column_names (the_table t s))"
proof -
  obtain c where c: "c \<in> set (td_constraints (the_table t s))" "key_columns c = Some k" using assms(3) by (auto simp: keys_of_iff)
  have "valid_constraint s (the_table t s) c"
    using wf_schemaD(2)[OF assms(1)] the_table_mem[OF assms(2)] c(1) by (auto simp: wf_table_def list_all_iff)
  with c(2) show ?thesis by (cases c) (auto simp: included_iff required_columns_def column_names_def)
qed

lemma referenced_columns_exist:
  "wf_schema s \<Longrightarrow> t \<in> set (table_names s) \<Longrightarrow> among_keys rs (keys_of (the_table t s)) \<Longrightarrow>
   set rs \<subseteq> set (column_names (the_table t s))"
  using keys_exist by (fastforce simp: among_keys_iff)

lemma the_table_wf:
  assumes "wf_schema s" "t \<in> set (table_names s)"
  shows "distinct (column_names (the_table t s))" "distinct (constraint_names (the_table t s))"
    "c \<in> set (td_constraints (the_table t s)) \<Longrightarrow> valid_constraint s (the_table t s) c"
    "distinct (key_names (the_table t s))" "distinct (map xd_name (sc_indexes s))" "td_name (the_table t s) = t"
proof -
  have mem: "the_table t s \<in> set (sc_tables s)" "td_name (the_table t s) = t" using the_table_mem[OF assms(2)] by auto
  from wf_schemaD(2)[OF assms(1) mem(1)]
  show "distinct (column_names (the_table t s))" "distinct (constraint_names (the_table t s))"
    "c \<in> set (td_constraints (the_table t s)) \<Longrightarrow> valid_constraint s (the_table t s) c"
    by (auto simp: wf_table_def list_all_iff)
  from \<open>distinct (constraint_names (the_table t s))\<close> show "distinct (key_names (the_table t s))"
    by (simp add: constraint_names_def key_names_def distinct_map_filter)
  show "distinct (map xd_name (sc_indexes s))" using wf_schemaD(1)[OF assms(1)] by (simp add: relation_names_def)
  show "td_name (the_table t s) = t" by fact
qed

lemma type_of_column_append:
  "x \<in> set (column_names d) \<Longrightarrow> type_of_column (d\<lparr>td_columns := td_columns d @ ks\<rparr>) x = type_of_column d x"
  by (force simp: type_of_column_def column_names_def map_add_def split: option.splits dest: map_of_eq_None_iff[THEN iffD1])

lemma add_column_wf:
  assumes "wf_schema s" "refusals (AddColumn t k) s = []"
  shows "wf_schema (perform (AddColumn t k) s)"
proof -
  from assms(2) have t: "t \<in> set (table_names s)" and fresh: "co_name k \<notin> set (column_names (the_table t s))" by auto
  note wf = the_table_wf[OF assms(1) t]
  let ?d = "the_table t s" and ?e = "with_column k (the_table t s)"
  have e: "td_constraints ?e = td_constraints ?d" "column_names ?e = column_names ?d @ [co_name k]"
    "set (required_columns ?d) \<subseteq> set (required_columns ?e)"
    by (auto simp: with_column_def column_names_def required_columns_def)
  have types: "type_of_column ?e x = type_of_column ?d x" if "x \<in> set (column_names ?d)" for x
    using type_of_column_append[OF that] by (simp add: with_column_def)
  have "wf_schema \<lparr>sc_tables = on_table t (with_column k) (sc_tables s), sc_indexes = sc_indexes s\<rparr>"
  proof (rule wf_on_table[OF assms(1) t])
    show "td_name (with_column k d) = td_name d" for d by (simp add: with_column_def)
    show "set (key_names ?e) \<inter> (set (relation_names s) - set (key_names ?d)) = {}" "distinct (key_names ?e)"
      "distinct (constraint_names ?e)"
      using wf by (auto simp: with_column_def key_names_def constraint_names_def)
    show "distinct (column_names ?e)" using wf(1) fresh by (simp add: e)
    show "among_keys rs (keys_of ?e) \<and> (\<forall>x\<in>set rs. type_of_column ?e x = type_of_column ?d x)"
      if "among_keys rs (keys_of ?d)" for rs
      using that referenced_columns_exist[OF assms(1) t that] types by (auto simp: keys_of_def e)
    show "included (xd_columns i) (column_names ?e)" if "i \<in> set (sc_indexes s)" "xd_table i = t" for i
      using wf_schemaD(3)[OF assms(1) that(1)] that(2) by (auto simp: valid_index_def included_iff e)
  qed (use wf e types in auto)
  then show ?thesis by simp
qed

lemma drop_column_wf:
  assumes "wf_schema s" "refusals (DropColumn t x) s = []"
  shows "wf_schema (perform (DropColumn t x) s)"
proof -
  from assms(2) have t: "t \<in> set (table_names s)" and free: "\<not> column_needed t x (sc_tables s)" by auto
  note wf = the_table_wf[OF assms(1) t]
  let ?d = "the_table t s" and ?e = "without_column x (the_table t s)"
  have e: "td_constraints ?e = filter (\<lambda>c. \<not> mentions x c) (td_constraints ?d)"
    "column_names ?e = filter (\<lambda>y. y \<noteq> x) (column_names ?d)"
    "required_columns ?e = filter (\<lambda>y. y \<noteq> x) (required_columns ?d)"
    by (auto simp: without_column_def column_names_def required_columns_def filter_map o_def conj_commute)
  have types: "type_of_column ?e y = type_of_column ?d y" if "y \<noteq> x" for y
  proof -
    have "map_of (map (\<lambda>k. (co_name k, co_type k)) (filter (\<lambda>k. co_name k \<noteq> x) ks)) y = map_of (map (\<lambda>k. (co_name k, co_type k)) ks) y" for ks
      using that by (induction ks) auto
    then show ?thesis by (simp add: type_of_column_def without_column_def)
  qed
  have unneeded: "x \<notin> set rs" if "d \<in> set (sc_tables s) \<and> td_name d \<noteq> t \<or> d = ?e" "ForeignKeyConstraint cs t rs n \<in> set (td_constraints d)" for d cs rs n
  proof -
    have scan: "\<not> list_ex (refers_to_column t x) (if td_name d = t then filter (\<lambda>c. \<not> mentions x c) (td_constraints d) else td_constraints d)"
      if "d \<in> set ds" "\<not> column_needed t x ds" for d ds
      using that by (induction ds) auto
    show ?thesis
    proof (cases "d = ?e")
      case True
      with scan[OF _ free, of ?d] the_table_mem[OF t] that(2) show ?thesis by (auto simp: e list_ex_iff)
    next
      case False
      with scan[OF _ free, of d] that show ?thesis by (auto simp: list_ex_iff)
    qed
  qed
  have pk: "mentions y c" if "in_primary_key y c" for y c using that by (cases c) auto
  have mentioned: "type_of_column ?e y = type_of_column ?d y" if "\<not> mentions x c" "mentions y c" for y c
    using that by (intro types) auto
  have "wf_schema \<lparr>sc_tables = on_table t (without_column x) (sc_tables s),
      sc_indexes = filter (\<lambda>i. \<not> (xd_table i = t \<and> x \<in> set (xd_columns i))) (sc_indexes s)\<rparr>"
  proof (rule wf_on_table[OF assms(1) t])
    show "td_name (without_column x d) = td_name d" for d by (simp add: without_column_def)
    show "distinct (map xd_name (filter (\<lambda>i. \<not> (xd_table i = t \<and> x \<in> set (xd_columns i))) (sc_indexes s)))"
      using wf(5) by (rule distinct_map_filter)
    have name: "td_name ?e = td_name ?d" by (simp add: without_column_def)
    have key: "key_names ?e = map (constraint_name (td_name ?d)) (filter (\<lambda>c. \<not> mentions x c) (filter is_key (td_constraints ?d)))"
      unfolding key_names_def name e by (simp add: conj_commute)
    show "distinct (key_names ?e)"
      unfolding key using wf(4)[unfolded key_names_def] by (rule distinct_map_filter)
    show "set (key_names ?e) \<inter> (set (relation_names s) - set (key_names ?d)) = {}"
      unfolding key by (auto simp: key_names_def)
    show "distinct (constraint_names ?e)"
      using wf(2) unfolding constraint_names_def name e by (rule distinct_map_filter)
    show "among_keys rs (keys_of ?e) \<and> (\<forall>y\<in>set rs. type_of_column ?e y = type_of_column ?d y)"
      if "d \<in> set (sc_tables s) \<and> td_name d \<noteq> t \<or> d = ?e" "ForeignKeyConstraint cs t rs n \<in> set (td_constraints d)"
        "among_keys rs (keys_of ?d)" for d cs rs n
    proof -
      note x = unneeded[OF that(1,2)] and keys = that(3)
      obtain k c where k: "set k = set rs" "c \<in> set (td_constraints ?d)" "key_columns c = Some k"
        using keys by (auto simp: among_keys_iff keys_of_iff)
      from k x have "\<not> mentions x c" by (cases c) auto
      with k(2,3) have "k \<in> set (keys_of ?e)" by (auto simp: keys_of_iff e)
      with k(1) have "among_keys rs (keys_of ?e)" by (auto simp: among_keys_iff)
      with x types show ?thesis by (metis)
    qed
    show "included (xd_columns i) (column_names ?e)"
      if "i \<in> set (filter (\<lambda>i. \<not> (xd_table i = t \<and> x \<in> set (xd_columns i))) (sc_indexes s))" "xd_table i = t" for i
      using wf_schemaD(3)[OF assms(1), of i] that by (auto simp: valid_index_def included_iff e)
  qed (use wf e mentioned in \<open>auto dest: pk\<close>)
  then show ?thesis by simp
qed


lemma create_constraint_wf:
  assumes "wf_schema s" "refusals (CreateConstraint t c) s = []"
  shows "wf_schema (perform (CreateConstraint t c) s)"
proof -
  from assms(2) have t: "t \<in> set (table_names s)" and fresh: "constraint_name t c \<notin> set (constraint_names (the_table t s))"
    and key: "is_key c \<Longrightarrow> constraint_name t c \<notin> set (relation_names s)" and valid: "valid_constraint s (the_table t s) c"
    by auto
  note wf = the_table_wf[OF assms(1) t]
  let ?d = "the_table t s" and ?e = "with_constraint c (the_table t s)"
  have e: "td_constraints ?e = td_constraints ?d @ [c]" "column_names ?e = column_names ?d"
    "required_columns ?e = required_columns ?d" "type_of_column ?e = type_of_column ?d" "td_name ?e = t"
    using wf(6) by (auto simp: with_constraint_def column_names_def required_columns_def type_of_column_def)
  have keys: "key_names ?e = key_names ?d @ (if is_key c then [constraint_name t c] else [])"
    using wf(6) by (simp add: key_names_def e)
  have subset: "set (key_names ?d) \<subseteq> set (constraint_names ?d)" by (auto simp: key_names_def constraint_names_def)
  have "wf_schema \<lparr>sc_tables = on_table t (with_constraint c) (sc_tables s), sc_indexes = sc_indexes s\<rparr>"
  proof (rule wf_on_table[OF assms(1) t])
    show "td_name (with_constraint c d) = td_name d" for d by (simp add: with_constraint_def)
    show "distinct (key_names ?e)" using wf(4) fresh subset by (auto simp: keys)
    show "set (key_names ?e) \<inter> (set (relation_names s) - set (key_names ?d)) = {}" using key by (auto simp: keys)
    show "distinct (constraint_names ?e)" using wf(2,6) fresh by (simp add: constraint_names_def e)
    show "among_keys rs (keys_of ?e) \<and> (\<forall>x\<in>set rs. type_of_column ?e x = type_of_column ?d x)" if "among_keys rs (keys_of ?d)" for rs
      using that by (auto simp: among_keys_iff keys_of_iff e)
    show "included (xd_columns i) (column_names ?e)" if "i \<in> set (sc_indexes s)" "xd_table i = t" for i
      using wf_schemaD(3)[OF assms(1) that(1)] that(2) by (auto simp: valid_index_def e)
  qed (use wf valid in \<open>auto simp: e\<close>)
  then show ?thesis by simp
qed

lemma drop_constraint_wf:
  assumes "wf_schema s" "refusals (DropConstraint t n) s = []"
  shows "wf_schema (perform (DropConstraint t n) s)"
proof -
  from assms(2) have t: "t \<in> set (table_names s)" and free: "\<not> key_needed t (keys_named n (the_table t s)) (sc_tables s)"
    by auto
  note wf = the_table_wf[OF assms(1) t]
  let ?d = "the_table t s" and ?e = "without_constraint n (the_table t s)"
  have e: "td_constraints ?e = filter (\<lambda>c. constraint_name t c \<noteq> n) (td_constraints ?d)" "column_names ?e = column_names ?d"
    "required_columns ?e = required_columns ?d" "type_of_column ?e = type_of_column ?d" "td_name ?e = t"
    using wf(6) by (auto simp: without_constraint_def column_names_def required_columns_def type_of_column_def)
  have scan: "\<not> refers_to_key t ks c" if "d \<in> set ds" "\<not> key_needed t kss ds" "ks \<in> set kss" "c \<in> set (td_constraints d)" for d ds kss ks c
    using that by (induction ds) (auto simp: list_ex_iff)
  have remains: "among_keys rs (keys_of ?e)"
    if d: "d \<in> set (sc_tables s) \<and> td_name d \<noteq> t \<or> d = ?e" "ForeignKeyConstraint cs t rs m \<in> set (td_constraints d)"
      and old: "among_keys rs (keys_of ?d)" for d cs rs m
  proof -
    obtain k c where k: "set k = set rs" "c \<in> set (td_constraints ?d)" "key_columns c = Some k"
      using old by (auto simp: among_keys_iff keys_of_iff)
    obtain d' where d': "d' \<in> set (sc_tables s)" "ForeignKeyConstraint cs t rs m \<in> set (td_constraints d')"
      using d the_table_mem[OF t] by (auto simp: e)
    have "constraint_name t c \<noteq> n"
    proof
      assume "constraint_name t c = n"
      with k wf(6) have "k \<in> set (keys_named n ?d)" by (force simp: keys_named_def List.map_filter_def)
      from scan[OF d'(1) free this d'(2)] k(1) show False by (simp add: included_iff)
    qed
    with k(2,3) have "k \<in> set (keys_of ?e)" by (auto simp: keys_of_iff e)
    with k(1) show ?thesis by (auto simp: among_keys_iff)
  qed
  have "wf_schema \<lparr>sc_tables = on_table t (without_constraint n) (sc_tables s), sc_indexes = sc_indexes s\<rparr>"
  proof (rule wf_on_table[OF assms(1) t])
    show "td_name (without_constraint n d) = td_name d" for d by (simp add: without_constraint_def)
    have key: "key_names ?e = map (constraint_name (td_name ?d)) (filter (\<lambda>c. constraint_name t c \<noteq> n) (filter is_key (td_constraints ?d)))"
      using wf(6) by (simp add: key_names_def e conj_commute)
    show "distinct (key_names ?e)"
      unfolding key using wf(4)[unfolded key_names_def] by (rule distinct_map_filter)
    show "set (key_names ?e) \<inter> (set (relation_names s) - set (key_names ?d)) = {}"
      unfolding key by (auto simp: key_names_def)
    show "distinct (constraint_names ?e)"
      using wf(2) unfolding constraint_names_def e wf(6) by (rule distinct_map_filter)
    show "among_keys rs (keys_of ?e) \<and> (\<forall>x\<in>set rs. type_of_column ?e x = type_of_column ?d x)"
      if "d \<in> set (sc_tables s) \<and> td_name d \<noteq> t \<or> d = ?e" "ForeignKeyConstraint cs t rs m \<in> set (td_constraints d)"
        "among_keys rs (keys_of ?d)" for d cs rs m
      using remains[OF that] by (simp add: e)
    show "included (xd_columns i) (column_names ?e)" if "i \<in> set (sc_indexes s)" "xd_table i = t" for i
      using wf_schemaD(3)[OF assms(1) that(1)] that(2) by (auto simp: valid_index_def e)
  qed (use wf in \<open>auto simp: e\<close>)
  then show ?thesis by simp
qed

lemma alter_nullable_wf:
  assumes "wf_schema s" "refusals (AlterNullable t x b) s = []"
  shows "wf_schema (perform (AlterNullable t x b) s)"
proof -
  from assms(2) have t: "t \<in> set (table_names s)" and pk: "\<not> (b \<and> list_ex (in_primary_key x) (td_constraints (the_table t s)))"
    by auto
  note wf = the_table_wf[OF assms(1) t]
  let ?d = "the_table t s" and ?e = "with_nullable x b (the_table t s)"
  have types: "map (\<lambda>k. (co_name k, co_type k)) (td_columns ?e) = map (\<lambda>k. (co_name k, co_type k)) (td_columns ?d)"
    by (simp add: with_nullable_def)
  have e: "td_constraints ?e = td_constraints ?d" "column_names ?e = column_names ?d" "type_of_column ?e = type_of_column ?d"
    "td_name ?e = t"
    using wf(6) unfolding type_of_column_def types by (auto simp: with_nullable_def column_names_def)
  have required: "y \<in> set (required_columns ?e)" if "y \<in> set (required_columns ?d)" "y \<noteq> x \<or> \<not> b" for y
  proof -
    from that(1) obtain k where "k \<in> set (td_columns ?d)" "\<not> co_nullable k" "co_name k = y" by (auto simp: required_columns_def)
    with that(2) show ?thesis by (force simp: required_columns_def with_nullable_def)
  qed
  have "wf_schema \<lparr>sc_tables = on_table t (with_nullable x b) (sc_tables s), sc_indexes = sc_indexes s\<rparr>"
  proof (rule wf_on_table[OF assms(1) t])
    show "td_name (with_nullable x b d) = td_name d" for d by (simp add: with_nullable_def)
    show "distinct (key_names ?e)" "set (key_names ?e) \<inter> (set (relation_names s) - set (key_names ?d)) = {}"
      "distinct (constraint_names ?e)"
      using wf by (auto simp: key_names_def constraint_names_def e)
    show "y \<in> set (required_columns ?e)" if "c \<in> set (td_constraints ?e)" "y \<in> set (required_columns ?d)" "in_primary_key y c" for c y
      using required[OF that(2)] pk that by (auto simp: e list_ex_iff)
    show "among_keys rs (keys_of ?e) \<and> (\<forall>x\<in>set rs. type_of_column ?e x = type_of_column ?d x)" if "among_keys rs (keys_of ?d)" for rs
      using that by (simp add: keys_of_def e)
    show "included (xd_columns i) (column_names ?e)" if "i \<in> set (sc_indexes s)" "xd_table i = t" for i
      using wf_schemaD(3)[OF assms(1) that(1)] that(2) by (auto simp: valid_index_def e)
  qed (use wf in \<open>auto simp: e\<close>)
  then show ?thesis by simp
qed

lemma create_table_wf:
  assumes "wf_schema s" "refusals (CreateTable t cols cons) s = []"
  shows "wf_schema (perform (CreateTable t cols cons) s)"
proof -
  let ?d = "\<lparr>td_name = t, td_columns = cols, td_constraints = cons\<rparr>"
  let ?s = "\<lparr>sc_tables = sc_tables s @ [?d], sc_indexes = sc_indexes s\<rparr>"
  have update: "s\<lparr>sc_tables := sc_tables s @ [?d]\<rparr> = ?s" by simp
  from assms(2) have d: "distinct (t # key_names ?d)" "set (t # key_names ?d) \<inter> set (relation_names s) = {}" "distinct (column_names ?d)"
    "distinct (constraint_names ?d)" "list_all (valid_constraint ?s ?d) cons"
    by (auto simp: Let_def absent_iff update)
  have table: "the_table r ?s = the_table r s" if "r \<in> set (table_names s)" for r
    using that by (simp add: the_table_def table_names_def table_named_append)
  have "wf_table ?s e" if e: "e \<in> set (sc_tables s)" for e
  proof -
    have "valid_constraint ?s e c" if "c \<in> set (td_constraints e)" for c
    proof (rule valid_constraint_frame[of s e])
      show "valid_constraint s e c" using wf_schemaD(2)[OF assms(1) e] that by (simp add: wf_table_def list_all_iff)
    qed (use table foreign_key_target in auto)
    then show ?thesis using wf_schemaD(2)[OF assms(1) e] by (simp add: wf_table_def list_all_iff)
  qed
  moreover have "wf_table ?s ?d" using d by (simp add: wf_table_def)
  moreover have "distinct (relation_names ?s)" using wf_schemaD(1)[OF assms(1)] d(1,2) by (auto simp: relation_names_def)
  moreover have "valid_index ?s i" if "i \<in> set (sc_indexes s)" for i
    using wf_schemaD(3)[OF assms(1) that] table by (auto simp: valid_index_def table_names_def)
  ultimately show ?thesis by (auto simp: wf_schema_def list_all_iff)
qed

lemma table_relations_filter:
  fixes ds :: "table_def list"
  shows "set (table_relations (filter P ds)) \<subseteq> set (table_relations ds)"
    "distinct (table_relations ds) \<Longrightarrow> distinct (table_relations (filter P ds))"
proof -
  show sub: "set (table_relations (filter P ds)) \<subseteq> set (table_relations ds)" for ds :: "table_def list" by (induction ds) auto
  show "distinct (table_relations ds) \<Longrightarrow> distinct (table_relations (filter P ds))"
    by (induction ds) (use sub in \<open>auto dest: subsetD\<close>)
qed

lemma drop_table_wf:
  assumes "wf_schema s" "refusals (DropTable t) s = []"
  shows "wf_schema (perform (DropTable t) s)"
proof -
  let ?s = "\<lparr>sc_tables = filter (\<lambda>d. td_name d \<noteq> t) (sc_tables s), sc_indexes = filter (\<lambda>x. xd_table x \<noteq> t) (sc_indexes s)\<rparr>"
  from assms(2) have free: "\<not> table_needed t (sc_tables s)" by auto
  have scan: "\<not> refers_to_table t c" if "\<not> table_needed t ds" "d \<in> set ds" "td_name d \<noteq> t" "c \<in> set (td_constraints d)" for ds d c
    using that by (induction ds) (auto simp: list_ex_iff)
  have table: "the_table r ?s = the_table r s" if "r \<noteq> t" for r
    using that by (simp add: the_table_def table_named_filter)
  have "wf_table ?s d" if d: "d \<in> set (sc_tables s)" "td_name d \<noteq> t" for d
  proof -
    have "valid_constraint ?s d c" if c: "c \<in> set (td_constraints d)" for c
    proof (rule valid_constraint_frame[of s d])
      show "valid_constraint s d c" using wf_schemaD(2)[OF assms(1) d(1)] c by (simp add: wf_table_def list_all_iff)
      fix cs r rs n assume "c = ForeignKeyConstraint cs r rs n" "among_keys rs (keys_of (the_table r s))"
      with scan[OF free d c] table[of r]
      show "among_keys rs (keys_of (the_table r ?s)) \<and> (\<forall>x\<in>set rs. type_of_column (the_table r ?s) x = type_of_column (the_table r s) x)"
        by auto
    qed auto
    then show ?thesis using wf_schemaD(2)[OF assms(1) d(1)] by (simp add: wf_table_def list_all_iff)
  qed
  moreover have "distinct (relation_names ?s)"
    using wf_schemaD(1)[OF assms(1)] table_relations_filter[where P = "\<lambda>d. td_name d \<noteq> t" and ds = "sc_tables s"]
    by (auto simp: relation_names_def distinct_map_filter)
  moreover have "valid_index ?s i" if "i \<in> set (sc_indexes s)" "xd_table i \<noteq> t" for i
    using wf_schemaD(3)[OF assms(1) that(1)] that(2) table by (auto simp: valid_index_def table_names_def)
  ultimately show ?thesis by (auto simp: wf_schema_def list_all_iff)
qed

lemma index_wf:
  assumes "wf_schema s" "distinct (map xd_name idx @ table_relations (sc_tables s))" "\<And>i. i \<in> set idx \<Longrightarrow> valid_index s i"
  shows "wf_schema \<lparr>sc_tables = sc_tables s, sc_indexes = idx\<rparr>"
proof -
  let ?s = "\<lparr>sc_tables = sc_tables s, sc_indexes = idx\<rparr>"
  have table: "the_table r ?s = the_table r s" for r by (simp add: the_table_def)
  have "valid_constraint ?s d c = valid_constraint s d c" for d c by (cases c) (simp_all add: table)
  then have "valid_constraint ?s = valid_constraint s" by blast
  then have "wf_table ?s = wf_table s" by (intro ext) (simp add: wf_table_def)
  moreover have "valid_index ?s = valid_index s" by (simp add: valid_index_def fun_eq_iff table table_names_def)
  ultimately show ?thesis using assms by (simp add: wf_schema_def relation_names_def list_all_iff)
qed

lemma perform_wf:
  assumes "wf_schema s" "refusals op s = []"
  shows "wf_schema (perform op s)"
proof (cases op)
  case (CreateIndex n t cs)
  let ?i = "\<lparr>xd_name = n, xd_table = t, xd_columns = cs\<rparr>"
  have "valid_index s ?i" "n \<notin> set (relation_names s)" using assms(2) by (auto simp: CreateIndex valid_index_def)
  with assms(1) show ?thesis
    unfolding CreateIndex perform.simps
    by (intro index_wf) (use wf_schemaD[OF assms(1)] in \<open>auto simp: relation_names_def\<close>)
next
  case (DropIndex n t b)
  with assms(1) show ?thesis
    unfolding DropIndex perform.simps
    by (intro index_wf) (use wf_schemaD[OF assms(1)] in \<open>auto simp: relation_names_def distinct_map_filter\<close>)
next
  case (CreateTable t cols cons)
  then show ?thesis using create_table_wf assms by blast
next
  case (DropTable t)
  then show ?thesis using drop_table_wf assms by blast
next
  case (AddColumn t k)
  then show ?thesis using add_column_wf assms by blast
next
  case (DropColumn t x)
  then show ?thesis using drop_column_wf assms by blast
next
  case (CreateConstraint t c)
  then show ?thesis using create_constraint_wf assms by blast
next
  case (DropConstraint t n)
  then show ?thesis using drop_constraint_wf assms by blast
next
  case (AlterNullable t x b)
  then show ?thesis using alter_nullable_wf assms by blast
qed

lemma run_ddl_wf: "run_ddl ops s = Inr s' \<Longrightarrow> wf_schema s \<Longrightarrow> wf_schema s'"
proof (induction ops arbitrary: s)
  case (Cons op ops)
  then obtain s1 where "apply_ddl op s = Inr s1" "run_ddl ops s1 = Inr s'" by (auto simp: run_ddl_def bind_result_Inr)
  moreover from this(1) have "s1 = perform op s" "refusals op s = []" by (auto simp: apply_ddl_def split: list.splits)
  ultimately show ?case using Cons perform_wf by blast
qed (simp add: run_ddl_def)

lemma empty_schema_wf: "wf_schema empty_schema"
  by (simp add: wf_schema_def empty_schema_def relation_names_def)

section \<open>Evaluation of concrete operations\<close>

text \<open>
  Rules that evaluate operations on literal schemas with \<open>simp only\<close>: comparisons stop at the first character
  that differs, and conditions speak of names only, never of whole tables.
\<close>

lemma string_eq_same: "(c # cs = c # ds) = (cs = ds)" by simp

lemma string_eq_other: "c \<noteq> d \<Longrightarrow> (c # cs = d # ds) = False" by simp

lemma table_named_eval:
  "table_named t (\<lparr>td_name = t, td_columns = cs, td_constraints = ks\<rparr> # ds) =
     \<lparr>td_name = t, td_columns = cs, td_constraints = ks\<rparr>"
  "n \<noteq> t \<Longrightarrow> table_named t (\<lparr>td_name = n, td_columns = cs, td_constraints = ks\<rparr> # ds) = table_named t ds"
  by simp_all

lemma on_table_eval:
  "on_table t f (\<lparr>td_name = t, td_columns = cs, td_constraints = ks\<rparr> # ds) =
     f \<lparr>td_name = t, td_columns = cs, td_constraints = ks\<rparr> # ds"
  "n \<noteq> t \<Longrightarrow> on_table t f (\<lparr>td_name = n, td_columns = cs, td_constraints = ks\<rparr> # ds) =
     \<lparr>td_name = n, td_columns = cs, td_constraints = ks\<rparr> # on_table t f ds"
  by simp_all

lemma filter_table:
  "filter (\<lambda>d. td_name d \<noteq> t) (\<lparr>td_name = t, td_columns = cs, td_constraints = ks\<rparr> # ds) =
     filter (\<lambda>d. td_name d \<noteq> t) ds"
  "n \<noteq> t \<Longrightarrow> filter (\<lambda>d. td_name d \<noteq> t) (\<lparr>td_name = n, td_columns = cs, td_constraints = ks\<rparr> # ds) =
     \<lparr>td_name = n, td_columns = cs, td_constraints = ks\<rparr> # filter (\<lambda>d. td_name d \<noteq> t) ds"
  by simp_all

lemma filter_take: "P x \<Longrightarrow> filter P (x # xs) = x # filter P xs" by simp

lemma filter_skip: "\<not> P x \<Longrightarrow> filter P (x # xs) = filter P xs" by simp

lemma list_ex_Nil: "list_ex P [] = False" and list_ex_Cons: "list_ex P (x # xs) = (P x \<or> list_ex P xs)"
  by simp_all

lemma keys_eval_Nil: "List.map_filter key_columns [] = []" by simp

lemma keys_eval:
  "List.map_filter key_columns (PrimaryKeyConstraint cs # xs) = cs # List.map_filter key_columns xs"
  "List.map_filter key_columns (UniqueConstraint cs n # xs) = cs # List.map_filter key_columns xs"
  "List.map_filter key_columns (CheckConstraint e n # xs) = List.map_filter key_columns xs"
  "List.map_filter key_columns (ForeignKeyConstraint cs r rs n # xs) = List.map_filter key_columns xs"
  by (simp_all add: List.map_filter_simps)

lemma map_of_first: "map_of ((c, t) # ps) c = Some t" by simp

lemma map_of_later: "c \<noteq> d \<Longrightarrow> map_of ((c, t) # ps) d = map_of ps d" by simp

lemma member_here: "(x \<in> set (x # xs)) = True" by simp

lemma member_later: "x \<noteq> y \<Longrightarrow> (x \<in> set (y # ys)) = (x \<in> set ys)" by simp

lemma member_nil: "(x \<in> set []) = False" by simp

lemma check_that_True: "check_that True e = []" and check_that_False: "check_that False e = [e]" by (simp_all add: check_that_def)

lemma run_ddl_Nil: "run_ddl [] s = Inr s" by (simp add: run_ddl_def)

lemma run_ddl_Cons: "refusals op s = [] \<Longrightarrow> run_ddl (op # ops) s = run_ddl ops (perform op s)"
  by (simp add: run_ddl_def apply_ddl_def)


lemmas ddl_eval = string_eq_same string_eq_other table_named_eval on_table_eval filter_table filter_take filter_skip
  keys_eval keys_eval_Nil map_of_first map_of_later member_here member_later member_nil check_that_True check_that_False run_ddl_Nil run_ddl_Cons
  refusals.simps perform.simps Let_def
  table_def.simps column.simps index_def.simps db_schema.simps table_named.simps(1) the_table_def table_names_def column_names_def
  type_of_column_def required_columns_def constraint_names_def key_names_def relation_names_def keys_of_def
  included.simps absent.simps among_keys.simps valid_constraint.simps valid_index_def
  is_key_def key_columns.simps constraint_name.simps mentions.simps refers_to_table.simps refers_to_key.simps refers_to_column.simps
  with_column_def without_column_def with_nullable_def with_constraint_def without_constraint_def
  in_primary_key.simps table_needed.simps column_needed.simps table_relations.simps keys_named_def key_needed.simps list_ex_Nil list_ex_Cons table_constraint.case
  list.map filter.simps(1) append.simps concat.simps list.pred_inject distinct.simps on_table.simps(1) rev.simps
  option.inject option.distinct list.distinct char.inject simp_thms not_False_eq_True sql_type.distinct sql_type.inject if_True if_False
  prod.case
  empty_schema_def sum.case

end
