(* ===== verification/Migrations.thy ===== *)
theory Migrations
  imports Ddl
begin

text \<open>
  The tables of the object-relational models (\<open>infrastructure/models.py\<close>) and the twelve Alembic revisions under
  \<open>migrations/versions/\<close>, upgrade and downgrade, as data. The statements of the two provider-identity revisions
  that read or write rows are in \<open>ProviderMigration\<close>; the work tables and functions they create and drop in the
  same transaction do not appear. The third argument of a column is whether it is nullable.
\<close>

section \<open>The declared models\<close>

record orm_column =
  oc_column :: column
  oc_primary_key :: bool
  oc_foreign_key :: "(string \<times> string \<times> string) option"

record orm_model =
  om_tablename :: string
  om_columns :: "orm_column list"
  om_constraints :: "table_constraint list"
  om_indexes :: "(string \<times> string list) list"

definition column :: "string \<Rightarrow> sql_type \<Rightarrow> bool \<Rightarrow> column" where
  "column n t nullable = \<lparr>co_name = n, co_type = t, co_nullable = nullable\<rparr>"

definition mapped :: "string \<Rightarrow> sql_type \<Rightarrow> bool \<Rightarrow> orm_column" where
  "mapped n t nullable = \<lparr>oc_column = column n t nullable, oc_primary_key = False, oc_foreign_key = None\<rparr>"

text \<open>SQLAlchemy makes a primary key column not nullable.\<close>

definition primary_key :: "string \<Rightarrow> sql_type \<Rightarrow> orm_column" where
  "primary_key n t = \<lparr>oc_column = column n t False, oc_primary_key = True, oc_foreign_key = None\<rparr>"

definition sql_quote :: "string \<Rightarrow> string" where
  "sql_quote s = CHR 0x27 # s @ [CHR 0x27]"

definition PAYPAL_IDENTIFIER_PATTERN :: string where
  "PAYPAL_IDENTIFIER_PATTERN = ''^[A-Za-z0-9][A-Za-z0-9_-]{0,127}$''"

definition PAYMENT_ATTEMPT_SOURCE_SYSTEM_CHECK :: string where
  "PAYMENT_ATTEMPT_SOURCE_SYSTEM_CHECK =
     ''source_system IN ('' @ sql_quote ''razorpay'' @ '', '' @ sql_quote ''synthetic'' @ '', '' @
     sql_quote ''paypal'' @ '')''"

definition PAYMENT_ATTEMPT_NAMESPACE_CHECK :: string where
  "PAYMENT_ATTEMPT_NAMESPACE_CHECK =
     ''CASE WHEN source_system = '' @ sql_quote ''paypal'' @ '' '' @
     ''THEN provider_reference ~ '' @ sql_quote PAYPAL_IDENTIFIER_PATTERN @ '' '' @
     ''AND payment_attempt_id = '' @ sql_quote ''paypal-order:'' @ '' || provider_reference '' @
     ''ELSE provider_reference <> '' @ sql_quote [] @ '' AND payment_attempt_id = provider_reference '' @
     ''AND left(payment_attempt_id, 13) <> '' @ sql_quote ''paypal-order:'' @ '' END''"

definition RawIngestionRecordModel :: orm_model where
  "RawIngestionRecordModel =
     \<lparr>om_tablename = ''raw_ingestion_records'',
      om_columns =
        [primary_key ''id'' SqlUUID, mapped ''source_system'' (SqlString 50) False,
         mapped ''source_event_id'' (SqlString 255) False, mapped ''received_at'' SqlDateTime False,
         mapped ''raw_payload'' SqlJSON False, mapped ''payload_hash'' (SqlString 64) False],
      om_constraints =
        [UniqueConstraint [''source_system'', ''source_event_id''] ''uq_raw_ingestion_source_identity''],
      om_indexes = []\<rparr>"

definition PaymentEventModel :: orm_model where
  "PaymentEventModel =
     \<lparr>om_tablename = ''payment_events'',
      om_columns =
        [primary_key ''event_id'' SqlUUID, mapped ''source_system'' (SqlString 50) False,
         mapped ''source_event_id'' (SqlString 255) False, mapped ''payment_id'' (SqlString 255) False,
         mapped ''order_id'' (SqlString 255) True, mapped ''timestamp'' SqlDateTime False,
         mapped ''event_type'' (SqlString 100) False, mapped ''currency'' (SqlString 3) False,
         mapped ''amount_minor_units'' SqlInteger False, mapped ''payment_status'' (SqlString 50) False,
         mapped ''payment_method'' (SqlString 50) True, mapped ''bank'' (SqlString 50) True,
         mapped ''wallet'' (SqlString 50) True, mapped ''error_code'' (SqlString 255) True,
         mapped ''error_description'' (SqlString 1024) True, mapped ''error_source'' (SqlString 255) True,
         mapped ''error_step'' (SqlString 255) True, mapped ''error_reason'' (SqlString 255) True,
         mapped ''ingested_at'' SqlDateTime False],
      om_constraints =
        [UniqueConstraint [''source_system'', ''source_event_id''] ''uq_payment_event_source_identity'',
         UniqueConstraint [''event_id'', ''source_system''] ''uq_payment_event_provider''],
      om_indexes =
        [(''idx_payment_events_timestamp_event_type'', [''timestamp'', ''event_type'']),
         (''ix_payment_events_eligibility'', [''payment_id'', ''ingested_at'']),
         (''ix_payment_events_hist_pm'', [''payment_method'', ''ingested_at'', ''event_type'']),
         (''ix_payment_events_hist_bank'', [''bank'', ''ingested_at'', ''event_type'']),
         (''ix_payment_events_hist_wallet'', [''wallet'', ''ingested_at'', ''event_type'']),
         (''ix_payment_events_hist_curr'', [''currency'', ''ingested_at'', ''event_type'']),
         (''ix_payment_events_provider_order'', [''source_system'', ''order_id'', ''ingested_at''])]\<rparr>"

definition PaymentAttemptModel :: orm_model where
  "PaymentAttemptModel =
     \<lparr>om_tablename = ''payment_attempts'',
      om_columns =
        [primary_key ''payment_attempt_id'' (SqlString 255), mapped ''source_system'' (SqlString 50) False,
         mapped ''provider_reference'' (SqlString 255) False, mapped ''trigger_event_id'' SqlUUID False,
         mapped ''registered_at'' SqlDateTime False],
      om_constraints =
        [UniqueConstraint [''payment_attempt_id'', ''source_system''] ''uq_payment_attempt_provider'',
         UniqueConstraint [''source_system'', ''provider_reference''] ''uq_payment_attempt_reference'',
         CheckConstraint PAYMENT_ATTEMPT_SOURCE_SYSTEM_CHECK ''ck_payment_attempt_source_system'',
         CheckConstraint PAYMENT_ATTEMPT_NAMESPACE_CHECK ''ck_payment_attempt_namespace'',
         ForeignKeyConstraint [''trigger_event_id'', ''source_system''] ''payment_events'' [''event_id'', ''source_system''] ''fk_payment_attempt_trigger''],
      om_indexes = []\<rparr>"

definition PaymentHealthSnapshotModel :: orm_model where
  "PaymentHealthSnapshotModel =
     \<lparr>om_tablename = ''payment_health_snapshots'',
      om_columns =
        [primary_key ''snapshot_id'' SqlUUID, mapped ''window_start'' SqlDateTime False,
         mapped ''window_end'' SqlDateTime False, mapped ''segment_dimension'' (SqlString 50) False,
         mapped ''segment_value'' (SqlString 255) False, mapped ''transaction_count'' SqlInteger False,
         mapped ''successful_transaction_count'' SqlInteger False,
         mapped ''failed_transaction_count'' SqlInteger False, mapped ''success_rate'' SqlFloat True,
         mapped ''failure_rate'' SqlFloat True, mapped ''total_gmv_minor_units'' SqlInteger False,
         mapped ''successful_gmv_minor_units'' SqlInteger False,
         mapped ''failed_gmv_minor_units'' SqlInteger False, mapped ''baseline_success_rate'' SqlFloat True,
         mapped ''insufficient_volume'' SqlBoolean False, mapped ''calculated_at'' SqlDateTime False],
      om_constraints =
        [UniqueConstraint [''window_start'', ''window_end'', ''segment_dimension'', ''segment_value''] ''uq_snapshot_identity''],
      om_indexes = []\<rparr>"

definition DegradationSignalModel :: orm_model where
  "DegradationSignalModel =
     \<lparr>om_tablename = ''degradation_signals'',
      om_columns =
        [primary_key ''signal_id'' SqlUUID, mapped ''snapshot_id'' SqlUUID False,
         mapped ''segment_dimension'' (SqlString 50) False, mapped ''segment_value'' (SqlString 255) False,
         mapped ''window_start'' SqlDateTime False, mapped ''evaluation_version'' SqlInteger False,
         mapped ''signal_type'' (SqlString 20) False, mapped ''baseline_success_rate'' SqlFloat True,
         mapped ''absolute_drop'' SqlFloat True, mapped ''relative_drop'' SqlFloat True,
         mapped ''evaluation_timestamp'' SqlDateTime False],
      om_constraints =
        [UniqueConstraint [''segment_dimension'', ''segment_value'', ''window_start'', ''evaluation_version''] ''uq_signal_evaluation_version''],
      om_indexes =
        [(''ix_degradation_signals_stage3_as_of'', [''segment_dimension'', ''segment_value'', ''evaluation_timestamp''])]\<rparr>"

definition DegradationEpisodeModel :: orm_model where
  "DegradationEpisodeModel =
     \<lparr>om_tablename = ''degradation_episodes'',
      om_columns =
        [primary_key ''episode_id'' SqlUUID, mapped ''segment_dimension'' (SqlString 50) False,
         mapped ''segment_value'' (SqlString 255) False, mapped ''started_at_window'' SqlDateTime False,
         mapped ''ended_at_window'' SqlDateTime True, mapped ''status'' (SqlString 20) False,
         mapped ''peak_absolute_drop'' SqlFloat False, mapped ''affected_window_count'' SqlInteger False,
         mapped ''severity'' (SqlString 20) False],
      om_constraints = [],
      om_indexes = []\<rparr>"

definition EpisodeStateHistoryModel :: orm_model where
  "EpisodeStateHistoryModel =
     \<lparr>om_tablename = ''episode_state_history'',
      om_columns =
        [primary_key ''history_id'' SqlUUID, mapped ''reconciliation_run_id'' SqlUUID False,
         mapped ''episode_id'' SqlUUID False, mapped ''segment_dimension'' (SqlString 50) False,
         mapped ''segment_value'' (SqlString 255) False, mapped ''status'' (SqlString 20) False,
         mapped ''severity'' (SqlString 20) False, mapped ''effective_start_window'' SqlDateTime False,
         mapped ''evaluation_timestamp'' SqlDateTime False],
      om_constraints = [],
      om_indexes =
        [(''ix_episode_state_history_as_of'', [''segment_dimension'', ''segment_value'', ''evaluation_timestamp'']),
         (''ix_episode_state_history_run'', [''reconciliation_run_id''])]\<rparr>"

definition RCAEvaluationModel :: orm_model where
  "RCAEvaluationModel =
     \<lparr>om_tablename = ''rca_evaluations'',
      om_columns =
        [primary_key ''evaluation_id'' SqlUUID, mapped ''episode_id'' SqlUUID False,
         mapped ''evaluation_version'' SqlInteger False, mapped ''classification'' (SqlString 20) False,
         mapped ''analysis_window_start'' SqlDateTime False, mapped ''analysis_window_end'' SqlDateTime False,
         mapped ''input_fingerprint'' (SqlString 71) False, mapped ''generated_at'' SqlDateTime False,
         mapped ''evidence_audit_payload'' SqlJSON False],
      om_constraints =
        [UniqueConstraint [''episode_id'', ''evaluation_version''] ''uq_rca_evaluation_version''],
      om_indexes =
        [(''ix_rca_evaluations_as_of'', [''episode_id'', ''generated_at'', ''evaluation_version''])]\<rparr>"

definition CandidateCauseModel :: orm_model where
  "CandidateCauseModel =
     \<lparr>om_tablename = ''rca_candidate_causes'',
      om_columns =
        [primary_key ''candidate_id'' SqlUUID,
         (mapped ''evaluation_id'' SqlUUID False)\<lparr>oc_foreign_key := Some (''rca_evaluations'', ''evaluation_id'', ''fk_candidate_cause_evaluation'')\<rparr>,
         mapped ''candidate_dimension'' (SqlString 50) False, mapped ''candidate_value'' (SqlString 255) False,
         mapped ''evidence_strength'' (SqlString 20) False,
         mapped ''excess_failure_contribution'' SqlFloat False,
         mapped ''actual_segment_failures'' SqlInteger False,
         mapped ''expected_segment_failures'' SqlFloat False, mapped ''excess_segment_failures'' SqlFloat False,
         mapped ''rank'' SqlInteger False],
      om_constraints = [],
      om_indexes = []\<rparr>"

definition FailurePredictionModel :: orm_model where
  "FailurePredictionModel =
     \<lparr>om_tablename = ''failure_predictions'',
      om_columns =
        [primary_key ''prediction_id'' SqlUUID, mapped ''payment_attempt_id'' (SqlString 255) False,
         mapped ''source_system'' (SqlString 50) False, mapped ''prediction_version'' SqlInteger False,
         mapped ''predicted_at'' SqlDateTime False, mapped ''prediction_horizon'' (SqlString 50) False,
         mapped ''failure_probability'' SqlFloat True, mapped ''risk_band'' (SqlString 20) True,
         mapped ''prediction_status'' (SqlString 20) False, mapped ''model_name'' (SqlString 100) False,
         mapped ''model_version'' (SqlString 50) False, mapped ''feature_schema_version'' (SqlString 50) False,
         mapped ''feature_snapshot'' SqlJSON False, mapped ''input_fingerprint'' (SqlString 71) False,
         mapped ''created_at'' SqlDateTime False],
      om_constraints =
        [UniqueConstraint [''payment_attempt_id'', ''source_system'', ''prediction_version''] ''uq_failure_prediction_version'',
         UniqueConstraint [''prediction_id'', ''source_system''] ''uq_failure_prediction_provider'',
         ForeignKeyConstraint [''payment_attempt_id'', ''source_system''] ''payment_attempts'' [''payment_attempt_id'', ''source_system''] ''fk_failure_predictions_payment_attempt''],
      om_indexes = []\<rparr>"

definition InterventionDecisionModel :: orm_model where
  "InterventionDecisionModel =
     \<lparr>om_tablename = ''intervention_decisions'',
      om_columns =
        [primary_key ''decision_id'' SqlUUID, mapped ''payment_attempt_id'' (SqlString 255) False,
         mapped ''source_system'' (SqlString 50) False, mapped ''decision_version'' SqlInteger False,
         mapped ''decided_at'' SqlDateTime False, mapped ''decision_type'' (SqlString 20) False,
         mapped ''selected_route_id'' (SqlString 50) True, mapped ''failure_probability'' SqlFloat True,
         mapped ''stage5_prediction_id'' SqlUUID True, mapped ''diagnosis_confidence'' (SqlString 20) True,
         mapped ''decision_confidence'' SqlFloat False, mapped ''gate_verdict'' (SqlString 50) False,
         mapped ''policy_id'' (SqlString 50) False, mapped ''policy_version'' (SqlString 50) False,
         mapped ''input_fingerprint'' (SqlString 71) False, mapped ''evaluation_audit_payload'' SqlJSON False,
         mapped ''created_at'' SqlDateTime False],
      om_constraints =
        [UniqueConstraint [''payment_attempt_id'', ''source_system'', ''decision_version''] ''uq_intervention_decision_version'',
         UniqueConstraint [''decision_id'', ''source_system''] ''uq_intervention_decision_provider'',
         ForeignKeyConstraint [''payment_attempt_id'', ''source_system''] ''payment_attempts'' [''payment_attempt_id'', ''source_system''] ''fk_intervention_decisions_payment_attempt''],
      om_indexes =
        [(''ix_intervention_decisions_attempt_lookup'', [''payment_attempt_id'', ''decision_version'']),
         (''ix_intervention_decisions_fingerprint'', [''input_fingerprint'']),
         (''ix_intervention_decisions_rate_limiting'', [''decision_type'', ''decided_at'']),
         (''ix_intervention_decisions_route_cooldown'', [''payment_attempt_id'', ''selected_route_id'', ''decided_at''])]\<rparr>"

definition InterventionCommandModel :: orm_model where
  "InterventionCommandModel =
     \<lparr>om_tablename = ''intervention_commands'',
      om_columns =
        [primary_key ''command_id'' SqlUUID, mapped ''decision_id'' SqlUUID False,
         mapped ''payment_attempt_id'' (SqlString 255) False, mapped ''source_system'' (SqlString 50) False,
         mapped ''decision_version'' SqlInteger False, mapped ''route_key'' (SqlString 50) False,
         mapped ''policy_id'' (SqlString 50) False, mapped ''policy_version'' (SqlString 50) False,
         mapped ''command_status'' (SqlString 20) False, mapped ''status_reason'' (SqlString 255) True,
         mapped ''idempotency_key'' (SqlString 100) False, mapped ''created_at'' SqlDateTime False,
         mapped ''expires_at'' SqlDateTime False, mapped ''updated_at'' SqlDateTime False],
      om_constraints =
        [UniqueConstraint [''decision_id''] ''uq_cmd_decision'',
         UniqueConstraint [''idempotency_key''] ''uq_cmd_idempotency_key'',
         UniqueConstraint [''payment_attempt_id'', ''source_system'', ''decision_version''] ''uq_cmd_attempt_version'',
         UniqueConstraint [''command_id'', ''source_system''] ''uq_cmd_provider'',
         ForeignKeyConstraint [''payment_attempt_id'', ''source_system''] ''payment_attempts'' [''payment_attempt_id'', ''source_system''] ''fk_intervention_commands_payment_attempt'',
         ForeignKeyConstraint [''decision_id'', ''source_system''] ''intervention_decisions'' [''decision_id'', ''source_system''] ''fk_command_decision''],
      om_indexes =
        [(''ix_cmd_status_expiry'', [''command_status'', ''expires_at'']),
         (''ix_cmd_attempt_lookup'', [''payment_attempt_id'', ''created_at''])]\<rparr>"

definition InterventionExecutionAttemptModel :: orm_model where
  "InterventionExecutionAttemptModel =
     \<lparr>om_tablename = ''intervention_execution_attempts'',
      om_columns =
        [primary_key ''attempt_id'' SqlUUID, mapped ''command_id'' SqlUUID False,
         mapped ''source_system'' (SqlString 50) False, mapped ''attempt_number'' SqlInteger False,
         mapped ''started_at'' SqlDateTime False, mapped ''completed_at'' SqlDateTime False,
         mapped ''duration_ms'' SqlInteger False, mapped ''execution_status'' (SqlString 20) False,
         mapped ''executor_name'' (SqlString 100) False, mapped ''is_simulation'' SqlBoolean False,
         mapped ''provider_action_type'' (SqlString 50) False,
         mapped ''provider_response_code'' (SqlString 50) True,
         mapped ''provider_response_payload'' SqlJSON False, mapped ''error_message'' (SqlString 1024) True,
         mapped ''created_at'' SqlDateTime False],
      om_constraints =
        [UniqueConstraint [''command_id'', ''attempt_number''] ''uq_exec_attempt_number'',
         ForeignKeyConstraint [''command_id'', ''source_system''] ''intervention_commands'' [''command_id'', ''source_system''] ''fk_exec_attempt_command''],
      om_indexes =
        [(''ix_exec_attempt_cmd'', [''command_id''])]\<rparr>"

definition PaymentOutcomeObservationModel :: orm_model where
  "PaymentOutcomeObservationModel =
     \<lparr>om_tablename = ''payment_outcome_observations'',
      om_columns =
        [primary_key ''observation_id'' SqlUUID, mapped ''command_id'' SqlUUID False,
         mapped ''payment_attempt_id'' (SqlString 255) False, mapped ''source_system'' (SqlString 50) False,
         mapped ''observation_version'' SqlInteger False, mapped ''observed_at'' SqlDateTime False,
         mapped ''as_of_timestamp'' SqlDateTime False, mapped ''payment_outcome'' (SqlString 30) False,
         mapped ''terminal_event_id'' SqlUUID True, mapped ''terminal_event_type'' (SqlString 100) True,
         mapped ''terminal_event_timestamp'' SqlDateTime True, mapped ''time_to_outcome_ms'' SqlInteger True,
         mapped ''observation_audit_payload'' SqlJSON False, mapped ''created_at'' SqlDateTime False],
      om_constraints =
        [UniqueConstraint [''command_id'', ''observation_version''] ''uq_outcome_observation_version'',
         UniqueConstraint [''command_id'', ''as_of_timestamp''] ''uq_outcome_observation_temporal'',
         ForeignKeyConstraint [''payment_attempt_id'', ''source_system''] ''payment_attempts'' [''payment_attempt_id'', ''source_system''] ''fk_payment_outcome_observations_payment_attempt'',
         ForeignKeyConstraint [''command_id'', ''source_system''] ''intervention_commands'' [''command_id'', ''source_system''] ''fk_observation_command''],
      om_indexes =
        [(''ix_obs_attempt_lookup'', [''payment_attempt_id'', ''as_of_timestamp''])]\<rparr>"

definition CounterfactualAttributionModel :: orm_model where
  "CounterfactualAttributionModel =
     \<lparr>om_tablename = ''counterfactual_attributions'',
      om_columns =
        [primary_key ''attribution_id'' SqlUUID, mapped ''command_id'' SqlUUID False,
         mapped ''payment_attempt_id'' (SqlString 255) False, mapped ''source_system'' (SqlString 50) False,
         mapped ''decision_id'' SqlUUID False, mapped ''attribution_version'' SqlInteger False,
         mapped ''attributed_at'' SqlDateTime False, mapped ''as_of_timestamp'' SqlDateTime False,
         mapped ''attribution_status'' (SqlString 50) False, mapped ''methodology_name'' (SqlString 50) False,
         mapped ''methodology_version'' (SqlString 50) False, mapped ''treatment_status'' (SqlString 30) False,
         mapped ''observed_payment_outcome'' (SqlString 30) False,
         mapped ''payment_amount_minor_units'' SqlInteger False,
         mapped ''counterfactual_failure_probability'' (SqlNumeric 6 4) True,
         mapped ''counterfactual_loss_exposure_minor_units'' SqlInteger False,
         mapped ''counterfactual_natural_success_gmv_minor_units'' SqlInteger False,
         mapped ''attributed_protected_gmv_minor_units'' SqlInteger False,
         mapped ''attribution_confidence'' (SqlNumeric 6 4) False,
         mapped ''is_synthetic_baseline'' SqlBoolean False, mapped ''is_simulated_execution'' SqlBoolean False,
         mapped ''attribution_audit_payload'' SqlJSON False, mapped ''created_at'' SqlDateTime False],
      om_constraints =
        [UniqueConstraint [''command_id'', ''attribution_version''] ''uq_attribution_version'',
         UniqueConstraint [''command_id'', ''as_of_timestamp''] ''uq_attribution_temporal'',
         ForeignKeyConstraint [''payment_attempt_id'', ''source_system''] ''payment_attempts'' [''payment_attempt_id'', ''source_system''] ''fk_counterfactual_attributions_payment_attempt'',
         ForeignKeyConstraint [''command_id'', ''source_system''] ''intervention_commands'' [''command_id'', ''source_system''] ''fk_attribution_command'',
         ForeignKeyConstraint [''decision_id'', ''source_system''] ''intervention_decisions'' [''decision_id'', ''source_system''] ''fk_attribution_decision''],
      om_indexes =
        [(''ix_attr_attempt_lookup'', [''payment_attempt_id'', ''as_of_timestamp'']),
         (''ix_attr_status'', [''attribution_status'', ''attributed_at''])]\<rparr>"

definition metadata :: "orm_model list" where
  "metadata =
     [RawIngestionRecordModel, PaymentEventModel, PaymentAttemptModel, PaymentHealthSnapshotModel,
      DegradationSignalModel, DegradationEpisodeModel, EpisodeStateHistoryModel, RCAEvaluationModel,
      CandidateCauseModel, FailurePredictionModel, InterventionDecisionModel, InterventionCommandModel,
      InterventionExecutionAttemptModel, PaymentOutcomeObservationModel, CounterfactualAttributionModel]"

text \<open>The schema that the models declare.\<close>

fun column_foreign_key :: "string \<Rightarrow> (string \<times> string \<times> string) option \<Rightarrow> table_constraint list" where
  "column_foreign_key c None = []"
| "column_foreign_key c (Some (t, r, n)) = [ForeignKeyConstraint [c] t [r] n]"

fun column_foreign_keys :: "orm_column list \<Rightarrow> table_constraint list" where
  "column_foreign_keys [] = []"
| "column_foreign_keys (c # cs) = column_foreign_key (co_name (oc_column c)) (oc_foreign_key c) @ column_foreign_keys cs"

definition table_of_model :: "orm_model \<Rightarrow> table_def" where
  "table_of_model m =
     \<lparr>td_name = om_tablename m,
      td_columns = map oc_column (om_columns m),
      td_constraints =
        PrimaryKeyConstraint (map (co_name \<circ> oc_column) (filter oc_primary_key (om_columns m))) #
        column_foreign_keys (om_columns m) @
        om_constraints m\<rparr>"

definition metadata_schema :: "orm_model list \<Rightarrow> db_schema" where
  "metadata_schema models =
     \<lparr>sc_tables = map table_of_model models,
      sc_indexes = concat (map (\<lambda>m. map (\<lambda>(n, cs). \<lparr>xd_name = n, xd_table = om_tablename m, xd_columns = cs\<rparr>)
        (om_indexes m)) models)\<rparr>"

section \<open>The revisions\<close>

datatype revision = Revision (rv_revision: string) (rv_down_revision: "string option")
  (rv_upgrade: "ddl list") (rv_downgrade: "ddl list")

text \<open>The revisions keep frozen copies of the check constraints.\<close>

definition MIGRATION_IDENTIFIER_PATTERN :: string where
  "MIGRATION_IDENTIFIER_PATTERN = ''^[A-Za-z0-9][A-Za-z0-9_-]{0,127}$''"

definition MIGRATION_SOURCE_SYSTEM_CHECK :: string where
  "MIGRATION_SOURCE_SYSTEM_CHECK =
     ''source_system IN ('' @ sql_quote ''razorpay'' @ '', '' @ sql_quote ''synthetic'' @ '', '' @
     sql_quote ''paypal'' @ '')''"

definition MIGRATION_NAMESPACE_CHECK :: string where
  "MIGRATION_NAMESPACE_CHECK =
     ''CASE WHEN source_system = '' @ sql_quote ''paypal'' @ '' '' @
     ''THEN provider_reference ~ '' @ sql_quote MIGRATION_IDENTIFIER_PATTERN @ '' '' @
     ''AND payment_attempt_id = '' @ sql_quote ''paypal-order:'' @ '' || provider_reference '' @
     ''ELSE provider_reference <> '' @ sql_quote [] @ '' AND payment_attempt_id = provider_reference '' @
     ''AND left(payment_attempt_id, 13) <> '' @ sql_quote ''paypal-order:'' @ '' END''"

definition EXPAND_STAGE5_8_TABLES :: "string list" where
  "EXPAND_STAGE5_8_TABLES =
     [''failure_predictions'', ''intervention_decisions'', ''intervention_commands'',
      ''payment_outcome_observations'', ''counterfactual_attributions'', ''intervention_execution_attempts'']"

definition CONTRACT_STAGE5_8_TABLES :: "string list" where
  "CONTRACT_STAGE5_8_TABLES =
     [''failure_predictions'', ''intervention_decisions'', ''intervention_commands'',
      ''intervention_execution_attempts'', ''payment_outcome_observations'', ''counterfactual_attributions'']"

definition CONTRACT_KEYED_TABLES :: "(string \<times> string) list" where
  "CONTRACT_KEYED_TABLES =
     [(''failure_predictions'', ''fk_failure_predictions_payment_attempt''),
      (''intervention_decisions'', ''fk_intervention_decisions_payment_attempt''),
      (''intervention_commands'', ''fk_intervention_commands_payment_attempt''),
      (''payment_outcome_observations'', ''fk_payment_outcome_observations_payment_attempt''),
      (''counterfactual_attributions'', ''fk_counterfactual_attributions_payment_attempt'')]"

definition upgrade_0e657951899f :: "ddl list" where
  "upgrade_0e657951899f =
     [CreateTable ''intervention_decisions''
        [column ''decision_id'' SqlUUID False, column ''payment_attempt_id'' (SqlString 255) False,
         column ''decision_version'' SqlInteger False, column ''decided_at'' SqlDateTime False,
         column ''decision_type'' (SqlString 20) False, column ''selected_route_id'' (SqlString 50) True,
         column ''failure_probability'' SqlFloat True, column ''stage5_prediction_id'' SqlUUID True,
         column ''diagnosis_confidence'' (SqlString 20) True, column ''decision_confidence'' SqlFloat False,
         column ''gate_verdict'' (SqlString 50) False, column ''policy_id'' (SqlString 50) False,
         column ''policy_version'' (SqlString 50) False, column ''input_fingerprint'' (SqlString 71) False,
         column ''evaluation_audit_payload'' SqlJSON False, column ''created_at'' SqlDateTime False]
        [PrimaryKeyConstraint [''decision_id''],
         UniqueConstraint [''payment_attempt_id'', ''decision_version''] ''uq_intervention_decision_version''],
      CreateIndex ''ix_intervention_decisions_attempt_lookup'' ''intervention_decisions'' [''payment_attempt_id'', ''decision_version''],
      CreateIndex ''ix_intervention_decisions_fingerprint'' ''intervention_decisions'' [''input_fingerprint''],
      CreateIndex ''ix_intervention_decisions_rate_limiting'' ''intervention_decisions'' [''decision_type'', ''decided_at''],
      CreateIndex ''ix_intervention_decisions_route_cooldown'' ''intervention_decisions'' [''payment_attempt_id'', ''selected_route_id'', ''decided_at'']]"

definition downgrade_0e657951899f :: "ddl list" where
  "downgrade_0e657951899f =
     [DropIndex ''ix_intervention_decisions_route_cooldown'' ''intervention_decisions'' False,
      DropIndex ''ix_intervention_decisions_rate_limiting'' ''intervention_decisions'' False,
      DropIndex ''ix_intervention_decisions_fingerprint'' ''intervention_decisions'' False,
      DropIndex ''ix_intervention_decisions_attempt_lookup'' ''intervention_decisions'' False,
      DropTable ''intervention_decisions'']"

definition upgrade_14693b56ff22 :: "ddl list" where
  "upgrade_14693b56ff22 =
     [CreateTable ''failure_predictions''
        [column ''prediction_id'' SqlUUID False, column ''payment_attempt_id'' (SqlString 255) False,
         column ''prediction_version'' SqlInteger False, column ''predicted_at'' SqlDateTime False,
         column ''prediction_horizon'' (SqlString 50) False, column ''failure_probability'' SqlFloat True,
         column ''risk_band'' (SqlString 20) True, column ''prediction_status'' (SqlString 20) False,
         column ''model_name'' (SqlString 100) False, column ''model_version'' (SqlString 50) False,
         column ''feature_schema_version'' (SqlString 50) False, column ''feature_snapshot'' SqlJSON False,
         column ''input_fingerprint'' (SqlString 71) False, column ''created_at'' SqlDateTime False]
        [PrimaryKeyConstraint [''prediction_id''],
         UniqueConstraint [''payment_attempt_id'', ''prediction_version''] ''uq_failure_prediction_version''],
      CreateIndex ''ix_payment_events_eligibility'' ''payment_events'' [''payment_id'', ''ingested_at''],
      CreateIndex ''ix_payment_events_hist_pm'' ''payment_events'' [''payment_method'', ''ingested_at'', ''event_type''],
      CreateIndex ''ix_payment_events_hist_bank'' ''payment_events'' [''bank'', ''ingested_at'', ''event_type''],
      CreateIndex ''ix_payment_events_hist_wallet'' ''payment_events'' [''wallet'', ''ingested_at'', ''event_type''],
      CreateIndex ''ix_payment_events_hist_curr'' ''payment_events'' [''currency'', ''ingested_at'', ''event_type''],
      CreateIndex ''ix_degradation_signals_stage3_as_of'' ''degradation_signals'' [''segment_dimension'', ''segment_value'', ''evaluation_timestamp''],
      CreateIndex ''ix_rca_evaluations_as_of'' ''rca_evaluations'' [''episode_id'', ''generated_at'', ''evaluation_version'']]"

definition downgrade_14693b56ff22 :: "ddl list" where
  "downgrade_14693b56ff22 =
     [DropIndex ''ix_rca_evaluations_as_of'' ''rca_evaluations'' False,
      DropIndex ''ix_degradation_signals_stage3_as_of'' ''degradation_signals'' False,
      DropIndex ''ix_payment_events_hist_curr'' ''payment_events'' False,
      DropIndex ''ix_payment_events_hist_wallet'' ''payment_events'' False,
      DropIndex ''ix_payment_events_hist_bank'' ''payment_events'' False,
      DropIndex ''ix_payment_events_hist_pm'' ''payment_events'' False,
      DropIndex ''ix_payment_events_eligibility'' ''payment_events'' False,
      DropTable ''failure_predictions'']"

definition upgrade_151b772aecb9 :: "ddl list" where
  "upgrade_151b772aecb9 =
     [CreateTable ''payment_health_snapshots''
        [column ''snapshot_id'' SqlUUID False, column ''window_start'' SqlDateTime False,
         column ''window_end'' SqlDateTime False, column ''segment_dimension'' (SqlString 50) False,
         column ''segment_value'' (SqlString 255) False, column ''transaction_count'' SqlInteger False,
         column ''successful_transaction_count'' SqlInteger False,
         column ''failed_transaction_count'' SqlInteger False, column ''success_rate'' SqlFloat True,
         column ''failure_rate'' SqlFloat True, column ''total_gmv_minor_units'' SqlInteger False,
         column ''successful_gmv_minor_units'' SqlInteger False,
         column ''failed_gmv_minor_units'' SqlInteger False, column ''baseline_success_rate'' SqlFloat True,
         column ''insufficient_volume'' SqlBoolean False, column ''calculated_at'' SqlDateTime False]
        [PrimaryKeyConstraint [''snapshot_id''],
         UniqueConstraint [''window_start'', ''window_end'', ''segment_dimension'', ''segment_value''] ''uq_snapshot_identity'']]"

definition downgrade_151b772aecb9 :: "ddl list" where
  "downgrade_151b772aecb9 =
     [DropTable ''payment_health_snapshots'']"

definition upgrade_5a6ff487fe3c :: "ddl list" where
  "upgrade_5a6ff487fe3c =
     [AddColumn ''payment_events'' (column ''payment_method'' (SqlString 50) True),
      AddColumn ''payment_events'' (column ''bank'' (SqlString 50) True),
      AddColumn ''payment_events'' (column ''wallet'' (SqlString 50) True)]"

definition downgrade_5a6ff487fe3c :: "ddl list" where
  "downgrade_5a6ff487fe3c =
     [DropColumn ''payment_events'' ''wallet'',
      DropColumn ''payment_events'' ''bank'',
      DropColumn ''payment_events'' ''payment_method'']"

definition upgrade_6b158741b993 :: "ddl list" where
  "upgrade_6b158741b993 =
     [CreateTable ''episode_state_history''
        [column ''history_id'' SqlUUID False, column ''reconciliation_run_id'' SqlUUID False,
         column ''episode_id'' SqlUUID False, column ''segment_dimension'' (SqlString 50) False,
         column ''segment_value'' (SqlString 255) False, column ''status'' (SqlString 20) False,
         column ''severity'' (SqlString 20) False, column ''effective_start_window'' SqlDateTime False,
         column ''evaluation_timestamp'' SqlDateTime False]
        [PrimaryKeyConstraint [''history_id'']],
      CreateIndex ''ix_episode_state_history_as_of'' ''episode_state_history'' [''segment_dimension'', ''segment_value'', ''evaluation_timestamp''],
      CreateIndex ''ix_episode_state_history_run'' ''episode_state_history'' [''reconciliation_run_id'']]"

definition downgrade_6b158741b993 :: "ddl list" where
  "downgrade_6b158741b993 =
     [DropTable ''episode_state_history'']"

definition upgrade_7a8b9c0d1e2f :: "ddl list" where
  "upgrade_7a8b9c0d1e2f =
     [CreateTable ''intervention_commands''
        [column ''command_id'' SqlUUID False, column ''decision_id'' SqlUUID False,
         column ''payment_attempt_id'' (SqlString 255) False, column ''decision_version'' SqlInteger False,
         column ''route_key'' (SqlString 50) False, column ''policy_id'' (SqlString 50) False,
         column ''policy_version'' (SqlString 50) False, column ''command_status'' (SqlString 20) False,
         column ''status_reason'' (SqlString 255) True, column ''idempotency_key'' (SqlString 100) False,
         column ''created_at'' SqlDateTime False, column ''expires_at'' SqlDateTime False,
         column ''updated_at'' SqlDateTime False]
        [PrimaryKeyConstraint [''command_id''],
         UniqueConstraint [''decision_id''] ''uq_cmd_decision'',
         UniqueConstraint [''idempotency_key''] ''uq_cmd_idempotency_key'',
         UniqueConstraint [''payment_attempt_id'', ''decision_version''] ''uq_cmd_attempt_version''],
      CreateIndex ''ix_cmd_status_expiry'' ''intervention_commands'' [''command_status'', ''expires_at''],
      CreateIndex ''ix_cmd_attempt_lookup'' ''intervention_commands'' [''payment_attempt_id'', ''created_at''],
      CreateTable ''intervention_execution_attempts''
        [column ''attempt_id'' SqlUUID False, column ''command_id'' SqlUUID False,
         column ''attempt_number'' SqlInteger False, column ''started_at'' SqlDateTime False,
         column ''completed_at'' SqlDateTime False, column ''duration_ms'' SqlInteger False,
         column ''execution_status'' (SqlString 20) False, column ''executor_name'' (SqlString 100) False,
         column ''is_simulation'' SqlBoolean False, column ''provider_action_type'' (SqlString 50) False,
         column ''provider_response_code'' (SqlString 50) True,
         column ''provider_response_payload'' SqlJSON False, column ''error_message'' (SqlString 1024) True,
         column ''created_at'' SqlDateTime False]
        [PrimaryKeyConstraint [''attempt_id''],
         UniqueConstraint [''command_id'', ''attempt_number''] ''uq_exec_attempt_number''],
      CreateIndex ''ix_exec_attempt_cmd'' ''intervention_execution_attempts'' [''command_id''],
      CreateTable ''payment_outcome_observations''
        [column ''observation_id'' SqlUUID False, column ''command_id'' SqlUUID False,
         column ''payment_attempt_id'' (SqlString 255) False, column ''observation_version'' SqlInteger False,
         column ''observed_at'' SqlDateTime False, column ''as_of_timestamp'' SqlDateTime False,
         column ''payment_outcome'' (SqlString 30) False, column ''terminal_event_id'' SqlUUID True,
         column ''terminal_event_type'' (SqlString 100) True,
         column ''terminal_event_timestamp'' SqlDateTime True, column ''time_to_outcome_ms'' SqlInteger True,
         column ''observation_audit_payload'' SqlJSON False, column ''created_at'' SqlDateTime False]
        [PrimaryKeyConstraint [''observation_id''],
         UniqueConstraint [''command_id'', ''observation_version''] ''uq_outcome_observation_version'',
         UniqueConstraint [''command_id'', ''as_of_timestamp''] ''uq_outcome_observation_temporal''],
      CreateIndex ''ix_obs_attempt_lookup'' ''payment_outcome_observations'' [''payment_attempt_id'', ''as_of_timestamp'']]"

definition downgrade_7a8b9c0d1e2f :: "ddl list" where
  "downgrade_7a8b9c0d1e2f =
     [DropIndex ''ix_obs_attempt_lookup'' ''payment_outcome_observations'' False,
      DropTable ''payment_outcome_observations'',
      DropIndex ''ix_exec_attempt_cmd'' ''intervention_execution_attempts'' False,
      DropTable ''intervention_execution_attempts'',
      DropIndex ''ix_cmd_attempt_lookup'' ''intervention_commands'' False,
      DropIndex ''ix_cmd_status_expiry'' ''intervention_commands'' False,
      DropTable ''intervention_commands'']"

definition upgrade_8b9c0d1e2f3a :: "ddl list" where
  "upgrade_8b9c0d1e2f3a =
     [CreateTable ''counterfactual_attributions''
        [column ''attribution_id'' SqlUUID False, column ''command_id'' SqlUUID False,
         column ''payment_attempt_id'' (SqlString 255) False, column ''decision_id'' SqlUUID False,
         column ''attribution_version'' SqlInteger False, column ''attributed_at'' SqlDateTime False,
         column ''as_of_timestamp'' SqlDateTime False, column ''attribution_status'' (SqlString 50) False,
         column ''methodology_name'' (SqlString 50) False, column ''methodology_version'' (SqlString 50) False,
         column ''treatment_status'' (SqlString 30) False,
         column ''observed_payment_outcome'' (SqlString 30) False,
         column ''payment_amount_minor_units'' SqlInteger False,
         column ''counterfactual_failure_probability'' (SqlNumeric 6 4) True,
         column ''counterfactual_loss_exposure_minor_units'' SqlInteger False,
         column ''counterfactual_natural_success_gmv_minor_units'' SqlInteger False,
         column ''attributed_protected_gmv_minor_units'' SqlInteger False,
         column ''attribution_confidence'' (SqlNumeric 6 4) False,
         column ''is_synthetic_baseline'' SqlBoolean False, column ''is_simulated_execution'' SqlBoolean False,
         column ''attribution_audit_payload'' SqlJSON False, column ''created_at'' SqlDateTime False]
        [PrimaryKeyConstraint [''attribution_id''],
         ForeignKeyConstraint [''command_id''] ''intervention_commands'' [''command_id''] ''fk_attribution_command'',
         ForeignKeyConstraint [''decision_id''] ''intervention_decisions'' [''decision_id''] ''fk_attribution_decision'',
         UniqueConstraint [''command_id'', ''attribution_version''] ''uq_attribution_version'',
         UniqueConstraint [''command_id'', ''as_of_timestamp''] ''uq_attribution_temporal''],
      CreateIndex ''ix_attr_attempt_lookup'' ''counterfactual_attributions'' [''payment_attempt_id'', ''as_of_timestamp''],
      CreateIndex ''ix_attr_status'' ''counterfactual_attributions'' [''attribution_status'', ''attributed_at'']]"

definition downgrade_8b9c0d1e2f3a :: "ddl list" where
  "downgrade_8b9c0d1e2f3a =
     [DropIndex ''ix_attr_status'' ''counterfactual_attributions'' True,
      DropIndex ''ix_attr_attempt_lookup'' ''counterfactual_attributions'' True,
      DropTable ''counterfactual_attributions'']"

definition upgrade_9d2e4f6a8b1c :: "ddl list" where
  "upgrade_9d2e4f6a8b1c =
     [CreateConstraint ''payment_events'' (UniqueConstraint [''event_id'', ''source_system''] ''uq_payment_event_provider''),
      CreateIndex ''ix_payment_events_provider_order'' ''payment_events'' [''source_system'', ''order_id'', ''ingested_at''],
      CreateTable ''payment_attempts''
        [column ''payment_attempt_id'' (SqlString 255) False, column ''source_system'' (SqlString 50) False,
         column ''provider_reference'' (SqlString 255) False, column ''trigger_event_id'' SqlUUID False,
         column ''registered_at'' SqlDateTime False]
        [PrimaryKeyConstraint [''payment_attempt_id''],
         UniqueConstraint [''payment_attempt_id'', ''source_system''] ''uq_payment_attempt_provider'',
         UniqueConstraint [''source_system'', ''provider_reference''] ''uq_payment_attempt_reference'',
         CheckConstraint MIGRATION_SOURCE_SYSTEM_CHECK ''ck_payment_attempt_source_system'',
         CheckConstraint MIGRATION_NAMESPACE_CHECK ''ck_payment_attempt_namespace'',
         ForeignKeyConstraint [''trigger_event_id'', ''source_system''] ''payment_events'' [''event_id'', ''source_system''] ''fk_payment_attempt_trigger'']] @
     map (\<lambda>table. AddColumn table (column ''source_system'' (SqlString 50) True)) EXPAND_STAGE5_8_TABLES"

definition downgrade_9d2e4f6a8b1c :: "ddl list" where
  "downgrade_9d2e4f6a8b1c =
     map (\<lambda>table. DropColumn table ''source_system'') (rev EXPAND_STAGE5_8_TABLES) @
     [DropTable ''payment_attempts'',
      DropIndex ''ix_payment_events_provider_order'' ''payment_events'' False,
      DropConstraint ''payment_events'' ''uq_payment_event_provider'']"

definition upgrade_abd7b5ce088a :: "ddl list" where
  "upgrade_abd7b5ce088a =
     [CreateTable ''degradation_signals''
        [column ''signal_id'' SqlUUID False, column ''snapshot_id'' SqlUUID False,
         column ''segment_dimension'' (SqlString 50) False, column ''segment_value'' (SqlString 255) False,
         column ''window_start'' SqlDateTime False, column ''evaluation_version'' SqlInteger False,
         column ''signal_type'' (SqlString 20) False, column ''baseline_success_rate'' SqlFloat True,
         column ''absolute_drop'' SqlFloat True, column ''relative_drop'' SqlFloat True,
         column ''evaluation_timestamp'' SqlDateTime False]
        [PrimaryKeyConstraint [''signal_id''],
         UniqueConstraint [''segment_dimension'', ''segment_value'', ''window_start'', ''evaluation_version''] ''uq_signal_evaluation_version''],
      CreateTable ''degradation_episodes''
        [column ''episode_id'' SqlUUID False, column ''segment_dimension'' (SqlString 50) False,
         column ''segment_value'' (SqlString 255) False, column ''started_at_window'' SqlDateTime False,
         column ''ended_at_window'' SqlDateTime True, column ''status'' (SqlString 20) False,
         column ''peak_absolute_drop'' SqlFloat False, column ''affected_window_count'' SqlInteger False,
         column ''severity'' (SqlString 20) False]
        [PrimaryKeyConstraint [''episode_id'']]]"

definition downgrade_abd7b5ce088a :: "ddl list" where
  "downgrade_abd7b5ce088a =
     [DropTable ''degradation_episodes'',
      DropTable ''degradation_signals'']"

definition upgrade_c9f1e2d3a4b5 :: "ddl list" where
  "upgrade_c9f1e2d3a4b5 =
     [CreateIndex ''idx_payment_events_timestamp_event_type'' ''payment_events'' [''timestamp'', ''event_type''],
      CreateTable ''rca_evaluations''
        [column ''evaluation_id'' SqlUUID False, column ''episode_id'' SqlUUID False,
         column ''evaluation_version'' SqlInteger False, column ''classification'' (SqlString 20) False,
         column ''analysis_window_start'' SqlDateTime False, column ''analysis_window_end'' SqlDateTime False,
         column ''input_fingerprint'' (SqlString 71) False, column ''generated_at'' SqlDateTime False,
         column ''evidence_audit_payload'' SqlJSON False]
        [PrimaryKeyConstraint [''evaluation_id''],
         UniqueConstraint [''episode_id'', ''evaluation_version''] ''uq_rca_evaluation_version''],
      CreateTable ''rca_candidate_causes''
        [column ''candidate_id'' SqlUUID False, column ''evaluation_id'' SqlUUID False,
         column ''candidate_dimension'' (SqlString 50) False, column ''candidate_value'' (SqlString 255) False,
         column ''evidence_strength'' (SqlString 20) False,
         column ''excess_failure_contribution'' SqlFloat False,
         column ''actual_segment_failures'' SqlInteger False,
         column ''expected_segment_failures'' SqlFloat False, column ''excess_segment_failures'' SqlFloat False,
         column ''rank'' SqlInteger False]
        [PrimaryKeyConstraint [''candidate_id''],
         ForeignKeyConstraint [''evaluation_id''] ''rca_evaluations'' [''evaluation_id''] ''fk_candidate_cause_evaluation'']]"

definition downgrade_c9f1e2d3a4b5 :: "ddl list" where
  "downgrade_c9f1e2d3a4b5 =
     [DropTable ''rca_candidate_causes'',
      DropTable ''rca_evaluations'',
      DropIndex ''idx_payment_events_timestamp_event_type'' ''payment_events'' False]"

definition upgrade_e2d3c4b5a6f7 :: "ddl list" where
  "upgrade_e2d3c4b5a6f7 =
     [DropConstraint ''failure_predictions'' ''uq_failure_prediction_version'',
      DropConstraint ''intervention_decisions'' ''uq_intervention_decision_version'',
      DropConstraint ''intervention_commands'' ''uq_cmd_attempt_version''] @
     map (\<lambda>table. AlterNullable table ''source_system'' False) CONTRACT_STAGE5_8_TABLES @
     [CreateConstraint ''failure_predictions'' (UniqueConstraint [''payment_attempt_id'', ''source_system'', ''prediction_version''] ''uq_failure_prediction_version''),
      CreateConstraint ''intervention_decisions'' (UniqueConstraint [''payment_attempt_id'', ''source_system'', ''decision_version''] ''uq_intervention_decision_version''),
      CreateConstraint ''intervention_commands'' (UniqueConstraint [''payment_attempt_id'', ''source_system'', ''decision_version''] ''uq_cmd_attempt_version''),
      CreateConstraint ''failure_predictions'' (UniqueConstraint [''prediction_id'', ''source_system''] ''uq_failure_prediction_provider''),
      CreateConstraint ''intervention_decisions'' (UniqueConstraint [''decision_id'', ''source_system''] ''uq_intervention_decision_provider''),
      CreateConstraint ''intervention_commands'' (UniqueConstraint [''command_id'', ''source_system''] ''uq_cmd_provider'')] @
     map (\<lambda>(table, fk_name). CreateConstraint table (ForeignKeyConstraint [''payment_attempt_id'', ''source_system''] ''payment_attempts'' [''payment_attempt_id'', ''source_system''] fk_name)) CONTRACT_KEYED_TABLES @
     [DropConstraint ''counterfactual_attributions'' ''fk_attribution_command'',
      DropConstraint ''counterfactual_attributions'' ''fk_attribution_decision'',
      CreateConstraint ''counterfactual_attributions'' (ForeignKeyConstraint [''command_id'', ''source_system''] ''intervention_commands'' [''command_id'', ''source_system''] ''fk_attribution_command''),
      CreateConstraint ''counterfactual_attributions'' (ForeignKeyConstraint [''decision_id'', ''source_system''] ''intervention_decisions'' [''decision_id'', ''source_system''] ''fk_attribution_decision''),
      CreateConstraint ''intervention_commands'' (ForeignKeyConstraint [''decision_id'', ''source_system''] ''intervention_decisions'' [''decision_id'', ''source_system''] ''fk_command_decision''),
      CreateConstraint ''intervention_execution_attempts'' (ForeignKeyConstraint [''command_id'', ''source_system''] ''intervention_commands'' [''command_id'', ''source_system''] ''fk_exec_attempt_command''),
      CreateConstraint ''payment_outcome_observations'' (ForeignKeyConstraint [''command_id'', ''source_system''] ''intervention_commands'' [''command_id'', ''source_system''] ''fk_observation_command'')]"

definition downgrade_e2d3c4b5a6f7 :: "ddl list" where
  "downgrade_e2d3c4b5a6f7 =
     [DropConstraint ''payment_outcome_observations'' ''fk_observation_command'',
      DropConstraint ''intervention_execution_attempts'' ''fk_exec_attempt_command'',
      DropConstraint ''intervention_commands'' ''fk_command_decision'',
      DropConstraint ''counterfactual_attributions'' ''fk_attribution_decision'',
      DropConstraint ''counterfactual_attributions'' ''fk_attribution_command'',
      CreateConstraint ''counterfactual_attributions'' (ForeignKeyConstraint [''command_id''] ''intervention_commands'' [''command_id''] ''fk_attribution_command''),
      CreateConstraint ''counterfactual_attributions'' (ForeignKeyConstraint [''decision_id''] ''intervention_decisions'' [''decision_id''] ''fk_attribution_decision'')] @
     map (\<lambda>(table, fk_name). DropConstraint table fk_name) (rev CONTRACT_KEYED_TABLES) @
     [DropConstraint ''intervention_commands'' ''uq_cmd_provider'',
      DropConstraint ''intervention_decisions'' ''uq_intervention_decision_provider'',
      DropConstraint ''failure_predictions'' ''uq_failure_prediction_provider'',
      DropConstraint ''intervention_commands'' ''uq_cmd_attempt_version'',
      DropConstraint ''intervention_decisions'' ''uq_intervention_decision_version'',
      DropConstraint ''failure_predictions'' ''uq_failure_prediction_version'',
      CreateConstraint ''failure_predictions'' (UniqueConstraint [''payment_attempt_id'', ''prediction_version''] ''uq_failure_prediction_version''),
      CreateConstraint ''intervention_decisions'' (UniqueConstraint [''payment_attempt_id'', ''decision_version''] ''uq_intervention_decision_version''),
      CreateConstraint ''intervention_commands'' (UniqueConstraint [''payment_attempt_id'', ''decision_version''] ''uq_cmd_attempt_version'')] @
     map (\<lambda>table. AlterNullable table ''source_system'' True) (rev CONTRACT_STAGE5_8_TABLES)"

definition upgrade_ed7e2117b4b1 :: "ddl list" where
  "upgrade_ed7e2117b4b1 =
     [CreateTable ''payment_events''
        [column ''event_id'' SqlUUID False, column ''source_system'' (SqlString 50) False,
         column ''source_event_id'' (SqlString 255) False, column ''payment_id'' (SqlString 255) False,
         column ''order_id'' (SqlString 255) True, column ''timestamp'' SqlDateTime False,
         column ''event_type'' (SqlString 100) False, column ''currency'' (SqlString 3) False,
         column ''amount_minor_units'' SqlInteger False, column ''payment_status'' (SqlString 50) False,
         column ''error_code'' (SqlString 255) True, column ''error_description'' (SqlString 1024) True,
         column ''error_source'' (SqlString 255) True, column ''error_step'' (SqlString 255) True,
         column ''error_reason'' (SqlString 255) True, column ''ingested_at'' SqlDateTime False]
        [PrimaryKeyConstraint [''event_id''],
         UniqueConstraint [''source_system'', ''source_event_id''] ''uq_payment_event_source_identity''],
      CreateTable ''raw_ingestion_records''
        [column ''id'' SqlUUID False, column ''source_system'' (SqlString 50) False,
         column ''source_event_id'' (SqlString 255) False, column ''received_at'' SqlDateTime False,
         column ''raw_payload'' SqlJSON False, column ''payload_hash'' (SqlString 64) False]
        [PrimaryKeyConstraint [''id''],
         UniqueConstraint [''source_system'', ''source_event_id''] ''uq_raw_ingestion_source_identity'']]"

definition downgrade_ed7e2117b4b1 :: "ddl list" where
  "downgrade_ed7e2117b4b1 =
     [DropTable ''raw_ingestion_records'',
      DropTable ''payment_events'']"

definition versions :: "revision list" where
  "versions =
     [Revision ''0e657951899f'' (Some ''6b158741b993'') upgrade_0e657951899f downgrade_0e657951899f,
      Revision ''14693b56ff22'' (Some ''c9f1e2d3a4b5'') upgrade_14693b56ff22 downgrade_14693b56ff22,
      Revision ''151b772aecb9'' (Some ''5a6ff487fe3c'') upgrade_151b772aecb9 downgrade_151b772aecb9,
      Revision ''5a6ff487fe3c'' (Some ''ed7e2117b4b1'') upgrade_5a6ff487fe3c downgrade_5a6ff487fe3c,
      Revision ''6b158741b993'' (Some ''14693b56ff22'') upgrade_6b158741b993 downgrade_6b158741b993,
      Revision ''7a8b9c0d1e2f'' (Some ''0e657951899f'') upgrade_7a8b9c0d1e2f downgrade_7a8b9c0d1e2f,
      Revision ''8b9c0d1e2f3a'' (Some ''7a8b9c0d1e2f'') upgrade_8b9c0d1e2f3a downgrade_8b9c0d1e2f3a,
      Revision ''9d2e4f6a8b1c'' (Some ''8b9c0d1e2f3a'') upgrade_9d2e4f6a8b1c downgrade_9d2e4f6a8b1c,
      Revision ''abd7b5ce088a'' (Some ''151b772aecb9'') upgrade_abd7b5ce088a downgrade_abd7b5ce088a,
      Revision ''c9f1e2d3a4b5'' (Some ''abd7b5ce088a'') upgrade_c9f1e2d3a4b5 downgrade_c9f1e2d3a4b5,
      Revision ''e2d3c4b5a6f7'' (Some ''9d2e4f6a8b1c'') upgrade_e2d3c4b5a6f7 downgrade_e2d3c4b5a6f7,
      Revision ''ed7e2117b4b1'' None upgrade_ed7e2117b4b1 downgrade_ed7e2117b4b1]"

text \<open>The chain of revisions from one on, by \<open>down_revision\<close>; the first argument bounds its length.\<close>

fun upgrade_path :: "nat \<Rightarrow> revision list \<Rightarrow> string option \<Rightarrow> revision list" where
  "upgrade_path 0 revisions applied = []"
| "upgrade_path (Suc n) revisions applied =
     (case find (\<lambda>r. rv_down_revision r = applied) revisions of
        None \<Rightarrow> []
      | Some r \<Rightarrow> r # upgrade_path n revisions (Some (rv_revision r)))"

definition revision_chain :: "revision list" where
  "revision_chain = upgrade_path (length versions) versions None"

definition upgrade_through :: "nat \<Rightarrow> (ddl_error, db_schema) result" where
  "upgrade_through n = fold_result (run_ddl \<circ> rv_upgrade) (take n revision_chain) empty_schema"

definition downgrade_to :: "nat \<Rightarrow> nat \<Rightarrow> db_schema \<Rightarrow> (ddl_error, db_schema) result" where
  "downgrade_to n m s = fold_result (run_ddl \<circ> rv_downgrade) (rev (drop m (take n revision_chain))) s"

text \<open>Up to the order of tables, columns, constraints and indexes.\<close>

fun elements_in :: "'a list \<Rightarrow> 'a list \<Rightarrow> bool" where
  "elements_in [] ys = True"
| "elements_in (x # xs) ys = (x \<in> set ys \<and> elements_in xs ys)"

definition same_elements :: "'a list \<Rightarrow> 'a list \<Rightarrow> bool" where
  "same_elements xs ys \<longleftrightarrow> length xs = length ys \<and> elements_in xs ys \<and> elements_in ys xs"

definition same_table :: "table_def \<Rightarrow> table_def \<Rightarrow> bool" where
  "same_table d1 d2 \<longleftrightarrow>
     td_name d1 = td_name d2 \<and> same_elements (td_columns d1) (td_columns d2) \<and>
     same_elements (td_constraints d1) (td_constraints d2)"

fun tables_in :: "table_def list \<Rightarrow> table_def list \<Rightarrow> bool" where
  "tables_in [] es = True"
| "tables_in (d # ds) es = (same_table d (table_named (td_name d) es) \<and> tables_in ds es)"

definition same_schema :: "db_schema \<Rightarrow> db_schema \<Rightarrow> bool" where
  "same_schema s1 s2 \<longleftrightarrow>
     length (sc_tables s1) = length (sc_tables s2) \<and> tables_in (sc_tables s1) (sc_tables s2) \<and>
     tables_in (sc_tables s2) (sc_tables s1) \<and> same_elements (sc_indexes s1) (sc_indexes s2)"

text \<open>What the repositories name in \<open>ON CONFLICT\<close>; PostgreSQL accepts only the columns of a unique key there.\<close>

definition conflict_targets :: "(string \<times> string list) list" where
  "conflict_targets =
     [(''payment_health_snapshots'', [''window_start'', ''window_end'', ''segment_dimension'', ''segment_value'']),
      (''degradation_episodes'', [''episode_id'']),
      (''payment_attempts'', [''payment_attempt_id''])]"

fun targets_are_keys :: "(string \<times> string list) list \<Rightarrow> db_schema \<Rightarrow> bool" where
  "targets_are_keys [] s = True"
| "targets_are_keys ((t, cs) # ts) s = (among_keys cs (keys_of (the_table t s)) \<and> targets_are_keys ts s)"

text \<open>Whether downgrading from revision \<open>n\<close> to \<open>m\<close> restores the schema that upgrading to \<open>m\<close> makes.\<close>

definition restored :: "nat \<Rightarrow> nat \<Rightarrow> bool" where
  "restored n m =
     (case upgrade_through m of
        Inl e \<Rightarrow> False
      | Inr s \<Rightarrow> (case bind_result (upgrade_through n) (downgrade_to n m) of Inl e \<Rightarrow> False | Inr s' \<Rightarrow> same_schema s' s))"

section \<open>Running the revisions\<close>

lemma revision_chain_eq:
  "revision_chain =
     [Revision ''ed7e2117b4b1'' None upgrade_ed7e2117b4b1 downgrade_ed7e2117b4b1,
      Revision ''5a6ff487fe3c'' (Some ''ed7e2117b4b1'') upgrade_5a6ff487fe3c downgrade_5a6ff487fe3c,
      Revision ''151b772aecb9'' (Some ''5a6ff487fe3c'') upgrade_151b772aecb9 downgrade_151b772aecb9,
      Revision ''abd7b5ce088a'' (Some ''151b772aecb9'') upgrade_abd7b5ce088a downgrade_abd7b5ce088a,
      Revision ''c9f1e2d3a4b5'' (Some ''abd7b5ce088a'') upgrade_c9f1e2d3a4b5 downgrade_c9f1e2d3a4b5,
      Revision ''14693b56ff22'' (Some ''c9f1e2d3a4b5'') upgrade_14693b56ff22 downgrade_14693b56ff22,
      Revision ''6b158741b993'' (Some ''14693b56ff22'') upgrade_6b158741b993 downgrade_6b158741b993,
      Revision ''0e657951899f'' (Some ''6b158741b993'') upgrade_0e657951899f downgrade_0e657951899f,
      Revision ''7a8b9c0d1e2f'' (Some ''0e657951899f'') upgrade_7a8b9c0d1e2f downgrade_7a8b9c0d1e2f,
      Revision ''8b9c0d1e2f3a'' (Some ''7a8b9c0d1e2f'') upgrade_8b9c0d1e2f3a downgrade_8b9c0d1e2f3a,
      Revision ''9d2e4f6a8b1c'' (Some ''8b9c0d1e2f3a'') upgrade_9d2e4f6a8b1c downgrade_9d2e4f6a8b1c,
      Revision ''e2d3c4b5a6f7'' (Some ''9d2e4f6a8b1c'') upgrade_e2d3c4b5a6f7 downgrade_e2d3c4b5a6f7]"
  by (simp add: revision_chain_def versions_def)

lemma length_revision_chain: "length revision_chain = 12" "length versions = 12"
  by (simp_all add: revision_chain_eq versions_def)

lemmas revision_defs =
  upgrade_ed7e2117b4b1_def downgrade_ed7e2117b4b1_def upgrade_5a6ff487fe3c_def downgrade_5a6ff487fe3c_def
  upgrade_151b772aecb9_def downgrade_151b772aecb9_def upgrade_abd7b5ce088a_def downgrade_abd7b5ce088a_def
  upgrade_c9f1e2d3a4b5_def downgrade_c9f1e2d3a4b5_def upgrade_14693b56ff22_def downgrade_14693b56ff22_def
  upgrade_6b158741b993_def downgrade_6b158741b993_def upgrade_0e657951899f_def downgrade_0e657951899f_def
  upgrade_7a8b9c0d1e2f_def downgrade_7a8b9c0d1e2f_def upgrade_8b9c0d1e2f3a_def downgrade_8b9c0d1e2f3a_def
  upgrade_9d2e4f6a8b1c_def downgrade_9d2e4f6a8b1c_def upgrade_e2d3c4b5a6f7_def downgrade_e2d3c4b5a6f7_def

lemmas table_lists = column_def EXPAND_STAGE5_8_TABLES_def CONTRACT_STAGE5_8_TABLES_def CONTRACT_KEYED_TABLES_def

lemmas model_defs = metadata_schema_def metadata_def table_of_model_def orm_model.simps orm_column.simps mapped_def
  primary_key_def column_foreign_key.simps column_foreign_keys.simps o_def
  RawIngestionRecordModel_def PaymentEventModel_def PaymentAttemptModel_def PaymentHealthSnapshotModel_def
  DegradationSignalModel_def DegradationEpisodeModel_def EpisodeStateHistoryModel_def RCAEvaluationModel_def
  CandidateCauseModel_def FailurePredictionModel_def InterventionDecisionModel_def InterventionCommandModel_def
  InterventionExecutionAttemptModel_def PaymentOutcomeObservationModel_def CounterfactualAttributionModel_def

lemmas schema_eq_eval = same_schema_def same_table_def tables_in.simps same_elements_def elements_in.simps
  column.ext_inject index_def.ext_inject table_constraint.inject table_constraint.distinct nat.inject list.size(3)
  PAYMENT_ATTEMPT_SOURCE_SYSTEM_CHECK_def PAYMENT_ATTEMPT_NAMESPACE_CHECK_def MIGRATION_SOURCE_SYSTEM_CHECK_def
  MIGRATION_NAMESPACE_CHECK_def PAYPAL_IDENTIFIER_PATTERN_def MIGRATION_IDENTIFIER_PATTERN_def

lemma length_eval: "length (x # xs) = Suc (length xs)" by simp

lemma bind_eval: "bind_result (Inr a) f = f a" by simp

lemma upgrade_eval:
  "fold_result (run_ddl \<circ> f) [] s = Inr s"
  "fold_result (run_ddl \<circ> f) (r # rs) s = bind_result (run_ddl (f r) s) (fold_result (run_ddl \<circ> f) rs)"
  by simp_all

lemma elements_in_refl: "elements_in xs xs"
proof -
  have "elements_in xs ys" if "set xs \<subseteq> set ys" for ys :: "'a list" using that by (induction xs) auto
  then show ?thesis by simp
qed

lemma same_refl: "same_table d d = True" "same_elements xs xs = True"
  by (simp_all add: same_table_def same_elements_def elements_in_refl)

text \<open>All revisions, on the empty database.\<close>

lemma upgrade_evaluated:
  "case fold_result (run_ddl \<circ> rv_upgrade) revision_chain empty_schema of
     Inl e \<Rightarrow> False
   | Inr s \<Rightarrow> same_schema s (metadata_schema metadata) \<and> targets_are_keys conflict_targets s"
  unfolding revision_chain_eq upgrade_eval revision.sel
  apply (simp only: ddl_eval table_lists revision_defs bind_eval)
  apply (simp only: ddl_eval table_lists schema_eq_eval model_defs length_eval conflict_targets_def targets_are_keys.simps)
  done

text \<open>Each revision but the last is undone exactly; the last restores constraints in another order.\<close>

fun undone :: "revision list \<Rightarrow> db_schema \<Rightarrow> bool" where
  "undone [] s = True"
| "undone (r # rs) s =
     (case run_ddl (rv_upgrade r) s of
        Inl e \<Rightarrow> False
      | Inr s' \<Rightarrow> run_ddl (rv_downgrade r) s' = Inr s \<and> undone rs s')"

fun trail :: "('a \<Rightarrow> 's \<Rightarrow> ('e, 's) result) \<Rightarrow> 'a list \<Rightarrow> 's \<Rightarrow> 's list" where
  "trail f [] s = [s]"
| "trail f (x # xs) s = s # (case f x s of Inl e \<Rightarrow> [] | Inr s' \<Rightarrow> trail f xs s')"

fun all_same :: "db_schema list \<Rightarrow> db_schema list \<Rightarrow> bool" where
  "all_same [] [] = True"
| "all_same (x # xs) (y # ys) = (same_schema x y \<and> all_same xs ys)"
| "all_same [] (y # ys) = False"
| "all_same (x # xs) [] = False"

fun walks_back :: "revision list \<Rightarrow> db_schema list \<Rightarrow> bool" where
  "walks_back rs [] = False"
| "walks_back rs (s # ss) = all_same (trail (run_ddl \<circ> rv_downgrade) rs s) (s # ss)"

lemma trail_eval:
  "trail (run_ddl \<circ> f) [] s = [s]"
  "trail (run_ddl \<circ> f) (x # xs) s = s # (case run_ddl (f x) s of Inl e \<Rightarrow> [] | Inr s' \<Rightarrow> trail (run_ddl \<circ> f) xs s')"
  by simp_all

lemma undone_evaluated: "undone (take 11 revision_chain) empty_schema"
proof -
  have chain: "take 11 revision_chain =
     [Revision ''ed7e2117b4b1'' None upgrade_ed7e2117b4b1 downgrade_ed7e2117b4b1,
      Revision ''5a6ff487fe3c'' (Some ''ed7e2117b4b1'') upgrade_5a6ff487fe3c downgrade_5a6ff487fe3c,
      Revision ''151b772aecb9'' (Some ''5a6ff487fe3c'') upgrade_151b772aecb9 downgrade_151b772aecb9,
      Revision ''abd7b5ce088a'' (Some ''151b772aecb9'') upgrade_abd7b5ce088a downgrade_abd7b5ce088a,
      Revision ''c9f1e2d3a4b5'' (Some ''abd7b5ce088a'') upgrade_c9f1e2d3a4b5 downgrade_c9f1e2d3a4b5,
      Revision ''14693b56ff22'' (Some ''c9f1e2d3a4b5'') upgrade_14693b56ff22 downgrade_14693b56ff22,
      Revision ''6b158741b993'' (Some ''14693b56ff22'') upgrade_6b158741b993 downgrade_6b158741b993,
      Revision ''0e657951899f'' (Some ''6b158741b993'') upgrade_0e657951899f downgrade_0e657951899f,
      Revision ''7a8b9c0d1e2f'' (Some ''0e657951899f'') upgrade_7a8b9c0d1e2f downgrade_7a8b9c0d1e2f,
      Revision ''8b9c0d1e2f3a'' (Some ''7a8b9c0d1e2f'') upgrade_8b9c0d1e2f3a downgrade_8b9c0d1e2f3a,
      Revision ''9d2e4f6a8b1c'' (Some ''8b9c0d1e2f3a'') upgrade_9d2e4f6a8b1c downgrade_9d2e4f6a8b1c]"
    by (simp add: revision_chain_eq)
  show ?thesis
    unfolding chain
    by (simp only: ddl_eval table_lists revision_defs undone.simps revision.sel sum.inject)
qed

lemma walks_back_evaluated:
  "walks_back (rev revision_chain) (rev (trail (run_ddl \<circ> rv_upgrade) revision_chain empty_schema))"
  unfolding revision_chain_eq
  by (simp only: ddl_eval table_lists revision_defs schema_eq_eval length_eval trail_eval walks_back.simps all_same.simps
      same_refl revision.sel)

section \<open>The schema of every revision\<close>

lemma fold_result_prefix:
  "fold_result f xs s = Inr t \<Longrightarrow> \<exists>u. fold_result f (take n xs) s = Inr u"
  using fold_result_append[of f "take n xs" "drop n xs" s]
  by (cases "fold_result f (take n xs) s") simp_all

lemma fold_run_wf: "fold_result (run_ddl \<circ> g) rs s = Inr s' \<Longrightarrow> wf_schema s \<Longrightarrow> wf_schema s'"
  by (induction rs arbitrary: s) (auto simp: bind_result_Inr dest: run_ddl_wf)

lemma upgrade_through_succeeds: "\<exists>s. upgrade_through n = Inr s \<and> wf_schema s"
proof -
  obtain s where "fold_result (run_ddl \<circ> rv_upgrade) revision_chain empty_schema = Inr s"
    using upgrade_evaluated by (auto split: sum.splits)
  from fold_result_prefix[OF this] show ?thesis
    using fold_run_wf empty_schema_wf unfolding upgrade_through_def by metis
qed

text \<open>C38: The revisions build what the models declare. Every file under \<open>migrations/versions/\<close> is in the chain of
  \<open>down_revision\<close> exactly once, no statement of any upgrade is refused, the schema after each revision is
  well-formed, and after the last one it is that of the models: the same tables, columns with types and
  nullability, keys, foreign keys, checks and indexes, up to their order. The columns that the repositories name in
  \<open>ON CONFLICT\<close> are keys of it.\<close>

theorem migrations_build_the_models:
  "distinct revision_chain \<and> set revision_chain = set versions \<and>
   list_all (\<lambda>n. case upgrade_through n of Inl e \<Rightarrow> False | Inr s \<Rightarrow> wf_schema s) [0..<Suc (length versions)] \<and>
   (case upgrade_through (length versions) of
      Inl e \<Rightarrow> False
    | Inr s \<Rightarrow> same_schema s (metadata_schema metadata) \<and> targets_are_keys conflict_targets s)"
proof (intro conjI)
  show "distinct revision_chain" by (simp add: revision_chain_eq)
  show "set revision_chain = set versions" unfolding revision_chain_eq versions_def by auto
  show "list_all (\<lambda>n. case upgrade_through n of Inl e \<Rightarrow> False | Inr s \<Rightarrow> wf_schema s) [0..<Suc (length versions)]"
    unfolding list_all_iff
  proof
    fix n show "case upgrade_through n of Inl e \<Rightarrow> False | Inr s \<Rightarrow> wf_schema s" using upgrade_through_succeeds[of n] by auto
  qed
  show "case upgrade_through (length versions) of
      Inl e \<Rightarrow> False | Inr s \<Rightarrow> same_schema s (metadata_schema metadata) \<and> targets_are_keys conflict_targets s"
    using upgrade_evaluated by (simp add: upgrade_through_def length_revision_chain)
qed

section \<open>Downgrades\<close>

lemma undone_step:
  assumes "undone rs s0" "k < length rs"
  shows "\<exists>s s'. fold_result (run_ddl \<circ> rv_upgrade) (take k rs) s0 = Inr s \<and> run_ddl (rv_upgrade (rs ! k)) s = Inr s' \<and>
    run_ddl (rv_downgrade (rs ! k)) s' = Inr s"
  using assms
proof (induction rs arbitrary: s0 k)
  case (Cons r rs)
  from Cons.prems(1) obtain s1 where s1: "run_ddl (rv_upgrade r) s0 = Inr s1" "run_ddl (rv_downgrade r) s1 = Inr s0" "undone rs s1"
    by (auto split: sum.splits)
  show ?case
  proof (cases k)
    case 0
    with s1 show ?thesis by simp
  next
    case (Suc j)
    with Cons.IH[OF s1(3), of j] Cons.prems(2) s1(1) show ?thesis by simp
  qed
qed simp

lemma bind_result_Inr_right: "bind_result r Inr = r"
  by (cases r) simp_all

lemma same_schema_refl:
  assumes "wf_schema s"
  shows "same_schema s s"
proof -
  have named: "table_named (td_name d) ds = d" if "distinct (map td_name ds)" "d \<in> set ds" for d and ds :: "table_def list"
    using that by (induction ds) auto
  have "tables_in ds es" if "\<And>d. d \<in> set ds \<Longrightarrow> table_named (td_name d) es = d" for ds es
    using that by (induction ds) (auto simp: same_refl)
  with named wf_schemaD(4)[OF assms] show ?thesis by (simp add: same_schema_def same_refl table_names_def)
qed

lemma undone_exactly:
  assumes "undone rs s0" "m \<le> n" "n \<le> length rs"
  shows "bind_result (fold_result (run_ddl \<circ> rv_upgrade) (take n rs) s0)
      (fold_result (run_ddl \<circ> rv_downgrade) (rev (drop m (take n rs)))) = fold_result (run_ddl \<circ> rv_upgrade) (take m rs) s0"
proof -
  define up where "up = run_ddl \<circ> rv_upgrade"
  define down where "down = run_ddl \<circ> rv_downgrade"
  have step: "\<exists>s s'. fold_result up (take k rs) s0 = Inr s \<and> up (rs ! k) s = Inr s' \<and> down (rs ! k) s' = Inr s"
    if "k < length rs" for k
    using undone_step[OF assms(1) that] by (simp add: up_def down_def)
  have "bind_result (fold_result up (take n rs) s0) (fold_result down (rev (drop m (take n rs)))) = fold_result up (take m rs) s0"
    using assms(2,3)
  proof (induction n)
    case (Suc n)
    show ?case
    proof (cases "m = Suc n")
      case False
      from step[of n] Suc.prems(2) obtain s s' where
        s: "fold_result up (take n rs) s0 = Inr s" "up (rs ! n) s = Inr s'" "down (rs ! n) s' = Inr s" by auto
      have "take (Suc n) rs = take n rs @ [rs ! n]" using Suc.prems(2) by (simp add: take_Suc_conv_app_nth)
      moreover from this have "drop m (take (Suc n) rs) = drop m (take n rs) @ [rs ! n]" using False Suc.prems by simp
      ultimately show ?thesis using Suc.IH False Suc.prems s by (simp add: fold_result_append)
    qed (simp add: bind_result_Inr_right)
  qed (simp add: bind_result_Inr_right)
  then show ?thesis by (simp only: up_def down_def)
qed

lemma trail_complete:
  "length (trail f xs s) = Suc (length xs) \<Longrightarrow> k \<le> length xs \<Longrightarrow> fold_result f (take k xs) s = Inr (trail f xs s ! k)"
proof (induction xs arbitrary: s k)
  case (Cons x xs)
  from Cons.prems(1) obtain s' where s': "f x s = Inr s'" "length (trail f xs s') = Suc (length xs)"
    by (cases "f x s") auto
  show ?case
  proof (cases k)
    case (Suc j)
    with Cons.IH[OF s'(2), of j] Cons.prems(2) s'(1) show ?thesis by simp
  qed simp
qed simp

lemma trail_length: "fold_result f xs s = Inr t \<Longrightarrow> length (trail f xs s) = Suc (length xs)"
  by (induction xs arbitrary: s) (auto simp: bind_result_Inr)

lemma all_same_nth: "all_same xs ys \<Longrightarrow> length xs = length ys \<and> (\<forall>k<length ys. same_schema (xs ! k) (ys ! k))"
  by (induction xs ys rule: all_same.induct) (auto simp: nth_Cons split: nat.splits)


text \<open>No foreign key of the declared schema refers to the episodes.\<close>

lemma episodes_unreferenced: "\<not> table_needed ''degradation_episodes'' (sc_tables (metadata_schema metadata))"
  by (simp only: ddl_eval table_lists model_defs schema_eq_eval list.map)

end
