(* ===== verification/Spec2Isabelle.thy ===== *)
theory Spec2Isabelle
  imports Inspection Training ProviderMigration Demo Migrations
begin

text \<open>
  A model of the revenue degradation and recovery service in this repository: a FastAPI application that ingests
  payment events of Razorpay and PayPal, detects where payments have begun to fail, explains it, predicts which
  payment in flight will fail, decides on an intervention, executes it (simulated), observes the outcome and
  attributes protected revenue to it. This theory imports the whole development and declares nothing itself.

  \<^bold>\<open>The program and where it is modelled\<close>

  Paths are relative to the repository; \<open>core\<close> and \<open>infrastructure\<close> are packages of its \<open>src\<close> directory.

  \<^item> \<open>Prelude\<close>: results of computations that may raise, strings, maxima, and the two interfaces every repository
    provides: \<open>version_log\<close> (an append-only table with contiguous version numbers per key) and \<open>keyed_table\<close> (one row
    per key, a conflict merges). \<open>Binary64\<close>: Python floats as rationals with \<open>fl\<close>, rounding to nearest even, after
    every operation; \<open>Decimal\<close> quantisation. \<open>Domain\<close>: records of \<open>core/domain\<close>, providers, exceptions, digests.
  \<^item> \<open>Ingestion\<close>, \<open>Paypal\<close> (Stage 1: \<open>core/parsers\<close>, \<open>core/normalizers\<close>, \<open>core/services\<close>, \<open>api/routes.py\<close>): the two
    webhook intakes from bytes to rows. \<open>PaypalClient\<close>: token cache and webhook verification. \<open>Guards\<close>: secrets,
    credentials, hosts, database safety, the migration runner.
  \<^item> \<open>Analytics\<close> (Stage 2, \<open>core/analytics\<close>): health snapshots of 5-minute windows per segment.
    \<open>Degradation\<close> (Stage 3, \<open>core/degradation\<close>): signals and the episode state machine.
    \<open>Rca\<close> (Stage 4, \<open>core/rca\<close>): candidate causes of an episode.
  \<^item> \<open>Attempts\<close> (\<open>payment_attempts.py\<close>, its repository, \<open>paypal_lifecycle\<close>): the registry that names a payment
    attempt and its provider. \<open>Prediction\<close> (Stage 5): features as of an instant, models, predictions.
    \<open>Training\<close> (\<open>core/ml/training.py\<close>): how the model is trained and validated.
  \<^item> \<open>Intervention\<close> (Stage 6, \<open>core/intervention\<close>): gates, scores, decisions. \<open>Execution\<close> (Stage 7,
    \<open>core/execution\<close>): commands, workers, observations. \<open>Attribution\<close> (Stage 8, \<open>core/attribution\<close>).
  \<^item> \<open>Pipeline\<close> (\<open>core/services/live_pipeline.py\<close>): Stages 2 to 8 run for one ingested event. \<open>LiveContext\<close>
    (\<open>scripts/generate_live_context.py\<close>): seeds traffic and runs Stages 2 to 4 on it. \<open>Demo\<close>
    (\<open>scripts/demo_orchestrator.py\<close>, \<open>scripts/generate_synthetic_history.py\<close>): seeds traffic and runs all stages on
    it. \<open>Inspection\<close> (\<open>api/inspection_routes.py\<close>): what the dashboard reads.
  \<^item> \<open>Ddl\<close>, \<open>Migrations\<close> (\<open>infrastructure/models.py\<close>, \<open>migrations/versions\<close>): the declared schema and the revisions that
    build it. \<open>ProviderMigration\<close>: what the two provider-identity revisions do to rows.

  A later stage reads the tables of the earlier ones and appends to its own, so the database is a chain of record
  extensions, one per stage: \<open>event_db\<close>, \<open>analytics_db\<close>, \<open>degradation_db\<close>, \<open>rca_db\<close>, \<open>attempts_db\<close>, \<open>prediction_db\<close>,
  \<open>decision_db\<close>, \<open>execution_db\<close>, \<open>attribution_db\<close>. An operation of a stage works on every extension of its record, and
  \<open>Pipeline\<close> runs them all on the last one.

  \<^bold>\<open>Conventions\<close>

  A table is the list of its rows in order of insertion, with its unique and foreign keys checked where a row is
  written. Instants are integers, microseconds of UTC. A handler is a function from arguments and database to \<open>Inl\<close> of
  an exception or \<open>Inr\<close> of result and database; where a commit separates what survives an exception, \<open>Inl\<close> carries the
  database that does. The wall clock, random ids and random draws are arguments; \<open>uuid5\<close> and SHA-256 are symbolic
  constructors, equal exactly on equal input. Code that is not in the repository is a parameter: \<open>loads\<close> (JSON
  decoding), \<open>hmac_hex\<close>, \<open>make_url\<close>, \<open>post\<close> (the network), \<open>avg\<close>, \<open>parse_uuid\<close>, \<open>uuid_str\<close>, \<open>predict_proba\<close>, \<open>sklearn\<close>,
  \<open>hexdigest\<close>, \<open>float_str\<close>, and the executor of a command.

  \<^bold>\<open>What is proved\<close>

  \<^item> Intake: an accepted webhook was authentic, what it stores is well-typed and stored once whatever the races;
    amounts survive rendering and parsing.
  \<^item> Stages 2 to 4: counts and amounts of a snapshot conserve those of its events; reconciling a timeline gives
    disjoint, ordered, correctly ranked episodes and depends on the decisive signals only; an evaluation is one of the
    documented outcomes, and its window loop returns.
  \<^item> Stages 5 to 8: no feature, prediction, observation or attribution depends on what became known after its
    instant; tables stay consistent under every operation; rate limits and cooldowns hold at all times; a command
    is dispatched at most once under every interleaving of workers, and the workers refine the abstract lifecycle
    of \<open>Execution\<close>; attribution equals its unclamped specification.
  \<^item> The pipeline keeps the invariants of all stages over any sequence of events, changes nothing it has not
    committed, and dispatches only what a prediction backs. The dashboard's money agrees with the attributions, its
    ledger has one row per decision (a specification over rows), its list agrees with the traces.
  \<^item> Training and serving build the same rows, the split is chronological, and an evaluated model comes from one
    clean snapshot. The generated live context produces the CRITICAL episode it announces. The demonstration keeps
    the invariants of all stages, deletes only what \<open>--reset\<close> may delete, and does not run twice on its own data.
  \<^item> The revisions build exactly the declared schema, every intermediate schema is well-formed, every downgrade
    restores; the provider backfill refuses or succeeds as a whole.

  The interfaces are locales with the laws their clients use, interpreted on the model's tables where these are
  defined: \<open>version_log\<close> (evaluations, signals, execution attempts, observations, attributions), its extension
  \<open>attempt_log\<close> (predictions, decisions), \<open>keyed_table\<close> (snapshots, baselines, episodes, attempts), and \<open>bounded_model\<close>
  (the deterministic model).

  \<^bold>\<open>Bounds and fuel\<close>

  \<open>decimal_of_str\<close> looks for the shortest decimal among at most 1100 places, which hold every binary64 value exactly.
  \<open>upgrade_path\<close> follows at most as many revisions as there are files. No other definition has fuel; loops are
  structural or have a termination proof. Python integers are unbounded; the 32-bit columns and the lengths of
  columns are checked at intake (Stage 1), where untrusted values enter, and not in the later stages.

  \<^bold>\<open>Not modelled\<close>

  Advisory locks and the ORM's identity map: the stages are sequential, with interleavings modelled for intake,
  workers of Stage 7, the PayPal token cache and training sessions. Texts of exceptions and log lines, documents with
  NaN, the static frontend (JavaScript and CSS), application start-up beyond what \<open>Guards\<close> checks, and
  \<open>train_synthetic_model.py\<close>, a command line around \<open>Training\<close>. Concurrent runs of the pipeline on one episode are
  outside the model: their fingerprint check precedes the lock.
\<close>

end
